(* ===== verification/Guard_Prelude.thy ===== *)
theory Guard_Prelude
  imports Main "HOL-Library.AList" "HOL-Library.Sublist" "HOL-Library.Multiset"
begin

text \<open>
  Shared vocabulary of the development: the JavaScript values the TypeScript sources pass
  around, the insertion-ordered \<open>Map\<close> of the language, append-only logs with a capacity,
  and the two generic interfaces every stateful component is proved against
  (an operation-driven system with an invariant, and one with a monotone measure).

  Conventions. A thrown error is a value \<open>Inl e\<close> of a sum type, a normal return is \<open>Inr v\<close>.
  Class instances are records and every method takes the instance and returns the updated one.
  A TypeScript \<open>string\<close> is a HOL \<open>string\<close>: one \<open>char\<close> per code unit, which covers the code
  units below 256. Integer-valued numbers (timestamps in milliseconds, counters, nonces) are
  \<open>int\<close> or \<open>nat\<close>, fractional ones \<open>rat\<close>; where the code tests for \<open>NaN\<close> or infinity the type is
  \<open>jsnum\<close>. Lines written to the console are not modelled.
\<close>

named_theorems js_defs \<open>definitions of the small JavaScript library functions\<close>
named_theorems inv_simps \<open>invariants of the component states, unfolded\<close>

section \<open>JavaScript values\<close>

datatype jsnum = Num int | JNaN | JInf | JNegInf

fun js_sub :: "jsnum \<Rightarrow> jsnum \<Rightarrow> jsnum" where
  "js_sub (Num a) (Num b) = Num (a - b)"
| "js_sub JNaN _ = JNaN"
| "js_sub _ JNaN = JNaN"
| "js_sub JInf JInf = JNaN"
| "js_sub JNegInf JNegInf = JNaN"
| "js_sub JInf _ = JInf"
| "js_sub JNegInf _ = JNegInf"
| "js_sub (Num _) JInf = JNegInf"
| "js_sub (Num _) JNegInf = JInf"

fun js_abs :: "jsnum \<Rightarrow> jsnum" where
  "js_abs (Num a) = Num \<bar>a\<bar>"
| "js_abs JNaN = JNaN"
| "js_abs JInf = JInf"
| "js_abs JNegInf = JInf"

text \<open>\<open>a > b\<close>: every comparison with \<open>NaN\<close> is false.\<close>

fun js_gt :: "jsnum \<Rightarrow> jsnum \<Rightarrow> bool" where
  "js_gt (Num a) (Num b) = (a > b)"
| "js_gt JNaN _ = False"
| "js_gt _ JNaN = False"
| "js_gt JInf b = (b \<noteq> JInf)"
| "js_gt JNegInf _ = False"
| "js_gt (Num _) JInf = False"
| "js_gt (Num _) JNegInf = True"

definition js_isFinite :: "jsnum \<Rightarrow> bool" where
  "js_isFinite x = (case x of Num _ \<Rightarrow> True | _ \<Rightarrow> False)"

text \<open>A value of type \<open>unknown\<close>. An object is its own enumerable properties in insertion order.\<close>

datatype jsval =
    JNull
  | JUndefined
  | JBool bool
  | JNumber jsnum
  | JString string
  | JArray "jsval list"
  | JObject "(string \<times> jsval) list"

text \<open>\<open>o[key]\<close> on an object: \<open>undefined\<close> when the property is absent.\<close>

definition js_prop :: "(string \<times> jsval) list \<Rightarrow> string \<Rightarrow> jsval" where
  "js_prop o' k = (case map_of o' k of None \<Rightarrow> JUndefined | Some v \<Rightarrow> v)"

section \<open>Severity levels\<close>

text \<open>The four levels the monitors share, ordered by weight.\<close>

datatype Severity = LOW | MEDIUM | HIGH | CRITICAL

fun severity_weight :: "Severity \<Rightarrow> nat" where
  "severity_weight LOW = 1"
| "severity_weight MEDIUM = 2"
| "severity_weight HIGH = 3"
| "severity_weight CRITICAL = 4"

lemma severity_weight_inj: "severity_weight s = severity_weight t \<Longrightarrow> s = t"
  by (cases s; cases t) auto

instantiation Severity :: linorder
begin

definition less_eq_Severity :: "Severity \<Rightarrow> Severity \<Rightarrow> bool" where
  "s \<le> t \<longleftrightarrow> severity_weight s \<le> severity_weight t"

definition less_Severity :: "Severity \<Rightarrow> Severity \<Rightarrow> bool" where
  "s < t \<longleftrightarrow> severity_weight s < severity_weight t"

instance
  by standard (auto simp: less_eq_Severity_def less_Severity_def dest: severity_weight_inj)

end

lemmas severity_order = less_eq_Severity_def less_Severity_def

fun severity_name :: "Severity \<Rightarrow> string" where
  "severity_name LOW = ''LOW''"
| "severity_name MEDIUM = ''MEDIUM''"
| "severity_name HIGH = ''HIGH''"
| "severity_name CRITICAL = ''CRITICAL''"

section \<open>The insertion-ordered Set of the language\<close>

text \<open>\<open>for (const x of xs) s.add(x)\<close>.\<close>

definition add_all :: "'a list \<Rightarrow> 'a list \<Rightarrow> 'a list" where
  "add_all s xs = foldl (\<lambda>s x. if x \<in> set s then s else s @ [x]) s xs"

lemma set_add_all [simp]: "set (add_all s xs) = set s \<union> set xs"
  unfolding add_all_def by (induction xs arbitrary: s) auto

lemma distinct_add_all [simp]: "distinct s \<Longrightarrow> distinct (add_all s xs)"
  unfolding add_all_def by (induction xs arbitrary: s) auto

section \<open>The insertion-ordered Map of the language\<close>

text \<open>
  \<open>Map\<close> iterates in insertion order: \<open>set\<close> on a present key keeps its position,
  \<open>set\<close> on a new key appends, \<open>delete\<close> removes. That is \<open>AList.update\<close> and \<open>AList.delete\<close>
  on an association list with distinct keys.
\<close>

type_synonym ('k, 'v) jmap = "('k \<times> 'v) list"

abbreviation jmap_get :: "('k, 'v) jmap \<Rightarrow> 'k \<Rightarrow> 'v option" where
  "jmap_get m k \<equiv> map_of m k"

abbreviation jmap_set :: "'k \<Rightarrow> 'v \<Rightarrow> ('k, 'v) jmap \<Rightarrow> ('k, 'v) jmap" where
  "jmap_set k v m \<equiv> AList.update k v m"

abbreviation jmap_delete :: "'k \<Rightarrow> ('k, 'v) jmap \<Rightarrow> ('k, 'v) jmap" where
  "jmap_delete k m \<equiv> AList.delete k m"

definition jmap_has :: "('k, 'v) jmap \<Rightarrow> 'k \<Rightarrow> bool" where
  "jmap_has m k = (map_of m k \<noteq> None)"

abbreviation jmap_keys :: "('k, 'v) jmap \<Rightarrow> 'k list" where
  "jmap_keys m \<equiv> map fst m"

definition jmap_ok :: "('k, 'v) jmap \<Rightarrow> bool" where
  "jmap_ok m = distinct (map fst m)"

text \<open>The \<open>delete\<close> then \<open>set\<close> idiom with which the limiters move a key to the end.\<close>

definition jmap_touch :: "'k \<Rightarrow> 'v \<Rightarrow> ('k, 'v) jmap \<Rightarrow> ('k, 'v) jmap" where
  "jmap_touch k v m = jmap_set k v (jmap_delete k m)"

lemma update_absent: "k \<notin> set (map fst m) \<Longrightarrow> AList.update k v m = m @ [(k, v)]"
  by (induction m) auto

lemma jmap_touch_eq: "jmap_touch k v m = jmap_delete k m @ [(k, v)]"
  unfolding jmap_touch_def by (rule update_absent) (simp add: delete_keys)

lemma jmap_has_iff: "jmap_has m k \<longleftrightarrow> k \<in> set (jmap_keys m)"
  by (auto simp: jmap_has_def map_of_eq_None_iff)

lemma jmap_ok_set: "jmap_ok m \<Longrightarrow> jmap_ok (jmap_set k v m)"
  by (simp add: jmap_ok_def distinct_update)

lemma jmap_ok_delete: "jmap_ok m \<Longrightarrow> jmap_ok (jmap_delete k m)"
  by (simp add: jmap_ok_def distinct_delete)

lemma jmap_ok_touch: "jmap_ok m \<Longrightarrow> jmap_ok (jmap_touch k v m)"
  by (simp add: jmap_touch_def jmap_ok_set jmap_ok_delete)

lemma jmap_get_set: "jmap_get (jmap_set k v m) x = (if x = k then Some v else jmap_get m x)"
  by (simp add: update_conv')

lemma jmap_get_delete: "jmap_get (jmap_delete k m) x = (if x = k then None else jmap_get m x)"
  by (simp add: delete_conv')

lemma jmap_get_touch: "jmap_get (jmap_touch k v m) x = (if x = k then Some v else jmap_get m x)"
  by (simp add: jmap_touch_def jmap_get_set jmap_get_delete)

text \<open>
  The contract of a keyed table the components rely on, and what follows for a client that
  replays a sequence of writes: only the last write to a key is visible.
\<close>

locale keyed_table =
  fixes get :: "'m \<Rightarrow> 'k \<Rightarrow> 'v option"
    and put :: "'k \<Rightarrow> 'v \<Rightarrow> 'm \<Rightarrow> 'm"
    and ok :: "'m \<Rightarrow> bool"
  assumes get_put: "get (put k v m) x = (if x = k then Some v else get m x)"
    and ok_put: "ok m \<Longrightarrow> ok (put k v m)"
begin

lemma ok_foldl_put: "ok m \<Longrightarrow> ok (foldl (\<lambda>m x. put (f x) (g x) m) m xs)"
  by (induction xs arbitrary: m) (auto intro: ok_put)

lemma get_foldl_put:
  "get (foldl (\<lambda>m x. put (f x) (g x) m) m xs) k =
     (case filter (\<lambda>x. f x = k) xs of [] \<Rightarrow> get m k | ys \<Rightarrow> Some (g (last ys)))"
proof (induction xs rule: rev_induct)
  case Nil
  show ?case by simp
next
  case (snoc x xs)
  then show ?case by (auto simp: get_put split: list.splits)
qed

end

interpretation set_table: keyed_table jmap_get jmap_set jmap_ok
  by unfold_locales (auto simp: jmap_get_set jmap_ok_set)

interpretation touch_table: keyed_table jmap_get jmap_touch jmap_ok
  by unfold_locales (auto simp: jmap_get_touch jmap_ok_touch)

text \<open>Sorting by a key that tells the elements apart does not depend on the order before.\<close>

lemma sort_key_unique:
  assumes "distinct (map f xs)" and "mset xs = mset ys"
  shows "sort_key f xs = sort_key f ys"
proof (rule map_sorted_distinct_set_unique [where f = f])
  have d: "distinct (map f ys)"
    using assms by (metis mset_eq_imp_distinct_iff mset_map)
  have st: "set ys = set xs" using assms(2) by (metis mset_eq_setD)
  show "inj_on f (set (sort_key f xs) \<union> set (sort_key f ys))"
    using assms(1) by (simp add: distinct_map st)
  have "mset (map f (sort_key f zs)) = mset (map f zs)" for zs by simp
  then show "distinct (map f (sort_key f xs))" "distinct (map f (sort_key f ys))"
    using assms(1) d by (metis mset_eq_imp_distinct_iff)+
qed (use assms(2) in \<open>auto dest: mset_eq_setD\<close>)

section \<open>Append-only logs with a capacity\<close>

text \<open>\<open>log.push(x); if (log.length > cap) log.shift();\<close>\<close>

definition push_shift :: "nat \<Rightarrow> 'a list \<Rightarrow> 'a \<Rightarrow> 'a list" where
  "push_shift cap xs x = (let ys = xs @ [x] in if length ys > cap then tl ys else ys)"

definition last_n :: "nat \<Rightarrow> 'a list \<Rightarrow> 'a list" where
  "last_n n xs = drop (length xs - n) xs"

lemma length_last_n [simp]: "length (last_n n xs) = min n (length xs)"
  by (simp add: last_n_def min_def)

lemma last_n_short [simp]: "length xs \<le> n \<Longrightarrow> last_n n xs = xs"
  by (simp add: last_n_def)

lemma last_n_snoc: "last_n n (last_n n xs @ [x]) = last_n n (xs @ [x])"
proof (cases "length xs \<le> n")
  case False
  define k where "k = length xs - n"
  have "k \<le> length xs" "length xs - k = n" using False by (auto simp: k_def)
  then show ?thesis
    by (auto simp: last_n_def k_def [symmetric] drop_append Suc_diff_le add.commute)
qed simp

lemma last_n_append: "last_n n (last_n n xs @ ys) = last_n n (xs @ ys)"
proof (induction ys rule: rev_induct)
  case (snoc y ys)
  have "last_n n (last_n n xs @ ys @ [y]) = last_n n (last_n n (last_n n xs @ ys) @ [y])"
    using last_n_snoc [of n "last_n n xs @ ys" y] by simp
  also have "\<dots> = last_n n (xs @ ys @ [y])" using snoc last_n_snoc [of n "xs @ ys" y] by simp
  finally show ?case by simp
qed (simp add: last_n_def)

lemma last_n_suffix: "suffix (last_n n xs) xs"
  by (simp add: last_n_def suffix_drop)

lemma push_shift_last_n:
  "length xs \<le> cap \<Longrightarrow> push_shift cap xs x = last_n cap (xs @ [x])"
  by (cases xs) (auto simp: push_shift_def last_n_def Let_def Suc_diff_le le_Suc_eq)

lemma push_shift_length: "length xs \<le> cap \<Longrightarrow> length (push_shift cap xs x) \<le> cap"
  by (simp add: push_shift_last_n)

text \<open>
  Contract of a capped log: a push on a log within its capacity keeps the newest \<open>cap\<close>
  entries. A client that pushes any sequence then holds exactly the newest entries, in order.
\<close>

locale capped_log =
  fixes push :: "'s \<Rightarrow> 'a \<Rightarrow> 's"
    and entries :: "'s \<Rightarrow> 'a list"
    and cap :: nat
  assumes entries_push:
    "length (entries s) \<le> cap \<Longrightarrow> entries (push s a) = last_n cap (entries s @ [a])"
begin

lemma within_cap: "length (entries s) \<le> cap \<Longrightarrow> length (entries (foldl push s as)) \<le> cap"
  by (induction as arbitrary: s) (auto simp: entries_push)

lemma entries_foldl:
  "length (entries s) \<le> cap \<Longrightarrow> entries (foldl push s as) = last_n cap (entries s @ as)"
proof (induction as rule: rev_induct)
  case Nil
  then show ?case by simp
next
  case (snoc a as)
  then have "length (entries (foldl push s as)) \<le> cap" by (simp add: within_cap)
  then have "entries (foldl push s (as @ [a])) = last_n cap (entries (foldl push s as) @ [a])"
    by (simp add: entries_push)
  with snoc show ?case by (simp add: last_n_snoc [of cap "entries s @ as"])
qed

end

interpretation shift_log: capped_log "push_shift cap" "\<lambda>xs. xs" cap for cap
  by unfold_locales (rule push_shift_last_n)

section \<open>Operation-driven systems\<close>

text \<open>
  A component is a state and a step for each call on it. An invariant that every call keeps
  holds after any sequence of calls; a measure no call lowers only grows along it.
\<close>

locale invariant_system =
  fixes step :: "'s \<Rightarrow> 'e \<Rightarrow> 's"
    and inv :: "'s \<Rightarrow> bool"
  assumes step_inv: "inv s \<Longrightarrow> inv (step s e)"
begin

lemma run_inv: "inv s \<Longrightarrow> inv (foldl step s es)"
  by (induction es arbitrary: s) (auto intro: step_inv)

lemma run_inv_prefix: "inv s \<Longrightarrow> prefix fs es \<Longrightarrow> inv (foldl step s fs)"
  by (rule run_inv)

end

locale monotone_system =
  fixes step :: "'s \<Rightarrow> 'e \<Rightarrow> 's"
    and level :: "'s \<Rightarrow> 'n::preorder"
  assumes step_mono: "level s \<le> level (step s e)"
begin

lemma run_mono: "level s \<le> level (foldl step s es)"
proof (induction es rule: rev_induct)
  case (snoc e es)
  have "level (foldl step s es) \<le> level (step (foldl step s es) e)" by (rule step_mono)
  with snoc show ?case by (auto intro: order_trans)
qed simp

lemma run_mono_prefix: "prefix fs es \<Longrightarrow> level (foldl step s fs) \<le> level (foldl step s es)"
  by (auto simp: prefix_def run_mono)

end

text \<open>Steps whose output is accounted for: \<open>made s t xs\<close> says that going from \<open>s\<close> to \<open>t\<close> produced exactly \<open>xs\<close>.\<close>

locale accounted_system =
  fixes step :: "'s \<Rightarrow> 'e \<Rightarrow> 's"
    and made :: "'s \<Rightarrow> 's \<Rightarrow> 'a list \<Rightarrow> bool"
  assumes made_none: "made s s []"
    and made_append: "made s t xs \<Longrightarrow> made t u ys \<Longrightarrow> made s u (xs @ ys)"
    and step_made: "\<exists>xs. made s (step s e) xs"
begin

lemma run_made: "\<exists>xs. made s (foldl step s es) xs"
proof (induction es arbitrary: s)
  case Nil
  show ?case using made_none [of s] by auto
next
  case (Cons e es)
  then show ?case using step_made [of s e] made_append [of s "step s e"] by fastforce
qed

end

end
