(* ===== verification/Js_Json.thy ===== *)
theory Js_Json
  imports Js_Text
begin

text \<open>
  \<open>JSON.stringify\<close> on plain values, with the decoding lemmas that make its output uniquely
  readable (a quoted string determines both the string and the rest of the text), and
  \<open>Date.prototype.toISOString\<close> with the \<open>RangeError\<close> it throws outside the time range.
\<close>

section \<open>Quoted strings\<close>

definition json_escape :: "char \<Rightarrow> string" where
  "json_escape c = (let n = of_char c :: nat in
     if n = 34 then [CHR 0x5C, CHR 0x22]
     else if n = 92 then [CHR 0x5C, CHR 0x5C]
     else if n = 8 then [CHR 0x5C, CHR ''b'']
     else if n = 12 then [CHR 0x5C, CHR ''f'']
     else if n = 10 then [CHR 0x5C, CHR ''n'']
     else if n = 13 then [CHR 0x5C, CHR ''r'']
     else if n = 9 then [CHR 0x5C, CHR ''t'']
     else if n < 32 then [CHR 0x5C, CHR ''u'', CHR ''0'', CHR ''0'',
                          digit_char (n div 16), digit_char (n mod 16)]
     else [c])"

definition json_quote :: "string \<Rightarrow> string" where
  "json_quote s = CHR 0x22 # concat (map json_escape s) @ [CHR 0x22]"

text \<open>Reads one (possibly escaped) character off a quoted text.\<close>

fun json_unescape :: "string \<Rightarrow> (char \<times> string) option" where
  "json_unescape [] = None"
| "json_unescape (c # r) =
     (if c \<noteq> CHR 0x5C then Some (c, r)
      else (case r of
              [] \<Rightarrow> None
            | e # r' \<Rightarrow>
                if e = CHR ''b'' then Some (char_of (8::nat), r')
                else if e = CHR ''f'' then Some (char_of (12::nat), r')
                else if e = CHR ''n'' then Some (char_of (10::nat), r')
                else if e = CHR ''r'' then Some (char_of (13::nat), r')
                else if e = CHR ''t'' then Some (char_of (9::nat), r')
                else if e = CHR ''u'' then
                  Some (char_of (read_base 16 (take 4 r')), drop 4 r')
                else Some (e, r')))"

lemma char_eqI: "of_char c = (of_char d :: nat) \<Longrightarrow> c = d"
  by simp

lemma char_of_of_char_nat: "of_char c = (n::nat) \<Longrightarrow> char_of n = c"
  by auto

lemma json_unescape_escape: "json_unescape (json_escape c @ r) = Some (c, r)"
proof -
  define n :: nat where "n = of_char c"
  have c: "char_of n = c" by (simp add: n_def)
  have q: "n = 34 \<Longrightarrow> c = CHR 0x22" "n = 92 \<Longrightarrow> c = CHR 0x5C" and b: "n \<noteq> 92 \<Longrightarrow> c \<noteq> CHR 0x5C"
    by (auto simp: n_def intro: char_eqI)
  have ctrl: "read_base 16 [CHR ''0'', CHR ''0'', digit_char (n div 16), digit_char (n mod 16)] = n"
    if "n < 32"
  proof -
    have "n div 16 < 16" "n mod 16 < 16" using that by auto
    then show ?thesis by (simp add: read_base_def digit_value_def [of "CHR ''0''"])
  qed
  show ?thesis
    using q b ctrl c by (auto simp: json_escape_def n_def [symmetric] Let_def)
qed

lemma json_escape_no_quote: "hd (json_escape c) \<noteq> CHR 0x22" "json_escape c \<noteq> []"
  by (auto simp: json_escape_def Let_def)

lemma json_quoted_unique:
  "concat (map json_escape s) @ CHR 0x22 # x = concat (map json_escape t) @ CHR 0x22 # y \<Longrightarrow>
   s = t \<and> x = y"
proof (induction s arbitrary: t)
  case Nil
  have "CHR 0x22 # u \<noteq> json_escape d" for u d
    using json_escape_no_quote(1) [of d] by (metis list.sel(1))
  with Nil show ?case
    using json_escape_no_quote(2) by (cases t) (auto simp: Cons_eq_append_conv)
next
  case (Cons c s)
  note eq = Cons.prems
  show ?case
  proof (cases t)
    case Nil
    with eq json_escape_no_quote [of c] show ?thesis by (auto simp: append_eq_Cons_conv)
  next
    case (Cons d t')
    with eq have "json_unescape (json_escape c @ concat (map json_escape s) @ CHR 0x22 # x)
        = json_unescape (json_escape d @ concat (map json_escape t') @ CHR 0x22 # y)"
      by simp
    then show ?thesis
      using Cons Cons.IH [of t'] by (simp add: json_unescape_escape)
  qed
qed

lemma json_quote_unique: "json_quote s @ x = json_quote t @ y \<longleftrightarrow> s = t \<and> x = y"
  using json_quoted_unique [of s x t y] by (auto simp: json_quote_def)

section \<open>Values\<close>

text \<open>
  Own properties are enumerated with the array-index keys first, in ascending order, then the
  other keys in the order they were added.
\<close>

definition is_array_index :: "string \<Rightarrow> bool" where
  "is_array_index k = (k \<noteq> [] \<and> list_all is_digit k \<and> (hd k \<noteq> CHR ''0'' \<or> length k = 1) \<and>
     read_base 10 k < 2 ^ 32 - 1)"

definition own_order :: "(string \<times> 'v) list \<Rightarrow> (string \<times> 'v) list" where
  "own_order ps =
     sort_key (\<lambda>p. read_base 10 (fst p)) (filter (\<lambda>p. is_array_index (fst p)) ps)
     @ filter (\<lambda>p. \<not> is_array_index (fst p)) ps"

definition json_num :: "jsnum \<Rightarrow> string" where
  "json_num x = (case x of Num i \<Rightarrow> show_int i | _ \<Rightarrow> ''null'')"

definition json_bool :: "bool \<Rightarrow> string" where
  "json_bool b = (if b then ''true'' else ''false'')"

definition json_fields :: "(string \<times> string) list \<Rightarrow> string" where
  "json_fields fs = ''{'' @ join '','' (map (\<lambda>(k, v). json_quote k @ '':'' @ v) fs) @ ''}''"

text \<open>\<open>undefined\<close> prints as \<open>null\<close> inside an array and drops its property inside an object.\<close>

fun json :: "jsval \<Rightarrow> string" where
  "json JNull = ''null''"
| "json JUndefined = ''null''"
| "json (JBool b) = json_bool b"
| "json (JNumber x) = json_num x"
| "json (JString s) = json_quote s"
| "json (JArray vs) = ''['' @ join '','' (map json vs) @ '']''"
| "json (JObject ps) =
     (let rendered = map (\<lambda>(k, v). (k, v = JUndefined, json v)) ps
      in json_fields (map (\<lambda>(k, _, t). (k, t))
           (filter (\<lambda>(_, u, _). \<not> u) (own_order rendered))))"

text \<open>A number followed by text that does not start with a digit is uniquely readable.\<close>

lemma digits_then_rest:
  assumes "list_all is_digit u" "list_all is_digit v" "u @ x = v @ y"
    and "x = [] \<or> \<not> is_digit (hd x)" "y = [] \<or> \<not> is_digit (hd y)"
  shows "u = v \<and> x = y"
  using assms
proof (induction u arbitrary: v)
  case Nil
  then show ?case by (cases v) auto
next
  case (Cons c u)
  then show ?case by (cases v) auto
qed

lemma list_all_show_nat: "list_all is_digit (show_nat n)"
  by (auto simp: list_all_iff is_digit_show_nat)

lemma show_int_unique:
  assumes "show_int i @ x = show_int j @ y"
    and "x = [] \<or> \<not> is_digit (hd x)" "y = [] \<or> \<not> is_digit (hd y)"
  shows "i = j \<and> x = y"
proof -
  have m: "\<not> is_digit CHR ''-''" by (simp add: is_digit_def)
  have nd: "CHR ''-'' # xs \<noteq> show_nat k @ ys" for xs ys k
    using m is_digit_show_nat [of "CHR ''-''" k] by (cases "show_nat k") auto
  have "nat i = nat j \<and> x = y" if "show_nat (nat i) @ x = show_nat (nat j) @ y"
    using digits_then_rest [OF list_all_show_nat list_all_show_nat that assms(2,3)]
    by (auto dest: show_base_inj [rotated 2])
  moreover have "nat (- i) = nat (- j) \<and> x = y" if "show_nat (nat (- i)) @ x = show_nat (nat (- j)) @ y"
    using digits_then_rest [OF list_all_show_nat list_all_show_nat that assms(2,3)]
    by (auto dest: show_base_inj [rotated 2])
  ultimately show ?thesis
  proof (cases "i < 0"; cases "j < 0")
    assume "\<not> i < 0" "j < 0"
    then show ?thesis
      using assms(1) nd [of "show_nat (nat (- j)) @ y" "nat i" x] by (auto simp: show_int_def)
  next
    assume "i < 0" "\<not> j < 0"
    then show ?thesis
      using assms(1) nd [of "show_nat (nat (- i)) @ x" "nat j" y] by (auto simp: show_int_def)
  qed (use assms(1) in \<open>auto simp: show_int_def\<close>)
qed

section \<open>ISO dates\<close>

text \<open>The time range is a hundred million days either side of the epoch.\<close>

definition valid_time :: "jsnum \<Rightarrow> bool" where
  "valid_time t = (case t of Num ms \<Rightarrow> \<bar>ms\<bar> \<le> 8640000000000000 | _ \<Rightarrow> False)"

definition civil_from_days :: "int \<Rightarrow> int \<times> int \<times> int" where
  "civil_from_days days =
     (let z = days + 719468;
          era = z div 146097;
          doe = z mod 146097;
          yoe = (doe - doe div 1460 + doe div 36524 - doe div 146096) div 365;
          doy = doe - (365 * yoe + yoe div 4 - yoe div 100);
          mp = (5 * doy + 2) div 153;
          d = doy - (153 * mp + 2) div 5 + 1;
          m = (if mp < 10 then mp + 3 else mp - 9);
          y = yoe + era * 400 + (if m \<le> 2 then 1 else 0)
      in (y, m, d))"

definition pad_int :: "nat \<Rightarrow> int \<Rightarrow> string" where
  "pad_int n i = padStart n CHR ''0'' (show_nat (nat i))"

definition iso_year :: "int \<Rightarrow> string" where
  "iso_year y = (if 0 \<le> y \<and> y \<le> 9999 then pad_int 4 y
     else if y < 0 then ''-'' @ pad_int 6 (- y) else ''+'' @ pad_int 6 y)"

definition iso_date :: "int \<Rightarrow> string" where
  "iso_date ms =
     (let (y, m, d) = civil_from_days (ms div 86400000);
          t = ms mod 86400000
      in iso_year y @ ''-'' @ pad_int 2 m @ ''-'' @ pad_int 2 d @ ''T'' @
         pad_int 2 (t div 3600000) @ '':'' @ pad_int 2 (t div 60000 mod 60) @ '':'' @
         pad_int 2 (t div 1000 mod 60) @ ''.'' @ pad_int 3 (t mod 1000) @ ''Z'')"

datatype range_error = InvalidTimeValue

fun toISOString :: "jsnum \<Rightarrow> range_error + string" where
  "toISOString (Num ms) = (if valid_time (Num ms) then Inr (iso_date ms) else Inl InvalidTimeValue)"
| "toISOString _ = Inl InvalidTimeValue"

lemma toISOString_valid: "(\<exists>s. toISOString t = Inr s) \<longleftrightarrow> valid_time t"
  by (cases t) (auto simp: valid_time_def)

section \<open>Dynamic values\<close>

text \<open>\<open>o[key]\<close> on a value that is an object; arrays have no such own keys.\<close>

fun js_get :: "jsval \<Rightarrow> string \<Rightarrow> jsval" where
  "js_get (JObject ps) k = js_prop ps k"
| "js_get _ k = JUndefined"

fun is_object :: "jsval \<Rightarrow> bool" where
  "is_object (JObject ps) = True"
| "is_object (JArray vs) = True"
| "is_object _ = False"

definition is_nullish :: "jsval \<Rightarrow> bool" where
  "is_nullish v = (v = JNull \<or> v = JUndefined)"

text \<open>
  \<open>String(v)\<close>, or \<open>v\<close> in a template. It throws for an object that has its own \<open>toString\<close>, which is no function in a value
  that came as JSON, and for an array that holds one: \<open>printable\<close> says that it does not.\<close>

fun js_String :: "jsval \<Rightarrow> string" where
  "js_String JNull = ''null''"
| "js_String JUndefined = ''undefined''"
| "js_String (JBool b) = json_bool b"
| "js_String (JNumber x) = show_num x"
| "js_String (JString s) = s"
| "js_String (JArray vs) = join '','' (map (\<lambda>v. if is_nullish v then [] else js_String v) vs)"
| "js_String (JObject ps) = ''[object Object]''"

fun printable :: "jsval \<Rightarrow> bool" where
  "printable (JArray vs) = list_all printable vs"
| "printable (JObject ps) = (map_of ps ''toString'' = None)"
| "printable v = True"

fun js_add :: "jsnum \<Rightarrow> jsnum \<Rightarrow> jsnum" where
  "js_add (Num a) (Num b) = Num (a + b)"
| "js_add JNaN _ = JNaN"
| "js_add _ JNaN = JNaN"
| "js_add JInf JNegInf = JNaN"
| "js_add JNegInf JInf = JNaN"
| "js_add JInf _ = JInf"
| "js_add _ JInf = JInf"
| "js_add JNegInf _ = JNegInf"
| "js_add _ JNegInf = JNegInf"

text \<open>Product with a positive constant.\<close>

fun js_scale :: "int \<Rightarrow> jsnum \<Rightarrow> jsnum" where
  "js_scale k (Num a) = Num (k * a)"
| "js_scale k x = x"

section \<open>Printing is injective\<close>

text \<open>
  Values whose text determines them: no \<open>undefined\<close>, finite numbers, and no array-index keys (which
  printing moves to the front).
\<close>

fun json_plain :: "jsval \<Rightarrow> bool" where
  "json_plain JUndefined = False"
| "json_plain (JNumber x) = js_isFinite x"
| "json_plain (JArray vs) = list_all json_plain vs"
| "json_plain (JObject ps) = list_all (\<lambda>(k, v). \<not> is_array_index k \<and> json_plain v) ps"
| "json_plain _ = True"

definition no_digit_next :: "string \<Rightarrow> bool" where
  "no_digit_next x = (x = [] \<or> \<not> is_digit (hd x))"

definition json_member :: "string \<times> jsval \<Rightarrow> string" where
  "json_member p = json_quote (fst p) @ '':'' @ json (snd p)"

lemma own_order_id: "list_all (\<lambda>p. \<not> is_array_index (fst p)) ps \<Longrightarrow> own_order ps = ps"
  by (simp add: own_order_def list_all_iff filter_id_conv filter_empty_conv)

lemma json_plain_object:
  assumes "json_plain (JObject ps)"
  shows "json (JObject ps) = ''{'' @ join '','' (map json_member ps) @ ''}''"
proof -
  let ?r = "map (\<lambda>(k, v). (k, v = JUndefined, json v)) ps"
  have "list_all (\<lambda>p. \<not> is_array_index (fst p)) ?r" using assms by (auto simp: list_all_iff)
  then have o: "own_order ?r = ?r" by (rule own_order_id)
  have f: "filter (\<lambda>(_, u, _). \<not> u) ?r = ?r" using assms by (auto simp: filter_id_conv list_all_iff)
  show ?thesis unfolding json.simps Let_def o f
    by (simp add: json_fields_def comp_def case_prod_beta json_member_def [abs_def])
qed

lemma join_tail: "join '','' (map f (v # vs)) = f v @ concat (map (\<lambda>v. CHR '','' # f v) vs)"
  by (induction vs arbitrary: v) auto

text \<open>A separated sequence of uniquely readable items is uniquely readable up to its end mark.\<close>

lemma tail_unique:
  assumes "\<And>u w x y. \<lbrakk>u \<in> set vs; Q w; f u @ x = f w @ y; no_digit_next x; no_digit_next y\<rbrakk> \<Longrightarrow> u = w \<and> x = y"
    and "list_all Q ws" and e: "e \<noteq> CHR '',''" "\<not> is_digit e"
    and "concat (map (\<lambda>v. CHR '','' # f v) vs) @ e # x = concat (map (\<lambda>v. CHR '','' # f v) ws) @ e # y"
  shows "vs = ws \<and> x = y"
  using assms(1,2,5)
proof (induction vs arbitrary: ws)
  case Nil
  then show ?case using e by (cases ws) auto
next
  case (Cons v vs)
  then obtain w ws' where ws: "ws = w # ws'" using e by (cases ws) auto
  have nd: "no_digit_next (concat (map (\<lambda>v. CHR '','' # f v) us) @ e # z)" for us z
    using e by (cases us) (auto simp: no_digit_next_def is_digit_def)
  have "v = w \<and> concat (map (\<lambda>v. CHR '','' # f v) vs) @ e # x = concat (map (\<lambda>v. CHR '','' # f v) ws') @ e # y"
    using Cons.prems(1) [of v w] Cons.prems(2,3) ws nd by simp
  moreover have "vs = ws' \<and> x = y"
    by (rule Cons.IH) (use Cons.prems ws calculation in auto)
  ultimately show ?case using ws by simp
qed

lemma join_unique:
  assumes u: "\<And>u w x y. \<lbrakk>u \<in> set vs; Q w; f u @ x = f w @ y; no_digit_next x; no_digit_next y\<rbrakk> \<Longrightarrow> u = w \<and> x = y"
    and q: "list_all Q ws" and e: "e \<noteq> CHR '',''" "\<not> is_digit e"
    and h: "\<And>w. f w \<noteq> [] \<and> hd (f w) \<noteq> e"
    and eq: "join '','' (map f vs) @ e # x = join '','' (map f ws) @ e # y"
  shows "vs = ws \<and> x = y"
proof (cases vs; cases ws)
  fix v vs' w ws' assume vw: "vs = v # vs'" "ws = w # ws'"
  have nd: "no_digit_next (concat (map (\<lambda>v. CHR '','' # f v) us) @ e # z)" for us z
    using e by (cases us) (auto simp: no_digit_next_def is_digit_def)
  have "f v @ concat (map (\<lambda>v. CHR '','' # f v) vs') @ e # x = f w @ concat (map (\<lambda>v. CHR '','' # f v) ws') @ e # y"
    using eq unfolding vw join_tail by simp
  then have 1: "v = w \<and> concat (map (\<lambda>v. CHR '','' # f v) vs') @ e # x = concat (map (\<lambda>v. CHR '','' # f v) ws') @ e # y"
    using u [of v w] q vw nd by simp
  have "vs' = ws' \<and> x = y"
    by (rule tail_unique [of vs' Q f ws' e]) (use u q vw e 1 in auto)
  with 1 show ?thesis using vw by simp
next
  fix w ws' assume "vs = []" "ws = w # ws'"
  then show ?thesis using eq h [of w] join_tail [of f w ws'] by (cases "f w") auto
next
  fix v vs' assume "vs = v # vs'" "ws = []"
  then show ?thesis using eq h [of v] join_tail [of f v vs'] by (cases "f v") auto
qed (use eq in simp)

text \<open>The first character of a text tells the kind of value.\<close>

fun json_kind :: "jsval \<Rightarrow> nat" where
  "json_kind JNull = 0"
| "json_kind JUndefined = 0"
| "json_kind (JBool b) = (if b then 1 else 2)"
| "json_kind (JNumber x) = 3"
| "json_kind (JString s) = 4"
| "json_kind (JArray vs) = 5"
| "json_kind (JObject ps) = 6"

definition kind_of_char :: "char \<Rightarrow> nat" where
  "kind_of_char c = (if c = CHR ''n'' then 0 else if c = CHR ''t'' then 1 else if c = CHR ''f'' then 2
     else if c = CHR ''-'' \<or> is_digit c then 3 else if c = CHR 0x22 then 4 else if c = CHR ''['' then 5 else 6)"

lemma show_int_hd: "show_int i \<noteq> []" "kind_of_char (hd (show_int i)) = 3"
proof -
  have "is_digit (hd (show_nat n))" for n
    by (rule is_digit_show_nat [of _ n]) (rule list.set_sel(1), simp)
  moreover have "\<not> is_digit CHR ''n''" "\<not> is_digit CHR ''t''" "\<not> is_digit CHR ''f''"
    by (simp_all add: is_digit_def)
  ultimately show "show_int i \<noteq> []" "kind_of_char (hd (show_int i)) = 3"
    by (auto simp: show_int_def kind_of_char_def split: if_splits) (metis)+
qed

lemma json_hd: "json_plain v \<Longrightarrow> json v \<noteq> [] \<and> kind_of_char (hd (json v)) = json_kind v"
proof (cases v)
  case (JNumber n)
  moreover assume "json_plain v"
  ultimately obtain i where "n = Num i" by (auto simp: js_isFinite_def split: jsnum.splits)
  then show ?thesis using JNumber show_int_hd [of i] by (simp add: json_num_def)
qed (auto simp: json_bool_def json_quote_def json_fields_def kind_of_char_def is_digit_def Let_def)

lemma json_same_kind:
  assumes "json_plain v" "json_plain w" "json v @ x = json w @ y"
  shows "json_kind v = json_kind w"
  using json_hd [OF assms(1)] json_hd [OF assms(2)] assms(3) by (metis hd_append)

lemma json_hd_close: "json v \<noteq> [] \<and> hd (json v) \<noteq> CHR '']''"
proof (cases v)
  case (JNumber n)
  have "hd (show_int i) \<noteq> CHR '']''" for i
    using show_int_hd(2) [of i] by (auto simp: kind_of_char_def is_digit_def)
  then show ?thesis using JNumber show_int_hd(1) by (auto simp: json_num_def split: jsnum.splits)
qed (auto simp: json_bool_def json_quote_def json_fields_def Let_def)

lemma json_unique:
  assumes "json_plain v" "json_plain w" "json v @ x = json w @ y" "no_digit_next x" "no_digit_next y"
  shows "v = w \<and> x = y"
  using assms
proof (induction v arbitrary: w x y)
  case JNull
  then show ?case using json_same_kind [OF JNull(1-3)] by (cases w) (auto split: if_splits)
next
  case JUndefined
  then show ?case by simp
next
  case (JBool b)
  then show ?case using json_same_kind [OF JBool(1-3)] by (cases w) (auto split: if_splits)
next
  case (JNumber n)
  then obtain m where w: "w = JNumber m" using json_same_kind [OF JNumber(1-3)] by (cases w) (auto split: if_splits)
  obtain i j where "n = Num i" "m = Num j" using JNumber(1,2) w by (auto simp: js_isFinite_def split: jsnum.splits)
  then show ?case using JNumber(3-5) w show_int_unique [of i x j y]
    by (simp add: json_num_def no_digit_next_def)
next
  case (JString s)
  then obtain t where "w = JString t" using json_same_kind [OF JString(1-3)] by (cases w) (auto split: if_splits)
  then show ?case using JString(3) json_quote_unique [of s x t y] by simp
next
  case (JArray vs)
  then obtain ws where w: "w = JArray ws" using json_same_kind [OF JArray(2-4)] by (cases w) (auto split: if_splits)
  have "vs = ws \<and> x = y"
  proof (rule join_unique [of vs json_plain json ws "CHR '']''"])
    show "join '','' (map json vs) @ CHR '']'' # x = join '','' (map json ws) @ CHR '']'' # y"
      using JArray(4) w by simp
    show "u = w' \<and> x' = y'" if "u \<in> set vs" "json_plain w'" "json u @ x' = json w' @ y'"
      "no_digit_next x'" "no_digit_next y'" for u w' x' y'
      using JArray.IH [OF that(1) _ that(2-5)] JArray(2) that(1) by (simp add: list_all_iff)
  qed (use JArray(3) w json_hd_close in \<open>simp_all add: is_digit_def\<close>)
  then show ?case using w by simp
next
  case (JObject ps)
  then obtain qs where w: "w = JObject qs" using json_same_kind [OF JObject(2-4)] by (cases w) (auto split: if_splits)
  let ?Q = "\<lambda>(k, v). \<not> is_array_index k \<and> json_plain v"
  have "ps = qs \<and> x = y"
  proof (rule join_unique [of ps ?Q json_member qs "CHR ''}''"])
    show "join '','' (map json_member ps) @ CHR ''}'' # x = join '','' (map json_member qs) @ CHR ''}'' # y"
      using JObject(4) json_plain_object [of ps] json_plain_object [of qs] JObject(2,3) w by simp
    show "p = q \<and> x' = y'" if "p \<in> set ps" "?Q q" "json_member p @ x' = json_member q @ y'"
      "no_digit_next x'" "no_digit_next y'" for p q x' y'
    proof -
      have "fst p = fst q \<and> json (snd p) @ x' = json (snd q) @ y'"
        using that(3) json_quote_unique [of "fst p" "'':'' @ json (snd p) @ x'" "fst q" "'':'' @ json (snd q) @ y'"]
        by (simp add: json_member_def)
      then show ?thesis
        using JObject.IH [of p "snd p" "snd q" x' y'] that JObject(2)
        by (cases p; cases q) (auto simp: list_all_iff)
    qed
  qed (use JObject(3) w in \<open>auto simp: json_member_def json_quote_def is_digit_def\<close>)
  then show ?case using w by simp
qed

lemma json_inj: "json_plain v \<Longrightarrow> json_plain w \<Longrightarrow> json v = json w \<longleftrightarrow> v = w"
  using json_unique [of v w "[]" "[]"] by (auto simp: no_digit_next_def)

end
