(* ===== verification/Protocol_Machine.thy ===== *)
theory Protocol_Machine
  imports Js_Json "HOL-Library.Word"
begin

text \<open>
  The scanner-engine protocol state machine (\<open>protocol-state-machine.ts\<close>): the transition
  table, the FNV snapshot hash on 32-bit words, \<open>apply\<close> with its guards in source order,
  \<open>tryApply\<close>, \<open>shutdown\<close>, \<open>snapshot\<close>, the observer notifications of every path, and the alert
  payload built from an error. Observers are numbered; an exception thrown by one is caught by
  the code, so each observer is called and the calls are the third result of an operation.
\<close>

unbundle bit_operations_syntax

section \<open>Data\<close>

datatype ProtocolState = IDLE | SCANNING | REPORTING | DONE | FAILED

datatype ProtocolEvent =
    SCAN_STARTED (scanId: string) (target: string) (ev_timestamp: jsnum)
  | SCAN_COMPLETED (scanId: string) (findingCount: int) (ev_timestamp: jsnum)
  | SCAN_FAILED (scanId: string) (reason: string) (ev_timestamp: jsnum)
  | REPORT_STARTED (scanId: string) (ev_timestamp: jsnum)
  | REPORT_DELIVERED (scanId: string) (reportHash: string) (ev_timestamp: jsnum)
  | REPORT_FAILED (scanId: string) (reason: string) (ev_timestamp: jsnum)
  | RESET (requestedBy: string) (ev_timestamp: jsnum)

datatype StateMachineError =
    InvalidTransitionError ProtocolState string
  | ScanIdMismatchError string string
  | TimestampViolationError jsnum jsnum int
  | StateMachineShutdownError
  | InvariantViolationError string

text \<open>What \<open>apply\<close> can throw: a typed error, or the \<open>RangeError\<close> that formatting an
  unrepresentable timestamp raises while the typed error is being constructed.\<close>

datatype sm_throw = Typed StateMachineError | Untyped range_error

record TransitionRecord =
  tr_seq :: nat
  tr_fromState :: ProtocolState
  tr_toState :: ProtocolState
  tr_event :: ProtocolEvent
  tr_timestamp :: jsnum
  tr_snapshotHash :: string

record Machine =
  m_state :: ProtocolState
  m_activeScanId :: "string option"
  m_lastEventTimestamp :: "jsnum option"
  m_transitionCount :: nat
  m_snapshotHash :: string
  m_history :: "TransitionRecord list"
  m_shutdown :: bool
  m_maxHistoryDepth :: nat
  m_maxClockSkewMs :: int
  m_observers :: nat

type_synonym notification = "nat \<times> TransitionRecord \<times> StateMachineError option"

fun state_name :: "ProtocolState \<Rightarrow> string" where
  "state_name IDLE = ''IDLE''"
| "state_name SCANNING = ''SCANNING''"
| "state_name REPORTING = ''REPORTING''"
| "state_name DONE = ''DONE''"
| "state_name FAILED = ''FAILED''"

fun event_type :: "ProtocolEvent \<Rightarrow> string" where
  "event_type (SCAN_STARTED _ _ _) = ''SCAN_STARTED''"
| "event_type (SCAN_COMPLETED _ _ _) = ''SCAN_COMPLETED''"
| "event_type (SCAN_FAILED _ _ _) = ''SCAN_FAILED''"
| "event_type (REPORT_STARTED _ _) = ''REPORT_STARTED''"
| "event_type (REPORT_DELIVERED _ _ _) = ''REPORT_DELIVERED''"
| "event_type (REPORT_FAILED _ _ _) = ''REPORT_FAILED''"
| "event_type (RESET _ _) = ''RESET''"

text \<open>\<open>"scanId" in event\<close>.\<close>

fun event_scanId :: "ProtocolEvent \<Rightarrow> string option" where
  "event_scanId (RESET _ _) = None"
| "event_scanId e = Some (scanId e)"

definition is_reset :: "ProtocolEvent \<Rightarrow> bool" where
  "is_reset e = (case e of RESET _ _ \<Rightarrow> True | _ \<Rightarrow> False)"

definition is_scan_started :: "ProtocolEvent \<Rightarrow> bool" where
  "is_scan_started e = (case e of SCAN_STARTED _ _ _ \<Rightarrow> True | _ \<Rightarrow> False)"

text \<open>\<open>JSON.stringify(event)\<close> for an event object with its fields in declaration order.\<close>

fun event_json :: "ProtocolEvent \<Rightarrow> string" where
  "event_json (SCAN_STARTED i t ts) = json (JObject [(''type'', JString ''SCAN_STARTED''),
     (''scanId'', JString i), (''target'', JString t), (''timestamp'', JNumber ts)])"
| "event_json (SCAN_COMPLETED i n ts) = json (JObject [(''type'', JString ''SCAN_COMPLETED''),
     (''scanId'', JString i), (''findingCount'', JNumber (Num n)), (''timestamp'', JNumber ts)])"
| "event_json (SCAN_FAILED i r ts) = json (JObject [(''type'', JString ''SCAN_FAILED''),
     (''scanId'', JString i), (''reason'', JString r), (''timestamp'', JNumber ts)])"
| "event_json (REPORT_STARTED i ts) = json (JObject [(''type'', JString ''REPORT_STARTED''),
     (''scanId'', JString i), (''timestamp'', JNumber ts)])"
| "event_json (REPORT_DELIVERED i h ts) = json (JObject [(''type'', JString ''REPORT_DELIVERED''),
     (''scanId'', JString i), (''reportHash'', JString h), (''timestamp'', JNumber ts)])"
| "event_json (REPORT_FAILED i r ts) = json (JObject [(''type'', JString ''REPORT_FAILED''),
     (''scanId'', JString i), (''reason'', JString r), (''timestamp'', JNumber ts)])"
| "event_json (RESET u ts) = json (JObject [(''type'', JString ''RESET''),
     (''requestedBy'', JString u), (''timestamp'', JNumber ts)])"

section \<open>Transition table and snapshot hash\<close>

fun TRANSITIONS :: "ProtocolState \<Rightarrow> (string \<times> ProtocolState) list option" where
  "TRANSITIONS IDLE = Some [(''SCAN_STARTED'', SCANNING)]"
| "TRANSITIONS SCANNING = Some [(''SCAN_COMPLETED'', REPORTING), (''SCAN_FAILED'', FAILED)]"
| "TRANSITIONS REPORTING = Some [(''REPORT_STARTED'', REPORTING), (''REPORT_DELIVERED'', DONE),
     (''REPORT_FAILED'', FAILED)]"
| "TRANSITIONS DONE = None"
| "TRANSITIONS FAILED = None"

definition next_state :: "ProtocolState \<Rightarrow> ProtocolEvent \<Rightarrow> ProtocolState option" where
  "next_state s e = (case TRANSITIONS s of None \<Rightarrow> None | Some row \<Rightarrow> map_of row (event_type e))"

definition fnv_step :: "32 word \<Rightarrow> char \<Rightarrow> 32 word" where
  "fnv_step h c = (h XOR word_of_nat (of_char c)) * 0x01000193"

definition fnv :: "32 word \<Rightarrow> string \<Rightarrow> 32 word" where
  "fnv h s = foldl fnv_step h s"

definition hex8 :: "32 word \<Rightarrow> string" where
  "hex8 w = padStart 8 CHR ''0'' (show_base 16 (unat w))"

definition computeSnapshotHash :: "string \<Rightarrow> string" where
  "computeSnapshotHash input = hex8 (fnv 0x811c9dc5 input) @ hex8 (fnv 0xc4ceb9fe input)"

section \<open>Operations\<close>

definition new_machine :: "nat option \<Rightarrow> int option \<Rightarrow> nat \<Rightarrow> Machine" where
  "new_machine depth skew observers =
     \<lparr>m_state = IDLE, m_activeScanId = None, m_lastEventTimestamp = None, m_transitionCount = 0,
      m_snapshotHash = computeSnapshotHash ''IDLE:0'', m_history = [], m_shutdown = False,
      m_maxHistoryDepth = (case depth of None \<Rightarrow> 1000 | Some d \<Rightarrow> d),
      m_maxClockSkewMs = (case skew of None \<Rightarrow> 300000 | Some k \<Rightarrow> k),
      m_observers = observers\<rparr>"

definition notifyObservers ::
  "Machine \<Rightarrow> TransitionRecord option \<Rightarrow> ProtocolEvent \<Rightarrow> StateMachineError option \<Rightarrow>
   notification list" where
  "notifyObservers m record event err =
     (let r = (case record of Some r \<Rightarrow> r
        | None \<Rightarrow> \<lparr>tr_seq = m_transitionCount m, tr_fromState = m_state m, tr_toState = m_state m,
                   tr_event = event, tr_timestamp = ev_timestamp event,
                   tr_snapshotHash = m_snapshotHash m\<rparr>)
      in map (\<lambda>i. (i, r, err)) [0..<m_observers m])"

definition hash_input :: "string \<Rightarrow> ProtocolState \<Rightarrow> ProtocolState \<Rightarrow> ProtocolEvent \<Rightarrow> nat \<Rightarrow> string" where
  "hash_input h from to event seq =
     h @ '':'' @ state_name from @ '':'' @ state_name to @ '':'' @ event_type event @ '':'' @
     show_nat seq @ '':'' @ event_json event"

definition commit ::
  "Machine \<Rightarrow> ProtocolState \<Rightarrow> ProtocolEvent \<Rightarrow> TransitionRecord \<times> Machine \<times> notification list" where
  "commit m toState event =
     (let from = m_state m;
          seq = Suc (m_transitionCount m);
          ts = ev_timestamp event;
          h = computeSnapshotHash (hash_input (m_snapshotHash m) from toState event seq);
          record = \<lparr>tr_seq = seq, tr_fromState = from, tr_toState = toState, tr_event = event,
                    tr_timestamp = ts, tr_snapshotHash = h\<rparr>;
          m' = m\<lparr>m_transitionCount := seq, m_state := toState, m_snapshotHash := h,
                 m_lastEventTimestamp := Some ts,
                 m_activeScanId := (if is_scan_started event then Some (scanId event)
                                    else if toState = IDLE then None else m_activeScanId m),
                 m_history := push_shift (m_maxHistoryDepth m) (m_history m) record\<rparr>
      in (record, m', notifyObservers m' (Some record) event None))"

definition applyReset ::
  "Machine \<Rightarrow> ProtocolEvent \<Rightarrow> TransitionRecord \<times> Machine \<times> notification list" where
  "applyReset m event =
     (case commit m IDLE event of (record, m', ns) \<Rightarrow> (record, m'\<lparr>m_activeScanId := None\<rparr>, ns))"

type_synonym 'a sm_result = "(sm_throw + 'a) \<times> Machine \<times> notification list"

definition reject :: "Machine \<Rightarrow> ProtocolEvent \<Rightarrow> StateMachineError \<Rightarrow> 'a sm_result" where
  "reject m event err = (Inl (Typed err), m, notifyObservers m None event (Some err))"

text \<open>Steps 4 and 5 of \<open>apply\<close>: table lookup and commit.\<close>

definition apply_table :: "Machine \<Rightarrow> ProtocolEvent \<Rightarrow> TransitionRecord sm_result" where
  "apply_table m event =
     (case next_state (m_state m) event of
        None \<Rightarrow> reject m event (InvalidTransitionError (m_state m) (event_type event))
      | Some toState \<Rightarrow> (case commit m toState event of (r, m', ns) \<Rightarrow> (Inr r, m', ns)))"

definition skewed :: "jsnum \<Rightarrow> Machine \<Rightarrow> ProtocolEvent \<Rightarrow> bool" where
  "skewed now m event = (m_maxClockSkewMs m > 0 \<and>
     js_gt (js_abs (js_sub (ev_timestamp event) now)) (Num (m_maxClockSkewMs m)))"

text \<open>Step 3: an event other than \<open>SCAN_STARTED\<close> that carries a scan id must carry the active one.\<close>

definition scan_mismatch :: "Machine \<Rightarrow> ProtocolEvent \<Rightarrow> (string \<times> string) option" where
  "scan_mismatch m event =
     (case (m_activeScanId m, event_scanId event) of
        (Some active, Some received) \<Rightarrow>
          if \<not> is_scan_started event \<and> received \<noteq> active then Some (active, received) else None
      | _ \<Rightarrow> None)"

text \<open>Constructing the \<open>TimestampViolationError\<close> formats both times, which may throw.\<close>

definition reject_skewed :: "jsnum \<Rightarrow> Machine \<Rightarrow> ProtocolEvent \<Rightarrow> TransitionRecord sm_result" where
  "reject_skewed now m event =
     (case toISOString (ev_timestamp event) of
        Inl e \<Rightarrow> (Inl (Untyped e), m, [])
      | Inr _ \<Rightarrow> (case toISOString now of
          Inl e \<Rightarrow> (Inl (Untyped e), m, [])
        | Inr _ \<Rightarrow> reject m event
            (TimestampViolationError (ev_timestamp event) now (m_maxClockSkewMs m))))"

definition apply_event :: "jsnum \<Rightarrow> Machine \<Rightarrow> ProtocolEvent \<Rightarrow> TransitionRecord sm_result" where
  "apply_event now m event =
     (if m_shutdown m then reject m event StateMachineShutdownError
      else if skewed now m event then reject_skewed now m event
      else if is_reset event then
        (case applyReset m event of (r, m', ns) \<Rightarrow> (Inr r, m', ns))
      else (case scan_mismatch m event of
          Some (active, received) \<Rightarrow> reject m event (ScanIdMismatchError active received)
        | None \<Rightarrow> apply_table m event))"

text \<open>\<open>tryApply\<close> catches the typed errors and lets anything else escape.\<close>

definition tryApply ::
  "jsnum \<Rightarrow> Machine \<Rightarrow> ProtocolEvent \<Rightarrow>
   (range_error + TransitionRecord option \<times> StateMachineError option) \<times> Machine \<times> notification list"
where
  "tryApply now m event =
     (case apply_event now m event of (out, m', ns) \<Rightarrow>
        ((case out of Inr r \<Rightarrow> Inr (Some r, None)
          | Inl (Typed e) \<Rightarrow> Inr (None, Some e)
          | Inl (Untyped e) \<Rightarrow> Inl e), m', ns))"

definition sm_shutdown :: "Machine \<Rightarrow> Machine" where
  "sm_shutdown m = m\<lparr>m_shutdown := True\<rparr>"

record StateMachineSnapshot =
  snap_state :: ProtocolState
  snap_activeScanId :: "string option"
  snap_lastEventTimestamp :: "jsnum option"
  snap_transitionCount :: nat
  snap_snapshotHash :: string

definition snapshot :: "Machine \<Rightarrow> StateMachineSnapshot" where
  "snapshot m = \<lparr>snap_state = m_state m, snap_activeScanId = m_activeScanId m,
     snap_lastEventTimestamp = m_lastEventTimestamp m,
     snap_transitionCount = m_transitionCount m, snap_snapshotHash = m_snapshotHash m\<rparr>"

section \<open>Alerts\<close>

fun error_code :: "StateMachineError \<Rightarrow> string" where
  "error_code (InvalidTransitionError _ _) = ''INVALID_TRANSITION''"
| "error_code (ScanIdMismatchError _ _) = ''SCAN_ID_MISMATCH''"
| "error_code (TimestampViolationError _ _ _) = ''TIMESTAMP_VIOLATION''"
| "error_code StateMachineShutdownError = ''STATE_MACHINE_SHUTDOWN''"
| "error_code (InvariantViolationError _) = ''INVARIANT_VIOLATION''"

definition severityMap :: "(string \<times> Severity) list" where
  "severityMap = [(''INVALID_TRANSITION'', HIGH), (''SCAN_ID_MISMATCH'', CRITICAL),
     (''TIMESTAMP_VIOLATION'', HIGH), (''STATE_MACHINE_SHUTDOWN'', MEDIUM),
     (''INVARIANT_VIOLATION'', CRITICAL)]"

fun error_name :: "StateMachineError \<Rightarrow> string" where
  "error_name (InvalidTransitionError _ _) = ''InvalidTransitionError''"
| "error_name (ScanIdMismatchError _ _) = ''ScanIdMismatchError''"
| "error_name (TimestampViolationError _ _ _) = ''TimestampViolationError''"
| "error_name StateMachineShutdownError = ''StateMachineShutdownError''"
| "error_name (InvariantViolationError _) = ''InvariantViolationError''"

abbreviation em_dash :: string where
  "em_dash \<equiv> [CHR 0xE2, CHR 0x80, CHR 0x94]"

abbreviation dq :: string where
  "dq \<equiv> [CHR 0x22]"

definition iso_or_empty :: "jsnum \<Rightarrow> string" where
  "iso_or_empty t = (case toISOString t of Inl _ \<Rightarrow> [] | Inr s \<Rightarrow> s)"

text \<open>The messages the constructors assemble. A \<open>TimestampViolationError\<close> exists only for times
  that can be formatted.\<close>

fun error_message :: "StateMachineError \<Rightarrow> string" where
  "error_message (InvalidTransitionError s e) =
     ''Invalid protocol transition: cannot apply event '' @ dq @ e @ dq @ '' from state '' @ dq @
     state_name s @ dq @ '' '' @ em_dash @ '' no transition defined from '' @ dq @ state_name s @
     dq @ '' on '' @ dq @ e @ dq"
| "error_message (ScanIdMismatchError expected received) =
     ''Scan-ID mismatch: expected '' @ dq @ expected @ dq @ '', received '' @ dq @ received @ dq @
     '' '' @ em_dash @ '' possible replay or race condition''"
| "error_message (TimestampViolationError ev now window) =
     ''Event timestamp out of allowed window ('' @ [CHR 0xC2, CHR 0xB1] @ show_int window @
     ''ms): event='' @ iso_or_empty ev @ '', machine='' @ iso_or_empty now @ '', delta='' @
     show_num (js_sub ev now) @ ''ms''"
| "error_message StateMachineShutdownError =
     ''Protocol state machine has been shut down '' @ em_dash @ '' no further events accepted''"
| "error_message (InvariantViolationError d) = ''Internal invariant violated: '' @ d"

record StateMachineAlertPayload =
  al_source :: string
  al_type :: string
  al_severity :: Severity
  al_message :: string
  al_detail :: string
  al_timestamp :: string
  al_metadata :: "(string \<times> jsval) list"

definition alert_severity_of :: "StateMachineError \<Rightarrow> Severity" where
  "alert_severity_of e = (case map_of severityMap (error_code e) of None \<Rightarrow> HIGH | Some s \<Rightarrow> s)"

definition buildStateMachineAlert ::
  "int \<Rightarrow> StateMachineError \<Rightarrow> (string \<times> jsval) list \<Rightarrow> StateMachineAlertPayload" where
  "buildStateMachineAlert now err ctx =
     \<lparr>al_source = ''protocol-state-machine'', al_type = error_code err,
      al_severity = alert_severity_of err,
      al_message = [CHR 0xE2, CHR 0x9A, CHR 0xA0, CHR 0xEF, CHR 0xB8, CHR 0x8F] @
        ''  Protocol state machine anomaly: ['' @ error_code err @ ''] '' @ error_message err,
      al_detail = error_message err, al_timestamp = iso_date now,
      al_metadata = foldl (\<lambda>o' (k, v). jmap_set k v o')
        [(''errorName'', JString (error_name err))] ctx\<rparr>"

text \<open>The ready-made observer: the line it prints, or nothing for a valid transition.\<close>

definition consoleAlertObserver ::
  "int \<Rightarrow> string \<Rightarrow> TransitionRecord \<Rightarrow> StateMachineError option \<Rightarrow> string option" where
  "consoleAlertObserver now pre record err =
     (case err of None \<Rightarrow> None
      | Some e \<Rightarrow>
          (let alert = buildStateMachineAlert now e
             [(''seq'', JNumber (Num (int (tr_seq record)))),
              (''fromState'', JString (state_name (tr_fromState record))),
              (''toState'', JString (state_name (tr_toState record))),
              (''eventType'', JString (event_type (tr_event record)))]
           in Some (pre @ '' ALERT ['' @ severity_name (al_severity alert) @ ''] '' @
                al_type alert @ '': '' @ al_message alert)))"

text \<open>The calls a client can make on a machine, and the machine after them.\<close>

datatype machine_op = Apply jsnum ProtocolEvent | Shutdown

fun machine_step :: "Machine \<Rightarrow> machine_op \<Rightarrow> Machine" where
  "machine_step m (Apply now e) = fst (snd (apply_event now m e))"
| "machine_step m Shutdown = sm_shutdown m"

fun committed :: "Machine \<Rightarrow> machine_op \<Rightarrow> TransitionRecord list" where
  "committed m (Apply now e) =
     (case fst (apply_event now m e) of Inr r \<Rightarrow> [r] | Inl _ \<Rightarrow> [])"
| "committed m Shutdown = []"

fun run_records :: "Machine \<Rightarrow> machine_op list \<Rightarrow> TransitionRecord list" where
  "run_records m [] = []"
| "run_records m (x # xs) = committed m x @ run_records (machine_step m x) xs"

section \<open>The machine invariant\<close>

text \<open>Two consecutive history records continue each other.\<close>

definition link_ok :: "TransitionRecord \<Rightarrow> TransitionRecord \<Rightarrow> bool" where
  "link_ok r r' = (tr_fromState r' = tr_toState r \<and> tr_seq r' = Suc (tr_seq r) \<and>
     tr_snapshotHash r' = computeSnapshotHash
       (hash_input (tr_snapshotHash r) (tr_fromState r') (tr_toState r') (tr_event r') (tr_seq r')))"

text \<open>A record that the protocol diagram allows.\<close>

definition allowed_record :: "TransitionRecord \<Rightarrow> bool" where
  "allowed_record r = (if is_reset (tr_event r) then tr_toState r = IDLE
     else next_state (tr_fromState r) (tr_event r) = Some (tr_toState r))"

definition machine_inv :: "Machine \<Rightarrow> bool" where
  "machine_inv m =
     (length (m_history m) \<le> m_maxHistoryDepth m \<and>
      successively link_ok (m_history m) \<and>
      list_all allowed_record (m_history m) \<and>
      (m_history m \<noteq> [] \<longrightarrow>
         tr_toState (last (m_history m)) = m_state m \<and>
         tr_seq (last (m_history m)) = m_transitionCount m \<and>
         tr_snapshotHash (last (m_history m)) = m_snapshotHash m) \<and>
      (m_activeScanId m = None \<longleftrightarrow> m_state m = IDLE))"

lemmas machine_defs = apply_event_def apply_table_def applyReset_def reject_def reject_skewed_def
  skewed_def scan_mismatch_def

lemma commit_simps:
  assumes "commit m to e = (r, m', ns)"
  shows "tr_fromState r = m_state m" "tr_toState r = to" "tr_event r = e"
    "tr_seq r = Suc (m_transitionCount m)" "tr_timestamp r = ev_timestamp e"
    "tr_snapshotHash r = computeSnapshotHash
       (hash_input (m_snapshotHash m) (m_state m) to e (Suc (m_transitionCount m)))"
    "m_state m' = to" "m_snapshotHash m' = tr_snapshotHash r"
    "m_transitionCount m' = Suc (m_transitionCount m)"
    "m_history m' = push_shift (m_maxHistoryDepth m) (m_history m) r"
    "m_maxHistoryDepth m' = m_maxHistoryDepth m" "m_maxClockSkewMs m' = m_maxClockSkewMs m"
    "m_shutdown m' = m_shutdown m" "m_observers m' = m_observers m"
    "m_lastEventTimestamp m' = Some (ev_timestamp e)"
    "m_activeScanId m' = (if is_scan_started e then Some (scanId e)
       else if to = IDLE then None else m_activeScanId m)"
    "ns = map (\<lambda>i. (i, r, None)) [0..<m_observers m]"
  using assms by (auto simp: commit_def Let_def notifyObservers_def)

text \<open>The two ways an event is committed, and that an error changes nothing.\<close>

lemma apply_event_cases [consumes 1, case_names reset table error]:
  assumes "apply_event now m e = (out, m', ns)"
  obtains (reset) r m'' where "is_reset e" "\<not> m_shutdown m" "\<not> skewed now m e" "out = Inr r"
      "commit m IDLE e = (r, m'', ns)" "m' = m''\<lparr>m_activeScanId := None\<rparr>"
  | (table) r to where "\<not> is_reset e" "\<not> m_shutdown m" "\<not> skewed now m e" "out = Inr r"
      "next_state (m_state m) e = Some to"
      "scan_mismatch m e = None" "commit m to e = (r, m', ns)"
  | (error) t where "out = Inl t" "m' = m"
  using assms
  by (auto simp: apply_event_def apply_table_def applyReset_def reject_def reject_skewed_def
      split: if_splits option.splits prod.splits sum.splits)

lemma next_state_not_idle: "next_state s e = Some to \<Longrightarrow> to \<noteq> IDLE"
  by (cases s; cases e) (auto simp: next_state_def)

lemma next_state_started: "next_state s e = Some to \<Longrightarrow> is_scan_started e \<longleftrightarrow> s = IDLE"
  by (cases s; cases e) (auto simp: next_state_def is_scan_started_def)

text \<open>An active scan is what makes a non-idle state, so a mismatch is always detected there.\<close>

lemma machine_inv_new: "machine_inv (new_machine d k n)"
  by (simp add: machine_inv_def new_machine_def)

lemma successively_push_shift:
  assumes "successively P xs" "xs \<noteq> [] \<longrightarrow> P (last xs) x"
  shows "successively P (push_shift cap xs x)"
proof -
  have "successively P (xs @ [x])" using assms by (auto simp: successively_append_iff)
  then show ?thesis
    by (cases "xs @ [x]") (auto simp: push_shift_def Let_def successively_Cons)
qed

lemma set_push_shift: "set (push_shift cap xs x) \<subseteq> insert x (set xs)"
  by (cases xs) (auto simp: push_shift_def Let_def)

lemma last_push_shift: "push_shift cap xs x \<noteq> [] \<Longrightarrow> last (push_shift cap xs x) = x"
  by (cases xs) (auto simp: push_shift_def Let_def split: if_splits)

lemma commit_inv:
  assumes inv: "machine_inv m" and c: "commit m to e = (r, m', ns)"
    and ok: "if is_reset e then to = IDLE else next_state (m_state m) e = Some to"
  shows "machine_inv (m'\<lparr>m_activeScanId := a\<rparr>) \<longleftrightarrow> (a = None \<longleftrightarrow> to = IDLE)"
proof -
  note s = commit_simps [OF c]
  have "m_history m \<noteq> [] \<Longrightarrow> link_ok (last (m_history m)) r"
    using inv by (simp add: machine_inv_def link_ok_def s)
  then have "successively link_ok (m_history m')"
    using inv by (auto simp: machine_inv_def s intro!: successively_push_shift)
  moreover have "list_all allowed_record (m_history m')"
    using inv ok set_push_shift [of "m_maxHistoryDepth m" "m_history m" r]
    by (auto simp: machine_inv_def s list_all_iff allowed_record_def)
  moreover have "length (m_history m') \<le> m_maxHistoryDepth m'"
    using inv by (simp add: machine_inv_def s push_shift_length)
  ultimately show ?thesis
    by (auto simp: machine_inv_def s last_push_shift)
qed

lemma apply_event_inv:
  assumes "machine_inv m" "apply_event now m e = (out, m', ns)"
  shows "machine_inv m'"
  using assms(2)
proof (cases rule: apply_event_cases)
  case (reset r m'')
  with assms(1) show ?thesis by (auto simp: commit_inv)
next
  case (table r to)
  have m': "m' = m'\<lparr>m_activeScanId := m_activeScanId m'\<rparr>" by simp
  have "m_activeScanId m' \<noteq> None"
    using table assms(1) next_state_not_idle next_state_started
    by (auto simp: commit_simps machine_inv_def)
  then show ?thesis
    using commit_inv [OF assms(1) table(7), of "m_activeScanId m'"] table next_state_not_idle m'
    by auto
next
  case (error t)
  with assms(1) show ?thesis by simp
qed

interpretation machine_sys: invariant_system machine_step machine_inv
proof unfold_locales
  fix m x assume inv: "machine_inv m"
  show "machine_inv (machine_step m x)"
  proof (cases x)
    case (Apply now e)
    obtain out m' ns where "apply_event now m e = (out, m', ns)" by (cases "apply_event now m e")
    with inv Apply show ?thesis by (simp add: apply_event_inv)
  next
    case Shutdown
    with inv show ?thesis by (simp add: sm_shutdown_def machine_inv_def)
  qed
qed

section \<open>The snapshot hash\<close>

lemma fnv_mult_inj: "(a :: 32 word) * 0x01000193 = b * 0x01000193 \<Longrightarrow> a = b"
proof -
  assume "a * 0x01000193 = b * 0x01000193"
  then have "a * 0x01000193 * 899433627 = b * 0x01000193 * (899433627 :: 32 word)" by simp
  moreover have "(0x01000193 :: 32 word) * 899433627 = 1" by simp
  ultimately show "a = b" by (simp only: mult.assoc mult_1_right)
qed

lemma word_of_char_inj: "(word_of_nat (of_char c) :: 32 word) = word_of_nat (of_char d) \<Longrightarrow> c = d"
proof -
  assume eq: "(word_of_nat (of_char c) :: 32 word) = word_of_nat (of_char d)"
  have lt: "of_char x < (2 ^ 32 :: nat)" for x
    using nat_of_char_less_256 [of x] by (rule less_le_trans) simp
  have "unat (word_of_nat (of_char x) :: 32 word) = of_char x" for x
    using lt by (simp add: unat_of_nat take_bit_nat_eq_self)
  with eq show "c = d" by (metis char_eqI)
qed

lemma xor_cancel_left: "(h :: 32 word) XOR a = h XOR b \<Longrightarrow> a = b"
  by (metis xor.assoc xor.left_neutral xor_self_eq)

lemma xor_cancel_right: "(a :: 32 word) XOR c = b XOR c \<Longrightarrow> a = b"
  by (metis xor.commute xor_cancel_left)

lemma fnv_step_inj: "fnv_step h c = fnv_step h' c \<Longrightarrow> h = h'"
  unfolding fnv_step_def by (blast dest: fnv_mult_inj xor_cancel_right)

lemma fnv_step_char_inj: "fnv_step h c = fnv_step h d \<Longrightarrow> c = d"
  unfolding fnv_step_def by (blast dest: fnv_mult_inj xor_cancel_left word_of_char_inj)

lemma fnv_inj: "fnv h s = fnv h' s \<Longrightarrow> h = h'"
  unfolding fnv_def by (induction s arbitrary: h h') (auto dest: fnv_step_inj)

lemma read_base_zeros: "read_base b (replicate k CHR ''0'' @ s) = read_base b s"
  by (induction k) (auto simp: read_base_def digit_value_def)

lemma read_hex8: "read_base 16 (hex8 w) = unat w"
  by (simp add: hex8_def padStart_def read_base_zeros read_show_base)

lemma length_hex8: "length (hex8 w) = 8"
proof -
  have "unat w < 16 ^ 8" using unsigned_less [of w, where 'a = nat] by simp
  then have "length (show_base 16 (unat w)) \<le> 8" by (rule show_base_length [rotated]) auto
  then show ?thesis by (simp add: hex8_def)
qed

lemma hex8_inj: "hex8 v = hex8 w \<Longrightarrow> v = w"
  by (metis read_hex8 word_unat_eq_iff)

lemma computeSnapshotHash_eq_iff:
  "computeSnapshotHash s = computeSnapshotHash t \<longleftrightarrow>
     fnv 0x811c9dc5 s = fnv 0x811c9dc5 t \<and> fnv 0xc4ceb9fe s = fnv 0xc4ceb9fe t"
  by (auto simp: computeSnapshotHash_def length_hex8 dest: hex8_inj)

section \<open>The protocol diagram and the sessions it allows\<close>

text \<open>The diagram of the module header as a labelled relation, with \<open>RESET\<close> from every state.\<close>

inductive diagram :: "ProtocolState \<Rightarrow> ProtocolEvent \<Rightarrow> ProtocolState \<Rightarrow> bool" where
  d_start: "diagram IDLE (SCAN_STARTED i t ts) SCANNING"
| d_complete: "diagram SCANNING (SCAN_COMPLETED i n ts) REPORTING"
| d_scan_fail: "diagram SCANNING (SCAN_FAILED i r ts) FAILED"
| d_report: "diagram REPORTING (REPORT_STARTED i ts) REPORTING"
| d_deliver: "diagram REPORTING (REPORT_DELIVERED i h ts) DONE"
| d_report_fail: "diagram REPORTING (REPORT_FAILED i r ts) FAILED"
| d_reset: "diagram s (RESET u ts) IDLE"

inductive_simps diagram_reset: "diagram s (RESET u ts) s'"
inductive_cases diagram_from_DONE: "diagram DONE e s"
inductive_cases diagram_from_FAILED: "diagram FAILED e s"

lemma diagram_iff:
  "diagram s e s' \<longleftrightarrow> (if is_reset e then s' = IDLE else next_state s e = Some s')"
  by (cases e; cases s; cases s')
     (auto simp: is_reset_def next_state_def diagram.simps)

text \<open>The events of one scan session with id \<open>i\<close>, ending in the given state.\<close>

inductive session :: "string \<Rightarrow> ProtocolState \<Rightarrow> ProtocolEvent list \<Rightarrow> bool" for i where
  s_start: "session i SCANNING [SCAN_STARTED i t ts]"
| s_step: "session i s es \<Longrightarrow> next_state s e = Some s' \<Longrightarrow> event_scanId e = Some i \<Longrightarrow>
     session i s' (es @ [e])"

lemma session_not_idle: "session i s es \<Longrightarrow> s \<noteq> IDLE"
  by (induction rule: session.induct) (auto dest: next_state_not_idle)

lemma next_stateE:
  assumes "next_state s e = Some s'"
  obtains i t ts where "s = IDLE" "e = SCAN_STARTED i t ts" "s' = SCANNING"
  | i n ts where "s = SCANNING" "e = SCAN_COMPLETED i n ts" "s' = REPORTING"
  | i r ts where "s = SCANNING" "e = SCAN_FAILED i r ts" "s' = FAILED"
  | i ts where "s = REPORTING" "e = REPORT_STARTED i ts" "s' = REPORTING"
  | i h ts where "s = REPORTING" "e = REPORT_DELIVERED i h ts" "s' = DONE"
  | i r ts where "s = REPORTING" "e = REPORT_FAILED i r ts" "s' = FAILED"
  using assms by (cases s; cases e) (auto simp: next_state_def)

definition report_started :: "string \<Rightarrow> ProtocolEvent \<Rightarrow> bool" where
  "report_started i e = (case e of REPORT_STARTED j _ \<Rightarrow> j = i | _ \<Rightarrow> False)"

lemma session_shape:
  "session i s es \<Longrightarrow>
     (s = SCANNING \<longrightarrow> (\<exists>t ts. es = [SCAN_STARTED i t ts])) \<and>
     (s = REPORTING \<longrightarrow> (\<exists>t ts n ts' reps. es = SCAN_STARTED i t ts # SCAN_COMPLETED i n ts' # reps \<and>
         list_all (report_started i) reps)) \<and>
     (s = DONE \<longrightarrow> (\<exists>t ts n ts' reps h ts''.
         es = SCAN_STARTED i t ts # SCAN_COMPLETED i n ts' # reps @ [REPORT_DELIVERED i h ts''] \<and>
         list_all (report_started i) reps))"
proof (induction rule: session.induct)
  case (s_start t ts)
  then show ?case by simp
next
  case (s_step s es e s')
  from \<open>next_state s e = Some s'\<close> show ?case
    by (cases rule: next_stateE)
       (use s_step session_not_idle in \<open>fastforce simp: report_started_def\<close>)+
qed

lemma run_records_snoc:
  "run_records m (xs @ [x]) = run_records m xs @ committed (foldl machine_step m xs) x"
  by (induction xs arbitrary: m) auto

lemma committed_step:
  assumes "machine_inv m"
  shows "m_history (machine_step m x) = last_n (m_maxHistoryDepth m) (m_history m @ committed m x)"
    and "m_transitionCount (machine_step m x) = m_transitionCount m + length (committed m x)"
    and "m_maxHistoryDepth (machine_step m x) = m_maxHistoryDepth m"
proof -
  have len: "length (m_history m) \<le> m_maxHistoryDepth m" using assms by (simp add: machine_inv_def)
  have "m_history (machine_step m x) = last_n (m_maxHistoryDepth m) (m_history m @ committed m x) \<and>
    m_transitionCount (machine_step m x) = m_transitionCount m + length (committed m x) \<and>
    m_maxHistoryDepth (machine_step m x) = m_maxHistoryDepth m"
  proof (cases x)
    case (Apply now e)
    obtain out m' ns where a: "apply_event now m e = (out, m', ns)" by (cases "apply_event now m e")
    then show ?thesis
      by (cases rule: apply_event_cases) (use Apply a len in \<open>auto simp: commit_simps push_shift_last_n\<close>)
  next
    case Shutdown
    with len show ?thesis by (simp add: sm_shutdown_def)
  qed
  then show "m_history (machine_step m x) = last_n (m_maxHistoryDepth m) (m_history m @ committed m x)"
    and "m_transitionCount (machine_step m x) = m_transitionCount m + length (committed m x)"
    and "m_maxHistoryDepth (machine_step m x) = m_maxHistoryDepth m" by auto
qed

lemma run_history:
  assumes "machine_inv m"
  shows "m_history (foldl machine_step m ops) = last_n (m_maxHistoryDepth m) (m_history m @ run_records m ops) \<and>
    m_transitionCount (foldl machine_step m ops) = m_transitionCount m + length (run_records m ops) \<and>
    m_maxHistoryDepth (foldl machine_step m ops) = m_maxHistoryDepth m"
proof (induction ops rule: rev_induct)
  case Nil
  with assms show ?case by (simp add: machine_inv_def)
next
  case (snoc x ops)
  have "machine_inv (foldl machine_step m ops)" using assms by (rule machine_sys.run_inv)
  from committed_step [OF this, of x] snoc show ?case
    by (simp add: run_records_snoc last_n_append [of _ "m_history m @ run_records m ops"])
qed

text \<open>One call extends the current session, starts one, or leaves the machine idle.\<close>

lemma committed_session:
  assumes inv: "machine_inv m"
    and sess: "m_state m \<noteq> IDLE \<longrightarrow> (\<exists>i pre es. m_activeScanId m = Some i \<and> evs = pre @ es \<and>
      session i (m_state m) es)"
    and m': "m' = machine_step m x" and ns: "m_state m' \<noteq> IDLE"
  shows "\<exists>i pre es. m_activeScanId m' = Some i \<and>
    evs @ map tr_event (committed m x) = pre @ es \<and> session i (m_state m') es"
proof (cases x)
  case (Apply now e)
  obtain out m'' ns' where a: "apply_event now m e = (out, m'', ns')" by (cases "apply_event now m e")
  with m' Apply have m'': "m' = m''" by simp
  from a show ?thesis
  proof (cases rule: apply_event_cases)
    case (reset r k)
    with ns m'' show ?thesis by (simp add: commit_simps)
  next
    case (table r to)
    note c = commit_simps [OF table(7)]
    show ?thesis
    proof (cases "m_state m = IDLE")
      case True
      with table(5) obtain i t ts where "e = SCAN_STARTED i t ts" "to = SCANNING"
        by (auto elim: next_stateE)
      then show ?thesis using Apply a table m''
        by (intro exI [of _ i] exI [of _ evs] exI [of _ "[e]"])
           (auto simp: c is_scan_started_def intro: s_start)
    next
      case False
      with sess obtain i pre es where *: "m_activeScanId m = Some i" "evs = pre @ es"
        "session i (m_state m) es" by auto
      have st: "\<not> is_scan_started e" using table(5) False next_state_started by blast
      have "event_scanId e = Some i"
        using table(1,6) * st by (cases e) (auto simp: scan_mismatch_def is_reset_def split: if_splits)
      with * have "session i to (es @ [e])" using table(5) by (blast intro: s_step)
      then show ?thesis using Apply a table m'' * st next_state_not_idle [OF table(5)]
        by (intro exI [of _ i] exI [of _ pre] exI [of _ "es @ [e]"]) (auto simp: c)
    qed
  next
    case (error t)
    with sess m'' ns Apply a show ?thesis by auto
  qed
next
  case Shutdown
  with sess m' ns show ?thesis by (auto simp: sm_shutdown_def)
qed

lemma run_session:
  assumes m: "m = new_machine d k n" and ns: "m_state (foldl machine_step m ops) \<noteq> IDLE"
  shows "\<exists>i pre es. m_activeScanId (foldl machine_step m ops) = Some i \<and>
    map tr_event (run_records m ops) = pre @ es \<and> session i (m_state (foldl machine_step m ops)) es"
  using ns
proof (induction ops rule: rev_induct)
  case Nil
  with m show ?case by (simp add: new_machine_def)
next
  case (snoc x ops)
  have "machine_inv (foldl machine_step m ops)"
    unfolding m by (rule machine_sys.run_inv [OF machine_inv_new])
  from committed_session [OF this _ refl, of "map tr_event (run_records m ops)" x] snoc
  show ?case by (simp add: run_records_snoc)
qed

section \<open>Properties\<close>

text \<open>
  C1. After any sequence of \<open>apply\<close> and \<open>shutdown\<close> calls on a new machine: the history is
  within its depth, consecutive records continue each other (state, sequence number and
  snapshot-hash chain), every record is a transition of the table or a reset, the newest record
  agrees with the machine, and a scan id is active exactly outside \<open>IDLE\<close>.
\<close>

theorem machine_reachable_inv: "machine_inv (foldl machine_step (new_machine d k n) ops)"
  by (rule machine_sys.run_inv [OF machine_inv_new])

text \<open>
  C20. The retained history is exactly the newest \<open>maxHistoryDepth\<close> of all committed
  transitions, oldest first, and \<open>transitionCount\<close> counts all of them.
\<close>

theorem machine_history_exact:
  fixes ops :: "machine_op list" and d :: "nat option" and k :: "int option" and n :: nat
  defines "m \<equiv> new_machine d k n"
  shows "m_history (foldl machine_step m ops) = last_n (m_maxHistoryDepth m) (run_records m ops) \<and>
    m_transitionCount (foldl machine_step m ops) = length (run_records m ops)"
  using run_history [OF machine_inv_new, of d k n ops] by (simp add: m_def new_machine_def)

text \<open>
  \<open>apply\<close> commits an event exactly when the machine is running, the clock guard passes, the
  protocol diagram has the transition and, inside a session, the event carries the active scan
  id; the machine is then in the state the diagram names.
\<close>

theorem apply_success_iff:
  "(\<exists>r m' ns. apply_event now m e = (Inr r, m', ns) \<and> m_state m' = s') \<longleftrightarrow>
     \<not> m_shutdown m \<and> \<not> skewed now m e \<and> diagram (m_state m) e s' \<and>
     (is_reset e \<or> is_scan_started e \<or> m_activeScanId m = None \<or>
      m_activeScanId m = event_scanId e)"
proof -
  have ids: "\<not> is_reset e \<Longrightarrow> scan_mismatch m e = None \<longleftrightarrow>
      is_scan_started e \<or> m_activeScanId m = None \<or> m_activeScanId m = event_scanId e"
    by (cases e) (auto simp: scan_mismatch_def is_reset_def is_scan_started_def split: option.splits)
  show ?thesis
  proof (cases "m_shutdown m \<or> skewed now m e")
    case True
    then show ?thesis
      by (auto simp: apply_event_def reject_def reject_skewed_def split: sum.splits)
  next
    case False
    then show ?thesis
      using ids by (cases "is_reset e")
        (auto simp: apply_event_def apply_table_def applyReset_def reject_def diagram_iff commit_def
          Let_def split: option.splits)
  qed
qed

text \<open>
  A machine that has reached \<open>DONE\<close> got there by one session: its committed events end
  with the start, the completion, any number of report starts and the delivery, all with the
  active scan id.
\<close>

theorem done_session:
  fixes ops :: "machine_op list" and d :: "nat option" and k :: "int option" and n :: nat
  defines "m \<equiv> new_machine d k n"
  assumes "m_state (foldl machine_step m ops) = DONE"
  shows "\<exists>i pre t ts c ts' reps h ts''.
    m_activeScanId (foldl machine_step m ops) = Some i \<and> list_all (report_started i) reps \<and>
    map tr_event (run_records m ops) =
      pre @ [SCAN_STARTED i t ts, SCAN_COMPLETED i c ts'] @ reps @ [REPORT_DELIVERED i h ts'']"
proof -
  obtain i pre es where "m_activeScanId (foldl machine_step m ops) = Some i"
    "map tr_event (run_records m ops) = pre @ es" "session i DONE es"
    using run_session [of m d k n ops] assms by auto
  with session_shape [of i DONE es] show ?thesis by fastforce
qed

theorem done_session_witness:
  "\<exists>i pre t ts c ts' reps h ts''.
     list_all (report_started i) reps \<and>
     map tr_event (run_records (new_machine None None 0)
       [Apply (Num 1) (SCAN_STARTED ''s'' ''/c'' (Num 1)), Apply (Num 2) (SCAN_COMPLETED ''s'' 3 (Num 2)),
        Apply (Num 4) (REPORT_DELIVERED ''s'' ''ab'' (Num 3))]) =
       pre @ [SCAN_STARTED i t ts, SCAN_COMPLETED i c ts'] @ reps @ [REPORT_DELIVERED i h ts'']"
proof -
  have "m_state (foldl machine_step (new_machine None None 0)
       [Apply (Num 1) (SCAN_STARTED ''s'' ''/c'' (Num 1)), Apply (Num 2) (SCAN_COMPLETED ''s'' 3 (Num 2)),
        Apply (Num 4) (REPORT_DELIVERED ''s'' ''ab'' (Num 3))]) = DONE"
    by (simp add: machine_defs new_machine_def is_reset_def is_scan_started_def next_state_def
        commit_def Let_def)
  from done_session [OF this] show ?thesis by blast
qed

text \<open>
  A rejected event leaves the machine as it was, and every observer is told the typed error
  with a synthesised record of the unchanged state; the only silent rejection is the untyped
  \<open>RangeError\<close>.
\<close>

theorem apply_error_frame:
  assumes "apply_event now m e = (Inl t, m', ns)"
  shows "m' = m \<and> ns = (case t of Typed err \<Rightarrow> notifyObservers m None e (Some err) | Untyped _ \<Rightarrow> [])"
  using assms
  by (auto simp: apply_event_def apply_table_def applyReset_def reject_def reject_skewed_def
      split: if_splits option.splits sum.splits prod.splits)

theorem apply_error_frame_witness:
  "apply_event (Num 0) (new_machine None None 1) (REPORT_STARTED ''s'' (Num 0)) =
     (Inl (Typed (InvalidTransitionError IDLE ''REPORT_STARTED'')), new_machine None None 1,
      notifyObservers (new_machine None None 1) None (REPORT_STARTED ''s'' (Num 0))
        (Some (InvalidTransitionError IDLE ''REPORT_STARTED'')))"
proof -
  let ?e = "REPORT_STARTED ''s'' (Num 0)"
  obtain m' ns where a: "apply_event (Num 0) (new_machine None None 1) ?e =
      (Inl (Typed (InvalidTransitionError IDLE ''REPORT_STARTED'')), m', ns)"
    by (simp add: machine_defs new_machine_def is_reset_def next_state_def)
  with apply_error_frame [OF a] show ?thesis by simp
qed

text \<open>
  \<open>tryApply\<close> lets an exception escape exactly when the machine is running and the event
  fails the clock guard with an event time or a machine time that cannot be formatted.
\<close>

theorem tryApply_escapes_iff:
  "(\<exists>x. fst (tryApply now m e) = Inl x) \<longleftrightarrow>
     \<not> m_shutdown m \<and> skewed now m e \<and> \<not> (valid_time (ev_timestamp e) \<and> valid_time now)"
proof -
  have t: "valid_time t \<longleftrightarrow> (\<exists>s. toISOString t = Inr s)" for t by (simp add: toISOString_valid)
  show ?thesis
    unfolding t tryApply_def apply_event_def apply_table_def applyReset_def reject_def reject_skewed_def
    by (auto split: if_splits option.splits sum.splits prod.splits)
qed

text \<open>
  The clock guard lets \<open>NaN\<close> through: whatever the machine's clock says and however small
  the window, a scan started with the timestamp \<open>NaN\<close> is committed by an idle running machine.
\<close>

theorem nan_timestamp_accepted:
  assumes "m_state m = IDLE" "\<not> m_shutdown m"
  shows "\<exists>r m' ns. apply_event now m (SCAN_STARTED i t JNaN) = (Inr r, m', ns) \<and>
    m_state m' = SCANNING \<and> m_lastEventTimestamp m' = Some JNaN"
proof -
  have "\<not> skewed now m (SCAN_STARTED i t JNaN)" by (cases now) (simp_all add: skewed_def)
  with assms show ?thesis
    by (auto simp: apply_event_def apply_table_def is_reset_def scan_mismatch_def next_state_def
        is_scan_started_def commit_def Let_def split: option.splits)
qed

theorem nan_timestamp_accepted_witness:
  "\<exists>r m' ns. apply_event (Num 5) (new_machine None (Some 1) 0) (SCAN_STARTED ''s'' ''t'' JNaN) =
     (Inr r, m', ns) \<and> m_state m' = SCANNING \<and> m_lastEventTimestamp m' = Some JNaN"
  by (rule nan_timestamp_accepted) (simp_all add: new_machine_def)

text \<open>
  The snapshot hash is sixteen characters long, and two inputs that differ in exactly one
  character never share a hash.
\<close>

theorem snapshot_hash_one_char:
  "length (computeSnapshotHash s) = 16 \<and>
   (c \<noteq> d \<longrightarrow> computeSnapshotHash (u @ [c] @ v) \<noteq> computeSnapshotHash (u @ [d] @ v))"
proof -
  have "c = d" if "fnv h (u @ [c] @ v) = fnv h (u @ [d] @ v)" for h
  proof -
    from that have "fnv (fnv_step (fnv h u) c) v = fnv (fnv_step (fnv h u) d) v" by (simp add: fnv_def)
    then show ?thesis by (blast dest: fnv_inj fnv_step_char_inj)
  qed
  moreover have "length (computeSnapshotHash s) = 16"
    by (simp add: computeSnapshotHash_def length_hex8)
  ultimately show ?thesis unfolding computeSnapshotHash_eq_iff by blast
qed

theorem snapshot_hash_one_char_witness:
  "computeSnapshotHash ''IDLE:0'' \<noteq> computeSnapshotHash ''IDLE:1''"
  using snapshot_hash_one_char [of "[]" "CHR ''0''" "CHR ''1''" "''IDLE:''" "[]"] by simp

end
