(* ===== verification/Ingestion_Guard.thy ===== *)
theory Ingestion_Guard
  imports Js_Json Complex_Main
begin

text \<open>
  The telemetry ingestion guard (\<open>telemetry-ingestion-guard.ts\<close>): the lazily refilled token
  bucket over rational tokens, the structural validation of an unknown value, and the guard with
  its bounded drop-oldest queue and lifetime counters. Every reading of \<open>nowFn\<close> is an argument;
  \<open>ingest\<close> reads the clock twice, once to consume a token and once to report the tokens left.
  Whether \<open>Date.parse\<close> accepts a text is the parameter \<open>date_ok\<close>.
\<close>

section \<open>Token bucket\<close>

record TokenBucket =
  tb_tokens :: rat
  tb_lastRefillTime :: int
  tb_capacity :: rat
  tb_refillRatePerMs :: rat

datatype bucket_error = CapacityNotPositive | RefillRateNotPositive

definition new_bucket :: "rat \<Rightarrow> rat \<Rightarrow> int \<Rightarrow> bucket_error + TokenBucket" where
  "new_bucket capacity refillRatePerSecond now =
     (if capacity \<le> 0 then Inl CapacityNotPositive
      else if refillRatePerSecond \<le> 0 then Inl RefillRateNotPositive
      else Inr \<lparr>tb_tokens = capacity, tb_lastRefillTime = now, tb_capacity = capacity,
                tb_refillRatePerMs = refillRatePerSecond / 1000\<rparr>)"

definition available :: "int \<Rightarrow> TokenBucket \<Rightarrow> rat" where
  "available now b =
     (let elapsed = max 0 (now - tb_lastRefillTime b);
          refilled = of_int elapsed * tb_refillRatePerMs b
      in min (tb_capacity b) (tb_tokens b + refilled))"

definition refill :: "int \<Rightarrow> TokenBucket \<Rightarrow> TokenBucket" where
  "refill now b =
     (let elapsed = max 0 (now - tb_lastRefillTime b);
          tokensToAdd = of_int elapsed * tb_refillRatePerMs b
      in b\<lparr>tb_tokens := min (tb_capacity b) (tb_tokens b + tokensToAdd), tb_lastRefillTime := now\<rparr>)"

definition tryConsume :: "int \<Rightarrow> TokenBucket \<Rightarrow> bool \<times> TokenBucket" where
  "tryConsume now b =
     (let b' = refill now b
      in if tb_tokens b' \<ge> 1 then (True, b'\<lparr>tb_tokens := tb_tokens b' - 1\<rparr>) else (False, b'))"

definition reset_bucket :: "int \<Rightarrow> TokenBucket \<Rightarrow> TokenBucket" where
  "reset_bucket now b = b\<lparr>tb_tokens := tb_capacity b, tb_lastRefillTime := now\<rparr>"

section \<open>Validation\<close>

datatype validation_error = EventNull | EventNotObject | IdInvalid | TimestampInvalid | PayloadMissing

type_synonym js_object = "(string \<times> jsval) list"

definition nonblank :: "jsval \<Rightarrow> bool" where
  "nonblank v = (case v of JString s \<Rightarrow> trim s \<noteq> [] | _ \<Rightarrow> False)"

definition validateEvent :: "(string \<Rightarrow> bool) \<Rightarrow> jsval \<Rightarrow> validation_error option" where
  "validateEvent date_ok event =
     (case event of
        JNull \<Rightarrow> Some EventNull
      | JUndefined \<Rightarrow> Some EventNull
      | JObject e \<Rightarrow>
          if \<not> nonblank (js_prop e ''id'') then Some IdInvalid
          else if \<not> (case js_prop e ''timestamp'' of JString t \<Rightarrow> date_ok t | _ \<Rightarrow> False)
            then Some TimestampInvalid
          else if map_of e ''payload'' = None then Some PayloadMissing
          else None
      | _ \<Rightarrow> Some EventNotObject)"

text \<open>A validated event is kept as the object it is; \<open>dropped?.id\<close> reads its id.\<close>

definition as_object :: "jsval \<Rightarrow> js_object" where
  "as_object v = (case v of JObject e \<Rightarrow> e | _ \<Rightarrow> [])"

definition event_id :: "js_object \<Rightarrow> string option" where
  "event_id e = (case js_prop e ''id'' of JString s \<Rightarrow> Some s | _ \<Rightarrow> None)"

section \<open>The guard\<close>

datatype IngestionOutcome = ACCEPTED | RATE_LIMITED | QUEUE_FULL_DROP | MALFORMED

record IngestionResult =
  ir_outcome :: IngestionOutcome
  ir_queueDepth :: nat
  ir_tokensRemaining :: int
  ir_validationError :: "validation_error option"
  ir_droppedEventId :: "string option"

record Guard =
  g_bucket :: TokenBucket
  g_queue :: "js_object list"
  g_maxQueueDepth :: jsnum
  g_totalAccepted :: nat
  g_totalRateLimited :: nat
  g_totalDropped :: nat
  g_totalMalformed :: nat

definition new_guard :: "rat option \<Rightarrow> rat option \<Rightarrow> jsnum option \<Rightarrow> int \<Rightarrow> bucket_error + Guard" where
  "new_guard bucketCapacity refillRatePerSecond maxQueueDepth now =
     (case new_bucket (case bucketCapacity of None \<Rightarrow> 100 | Some c \<Rightarrow> c)
             (case refillRatePerSecond of None \<Rightarrow> 50 | Some r \<Rightarrow> r) now of
        Inl e \<Rightarrow> Inl e
      | Inr b \<Rightarrow> Inr \<lparr>g_bucket = b, g_queue = [],
          g_maxQueueDepth = (case maxQueueDepth of None \<Rightarrow> Num 500 | Some d \<Rightarrow> d),
          g_totalAccepted = 0, g_totalRateLimited = 0, g_totalDropped = 0, g_totalMalformed = 0\<rparr>)"

text \<open>\<open>this.queue.length >= this.maxQueueDepth\<close>; no comparison with \<open>NaN\<close> holds.\<close>

definition queue_full :: "Guard \<Rightarrow> bool" where
  "queue_full g = (case g_maxQueueDepth g of
     Num d \<Rightarrow> int (length (g_queue g)) \<ge> d | JNegInf \<Rightarrow> True | JInf \<Rightarrow> False | JNaN \<Rightarrow> False)"

text \<open>Step 3 of \<open>ingest\<close>: drop the oldest event of a full queue, push, count.\<close>

definition enqueue :: "js_object \<Rightarrow> Guard \<Rightarrow> string option \<times> Guard" where
  "enqueue ev g =
     (let full = queue_full g;
          dropped = (if full then (case g_queue g of [] \<Rightarrow> None | e # _ \<Rightarrow> event_id e) else None)
      in (dropped,
          g\<lparr>g_queue := (if full then tl (g_queue g) else g_queue g) @ [ev],
            g_totalDropped := g_totalDropped g + (if full then 1 else 0),
            g_totalAccepted := g_totalAccepted g + 1\<rparr>))"

definition ingest :: "(string \<Rightarrow> bool) \<Rightarrow> int \<times> int \<Rightarrow> Guard \<Rightarrow> jsval \<Rightarrow> IngestionResult \<times> Guard" where
  "ingest date_ok clk g event =
     (case validateEvent date_ok event of
        Some err \<Rightarrow>
          (\<lparr>ir_outcome = MALFORMED, ir_queueDepth = length (g_queue g),
            ir_tokensRemaining = \<lfloor>available (snd clk) (g_bucket g)\<rfloor>,
            ir_validationError = Some err, ir_droppedEventId = None\<rparr>,
           g\<lparr>g_totalMalformed := g_totalMalformed g + 1\<rparr>)
      | None \<Rightarrow>
          (case tryConsume (fst clk) (g_bucket g) of (ok, b) \<Rightarrow>
             if \<not> ok then
               (\<lparr>ir_outcome = RATE_LIMITED, ir_queueDepth = length (g_queue g),
                 ir_tokensRemaining = 0, ir_validationError = None, ir_droppedEventId = None\<rparr>,
                g\<lparr>g_bucket := b, g_totalRateLimited := g_totalRateLimited g + 1\<rparr>)
             else
               (case enqueue (as_object event) (g\<lparr>g_bucket := b\<rparr>) of (dropped, g') \<Rightarrow>
                  (\<lparr>ir_outcome = (if dropped \<noteq> None then QUEUE_FULL_DROP else ACCEPTED),
                    ir_queueDepth = length (g_queue g'),
                    ir_tokensRemaining = \<lfloor>available (snd clk) (g_bucket g')\<rfloor>,
                    ir_validationError = None, ir_droppedEventId = dropped\<rparr>, g'))))"

text \<open>\<open>ingestBatch\<close>: one result per item; the clock readings of the items come with them.\<close>

fun ingest_all ::
  "(string \<Rightarrow> bool) \<Rightarrow> Guard \<Rightarrow> ((int \<times> int) \<times> jsval) list \<Rightarrow> IngestionResult list \<times> Guard" where
  "ingest_all date_ok g [] = ([], g)"
| "ingest_all date_ok g ((clk, e) # es) =
     (case ingest date_ok clk g e of (r, g') \<Rightarrow>
        (case ingest_all date_ok g' es of (rs, g'') \<Rightarrow> (r # rs, g'')))"

definition ingestBatch ::
  "(string \<Rightarrow> bool) \<Rightarrow> (nat \<Rightarrow> int \<times> int) \<Rightarrow> Guard \<Rightarrow> jsval \<Rightarrow> IngestionResult list \<times> Guard" where
  "ingestBatch date_ok clk g events =
     (case events of
        JArray es \<Rightarrow> ingest_all date_ok g (zip (map clk [0..<length es]) es)
      | _ \<Rightarrow> ([], g))"

text \<open>\<open>splice(0, Math.min(count, length))\<close>; a negative or \<open>NaN\<close> delete count removes nothing.\<close>

definition drain_count :: "jsnum \<Rightarrow> Guard \<Rightarrow> nat" where
  "drain_count n_events g = (case n_events of
     Num c \<Rightarrow> nat (min c (int (length (g_queue g)))) | JInf \<Rightarrow> length (g_queue g)
   | JNaN \<Rightarrow> 0 | JNegInf \<Rightarrow> 0)"

definition drain :: "jsnum option \<Rightarrow> Guard \<Rightarrow> js_object list \<times> Guard" where
  "drain n_events g =
     (let n = drain_count (case n_events of None \<Rightarrow> g_maxQueueDepth g | Some c \<Rightarrow> c) g
      in (take n (g_queue g), g\<lparr>g_queue := drop n (g_queue g)\<rparr>))"

record GuardMetrics =
  gm_totalAccepted :: nat
  gm_totalRateLimited :: nat
  gm_totalDropped :: nat
  gm_totalMalformed :: nat
  gm_queueDepth :: nat
  gm_tokensAvailable :: int

definition getMetrics :: "int \<Rightarrow> Guard \<Rightarrow> GuardMetrics" where
  "getMetrics now g = \<lparr>gm_totalAccepted = g_totalAccepted g, gm_totalRateLimited = g_totalRateLimited g,
     gm_totalDropped = g_totalDropped g, gm_totalMalformed = g_totalMalformed g,
     gm_queueDepth = length (g_queue g), gm_tokensAvailable = \<lfloor>available now (g_bucket g)\<rfloor>\<rparr>"

definition reset_guard :: "int \<Rightarrow> Guard \<Rightarrow> Guard" where
  "reset_guard now g = g\<lparr>g_queue := [], g_bucket := reset_bucket now (g_bucket g),
     g_totalAccepted := 0, g_totalRateLimited := 0, g_totalDropped := 0, g_totalMalformed := 0\<rparr>"

datatype guard_op = Ingest "int \<times> int" jsval | Drain "jsnum option" | ResetGuard int

fun guard_step :: "(string \<Rightarrow> bool) \<Rightarrow> Guard \<Rightarrow> guard_op \<Rightarrow> Guard" where
  "guard_step dt g (Ingest clk e) = snd (ingest dt clk g e)"
| "guard_step dt g (Drain c) = snd (drain c g)"
| "guard_step dt g (ResetGuard now) = reset_guard now g"

section \<open>Invariants\<close>

definition bucket_inv :: "TokenBucket \<Rightarrow> bool" where
  "bucket_inv b = (0 \<le> tb_tokens b \<and> tb_tokens b \<le> tb_capacity b \<and>
     0 < tb_capacity b \<and> 0 < tb_refillRatePerMs b)"

lemma bucket_inv_new: "new_bucket c r now = Inr b \<Longrightarrow> bucket_inv b"
  by (auto simp: new_bucket_def bucket_inv_def split: if_splits)

lemma bucket_inv_refill: "bucket_inv b \<Longrightarrow> bucket_inv (refill now b)"
  by (auto simp: bucket_inv_def refill_def Let_def)

lemma bucket_inv_consume: "bucket_inv b \<Longrightarrow> bucket_inv (snd (tryConsume now b))"
  using bucket_inv_refill [of b now] by (auto simp: tryConsume_def Let_def bucket_inv_def)

text \<open>Available tokens are what a refill at that time would leave.\<close>

lemma available_refill: "available now b = tb_tokens (refill now b)"
  by (simp add: available_def refill_def Let_def)

lemma tryConsume_iff: "fst (tryConsume now b) \<longleftrightarrow> 1 \<le> available now b"
  by (simp add: tryConsume_def available_refill Let_def)

text \<open>The bound the queue keeps: the configured depth, but never less than one place.\<close>

definition queue_bound :: "Guard \<Rightarrow> nat option" where
  "queue_bound g = (case g_maxQueueDepth g of Num d \<Rightarrow> Some (max 1 (nat d)) | JNegInf \<Rightarrow> Some 1 | _ \<Rightarrow> None)"

fun fits :: "nat option \<Rightarrow> nat \<Rightarrow> bool" where
  "fits None k = True"
| "fits (Some n) k = (k \<le> n)"

definition guard_inv :: "Guard \<Rightarrow> bool" where
  "guard_inv g = (bucket_inv (g_bucket g) \<and> fits (queue_bound g) (length (g_queue g)))"

lemma enqueue_frame:
  assumes "enqueue ev g = (d, g')"
  shows "g_bucket g' = g_bucket g" "g_maxQueueDepth g' = g_maxQueueDepth g"
    "g_totalAccepted g' = Suc (g_totalAccepted g)" "g_totalMalformed g' = g_totalMalformed g"
    "g_totalRateLimited g' = g_totalRateLimited g" "queue_bound g' = queue_bound g"
  using assms by (auto simp: enqueue_def Let_def queue_bound_def)

lemma guard_inv_enqueue:
  assumes "guard_inv g" "enqueue ev g = (d, g')"
  shows "guard_inv g'"
proof -
  have "fits (queue_bound g) (length (g_queue g'))"
    using assms
    by (cases "g_queue g")
       (auto simp: enqueue_def Let_def queue_bound_def queue_full_def guard_inv_def split: jsnum.splits)
  with assms show ?thesis by (auto simp: guard_inv_def enqueue_frame)
qed

lemma guard_inv_bucket:
  "guard_inv g \<Longrightarrow> bucket_inv b \<Longrightarrow> guard_inv (g\<lparr>g_bucket := b\<rparr>)"
  by (simp add: guard_inv_def queue_bound_def)

lemma guard_inv_ingest: "guard_inv g \<Longrightarrow> guard_inv (snd (ingest dt clk g e))"
proof -
  assume inv: "guard_inv g"
  obtain ok b where tc: "tryConsume (fst clk) (g_bucket g) = (ok, b)" by force
  have "bucket_inv b" using inv bucket_inv_consume [of "g_bucket g" "fst clk"] tc
    by (simp add: guard_inv_def)
  with inv have "guard_inv (g\<lparr>g_bucket := b\<rparr>)" by (rule guard_inv_bucket)
  then have "guard_inv (snd (enqueue (as_object e) (g\<lparr>g_bucket := b\<rparr>)))"
    by (metis guard_inv_enqueue prod.collapse)
  with inv \<open>guard_inv (g\<lparr>g_bucket := b\<rparr>)\<close> tc show ?thesis
    by (auto simp: ingest_def split: option.splits prod.splits)
       (auto simp: guard_inv_def queue_bound_def)
qed

interpretation guard_sys: invariant_system "guard_step dt" guard_inv for dt
proof unfold_locales
  fix g x assume "guard_inv g"
  then show "guard_inv (guard_step dt g x)"
    by (cases x) (auto simp: guard_inv_ingest, auto simp: guard_inv_def drain_def reset_guard_def
        reset_bucket_def bucket_inv_def queue_bound_def Let_def split: jsnum.splits)
qed

lemma ingest_cases [consumes 1, case_names malformed limited accepted]:
  assumes "ingest dt clk g e = (r, g')"
  obtains (malformed) err where "validateEvent dt e = Some err" "ir_outcome r = MALFORMED"
      "g' = g\<lparr>g_totalMalformed := g_totalMalformed g + 1\<rparr>"
  | (limited) b where "validateEvent dt e = None" "tryConsume (fst clk) (g_bucket g) = (False, b)"
      "ir_outcome r = RATE_LIMITED"
      "g' = g\<lparr>g_bucket := b, g_totalRateLimited := g_totalRateLimited g + 1\<rparr>"
  | (accepted) b d where "validateEvent dt e = None" "tryConsume (fst clk) (g_bucket g) = (True, b)"
      "enqueue (as_object e) (g\<lparr>g_bucket := b\<rparr>) = (d, g')"
      "ir_outcome r = (if d = None then ACCEPTED else QUEUE_FULL_DROP)" "ir_droppedEventId r = d"
  using assms by (auto simp: ingest_def split: option.splits prod.splits if_splits)

section \<open>The boundary as its clients see it\<close>

text \<open>
  What a client of an ingestion boundary relies on: each call has one of three kinds of outcome
  and raises exactly the counter of its kind. Over a batch the counters then account for every
  item.
\<close>

locale ingestion_boundary =
  fixes call :: "'t \<Rightarrow> 's \<Rightarrow> 'e \<Rightarrow> 'r \<times> 's"
    and admits :: "'r \<Rightarrow> bool" and limits :: "'r \<Rightarrow> bool" and refuses :: "'r \<Rightarrow> bool"
    and n_admitted :: "'s \<Rightarrow> nat" and n_limited :: "'s \<Rightarrow> nat" and n_refused :: "'s \<Rightarrow> nat"
  assumes call_counts: "call t s e = (r, s') \<Longrightarrow>
    n_admitted s' = n_admitted s + of_bool (admits r) \<and>
    n_limited s' = n_limited s + of_bool (limits r) \<and>
    n_refused s' = n_refused s + of_bool (refuses r)"
    and one_kind: "of_bool (admits r) + of_bool (limits r) + of_bool (refuses r) = (1::nat)"
begin

fun calls :: "'s \<Rightarrow> ('t \<times> 'e) list \<Rightarrow> 'r list \<times> 's" where
  "calls s [] = ([], s)"
| "calls s ((t, e) # es) =
     (case call t s e of (r, s') \<Rightarrow> (case calls s' es of (rs, s'') \<Rightarrow> (r # rs, s'')))"

lemma calls_counts:
  "calls s es = (rs, s') \<Longrightarrow>
     length rs = length es \<and>
     n_admitted s' = n_admitted s + length (filter admits rs) \<and>
     n_limited s' = n_limited s + length (filter limits rs) \<and>
     n_refused s' = n_refused s + length (filter refuses rs)"
proof (induction es arbitrary: s rs)
  case (Cons x es)
  obtain t e where x: "x = (t, e)" by force
  obtain r s1 where c: "call t s e = (r, s1)" by force
  obtain rs1 where cs: "calls s1 es = (rs1, s')" "rs = r # rs1"
    using Cons.prems x c by (auto split: prod.splits)
  from Cons.IH [OF cs(1)] call_counts [OF c] show ?case by (auto simp: cs(2))
qed simp

lemma calls_partition:
  "length (filter admits rs) + length (filter limits rs) + length (filter refuses rs) = length rs"
proof (induction rs)
  case (Cons r rs)
  with one_kind [of r] show ?case by (auto simp: of_bool_def split: if_splits)
qed simp

end

definition admitted :: "IngestionResult \<Rightarrow> bool" where
  "admitted r = (ir_outcome r \<in> {ACCEPTED, QUEUE_FULL_DROP})"

interpretation boundary: ingestion_boundary "ingest dt" admitted
  "\<lambda>r. ir_outcome r = RATE_LIMITED" "\<lambda>r. ir_outcome r = MALFORMED"
  g_totalAccepted g_totalRateLimited g_totalMalformed for dt
proof unfold_locales
  fix t s e r s' assume c: "ingest dt t s e = (r, s')"
  then show "g_totalAccepted s' = g_totalAccepted s + of_bool (admitted r) \<and>
    g_totalRateLimited s' = g_totalRateLimited s + of_bool (ir_outcome r = RATE_LIMITED) \<and>
    g_totalMalformed s' = g_totalMalformed s + of_bool (ir_outcome r = MALFORMED)"
    by (cases rule: ingest_cases) (auto simp: admitted_def dest: enqueue_frame split: if_splits)
next
  fix r :: IngestionResult
  show "of_bool (admitted r) + of_bool (ir_outcome r = RATE_LIMITED) +
    of_bool (ir_outcome r = MALFORMED) = (1::nat)"
    by (cases "ir_outcome r") (auto simp: admitted_def)
qed

lemma ingest_all_calls: "ingest_all dt g es = boundary.calls dt g es"
  by (induction dt g es rule: ingest_all.induct) (auto split: prod.splits)

section \<open>Rate bound\<close>

text \<open>Accepted events plus tokens, less what the clock has paid for, never grow.\<close>

definition potential :: "Guard \<Rightarrow> rat" where
  "potential g = of_nat (g_totalAccepted g) + tb_tokens (g_bucket g) -
     tb_refillRatePerMs (g_bucket g) * of_int (tb_lastRefillTime (g_bucket g))"

lemma tryConsume_frame:
  assumes "tryConsume now b = (ok, b')"
  shows "tb_lastRefillTime b' = now" "tb_refillRatePerMs b' = tb_refillRatePerMs b"
    "tb_capacity b' = tb_capacity b"
  using assms by (auto simp: tryConsume_def refill_def Let_def split: if_splits)

lemma tryConsume_tokens:
  assumes "tryConsume now b = (ok, b')" "tb_lastRefillTime b \<le> now"
  shows "tb_tokens b' + of_bool ok \<le>
    tb_tokens b + tb_refillRatePerMs b * of_int (now - tb_lastRefillTime b)"
  using assms
  by (auto simp: tryConsume_def refill_def Let_def max_def min_def mult.commute split: if_splits)

lemma ingest_potential:
  assumes "ingest dt clk g e = (r, g')" "tb_lastRefillTime (g_bucket g) \<le> fst clk"
  shows "potential g' \<le> potential g"
  using assms(1)
proof (cases rule: ingest_cases)
  case (malformed err)
  then show ?thesis by (simp add: potential_def)
next
  case (limited b)
  then show ?thesis
    using tryConsume_frame [OF limited(2)] tryConsume_tokens [OF limited(2) assms(2)]
    by (simp add: potential_def algebra_simps)
next
  case (accepted b d)
  then show ?thesis
    using tryConsume_frame [OF accepted(2)] tryConsume_tokens [OF accepted(2) assms(2)]
      enqueue_frame [OF accepted(3)]
    by (simp add: potential_def algebra_simps)
qed

lemma ingest_clock:
  assumes "ingest dt clk g e = (r, g')"
  shows "tb_lastRefillTime (g_bucket g') \<in> {tb_lastRefillTime (g_bucket g), fst clk}"
    and "tb_refillRatePerMs (g_bucket g') = tb_refillRatePerMs (g_bucket g)"
  using assms
  by (cases rule: ingest_cases; simp add: tryConsume_frame enqueue_frame)+

lemma ingest_all_potential:
  assumes "ingest_all dt g es = (rs, g')"
    and "sorted (tb_lastRefillTime (g_bucket g) # map (\<lambda>x. fst (fst x)) es)"
    and "\<forall>x \<in> set es. fst (fst x) \<le> T" "tb_lastRefillTime (g_bucket g) \<le> T"
  shows "potential g' \<le> potential g \<and> tb_lastRefillTime (g_bucket g') \<le> T \<and>
    tb_refillRatePerMs (g_bucket g') = tb_refillRatePerMs (g_bucket g)"
  using assms
proof (induction dt g es arbitrary: rs rule: ingest_all.induct)
  case (2 dt g clk e es)
  obtain r g1 where i: "ingest dt clk g e = (r, g1)" by force
  obtain rs1 where rest: "ingest_all dt g1 es = (rs1, g')"
    using "2.prems"(1) i by (auto split: prod.splits)
  have le: "tb_lastRefillTime (g_bucket g) \<le> fst clk" using "2.prems"(2) by simp
  have s: "sorted (tb_lastRefillTime (g_bucket g1) # map (\<lambda>x. fst (fst x)) es)"
    using ingest_clock(1) [OF i] "2.prems"(2) by auto
  have T: "tb_lastRefillTime (g_bucket g1) \<le> T"
    using ingest_clock(1) [OF i] "2.prems"(3,4) by auto
  from "2.IH" [OF i [symmetric] rest s _ T] "2.prems"(3) ingest_potential [OF i le]
    ingest_clock(2) [OF i]
  show ?case by auto
qed auto

section \<open>First in, first out\<close>

fun op_accepted :: "(string \<Rightarrow> bool) \<Rightarrow> Guard \<Rightarrow> guard_op \<Rightarrow> js_object list" where
  "op_accepted dt g (Ingest clk e) = (if admitted (fst (ingest dt clk g e)) then [as_object e] else [])"
| "op_accepted dt g _ = []"

text \<open>What a call takes off the front of the queue: a dropped event, a drained batch, all of it.\<close>

fun op_removed :: "(string \<Rightarrow> bool) \<Rightarrow> Guard \<Rightarrow> guard_op \<Rightarrow> js_object list" where
  "op_removed dt g (Ingest clk e) =
     (if admitted (fst (ingest dt clk g e)) \<and> queue_full g then take 1 (g_queue g) else [])"
| "op_removed dt g (Drain c) = fst (drain c g)"
| "op_removed dt g (ResetGuard now) = g_queue g"

fun run_collect :: "(Guard \<Rightarrow> guard_op \<Rightarrow> 'a list) \<Rightarrow> (string \<Rightarrow> bool) \<Rightarrow> Guard \<Rightarrow> guard_op list \<Rightarrow> 'a list" where
  "run_collect f dt g [] = []"
| "run_collect f dt g (x # xs) = f g x @ run_collect f dt (guard_step dt g x) xs"

lemma step_fifo:
  "g_queue g @ op_accepted dt g x = op_removed dt g x @ g_queue (guard_step dt g x)"
proof (cases x)
  case (Ingest clk e)
  obtain r g' where i: "ingest dt clk g e = (r, g')" by force
  then show ?thesis
  proof (cases rule: ingest_cases)
    case (accepted b d)
    have "queue_full (g\<lparr>g_bucket := b\<rparr>) = queue_full g"
      by (simp add: queue_full_def split: jsnum.split)
    with accepted i Ingest show ?thesis
      by (cases "g_queue g") (auto simp: admitted_def enqueue_def Let_def split: if_splits)
  qed (use Ingest i in \<open>auto simp: admitted_def\<close>)
qed (auto simp: drain_def reset_guard_def Let_def)

lemma run_fifo:
  "g_queue g @ run_collect (op_accepted dt) dt g ops =
     run_collect (op_removed dt) dt g ops @ g_queue (foldl (guard_step dt) g ops)"
proof (induction ops arbitrary: g)
  case (Cons x ops)
  have "g_queue g @ run_collect (op_accepted dt) dt g (x # ops) =
      op_removed dt g x @ g_queue (guard_step dt g x) @
      run_collect (op_accepted dt) dt (guard_step dt g x) ops"
    using step_fifo [of g dt x] by (metis append.assoc run_collect.simps(2))
  with Cons show ?case by simp
qed simp

lemma guard_inv_new: "new_guard c r q now = Inr g \<Longrightarrow> guard_inv g"
  by (auto simp: new_guard_def guard_inv_def queue_bound_def dest: bucket_inv_new
      split: sum.splits jsnum.splits option.splits)

lemma new_guard_empty: "new_guard c r q now = Inr g \<Longrightarrow> g_queue g = [] \<and>
    g_maxQueueDepth g = (case q of None \<Rightarrow> Num 500 | Some d \<Rightarrow> d)"
  by (auto simp: new_guard_def split: sum.splits)

lemma guard_step_depth: "g_maxQueueDepth (guard_step dt g x) = g_maxQueueDepth g"
proof (cases x)
  case (Ingest clk e)
  obtain r g' where i: "ingest dt clk g e = (r, g')" by force
  then show ?thesis by (cases rule: ingest_cases) (use Ingest i in \<open>auto dest: enqueue_frame(2)\<close>)
qed (auto simp: drain_def reset_guard_def Let_def)

lemma guard_run_depth: "g_maxQueueDepth (foldl (guard_step dt) g ops) = g_maxQueueDepth g"
  by (induction ops arbitrary: g) (auto simp: guard_step_depth)

lemma nan_ingest:
  assumes "g_maxQueueDepth g = JNaN" "ingest dt clk g e = (r, g')"
  shows "length (g_queue g') = length (g_queue g) + of_bool (admitted r)" "g_maxQueueDepth g' = JNaN"
  using assms(2)
  by (cases rule: ingest_cases;
      use assms(1) in \<open>auto simp: admitted_def enqueue_def queue_full_def Let_def split: if_splits\<close>)+

lemma nan_ingest_all:
  "g_maxQueueDepth g = JNaN \<Longrightarrow> ingest_all dt g es = (rs, g') \<Longrightarrow>
     length (g_queue g') = length (g_queue g) + length (filter admitted rs)"
proof (induction dt g es arbitrary: rs rule: ingest_all.induct)
  case (2 dt g clk e es)
  obtain r g1 where i: "ingest dt clk g e = (r, g1)" by force
  obtain rs1 where rest: "ingest_all dt g1 es = (rs1, g')" "rs = r # rs1"
    using "2.prems"(2) i by (auto split: prod.splits)
  from "2.IH" [OF i [symmetric] nan_ingest(2) [OF "2.prems"(1) i] rest(1)]
    nan_ingest(1) [OF "2.prems"(1) i] rest(2)
  show ?case by auto
qed auto

section \<open>Properties\<close>

text \<open>
  After any sequence of ingest, drain and reset calls on a constructed guard, the bucket
  holds between none and its capacity of tokens, and a queue with the numeric depth \<open>d\<close> holds
  at most \<open>max 1 d\<close> events.
\<close>

theorem guard_reachable_bounds:
  assumes "new_guard c r (Some (Num d)) now = Inr g"
  shows "0 \<le> tb_tokens (g_bucket (foldl (guard_step dt) g ops)) \<and>
    tb_tokens (g_bucket (foldl (guard_step dt) g ops)) \<le>
      tb_capacity (g_bucket (foldl (guard_step dt) g ops)) \<and>
    length (g_queue (foldl (guard_step dt) g ops)) \<le> max 1 (nat d)"
proof -
  have "guard_inv (foldl (guard_step dt) g ops)"
    by (rule guard_sys.run_inv [OF guard_inv_new [OF assms]])
  moreover have "queue_bound (foldl (guard_step dt) g ops) = Some (max 1 (nat d))"
    using new_guard_empty [OF assms] by (simp add: queue_bound_def guard_run_depth)
  ultimately show ?thesis by (simp add: guard_inv_def bucket_inv_def)
qed

definition sample_event :: jsval where
  "sample_event = JObject [(''id'', JString ''e1''), (''timestamp'', JString ''2024-01-01''),
     (''payload'', JNull)]"

definition sample_guard :: Guard where
  "sample_guard = \<lparr>g_bucket = \<lparr>tb_tokens = 1, tb_lastRefillTime = 0, tb_capacity = 1,
       tb_refillRatePerMs = 1 / 1000\<rparr>, g_queue = [], g_maxQueueDepth = Num 0,
     g_totalAccepted = 0, g_totalRateLimited = 0, g_totalDropped = 0, g_totalMalformed = 0\<rparr>"

lemma new_sample_guard: "new_guard (Some 1) (Some 1) (Some (Num 0)) 0 = Inr sample_guard"
  by (simp add: new_guard_def new_bucket_def sample_guard_def)

theorem guard_reachable_bounds_witness:
  "length (g_queue (foldl (guard_step (\<lambda>_. True)) sample_guard [Ingest (1, 1) sample_event])) \<le> 1"
  using guard_reachable_bounds [OF new_sample_guard, of "\<lambda>_. True" "[Ingest (1, 1) sample_event]"]
  by simp

text \<open>
  C5. The queue is first in, first out and loses nothing silently: along any sequence of calls,
  the accepted events in order are the events taken off (dropped as oldest, drained, or cleared
  by a reset) followed by those still queued.
\<close>

theorem guard_fifo:
  assumes "new_guard c r q now = Inr g"
  shows "run_collect (op_accepted dt) dt g ops =
    run_collect (op_removed dt) dt g ops @ g_queue (foldl (guard_step dt) g ops)"
  using run_fifo [of g dt ops] new_guard_empty [OF assms] by simp

theorem guard_fifo_witness:
  "run_collect (op_accepted (\<lambda>_. True)) (\<lambda>_. True) sample_guard [Ingest (1, 1) sample_event] =
   run_collect (op_removed (\<lambda>_. True)) (\<lambda>_. True) sample_guard [Ingest (1, 1) sample_event] @
   g_queue (foldl (guard_step (\<lambda>_. True)) sample_guard [Ingest (1, 1) sample_event])"
  by (rule guard_fifo [OF new_sample_guard])

text \<open>
  C24. Rate limit: while the clock does not run backwards, the events a batch gets accepted up
  to time \<open>T\<close> number at most the tokens in the bucket plus the refill rate times the time passed.
\<close>

theorem guard_rate_bound:
  assumes "guard_inv g" "ingest_all dt g es = (rs, g')"
    and "sorted (tb_lastRefillTime (g_bucket g) # map (\<lambda>x. fst (fst x)) es)"
    and "\<forall>x \<in> set es. fst (fst x) \<le> T" "tb_lastRefillTime (g_bucket g) \<le> T"
  shows "of_nat (length (filter admitted rs)) \<le>
    tb_tokens (g_bucket g) + tb_refillRatePerMs (g_bucket g) * of_int (T - tb_lastRefillTime (g_bucket g))"
proof -
  note p = ingest_all_potential [OF assms(2-5)]
  have "guard_inv g'"
    using assms(1,2)
    by (induction dt g es arbitrary: rs rule: ingest_all.induct)
       (auto split: prod.splits, metis guard_inv_ingest snd_conv)
  then have "0 \<le> tb_tokens (g_bucket g')" by (simp add: guard_inv_def bucket_inv_def)
  moreover have "g_totalAccepted g' = g_totalAccepted g + length (filter admitted rs)"
    using boundary.calls_counts [OF assms(2) [unfolded ingest_all_calls]] by simp
  moreover have "tb_refillRatePerMs (g_bucket g) * of_int (tb_lastRefillTime (g_bucket g')) \<le>
      tb_refillRatePerMs (g_bucket g) * of_int T"
    using p assms(1) by (intro mult_left_mono) (auto simp: guard_inv_def bucket_inv_def)
  ultimately show ?thesis using p by (auto simp: potential_def algebra_simps)
qed

theorem guard_rate_bound_witness:
  "of_nat (length (filter admitted (fst (ingest_all (\<lambda>_. True) sample_guard
     [((5, 5), sample_event), ((7, 7), JNull)])))) \<le> (1 :: rat) + 1 / 1000 * of_int (7 - 0)"
proof -
  obtain rs g' where r: "ingest_all (\<lambda>_. True) sample_guard
      [((5, 5), sample_event), ((7, 7), JNull)] = (rs, g')" by force
  have "guard_inv sample_guard" using new_sample_guard by (rule guard_inv_new)
  from guard_rate_bound [OF this r, of 7] r show ?thesis by (simp add: sample_guard_def)
qed

text \<open>
  A batch gets one result per item, every result is admitted, rate limited or malformed,
  and the lifetime counters rise by exactly these numbers.
\<close>

theorem guard_batch_accounting:
  assumes "ingestBatch dt clk g (JArray es) = (rs, g')"
  shows "length rs = length es \<and>
    g_totalAccepted g' = g_totalAccepted g + length (filter admitted rs) \<and>
    g_totalRateLimited g' = g_totalRateLimited g + length (filter (\<lambda>r. ir_outcome r = RATE_LIMITED) rs) \<and>
    g_totalMalformed g' = g_totalMalformed g + length (filter (\<lambda>r. ir_outcome r = MALFORMED) rs) \<and>
    length (filter admitted rs) + length (filter (\<lambda>r. ir_outcome r = RATE_LIMITED) rs) +
      length (filter (\<lambda>r. ir_outcome r = MALFORMED) rs) = length es"
  using boundary.calls_counts [of dt g "zip (map clk [0..<length es]) es" rs g']
    boundary.calls_partition [of rs] assms
  by (simp add: ingestBatch_def ingest_all_calls)

theorem guard_batch_accounting_witness:
  "length (fst (ingestBatch (\<lambda>_. True) (\<lambda>_. (5, 5)) sample_guard (JArray [sample_event, JNull]))) = 2"
proof -
  obtain rs g' where r: "ingestBatch (\<lambda>_. True) (\<lambda>_. (5, 5)) sample_guard
      (JArray [sample_event, JNull]) = (rs, g')" by force
  from guard_batch_accounting [OF r] r show ?thesis by simp
qed

text \<open>
  With the queue depth \<open>NaN\<close>, which an environment variable that is not a number yields,
  the queue is unbounded: every admitted event stays, and a default drain removes nothing.
\<close>

theorem nan_depth_unbounded:
  assumes "g_maxQueueDepth g = JNaN" "ingest_all dt g es = (rs, g')"
  shows "length (g_queue g') = length (g_queue g) + length (filter admitted rs) \<and> fst (drain None g) = []"
  using nan_ingest_all [OF assms] assms(1) by (simp add: drain_def drain_count_def)

theorem nan_depth_unbounded_witness:
  "length (g_queue (snd (ingest_all (\<lambda>_. True) (sample_guard\<lparr>g_maxQueueDepth := JNaN\<rparr>)
     [((5, 5), sample_event)]))) =
   length (filter admitted (fst (ingest_all (\<lambda>_. True) (sample_guard\<lparr>g_maxQueueDepth := JNaN\<rparr>)
     [((5, 5), sample_event)])))"
proof -
  obtain rs g' where r: "ingest_all (\<lambda>_. True) (sample_guard\<lparr>g_maxQueueDepth := JNaN\<rparr>)
      [((5, 5), sample_event)] = (rs, g')" by force
  from nan_depth_unbounded [OF _ r] r show ?thesis by (simp add: sample_guard_def)
qed

end
