(* ===== verification/Js_Bytes.thy ===== *)
theory Js_Bytes
  imports Js_Text
begin

text \<open>
  Byte buffers as lists of naturals below 256: \<open>Buffer.from(s, "hex")\<close> and its inverse, and
  Base64 as \<open>Buffer\<close> encodes it and decodes it on the Base64 alphabet, with the round trips.
\<close>

definition bytes :: "nat list \<Rightarrow> bool" where
  "bytes bs = list_all (\<lambda>b. b < 256) bs"

section \<open>Hexadecimal\<close>

text \<open>Decoding stops at the first pair that is not two hexadecimal digits.\<close>

fun buffer_from_hex :: "string \<Rightarrow> nat list" where
  "buffer_from_hex (a # b # r) =
     (case (digit_value a, digit_value b) of
        (Some x, Some y) \<Rightarrow> (16 * x + y) # buffer_from_hex r
      | _ \<Rightarrow> [])"
| "buffer_from_hex _ = []"

definition to_hex :: "nat list \<Rightarrow> string" where
  "to_hex bs = concat (map (\<lambda>b. [digit_char (b div 16), digit_char (b mod 16)]) bs)"

definition is_hex :: "char \<Rightarrow> bool" where
  "is_hex c = (digit_value c \<noteq> None)"

lemma digit_value_less: "digit_value c = Some d \<Longrightarrow> d < 16"
  by (auto simp: digit_value_def Let_def split: if_splits)

lemma buffer_to_hex: "bytes bs \<Longrightarrow> buffer_from_hex (to_hex bs) = bs"
  by (induction bs) (auto simp: to_hex_def bytes_def less_mult_imp_div_less)

lemma length_to_hex: "length (to_hex bs) = 2 * length bs"
  by (induction bs) (auto simp: to_hex_def)

lemma to_hex_inj: "bytes bs \<Longrightarrow> bytes cs \<Longrightarrow> to_hex bs = to_hex cs \<Longrightarrow> bs = cs"
  by (metis buffer_to_hex)

lemma bytes_buffer_from_hex: "bytes (buffer_from_hex s)"
proof (induction s rule: buffer_from_hex.induct)
  case (1 a b r)
  then show ?case
    by (auto simp: bytes_def dest!: digit_value_less split: option.splits)
qed (auto simp: bytes_def)

lemma length_buffer_from_hex:
  "list_all is_hex s \<Longrightarrow> length (buffer_from_hex s) = length s div 2"
  by (induction s rule: buffer_from_hex.induct) (auto simp: is_hex_def)

lemma lower_digit: "digit_value c = Some d \<Longrightarrow> digit_char d = lower_char c"
proof -
  assume d: "digit_value c = Some d"
  define n :: nat where "n = of_char c"
  have "of_char (digit_char d) = (of_char (lower_char c) :: nat)"
    using d by (auto simp: digit_value_def lower_char_def digit_char_def Let_def n_def [symmetric]
        split: if_splits)
  then show ?thesis by simp
qed

lemma to_hex_buffer:
  "list_all is_hex s \<Longrightarrow> even (length s) \<Longrightarrow> to_hex (buffer_from_hex s) = toLowerCase s"
proof (induction s rule: buffer_from_hex.induct)
  case (1 a b r)
  then obtain x y where "digit_value a = Some x" "digit_value b = Some y"
    by (auto simp: is_hex_def)
  with 1 digit_value_less [of b y] lower_digit show ?case
    by (auto simp: to_hex_def toLowerCase_def)
qed (auto simp: to_hex_def toLowerCase_def)

lemma lower_idem: "lower_char (lower_char c) = lower_char c"
  by (auto simp: lower_char_def Let_def)

lemma toLowerCase_idem: "toLowerCase (toLowerCase s) = toLowerCase s"
  by (simp add: toLowerCase_def lower_idem)

text \<open>Two even-length hexadecimal texts denote the same bytes exactly when they agree up to case.\<close>

lemma buffer_from_hex_eq_iff:
  assumes "list_all is_hex s" "even (length s)" "list_all is_hex t" "even (length t)"
  shows "buffer_from_hex s = buffer_from_hex t \<longleftrightarrow> toLowerCase s = toLowerCase t"
proof
  assume "buffer_from_hex s = buffer_from_hex t"
  then show "toLowerCase s = toLowerCase t" using assms by (metis to_hex_buffer)
next
  assume eq: "toLowerCase s = toLowerCase t"
  have "to_hex (buffer_from_hex s) = to_hex (buffer_from_hex t)"
    using assms eq by (simp add: to_hex_buffer)
  then show "buffer_from_hex s = buffer_from_hex t"
    by (rule to_hex_inj [OF bytes_buffer_from_hex bytes_buffer_from_hex])
qed

section \<open>Base64\<close>

definition b64_char :: "nat \<Rightarrow> char" where
  "b64_char n = char_of (if n < 26 then 65 + n else if n < 52 then 71 + n
     else if n < 62 then n - 4 else if n = 62 then 43 else 47)"

definition b64_value :: "char \<Rightarrow> nat option" where
  "b64_value c = (let n = of_char c :: nat in
     if 65 \<le> n \<and> n \<le> 90 then Some (n - 65) else if 97 \<le> n \<and> n \<le> 122 then Some (n - 71)
     else if 48 \<le> n \<and> n \<le> 57 then Some (n + 4) else if n = 43 then Some 62
     else if n = 47 then Some 63 else None)"

definition is_b64 :: "char \<Rightarrow> bool" where
  "is_b64 c = (b64_value c \<noteq> None)"

definition b64_val :: "char \<Rightarrow> nat" where
  "b64_val c = (case b64_value c of None \<Rightarrow> 0 | Some n \<Rightarrow> n)"

fun b64_encode :: "nat list \<Rightarrow> string" where
  "b64_encode [] = []"
| "b64_encode [a] = [b64_char (a div 4), b64_char (a mod 4 * 16), CHR ''='', CHR ''='']"
| "b64_encode [a, b] = [b64_char (a div 4), b64_char (a mod 4 * 16 + b div 16),
     b64_char (b mod 16 * 4), CHR ''='']"
| "b64_encode (a # b # c # r) = [b64_char (a div 4), b64_char (a mod 4 * 16 + b div 16),
     b64_char (b mod 16 * 4 + c div 64), b64_char (c mod 64)] @ b64_encode r"

fun b64_decode :: "string \<Rightarrow> nat list" where
  "b64_decode (w # x # y # z # r) =
     (let a = b64_val w * 4 + b64_val x div 16;
          b = b64_val x mod 16 * 16 + b64_val y div 4;
          c = b64_val y mod 4 * 64 + b64_val z
      in if y = CHR ''='' then [a] else if z = CHR ''='' then [a, b] else [a, b, c] @ b64_decode r)"
| "b64_decode [w, x, y] =
     [b64_val w * 4 + b64_val x div 16, b64_val x mod 16 * 16 + b64_val y div 4]"
| "b64_decode [w, x] = [b64_val w * 4 + b64_val x div 16]"
| "b64_decode _ = []"

lemma b64_value_char [simp]: "n < 64 \<Longrightarrow> b64_value (b64_char n) = Some n"
  by (auto simp: b64_value_def b64_char_def Let_def)

lemma b64_val_char [simp]: "n < 64 \<Longrightarrow> b64_val (b64_char n) = n"
  by (simp add: b64_val_def)

lemma b64_val_less: "b64_val c < 64"
  by (auto simp: b64_val_def b64_value_def Let_def split: option.splits if_splits)

lemma b64_char_val: "is_b64 c \<Longrightarrow> b64_char (b64_val c) = c"
proof -
  assume a: "is_b64 c"
  define n :: nat where "n = of_char c"
  have "of_char (b64_char (b64_val c)) = (of_char c :: nat)"
    using a by (auto simp: is_b64_def b64_val_def b64_value_def b64_char_def Let_def
        n_def [symmetric] split: if_splits)
  then show ?thesis by simp
qed

lemma b64_pad: "\<not> is_b64 CHR ''=''" "n < 64 \<Longrightarrow> b64_char n \<noteq> CHR ''=''"
proof -
  have v: "b64_value CHR ''='' = None" by (simp add: b64_value_def)
  then show "\<not> is_b64 CHR ''=''" by (simp add: is_b64_def)
  show "n < 64 \<Longrightarrow> b64_char n \<noteq> CHR ''=''" by (metis v b64_value_char option.distinct(1))
qed

lemma is_b64_char: "n < 64 \<Longrightarrow> is_b64 (b64_char n)"
  by (simp add: is_b64_def)

lemma decode_encode: "bytes bs \<Longrightarrow> b64_decode (b64_encode bs) = bs"
proof (induction bs rule: b64_encode.induct)
  case (4 a b c r)
  then have "a div 4 < 64" "a mod 4 * 16 + b div 16 < 64" "b mod 16 * 4 + c div 64 < 64" "c mod 64 < 64"
    by (auto simp: bytes_def)
  with 4 show ?case by (auto simp: bytes_def b64_pad)
next
  case (3 a b)
  then have "a div 4 < 64" "a mod 4 * 16 + b div 16 < 64" "b mod 16 * 4 < 64" by (auto simp: bytes_def)
  with 3 show ?case by (auto simp: bytes_def b64_pad)
next
  case (2 a)
  then have "a div 4 < 64" "a mod 4 * 16 < 64" by (auto simp: bytes_def)
  with 2 show ?case by (auto simp: bytes_def b64_pad)
qed simp

lemma bytes_decode: "bytes (b64_decode s)"
proof (induction s rule: b64_decode.induct)
  case (1 w x y z r)
  have "b64_val w < 64" "b64_val x < 64" "b64_val y < 64" "b64_val z < 64" by (simp_all add: b64_val_less)
  then have "b64_val w * 4 + b64_val x div 16 < 256" "b64_val x mod 16 * 16 + b64_val y div 4 < 256"
    "b64_val y mod 4 * 64 + b64_val z < 256" by linarith+
  with 1 show ?case by (auto simp: bytes_def Let_def)
next
  case (2 w x y)
  have "b64_val w < 64" "b64_val x < 64" "b64_val y < 64" by (simp_all add: b64_val_less)
  then show ?case by (auto simp: bytes_def)
next
  case (3 w x)
  have "b64_val w < 64" "b64_val x < 64" by (simp_all add: b64_val_less)
  then show ?case by (auto simp: bytes_def)
qed (auto simp: bytes_def)

lemma b64_encode_length: "length (b64_encode bs) = 4 * ((length bs + 2) div 3)"
proof (induction bs rule: b64_encode.induct)
  case (4 a b c r)
  have "(5 + length r) div 3 = Suc ((length r + 2) div 3)" by presburger
  with 4 show ?case by simp
qed auto

section \<open>UTF-8\<close>

text \<open>\<open>Buffer.from(s, 'utf8')\<close> on code units below 256.\<close>

fun utf8 :: "string \<Rightarrow> nat list" where
  "utf8 [] = []"
| "utf8 (c # s) = (let n = of_char c in if n < 128 then [n] else [192 + n div 64, 128 + n mod 64]) @ utf8 s"

lemma utf8_inj: "utf8 s = utf8 t \<Longrightarrow> s = t"
proof (induction s arbitrary: t)
  case Nil
  then show ?case by (cases t) (auto simp: Let_def split: if_splits)
next
  case (Cons c s)
  then obtain d t' where t: "t = d # t'" by (cases t) (auto simp: Let_def split: if_splits)
  have dm: "m div 64 = n div 64 \<Longrightarrow> m mod 64 = n mod 64 \<Longrightarrow> m = n" for m n :: nat
    by (metis div_mult_mod_eq)
  have "of_char c = (of_char d :: nat) \<and> utf8 s = utf8 t'"
  proof (cases "of_char c < (128::nat)"; cases "of_char d < (128::nat)")
    assume "\<not> of_char c < (128::nat)" "\<not> of_char d < (128::nat)"
    then show ?thesis using Cons.prems dm [of "of_char c" "of_char d"] by (simp add: t Let_def)
  qed (use Cons.prems in \<open>simp_all add: t Let_def\<close>)
  then have "c = d" by (metis of_char_eq_iff)
  with Cons.IH [of t'] t \<open>_ \<and> utf8 s = utf8 t'\<close> show ?case by blast
qed

end
