(* ===== verification/Emergency_Exit.thy ===== *)
theory Emergency_Exit
  imports Js_Json Js_Bytes
begin

text \<open>
  The emergency halt and recovery engine (\<open>core/emergency-exit.ts\<close>). Three things it calls are
  arguments: \<open>verify\<close> (the Stellar SDK's Ed25519 check on key, message and signature bytes, which
  may throw), \<open>sha256\<close> (the digest of a text in hexadecimal) and the clock.

  \<open>triggerEmergencyExit\<close> and \<open>recoverEngine\<close> suspend at the \<open>await\<close> of the notification hook with
  the lock held, and release it when the hook has settled, whether it failed or not. The model
  splits them there: the call runs up to the suspension, and \<open>settle\<close> is the rest. Other calls
  may run in between.
\<close>

section \<open>Data\<close>

datatype EngineStatus = ACTIVE | HALTED | RECOVERED

datatype EmergencyCondition =
  CRITICAL_EXPLOIT | UNAUTHORIZED_STATE | CONSENSUS_FAILURE | GOVERNANCE_OVERRIDE | MANUAL_ADMIN_HALT

record EngineState =
  es_status :: EngineStatus
  es_triggeredAt :: "string option"
  es_reason :: "string option"
  es_stateVersion :: int

record EmergencyAuthPayload =
  p_callerPublicKey :: string
  p_condition :: EmergencyCondition
  p_reason :: string
  p_timestamp :: jsnum

record SignedEmergencyAuth =
  a_payload :: EmergencyAuthPayload
  a_signature :: string

datatype receipt_condition = Condition EmergencyCondition | RecoveryCondition

datatype receipt_action = HALT | RECOVERY

record EmergencyReceipt =
  r_receiptId :: string
  r_action :: receipt_action
  r_status :: EngineStatus
  r_condition :: receipt_condition
  r_callerPublicKey :: string
  r_reason :: string
  r_triggeredAt :: string
  r_priorStateVersion :: int
  r_newStateVersion :: int

record WithdrawalResult =
  w_receiptId :: string
  w_callerPublicKey :: string
  w_amount :: int
  w_remainingBalance :: int
  w_executedAt :: string

datatype engine_error =
    Reentrant
  | AlreadyHalted "string option"
  | InvalidState EngineStatus
  | AmountNotPositive
  | AuthExpired
  | NoAddressesConfigured
  | CallerNotAuthorised string
  | InvalidSignature
  | NegativeOperand
  | AddOverflow
  | SubUnderflow
  | TimeNotRepresentable
  | UnknownStatus string
  | NegativeVersion

text \<open>The engine. \<open>en_inflight\<close> counts the calls that are suspended at their notification hook; that is no
  field of the class but where its callers stand.\<close>

record Engine =
  en_authorizedAddresses :: "string list"
  en_authWindowMs :: int
  en_hasNotify :: bool
  en_state :: EngineState
  en_locked :: bool
  en_inflight :: nat

section \<open>Checked arithmetic\<close>

definition U64_MAX :: int where
  "U64_MAX = 18446744073709551615"

definition safeAdd :: "int \<Rightarrow> int \<Rightarrow> engine_error + int" where
  "safeAdd a b =
     (if a < 0 \<or> b < 0 then Inl NegativeOperand
      else if a + b > U64_MAX then Inl AddOverflow
      else Inr (a + b))"

definition safeSub :: "int \<Rightarrow> int \<Rightarrow> engine_error + int" where
  "safeSub a b =
     (if a < 0 \<or> b < 0 then Inl NegativeOperand
      else if b > a then Inl SubUnderflow
      else Inr (a - b))"

text \<open>\<open>Number(n)\<close> for a big integer: the nearest double, ties to the even significand. The
  exponent search starts at 0 and needs no more than the 64 bits of \<open>U64_MAX\<close>.\<close>

definition round_half_even :: "int \<Rightarrow> nat \<Rightarrow> int" where
  "round_half_even n e =
     (let q = n div 2 ^ e; r = 2 * (n mod 2 ^ e)
      in if r < 2 ^ e \<or> (r = 2 ^ e \<and> even q) then q * 2 ^ e else (q + 1) * 2 ^ e)"

definition Number_of_BigInt :: "int \<Rightarrow> int" where
  "Number_of_BigInt n =
     (case find (\<lambda>e. n < 2 ^ (53 + e)) [0..<12] of
        Some e \<Rightarrow> round_half_even n e
      | None \<Rightarrow> n)"

section \<open>Authorisation\<close>

fun condition_name :: "EmergencyCondition \<Rightarrow> string" where
  "condition_name CRITICAL_EXPLOIT = ''CRITICAL_EXPLOIT''"
| "condition_name UNAUTHORIZED_STATE = ''UNAUTHORIZED_STATE''"
| "condition_name CONSENSUS_FAILURE = ''CONSENSUS_FAILURE''"
| "condition_name GOVERNANCE_OVERRIDE = ''GOVERNANCE_OVERRIDE''"
| "condition_name MANUAL_ADMIN_HALT = ''MANUAL_ADMIN_HALT''"

definition canonicalPayload :: "EmergencyAuthPayload \<Rightarrow> string" where
  "canonicalPayload p = json_fields
     [(''callerPublicKey'', json_quote (p_callerPublicKey p)),
      (''condition'', json_quote (condition_name (p_condition p))),
      (''reason'', json_quote (p_reason p)),
      (''timestamp'', json_num (p_timestamp p))]"

definition computeReceiptId :: "(string \<Rightarrow> string) \<Rightarrow> EmergencyAuthPayload \<Rightarrow> string" where
  "computeReceiptId sha256 payload = sha256 (canonicalPayload payload)"

type_synonym verifier = "string \<Rightarrow> string \<Rightarrow> nat list \<Rightarrow> string + bool"

definition requireAuth ::
  "verifier \<Rightarrow> Engine \<Rightarrow> SignedEmergencyAuth \<Rightarrow> int \<Rightarrow> engine_error + unit" where
  "requireAuth verify en auth now =
     (let payload = a_payload auth;
          age = js_abs (js_sub (Num now) (p_timestamp payload))
      in if js_gt age (Num (en_authWindowMs en)) then Inl AuthExpired
         else if en_authorizedAddresses en = [] then Inl NoAddressesConfigured
         else if p_callerPublicKey payload \<notin> set (en_authorizedAddresses en)
           then Inl (CallerNotAuthorised (p_callerPublicKey payload))
         else (case verify (p_callerPublicKey payload) (canonicalPayload payload)
                     (buffer_from_hex (a_signature auth)) of
                 Inl _ \<Rightarrow> Inl InvalidSignature
               | Inr False \<Rightarrow> Inl InvalidSignature
               | Inr True \<Rightarrow> Inr ()))"

section \<open>Operations\<close>

record PartialState =
  ps_status :: "EngineStatus option"
  ps_triggeredAt :: "string option option"
  ps_reason :: "string option option"
  ps_stateVersion :: "int option"

definition new_engine ::
  "string option \<Rightarrow> string option \<Rightarrow> int option \<Rightarrow> bool \<Rightarrow> PartialState \<Rightarrow> Engine" where
  "new_engine authorizedAddresses env authWindowMs notify initial =
     (let raw = (case authorizedAddresses of Some a \<Rightarrow> a
        | None \<Rightarrow> (case env of Some a \<Rightarrow> a | None \<Rightarrow> []))
      in \<lparr>en_authorizedAddresses = filter (\<lambda>s. s \<noteq> []) (map trim (split_on CHR '','' raw)),
          en_authWindowMs = (case authWindowMs of Some w \<Rightarrow> w | None \<Rightarrow> 5 * 60 * 1000),
          en_hasNotify = notify,
          en_state = \<lparr>es_status = (case ps_status initial of Some s \<Rightarrow> s | None \<Rightarrow> ACTIVE),
            es_triggeredAt = (case ps_triggeredAt initial of Some t \<Rightarrow> t | None \<Rightarrow> None),
            es_reason = (case ps_reason initial of Some r \<Rightarrow> r | None \<Rightarrow> None),
            es_stateVersion = (case ps_stateVersion initial of Some v \<Rightarrow> v | None \<Rightarrow> 0)\<rparr>,
          en_locked = False, en_inflight = 0\<rparr>)"

fun status_of_string :: "string \<Rightarrow> EngineStatus option" where
  "status_of_string s = (if s = ''ACTIVE'' then Some ACTIVE else if s = ''HALTED'' then Some HALTED
     else if s = ''RECOVERED'' then Some RECOVERED else None)"

text \<open>\<open>setState\<close> checks the status text and the version at run time; it does not take the lock.\<close>

definition setState ::
  "Engine \<Rightarrow> string \<Rightarrow> string option \<Rightarrow> string option \<Rightarrow> int \<Rightarrow> engine_error + Engine" where
  "setState en status triggeredAt reason version =
     (case status_of_string status of
        None \<Rightarrow> Inl (UnknownStatus status)
      | Some s \<Rightarrow>
          if version < 0 then Inl NegativeVersion
          else Inr (en\<lparr>en_state := \<lparr>es_status = s, es_triggeredAt = triggeredAt,
                 es_reason = reason, es_stateVersion = version\<rparr>\<rparr>))"

text \<open>The common part of halt and recovery once the guards have passed: authorise, bump the
  version, stamp the time.\<close>

definition authorise_bump ::
  "verifier \<Rightarrow> Engine \<Rightarrow> SignedEmergencyAuth \<Rightarrow> int \<Rightarrow> engine_error + int \<times> string" where
  "authorise_bump verify en auth now =
     (case requireAuth verify en auth now of
        Inl e \<Rightarrow> Inl e
      | Inr _ \<Rightarrow>
          (case safeAdd (es_stateVersion (en_state en)) 1 of
             Inl e \<Rightarrow> Inl e
           | Inr v \<Rightarrow>
               (case toISOString (Num now) of
                  Inl _ \<Rightarrow> Inl TimeNotRepresentable
                | Inr t \<Rightarrow> Inr (Number_of_BigInt v, t))))"

text \<open>
  The three operations share their frame: the re-entrancy check, taking the lock, the \<open>try\<close> block and the
  \<open>finally\<close> block. A \<open>try\<close> block gives its outcome, the engine, and whether it is suspended at the \<open>await\<close> of the
  hook; then \<open>finally\<close> runs later, when the hook settles.
\<close>

definition finally_release :: "Engine \<Rightarrow> Engine" where
  "finally_release en = en\<lparr>en_locked := False\<rparr>"

definition locking ::
  "(Engine \<Rightarrow> (engine_error + 'r) \<times> Engine \<times> bool) \<Rightarrow> Engine \<Rightarrow> (engine_error + 'r) \<times> Engine" where
  "locking try_block en =
     (if en_locked en then (Inl Reentrant, en)
      else (case try_block (en\<lparr>en_locked := True\<rparr>) of
              (outcome, en', suspended) \<Rightarrow>
                (outcome, if suspended then en'\<lparr>en_inflight := Suc (en_inflight en')\<rparr> else finally_release en')))"

definition trigger_block ::
  "verifier \<Rightarrow> (string \<Rightarrow> string) \<Rightarrow> SignedEmergencyAuth \<Rightarrow> int \<Rightarrow> Engine \<Rightarrow> (engine_error + EmergencyReceipt) \<times> Engine \<times> bool" where
  "trigger_block verify sha256 auth now en =
     (if es_status (en_state en) = HALTED
        then (Inl (AlreadyHalted (es_triggeredAt (en_state en))), en, False)
      else (case authorise_bump verify en auth now of
          Inl e \<Rightarrow> (Inl e, en, False)
        | Inr (newVersion, triggeredAt) \<Rightarrow>
            (let payload = a_payload auth
             in (Inr \<lparr>r_receiptId = computeReceiptId sha256 payload, r_action = HALT,
                   r_status = HALTED, r_condition = Condition (p_condition payload),
                   r_callerPublicKey = p_callerPublicKey payload, r_reason = p_reason payload,
                   r_triggeredAt = triggeredAt,
                   r_priorStateVersion = es_stateVersion (en_state en),
                   r_newStateVersion = newVersion\<rparr>,
                 en\<lparr>en_state := \<lparr>es_status = HALTED, es_triggeredAt = Some triggeredAt,
                   es_reason = Some (p_reason payload), es_stateVersion = newVersion\<rparr>\<rparr>,
                 en_hasNotify en))))"

definition triggerEmergencyExit ::
  "verifier \<Rightarrow> (string \<Rightarrow> string) \<Rightarrow> Engine \<Rightarrow> SignedEmergencyAuth \<Rightarrow> int \<Rightarrow>
   (engine_error + EmergencyReceipt) \<times> Engine" where
  "triggerEmergencyExit verify sha256 en auth now = locking (trigger_block verify sha256 auth now) en"

definition recover_block ::
  "verifier \<Rightarrow> (string \<Rightarrow> string) \<Rightarrow> SignedEmergencyAuth \<Rightarrow> int \<Rightarrow> Engine \<Rightarrow> (engine_error + EmergencyReceipt) \<times> Engine \<times> bool" where
  "recover_block verify sha256 auth now en =
     (if es_status (en_state en) \<noteq> HALTED
        then (Inl (InvalidState (es_status (en_state en))), en, False)
      else (case authorise_bump verify en auth now of
          Inl e \<Rightarrow> (Inl e, en, False)
        | Inr (newVersion, triggeredAt) \<Rightarrow>
            (let payload = a_payload auth
             in (Inr \<lparr>r_receiptId = computeReceiptId sha256 payload, r_action = RECOVERY,
                   r_status = RECOVERED, r_condition = RecoveryCondition,
                   r_callerPublicKey = p_callerPublicKey payload, r_reason = p_reason payload,
                   r_triggeredAt = triggeredAt,
                   r_priorStateVersion = es_stateVersion (en_state en),
                   r_newStateVersion = newVersion\<rparr>,
                 en\<lparr>en_state := \<lparr>es_status = RECOVERED, es_triggeredAt = Some triggeredAt,
                   es_reason = Some (p_reason payload), es_stateVersion = newVersion\<rparr>\<rparr>,
                 en_hasNotify en))))"

definition recoverEngine ::
  "verifier \<Rightarrow> (string \<Rightarrow> string) \<Rightarrow> Engine \<Rightarrow> SignedEmergencyAuth \<Rightarrow> int \<Rightarrow>
   (engine_error + EmergencyReceipt) \<times> Engine" where
  "recoverEngine verify sha256 en auth now = locking (recover_block verify sha256 auth now) en"

text \<open>The suspended call resumes: the \<open>finally\<close> block releases the lock.\<close>

definition settle :: "Engine \<Rightarrow> Engine" where
  "settle en = (if en_inflight en > 0 then finally_release (en\<lparr>en_inflight := en_inflight en - 1\<rparr>) else en)"

definition withdraw_block ::
  "verifier \<Rightarrow> (string \<Rightarrow> string) \<Rightarrow> SignedEmergencyAuth \<Rightarrow> int \<Rightarrow> int \<Rightarrow> int \<Rightarrow> Engine \<Rightarrow>
   (engine_error + WithdrawalResult) \<times> Engine \<times> bool" where
  "withdraw_block verify sha256 auth amount balance now en =
     (if es_status (en_state en) \<noteq> HALTED then Inl (InvalidState (es_status (en_state en)))
      else if amount \<le> 0 then Inl AmountNotPositive
      else (case requireAuth verify en auth now of
          Inl e \<Rightarrow> Inl e
        | Inr _ \<Rightarrow> (case safeSub balance amount of
            Inl e \<Rightarrow> Inl e
          | Inr remaining \<Rightarrow> (case toISOString (Num now) of
              Inl _ \<Rightarrow> Inl TimeNotRepresentable
            | Inr t \<Rightarrow> Inr \<lparr>w_receiptId = computeReceiptId sha256 (a_payload auth),
                w_callerPublicKey = p_callerPublicKey (a_payload auth), w_amount = amount,
                w_remainingBalance = remaining, w_executedAt = t\<rparr>))), en, False)"

definition withdrawFunds ::
  "verifier \<Rightarrow> (string \<Rightarrow> string) \<Rightarrow> Engine \<Rightarrow> SignedEmergencyAuth \<Rightarrow> int \<Rightarrow> int \<Rightarrow> int \<Rightarrow>
   (engine_error + WithdrawalResult) \<times> Engine" where
  "withdrawFunds verify sha256 en auth amount balance now = locking (withdraw_block verify sha256 auth amount balance now) en"

definition isHalted :: "Engine \<Rightarrow> bool" where
  "isHalted en = (es_status (en_state en) = HALTED)"

text \<open>\<open>buildSignedAuth\<close> with the key pair's public key and signing function.\<close>

definition buildSignedAuth ::
  "string \<Rightarrow> (string \<Rightarrow> nat list) \<Rightarrow> EmergencyCondition \<Rightarrow> string \<Rightarrow> int \<Rightarrow> SignedEmergencyAuth" where
  "buildSignedAuth publicKey sign condition reason now =
     (let payload = \<lparr>p_callerPublicKey = publicKey, p_condition = condition, p_reason = reason,
            p_timestamp = Num now\<rparr>
      in \<lparr>a_payload = payload, a_signature = to_hex (sign (canonicalPayload payload))\<rparr>)"

text \<open>Every call on an engine, in any order, with the resumption of a suspended one as a step.\<close>

datatype engine_op =
    Trigger SignedEmergencyAuth int
  | Recover SignedEmergencyAuth int
  | Withdraw SignedEmergencyAuth int int int
  | SetState string "string option" "string option" int
  | Settle

fun engine_step :: "verifier \<Rightarrow> (string \<Rightarrow> string) \<Rightarrow> Engine \<Rightarrow> engine_op \<Rightarrow> Engine" where
  "engine_step vf sh en (Trigger a now) = snd (triggerEmergencyExit vf sh en a now)"
| "engine_step vf sh en (Recover a now) = snd (recoverEngine vf sh en a now)"
| "engine_step vf sh en (Withdraw a amount balance now) = snd (withdrawFunds vf sh en a amount balance now)"
| "engine_step vf sh en (SetState s t r v) =
     (case setState en s t r v of Inl _ \<Rightarrow> en | Inr en' \<Rightarrow> en')"
| "engine_step vf sh en Settle = settle en"

section \<open>Lemmas\<close>

text \<open>The lock is held exactly while one call is suspended, and never two are.\<close>

definition engine_inv :: "Engine \<Rightarrow> bool" where
  "engine_inv en = (en_inflight en = (if en_locked en then 1 else 0) \<and> (en_locked en \<longrightarrow> en_hasNotify en))"

text \<open>An engine after a committed change: suspended with the lock if there is a hook, else finished.\<close>

definition after_commit :: "Engine \<Rightarrow> EngineState \<Rightarrow> Engine" where
  "after_commit en st =
     en\<lparr>en_state := st, en_locked := en_hasNotify en, en_inflight := en_inflight en + (if en_hasNotify en then 1 else 0)\<rparr>"

lemma after_commit_simps [simp]:
  "en_state (after_commit en st) = st" "en_hasNotify (after_commit en st) = en_hasNotify en"
  "en_locked (after_commit en st) = en_hasNotify en"
  "en_inflight (after_commit en st) = en_inflight en + (if en_hasNotify en then 1 else 0)"
  "en_authorizedAddresses (after_commit en st) = en_authorizedAddresses en"
  "en_authWindowMs (after_commit en st) = en_authWindowMs en"
  by (simp_all add: after_commit_def)

lemma requireAuth_locked [simp]: "requireAuth vf (en\<lparr>en_locked := l\<rparr>) a now = requireAuth vf en a now"
  by (simp add: requireAuth_def Let_def)

lemma authorise_bump_locked [simp]: "authorise_bump vf (en\<lparr>en_locked := l\<rparr>) a now = authorise_bump vf en a now"
  by (simp add: authorise_bump_def split: sum.split)

lemma released_unlocked [simp]: "\<not> en_locked en \<Longrightarrow> finally_release (en\<lparr>en_locked := l\<rparr>) = en"
  by (cases en) (simp add: finally_release_def)

text \<open>What the frame amounts to on each outcome of the \<open>try\<close> block.\<close>

lemma commit_released: "\<not> en_hasNotify en \<Longrightarrow> finally_release (en\<lparr>en_locked := l, en_state := st\<rparr>) = after_commit en st"
  by (cases en) (simp add: finally_release_def after_commit_def)

lemma commit_suspended:
  "en_hasNotify en \<Longrightarrow> en\<lparr>en_locked := True, en_state := st, en_inflight := Suc (en_inflight en)\<rparr> = after_commit en st"
  by (cases en) (simp add: after_commit_def)

lemmas frame_simps = locking_def commit_released commit_suspended

lemma trigger_ok:
  assumes "triggerEmergencyExit vf sh en a now = (Inr r, en')"
  obtains v t where "\<not> en_locked en" "es_status (en_state en) \<noteq> HALTED"
    "authorise_bump vf en a now = Inr (v, t)"
    "en' = after_commit en \<lparr>es_status = HALTED, es_triggeredAt = Some t,
       es_reason = Some (p_reason (a_payload a)), es_stateVersion = v\<rparr>"
    "r_newStateVersion r = v" "r_priorStateVersion r = es_stateVersion (en_state en)"
    "r_receiptId r = computeReceiptId sh (a_payload a)"
  using assms
  by (cases "en_hasNotify en")
    (auto simp: triggerEmergencyExit_def trigger_block_def frame_simps Let_def split: if_splits sum.splits prod.splits)

lemma recover_ok:
  assumes "recoverEngine vf sh en a now = (Inr r, en')"
  obtains v t where "\<not> en_locked en" "es_status (en_state en) = HALTED"
    "authorise_bump vf en a now = Inr (v, t)"
    "en' = after_commit en \<lparr>es_status = RECOVERED, es_triggeredAt = Some t,
       es_reason = Some (p_reason (a_payload a)), es_stateVersion = v\<rparr>"
    "r_newStateVersion r = v" "r_priorStateVersion r = es_stateVersion (en_state en)"
  using assms
  by (cases "en_hasNotify en")
    (auto simp: recoverEngine_def recover_block_def frame_simps Let_def split: if_splits sum.splits prod.splits)

text \<open>Conversely, the guards that let a halt or a recovery through.\<close>

lemma trigger_accepted:
  assumes "\<not> en_locked en" "es_status (en_state en) \<noteq> HALTED" "authorise_bump vf en a now = Inr (v, t)"
  obtains r where "triggerEmergencyExit vf sh en a now = (Inr r, after_commit en \<lparr>es_status = HALTED, es_triggeredAt = Some t,
       es_reason = Some (p_reason (a_payload a)), es_stateVersion = v\<rparr>)"
  using assms
  by (cases "en_hasNotify en") (auto simp: triggerEmergencyExit_def trigger_block_def frame_simps Let_def)

lemma recover_accepted:
  assumes "\<not> en_locked en" "es_status (en_state en) = HALTED" "authorise_bump vf en a now = Inr (v, t)"
  obtains r where "recoverEngine vf sh en a now = (Inr r, after_commit en \<lparr>es_status = RECOVERED, es_triggeredAt = Some t,
       es_reason = Some (p_reason (a_payload a)), es_stateVersion = v\<rparr>)"
    "r_receiptId r = computeReceiptId sh (a_payload a)"
  using assms
  by (cases "en_hasNotify en") (auto simp: recoverEngine_def recover_block_def frame_simps Let_def)

lemma trigger_error: "triggerEmergencyExit vf sh en a now = (Inl e, en') \<Longrightarrow> en' = en"
  by (auto simp: triggerEmergencyExit_def trigger_block_def locking_def Let_def split: if_splits sum.splits)

lemma recover_error: "recoverEngine vf sh en a now = (Inl e, en') \<Longrightarrow> en' = en"
  by (auto simp: recoverEngine_def recover_block_def locking_def Let_def split: if_splits sum.splits)

lemma withdraw_same: "snd (withdrawFunds vf sh en a amount balance now) = en"
  by (simp add: withdrawFunds_def withdraw_block_def locking_def)

text \<open>Only a held lock is answered with the re-entrancy error.\<close>

lemma not_reentrant:
  "requireAuth vf en a now \<noteq> Inl Reentrant" "authorise_bump vf en a now \<noteq> Inl Reentrant" "safeSub x y \<noteq> Inl Reentrant"
  by (auto simp: requireAuth_def authorise_bump_def safeAdd_def safeSub_def Let_def split: sum.splits bool.splits)

lemma reentrant_iff:
  "fst (triggerEmergencyExit vf sh en a now) = Inl Reentrant \<longleftrightarrow> en_locked en"
  "fst (recoverEngine vf sh en a now) = Inl Reentrant \<longleftrightarrow> en_locked en"
  "fst (withdrawFunds vf sh en a amount balance now) = Inl Reentrant \<longleftrightarrow> en_locked en"
  using not_reentrant
  by (auto simp: triggerEmergencyExit_def trigger_block_def recoverEngine_def recover_block_def withdrawFunds_def withdraw_block_def
      locking_def Let_def split: sum.splits)

text \<open>What a passed authorisation means.\<close>

definition authorised :: "verifier \<Rightarrow> Engine \<Rightarrow> SignedEmergencyAuth \<Rightarrow> int \<Rightarrow> bool" where
  "authorised vf en a now =
     (\<not> js_gt (js_abs (js_sub (Num now) (p_timestamp (a_payload a)))) (Num (en_authWindowMs en)) \<and>
      p_callerPublicKey (a_payload a) \<in> set (en_authorizedAddresses en) \<and>
      vf (p_callerPublicKey (a_payload a)) (canonicalPayload (a_payload a))
        (buffer_from_hex (a_signature a)) = Inr True)"

lemma requireAuth_iff: "requireAuth vf en a now = Inr () \<longleftrightarrow> authorised vf en a now"
  by (auto simp: requireAuth_def authorised_def Let_def split: sum.splits bool.splits)

lemma authorise_bump_ok:
  "authorise_bump vf en a now = Inr (v, t) \<longleftrightarrow>
     authorised vf en a now \<and> (\<exists>w. safeAdd (es_stateVersion (en_state en)) 1 = Inr w \<and>
       v = Number_of_BigInt w) \<and> toISOString (Num now) = Inr t"
  by (auto simp: authorise_bump_def requireAuth_iff [symmetric] split: sum.splits)

text \<open>A step that is not a rehydration either keeps the state, halts or recovers.\<close>

lemma engine_step_cases [case_names same halted recovered set]:
  obtains (same) "en_state (engine_step vf sh en x) = en_state en"
  | (halted) a now r where "x = Trigger a now"
      "triggerEmergencyExit vf sh en a now = (Inr r, engine_step vf sh en x)"
  | (recovered) a now r where "x = Recover a now"
      "recoverEngine vf sh en a now = (Inr r, engine_step vf sh en x)"
  | (set) s t r v where "x = SetState s t r v"
proof (cases x)
  case (Trigger a now)
  obtain out en' where o: "triggerEmergencyExit vf sh en a now = (out, en')" by force
  then show ?thesis using that Trigger by (cases out) (auto dest: trigger_error)
next
  case (Recover a now)
  obtain out en' where o: "recoverEngine vf sh en a now = (out, en')" by force
  then show ?thesis using that Recover by (cases out) (auto dest: recover_error)
qed (use that in \<open>auto simp: settle_def finally_release_def withdraw_same\<close>)

lemma engine_step_inv: "engine_inv en \<Longrightarrow> engine_inv (engine_step vf sh en x)"
proof (cases x)
  case (Trigger a now)
  assume "engine_inv en"
  obtain out en' where o: "triggerEmergencyExit vf sh en a now = (out, en')" by force
  with \<open>engine_inv en\<close> Trigger show ?thesis
    by (cases out) (auto simp: engine_inv_def dest: trigger_error elim!: trigger_ok)
next
  case (Recover a now)
  assume "engine_inv en"
  obtain out en' where o: "recoverEngine vf sh en a now = (out, en')" by force
  with \<open>engine_inv en\<close> Recover show ?thesis
    by (cases out) (auto simp: engine_inv_def dest: recover_error elim!: recover_ok)
qed (auto simp: engine_inv_def settle_def finally_release_def setState_def withdraw_same split: sum.splits option.splits if_splits)

interpretation engine_sys: invariant_system "engine_step vf sh" engine_inv for vf sh
  by unfold_locales (rule engine_step_inv)

lemma Number_of_BigInt_exact: "0 \<le> n \<Longrightarrow> n < 2 ^ 53 \<Longrightarrow> Number_of_BigInt n = n"
proof -
  assume "0 \<le> n" "n < 2 ^ 53"
  then have "find (\<lambda>e. n < 2 ^ (53 + e)) (0 # [1..<12]) = Some 0" by simp
  then have "find (\<lambda>e. n < 2 ^ (53 + e)) [0..<12] = Some 0" by (simp add: upt_rec)
  then show ?thesis by (simp add: Number_of_BigInt_def round_half_even_def)
qed

lemma Number_of_BigInt_2_53: "Number_of_BigInt (2 ^ 53) = 2 ^ 53" "Number_of_BigInt (2 ^ 53 + 1) = 2 ^ 53"
  by (simp_all add: Number_of_BigInt_def round_half_even_def upt_rec)

definition no_set :: "engine_op \<Rightarrow> bool" where
  "no_set x = (case x of SetState _ _ _ _ \<Rightarrow> False | _ \<Rightarrow> True)"

lemma status_step:
  assumes "no_set x" "es_status (en_state en) \<noteq> ACTIVE"
  shows "es_status (en_state (engine_step vf sh en x)) \<noteq> ACTIVE"
proof (cases rule: engine_step_cases [where vf = vf and sh = sh and en = en and x = x])
  case same
  with assms show ?thesis by simp
next
  case (halted a now r)
  from halted(2) show ?thesis by (elim trigger_ok) simp
next
  case (recovered a now r)
  from recovered(2) show ?thesis by (elim recover_ok) simp
qed (use assms in \<open>simp add: no_set_def\<close>)

lemma condition_name_inj: "condition_name c = condition_name d \<Longrightarrow> c = d"
  by (cases c; cases d) auto

section \<open>Properties\<close>

text \<open>
  C7. The lock is held exactly while a halt or recovery is suspended at its notification hook, after any
  interleaving of calls, whether they succeed or fail: never are two calls suspended, an engine without a hook is
  never left locked, and once the suspended call has resumed the lock is free. A halt, recovery or withdrawal is
  refused as re-entrant exactly while another call is suspended.
\<close>

theorem engine_lock_discipline:
  "let en = foldl (engine_step vf sh) (new_engine aa env w notify initial) ops
   in en_inflight en \<le> 1 \<and> en_locked en = (en_inflight en = 1) \<and> (en_locked en \<le> en_hasNotify en) \<and> \<not> en_locked (settle en)
     \<and> (fst (triggerEmergencyExit vf sh en a now) = Inl Reentrant) = (en_inflight en = 1)
     \<and> (fst (recoverEngine vf sh en a now) = Inl Reentrant) = (en_inflight en = 1)
     \<and> (fst (withdrawFunds vf sh en a amount balance now) = Inl Reentrant) = (en_inflight en = 1)"
proof -
  have "engine_inv (new_engine aa env w notify initial)"
    by (simp add: engine_inv_def new_engine_def Let_def)
  then have "engine_inv (foldl (engine_step vf sh) (new_engine aa env w notify initial) ops)"
    by (rule engine_sys.run_inv)
  then show ?thesis by (auto simp: engine_inv_def settle_def finally_release_def reentrant_iff Let_def split: if_splits)
qed

text \<open>
  While a call is suspended no other halt, recovery or withdrawal gets through: each is
  refused as re-entrant and changes nothing.
\<close>

theorem engine_mutual_exclusion:
  assumes "engine_inv en" "en_inflight en > 0"
  shows "triggerEmergencyExit vf sh en a now = (Inl Reentrant, en) \<and>
    recoverEngine vf sh en a now = (Inl Reentrant, en) \<and>
    withdrawFunds vf sh en a amount balance now = (Inl Reentrant, en)"
  using assms by (simp add: engine_inv_def triggerEmergencyExit_def recoverEngine_def withdrawFunds_def locking_def split: if_splits)

definition sample_engine :: Engine where
  "sample_engine = new_engine (Some ''GA, GB'') None None True
     \<lparr>ps_status = None, ps_triggeredAt = None, ps_reason = None, ps_stateVersion = None\<rparr>"

definition sample_auth :: SignedEmergencyAuth where
  "sample_auth = buildSignedAuth ''GB'' (\<lambda>_. [1, 2]) CRITICAL_EXPLOIT ''x'' 1000"

definition accept_all :: verifier where
  "accept_all key msg sig = Inr True"

lemma sample_engine_simps [simp]:
  "en_authorizedAddresses sample_engine = [''GA'', ''GB'']" "en_authWindowMs sample_engine = 300000"
  "en_hasNotify sample_engine = True" "en_locked sample_engine = False"
  "en_inflight sample_engine = 0" "es_status (en_state sample_engine) = ACTIVE"
  "es_stateVersion (en_state sample_engine) = 0"
  by (simp_all add: sample_engine_def new_engine_def trim_def is_ws_def)

lemma sample_auth_simps [simp]:
  "p_callerPublicKey (a_payload sample_auth) = ''GB''" "p_timestamp (a_payload sample_auth) = Num 1000"
  by (simp_all add: sample_auth_def buildSignedAuth_def Let_def)

theorem engine_mutual_exclusion_witness:
  "triggerEmergencyExit accept_all id (sample_engine\<lparr>en_locked := True, en_inflight := 1\<rparr>)
     sample_auth 1000 = (Inl Reentrant, sample_engine\<lparr>en_locked := True, en_inflight := 1\<rparr>)"
  using engine_mutual_exclusion [of "sample_engine\<lparr>en_locked := True, en_inflight := 1\<rparr>"
      accept_all id sample_auth 1000]
  by (simp add: engine_inv_def)


lemma sample_bump: "authorise_bump accept_all sample_engine sample_auth 1000 = Inr (1, iso_date 1000)"
  by (auto simp: authorise_bump_ok authorised_def accept_all_def safeAdd_def U64_MAX_def
      Number_of_BigInt_exact valid_time_def)

lemma sample_halt: "en_state (engine_step accept_all id sample_engine (Trigger sample_auth 1000)) =
    \<lparr>es_status = HALTED, es_triggeredAt = Some (iso_date 1000),
     es_reason = Some (p_reason (a_payload sample_auth)), es_stateVersion = 1\<rparr>"
proof -
  obtain r where "triggerEmergencyExit accept_all id sample_engine sample_auth 1000 =
      (Inr r, after_commit sample_engine \<lparr>es_status = HALTED, es_triggeredAt = Some (iso_date 1000),
         es_reason = Some (p_reason (a_payload sample_auth)), es_stateVersion = 1\<rparr>)"
    by (rule trigger_accepted [OF _ _ sample_bump, of id]) simp_all
  then show ?thesis by simp
qed


text \<open>
  Halting is permanent up to rehydration: an engine that has left \<open>ACTIVE\<close> is never
  \<open>ACTIVE\<close> again, whatever calls are made.
\<close>

theorem engine_never_reactivated:
  assumes "list_all no_set ops" "es_status (en_state en) \<noteq> ACTIVE"
  shows "es_status (en_state (foldl (engine_step vf sh) en ops)) \<noteq> ACTIVE"
  using assms by (induction ops arbitrary: en) (auto simp: status_step)

theorem engine_never_reactivated_witness:
  "es_status (en_state (foldl (engine_step accept_all id)
     (engine_step accept_all id sample_engine (Trigger sample_auth 1000))
     [Settle, Recover sample_auth 2000])) \<noteq> ACTIVE"
  using engine_never_reactivated [of "[Settle, Recover sample_auth 2000]"
      "engine_step accept_all id sample_engine (Trigger sample_auth 1000)" accept_all id]
  by (simp add: sample_halt no_set_def del: engine_step.simps foldl.simps)

text \<open>
  A successful halt or recovery raises the state version by exactly one while the version
  is below \<open>2 ^ 53 - 1\<close>, and the receipt carries both versions; from \<open>2 ^ 53\<close> on the rounding of
  the counter to a double stops it.
\<close>

theorem engine_version_step:
  assumes "triggerEmergencyExit vf sh en a now = (Inr r, en') \<or> recoverEngine vf sh en a now = (Inr r, en')"
  shows "r_priorStateVersion r = es_stateVersion (en_state en) \<and>
    r_newStateVersion r = es_stateVersion (en_state en') \<and>
    (es_stateVersion (en_state en) < 2 ^ 53 - 1 \<longrightarrow>
       es_stateVersion (en_state en') = es_stateVersion (en_state en) + 1) \<and>
    (es_stateVersion (en_state en) = 2 ^ 53 \<longrightarrow> es_stateVersion (en_state en') = 2 ^ 53)"
proof -
  obtain v t where b: "authorise_bump vf en a now = Inr (v, t)" and
    r: "r_newStateVersion r = v" "r_priorStateVersion r = es_stateVersion (en_state en)"
      "es_stateVersion (en_state en') = v"
    using assms by (elim disjE trigger_ok recover_ok) auto
  let ?p = "es_stateVersion (en_state en)"
  from b have p: "0 \<le> ?p" "v = Number_of_BigInt (?p + 1)"
    by (auto simp: authorise_bump_ok safeAdd_def split: if_splits)
  have "?p < 2 ^ 53 - 1 \<Longrightarrow> v = ?p + 1" using p by (simp add: Number_of_BigInt_exact)
  moreover have "?p = 2 ^ 53 \<Longrightarrow> v = 2 ^ 53" using p Number_of_BigInt_2_53(2) by simp
  ultimately show ?thesis using r by simp
qed

theorem engine_version_step_witness:
  "es_stateVersion (en_state (snd (triggerEmergencyExit accept_all id sample_engine sample_auth 1000))) = 0 + 1"
proof -
  obtain r en' where t: "triggerEmergencyExit accept_all id sample_engine sample_auth 1000 = (Inr r, en')"
    by (rule trigger_accepted [OF _ _ sample_bump]) simp_all
  then have "triggerEmergencyExit accept_all id sample_engine sample_auth 1000 = (Inr r, en') \<or>
    recoverEngine accept_all id sample_engine sample_auth 1000 = (Inr r, en')" by simp
  from engine_version_step [OF this] t show ?thesis by simp
qed

text \<open>
  C25. A withdrawal is approved only by a halted engine for an authorised caller, for a positive
  amount that the balance covers, and the remaining balance and the amount add up to it.
\<close>

theorem withdraw_conserves:
  assumes "withdrawFunds vf sh en a amount balance now = (Inr w, en')"
  shows "en' = en \<and> es_status (en_state en) = HALTED \<and> authorised vf en a now \<and> 0 < w_amount w \<and>
    w_amount w = amount \<and> 0 \<le> w_remainingBalance w \<and> w_remainingBalance w + w_amount w = balance"
  using assms
  by (auto simp: withdrawFunds_def withdraw_block_def locking_def safeSub_def requireAuth_iff [symmetric] split: if_splits sum.splits)

theorem withdraw_conserves_witness:
  "\<exists>w. withdrawFunds accept_all id (sample_engine\<lparr>en_state := (en_state sample_engine)\<lparr>es_status := HALTED\<rparr>\<rparr>)
     sample_auth 40 100 1000 = (Inr w, sample_engine\<lparr>en_state := (en_state sample_engine)\<lparr>es_status := HALTED\<rparr>\<rparr>) \<and> w_remainingBalance w + 40 = 100"
proof -
  let ?en = "sample_engine\<lparr>en_state := (en_state sample_engine)\<lparr>es_status := HALTED\<rparr>\<rparr>"
  have "requireAuth accept_all ?en sample_auth 1000 = Inr ()"
    by (simp add: requireAuth_iff authorised_def accept_all_def)
  then obtain w where w: "withdrawFunds accept_all id ?en sample_auth 40 100 1000 = (Inr w, ?en)"
    by (simp add: withdrawFunds_def withdraw_block_def locking_def safeSub_def valid_time_def)
  from withdraw_conserves [OF w] w show ?thesis by auto
qed

text \<open>
  The payload that halted the engine also recovers it: once the halt has settled, the same
  signed payload is accepted by \<open>recoverEngine\<close> at any time inside the window.
\<close>

theorem halt_payload_replays_as_recovery:
  assumes t: "triggerEmergencyExit vf sh en a now = (Inr r, en')"
    and f: "\<not> js_gt (js_abs (js_sub (Num now') (p_timestamp (a_payload a)))) (Num (en_authWindowMs en))"
    and v: "es_stateVersion (en_state en) < 2 ^ 53 - 1" and n: "valid_time (Num now')"
  shows "\<exists>r' en''. recoverEngine vf sh (settle en') a now' = (Inr r', en'') \<and>
    es_status (en_state en'') = RECOVERED \<and> r_receiptId r' = r_receiptId r"
proof -
  from t obtain v' t' where nl: "\<not> en_locked en" and b: "authorise_bump vf en a now = Inr (v', t')" and
    en': "en' = after_commit en \<lparr>es_status = HALTED, es_triggeredAt = Some t',
       es_reason = Some (p_reason (a_payload a)), es_stateVersion = v'\<rparr>"
    by (elim trigger_ok) auto
  let ?en = "settle en'"
  have s: "\<not> en_locked ?en" "es_status (en_state ?en) = HALTED" "es_stateVersion (en_state ?en) = v'"
    "en_authorizedAddresses ?en = en_authorizedAddresses en" "en_authWindowMs ?en = en_authWindowMs en"
    by (auto simp: settle_def finally_release_def en')
  have "authorised vf ?en a now'"
    using b f by (simp add: authorise_bump_ok authorised_def s)
  moreover have "0 \<le> v'" "v' < 2 ^ 53"
    using b v by (auto simp: authorise_bump_ok safeAdd_def Number_of_BigInt_exact split: if_splits)
  ultimately have "authorise_bump vf ?en a now' = Inr (Number_of_BigInt (v' + 1), iso_date now')"
    using n by (auto simp: authorise_bump_ok s safeAdd_def U64_MAX_def)
  moreover have "r_receiptId r = computeReceiptId sh (a_payload a)" using t by (elim trigger_ok)
  ultimately show ?thesis using recover_accepted [OF s(1,2)] by (metis EngineState.select_convs(1) after_commit_simps(1))
qed

theorem halt_payload_replays_as_recovery_witness:
  "\<exists>r' en''. recoverEngine accept_all id
     (settle (snd (triggerEmergencyExit accept_all id sample_engine sample_auth 1000))) sample_auth 2000 =
     (Inr r', en'') \<and> es_status (en_state en'') = RECOVERED"
proof -
  obtain r en' where t: "triggerEmergencyExit accept_all id sample_engine sample_auth 1000 = (Inr r, en')"
    by (rule trigger_accepted [OF _ _ sample_bump]) simp_all
  have "\<not> js_gt (js_abs (js_sub (Num 2000) (p_timestamp (a_payload sample_auth))))
      (Num (en_authWindowMs sample_engine))" by simp
  from halt_payload_replays_as_recovery [OF t this] t show ?thesis
    by (auto simp: valid_time_def)
qed

text \<open>
  A signature binds the payload: two payloads with finite timestamps have the same
  canonical text only if they are equal.
\<close>

theorem canonicalPayload_inj:
  fixes p q :: EmergencyAuthPayload
  assumes "canonicalPayload p = canonicalPayload q" "p_timestamp p = Num i" "p_timestamp q = Num j"
  shows "p = q"
proof -
  have "show_int i = show_int j" if "show_int i @ ''}'' = show_int j @ ''}''" using that by simp
  then have "p_callerPublicKey p = p_callerPublicKey q \<and> condition_name (p_condition p) = condition_name (p_condition q)
      \<and> p_reason p = p_reason q \<and> show_int i = show_int j"
    using assms by (simp add: canonicalPayload_def json_fields_def json_num_def json_quote_unique)
  then show ?thesis using assms by (auto dest!: condition_name_inj show_int_inj)
qed

theorem canonicalPayload_inj_witness:
  "canonicalPayload (a_payload sample_auth) \<noteq>
   canonicalPayload ((a_payload sample_auth)\<lparr>p_timestamp := Num 1001\<rparr>)"
proof
  assume "canonicalPayload (a_payload sample_auth) =
    canonicalPayload ((a_payload sample_auth)\<lparr>p_timestamp := Num 1001\<rparr>)"
  from canonicalPayload_inj [OF this, of 1000 1001]
  have "p_timestamp (a_payload sample_auth) = p_timestamp ((a_payload sample_auth)\<lparr>p_timestamp := Num 1001\<rparr>)"
    by simp
  then show False by simp
qed

text \<open>
  An authorised signer can always halt: if verification accepts what the key signs, then
  on a running, unlocked engine whose version counter is in range, the payload that
  \<open>buildSignedAuth\<close> makes for a configured key is accepted throughout the window.
\<close>

theorem signed_auth_halts:
  assumes "\<forall>msg. vf pk msg (sign msg) = Inr True" "\<forall>msg. bytes (sign msg)"
    and "pk \<in> set (en_authorizedAddresses en)" "\<bar>now' - now\<bar> \<le> en_authWindowMs en"
    and "\<not> en_locked en" "es_status (en_state en) \<noteq> HALTED"
    and "0 \<le> es_stateVersion (en_state en)" "es_stateVersion (en_state en) < U64_MAX"
    and "valid_time (Num now')"
  shows "\<exists>r en'. triggerEmergencyExit vf sh en (buildSignedAuth pk sign c reason now) now' = (Inr r, en') \<and>
    isHalted en' \<and> es_reason (en_state en') = Some reason"
proof -
  let ?a = "buildSignedAuth pk sign c reason now"
  have "authorised vf en ?a now'"
    using assms(1-4) by (simp add: authorised_def buildSignedAuth_def Let_def buffer_to_hex)
  then have "\<exists>v t. authorise_bump vf en ?a now' = Inr (v, t)"
    using assms(7-9) by (simp add: authorise_bump_ok safeAdd_def)
  then obtain v t where "authorise_bump vf en ?a now' = Inr (v, t)" by blast
  then obtain r where r: "triggerEmergencyExit vf sh en ?a now' = (Inr r, after_commit en \<lparr>es_status = HALTED, es_triggeredAt = Some t,
       es_reason = Some (p_reason (a_payload ?a)), es_stateVersion = v\<rparr>)"
    by (rule trigger_accepted [OF assms(5,6)])
  have "p_reason (a_payload ?a) = reason" by (simp add: buildSignedAuth_def Let_def)
  then show ?thesis using r by (simp add: isHalted_def)
qed

theorem signed_auth_halts_witness:
  "\<exists>r en'. triggerEmergencyExit accept_all id sample_engine
     (buildSignedAuth ''GB'' (\<lambda>_. [1, 2]) CRITICAL_EXPLOIT ''x'' 1000) 1500 = (Inr r, en') \<and>
     isHalted en' \<and> es_reason (en_state en') = Some ''x''"
  by (rule signed_auth_halts) (simp_all add: accept_all_def bytes_def U64_MAX_def valid_time_def)

end
