(* ===== verification/Relay_Bridge.thy ===== *)
theory Relay_Bridge
  imports Js_Json "HOL-Library.Multiset"
begin

text \<open>
  The atomic RPC relayer bridge (\<open>atomic-rpc-relayer-bridge/src/index.ts\<close>): canonical JSON, the
  replay-aware retry and failover loop, the quorum check against distinct secondary endpoints,
  and the audit log. The environment is an argument: \<open>env_resolve\<close> is the URL class (the request
  endpoint resolved against the configured URL, or nothing for a malformed one), \<open>env_http\<close> gives
  the outcome of the n-th HTTP request of the run, \<open>env_project\<close> is the configured verification
  projection, which may throw. The requests sent are recorded in order, so that how often a
  request is sent can be stated.
\<close>

section \<open>Data\<close>

datatype BridgeRequestMethod = GET | POST | PUT | DELETE

datatype VerificationStatus = Verified | VFailed | Unavailable | Skipped

record BridgeEndpoint =
  ep_url :: string
  ep_priority :: int

record BridgeRequest =
  rq_id :: string
  rq_method :: BridgeRequestMethod
  rq_endpoint :: string
  rq_payload :: jsval
  rq_timestamp :: int
  rq_idempotent :: "bool option"
  rq_idempotencyKey :: "string option"

record BridgeResponse =
  rs_requestId :: string
  rs_success :: bool
  rs_data :: "jsval option"
  rs_error :: "string option"
  rs_endpointUsed :: string
  rs_latencyMs :: int
  rs_timestamp :: int
  rs_verificationStatus :: VerificationStatus

record HttpCall =
  hc_method :: BridgeRequestMethod
  hc_url :: string
  hc_data :: jsval
  hc_timeout :: int
  hc_idempotencyKey :: "string option"

record ResolvedUrl =
  u_baseOrigin :: string
  u_origin :: string
  u_href :: string
  u_hrefNoHash :: string

record Env =
  env_resolve :: "string \<Rightarrow> string \<Rightarrow> ResolvedUrl option"
  env_http :: "nat \<Rightarrow> HttpCall \<Rightarrow> string + jsval"
  env_project :: "BridgeRequest \<Rightarrow> jsval \<Rightarrow> string + jsval"

record Bridge =
  br_endpoints :: "BridgeEndpoint list"
  br_timeoutMs :: int
  br_maxRetries :: nat
  br_requireAtomicVerification :: bool
  br_auditLog :: "BridgeResponse list"

section \<open>Canonical JSON\<close>

fun sequence :: "('e + 'a) list \<Rightarrow> 'e + 'a list" where
  "sequence [] = Inr []"
| "sequence (x # xs) =
     (case x of Inl e \<Rightarrow> Inl e
      | Inr v \<Rightarrow> (case sequence xs of Inl e \<Rightarrow> Inl e | Inr vs \<Rightarrow> Inr (v # vs)))"

text \<open>The values of an object are normalised in the order of its sorted keys, so the first error
  in that order is the one thrown. A value of type \<open>jsval\<close> has no cycles.\<close>

definition sequence_props :: "(string \<times> ('e + 'a)) list \<Rightarrow> 'e + (string \<times> 'a) list" where
  "sequence_props ps = sequence (map (\<lambda>(k, r). map_sum id (Pair k) r) (sort_key fst ps))"

fun normalizeJson :: "jsval \<Rightarrow> string + jsval" where
  "normalizeJson JNull = Inr JNull"
| "normalizeJson (JString s) = Inr (JString s)"
| "normalizeJson (JBool b) = Inr (JBool b)"
| "normalizeJson (JNumber x) = (if js_isFinite x then Inr (JNumber x)
     else Inl ''Verification projection must contain finite JSON numbers'')"
| "normalizeJson (JArray vs) = map_sum id JArray (sequence (map normalizeJson vs))"
| "normalizeJson (JObject ps) =
     map_sum id JObject (sequence_props (map (\<lambda>(k, v). (k, normalizeJson v)) ps))"
| "normalizeJson JUndefined = Inl ''Verification projection must be valid JSON data''"

definition canonicalizeJson :: "jsval \<Rightarrow> string + string" where
  "canonicalizeJson v = map_sum id json (normalizeJson v)"

section \<open>Requests\<close>

definition new_bridge ::
  "BridgeEndpoint list \<Rightarrow> int option \<Rightarrow> nat option \<Rightarrow> bool option \<Rightarrow> Bridge" where
  "new_bridge endpoints timeoutMs maxRetries requireAtomicVerification =
     \<lparr>br_endpoints = sort_key (\<lambda>e. - ep_priority e) endpoints,
      br_timeoutMs = (case timeoutMs of None \<Rightarrow> 5000 | Some t \<Rightarrow> t),
      br_maxRetries = (case maxRetries of None \<Rightarrow> 3 | Some r \<Rightarrow> r),
      br_requireAtomicVerification = (case requireAtomicVerification of None \<Rightarrow> True | Some b \<Rightarrow> b),
      br_auditLog = []\<rparr>"

definition isReplayable :: "BridgeRequest \<Rightarrow> bool" where
  "isReplayable rq = (rq_method rq = GET \<or> rq_idempotent rq = Some True \<or> rq_idempotencyKey rq \<noteq> None)"

definition buildRequestUrl :: "Env \<Rightarrow> string \<Rightarrow> string \<Rightarrow> string + string" where
  "buildRequestUrl env requestEndpoint endpointUrl =
     (case env_resolve env requestEndpoint endpointUrl of
        None \<Rightarrow> Inl ''Invalid RPC endpoint URL''
      | Some u \<Rightarrow>
          if u_origin u \<noteq> u_baseOrigin u
          then Inl ''Request endpoint must resolve to the configured RPC origin''
          else Inr (u_href u))"

type_synonym calls = "HttpCall list"

definition executeRequest ::
  "Env \<Rightarrow> Bridge \<Rightarrow> BridgeRequest \<Rightarrow> BridgeEndpoint \<Rightarrow> calls \<Rightarrow> (string + jsval) \<times> calls" where
  "executeRequest env br rq ep cs =
     (case buildRequestUrl env (rq_endpoint rq) (ep_url ep) of
        Inl e \<Rightarrow> (Inl e, cs)
      | Inr href \<Rightarrow>
          (let c = \<lparr>hc_method = rq_method rq, hc_url = href, hc_data = rq_payload rq,
                    hc_timeout = br_timeoutMs br, hc_idempotencyKey = rq_idempotencyKey rq\<rparr>
           in (env_http env (length cs) c, cs @ [c])))"

definition endpointIdentity :: "Env \<Rightarrow> BridgeRequest \<Rightarrow> BridgeEndpoint \<Rightarrow> string" where
  "endpointIdentity env rq ep =
     (case env_resolve env (rq_endpoint rq) (ep_url ep) of
        Some u \<Rightarrow> if u_origin u = u_baseOrigin u then u_hrefNoHash u else ''invalid:'' @ ep_url ep
      | None \<Rightarrow> ''invalid:'' @ ep_url ep)"

fun distinct_from ::
  "Env \<Rightarrow> BridgeRequest \<Rightarrow> string list \<Rightarrow> BridgeEndpoint list \<Rightarrow> BridgeEndpoint list" where
  "distinct_from env rq seen [] = []"
| "distinct_from env rq seen (ep # eps) =
     (let identity = endpointIdentity env rq ep
      in if identity \<in> set seen then distinct_from env rq seen eps
         else ep # distinct_from env rq (identity # seen) eps)"

definition distinctSecondaryEndpoints ::
  "Env \<Rightarrow> Bridge \<Rightarrow> BridgeRequest \<Rightarrow> BridgeEndpoint \<Rightarrow> BridgeEndpoint list" where
  "distinctSecondaryEndpoints env br rq ep =
     distinct_from env rq [endpointIdentity env rq ep] (br_endpoints br)"

section \<open>Verification\<close>

text \<open>One secondary voter: its canonical projection, or its failure.\<close>

definition canonical_projection :: "Env \<Rightarrow> BridgeRequest \<Rightarrow> jsval \<Rightarrow> string + string" where
  "canonical_projection env rq v =
     (case env_project env rq v of Inl e \<Rightarrow> Inl e | Inr p \<Rightarrow> canonicalizeJson p)"

definition voter ::
  "Env \<Rightarrow> Bridge \<Rightarrow> BridgeRequest \<Rightarrow> BridgeEndpoint \<Rightarrow> calls \<Rightarrow> (string + string) \<times> calls" where
  "voter env br rq ep cs =
     (case executeRequest env br rq ep cs of
        (Inl e, cs') \<Rightarrow> (Inl e, cs')
      | (Inr v, cs') \<Rightarrow> (canonical_projection env rq v, cs'))"

fun voters ::
  "Env \<Rightarrow> Bridge \<Rightarrow> BridgeRequest \<Rightarrow> BridgeEndpoint list \<Rightarrow> calls \<Rightarrow> (string + string) list \<times> calls" where
  "voters env br rq [] cs = ([], cs)"
| "voters env br rq (ep # eps) cs =
     (case voter env br rq ep cs of (r, cs') \<Rightarrow>
        (case voters env br rq eps cs' of (rs, cs'') \<Rightarrow> (r # rs, cs'')))"

text \<open>The decision of \<open>verifyAtomicity\<close> once the votes are in.\<close>

definition tally :: "string \<Rightarrow> (string + string) list \<Rightarrow> VerificationStatus" where
  "tally primary results =
     (let voterCount = length results + 1;
          requiredVotes = voterCount div 2 + 1;
          matchingVotes = 1 + length (filter (\<lambda>r. r = Inr primary) results);
          unavailableVotes = length (filter (\<lambda>r. case r of Inl _ \<Rightarrow> True | Inr _ \<Rightarrow> False) results)
      in if matchingVotes \<ge> requiredVotes then Verified
         else if matchingVotes + unavailableVotes \<ge> requiredVotes then Unavailable
         else VFailed)"

fun tally_message :: "VerificationStatus \<Rightarrow> string" where
  "tally_message Unavailable = ''Atomic verification unavailable: quorum could not be reached''"
| "tally_message VFailed = ''Atomic verification failed: quorum disagreed with the primary response''"
| "tally_message _ = []"

definition verifyAtomicity ::
  "Env \<Rightarrow> Bridge \<Rightarrow> BridgeRequest \<Rightarrow> jsval \<Rightarrow> BridgeEndpoint \<Rightarrow> calls \<Rightarrow>
   (VerificationStatus \<times> string) \<times> calls" where
  "verifyAtomicity env br rq response ep cs =
     (let secondaries = distinctSecondaryEndpoints env br rq ep
      in if secondaries = [] then
           ((Unavailable, ''Atomic verification unavailable: no distinct secondary endpoint''), cs)
         else (case canonical_projection env rq response of
             Inl e \<Rightarrow> ((Unavailable, ''Atomic verification unavailable: '' @ e), cs)
           | Inr primary \<Rightarrow>
               (case voters env br rq secondaries cs of (results, cs') \<Rightarrow>
                  ((tally primary results, tally_message (tally primary results)), cs'))))"

section \<open>Relaying\<close>

record LoopState =
  ls_calls :: calls
  ls_lastError :: "string option"
  ls_lastStatus :: VerificationStatus

text \<open>The fields of a response the loop decides: success, data, error, endpoint, status.\<close>

type_synonym reply = "bool \<times> jsval option \<times> string option \<times> string \<times> VerificationStatus"

fun attempt_loop ::
  "Env \<Rightarrow> Bridge \<Rightarrow> BridgeRequest \<Rightarrow> BridgeEndpoint \<Rightarrow> nat \<Rightarrow> LoopState \<Rightarrow> reply option \<times> LoopState" where
  "attempt_loop env br rq ep 0 st = (None, st)"
| "attempt_loop env br rq ep (Suc n) st =
     (case executeRequest env br rq ep (ls_calls st) of
        (Inl e, cs) \<Rightarrow> attempt_loop env br rq ep n (st\<lparr>ls_calls := cs, ls_lastError := Some e\<rparr>)
      | (Inr response, cs) \<Rightarrow>
          if \<not> br_requireAtomicVerification br \<or> \<not> isReplayable rq then
            (Some (True, Some response, None, ep_url ep, Skipped), st\<lparr>ls_calls := cs\<rparr>)
          else
            (case verifyAtomicity env br rq response ep cs of ((status, message), cs') \<Rightarrow>
               (let st' = st\<lparr>ls_calls := cs', ls_lastStatus := status\<rparr>
                in case status of
                     Verified \<Rightarrow> (Some (True, Some response, None, ep_url ep, Verified), st')
                   | Unavailable \<Rightarrow> (Some (False, None, Some message, ep_url ep, Unavailable), st')
                   | _ \<Rightarrow> attempt_loop env br rq ep n (st'\<lparr>ls_lastError := Some message\<rparr>))))"

fun endpoint_loop ::
  "Env \<Rightarrow> Bridge \<Rightarrow> BridgeRequest \<Rightarrow> nat \<Rightarrow> BridgeEndpoint list \<Rightarrow> LoopState \<Rightarrow> reply option \<times> LoopState" where
  "endpoint_loop env br rq attempts [] st = (None, st)"
| "endpoint_loop env br rq attempts (ep # eps) st =
     (case attempt_loop env br rq ep attempts st of
        (Some r, st') \<Rightarrow> (Some r, st')
      | (None, st') \<Rightarrow> endpoint_loop env br rq attempts eps st')"

definition recordResponse :: "Bridge \<Rightarrow> BridgeResponse \<Rightarrow> BridgeResponse \<times> Bridge" where
  "recordResponse br r = (r, br\<lparr>br_auditLog := br_auditLog br @ [r]\<rparr>)"

definition relay_reply :: "Env \<Rightarrow> Bridge \<Rightarrow> BridgeRequest \<Rightarrow> reply \<times> calls" where
  "relay_reply env br rq =
     (if rq_idempotencyKey rq \<noteq> None \<and> trim (the (rq_idempotencyKey rq)) = [] then
        ((False, None, Some ''Idempotency key must not be empty'', ''none'', Skipped), [])
      else
        (let replayable = isReplayable rq;
             eligible = (if replayable then br_endpoints br else take 1 (br_endpoints br));
             attempts = (if replayable then br_maxRetries br else 1)
         in case endpoint_loop env br rq attempts eligible
                   \<lparr>ls_calls = [], ls_lastError = None, ls_lastStatus = Skipped\<rparr> of
              (Some r, st) \<Rightarrow> (r, ls_calls st)
            | (None, st) \<Rightarrow>
                ((False, None,
                  Some (case ls_lastError st of None \<Rightarrow> ''All endpoints failed'' | Some e \<Rightarrow> e),
                  ''none'', ls_lastStatus st), ls_calls st)))"

text \<open>\<open>clk\<close> holds the readings of the clock at the start, for the latency and for the timestamp.\<close>

definition relay ::
  "Env \<Rightarrow> int \<times> int \<times> int \<Rightarrow> Bridge \<Rightarrow> BridgeRequest \<Rightarrow> BridgeResponse \<times> Bridge" where
  "relay env clk br rq =
     (case (clk, fst (relay_reply env br rq)) of
        ((start, t1, t2), (success, d, err, used, status)) \<Rightarrow>
          recordResponse br
            \<lparr>rs_requestId = rq_id rq, rs_success = success, rs_data = d, rs_error = err,
             rs_endpointUsed = used, rs_latencyMs = t1 - start, rs_timestamp = t2,
             rs_verificationStatus = status\<rparr>)"

definition getAuditLog :: "Bridge \<Rightarrow> BridgeResponse list" where
  "getAuditLog br = br_auditLog br"

definition clearAuditLog :: "Bridge \<Rightarrow> Bridge" where
  "clearAuditLog br = br\<lparr>br_auditLog := []\<rparr>"

section \<open>Canonical form\<close>

text \<open>Two JSON values are the same up to the order of object keys.\<close>

inductive json_equiv :: "jsval \<Rightarrow> jsval \<Rightarrow> bool" where
  same: "json_equiv v v"
| arrays: "list_all2 json_equiv vs ws \<Longrightarrow> json_equiv (JArray vs) (JArray ws)"
| objects: "distinct (map fst ps) \<Longrightarrow> list_all2 (\<lambda>p q. fst p = fst q \<and> json_equiv (snd p) (snd q)) ps qs
    \<Longrightarrow> mset qs = mset qs' \<Longrightarrow> json_equiv (JObject ps) (JObject qs')"

lemma sequence_props_perm:
  "distinct (map fst ps) \<Longrightarrow> mset ps = mset qs \<Longrightarrow> sequence_props ps = sequence_props qs"
  unfolding sequence_props_def by (simp only: sort_key_unique)

lemma normalizeJson_equiv: "json_equiv v w \<Longrightarrow> normalizeJson v = normalizeJson w"
proof (induction rule: json_equiv.induct)
  case (arrays vs ws)
  then have "map normalizeJson vs = map normalizeJson ws"
    by (induction rule: list_all2_induct) auto
  then show ?case by simp
next
  case (objects ps qs qs')
  let ?n = "\<lambda>(k, v). (k, normalizeJson v)"
  from objects.IH have n: "map ?n ps = map ?n qs"
    by (induction rule: list_all2_induct) auto
  have d: "distinct (map fst (map ?n qs))"
    using objects.hyps(1) unfolding n [symmetric] by (simp add: case_prod_beta comp_def)
  have "mset (map ?n qs) = mset (map ?n qs')" using objects.hyps(2) by (simp del: map_map)
  then have "sequence_props (map ?n qs) = sequence_props (map ?n qs')"
    by (rule sequence_props_perm [OF d])
  then show ?case by (simp add: n)
qed simp

text \<open>
  The canonical form does not depend on the order of object keys: two responses that differ only in
  it, at any depth, have the same canonical form, error or string, so they count as equal votes.\<close>

theorem canonicalizeJson_key_order:
  assumes "json_equiv v w"
  shows "canonicalizeJson v = canonicalizeJson w"
  by (simp add: canonicalizeJson_def normalizeJson_equiv [OF assms])

theorem canonicalizeJson_key_order_witness:
  "canonicalizeJson (JObject [(''b'', JNull), (''a'', JArray [JObject [(''y'', JBool True), (''x'', JNumber (Num 1))]])])
   = canonicalizeJson (JObject [(''a'', JArray [JObject [(''x'', JNumber (Num 1)), (''y'', JBool True)]]), (''b'', JNull)])"
proof (rule canonicalizeJson_key_order)
  let ?o = "JObject [(''y'', JBool True), (''x'', JNumber (Num 1))]"
  let ?o' = "JObject [(''x'', JNumber (Num 1)), (''y'', JBool True)]"
  have "json_equiv ?o ?o'"
    by (rule json_equiv.objects [where qs = "[(''y'', JBool True), (''x'', JNumber (Num 1))]"])
      (auto intro: json_equiv.same)
  then have "json_equiv (JArray [?o]) (JArray [?o'])" by (auto intro: json_equiv.arrays)
  then show "json_equiv (JObject [(''b'', JNull), (''a'', JArray [?o])])
      (JObject [(''a'', JArray [?o']), (''b'', JNull)])"
    by (intro json_equiv.objects [where qs = "[(''b'', JNull), (''a'', JArray [?o'])]"])
      (auto intro: json_equiv.same)
qed

section \<open>Which endpoints vote and what is sent\<close>

lemma distinct_from_props:
  "set (distinct_from env rq seen eps) \<subseteq> set eps
   \<and> distinct (map (endpointIdentity env rq) (distinct_from env rq seen eps))
   \<and> endpointIdentity env rq ` set (distinct_from env rq seen eps) \<inter> set seen = {}"
proof (induction eps arbitrary: seen)
  case (Cons ep eps)
  show ?case
  proof (cases "endpointIdentity env rq ep \<in> set seen")
    case True
    then show ?thesis using Cons [of seen] by auto
  next
    case False
    then show ?thesis using Cons [of "endpointIdentity env rq ep # seen"] by (auto simp: Let_def)
  qed
qed simp

lemma secondaries_distinct:
  "distinct (map (endpointIdentity env rq) (ep # distinctSecondaryEndpoints env br rq ep))"
  using distinct_from_props [of env rq "[endpointIdentity env rq ep]" "br_endpoints br"]
  by (auto simp: distinctSecondaryEndpoints_def)

lemma secondaries_subset: "set (distinctSecondaryEndpoints env br rq ep) \<subseteq> set (br_endpoints br)"
  using distinct_from_props by (simp add: distinctSecondaryEndpoints_def)

lemma secondaries_fewer:
  assumes "ep \<in> set (br_endpoints br)"
  shows "length (distinctSecondaryEndpoints env br rq ep) < length (br_endpoints br)"
proof -
  let ?id = "endpointIdentity env rq" and ?s = "ep # distinctSecondaryEndpoints env br rq ep"
  have "length ?s = card (set (map ?id ?s))"
    by (metis secondaries_distinct distinct_card length_map)
  also have "\<dots> \<le> card (?id ` set (br_endpoints br))"
    using assms secondaries_subset [of env br rq ep] by (intro card_mono) auto
  also have "\<dots> \<le> length (br_endpoints br)"
    by (metis card_image_le card_length finite_set order_trans)
  finally show ?thesis by simp
qed

text \<open>What a request sent for \<open>rq\<close> looks like: it goes to the origin of a configured endpoint.\<close>

definition call_for :: "Env \<Rightarrow> Bridge \<Rightarrow> BridgeRequest \<Rightarrow> HttpCall \<Rightarrow> bool" where
  "call_for env br rq c \<longleftrightarrow>
     (\<exists>ep \<in> set (br_endpoints br). \<exists>u. env_resolve env (rq_endpoint rq) (ep_url ep) = Some u
        \<and> u_origin u = u_baseOrigin u \<and> hc_url c = u_href u)
     \<and> hc_method c = rq_method rq \<and> hc_data c = rq_payload rq
     \<and> hc_timeout c = br_timeoutMs br \<and> hc_idempotencyKey c = rq_idempotencyKey rq"

text \<open>\<open>sent env br rq n cs cs'\<close>: the calls grew from \<open>cs\<close> to \<open>cs'\<close> by at most \<open>n\<close> calls for \<open>rq\<close>.\<close>

definition sent :: "Env \<Rightarrow> Bridge \<Rightarrow> BridgeRequest \<Rightarrow> nat \<Rightarrow> calls \<Rightarrow> calls \<Rightarrow> bool" where
  "sent env br rq n cs cs' \<longleftrightarrow>
     (\<exists>ds. cs' = cs @ ds \<and> length ds \<le> n \<and> list_all (call_for env br rq) ds)"

lemma sent_refl [simp]: "sent env br rq n cs cs"
  by (simp add: sent_def)

lemma sent_trans:
  "sent env br rq m cs cs' \<Longrightarrow> sent env br rq n cs' cs'' \<Longrightarrow> sent env br rq (m + n) cs cs''"
  unfolding sent_def by fastforce

lemma sent_mono: "sent env br rq m cs cs' \<Longrightarrow> m \<le> n \<Longrightarrow> sent env br rq n cs cs'"
  unfolding sent_def by fastforce

lemma sent_execute:
  assumes "ep \<in> set (br_endpoints br)"
  shows "sent env br rq 1 cs (snd (executeRequest env br rq ep cs))"
  using assms
  by (auto simp: executeRequest_def buildRequestUrl_def sent_def call_for_def Let_def
      split: option.splits)

lemma sent_voter:
  "ep \<in> set (br_endpoints br) \<Longrightarrow> sent env br rq 1 cs (snd (voter env br rq ep cs))"
  using sent_execute [of ep br env rq cs]
  by (auto simp: voter_def split: prod.splits sum.splits)

lemma sent_voters:
  "set eps \<subseteq> set (br_endpoints br) \<Longrightarrow> sent env br rq (length eps) cs (snd (voters env br rq eps cs))"
proof (induction eps arbitrary: cs)
  case (Cons ep eps)
  obtain r cs' where v: "voter env br rq ep cs = (r, cs')" by fastforce
  have "sent env br rq 1 cs cs'" using sent_voter [of ep br env rq cs] Cons.prems v by auto
  moreover have "sent env br rq (length eps) cs' (snd (voters env br rq eps cs'))"
    using Cons by auto
  ultimately show ?case using sent_trans v by (fastforce split: prod.splits)
qed simp

lemma length_voters: "length (fst (voters env br rq eps cs)) = length eps"
  by (induction eps arbitrary: cs) (auto split: prod.splits, metis fst_conv)

lemma sent_verify:
  assumes "ep \<in> set (br_endpoints br)"
  shows "sent env br rq (length (br_endpoints br) - 1) cs
           (snd (verifyAtomicity env br rq response ep cs))"
proof -
  let ?s = "distinctSecondaryEndpoints env br rq ep"
  have "sent env br rq (length ?s) cs (snd (voters env br rq ?s cs))"
    by (rule sent_voters [OF secondaries_subset])
  then have "sent env br rq (length (br_endpoints br) - 1) cs (snd (voters env br rq ?s cs))"
    using secondaries_fewer [OF assms, of env rq] by (elim sent_mono) simp
  then show ?thesis
    by (auto simp: verifyAtomicity_def Let_def split: sum.splits prod.splits)
qed

text \<open>The number of requests one attempt may send.\<close>

definition attempt_cost :: "Bridge \<Rightarrow> BridgeRequest \<Rightarrow> nat" where
  "attempt_cost br rq = (if br_requireAtomicVerification br \<and> isReplayable rq
     then length (br_endpoints br) else 1)"

lemma sent_attempts:
  assumes "ep \<in> set (br_endpoints br)"
  shows "sent env br rq (n * attempt_cost br rq) (ls_calls st)
           (ls_calls (snd (attempt_loop env br rq ep n st)))"
proof (induction n arbitrary: st)
  case (Suc n)
  let ?c = "attempt_cost br rq"
  have pos: "1 \<le> ?c" using assms by (auto simp: attempt_cost_def Suc_le_eq)
  have step: "sent env br rq (Suc n * ?c) (ls_calls st) (ls_calls (snd (attempt_loop env br rq ep n st')))"
    if "sent env br rq ?c (ls_calls st) (ls_calls st')" for st'
    using sent_trans [OF that Suc [of st']] by simp
  obtain x cs where e: "executeRequest env br rq ep (ls_calls st) = (x, cs)" by fastforce
  have one: "sent env br rq 1 (ls_calls st) cs"
    using sent_execute [OF assms, of env rq "ls_calls st"] e by simp
  then have cost: "sent env br rq ?c (ls_calls st) cs" using pos by (rule sent_mono)
  show ?case
  proof (cases x)
    case (Inl m)
    then show ?thesis using e cost step by simp
  next
    case (Inr response)
    obtain s m cs' where v: "verifyAtomicity env br rq response ep cs = ((s, m), cs')"
      by (metis surj_pair)
    have vc: "sent env br rq ?c (ls_calls st) cs'"
      if "br_requireAtomicVerification br" "isReplayable rq"
      using sent_trans [OF one sent_verify [OF assms, of env rq cs response]] v that assms
      by (cases "br_endpoints br") (auto simp: attempt_cost_def)
    show ?thesis
      using Inr e v vc cost step
      by (cases s) (auto simp: Let_def intro: sent_mono [of _ _ _ "attempt_cost br rq"])
  qed
qed simp

lemma sent_endpoints:
  "set eps \<subseteq> set (br_endpoints br) \<Longrightarrow>
   sent env br rq (length eps * (n * attempt_cost br rq)) (ls_calls st)
     (ls_calls (snd (endpoint_loop env br rq n eps st)))"
proof (induction eps arbitrary: st)
  case (Cons ep eps)
  obtain r st' where a: "attempt_loop env br rq ep n st = (r, st')" by fastforce
  have 1: "sent env br rq (n * attempt_cost br rq) (ls_calls st) (ls_calls st')"
    using sent_attempts [of ep br env rq n st] Cons.prems a by auto
  then show ?case using a Cons
    by (cases r) (auto intro: sent_trans [OF 1] sent_mono [OF 1])
qed simp

lemma relay_reply_sent:
  "sent env br rq (if isReplayable rq then length (br_endpoints br) * (br_maxRetries br * attempt_cost br rq)
     else 1) [] (snd (relay_reply env br rq))"
proof -
  let ?st = "\<lparr>ls_calls = [], ls_lastError = None, ls_lastStatus = Skipped\<rparr>"
  have r: "sent env br rq (length (br_endpoints br) * (br_maxRetries br * attempt_cost br rq)) []
      (ls_calls (snd (endpoint_loop env br rq (br_maxRetries br) (br_endpoints br) ?st)))"
    using sent_endpoints [of "br_endpoints br" br env rq "br_maxRetries br" ?st] by simp
  have n: "sent env br rq 1 []
      (ls_calls (snd (endpoint_loop env br rq 1 (take 1 (br_endpoints br)) ?st)))"
    if "\<not> isReplayable rq"
    using sent_endpoints [of "take 1 (br_endpoints br)" br env rq 1 ?st] that
    by (auto simp: attempt_cost_def set_take_subset intro: sent_mono)
  show ?thesis using r n
    by (auto simp: relay_reply_def Let_def split: prod.splits option.splits)
qed

text \<open>
  C27. A request that is not declared replayable is sent at most once, to no second endpoint and with no
  secondary vote; a replayable one at most \<open>n * retries * n\<close> times for \<open>n\<close> endpoints. Every request
  that leaves the bridge carries the caller's method, payload and idempotency key to a URL on the
  origin of a configured endpoint.\<close>

theorem relay_requests_bounded:
  "length (snd (relay_reply env br rq))
     \<le> (if isReplayable rq
        then length (br_endpoints br) * (br_maxRetries br
          * (if br_requireAtomicVerification br then length (br_endpoints br) else 1))
        else 1)
   \<and> list_all (call_for env br rq) (snd (relay_reply env br rq))"
  using relay_reply_sent [of env br rq] by (auto simp: sent_def attempt_cost_def split: if_splits)

section \<open>What a reply says\<close>

text \<open>The \<open>k\<close>-th request of a history went to \<open>ep\<close> with the caller's data, and was answered with \<open>v\<close>.\<close>

definition answered :: "Env \<Rightarrow> Bridge \<Rightarrow> BridgeRequest \<Rightarrow> calls \<Rightarrow> nat \<Rightarrow> BridgeEndpoint \<Rightarrow> jsval \<Rightarrow> bool" where
  "answered env br rq cs k ep v \<longleftrightarrow> k < length cs
     \<and> buildRequestUrl env (rq_endpoint rq) (ep_url ep) = Inr (hc_url (cs ! k))
     \<and> hc_method (cs ! k) = rq_method rq \<and> hc_data (cs ! k) = rq_payload rq
     \<and> env_http env k (cs ! k) = Inr v"

text \<open>
  The votes behind a verified reply, found in the history of the requests: \<open>ep\<close> answered with the response, after it
  other endpoints, each a different upstream, answered with the same canonical projection, and with \<open>ep\<close> they are more
  than half of all upstreams there are.\<close>

definition quorum :: "Env \<Rightarrow> Bridge \<Rightarrow> BridgeRequest \<Rightarrow> BridgeEndpoint \<Rightarrow> jsval \<Rightarrow> calls \<Rightarrow> bool" where
  "quorum env br rq ep response cs \<longleftrightarrow>
     (\<exists>k primary votes. answered env br rq cs k ep response \<and> canonical_projection env rq response = Inr primary
        \<and> votes \<noteq> [] \<and> distinct (endpointIdentity env rq ep # map (endpointIdentity env rq \<circ> fst) votes)
        \<and> list_all (\<lambda>(e, j). e \<in> set (br_endpoints br) \<and> k < j
             \<and> (\<exists>v. answered env br rq cs j e v \<and> canonical_projection env rq v = Inr primary)) votes
        \<and> card (endpointIdentity env rq ` set (br_endpoints br)) < 2 * (1 + length votes))"

text \<open>What the decision looks at: the votes as they come in after the history \<open>cs\<close>.\<close>

definition majority :: "Env \<Rightarrow> Bridge \<Rightarrow> BridgeRequest \<Rightarrow> BridgeEndpoint \<Rightarrow> jsval \<Rightarrow> calls \<Rightarrow> bool" where
  "majority env br rq ep response cs \<longleftrightarrow>
     (let secondaries = distinctSecondaryEndpoints env br rq ep;
          results = fst (voters env br rq secondaries cs)
      in secondaries \<noteq> []
       \<and> (\<exists>primary. canonical_projection env rq response = Inr primary
            \<and> 1 + length secondaries < 2 * (1 + length (filter (\<lambda>r. r = Inr primary) results))))"

lemma answered_later: "answered env br rq cs k ep v \<Longrightarrow> answered env br rq (cs @ ds) k ep v"
  by (simp add: answered_def nth_append)

lemma execute_answered:
  assumes "executeRequest env br rq ep cs = (r, cs')"
  shows "(\<exists>ds. cs' = cs @ ds) \<and> (case r of Inl _ \<Rightarrow> True | Inr v \<Rightarrow> answered env br rq cs' (length cs) ep v)"
  using assms by (auto simp: executeRequest_def answered_def Let_def nth_append split: sum.splits)

lemma voters_grow: "\<exists>ds. snd (voters env br rq eps cs) = cs @ ds"
proof (induction eps arbitrary: cs)
  case (Cons ep eps)
  obtain r cs' where v: "voter env br rq ep cs = (r, cs')" by fastforce
  have "\<exists>ds. cs' = cs @ ds"
    using v execute_answered [of env br rq ep cs] by (auto simp: voter_def split: prod.splits sum.splits)
  then show ?case using v Cons.IH [of cs'] by (auto split: prod.splits)
qed simp

lemma voter_answered:
  assumes "voter env br rq ep cs = (r, cs')" "r = Inr p"
  shows "\<exists>v. answered env br rq cs' (length cs) ep v \<and> canonical_projection env rq v = Inr p"
proof -
  obtain x cs1 where e: "executeRequest env br rq ep cs = (x, cs1)" by fastforce
  then show ?thesis using assms execute_answered [OF e] by (cases x) (auto simp: voter_def)
qed

text \<open>Every vote is the answer to a request of its own.\<close>

lemma voters_answered:
  "\<exists>votes. map fst votes = map fst (filter (\<lambda>(e, r). r = Inr p) (zip eps (fst (voters env br rq eps cs))))
     \<and> list_all (\<lambda>(e, j). length cs \<le> j \<and> (\<exists>v. answered env br rq (snd (voters env br rq eps cs)) j e v
          \<and> canonical_projection env rq v = Inr p)) votes"
proof (induction eps arbitrary: cs)
  case (Cons ep eps)
  obtain r cs' where v: "voter env br rq ep cs = (r, cs')" by fastforce
  obtain rs cs'' where vs: "voters env br rq eps cs' = (rs, cs'')" by fastforce
  obtain ds where g: "cs' = cs @ ds"
    using v execute_answered [of env br rq ep cs] by (auto simp: voter_def split: prod.splits sum.splits)
  obtain es where g': "cs'' = cs' @ es" using voters_grow [of env br rq eps cs'] vs by auto
  obtain votes where w: "map fst votes = map fst (filter (\<lambda>(e, r). r = Inr p) (zip eps rs))"
    "list_all (\<lambda>(e, j). length cs' \<le> j \<and> (\<exists>v. answered env br rq cs'' j e v \<and> canonical_projection env rq v = Inr p)) votes"
    using Cons.IH [of cs'] vs by auto
  have later: "list_all (\<lambda>(e, j). length cs \<le> j \<and> (\<exists>v. answered env br rq cs'' j e v \<and> canonical_projection env rq v = Inr p)) votes"
    using w(2) g by (auto simp: list_all_iff)
  show ?case
  proof (cases "r = Inr p")
    case True
    obtain u where "answered env br rq cs' (length cs) ep u" "canonical_projection env rq u = Inr p"
      using voter_answered [OF v True] by blast
    then have "answered env br rq cs'' (length cs) ep u" unfolding g' by (intro answered_later)
    then show ?thesis using v vs w(1) later True \<open>canonical_projection env rq u = Inr p\<close>
      by (intro exI [of _ "(ep, length cs) # votes"]) auto
  next
    case False
    then show ?thesis using v vs w(1) later by (intro exI [of _ votes]) auto
  qed
qed simp

lemma distinct_from_covers:
  "endpointIdentity env rq ` set (distinct_from env rq seen eps) \<union> set seen = endpointIdentity env rq ` set eps \<union> set seen"
proof (induction eps arbitrary: seen)
  case (Cons ep eps)
  show ?case using Cons [of seen] Cons [of "endpointIdentity env rq ep # seen"] by (auto simp: Let_def)
qed simp

lemma upstreams:
  assumes "ep \<in> set (br_endpoints br)"
  shows "card (endpointIdentity env rq ` set (br_endpoints br)) = 1 + length (distinctSecondaryEndpoints env br rq ep)"
proof -
  let ?id = "endpointIdentity env rq" and ?s = "ep # distinctSecondaryEndpoints env br rq ep"
  have "set (map ?id ?s) = ?id ` set (br_endpoints br)"
    using distinct_from_covers [of env rq "[?id ep]" "br_endpoints br"] assms by (auto simp: distinctSecondaryEndpoints_def)
  then have "card (?id ` set (br_endpoints br)) = length (map ?id ?s)"
    using distinct_card [OF secondaries_distinct [of env rq ep br]] by simp
  then show ?thesis by simp
qed

text \<open>A majority of the votes leaves a quorum in the history.\<close>

lemma majority_quorum:
  assumes ep: "ep \<in> set (br_endpoints br)" and a: "answered env br rq cs k ep response" and m: "majority env br rq ep response cs"
    and cs': "cs' = snd (voters env br rq (distinctSecondaryEndpoints env br rq ep) cs)"
  shows "quorum env br rq ep response cs'"
proof -
  let ?s = "distinctSecondaryEndpoints env br rq ep" and ?id = "endpointIdentity env rq"
  let ?rs = "fst (voters env br rq ?s cs)"
  obtain p where p: "canonical_projection env rq response = Inr p" "?s \<noteq> []"
    "1 + length ?s < 2 * (1 + length (filter (\<lambda>r. r = Inr p) ?rs))"
    using m by (auto simp: majority_def Let_def)
  obtain votes where w: "map fst votes = map fst (filter (\<lambda>(e, r). r = Inr p) (zip ?s ?rs))"
    "list_all (\<lambda>(e, j). length cs \<le> j \<and> (\<exists>v. answered env br rq cs' j e v \<and> canonical_projection env rq v = Inr p)) votes"
    using voters_answered [of p ?s env br rq cs] unfolding cs' by blast
  have l: "length ?rs = length ?s" by (rule length_voters)
  have "length votes = length (filter (\<lambda>(e, r). r = Inr p) (zip ?s ?rs))" using arg_cong [OF w(1), of length] by simp
  also have "\<dots> = length (filter (\<lambda>r. r = Inr p) (map snd (zip ?s ?rs)))" by (simp add: filter_map comp_def case_prod_beta')
  finally have n: "length votes = length (filter (\<lambda>r. r = Inr p) ?rs)" using l by simp
  have sub: "set (map fst votes) \<subseteq> set ?s" unfolding w(1) by (auto dest: set_zip_leftD)
  have "distinct (map ?id (map fst votes))"
  proof -
    have "map (?id \<circ> fst) (zip ?s ?rs) = map ?id ?s" using l by (simp add: map_map [symmetric] del: map_map)
    then have "distinct (map (?id \<circ> fst) (zip ?s ?rs))" using secondaries_distinct [of env rq ep br] by simp
    from distinct_map_filter [OF this] show ?thesis unfolding w(1) by simp
  qed
  moreover have "?id ep \<notin> ?id ` set (map fst votes)" using secondaries_distinct [of env rq ep br] sub by auto
  ultimately have d: "distinct (?id ep # map (?id \<circ> fst) votes)" by (simp add: image_image)
  have k: "k < length cs" using a by (simp add: answered_def)
  have good: "e \<in> set (br_endpoints br) \<and> k < j \<and> (\<exists>v. answered env br rq cs' j e v \<and> canonical_projection env rq v = Inr p)"
    if "(e, j) \<in> set votes" for e j
  proof -
    have "e \<in> set ?s" using sub that by force
    then show ?thesis using w(2) that k secondaries_subset [of env br rq ep] by (fastforce simp: list_all_iff)
  qed
  have "0 < length ?s" using p(2) by simp
  then have "votes \<noteq> []" using n p(3) by auto
  moreover have "answered env br rq cs' k ep response"
    using a voters_grow [of env br rq ?s cs] answered_later unfolding cs' by fastforce
  moreover have "card (?id ` set (br_endpoints br)) < 2 * (1 + length votes)" using p(3) n upstreams [OF ep] by simp
  ultimately show ?thesis unfolding quorum_def
    using p(1) d good by (intro exI [of _ k] exI [of _ p] exI [of _ votes]) (auto simp: list_all_iff)
qed

lemma tally_verified:
  "tally primary results = Verified \<longleftrightarrow>
     1 + length results < 2 * (1 + length (filter (\<lambda>r. r = Inr primary) results))"
  by (auto simp: tally_def Let_def)

lemma verify_verified:
  "fst (fst (verifyAtomicity env br rq response ep cs)) = Verified \<longleftrightarrow> majority env br rq ep response cs"
  using length_voters [of env br rq "distinctSecondaryEndpoints env br rq ep" cs]
  by (auto simp: verifyAtomicity_def majority_def Let_def tally_verified split: sum.splits prod.splits)

text \<open>The shape of a reply of the loops, for the endpoint it names and the history of requests it leaves.\<close>

definition reply_ok :: "Env \<Rightarrow> Bridge \<Rightarrow> BridgeRequest \<Rightarrow> BridgeEndpoint \<Rightarrow> calls \<Rightarrow> reply \<Rightarrow> bool" where
  "reply_ok env br rq ep cs r \<longleftrightarrow>
     (case r of (success, d, err, used, status) \<Rightarrow>
        used = ep_url ep \<and> (success \<longleftrightarrow> err = None) \<and> (success \<longleftrightarrow> d \<noteq> None)
        \<and> (success \<longleftrightarrow> status = Verified \<or> status = Skipped)
        \<and> (status = Skipped \<longleftrightarrow> \<not> br_requireAtomicVerification br \<or> \<not> isReplayable rq)
        \<and> (status = Verified \<longrightarrow> (\<exists>response. d = Some response \<and> quorum env br rq ep response cs)))"

lemma verify_calls:
  "fst (fst (verifyAtomicity env br rq response ep cs)) = Verified \<Longrightarrow>
     snd (verifyAtomicity env br rq response ep cs) = snd (voters env br rq (distinctSecondaryEndpoints env br rq ep) cs)"
  by (auto simp: verifyAtomicity_def Let_def split: sum.splits prod.splits)

lemma attempt_reply_ok:
  assumes "ep \<in> set (br_endpoints br)"
  shows "attempt_loop env br rq ep n st = (Some r, st') \<Longrightarrow> reply_ok env br rq ep (ls_calls st') r"
proof (induction n arbitrary: st)
  case (Suc n)
  obtain x cs where e: "executeRequest env br rq ep (ls_calls st) = (x, cs)" by fastforce
  show ?case
  proof (cases x)
    case (Inl m)
    then show ?thesis using e Suc by simp
  next
    case (Inr response)
    have a: "answered env br rq cs (length (ls_calls st)) ep response" using execute_answered [OF e] Inr by simp
    obtain s m cs' where v: "verifyAtomicity env br rq response ep cs = ((s, m), cs')"
      by (metis surj_pair)
    have q: "quorum env br rq ep response cs'" if "s = Verified"
    proof (rule majority_quorum [OF assms a])
      show "majority env br rq ep response cs" using verify_verified [of env br rq response ep cs] v that by simp
      show "cs' = snd (voters env br rq (distinctSecondaryEndpoints env br rq ep) cs)"
        using verify_calls [of env br rq response ep cs] v that by simp
    qed
    show ?thesis using Inr e v q Suc
      by (cases s) (auto simp: Let_def reply_ok_def split: if_splits)
  qed
qed simp

lemma endpoint_reply_ok:
  "set eps \<subseteq> set (br_endpoints br) \<Longrightarrow> endpoint_loop env br rq n eps st = (Some r, st') \<Longrightarrow>
     \<exists>ep \<in> set eps. reply_ok env br rq ep (ls_calls st') r"
proof (induction eps arbitrary: st)
  case (Cons ep eps)
  obtain x st1 where a: "attempt_loop env br rq ep n st = (x, st1)" by fastforce
  then show ?case using Cons attempt_reply_ok [of ep br env rq n st]
    by (cases x) auto
qed simp

text \<open>
  C3. A successful reply to a replayable request, with verification required, is backed by a quorum that can be found in
  the history of the requests sent: the endpoint it names is configured and itself answered one of the requests with
  the data; after that other configured endpoints, each a different upstream from it and from each other, answered
  requests of the same content with the same canonical projection; and with the named one they are more than half of
  all upstreams.\<close>

theorem relay_success_has_quorum:
  assumes "relay env clk br rq = (r, br')" and "rs_success r"
    and "br_requireAtomicVerification br" and "isReplayable rq"
  shows "\<exists>ep \<in> set (br_endpoints br). \<exists>response. rs_endpointUsed r = ep_url ep
           \<and> rs_data r = Some response \<and> rs_verificationStatus r = Verified
           \<and> quorum env br rq ep response (snd (relay_reply env br rq))"
proof -
  obtain d err used status where q: "fst (relay_reply env br rq) = (True, d, err, used, status)"
    and f: "rs_data r = d" "rs_endpointUsed r = used" "rs_verificationStatus r = status"
    using assms(1,2) by (auto simp: relay_def recordResponse_def split: prod.splits)
  obtain st where st: "endpoint_loop env br rq (br_maxRetries br) (br_endpoints br)
      \<lparr>ls_calls = [], ls_lastError = None, ls_lastStatus = Skipped\<rparr> = (Some (True, d, err, used, status), st)"
    "snd (relay_reply env br rq) = ls_calls st"
    using q assms(4)
    by (auto simp: relay_reply_def Let_def split: prod.splits option.splits if_splits)
  obtain ep where "ep \<in> set (br_endpoints br)" "reply_ok env br rq ep (ls_calls st) (True, d, err, used, status)"
    using endpoint_reply_ok [OF subset_refl st(1)] by blast
  then show ?thesis using assms(3,4) f st(2) by (auto simp: reply_ok_def)
qed

definition demo_env :: Env where
  "demo_env = \<lparr>env_resolve = (\<lambda>path base. Some \<lparr>u_baseOrigin = base, u_origin = base,
      u_href = base @ path, u_hrefNoHash = base @ path\<rparr>),
    env_http = (\<lambda>n c. if n = 1 then Inl ''timeout'' else Inr (JBool True)),
    env_project = (\<lambda>rq v. Inr v)\<rparr>"

definition demo_bridge :: Bridge where
  "demo_bridge = new_bridge [\<lparr>ep_url = ''https://a'', ep_priority = 1\<rparr>,
     \<lparr>ep_url = ''https://b'', ep_priority = 3\<rparr>, \<lparr>ep_url = ''https://c'', ep_priority = 2\<rparr>]
     None None None"

definition demo_request :: BridgeRequest where
  "demo_request = \<lparr>rq_id = ''r1'', rq_method = GET, rq_endpoint = ''/h'', rq_payload = JUndefined,
     rq_timestamp = 0, rq_idempotent = None, rq_idempotencyKey = None\<rparr>"

definition demo_response :: BridgeResponse where
  "demo_response = \<lparr>rs_requestId = ''r1'', rs_success = True, rs_data = Some (JBool True), rs_error = None,
     rs_endpointUsed = ''https://b'', rs_latencyMs = 5, rs_timestamp = 6, rs_verificationStatus = Verified\<rparr>"

lemmas demo_defs = demo_env_def demo_bridge_def demo_request_def demo_response_def new_bridge_def

lemmas relay_defs = relay_def relay_reply_def recordResponse_def isReplayable_def executeRequest_def
  buildRequestUrl_def endpointIdentity_def distinctSecondaryEndpoints_def canonical_projection_def
  canonicalizeJson_def voter_def tally_def verifyAtomicity_def

lemma demo_relay:
  "relay demo_env (0, 5, 6) demo_bridge demo_request
     = (demo_response, demo_bridge\<lparr>br_auditLog := [demo_response]\<rparr>)"
  by (simp add: demo_defs relay_defs numeral_3_eq_3)

theorem relay_success_has_quorum_witness:
  "\<exists>ep \<in> set (br_endpoints demo_bridge). ''https://b'' = ep_url ep
     \<and> quorum demo_env demo_bridge demo_request ep (JBool True) (snd (relay_reply demo_env demo_bridge demo_request))"
proof -
  have h: "rs_success demo_response" "br_requireAtomicVerification demo_bridge" "isReplayable demo_request"
    by (simp_all add: demo_defs isReplayable_def)
  show ?thesis using relay_success_has_quorum [OF demo_relay h] by (simp add: demo_response_def)
qed

section \<open>The audit log\<close>

text \<open>One call on the bridge, as a step of the system.\<close>

datatype bridge_op = Relay Env "int \<times> int \<times> int" BridgeRequest | ClearAuditLog

fun bridge_step :: "Bridge \<Rightarrow> bridge_op \<Rightarrow> Bridge" where
  "bridge_step br (Relay env clk rq) = snd (relay env clk br rq)"
| "bridge_step br ClearAuditLog = clearAuditLog br"

lemma relay_log: "br_auditLog (snd (relay env clk br rq)) = br_auditLog br @ [fst (relay env clk br rq)]"
  by (auto simp: relay_def recordResponse_def split: prod.splits)

interpretation relay_log: monotone_system "\<lambda>br (env, clk, rq). snd (relay env clk br rq)"
  "length \<circ> br_auditLog"
  by unfold_locales (auto simp: relay_log)

lemma relay_frame: "br_endpoints (snd (relay env clk br rq)) = br_endpoints br"
  "br_maxRetries (snd (relay env clk br rq)) = br_maxRetries br"
  "br_requireAtomicVerification (snd (relay env clk br rq)) = br_requireAtomicVerification br"
  by (auto simp: relay_def recordResponse_def split: prod.splits)

text \<open>An entry of the log: success carries data and no error, failure an error and no data, and no
  entry claims a verification with the wrong outcome.\<close>

definition entry_ok :: "BridgeResponse \<Rightarrow> bool" where
  "entry_ok r \<longleftrightarrow> (rs_success r \<longleftrightarrow> rs_error r = None) \<and> (rs_success r \<longleftrightarrow> rs_data r \<noteq> None)
     \<and> (rs_verificationStatus r = Verified \<longrightarrow> rs_success r)
     \<and> (rs_verificationStatus r = Unavailable \<longrightarrow> \<not> rs_success r)
     \<and> (rs_verificationStatus r = VFailed \<longrightarrow> \<not> rs_success r)"

lemma verify_not_skipped: "verifyAtomicity env br rq response ep cs \<noteq> ((Skipped, m), cs')"
  by (auto simp: verifyAtomicity_def tally_def Let_def split: sum.splits prod.splits if_splits)

lemma attempt_last_status:
  "attempt_loop env br rq ep n st = (None, st') \<Longrightarrow> ls_lastStatus st' \<in> {ls_lastStatus st, VFailed}"
proof (induction n arbitrary: st)
  case (Suc n)
  obtain x cs where "executeRequest env br rq ep (ls_calls st) = (x, cs)" by fastforce
  moreover have "ls_lastStatus st' = VFailed"
    if "attempt_loop env br rq ep n st0 = (None, st')" "ls_lastStatus st0 = VFailed" for st0
    using Suc.IH [OF that(1)] that(2) by simp
  ultimately show ?case using Suc.prems
    by (auto simp: Let_def split: sum.splits if_splits prod.splits VerificationStatus.splits
        simp: verify_not_skipped dest!: Suc.IH)
qed simp

lemma endpoint_last_status:
  "endpoint_loop env br rq n eps st = (None, st') \<Longrightarrow> ls_lastStatus st' \<in> {ls_lastStatus st, VFailed}"
proof (induction eps arbitrary: st)
  case (Cons ep eps)
  from Cons.prems obtain st1 where a: "attempt_loop env br rq ep n st = (None, st1)"
    and e: "endpoint_loop env br rq n eps st1 = (None, st')"
    by (auto split: prod.splits option.splits)
  from attempt_last_status [OF a] Cons.IH [OF e] show ?case by auto
qed simp

lemma relay_entry_ok: "entry_ok (fst (relay env clk br rq))"
proof -
  let ?st = "\<lparr>ls_calls = [], ls_lastError = None, ls_lastStatus = Skipped\<rparr>"
  have r: "(success \<longleftrightarrow> err = None) \<and> (success \<longleftrightarrow> d \<noteq> None)
      \<and> (success \<longleftrightarrow> status = Verified \<or> status = Skipped)"
    if "endpoint_loop env br rq n eps ?st = (Some (success, d, err, used, status), st')" and sub: "set eps \<subseteq> set (br_endpoints br)"
    for n eps success d err used status st'
    using endpoint_reply_ok [OF sub that(1)] by (fastforce simp: reply_ok_def)
  note r = r [OF _ subset_refl] r [OF _ set_take_subset]
  have f: "ls_lastStatus st' \<in> {Skipped, VFailed}"
    if "endpoint_loop env br rq n eps ?st = (None, st')" for n eps st'
    using endpoint_last_status [OF that] by simp
  show ?thesis
    by (auto simp: relay_def relay_reply_def recordResponse_def entry_ok_def Let_def
        split: prod.splits option.splits if_splits dest!: r f)
qed

interpretation bridge_log: invariant_system bridge_step "\<lambda>br. list_all entry_ok (br_auditLog br)"
proof unfold_locales
  fix br :: Bridge and op
  assume "list_all entry_ok (br_auditLog br)"
  then show "list_all entry_ok (br_auditLog (bridge_step br op))"
    by (cases op) (auto simp: relay_log clearAuditLog_def relay_entry_ok)
qed

text \<open>
  The audit log is complete and honest: every relay appends exactly the response it returns, no
  relay removes or alters an earlier entry, and after any sequence of relays and clears every entry
  carries data exactly when it succeeded, an error exactly when it did not, and a verified,
  unavailable or failed status only with the matching outcome.\<close>

theorem bridge_audit_log:
  "getAuditLog (snd (relay env clk br rq)) = getAuditLog br @ [fst (relay env clk br rq)]
   \<and> length (getAuditLog br) \<le> length (getAuditLog (foldl (\<lambda>br (env, clk, rq). snd (relay env clk br rq)) br rs))
   \<and> list_all entry_ok (getAuditLog (foldl bridge_step (new_bridge eps t m v) ops))"
proof -
  have "list_all entry_ok (br_auditLog (new_bridge eps t m v))" by (simp add: new_bridge_def)
  from bridge_log.run_inv [OF this] relay_log.run_mono [of br rs]
  show ?thesis by (simp add: getAuditLog_def relay_log)
qed

end
