(* ===== verification/Local_Server.thy ===== *)
theory Local_Server
  imports Relay_Bridge Js_Bytes
begin

text \<open>
  The local HTTP server in front of the bridge (\<open>atomic-rpc-relayer-bridge/src/local-server.ts\<close>):
  configuration, bearer authorisation and the routes. Environment variables are arguments, the
  numeric settings come already parsed, and a response is its status and JSON body.
\<close>

section \<open>Configuration\<close>

definition parseBooleanFlag :: "string option \<Rightarrow> string \<Rightarrow> string + bool" where
  "parseBooleanFlag value name =
     (case value of
        None \<Rightarrow> Inr False
      | Some v \<Rightarrow>
          (let normalized = toLowerCase (trim v)
           in if normalized = ''true'' then Inr True
              else if normalized = ''false'' then Inr False
              else Inl (name @ '' must be either \"true\" or \"false\"'')))"

definition defaultEndpoints :: "string option \<Rightarrow> BridgeEndpoint list" where
  "defaultEndpoints bridge_endpoints =
     (let raw = (case bridge_endpoints of None \<Rightarrow> ''http://127.0.0.1:8545'' | Some r \<Rightarrow> r);
          urls = filter (\<lambda>u. u \<noteq> []) (map trim (split_on CHR '','' raw))
      in map (\<lambda>(i, u). \<lparr>ep_url = u, ep_priority = 10 - int i\<rparr>) (enumerate 0 urls))"

definition resolveAuthToken :: "string option \<Rightarrow> string option \<Rightarrow> string option" where
  "resolveAuthToken optionsToken env_token =
     (case (case optionsToken of None \<Rightarrow> env_token | Some t \<Rightarrow> Some t) of
        None \<Rightarrow> None
      | Some raw \<Rightarrow> (let trimmed = trim raw in if length trimmed > 0 then Some trimmed else None))"

section \<open>Authorisation\<close>

text \<open>\<open>timingSafeEqual\<close> compares equal-length buffers; the unequal lengths are returned before it.\<close>

definition isAuthorizedBearer :: "string option \<Rightarrow> string option \<Rightarrow> bool" where
  "isAuthorizedBearer authHeader expectedToken =
     (case expectedToken of
        None \<Rightarrow> False
      | Some expected \<Rightarrow>
          if expected = [] then False
          else (case authHeader of
             None \<Rightarrow> False
           | Some h \<Rightarrow>
               if h = [] \<or> \<not> startsWith h ''Bearer '' then False
               else (let expectedBuf = utf8 expected; providedBuf = utf8 (drop (length ''Bearer '') h)
                     in if length expectedBuf \<noteq> length providedBuf then False
                        else expectedBuf = providedBuf)))"

section \<open>The handler\<close>

record LocalHandler =
  lh_relayerAddress :: string
  lh_nonce :: int
  lh_failedTxCount :: int
  lh_authToken :: "string option"
  lh_bridge :: Bridge

record LocalServerOptions =
  lo_relayerAddress :: string
  lo_initialNonce :: int
  lo_initialFailedTxCount :: int
  lo_endpoints :: "BridgeEndpoint list option"
  lo_authToken :: "string option"
  lo_disableAtomicVerification :: "bool option"

record ServerEnv =
  se_AUTH_TOKEN :: "string option"
  se_BRIDGE_ENDPOINTS :: "string option"
  se_DISABLE_ATOMIC_VERIFICATION :: "string option"

definition createLocalBridgeHandler :: "LocalServerOptions \<Rightarrow> ServerEnv \<Rightarrow> string + LocalHandler" where
  "createLocalBridgeHandler opts env =
     (case (case lo_disableAtomicVerification opts of
              Some b \<Rightarrow> Inr b
            | None \<Rightarrow> parseBooleanFlag (se_DISABLE_ATOMIC_VERIFICATION env) ''DISABLE_ATOMIC_VERIFICATION'') of
        Inl e \<Rightarrow> Inl e
      | Inr disable \<Rightarrow>
          Inr \<lparr>lh_relayerAddress = lo_relayerAddress opts, lh_nonce = lo_initialNonce opts,
               lh_failedTxCount = lo_initialFailedTxCount opts,
               lh_authToken = resolveAuthToken (lo_authToken opts) (se_AUTH_TOKEN env),
               lh_bridge = new_bridge
                 (case lo_endpoints opts of None \<Rightarrow> defaultEndpoints (se_BRIDGE_ENDPOINTS env) | Some es \<Rightarrow> es)
                 None None (Some (\<not> disable))\<rparr>)"

definition handler_getMetrics :: "LocalHandler \<Rightarrow> int \<Rightarrow> jsval" where
  "handler_getMetrics h now = JArray [JObject
     [(''address'', JString (lh_relayerAddress h)), (''nonce'', JNumber (Num (lh_nonce h))),
      (''failedTxCount'', JNumber (Num (lh_failedTxCount h))), (''timestamp'', JNumber (Num now))]]"

fun status_name :: "VerificationStatus \<Rightarrow> string" where
  "status_name Verified = ''verified''"
| "status_name VFailed = ''failed''"
| "status_name Unavailable = ''unavailable''"
| "status_name Skipped = ''skipped''"

text \<open>An entry of the audit log as an object: optional fields are absent when unset.\<close>

definition response_object :: "BridgeResponse \<Rightarrow> jsval" where
  "response_object r = JObject
     ([(''requestId'', JString (rs_requestId r)), (''success'', JBool (rs_success r))]
      @ (case rs_data r of None \<Rightarrow> [] | Some d \<Rightarrow> [(''data'', d)])
      @ (case rs_error r of None \<Rightarrow> [] | Some e \<Rightarrow> [(''error'', JString e)])
      @ [(''endpointUsed'', JString (rs_endpointUsed r)), (''latencyMs'', JNumber (Num (rs_latencyMs r))),
         (''timestamp'', JNumber (Num (rs_timestamp r))),
         (''verificationStatus'', JString (status_name (rs_verificationStatus r)))])"

record HttpRequest =
  hr_url :: "string option"
  hr_method :: "string option"
  hr_authorization :: "string option"

record HttpReply =
  hy_status :: nat
  hy_body :: string

definition http_reply :: "nat \<Rightarrow> jsval \<Rightarrow> HttpReply" where
  "http_reply status body = \<lparr>hy_status = status, hy_body = json body\<rparr>"

definition handleRequest :: "LocalHandler \<Rightarrow> int \<Rightarrow> HttpRequest \<Rightarrow> HttpReply" where
  "handleRequest h now req =
     (let url = (case hr_url req of None \<Rightarrow> ''/'' | Some u \<Rightarrow> hd (split_on CHR ''?'' u));
          method = (case hr_method req of None \<Rightarrow> ''GET'' | Some m \<Rightarrow> m)
      in if method = ''GET'' \<and> (url = ''/health'' \<or> url = ''/healthz'') then
           http_reply 200 (JObject [(''status'', JString ''ok''), (''service'', JString ''atomic-rpc-relayer-bridge'')])
         else if method = ''GET'' \<and> (url = ''/metrics'' \<or> url = ''/audit-log'')
                 \<and> \<not> isAuthorizedBearer (hr_authorization req) (lh_authToken h) then
           http_reply 401 (JObject [(''error'', JString ''unauthorized'')])
         else if method = ''GET'' \<and> url = ''/metrics'' then http_reply 200 (handler_getMetrics h now)
         else if method = ''GET'' \<and> url = ''/audit-log'' then
           http_reply 200 (JArray (map response_object (getAuditLog (lh_bridge h))))
         else http_reply 404 (JObject [(''error'', JString ''not found'')]))"

section \<open>Who may read what\<close>

lemma bearer_iff:
  "isAuthorizedBearer header token \<longleftrightarrow>
     (\<exists>t. token = Some t \<and> t \<noteq> [] \<and> header = Some (''Bearer '' @ t))"
proof (cases token; cases header)
  fix t h
  assume t: "token = Some t" and h: "header = Some h"
  have "startsWith h ''Bearer '' \<and> t = drop (length ''Bearer '') h \<longleftrightarrow> h = ''Bearer '' @ t"
    by (auto simp: startsWith_iff prefix_def)
  moreover have "utf8 t = utf8 (drop (length ''Bearer '') h) \<longleftrightarrow> t = drop (length ''Bearer '') h" by (metis utf8_inj)
  ultimately show ?thesis by (auto simp: t h isAuthorizedBearer_def Let_def)
qed (simp_all add: isAuthorizedBearer_def)

lemma resolved_token: "resolveAuthToken a b = Some t \<Longrightarrow> t \<noteq> [] \<and> \<not> is_ws (hd t) \<and> \<not> is_ws (last t)"
  using trim_no_ws by (auto simp: resolveAuthToken_def Let_def split: option.splits if_splits)

text \<open>
  The server fails closed. A reply is 401 or carries nothing but a fixed text unless the request is
  a GET of \<open>/metrics\<close> or \<open>/audit-log\<close> whose header is exactly \<open>Bearer\<close> and the configured token; with
  the token unset or blank nobody is authorised, whatever the header.\<close>

theorem server_fails_closed:
  assumes "createLocalBridgeHandler opts env = Inr h0" and "h = h0\<lparr>lh_bridge := br\<rparr>"
  shows "hy_body (handleRequest h now req) \<in>
           {json (JObject [(''status'', JString ''ok''), (''service'', JString ''atomic-rpc-relayer-bridge'')]),
            json (JObject [(''error'', JString ''unauthorized'')]),
            json (JObject [(''error'', JString ''not found'')])}
         \<or> (\<exists>raw. (case lo_authToken opts of None \<Rightarrow> se_AUTH_TOKEN env | Some t \<Rightarrow> Some t) = Some raw
              \<and> trim raw \<noteq> [] \<and> hr_authorization req = Some (''Bearer '' @ trim raw)
              \<and> hy_status (handleRequest h now req) = 200)"
proof -
  have tok: "lh_authToken h = resolveAuthToken (lo_authToken opts) (se_AUTH_TOKEN env)"
    using assms by (auto simp: createLocalBridgeHandler_def split: sum.splits)
  show ?thesis
  proof (cases "isAuthorizedBearer (hr_authorization req) (lh_authToken h)")
    case True
    then obtain t where "lh_authToken h = Some t" "hr_authorization req = Some (''Bearer '' @ t)"
      by (auto simp: bearer_iff)
    moreover from this obtain raw where
      "(case lo_authToken opts of None \<Rightarrow> se_AUTH_TOKEN env | Some t \<Rightarrow> Some t) = Some raw"
      "trim raw \<noteq> []" "t = trim raw"
      by (auto simp: tok resolveAuthToken_def Let_def split: option.splits if_splits)
    ultimately show ?thesis by (auto simp: handleRequest_def Let_def http_reply_def)
  qed (auto simp: handleRequest_def Let_def http_reply_def)
qed

definition demo_options :: LocalServerOptions where
  "demo_options = \<lparr>lo_relayerAddress = ''G'', lo_initialNonce = 100, lo_initialFailedTxCount = 0,
     lo_endpoints = Some [], lo_authToken = Some '' '', lo_disableAtomicVerification = Some False\<rparr>"

definition demo_server_env :: ServerEnv where
  "demo_server_env = \<lparr>se_AUTH_TOKEN = Some ''secret'', se_BRIDGE_ENDPOINTS = None,
     se_DISABLE_ATOMIC_VERIFICATION = None\<rparr>"

definition demo_handler :: LocalHandler where
  "demo_handler = \<lparr>lh_relayerAddress = ''G'', lh_nonce = 100, lh_failedTxCount = 0, lh_authToken = None,
     lh_bridge = new_bridge [] None None (Some True)\<rparr>"

lemma demo_handler_created: "createLocalBridgeHandler demo_options demo_server_env = Inr demo_handler"
  by (simp add: createLocalBridgeHandler_def demo_options_def demo_server_env_def demo_handler_def
      resolveAuthToken_def trim_def is_ws_def Let_def)

theorem server_fails_closed_witness:
  "hy_body (handleRequest (demo_handler\<lparr>lh_bridge := lh_bridge demo_handler\<rparr>) 7
      \<lparr>hr_url = Some ''/metrics'', hr_method = None, hr_authorization = Some ''Bearer secret''\<rparr>) \<in>
    {json (JObject [(''status'', JString ''ok''), (''service'', JString ''atomic-rpc-relayer-bridge'')]),
     json (JObject [(''error'', JString ''unauthorized'')]), json (JObject [(''error'', JString ''not found'')])}"
  using server_fails_closed [OF demo_handler_created refl, of "lh_bridge demo_handler" 7
      "\<lparr>hr_url = Some ''/metrics'', hr_method = None, hr_authorization = Some ''Bearer secret''\<rparr>"]
  by (simp add: demo_options_def trim_def is_ws_def)

text \<open>Verification is on unless it is switched off explicitly, and a flag that is neither word stops
  the server.\<close>

lemma verification_default:
  "createLocalBridgeHandler opts env = Inr h \<Longrightarrow>
   br_requireAtomicVerification (lh_bridge h) \<longleftrightarrow>
     (case lo_disableAtomicVerification opts of
        Some b \<Rightarrow> \<not> b
      | None \<Rightarrow> (case se_DISABLE_ATOMIC_VERIFICATION env of
                  None \<Rightarrow> True | Some v \<Rightarrow> toLowerCase (trim v) \<noteq> ''true''))"
  by (auto simp: createLocalBridgeHandler_def parseBooleanFlag_def new_bridge_def Let_def
      split: option.splits sum.splits if_splits)

end
