(* ===== verification/Rate_Limits.thy ===== *)
theory Rate_Limits
  imports Js_Text
begin

text \<open>
  The two in-memory limiters: \<open>RateLimitMonitor\<close> (\<open>src/audit-guard/src/rate-limit-monitor.ts\<close>) and
  \<open>IPTracker\<close> (\<open>src/audit-guard/src/ip-tracker.ts\<close>). Both keep request times per client in an
  insertion-ordered map that is swept from its front and capped by removing the oldest keys.
  The clock reading of a call is an argument of it.
\<close>

section \<open>Sweeping and capping a map\<close>

text \<open>\<open>for (const [k, v] of m) if (expired v) m.delete(k); else break;\<close>\<close>

fun sweep_loop :: "('v \<Rightarrow> bool) \<Rightarrow> ('k \<times> 'v) list \<Rightarrow> ('k, 'v) jmap \<Rightarrow> ('k, 'v) jmap" where
  "sweep_loop expired [] m = m"
| "sweep_loop expired ((k, v) # es) m =
     (if expired v then sweep_loop expired es (jmap_delete k m) else m)"

text \<open>\<open>while (m.size > cap) m.delete(m.keys().next().value);\<close>\<close>

function cap_loop :: "nat \<Rightarrow> ('k, 'v) jmap \<Rightarrow> ('k, 'v) jmap" where
  "cap_loop cap m =
     (if length m > cap then (case m of [] \<Rightarrow> m | (k, v) # _ \<Rightarrow> cap_loop cap (jmap_delete k m)) else m)"
  by auto

termination
proof (relation "measure (length \<circ> snd)")
  fix cap :: nat and m :: "('k, 'v) jmap" and x xs k v
  assume "m = x # xs" "(k, v) = x"
  then show "((cap, jmap_delete k m), (cap, m)) \<in> measure (length \<circ> snd)"
    using length_delete_le [of k xs] by (auto simp: less_Suc_eq_le)
qed simp

declare cap_loop.simps [simp del]

lemma delete_head: "jmap_ok ((k, v) # m) \<Longrightarrow> jmap_delete k m = m"
  by (simp add: jmap_ok_def delete_id)

lemma sweep_loop_dropWhile:
  "jmap_ok m \<Longrightarrow> sweep_loop expired m m = dropWhile (expired \<circ> snd) m"
proof (induction m)
  case (Cons e m)
  obtain k v where e: "e = (k, v)" by fastforce
  from Cons.prems have "jmap_ok m" by (simp add: jmap_ok_def)
  with Cons.IH Cons.prems show ?case by (simp add: e delete_head)
qed simp

lemma cap_loop_last_n: "jmap_ok m \<Longrightarrow> cap_loop cap m = last_n cap m"
proof (induction m)
  case Nil
  show ?case by (simp add: cap_loop.simps)
next
  case (Cons e m)
  obtain k v where e: "e = (k, v)" by fastforce
  from Cons.prems have "jmap_ok m" by (simp add: jmap_ok_def)
  then have "cap_loop cap (e # m) = (if cap < length (e # m) then last_n cap m else e # m)"
    using Cons.IH Cons.prems by (subst cap_loop.simps) (simp add: e delete_head)
  then show ?case by (auto simp: last_n_def Suc_diff_le)
qed

lemma jmap_ok_suffix: "suffix m m' \<Longrightarrow> jmap_ok m' \<Longrightarrow> jmap_ok m"
  by (auto simp: jmap_ok_def suffix_def)

lemma sweep_suffix: "jmap_ok m \<Longrightarrow> suffix (sweep_loop expired m m) m"
  by (simp add: sweep_loop_dropWhile suffix_dropWhile)

lemma cap_suffix: "jmap_ok m \<Longrightarrow> suffix (cap_loop cap m) m"
  by (simp add: cap_loop_last_n last_n_suffix)

lemma jmap_ok_sweep: "jmap_ok m \<Longrightarrow> jmap_ok (sweep_loop expired m m)"
  by (metis jmap_ok_suffix sweep_suffix)

lemma jmap_ok_cap: "jmap_ok m \<Longrightarrow> jmap_ok (cap_loop cap m)"
  by (metis jmap_ok_suffix cap_suffix)

lemma length_cap: "jmap_ok m \<Longrightarrow> length (cap_loop cap m) \<le> cap"
  by (simp add: cap_loop_last_n)

lemma cap_within: "length m \<le> cap \<Longrightarrow> cap_loop cap m = m"
  by (simp add: cap_loop.simps)

lemma length_sweep: "jmap_ok m \<Longrightarrow> length (sweep_loop expired m m) \<le> length m"
  by (metis sweep_suffix suffix_length_le)

lemma length_touch: "length (jmap_touch k v m) \<le> Suc (length m)"
  by (simp add: jmap_touch_eq length_delete_le)

lemma keys_touch: "set (jmap_keys (jmap_touch k v m)) = insert k (set (jmap_keys m))"
  unfolding jmap_touch_eq map_append delete_keys by auto

section \<open>RateLimitMonitor\<close>

record RateLimitMonitor =
  rl_threshold :: nat
  rl_windowMs :: int
  rl_maxTrackedClients :: nat
  rl_requests :: "(string, int list) jmap"

record RateLimitFinding =
  rf_clientId :: string
  rf_requestCount :: nat
  rf_threshold :: nat
  rf_windowMs :: int
  rf_message :: string

record RateLimitResult =
  rr_allowed :: bool
  rr_requestCount :: nat
  rr_finding :: "RateLimitFinding option"

definition new_monitor ::
  "jsnum option \<Rightarrow> jsnum option \<Rightarrow> jsnum option \<Rightarrow> string + RateLimitMonitor" where
  "new_monitor threshold windowMs maxTrackedClients =
     (case (case threshold of None \<Rightarrow> Num 100 | Some t \<Rightarrow> t) of
        Num t \<Rightarrow>
          if t < 1 then Inl ''Rate-limit threshold must be a positive integer''
          else (case (case windowMs of None \<Rightarrow> Num 60000 | Some w \<Rightarrow> w) of
             Num w \<Rightarrow>
               if w \<le> 0 then Inl ''Rate-limit window must be greater than zero''
               else (case (case maxTrackedClients of None \<Rightarrow> Num 100000 | Some c \<Rightarrow> c) of
                  Num c \<Rightarrow>
                    if c < 1 then Inl ''Max tracked clients must be a positive integer''
                    else Inr \<lparr>rl_threshold = nat t, rl_windowMs = w, rl_maxTrackedClients = nat c,
                              rl_requests = []\<rparr>
                | _ \<Rightarrow> Inl ''Max tracked clients must be a positive integer'')
           | _ \<Rightarrow> Inl ''Rate-limit window must be greater than zero'')
      | _ \<Rightarrow> Inl ''Rate-limit threshold must be a positive integer'')"

text \<open>A client's times are stale when there is none, or the last is out of the window.\<close>

definition stale :: "int \<Rightarrow> int list \<Rightarrow> bool" where
  "stale windowStart ts = (ts = [] \<or> last ts \<le> windowStart)"

definition rl_sweep :: "int \<Rightarrow> RateLimitMonitor \<Rightarrow> RateLimitMonitor" where
  "rl_sweep now m = m\<lparr>rl_requests :=
     sweep_loop (stale (now - rl_windowMs m)) (rl_requests m) (rl_requests m)\<rparr>"

definition rl_enforceCaps :: "RateLimitMonitor \<Rightarrow> RateLimitMonitor" where
  "rl_enforceCaps m = m\<lparr>rl_requests := cap_loop (rl_maxTrackedClients m) (rl_requests m)\<rparr>"

definition times_of :: "(string, int list) jmap \<Rightarrow> string \<Rightarrow> int list" where
  "times_of m c = (case jmap_get m c of None \<Rightarrow> [] | Some ts \<Rightarrow> ts)"

definition active :: "int \<Rightarrow> int list \<Rightarrow> int list" where
  "active windowStart ts = filter (\<lambda>t. t > windowStart) ts"

definition rl_record :: "RateLimitMonitor \<Rightarrow> string \<Rightarrow> int \<Rightarrow> RateLimitResult \<times> RateLimitMonitor" where
  "rl_record m0 clientId now =
     (let m = rl_sweep now m0;
          activeRequests = active (now - rl_windowMs m) (times_of (rl_requests m) clientId) @ [now];
          m' = rl_enforceCaps (m\<lparr>rl_requests := jmap_touch clientId activeRequests (rl_requests m)\<rparr>);
          n = length activeRequests
      in (if n \<le> rl_threshold m then \<lparr>rr_allowed = True, rr_requestCount = n, rr_finding = None\<rparr>
          else \<lparr>rr_allowed = False, rr_requestCount = n,
                rr_finding = Some \<lparr>rf_clientId = clientId, rf_requestCount = n,
                  rf_threshold = rl_threshold m, rf_windowMs = rl_windowMs m,
                  rf_message = ''Request burst detected for '' @ [CHR 0x27] @ clientId @ [CHR 0x27]
                    @ '': '' @ show_nat n @ '' requests within '' @ show_int (rl_windowMs m)
                    @ ''ms (limit '' @ show_nat (rl_threshold m) @ '').''\<rparr>\<rparr>, m'))"

definition rl_getRequestCount :: "RateLimitMonitor \<Rightarrow> string \<Rightarrow> int \<Rightarrow> nat \<times> RateLimitMonitor" where
  "rl_getRequestCount m0 clientId now =
     (let m = rl_sweep now m0;
          activeRequests = active (now - rl_windowMs m) (times_of (rl_requests m) clientId);
          m' = (if jmap_has (rl_requests m) clientId then
                  m\<lparr>rl_requests := (if activeRequests \<noteq> []
                     then jmap_touch clientId activeRequests (rl_requests m)
                     else jmap_delete clientId (rl_requests m))\<rparr>
                else m)
      in (length activeRequests, m'))"

section \<open>IPTracker\<close>

record IPTracker =
  ip_requests :: "(string, int list) jmap"
  ip_banList :: "(string, int) jmap"
  ip_maxReqPerMin :: int
  ip_maxTrackedIps :: nat
  ip_banTtl :: int

definition new_tracker :: "int option \<Rightarrow> nat option \<Rightarrow> int option \<Rightarrow> IPTracker" where
  "new_tracker maxReqPerMin maxTrackedIps banTtl =
     \<lparr>ip_requests = [], ip_banList = [],
      ip_maxReqPerMin = (case maxReqPerMin of None \<Rightarrow> 100 | Some r \<Rightarrow> r),
      ip_maxTrackedIps = (case maxTrackedIps of None \<Rightarrow> 100000 | Some c \<Rightarrow> c),
      ip_banTtl = (case banTtl of None \<Rightarrow> 3600000 | Some t \<Rightarrow> t)\<rparr>"

definition ip_sweep :: "int \<Rightarrow> IPTracker \<Rightarrow> IPTracker" where
  "ip_sweep now t = t\<lparr>ip_requests := sweep_loop (stale (now - 60 * 1000)) (ip_requests t) (ip_requests t),
     ip_banList := sweep_loop (\<lambda>expiry. now > expiry) (ip_banList t) (ip_banList t)\<rparr>"

definition ip_enforceCaps :: "IPTracker \<Rightarrow> IPTracker" where
  "ip_enforceCaps t = t\<lparr>ip_requests := cap_loop (ip_maxTrackedIps t) (ip_requests t),
     ip_banList := cap_loop (ip_maxTrackedIps t) (ip_banList t)\<rparr>"

text \<open>The part of \<open>recordRequest\<close> after the ban check.\<close>

definition ip_count_request :: "string \<Rightarrow> int \<Rightarrow> IPTracker \<Rightarrow> bool \<times> IPTracker" where
  "ip_count_request ip now t =
     (let timestamps = active (now - 60 * 1000) (times_of (ip_requests t) ip) @ [now];
          t' = ip_enforceCaps (t\<lparr>ip_requests := jmap_touch ip timestamps (ip_requests t)\<rparr>)
      in if int (length timestamps) > ip_maxReqPerMin t'
         then (False, ip_enforceCaps (t'\<lparr>ip_banList := jmap_touch ip (now + ip_banTtl t') (ip_banList t')\<rparr>))
         else (True, t'))"

definition ip_recordRequest :: "IPTracker \<Rightarrow> string \<Rightarrow> int \<Rightarrow> bool \<times> IPTracker" where
  "ip_recordRequest t0 ip now =
     (let t = ip_sweep now t0
      in case jmap_get (ip_banList t) ip of
           None \<Rightarrow> ip_count_request ip now t
         | Some expiry \<Rightarrow>
             if now > expiry then ip_count_request ip now (t\<lparr>ip_banList := jmap_delete ip (ip_banList t)\<rparr>)
             else (False, t))"

definition ip_isBanned :: "IPTracker \<Rightarrow> string \<Rightarrow> int \<Rightarrow> bool \<times> IPTracker" where
  "ip_isBanned t0 ip now =
     (let t = ip_sweep now t0
      in case jmap_get (ip_banList t) ip of
           None \<Rightarrow> (False, t)
         | Some expiry \<Rightarrow>
             if now > expiry then (False, t\<lparr>ip_banList := jmap_delete ip (ip_banList t)\<rparr>) else (True, t))"

definition ip_getRequestCount :: "IPTracker \<Rightarrow> string \<Rightarrow> int \<Rightarrow> nat \<times> IPTracker" where
  "ip_getRequestCount t0 ip now =
     (let t = ip_sweep now t0;
          timestamps = times_of (ip_requests t) ip;
          t' = (if timestamps \<noteq> [] then t\<lparr>ip_requests := jmap_touch ip timestamps (ip_requests t)\<rparr> else t)
      in (length (active (now - 60 * 1000) timestamps), t'))"

definition ip_unban :: "IPTracker \<Rightarrow> string \<Rightarrow> IPTracker" where
  "ip_unban t ip = t\<lparr>ip_banList := jmap_delete ip (ip_banList t),
     ip_requests := jmap_delete ip (ip_requests t)\<rparr>"

section \<open>What sweeping keeps\<close>

lemma sweep_get:
  assumes "jmap_ok m"
  shows "jmap_get (sweep_loop ex m m) c = jmap_get m c
       \<or> jmap_get (sweep_loop ex m m) c = None \<and> (\<exists>v. jmap_get m c = Some v \<and> ex v)"
  using assms
proof (induction m)
  case (Cons e m)
  obtain k v where e: "e = (k, v)" by fastforce
  from Cons.prems have "jmap_ok m" "k \<notin> set (jmap_keys m)" by (auto simp: e jmap_ok_def)
  moreover from this have "jmap_get m k = None" by (simp add: map_of_eq_None_iff)
  moreover from this have "k \<notin> set (jmap_keys (sweep_loop ex m m))"
    using \<open>k \<notin> set (jmap_keys m)\<close> sweep_suffix [OF \<open>jmap_ok m\<close>, of ex] set_mono_suffix by fastforce
  moreover from this have "jmap_get (sweep_loop ex m m) k = None" by (simp add: map_of_eq_None_iff)
  ultimately show ?case using Cons.IH Cons.prems by (auto simp: e delete_head)
qed simp

lemma times_touch: "times_of (jmap_touch k ts m) c = (if c = k then ts else times_of m c)"
  by (simp add: times_of_def jmap_get_touch)

lemma times_delete: "times_of (jmap_delete k m) c = (if c = k then [] else times_of m c)"
  by (simp add: times_of_def jmap_get_delete)

lemma active_active: "ws \<le> ws' \<Longrightarrow> active ws' (active ws ts) = active ws' ts"
  by (auto simp: active_def intro: filter_cong)

lemma active_Nil [simp]: "active ws [] = []"
  by (simp add: active_def)

lemma active_append: "active ws (ts @ us) = active ws ts @ active ws us"
  by (simp add: active_def)

lemma stale_active: "sorted ts \<Longrightarrow> stale ws ts \<Longrightarrow> ws \<le> ws' \<Longrightarrow> active ws' ts = []"
  by (cases ts rule: rev_cases) (auto simp: stale_def active_def filter_empty_conv sorted_append)

lemma active_sweep:
  assumes "jmap_ok m" and "sorted (times_of m c)" and "ws \<le> ws'"
  shows "active ws' (times_of (sweep_loop (stale ws) m m) c) = active ws' (times_of m c)"
  using sweep_get [OF assms(1), of "stale ws" c] stale_active assms(2,3)
  by (fastforce simp: times_of_def active_def)

lemma keys_sweep: "jmap_ok m \<Longrightarrow> set (jmap_keys (sweep_loop ex m m)) \<subseteq> set (jmap_keys m)"
  using sweep_suffix [of m ex] set_mono_suffix by fastforce

lemma keys_within:
  "jmap_ok m \<Longrightarrow> set (jmap_keys m) \<subseteq> K \<Longrightarrow> finite K \<Longrightarrow> length m \<le> card K"
  by (metis card_mono distinct_card jmap_ok_def length_map)

section \<open>The monitor counts exactly\<close>

datatype rl_op = Record string int | Count string int

fun rl_step :: "RateLimitMonitor \<Rightarrow> rl_op \<Rightarrow> RateLimitMonitor" where
  "rl_step m (Record c t) = snd (rl_record m c t)"
| "rl_step m (Count c t) = snd (rl_getRequestCount m c t)"

fun rl_time :: "rl_op \<Rightarrow> int" where
  "rl_time (Record c t) = t"
| "rl_time (Count c t) = t"

fun rl_client :: "rl_op \<Rightarrow> string" where
  "rl_client (Record c t) = c"
| "rl_client (Count c t) = c"

text \<open>The specification: the recorded times of a client, oldest first.\<close>

fun recorded :: "string \<Rightarrow> rl_op list \<Rightarrow> int list" where
  "recorded c [] = []"
| "recorded c (Record d t # ops) = (if d = c then t # recorded c ops else recorded c ops)"
| "recorded c (Count d t # ops) = recorded c ops"

lemma recorded_append: "recorded c (ops @ ops') = recorded c ops @ recorded c ops'"
  by (induction c ops rule: recorded.induct) auto

definition rl_tracks :: "RateLimitMonitor \<Rightarrow> rl_op list \<Rightarrow> int \<Rightarrow> bool" where
  "rl_tracks m ops n \<longleftrightarrow> jmap_ok (rl_requests m)
     \<and> set (jmap_keys (rl_requests m)) \<subseteq> rl_client ` set ops
     \<and> (\<forall>c. sorted (times_of (rl_requests m) c) \<and> (\<forall>t \<in> set (times_of (rl_requests m) c). t \<le> n)
          \<and> (\<forall>now \<ge> n. active (now - rl_windowMs m) (times_of (rl_requests m) c)
               = active (now - rl_windowMs m) (recorded c ops)))"

lemma rl_config [simp]:
  "rl_windowMs (rl_step m op) = rl_windowMs m"
  "rl_maxTrackedClients (rl_step m op) = rl_maxTrackedClients m"
  "rl_threshold (rl_step m op) = rl_threshold m"
  by (cases op; simp add: rl_record_def rl_getRequestCount_def rl_sweep_def rl_enforceCaps_def Let_def)+

lemma rl_tracks_sweep:
  assumes "rl_tracks m ops n" and "n \<le> now"
  shows "rl_tracks (rl_sweep now m) ops now"
proof -
  let ?r = "rl_requests m" and ?s = "rl_requests (rl_sweep now m)"
  have ok: "jmap_ok ?r" using assms by (simp add: rl_tracks_def)
  have s: "?s = sweep_loop (stale (now - rl_windowMs m)) ?r ?r" by (simp add: rl_sweep_def)
  have t: "times_of ?s c = times_of ?r c \<or> times_of ?s c = []" for c
    using sweep_get [OF ok, of "stale (now - rl_windowMs m)" c] by (auto simp: s times_of_def)
  have a: "active (x - rl_windowMs m) (times_of ?s c) = active (x - rl_windowMs m) (recorded c ops)"
    if "now \<le> x" for x c
    using active_sweep [OF ok, of c "now - rl_windowMs m" "x - rl_windowMs m"] that assms
    by (auto simp: s rl_tracks_def)
  have st: "sorted (times_of ?s c) \<and> (\<forall>t \<in> set (times_of ?s c). t \<le> now)" for c
    using t [of c] assms by (fastforce simp: rl_tracks_def)
  have "set (jmap_keys ?r) \<subseteq> rl_client ` set ops" using assms(1) by (simp add: rl_tracks_def)
  then have "jmap_ok ?s" "set (jmap_keys ?s) \<subseteq> rl_client ` set ops"
    using jmap_ok_sweep [OF ok] keys_sweep [OF ok, of "stale (now - rl_windowMs m)"] by (auto simp: s)
  with a st show ?thesis by (simp add: rl_tracks_def rl_sweep_def)
qed

lemma rl_touch_tracks:
  assumes "rl_tracks m ops now" and "ts = active (now - rl_windowMs m) (times_of (rl_requests m) c) @ us"
    and "us = (case op of Record _ _ \<Rightarrow> [now] | Count _ _ \<Rightarrow> [])" and "rl_client op = c" "rl_time op = now"
    and "rl_requests m' = jmap_touch c ts (rl_requests m) \<or>
         ts = [] \<and> (rl_requests m' = jmap_delete c (rl_requests m)
           \<or> rl_requests m' = rl_requests m \<and> times_of (rl_requests m) c = [])"
    and "rl_windowMs m' = rl_windowMs m" and "0 < rl_windowMs m"
  shows "rl_tracks m' (ops @ [op]) now"
proof -
  let ?r = "rl_requests m" and ?s = "rl_requests m'"
  have times: "times_of ?s d = (if d = c then ts else times_of ?r d)" for d
    using assms(6) by (auto simp: times_touch times_delete)
  have keys: "set (jmap_keys ?s) \<subseteq> insert c (set (jmap_keys ?r))"
    using assms(6) by (auto simp del: set_map simp: keys_touch delete_keys)
  have ok: "jmap_ok ?s"
    using assms(1,6) by (auto simp: rl_tracks_def jmap_ok_touch jmap_ok_delete)
  have us: "recorded d [op] = (if d = c then us else [])" for d
    using assms(3-5) by (cases op) auto
  have "sorted (times_of ?r c)" "\<forall>t \<in> set (times_of ?r c). t \<le> now"
    using assms(1) unfolding rl_tracks_def by blast+
  then have srt: "sorted ts \<and> (\<forall>t \<in> set ts. t \<le> now)"
    using assms(2,3) by (cases op) (auto simp: active_def sorted_append sorted_wrt_filter)
  have act: "active (x - rl_windowMs m) ts = active (x - rl_windowMs m) (recorded c (ops @ [op]))"
    if "now \<le> x" for x
    using assms(1) that us [of c]
    by (simp add: assms(2) active_append active_active recorded_append rl_tracks_def)
  show ?thesis unfolding rl_tracks_def assms(7)
  proof (intro conjI allI ballI impI)
    show "jmap_ok ?s" by (rule ok)
    show "set (jmap_keys ?s) \<subseteq> rl_client ` set (ops @ [op])"
      using keys assms(1,4) by (auto simp: rl_tracks_def)
  next
    fix d
    show "sorted (times_of ?s d)" using srt assms(1) by (simp add: times rl_tracks_def)
    show "t \<le> now" if "t \<in> set (times_of ?s d)" for t
      using that srt assms(1) by (auto simp: times rl_tracks_def split: if_splits)
    show "active (x - rl_windowMs m) (times_of ?s d) = active (x - rl_windowMs m) (recorded d (ops @ [op]))"
      if "now \<le> x" for x
      using act [OF that] us [of d] assms(1) that
      by (cases "d = c") (simp_all add: times recorded_append rl_tracks_def active_append)
  qed
qed

lemma rl_step_tracks:
  assumes "rl_tracks m ops n" and "n \<le> rl_time op" and "0 < rl_windowMs m"
    and "card (rl_client ` set (ops @ [op])) \<le> rl_maxTrackedClients m"
  shows "rl_tracks (rl_step m op) (ops @ [op]) (rl_time op)"
proof (cases op)
  case (Record c now)
  let ?m = "rl_sweep now m"
  let ?ts = "active (now - rl_windowMs m) (times_of (rl_requests ?m) c) @ [now]"
  have sw: "rl_tracks ?m ops now" using rl_tracks_sweep assms(1,2) Record by simp
  have t: "rl_tracks (?m\<lparr>rl_requests := jmap_touch c ?ts (rl_requests ?m)\<rparr>) (ops @ [op]) now"
    using assms(3) by (intro rl_touch_tracks [OF sw]) (auto simp: Record rl_sweep_def)
  have "length (jmap_touch c ?ts (rl_requests ?m)) \<le> rl_maxTrackedClients m"
  proof (rule order_trans [OF keys_within assms(4)])
    show "jmap_ok (jmap_touch c ?ts (rl_requests ?m))"
      and "set (jmap_keys (jmap_touch c ?ts (rl_requests ?m))) \<subseteq> rl_client ` set (ops @ [op])"
      using t unfolding rl_tracks_def by simp_all
  qed simp
  then have "rl_step m op = ?m\<lparr>rl_requests := jmap_touch c ?ts (rl_requests ?m)\<rparr>"
    by (simp add: Record rl_record_def Let_def rl_enforceCaps_def cap_within rl_sweep_def)
  with t show ?thesis by (simp add: Record)
next
  case (Count c now)
  let ?m = "rl_sweep now m"
  have sw: "rl_tracks ?m ops now" using rl_tracks_sweep assms(1,2) Count by simp
  show ?thesis unfolding Count rl_step.simps rl_time.simps
    by (rule rl_touch_tracks [OF sw refl])
      (use assms(3) in \<open>auto simp: rl_getRequestCount_def Let_def rl_sweep_def jmap_has_def times_of_def\<close>)
qed

lemma rl_run_tracks:
  assumes "rl_requests m = []" and "0 < rl_windowMs m"
  shows "sorted (map rl_time ops) \<Longrightarrow> card (rl_client ` set ops) \<le> rl_maxTrackedClients m
    \<Longrightarrow> \<forall>op \<in> set ops. rl_time op \<le> n \<Longrightarrow> \<exists>k \<le> n. rl_tracks (foldl rl_step m ops) ops k
      \<and> rl_windowMs (foldl rl_step m ops) = rl_windowMs m
      \<and> rl_maxTrackedClients (foldl rl_step m ops) = rl_maxTrackedClients m
      \<and> rl_threshold (foldl rl_step m ops) = rl_threshold m"
proof (induction ops arbitrary: n rule: rev_induct)
  case Nil
  show ?case using assms
    by (auto simp: rl_tracks_def jmap_ok_def times_of_def intro!: exI [of _ n])
next
  case (snoc op ops)
  have "card (rl_client ` set ops) \<le> card (rl_client ` set (ops @ [op]))"
    by (intro card_mono) auto
  with snoc obtain k where k: "k \<le> rl_time op" "rl_tracks (foldl rl_step m ops) ops k"
    "rl_windowMs (foldl rl_step m ops) = rl_windowMs m"
    "rl_maxTrackedClients (foldl rl_step m ops) = rl_maxTrackedClients m"
    "rl_threshold (foldl rl_step m ops) = rl_threshold m"
    by (atomize_elim, intro snoc.IH) (auto simp: sorted_append)
  have "rl_tracks (foldl rl_step m (ops @ [op])) (ops @ [op]) (rl_time op)"
    using rl_step_tracks [OF k(2,1)] k(3,4) snoc.prems assms by simp
  then show ?case using snoc.prems k by (intro exI [of _ "rl_time op"]) simp
qed



section \<open>Memory stays bounded\<close>

datatype ip_op = RecordRequest string int | IsBanned string int | GetRequestCount string int | Unban string

fun ip_step :: "IPTracker \<Rightarrow> ip_op \<Rightarrow> IPTracker" where
  "ip_step t (RecordRequest ip now) = snd (ip_recordRequest t ip now)"
| "ip_step t (IsBanned ip now) = snd (ip_isBanned t ip now)"
| "ip_step t (GetRequestCount ip now) = snd (ip_getRequestCount t ip now)"
| "ip_step t (Unban ip) = ip_unban t ip"

lemma length_touch_present:
  assumes "jmap_ok m" and "k \<in> set (jmap_keys m)"
  shows "length (jmap_touch k v m) = length m"
proof -
  have "length (jmap_delete k m) = length (removeAll k (jmap_keys m))"
    by (metis delete_keys length_map)
  also have "\<dots> = length m - 1"
    using assms by (metis distinct_remove1_removeAll jmap_ok_def length_map length_remove1)
  finally show ?thesis using assms(2) by (cases m) (auto simp: jmap_touch_eq)
qed

definition rl_bounded :: "RateLimitMonitor \<Rightarrow> bool" where
  "rl_bounded m \<longleftrightarrow> jmap_ok (rl_requests m) \<and> length (rl_requests m) \<le> rl_maxTrackedClients m"

definition ip_bounded :: "IPTracker \<Rightarrow> bool" where
  "ip_bounded t \<longleftrightarrow> jmap_ok (ip_requests t) \<and> length (ip_requests t) \<le> ip_maxTrackedIps t
     \<and> jmap_ok (ip_banList t) \<and> length (ip_banList t) \<le> ip_maxTrackedIps t"

lemma times_present: "times_of m c \<noteq> [] \<Longrightarrow> c \<in> set (jmap_keys m)"
  by (metis jmap_has_def jmap_has_iff option.simps(4) times_of_def)

lemma rl_bounded_sweep: "rl_bounded m \<Longrightarrow> rl_bounded (rl_sweep now m)"
  using length_sweep [of "rl_requests m"] order_trans
  by (fastforce simp: rl_bounded_def rl_sweep_def jmap_ok_sweep)

lemma rl_bounded_cap: "jmap_ok (rl_requests m) \<Longrightarrow> rl_bounded (rl_enforceCaps m)"
  by (simp add: rl_bounded_def rl_enforceCaps_def jmap_ok_cap length_cap)

lemma rl_bounded_step: "rl_bounded m \<Longrightarrow> rl_bounded (rl_step m op)"
proof (cases op)
  case (Record c now)
  assume "rl_bounded m"
  then have "jmap_ok (rl_requests (rl_sweep now m))" by (simp add: rl_bounded_def rl_sweep_def jmap_ok_sweep)
  then show ?thesis by (auto simp: Record rl_record_def Let_def jmap_ok_touch intro!: rl_bounded_cap)
next
  case (Count c now)
  assume "rl_bounded m"
  then have "rl_bounded (rl_sweep now m)" by (rule rl_bounded_sweep)
  then show ?thesis
    using length_delete_le [of c "rl_requests (rl_sweep now m)"]
    by (auto simp: Count rl_getRequestCount_def Let_def rl_bounded_def jmap_ok_touch jmap_ok_delete
        jmap_has_iff length_touch_present simp del: set_map)
qed

lemma ip_bounded_sweep: "ip_bounded t \<Longrightarrow> ip_bounded (ip_sweep now t)"
  using length_sweep [of "ip_requests t"] length_sweep [of "ip_banList t"] order_trans
  by (fastforce simp: ip_bounded_def ip_sweep_def jmap_ok_sweep)

lemma ip_bounded_cap: "jmap_ok (ip_requests t) \<Longrightarrow> jmap_ok (ip_banList t) \<Longrightarrow> ip_bounded (ip_enforceCaps t)"
  by (simp add: ip_bounded_def ip_enforceCaps_def jmap_ok_cap length_cap)

lemma ip_bounded_delete:
  "ip_bounded t \<Longrightarrow> ip_bounded (t\<lparr>ip_banList := jmap_delete ip (ip_banList t)\<rparr>)"
  "ip_bounded t \<Longrightarrow> ip_bounded (ip_unban t ip)"
  using length_delete_le [of ip "ip_banList t"] length_delete_le [of ip "ip_requests t"]
  by (auto simp: ip_bounded_def ip_unban_def jmap_ok_delete)

lemma ip_bounded_count: "ip_bounded t \<Longrightarrow> ip_bounded (snd (ip_count_request ip now t))"
  by (auto simp: ip_count_request_def Let_def ip_bounded_def jmap_ok_touch ip_enforceCaps_def jmap_ok_cap length_cap)

lemma ip_bounded_step: "ip_bounded t \<Longrightarrow> ip_bounded (ip_step t op)"
proof (cases op)
  case (RecordRequest ip now)
  assume "ip_bounded t"
  then show ?thesis
    by (auto simp: RecordRequest ip_recordRequest_def Let_def ip_bounded_sweep
        intro!: ip_bounded_count ip_bounded_delete split: option.splits)
next
  case (IsBanned ip now)
  assume "ip_bounded t"
  then show ?thesis
    by (auto simp: IsBanned ip_isBanned_def Let_def ip_bounded_sweep intro!: ip_bounded_delete split: option.splits)
next
  case (GetRequestCount ip now)
  assume "ip_bounded t"
  then have "ip_bounded (ip_sweep now t)" by (rule ip_bounded_sweep)
  then show ?thesis using times_present [of "ip_requests (ip_sweep now t)" ip]
    by (auto simp: GetRequestCount ip_getRequestCount_def Let_def ip_bounded_def jmap_ok_touch
        length_touch_present simp del: set_map)
next
  case (Unban ip)
  assume "ip_bounded t"
  then show ?thesis by (simp add: Unban ip_bounded_delete)
qed

interpretation rl_memory: invariant_system rl_step rl_bounded
  by unfold_locales (rule rl_bounded_step)

interpretation ip_memory: invariant_system ip_step ip_bounded
  by unfold_locales (rule ip_bounded_step)

text \<open>
  Neither limiter outgrows its cap. Whatever the calls and the clock readings, a fresh monitor and a
  fresh tracker never hold more clients, addresses or bans than configured, and hold each key once.\<close>

theorem limiters_bounded:
  "rl_bounded (foldl rl_step \<lparr>rl_threshold = k, rl_windowMs = w, rl_maxTrackedClients = c, rl_requests = []\<rparr> ops)
   \<and> ip_bounded (foldl ip_step (new_tracker r c' ttl) ops')"
proof -
  have "rl_bounded \<lparr>rl_threshold = k, rl_windowMs = w, rl_maxTrackedClients = c, rl_requests = []\<rparr>"
    and "ip_bounded (new_tracker r c' ttl)"
    by (simp_all add: rl_bounded_def ip_bounded_def new_tracker_def jmap_ok_def)
  then show ?thesis using rl_memory.run_inv ip_memory.run_inv by blast
qed

section \<open>A ban holds until it expires\<close>

fun ip_client :: "ip_op \<Rightarrow> string" where
  "ip_client (RecordRequest ip now) = ip"
| "ip_client (IsBanned ip now) = ip"
| "ip_client (GetRequestCount ip now) = ip"
| "ip_client (Unban ip) = ip"

text \<open>Every clock reading of the call is at most \<open>e\<close>, and it does not lift the ban of \<open>ip\<close>.\<close>

fun ip_before :: "string \<Rightarrow> int \<Rightarrow> ip_op \<Rightarrow> bool" where
  "ip_before ip e (RecordRequest _ now) = (now \<le> e)"
| "ip_before ip e (IsBanned _ now) = (now \<le> e)"
| "ip_before ip e (GetRequestCount _ now) = (now \<le> e)"
| "ip_before ip e (Unban ip') = (ip' \<noteq> ip)"

definition bans_within :: "string set \<Rightarrow> IPTracker \<Rightarrow> bool" where
  "bans_within K t \<longleftrightarrow> jmap_ok (ip_banList t) \<and> set (jmap_keys (ip_banList t)) \<subseteq> K
     \<and> finite K \<and> card K \<le> ip_maxTrackedIps t"

lemma bans_within_sweep: "bans_within K t \<Longrightarrow> bans_within K (ip_sweep now t)"
  using keys_sweep [of "ip_banList t"] by (auto simp: bans_within_def ip_sweep_def jmap_ok_sweep)

lemma bans_within_caps:
  assumes "bans_within K t"
  shows "ip_banList (ip_enforceCaps t) = ip_banList t" and "bans_within K (ip_enforceCaps t)"
proof -
  have "length (ip_banList t) \<le> ip_maxTrackedIps t"
    using assms keys_within order_trans unfolding bans_within_def by blast
  then show "ip_banList (ip_enforceCaps t) = ip_banList t" by (simp add: ip_enforceCaps_def cap_within)
  then show "bans_within K (ip_enforceCaps t)" using assms by (simp add: bans_within_def ip_enforceCaps_def)
qed

lemma bans_within_touch:
  "bans_within K t \<Longrightarrow> ip \<in> K \<Longrightarrow> bans_within K (t\<lparr>ip_banList := jmap_touch ip e (ip_banList t)\<rparr>)"
  by (simp add: bans_within_def jmap_ok_touch keys_touch del: set_map)

lemma bans_within_delete:
  "bans_within K t \<Longrightarrow> bans_within K (t\<lparr>ip_banList := jmap_delete ip (ip_banList t)\<rparr>)"
  by (auto simp add: bans_within_def jmap_ok_delete delete_keys simp del: set_map)

lemma bans_within_requests [simp]: "bans_within K (t\<lparr>ip_requests := r\<rparr>) = bans_within K t"
  by (simp add: bans_within_def)

text \<open>What counting a request does to the ban list: at most it bans that address.\<close>

lemma count_request_bans:
  assumes "bans_within K t" and "ip \<in> K"
  shows "bans_within K (snd (ip_count_request ip now t))"
    and "ip_banList (snd (ip_count_request ip now t)) =
      (if fst (ip_count_request ip now t) then ip_banList t
       else jmap_touch ip (now + ip_banTtl t) (ip_banList t))"
proof -
  let ?ts = "active (now - 60 * 1000) (times_of (ip_requests t) ip) @ [now]"
  let ?u = "t\<lparr>ip_requests := jmap_touch ip ?ts (ip_requests t)\<rparr>"
  have u: "bans_within K ?u" using assms by simp
  note c = bans_within_caps [OF u]
  let ?b = "(ip_enforceCaps ?u)\<lparr>ip_banList := jmap_touch ip (now + ip_banTtl t) (ip_banList t)\<rparr>"
  have "bans_within K ?b" using bans_within_touch [OF c(2) assms(2)] c(1) by simp
  note d = bans_within_caps [OF this]
  have ttl: "ip_banTtl (ip_enforceCaps ?u) = ip_banTtl t" by (simp add: ip_enforceCaps_def)
  show "bans_within K (snd (ip_count_request ip now t))"
    and "ip_banList (snd (ip_count_request ip now t)) =
      (if fst (ip_count_request ip now t) then ip_banList t
       else jmap_touch ip (now + ip_banTtl t) (ip_banList t))"
    using c d ttl by (simp_all add: ip_count_request_def Let_def)
qed

lemma sweep_keeps_ban:
  "jmap_ok (ip_banList t) \<Longrightarrow> jmap_get (ip_banList t) ip = Some e \<Longrightarrow> now \<le> e
   \<Longrightarrow> jmap_get (ip_banList (ip_sweep now t)) ip = Some e"
  using sweep_get [of "ip_banList t" "\<lambda>expiry. now > expiry" ip] by (auto simp: ip_sweep_def)

lemma banned_refused:
  assumes "jmap_ok (ip_banList t)" and "jmap_get (ip_banList t) ip = Some e" and "now \<le> e"
  shows "ip_recordRequest t ip now = (False, ip_sweep now t)"
    and "ip_isBanned t ip now = (True, ip_sweep now t)"
  using sweep_keeps_ban [OF assms] assms(3)
  by (simp_all add: ip_recordRequest_def ip_isBanned_def)

lemma sweep_ban:
  assumes "bans_within K t" and "jmap_get (ip_banList t) ip = Some e" and "now \<le> e"
  shows "bans_within K (ip_sweep now t)" and "jmap_get (ip_banList (ip_sweep now t)) ip = Some e"
  using bans_within_sweep [OF assms(1)] sweep_keeps_ban [OF _ assms(2,3)] assms(1)
  by (simp_all add: bans_within_def)

lemma record_bans:
  assumes "bans_within K t" and "ip' \<in> K" and "jmap_get (ip_banList t) ip = Some e" and "now \<le> e"
  shows "bans_within K (snd (ip_recordRequest t ip' now))
       \<and> jmap_get (ip_banList (snd (ip_recordRequest t ip' now))) ip = Some e"
proof (cases "ip' = ip")
  case True
  have "jmap_ok (ip_banList t)" using assms(1) by (simp add: bans_within_def)
  from banned_refused [OF this assms(3,4)] sweep_keeps_ban [OF this assms(3,4)] True show ?thesis
    by (simp add: bans_within_sweep assms(1))
next
  case False
  let ?t = "ip_sweep now t" and ?d = "(ip_sweep now t)\<lparr>ip_banList := jmap_delete ip' (ip_banList (ip_sweep now t))\<rparr>"
  have t: "bans_within K ?t" "jmap_get (ip_banList ?t) ip = Some e"
    using sweep_ban [OF assms(1,3,4)] by simp_all
  have d: "bans_within K ?d" "jmap_get (ip_banList ?d) ip = Some e"
    using t False by (simp_all add: bans_within_delete jmap_get_delete)
  show ?thesis using t d False count_request_bans [OF t(1) assms(2)] count_request_bans [OF d(1) assms(2)]
    by (auto simp: ip_recordRequest_def Let_def jmap_get_touch split: option.splits)
qed

lemma step_keeps_ban:
  assumes "bans_within K t" and "jmap_get (ip_banList t) ip = Some e" and "ip_before ip e op" and "ip_client op \<in> K"
  shows "bans_within K (ip_step t op) \<and> jmap_get (ip_banList (ip_step t op)) ip = Some e"
proof (cases op)
  case (RecordRequest ip' now)
  then show ?thesis using record_bans [OF assms(1) _ assms(2)] assms(3,4) by simp
next
  case (IsBanned ip' now)
  have t: "bans_within K (ip_sweep now t)" "jmap_get (ip_banList (ip_sweep now t)) ip = Some e"
    using sweep_ban [OF assms(1,2)] assms(3) IsBanned by simp_all
  then show ?thesis using assms(3)
    by (auto simp: IsBanned ip_isBanned_def Let_def jmap_get_delete bans_within_delete split: option.splits)
next
  case (GetRequestCount ip' now)
  have t: "bans_within K (ip_sweep now t)" "jmap_get (ip_banList (ip_sweep now t)) ip = Some e"
    using sweep_ban [OF assms(1,2)] assms(3) GetRequestCount by simp_all
  then show ?thesis by (simp add: GetRequestCount ip_getRequestCount_def Let_def)
next
  case (Unban ip')
  then show ?thesis using assms bans_within_delete [OF assms(1), of ip']
    by (simp add: ip_unban_def jmap_get_delete bans_within_def)
qed

lemma run_keeps_ban:
  "bans_within K t \<Longrightarrow> jmap_get (ip_banList t) ip = Some e \<Longrightarrow> list_all (ip_before ip e) ops
   \<Longrightarrow> ip_client ` set ops \<subseteq> K
   \<Longrightarrow> bans_within K (foldl ip_step t ops) \<and> jmap_get (ip_banList (foldl ip_step t ops)) ip = Some e"
  by (induction ops arbitrary: t) (auto dest: step_keeps_ban)

text \<open>
  A ban holds. When a request of an address that is not banned is refused, every further request of
  that address is refused, and it is reported as banned, until the ban time has passed, whatever
  the other calls are, as long as the address is not unbanned and the tracker has room for every
  address involved.\<close>

theorem tracker_ban_holds:
  assumes "jmap_ok (ip_banList t)" and "jmap_get (ip_banList t) ip = None"
    and "fst (ip_recordRequest t ip now0) = False"
    and "card (set (jmap_keys (ip_banList t)) \<union> insert ip (ip_client ` set ops)) \<le> ip_maxTrackedIps t"
    and "list_all (ip_before ip (now0 + ip_banTtl t)) ops" and "now \<le> now0 + ip_banTtl t"
  shows "let t' = foldl ip_step (snd (ip_recordRequest t ip now0)) ops
         in fst (ip_recordRequest t' ip now) = False \<and> fst (ip_isBanned t' ip now) = True"
proof -
  let ?K = "set (jmap_keys (ip_banList t)) \<union> insert ip (ip_client ` set ops)" and ?t = "ip_sweep now0 t"
  let ?e = "now0 + ip_banTtl t"
  have w: "bans_within ?K ?t" using assms(1,4) by (intro bans_within_sweep) (auto simp: bans_within_def)
  have "jmap_get (ip_banList ?t) ip = None"
    using sweep_get [OF assms(1), of "\<lambda>expiry. now0 > expiry" ip] assms(2) by (auto simp: ip_sweep_def)
  then have r: "ip_recordRequest t ip now0 = ip_count_request ip now0 ?t" by (simp add: ip_recordRequest_def)
  have "ip_banTtl ?t = ip_banTtl t" by (simp add: ip_sweep_def)
  then have "bans_within ?K (snd (ip_recordRequest t ip now0))"
    "jmap_get (ip_banList (snd (ip_recordRequest t ip now0))) ip = Some ?e"
    using count_request_bans [OF w, of ip now0] assms(3) by (simp_all add: r jmap_get_touch)
  moreover have "ip_client ` set ops \<subseteq> ?K" by auto
  ultimately
  have "jmap_ok (ip_banList (foldl ip_step (snd (ip_recordRequest t ip now0)) ops))"
    and "jmap_get (ip_banList (foldl ip_step (snd (ip_recordRequest t ip now0)) ops)) ip = Some ?e"
    using run_keeps_ban [OF _ _ assms(5)] unfolding bans_within_def by blast+
  from banned_refused [OF this assms(6)] show ?thesis by (simp only: Let_def fst_conv simp_thms)
qed

theorem tracker_ban_holds_witness:
  "let t' = foldl ip_step (snd (ip_recordRequest (snd (ip_recordRequest (new_tracker (Some 1) (Some 2) (Some 50)) ''a'' 0)) ''a'' 10))
       [RecordRequest ''b'' 20, GetRequestCount ''a'' 30]
   in fst (ip_recordRequest t' ''a'' 60) = False \<and> fst (ip_isBanned t' ''a'' 60) = True"
  using tracker_ban_holds [of "snd (ip_recordRequest (new_tracker (Some 1) (Some 2) (Some 50)) ''a'' 0)" "''a''" 10
      "[RecordRequest ''b'' 20, GetRequestCount ''a'' 30]" 60]
  by (simp add: new_tracker_def ip_recordRequest_def ip_count_request_def ip_sweep_def ip_enforceCaps_def
      cap_loop.simps jmap_touch_def jmap_ok_def times_of_def active_def stale_def card_insert_if Let_def)

end
