(* ===== verification/Audit_Trail.thy ===== *)
theory Audit_Trail
  imports Js_Json Js_Bytes
begin

text \<open>
  The verifiable audit trail (\<open>verifiable-audit-trail/src/index.ts\<close> and \<open>incident-logger.ts\<close>): hashing
  of report files, anchoring on Stellar, verification of a report against one transaction, the
  command line, and the incident entries it emits.

  Code outside the repository is a field of \<open>World\<close>: the SHA-256 of Node's crypto module, the key
  handling, account loading and transaction submission of the Stellar SDK, the Horizon lookup (with
  its timeout, so that a lookup that does not answer is an error) and the file system. Reading a
  file has a time index: the verification reads the report before (0) and after (1) the lookup.
\<close>

section \<open>Data\<close>

datatype VerificationProtocol = MemoHash | LegacyMemoText

datatype VerificationFailureReason =
    ANCHOR_NOT_FOUND | TRANSACTION_FAILED | TRANSACTION_HASH_MISMATCH | ANCHOR_ACCOUNT_MISMATCH
  | MEMO_MISSING_OR_INVALID | HASH_MISMATCH | LEGACY_MEMO_DISABLED | REPORT_CHANGED_DURING_VERIFICATION

record HorizonTransactionRecord =
  ht_hash :: string
  ht_successful :: bool
  ht_source_account :: string
  ht_memo_type :: string
  ht_memo :: "string option"

record LookupError =
  le_response_status :: "int option"
  le_status :: "int option"
  le_message :: string

datatype Network = PUBLIC | TESTNET

record AnchorTransaction =
  tx_source :: string
  tx_destination :: string
  tx_amount :: string
  tx_fee :: string
  tx_network :: Network
  tx_memoHash :: string
  tx_timeout :: nat

record World =
  w_sha256 :: "nat list \<Rightarrow> nat list"
  w_read :: "nat \<Rightarrow> string \<Rightarrow> string + nat list"
  w_readdir :: "string \<Rightarrow> string + string list"
  w_publicKey :: "string \<Rightarrow> string option"
  w_fromSecret :: "string \<Rightarrow> string + string"
  w_lookup :: "string \<Rightarrow> int \<Rightarrow> LookupError + HorizonTransactionRecord"
  w_loadAccount :: "string \<Rightarrow> string option"
  w_submit :: "AnchorTransaction \<Rightarrow> string + string"
  w_HORIZON_TIMEOUT_MS :: "jsnum option"
  w_AUDIT_KEYPAIR_SECRET :: "string option"
  w_AUDIT_ANCHOR_ACCOUNT :: "string option"
  w_STELLAR_NETWORK :: "string option"

record VerifyReportOptions =
  vo_reportPath :: string
  vo_transactionHash :: string
  vo_expectedAnchorAccount :: string
  vo_allowLegacyMemoText :: bool
  vo_lookupTimeoutMs :: "jsnum option"

record VerificationSuccess =
  vs_protocol :: VerificationProtocol
  vs_reportPath :: string
  vs_transactionHash :: string
  vs_anchorAccount :: string
  vs_localHash :: string

record VerificationFailure =
  vf_reason :: VerificationFailureReason
  vf_detail :: string
  vf_reportPath :: string
  vf_transactionHash :: string
  vf_anchorAccount :: string
  vf_localHash :: string
  vf_anchoredHash :: "string option"

datatype VerificationResult = Accepted VerificationSuccess | Rejected VerificationFailure

section \<open>Hashes and memos\<close>

definition hashFile :: "World \<Rightarrow> nat \<Rightarrow> string \<Rightarrow> string + string" where
  "hashFile w i path = map_sum id (\<lambda>content. to_hex (w_sha256 w content)) (w_read w i path)"

definition is_hash64 :: "string \<Rightarrow> bool" where
  "is_hash64 s = (length s = 64 \<and> list_all is_hex s)"

definition assertSha256Hex :: "string \<Rightarrow> string + unit" where
  "assertSha256Hex hash = (if is_hash64 hash then Inr ()
     else Inl ''SHA-256 hash must be exactly 64 hexadecimal characters'')"

definition legacyMemoIdentifierFromSha256Hex :: "string \<Rightarrow> string + string" where
  "legacyMemoIdentifierFromSha256Hex hash =
     map_sum id (\<lambda>_. ''vero:'' @ take 22 hash) (assertSha256Hex hash)"

text \<open>The pattern of a legacy memo: lower-case hexadecimal digits only.\<close>

definition is_legacy_memo :: "string \<Rightarrow> bool" where
  "is_legacy_memo s = (startsWith s ''vero:'' \<and> length s = 27
     \<and> list_all (\<lambda>c. is_hex c \<and> lower_char c = c) (drop 5 s))"

definition decodeMemoHash :: "string option \<Rightarrow> string option" where
  "decodeMemoHash memo =
     (case memo of
        None \<Rightarrow> None
      | Some m \<Rightarrow>
          if m = [] \<or> \<not> (length m = 44 \<and> list_all is_b64 (take 43 m) \<and> drop 43 m = ''='') then None
          else (let bs = b64_decode m
                in if length bs \<noteq> 32 \<or> b64_encode bs \<noteq> m then None else Some (to_hex bs)))"

definition normalizeTransactionHash :: "string \<Rightarrow> string + string" where
  "normalizeTransactionHash h = (if is_hash64 h then Inr (toLowerCase h)
     else Inl ''Transaction hash must be exactly 64 hexadecimal characters'')"

definition normalizeAnchorAccount :: "World \<Rightarrow> string \<Rightarrow> string + string" where
  "normalizeAnchorAccount w account =
     (case w_publicKey w account of
        None \<Rightarrow> Inl ''Anchor account must be a valid Stellar public key''
      | Some k \<Rightarrow> Inr k)"

definition resolveHorizonTimeoutMs :: "World \<Rightarrow> jsnum option \<Rightarrow> string + int" where
  "resolveHorizonTimeoutMs w override =
     (let rawValue = (case override of
             Some t \<Rightarrow> t
           | None \<Rightarrow> (case w_HORIZON_TIMEOUT_MS w of Some t \<Rightarrow> t | None \<Rightarrow> Num 10000))
      in case rawValue of
           Num t \<Rightarrow> if t < 1 \<or> t > 120000
             then Inl ''HORIZON_TIMEOUT_MS must be an integer between 1 and 120000'' else Inr t
         | _ \<Rightarrow> Inl ''HORIZON_TIMEOUT_MS must be an integer between 1 and 120000'')"

definition resolveNetworkPassphrase :: "World \<Rightarrow> string + Network" where
  "resolveNetworkPassphrase w =
     (let network = (case w_STELLAR_NETWORK w of None \<Rightarrow> ''testnet'' | Some n \<Rightarrow> n)
      in if network = ''mainnet'' then Inr PUBLIC
         else if network = ''testnet'' then Inr TESTNET
         else Inl ''STELLAR_NETWORK must be either \"testnet\" or \"mainnet\"'')"

definition isNotFoundError :: "LookupError \<Rightarrow> bool" where
  "isNotFoundError e = (le_response_status e = Some 404 \<or> le_status e = Some 404)"

definition hashesMatch :: "string \<Rightarrow> string \<Rightarrow> bool" where
  "hashesMatch expectedHex actualHex =
     (let expected = buffer_from_hex expectedHex; actual = buffer_from_hex actualHex
      in length expected = length actual \<and> expected = actual)"

section \<open>Verification\<close>

definition verificationFailure ::
  "VerifyReportOptions \<Rightarrow> string \<Rightarrow> string \<Rightarrow> string \<Rightarrow> VerificationFailureReason \<Rightarrow> string \<Rightarrow> string option
   \<Rightarrow> VerificationResult" where
  "verificationFailure opts localHash transactionHash anchorAccount reason detail anchoredHash =
     Rejected \<lparr>vf_reason = reason, vf_detail = detail, vf_reportPath = vo_reportPath opts,
       vf_transactionHash = transactionHash, vf_anchorAccount = anchorAccount, vf_localHash = localHash,
       vf_anchoredHash = (if anchoredHash = Some [] then None else anchoredHash)\<rparr>"

definition verification_success ::
  "VerifyReportOptions \<Rightarrow> string \<Rightarrow> string \<Rightarrow> string \<Rightarrow> VerificationProtocol \<Rightarrow> VerificationResult" where
  "verification_success opts localHash transactionHash anchorAccount protocol =
     Accepted \<lparr>vs_protocol = protocol, vs_reportPath = vo_reportPath opts,
       vs_transactionHash = transactionHash, vs_anchorAccount = anchorAccount, vs_localHash = localHash\<rparr>"

text \<open>The decision on the memo of a transaction that passed the other checks.\<close>

definition verify_memo ::
  "VerifyReportOptions \<Rightarrow> string \<Rightarrow> string \<Rightarrow> string \<Rightarrow> HorizonTransactionRecord
   \<Rightarrow> string + VerificationResult" where
  "verify_memo opts localHash transactionHash anchorAccount t =
     (let fail = verificationFailure opts localHash transactionHash anchorAccount;
          ok = verification_success opts localHash transactionHash anchorAccount
      in if ht_memo_type t = ''hash'' then
           (case decodeMemoHash (ht_memo t) of
              None \<Rightarrow> Inr (fail MEMO_MISSING_OR_INVALID
                ''The transaction MEMO_HASH is missing or is not a canonical 32-byte Base64 value'' None)
            | Some anchoredHash \<Rightarrow>
                if anchoredHash = [] then Inr (fail MEMO_MISSING_OR_INVALID
                  ''The transaction MEMO_HASH is missing or is not a canonical 32-byte Base64 value'' None)
                else if \<not> hashesMatch localHash anchoredHash then Inr (fail HASH_MISMATCH
                  ''The local report SHA-256 does not match the anchored MEMO_HASH'' (Some anchoredHash))
                else Inr (ok MemoHash))
         else if ht_memo_type t = ''text''
                 \<and> is_legacy_memo (case ht_memo t of None \<Rightarrow> [] | Some m \<Rightarrow> m) then
           (if \<not> vo_allowLegacyMemoText opts then Inr (fail LEGACY_MEMO_DISABLED
              ''The transaction uses a truncated legacy MEMO_TEXT; opt in explicitly to verify it'' None)
            else (case legacyMemoIdentifierFromSha256Hex localHash of
                Inl e \<Rightarrow> Inl e
              | Inr expectedLegacyMemo \<Rightarrow>
                  if ht_memo t \<noteq> Some expectedLegacyMemo then Inr (fail HASH_MISMATCH
                    ''The local report hash prefix does not match the legacy anchored memo'' None)
                  else Inr (ok LegacyMemoText)))
         else Inr (fail MEMO_MISSING_OR_INVALID
           (''Unsupported or malformed transaction memo type: '' @ ht_memo_type t) None))"

text \<open>The checks once the transaction has been looked up and the report read again.\<close>

definition verify_transaction ::
  "VerifyReportOptions \<Rightarrow> string \<Rightarrow> string \<Rightarrow> string \<Rightarrow> string \<Rightarrow> HorizonTransactionRecord
   \<Rightarrow> string + VerificationResult" where
  "verify_transaction opts initialLocalHash localHash transactionHash anchorAccount t =
     (let fail = (\<lambda>reason detail. Inr (verificationFailure opts localHash transactionHash anchorAccount
                    reason detail None))
      in if \<not> hashesMatch initialLocalHash localHash then fail REPORT_CHANGED_DURING_VERIFICATION
           ''The local report changed while Horizon verification was in progress''
         else if \<not> ht_successful t then fail TRANSACTION_FAILED
           ''The referenced Stellar transaction was not successful''
         else if \<not> is_hash64 (ht_hash t) \<or> toLowerCase (ht_hash t) \<noteq> transactionHash then
           fail TRANSACTION_HASH_MISMATCH
             ''Horizon returned a transaction hash different from the requested hash''
         else if ht_source_account t \<noteq> anchorAccount then fail ANCHOR_ACCOUNT_MISMATCH
           (''Transaction source '' @ ht_source_account t @ '' does not match the trusted anchor account'')
         else verify_memo opts localHash transactionHash anchorAccount t)"

definition verifyReport :: "World \<Rightarrow> VerifyReportOptions \<Rightarrow> string + VerificationResult" where
  "verifyReport w opts =
     (case normalizeTransactionHash (vo_transactionHash opts) of
        Inl e \<Rightarrow> Inl e
      | Inr transactionHash \<Rightarrow>
      (case normalizeAnchorAccount w (vo_expectedAnchorAccount opts) of
        Inl e \<Rightarrow> Inl e
      | Inr anchorAccount \<Rightarrow>
      (case hashFile w 0 (vo_reportPath opts) of
        Inl e \<Rightarrow> Inl e
      | Inr initialLocalHash \<Rightarrow>
      (case resolveHorizonTimeoutMs w (vo_lookupTimeoutMs opts) of
        Inl e \<Rightarrow> Inl e
      | Inr timeoutMs \<Rightarrow>
      (case w_lookup w transactionHash timeoutMs of
        Inl e \<Rightarrow>
          if isNotFoundError e then
            Inr (verificationFailure opts initialLocalHash transactionHash anchorAccount ANCHOR_NOT_FOUND
              (''No Stellar transaction was found for '' @ transactionHash) None)
          else Inl (''Horizon transaction lookup failed: '' @ le_message e)
      | Inr t \<Rightarrow>
      (case hashFile w 1 (vo_reportPath opts) of
        Inl e \<Rightarrow> Inl e
      | Inr localHash \<Rightarrow>
          verify_transaction opts initialLocalHash localHash transactionHash anchorAccount t))))))"

section \<open>Anchoring\<close>

text \<open>The transactions submitted are returned with the outcome.\<close>

definition anchorHash :: "World \<Rightarrow> string \<Rightarrow> (string + string) \<times> AnchorTransaction list" where
  "anchorHash w hash =
     (case assertSha256Hex hash of
        Inl e \<Rightarrow> (Inl e, [])
      | Inr _ \<Rightarrow>
      (case (case w_AUDIT_KEYPAIR_SECRET w of None \<Rightarrow> [] | Some s \<Rightarrow> s) of
        [] \<Rightarrow> (Inl ''AUDIT_KEYPAIR_SECRET env var not set'', [])
      | c # cs \<Rightarrow>
      (case w_fromSecret w (c # cs) of
        Inl e \<Rightarrow> (Inl e, [])
      | Inr publicKey \<Rightarrow>
      (case (case w_AUDIT_ANCHOR_ACCOUNT w of
               Some (a # as) \<Rightarrow>
                 (case normalizeAnchorAccount w (a # as) of
                    Inl e \<Rightarrow> Some e
                  | Inr expected \<Rightarrow> if expected \<noteq> publicKey
                      then Some ''AUDIT_ANCHOR_ACCOUNT does not match AUDIT_KEYPAIR_SECRET'' else None)
             | _ \<Rightarrow> None) of
        Some e \<Rightarrow> (Inl e, [])
      | None \<Rightarrow>
      (case w_loadAccount w publicKey of
        Some e \<Rightarrow> (Inl e, [])
      | None \<Rightarrow>
      (case resolveNetworkPassphrase w of
        Inl e \<Rightarrow> (Inl e, [])
      | Inr network \<Rightarrow>
          (let tx = \<lparr>tx_source = publicKey, tx_destination = publicKey, tx_amount = ''0.0000001'',
                     tx_fee = ''100'', tx_network = network, tx_memoHash = hash, tx_timeout = 30\<rparr>
           in (w_submit w tx, [tx]))))))))"

text \<open>\<open>path.join(dir, file)\<close>, without the normalisation, which names the same file.\<close>

definition path_join :: "string \<Rightarrow> string \<Rightarrow> string" where
  "path_join dir file = dir @ ''/'' @ file"

fun anchor_files ::
  "World \<Rightarrow> string \<Rightarrow> string list \<Rightarrow> AnchorTransaction list \<Rightarrow> (string + unit) \<times> AnchorTransaction list" where
  "anchor_files w dir [] txs = (Inr (), txs)"
| "anchor_files w dir (file # files) txs =
     (case hashFile w 0 (path_join dir file) of
        Inl e \<Rightarrow> (Inl e, txs)
      | Inr hash \<Rightarrow>
          if (case w_AUDIT_KEYPAIR_SECRET w of None \<Rightarrow> [] | Some s \<Rightarrow> s) \<noteq> [] then
            (case anchorHash w hash of
               (Inl e, sent) \<Rightarrow> (Inl e, txs @ sent)
             | (Inr _, sent) \<Rightarrow> anchor_files w dir files (txs @ sent))
          else anchor_files w dir files txs)"

definition auditAndAnchor :: "World \<Rightarrow> string \<Rightarrow> (string + unit) \<times> AnchorTransaction list" where
  "auditAndAnchor w dir =
     (case w_readdir w dir of
        Inl e \<Rightarrow> (Inl e, [])
      | Inr entries \<Rightarrow>
          (let files = filter (\<lambda>f. endsWith f ''.json'') entries
           in if length files = 0 then (Inr (), []) else anchor_files w dir files []))"

section \<open>Incidents\<close>

datatype IncidentStatus = OPEN | ACKNOWLEDGED | RESOLVED

record SecurityIncidentInput =
  si_title :: string
  si_detail :: string
  si_severity :: Severity
  si_source :: string
  si_occurredAt :: "string option"
  si_metadata :: "(string \<times> jsval) list option"

record SecurityIncidentLogEntry =
  ie_id :: string
  ie_title :: string
  ie_detail :: string
  ie_severity :: Severity
  ie_source :: string
  ie_occurredAt :: string
  ie_loggedAt :: string
  ie_status :: IncidentStatus
  ie_fingerprint :: string
  ie_metadata :: "(string \<times> jsval) list"

definition requireText :: "string \<Rightarrow> string \<Rightarrow> string + string" where
  "requireText value field =
     (let trimmed = trim value in if trimmed = [] then Inl (field @ '' is required'') else Inr trimmed)"

definition fingerprint_payload ::
  "string \<Rightarrow> string \<Rightarrow> Severity \<Rightarrow> string \<Rightarrow> string \<Rightarrow> (string \<times> jsval) list \<Rightarrow> string" where
  "fingerprint_payload title detail severity source occurredAt metadata =
     json (JObject [(''title'', JString title), (''detail'', JString detail),
       (''severity'', JString (severity_name severity)), (''source'', JString source),
       (''occurredAt'', JString occurredAt), (''metadata'', JObject metadata)])"

definition buildFingerprint ::
  "(nat list \<Rightarrow> nat list) \<Rightarrow> string \<Rightarrow> string \<Rightarrow> Severity \<Rightarrow> string \<Rightarrow> string \<Rightarrow> (string \<times> jsval) list \<Rightarrow> string" where
  "buildFingerprint sha256 title detail severity source occurredAt metadata =
     to_hex (sha256 (utf8 (fingerprint_payload title detail severity source occurredAt metadata)))"

text \<open>\<open>now\<close> is a valid date, whose ISO text is always defined.\<close>

definition logSecurityIncident ::
  "(nat list \<Rightarrow> nat list) \<Rightarrow> int \<Rightarrow> SecurityIncidentInput \<Rightarrow> string + SecurityIncidentLogEntry" where
  "logSecurityIncident sha256 now incident =
     (case requireText (si_title incident) ''title'' of
        Inl e \<Rightarrow> Inl e
      | Inr title \<Rightarrow>
      (case requireText (si_detail incident) ''detail'' of
        Inl e \<Rightarrow> Inl e
      | Inr detail \<Rightarrow>
      (case requireText (si_source incident) ''source'' of
        Inl e \<Rightarrow> Inl e
      | Inr source \<Rightarrow>
          (let occurredAt = (case si_occurredAt incident of None \<Rightarrow> iso_date now | Some t \<Rightarrow> t);
               metadata = (case si_metadata incident of None \<Rightarrow> [] | Some m \<Rightarrow> m);
               fingerprint = buildFingerprint sha256 title detail (si_severity incident) source occurredAt metadata
           in Inr \<lparr>ie_id = ''ir_'' @ take 16 fingerprint, ie_title = title, ie_detail = detail,
                   ie_severity = si_severity incident, ie_source = source, ie_occurredAt = occurredAt,
                   ie_loggedAt = iso_date now, ie_status = OPEN, ie_fingerprint = fingerprint,
                   ie_metadata = metadata\<rparr>))))"

fun reason_name :: "VerificationFailureReason \<Rightarrow> string" where
  "reason_name ANCHOR_NOT_FOUND = ''ANCHOR_NOT_FOUND''"
| "reason_name TRANSACTION_FAILED = ''TRANSACTION_FAILED''"
| "reason_name TRANSACTION_HASH_MISMATCH = ''TRANSACTION_HASH_MISMATCH''"
| "reason_name ANCHOR_ACCOUNT_MISMATCH = ''ANCHOR_ACCOUNT_MISMATCH''"
| "reason_name MEMO_MISSING_OR_INVALID = ''MEMO_MISSING_OR_INVALID''"
| "reason_name HASH_MISMATCH = ''HASH_MISMATCH''"
| "reason_name LEGACY_MEMO_DISABLED = ''LEGACY_MEMO_DISABLED''"
| "reason_name REPORT_CHANGED_DURING_VERIFICATION = ''REPORT_CHANGED_DURING_VERIFICATION''"

text \<open>\<open>path.basename\<close>: the last segment, trailing separators ignored.\<close>

definition path_basename :: "string \<Rightarrow> string" where
  "path_basename p = last (split_on CHR ''/'' (rev (dropWhile (\<lambda>c. c = CHR ''/'') (rev p))))"

definition emitIntegrityIncident ::
  "(nat list \<Rightarrow> nat list) \<Rightarrow> int \<Rightarrow> VerificationFailure \<Rightarrow> string + SecurityIncidentLogEntry" where
  "emitIntegrityIncident sha256 now r =
     logSecurityIncident sha256 now
       \<lparr>si_title = ''Audit trail verification failed: '' @ reason_name (vf_reason r), si_detail = vf_detail r,
        si_severity = CRITICAL, si_source = ''verifiable-audit-trail'', si_occurredAt = None,
        si_metadata = Some ([(''report'', JString (path_basename (vf_reportPath r))),
          (''transactionHash'', JString (vf_transactionHash r)), (''anchorAccount'', JString (vf_anchorAccount r)),
          (''localHash'', JString (vf_localHash r))]
          @ (case vf_anchoredHash r of
               Some (c # cs) \<Rightarrow> [(''anchoredHash'', JString (c # cs))] | _ \<Rightarrow> []))\<rparr>"

section \<open>Command line\<close>

record VerifyCliArguments =
  va_reportPath :: string
  va_transactionHash :: string
  va_anchorAccount :: string
  va_allowLegacyMemoText :: bool

text \<open>The option loop; an argument that is missing is \<open>undefined\<close>, an unset option the empty
  text, which the code treats alike.\<close>

fun verify_options ::
  "string list \<Rightarrow> string \<Rightarrow> string \<Rightarrow> bool \<Rightarrow> string + (string \<times> string \<times> bool)" where
  "verify_options [] tx account legacy = Inr (tx, account, legacy)"
| "verify_options (argument # rest) tx account legacy =
     (if argument = ''--allow-legacy-memo-text'' then
        (if legacy then Inl ''--allow-legacy-memo-text was provided more than once''
         else verify_options rest tx account True)
      else if argument = ''--tx'' \<or> argument = ''--account'' then
        (case rest of
           [] \<Rightarrow> Inl (argument @ '' requires a value'')
         | value # rest' \<Rightarrow>
             if value = [] \<or> startsWith value ''--'' then Inl (argument @ '' requires a value'')
             else if argument = ''--tx'' then
               (if tx \<noteq> [] then Inl ''--tx was provided more than once''
                else verify_options rest' value account legacy)
             else
               (if account \<noteq> [] then Inl ''--account was provided more than once''
                else verify_options rest' tx value legacy))
      else Inl (''Unknown verify argument: '' @ argument))"

definition parseVerifyArguments :: "World \<Rightarrow> string list \<Rightarrow> string + VerifyCliArguments" where
  "parseVerifyArguments w args =
     (case args of
        [] \<Rightarrow> Inl ''verify requires a report file''
      | reportPath # rest \<Rightarrow>
          if reportPath = [] \<or> startsWith reportPath ''--'' then Inl ''verify requires a report file''
          else (case verify_options rest [] [] False of
             Inl e \<Rightarrow> Inl e
           | Inr (tx, account, legacy) \<Rightarrow>
               if tx = [] then Inl ''verify requires --tx <transaction-hash>''
               else (let configured = (case w_AUDIT_ANCHOR_ACCOUNT w of None \<Rightarrow> [] | Some a \<Rightarrow> a);
                         mismatch = (if account \<noteq> [] \<and> configured \<noteq> [] then
                           (case normalizeAnchorAccount w account of
                              Inl e \<Rightarrow> Some e
                            | Inr cliAccount \<Rightarrow> (case normalizeAnchorAccount w configured of
                                Inl e \<Rightarrow> Some e
                              | Inr environmentAccount \<Rightarrow> if cliAccount \<noteq> environmentAccount
                                  then Some ''--account does not match the configured AUDIT_ANCHOR_ACCOUNT''
                                  else None))
                           else None);
                         expected = (if account \<noteq> [] then account else configured)
                     in case mismatch of
                          Some e \<Rightarrow> Inl e
                        | None \<Rightarrow>
                            if expected = [] then Inl ''verify requires --account <G...> or AUDIT_ANCHOR_ACCOUNT''
                            else Inr \<lparr>va_reportPath = reportPath, va_transactionHash = tx,
                                      va_anchorAccount = expected, va_allowLegacyMemoText = legacy\<rparr>)))"

definition cli_options :: "jsnum option \<Rightarrow> VerifyCliArguments \<Rightarrow> VerifyReportOptions" where
  "cli_options lookupTimeoutMs a = \<lparr>vo_reportPath = va_reportPath a, vo_transactionHash = va_transactionHash a,
     vo_expectedAnchorAccount = va_anchorAccount a, vo_allowLegacyMemoText = va_allowLegacyMemoText a,
     vo_lookupTimeoutMs = lookupTimeoutMs\<rparr>"

record CliOutcome =
  cli_exit :: nat
  cli_incidents :: "SecurityIncidentLogEntry list"
  cli_submitted :: "AnchorTransaction list"

definition anchor_outcome :: "(string + unit) \<times> AnchorTransaction list \<Rightarrow> CliOutcome" where
  "anchor_outcome r = \<lparr>cli_exit = (case fst r of Inl _ \<Rightarrow> 1 | Inr _ \<Rightarrow> 0), cli_incidents = [], cli_submitted = snd r\<rparr>"

definition runCli :: "World \<Rightarrow> int \<Rightarrow> jsnum option \<Rightarrow> string list \<Rightarrow> CliOutcome" where
  "runCli w now lookupTimeoutMs args =
     (let fatal = \<lparr>cli_exit = 1, cli_incidents = [], cli_submitted = []\<rparr>
      in case args of
           [] \<Rightarrow> anchor_outcome (auditAndAnchor w ''../reports'')
         | command # rest \<Rightarrow>
             if command = ''anchor'' then
               (if length args \<noteq> 2 then fatal else anchor_outcome (auditAndAnchor w (hd rest)))
             else if command = ''verify'' then
               (case parseVerifyArguments w rest of
                  Inl e \<Rightarrow> fatal
                | Inr parsed \<Rightarrow>
                    (case verifyReport w (cli_options lookupTimeoutMs parsed) of
                       Inl e \<Rightarrow> fatal
                     | Inr (Rejected r) \<Rightarrow>
                         (case emitIntegrityIncident (w_sha256 w) now r of
                            Inl e \<Rightarrow> fatal
                          | Inr incident \<Rightarrow> \<lparr>cli_exit = 2, cli_incidents = [incident], cli_submitted = []\<rparr>)
                     | Inr (Accepted _) \<Rightarrow> \<lparr>cli_exit = 0, cli_incidents = [], cli_submitted = []\<rparr>))
             else if length args \<le> 1 then anchor_outcome (auditAndAnchor w command)
             else fatal)"

section \<open>Memos and hashes\<close>

lemma b64_encode_shape:
  "bytes bs \<Longrightarrow> length bs mod 3 = 2 \<Longrightarrow> \<exists>s. b64_encode bs = s @ ''='' \<and> list_all is_b64 s"
proof (induction bs rule: b64_encode.induct)
  case (4 a b c r)
  then obtain s where "b64_encode r = s @ ''=''" "list_all is_b64 s" by (auto simp: bytes_def)
  moreover have "a div 4 < 64" "a mod 4 * 16 + b div 16 < 64" "b mod 16 * 4 + c div 64 < 64" "c mod 64 < 64"
    using 4 by (auto simp: bytes_def)
  ultimately show ?case
    by (intro exI [of _ "[b64_char (a div 4), b64_char (a mod 4 * 16 + b div 16),
          b64_char (b mod 16 * 4 + c div 64), b64_char (c mod 64)] @ s"]) (simp add: is_b64_char)
next
  case (3 a b)
  then have "a div 4 < 64" "a mod 4 * 16 + b div 16 < 64" "b mod 16 * 4 < 64" by (auto simp: bytes_def)
  then show ?case by (simp add: is_b64_char)
qed (auto simp: bytes_def)

lemma decodeMemoHash_iff:
  "decodeMemoHash memo = Some h \<longleftrightarrow>
     (\<exists>bs. bytes bs \<and> length bs = 32 \<and> memo = Some (b64_encode bs) \<and> h = to_hex bs)"
proof
  assume "decodeMemoHash memo = Some h"
  then obtain m where "memo = Some m" "length (b64_decode m) = 32" "b64_encode (b64_decode m) = m"
    "h = to_hex (b64_decode m)"
    by (auto simp: decodeMemoHash_def Let_def split: option.splits if_splits)
  then show "\<exists>bs. bytes bs \<and> length bs = 32 \<and> memo = Some (b64_encode bs) \<and> h = to_hex bs"
    using bytes_decode by metis
next
  assume "\<exists>bs. bytes bs \<and> length bs = 32 \<and> memo = Some (b64_encode bs) \<and> h = to_hex bs"
  then obtain bs where bs: "bytes bs" "length bs = 32" "memo = Some (b64_encode bs)" "h = to_hex bs" by blast
  then obtain s where s: "b64_encode bs = s @ ''=''" "list_all is_b64 s"
    using b64_encode_shape [of bs] by auto
  have "length (b64_encode bs) = 44" using bs(2) by (simp add: b64_encode_length)
  then have "length s = 43" using s(1) by simp
  then show "decodeMemoHash memo = Some h"
    using bs s decode_encode [OF bs(1)] \<open>length (b64_encode bs) = 44\<close>
    by (simp add: decodeMemoHash_def Let_def)
qed

lemma hashesMatch_to_hex: "bytes bs \<Longrightarrow> bytes cs \<Longrightarrow> hashesMatch (to_hex bs) (to_hex cs) \<longleftrightarrow> bs = cs"
  by (auto simp: hashesMatch_def buffer_to_hex)

lemma is_hex_digit_char: "d < 16 \<Longrightarrow> is_hex (digit_char d)"
  by (simp add: is_hex_def)

lemma is_hash64_to_hex: "bytes bs \<Longrightarrow> length bs = 32 \<Longrightarrow> is_hash64 (to_hex bs)"
proof -
  have "bytes bs \<Longrightarrow> list_all is_hex (to_hex bs)" for bs
    by (induction bs) (auto simp: to_hex_def bytes_def is_hex_digit_char less_mult_imp_div_less)
  then show "bytes bs \<Longrightarrow> length bs = 32 \<Longrightarrow> is_hash64 (to_hex bs)"
    by (simp add: is_hash64_def length_to_hex)
qed

text \<open>What the code relies on of SHA-256: a digest is 32 bytes.\<close>

definition digests32 :: "World \<Rightarrow> bool" where
  "digests32 w \<longleftrightarrow> (\<forall>c. bytes (w_sha256 w c) \<and> length (w_sha256 w c) = 32)"

lemma hashFile_Inr:
  "hashFile w i path = Inr h \<longleftrightarrow> (\<exists>c. w_read w i path = Inr c \<and> h = to_hex (w_sha256 w c))"
  by (cases "w_read w i path") (auto simp: hashFile_def)

section \<open>What a verified report means\<close>

text \<open>The evidence behind an accepted report with the bytes \<open>content\<close>.\<close>

definition memo_evidence ::
  "World \<Rightarrow> VerifyReportOptions \<Rightarrow> VerificationProtocol \<Rightarrow> nat list \<Rightarrow> HorizonTransactionRecord \<Rightarrow> bool" where
  "memo_evidence w opts protocol content t \<longleftrightarrow>
     (case protocol of
        MemoHash \<Rightarrow> ht_memo_type t = ''hash'' \<and> ht_memo t = Some (b64_encode (w_sha256 w content))
      | LegacyMemoText \<Rightarrow> vo_allowLegacyMemoText opts \<and> ht_memo_type t = ''text''
          \<and> ht_memo t = Some (''vero:'' @ take 22 (to_hex (w_sha256 w content))))"

lemma verify_memo_accepted:
  assumes "digests32 w" and "verify_memo opts (to_hex (w_sha256 w content)) tx account t = Inr (Accepted r)"
  shows "memo_evidence w opts (vs_protocol r) content t"
proof -
  have d: "bytes (w_sha256 w content)" using assms(1) by (simp add: digests32_def)
  have h: "w_sha256 w content = bs"
    if "hashesMatch (to_hex (w_sha256 w content)) (to_hex bs)" "bytes bs" for bs
    using that d by (simp add: hashesMatch_to_hex)
  show ?thesis using assms(2)
    by (auto simp: verify_memo_def Let_def memo_evidence_def verificationFailure_def verification_success_def
        legacyMemoIdentifierFromSha256Hex_def assertSha256Hex_def decodeMemoHash_iff
        dest!: h split: if_splits option.splits sum.splits)
qed


text \<open>A concrete world: a constant digest, one account, one transaction anchored by it.\<close>

definition demo_digest :: "nat list" where
  "demo_digest = replicate 32 7"

definition demo_hash :: string where
  "demo_hash = replicate 64 CHR ''A''"

definition demo_tx :: HorizonTransactionRecord where
  "demo_tx = \<lparr>ht_hash = demo_hash, ht_successful = True, ht_source_account = ''GA'', ht_memo_type = ''hash'',
     ht_memo = Some (b64_encode demo_digest)\<rparr>"

definition demo_world :: World where
  "demo_world = \<lparr>w_sha256 = (\<lambda>_. demo_digest), w_read = (\<lambda>_ _. Inr [1, 2]), w_readdir = (\<lambda>_. Inr [''a.json'', ''b.txt'']),
     w_publicKey = (\<lambda>k. if k = ''GA'' then Some k else None), w_fromSecret = (\<lambda>_. Inr ''GA''),
     w_lookup = (\<lambda>_ _. Inr demo_tx), w_loadAccount = (\<lambda>_. None), w_submit = (\<lambda>_. Inr demo_hash),
     w_HORIZON_TIMEOUT_MS = None, w_AUDIT_KEYPAIR_SECRET = Some ''S'', w_AUDIT_ANCHOR_ACCOUNT = None,
     w_STELLAR_NETWORK = None\<rparr>"

definition demo_verify :: VerifyReportOptions where
  "demo_verify = \<lparr>vo_reportPath = ''r.json'', vo_transactionHash = demo_hash, vo_expectedAnchorAccount = ''GA'',
     vo_allowLegacyMemoText = False, vo_lookupTimeoutMs = None\<rparr>"

lemma demo_bytes: "bytes demo_digest" "length demo_digest = 32"
  by (simp_all add: demo_digest_def bytes_def list_all_iff)

lemma demo_digests32: "digests32 demo_world"
  by (simp add: digests32_def demo_world_def demo_bytes)

lemma demo_decoded: "decodeMemoHash (Some (b64_encode demo_digest)) = Some (to_hex demo_digest)"
  using demo_bytes by (auto simp: decodeMemoHash_iff)

lemma demo_accepted:
  "verifyReport demo_world demo_verify = Inr (Accepted \<lparr>vs_protocol = MemoHash, vs_reportPath = ''r.json'',
     vs_transactionHash = toLowerCase demo_hash, vs_anchorAccount = ''GA'', vs_localHash = to_hex demo_digest\<rparr>)"
proof -
  have 1: "is_hash64 demo_hash" by (simp add: is_hash64_def demo_hash_def is_hex_def digit_value_def list_all_iff)
  have 2: "to_hex demo_digest \<noteq> []" using length_to_hex [of demo_digest] demo_bytes by force
  show ?thesis
    by (simp add: 1 2 verifyReport_def demo_world_def demo_verify_def demo_tx_def demo_decoded normalizeTransactionHash_def
        normalizeAnchorAccount_def hashFile_def resolveHorizonTimeoutMs_def verify_transaction_def verify_memo_def
        hashesMatch_to_hex demo_bytes verification_success_def)
qed


section \<open>Anchoring and verifying fit together\<close>

lemma anchorHash_sent:
  assumes "anchorHash w hash = (Inr txid, txs)"
  shows "\<exists>key secret network. w_AUDIT_KEYPAIR_SECRET w = Some secret \<and> secret \<noteq> [] \<and> w_fromSecret w secret = Inr key
    \<and> is_hash64 hash
    \<and> txs = [\<lparr>tx_source = key, tx_destination = key, tx_amount = ''0.0000001'', tx_fee = ''100'',
              tx_network = network, tx_memoHash = hash, tx_timeout = 30\<rparr>]"
  using assms
  by (auto simp: anchorHash_def assertSha256Hex_def Let_def split: sum.splits list.splits option.splits if_splits)

text \<open>
  C26. Anchoring then verifying succeeds. When a report's hash was anchored, the report is unchanged, and
  Horizon returns the submitted transaction as it documents it (successful, under its hash, from
  its source account, the memo hash in Base64), verifying the report against that transaction and
  the anchoring account is accepted by the full-hash protocol.\<close>

theorem anchor_verify_roundtrip:
  assumes "digests32 w" and "hashFile w 0 path = Inr hash" and "hashFile w 1 path = Inr hash"
    and "anchorHash w hash = (Inr txid, [tx])" and "is_hash64 txid"
    and "w_publicKey w (tx_source tx) = Some (tx_source tx)"
    and "resolveHorizonTimeoutMs w timeout = Inr ms"
    and "w_lookup w (toLowerCase txid) ms = Inr \<lparr>ht_hash = txid, ht_successful = True,
           ht_source_account = tx_source tx, ht_memo_type = ''hash'',
           ht_memo = Some (b64_encode (buffer_from_hex (tx_memoHash tx)))\<rparr>"
  shows "verifyReport w \<lparr>vo_reportPath = path, vo_transactionHash = txid, vo_expectedAnchorAccount = tx_source tx,
           vo_allowLegacyMemoText = legacy, vo_lookupTimeoutMs = timeout\<rparr>
         = Inr (Accepted \<lparr>vs_protocol = MemoHash, vs_reportPath = path, vs_transactionHash = toLowerCase txid,
                  vs_anchorAccount = tx_source tx, vs_localHash = hash\<rparr>)"
proof -
  obtain c where h: "hash = to_hex (w_sha256 w c)" using assms(2) by (auto simp: hashFile_Inr)
  let ?d = "w_sha256 w c"
  have d: "bytes ?d" "length ?d = 32" using assms(1) by (auto simp: digests32_def)
  have m: "tx_memoHash tx = hash" using anchorHash_sent [OF assms(4)] by auto
  have ne: "to_hex ?d \<noteq> []" using length_to_hex [of ?d] d(2) by force
  have "decodeMemoHash (Some (b64_encode ?d)) = Some (to_hex ?d)" using d by (auto simp: decodeMemoHash_iff)
  then show ?thesis
    using assms(2,3,5-8) d ne
    by (simp add: verifyReport_def normalizeTransactionHash_def normalizeAnchorAccount_def m h buffer_to_hex
        verify_transaction_def verify_memo_def hashesMatch_to_hex verification_success_def)
qed

lemma demo_anchored:
  "anchorHash demo_world (to_hex demo_digest) = (Inr demo_hash, [\<lparr>tx_source = ''GA'', tx_destination = ''GA'',
     tx_amount = ''0.0000001'', tx_fee = ''100'', tx_network = TESTNET, tx_memoHash = to_hex demo_digest, tx_timeout = 30\<rparr>])"
  using is_hash64_to_hex [OF demo_bytes]
  by (simp add: anchorHash_def assertSha256Hex_def demo_world_def resolveNetworkPassphrase_def)

theorem anchor_verify_roundtrip_witness:
  "verifyReport demo_world \<lparr>vo_reportPath = ''r'', vo_transactionHash = demo_hash, vo_expectedAnchorAccount = ''GA'',
     vo_allowLegacyMemoText = True, vo_lookupTimeoutMs = None\<rparr>
   = Inr (Accepted \<lparr>vs_protocol = MemoHash, vs_reportPath = ''r'', vs_transactionHash = toLowerCase demo_hash,
       vs_anchorAccount = ''GA'', vs_localHash = to_hex demo_digest\<rparr>)"
proof -
  have 1: "is_hash64 demo_hash" by (simp add: is_hash64_def demo_hash_def is_hex_def digit_value_def list_all_iff)
  have 2: "hashFile demo_world i ''r'' = Inr (to_hex demo_digest)" for i
    by (simp add: hashFile_def demo_world_def)
  show ?thesis
    using anchor_verify_roundtrip [OF demo_digests32 2 2 demo_anchored 1, of None 10000 True]
    by (simp add: demo_world_def demo_tx_def resolveHorizonTimeoutMs_def buffer_to_hex demo_bytes)
qed

lemma anchor_files_sent:
  assumes "w_AUDIT_KEYPAIR_SECRET w = Some secret" and "secret \<noteq> []"
  shows "anchor_files w dir files txs = (Inr (), txs') \<Longrightarrow>
    \<exists>new. txs' = txs @ new \<and> list_all2 (\<lambda>f tx. hashFile w 0 (path_join dir f) = Inr (tx_memoHash tx)
      \<and> w_fromSecret w secret = Inr (tx_source tx)) files new"
proof (induction files arbitrary: txs)
  case (Cons f files)
  from Cons.prems assms obtain hash txid sent where
    h: "hashFile w 0 (path_join dir f) = Inr hash" and a: "anchorHash w hash = (Inr txid, sent)"
    and r: "anchor_files w dir files (txs @ sent) = (Inr (), txs')"
    by (auto split: sum.splits prod.splits if_splits)
  have "\<exists>tx. sent = [tx] \<and> tx_memoHash tx = hash \<and> w_fromSecret w secret = Inr (tx_source tx)"
    using anchorHash_sent [OF a] assms(1) by fastforce
  then obtain tx where "sent = [tx]" "tx_memoHash tx = hash" "w_fromSecret w secret = Inr (tx_source tx)"
    by blast
  moreover from Cons.IH [OF r] obtain new where "txs' = (txs @ sent) @ new"
    "list_all2 (\<lambda>f tx. hashFile w 0 (path_join dir f) = Inr (tx_memoHash tx)
      \<and> w_fromSecret w secret = Inr (tx_source tx)) files new" by blast
  ultimately show ?case using h by (intro exI [of _ "tx # new"]) simp
qed simp

text \<open>
  Anchoring a directory covers it. When it ends without an error and a key is configured, exactly one
  transaction was submitted per report of the directory, in directory order, each from the
  configured key and carrying the SHA-256 of that report, and nothing for other files.\<close>

theorem anchor_directory_complete:
  assumes "w_AUDIT_KEYPAIR_SECRET w = Some secret" and "secret \<noteq> []" and "w_readdir w dir = Inr entries"
    and "auditAndAnchor w dir = (Inr (), txs)"
  shows "list_all2 (\<lambda>f tx. hashFile w 0 (path_join dir f) = Inr (tx_memoHash tx)
           \<and> w_fromSecret w secret = Inr (tx_source tx)) (filter (\<lambda>f. endsWith f ''.json'') entries) txs"
proof (cases "filter (\<lambda>f. endsWith f ''.json'') entries = []")
  case True
  then show ?thesis using assms(3,4) by (simp add: auditAndAnchor_def)
next
  case False
  then have "anchor_files w dir (filter (\<lambda>f. endsWith f ''.json'') entries) [] = (Inr (), txs)"
    using assms(3,4) by (simp add: auditAndAnchor_def)
  from anchor_files_sent [OF assms(1,2) this] show ?thesis by simp
qed

theorem anchor_directory_complete_witness:
  "list_all2 (\<lambda>f tx. hashFile demo_world 0 (path_join ''d'' f) = Inr (tx_memoHash tx)
     \<and> w_fromSecret demo_world ''S'' = Inr (tx_source tx)) [''a.json''] (snd (auditAndAnchor demo_world ''d''))"
proof -
  have f: "filter (\<lambda>f. endsWith f ''.json'') [''a.json'', ''b.txt''] = [''a.json'']"
    by (simp add: endsWith_def startsWith_def)
  have h: "hashFile demo_world 0 p = Inr (to_hex demo_digest)" for p by (simp add: hashFile_def demo_world_def)
  have w: "w_AUDIT_KEYPAIR_SECRET demo_world = Some ''S''" "w_readdir demo_world ''d'' = Inr [''a.json'', ''b.txt'']"
    by (simp_all add: demo_world_def)
  have a: "auditAndAnchor demo_world ''d'' = (Inr (), snd (auditAndAnchor demo_world ''d''))"
    using f h w demo_anchored by (simp add: auditAndAnchor_def)
  show ?thesis using anchor_directory_complete [OF w(1) _ w(2) a] f by simp
qed

section \<open>The command line\<close>

lemma verify_memo_detail:
  "verify_memo opts l tx account t = Inr (Rejected r) \<Longrightarrow> trim (vf_detail r) \<noteq> []"
  by (auto simp: verify_memo_def verificationFailure_def verification_success_def Let_def trim_Nil_iff is_ws_def
      split: if_splits option.splits sum.splits)

lemma rejected_detail: "verifyReport w opts = Inr (Rejected r) \<Longrightarrow> trim (vf_detail r) \<noteq> []"
  by (auto simp: verifyReport_def verify_transaction_def verificationFailure_def Let_def trim_Nil_iff is_ws_def
      dest!: verify_memo_detail split: if_splits option.splits sum.splits)

lemma incident_of_failure:
  assumes "trim (vf_detail r) \<noteq> []"
  shows "\<exists>e. emitIntegrityIncident sha now r = Inr e \<and> ie_severity e = CRITICAL \<and> ie_status e = OPEN
    \<and> ie_title e = trim (''Audit trail verification failed: '' @ reason_name (vf_reason r))
    \<and> ie_source e = ''verifiable-audit-trail''"
proof -
  have "trim (''Audit trail verification failed: '' @ x) \<noteq> []" for x
    by (simp add: trim_Nil_iff is_ws_def)
  moreover have "trim ''verifiable-audit-trail'' = ''verifiable-audit-trail''" by (simp add: trim_def is_ws_def)
  ultimately show ?thesis using assms
    by (simp add: emitIntegrityIncident_def logSecurityIncident_def requireText_def Let_def)
qed

text \<open>
  The exit code of \<open>verify\<close> can be trusted: 0 exactly when the report was accepted, 2 exactly when it
  was rejected, and then exactly one open CRITICAL incident is emitted; any error ends in 1 with
  no incident. No transaction is ever submitted.\<close>

theorem cli_verify_exit:
  "let out = runCli w now timeout (''verify'' # args);
       result = (case parseVerifyArguments w args of
                   Inl e \<Rightarrow> Inl e | Inr a \<Rightarrow> verifyReport w (cli_options timeout a))
   in (cli_exit out = 0 \<longleftrightarrow> (\<exists>r. result = Inr (Accepted r)))
    \<and> (cli_exit out = 2 \<longleftrightarrow> (\<exists>r. result = Inr (Rejected r)))
    \<and> (cli_exit out = 1 \<longleftrightarrow> (\<exists>e. result = Inl e))
    \<and> length (cli_incidents out) = (if cli_exit out = 2 then 1 else 0)
    \<and> list_all (\<lambda>e. ie_severity e = CRITICAL \<and> ie_status e = OPEN) (cli_incidents out)
    \<and> cli_submitted out = []"
proof (cases "parseVerifyArguments w args")
  case (Inl e)
  then show ?thesis by (simp add: runCli_def)
next
  case (Inr a)
  show ?thesis
  proof (cases "verifyReport w (cli_options timeout a)")
    case (Inl e)
    then show ?thesis using Inr by (simp add: runCli_def)
  next
    case r: (Inr result)
    show ?thesis
    proof (cases result)
      case (Accepted s)
      then show ?thesis using Inr r by (simp add: runCli_def)
    next
      case (Rejected f)
      then have "trim (vf_detail f) \<noteq> []" using r rejected_detail by simp
      from incident_of_failure [OF this, of "w_sha256 w" now] show ?thesis
        using Inr r Rejected by (auto simp: runCli_def)
    qed
  qed
qed

text \<open>The options of \<open>verify\<close> read back what was written, when no account is configured.\<close>

definition render_verify :: "VerifyCliArguments \<Rightarrow> string list" where
  "render_verify a = [va_reportPath a, ''--tx'', va_transactionHash a, ''--account'', va_anchorAccount a]
     @ (if va_allowLegacyMemoText a then [''--allow-legacy-memo-text''] else [])"

lemma verify_arguments_roundtrip:
  assumes "\<forall>v \<in> {va_reportPath a, va_transactionHash a, va_anchorAccount a}. v \<noteq> [] \<and> \<not> startsWith v ''--''"
    and "w_AUDIT_ANCHOR_ACCOUNT w = None"
  shows "parseVerifyArguments w (render_verify a) = Inr a"
  using assms by (cases a) (auto simp: parseVerifyArguments_def render_verify_def Let_def)

end
