(* ===== verification/Gas_Batch.thy ===== *)
theory Gas_Batch
  imports Js_Json Js_Bytes "HOL-Library.Multiset"
begin

text \<open>
  Gas simulation (\<open>src/audit-guard/src/gas-profiler.ts\<close>) and the batch processor on top of it
  (\<open>src/audit-guard/src/batch-contract-call-processor.ts\<close>). Inputs of type \<open>unknown\<close> are values of
  type \<open>jsval\<close>; numbers are integers, \<open>NaN\<close> or infinite. The worker pool is a step relation over
  all interleavings of its workers, and the executable pool follows one of them. The SHA-256 of
  Node's crypto module and an injected profiler are arguments.
\<close>

section \<open>GasProfiler\<close>

record GasBreakdown =
  gb_baseFee :: jsnum
  gb_signaturesFee :: jsnum
  gb_operationsFee :: jsnum
  gb_payloadFee :: jsnum

record GasProfileResult =
  gr_ok :: bool
  gr_totalGas :: jsnum
  gr_breakdown :: GasBreakdown
  gr_severity :: Severity
  gr_warnings :: "string list"
  gr_error :: "string option"

definition BASE_FEE :: int where "BASE_FEE = 100"
definition FEE_PER_SIGNATURE :: int where "FEE_PER_SIGNATURE = 500"
definition FEE_PER_BYTE :: int where "FEE_PER_BYTE = 2"
definition MAX_GAS_LIMIT :: int where "MAX_GAS_LIMIT = 10000000"

lemmas gas_constants = BASE_FEE_def FEE_PER_SIGNATURE_def FEE_PER_BYTE_def MAX_GAS_LIMIT_def

definition complexity_fee :: "jsval \<Rightarrow> int" where
  "complexity_fee complexity =
     (if complexity = JString ''MEDIUM'' then 500 else if complexity = JString ''HIGH'' then 2000 else 100)"

definition createErrorResult :: "string \<Rightarrow> GasProfileResult" where
  "createErrorResult e = \<lparr>gr_ok = False, gr_totalGas = Num 0,
     gr_breakdown = \<lparr>gb_baseFee = Num 0, gb_signaturesFee = Num 0, gb_operationsFee = Num 0, gb_payloadFee = Num 0\<rparr>,
     gr_severity = LOW, gr_warnings = [], gr_error = Some e\<rparr>"

text \<open>A value the code accepts as a non-negative number: \<open>NaN\<close> is not below zero.\<close>

definition accepted_number :: "jsval \<Rightarrow> jsnum option" where
  "accepted_number v = (case v of JNumber x \<Rightarrow> if js_gt (Num 0) x then None else Some x | _ \<Rightarrow> None)"

fun fees :: "jsval list \<Rightarrow> jsnum \<Rightarrow> jsnum \<Rightarrow> string + jsnum \<times> jsnum" where
  "fees [] operationsFee payloadFee = Inr (operationsFee, payloadFee)"
| "fees (op # ops) operationsFee payloadFee =
     (if \<not> is_object op then Inl ''Invalid operation: must be an object''
      else (case accepted_number (js_get op ''payloadSize'') of
         None \<Rightarrow> Inl ''Invalid operation: payloadSize must be a non-negative number''
       | Some payloadSize \<Rightarrow>
           fees ops (js_add operationsFee (Num (complexity_fee (js_get op ''complexity''))))
             (js_add payloadFee (js_scale FEE_PER_BYTE payloadSize))))"

definition gas_severity :: "jsnum \<Rightarrow> Severity \<times> string list" where
  "gas_severity totalGas =
     (if js_gt totalGas (Num MAX_GAS_LIMIT) then
        (CRITICAL, [''Total gas ('' @ show_num totalGas @ '') exceeds maximum limit ('' @ show_int MAX_GAS_LIMIT @ '')''])
      else if js_gt totalGas (Num 8000000) then
        (HIGH, [''Total gas is dangerously close to the maximum limit (over 80%)''])
      else if js_gt totalGas (Num 5000000) then
        (MEDIUM, [''Total gas is moderately high (over 50% of limit)''])
      else (LOW, []))"

definition simulate :: "jsval \<Rightarrow> GasProfileResult" where
  "simulate request =
     (if \<not> is_object request then createErrorResult ''Invalid request: must be an object''
      else (case js_get request ''operations'' of
         JArray ops \<Rightarrow>
           (case accepted_number (js_get request ''signaturesCount'') of
              None \<Rightarrow> createErrorResult ''Invalid request: signaturesCount must be a non-negative number''
            | Some signaturesCount \<Rightarrow>
                (case fees ops (Num 0) (Num 0) of
                   Inl e \<Rightarrow> createErrorResult e
                 | Inr (operationsFee, payloadFee) \<Rightarrow>
                     (let signaturesFee = js_scale FEE_PER_SIGNATURE signaturesCount;
                          totalGas = js_add (js_add (js_add (Num BASE_FEE) signaturesFee) operationsFee) payloadFee;
                          (severity, warnings) = gas_severity totalGas
                      in \<lparr>gr_ok = True, gr_totalGas = totalGas,
                          gr_breakdown = \<lparr>gb_baseFee = Num BASE_FEE, gb_signaturesFee = signaturesFee,
                            gb_operationsFee = operationsFee, gb_payloadFee = payloadFee\<rparr>,
                          gr_severity = severity,
                          gr_warnings = warnings @ (if js_gt signaturesCount (Num 10)
                            then [''High number of signatures detected, which increases transaction size and cost'']
                            else []),
                          gr_error = None\<rparr>)))
       | _ \<Rightarrow> createErrorResult ''Invalid request: operations must be an array''))"

section \<open>The worker pool\<close>

text \<open>
  \<open>processWithConcurrency\<close>: each worker, while the shared counter is below the number of tasks,
  takes the next index and runs that task. A worker is idle (\<open>None\<close>) between tasks and holds an
  index while it awaits one; what a task returns is its entry in \<open>tasks\<close>.
\<close>

record 'a Pool =
  pl_next :: nat
  pl_workers :: "nat option list"
  pl_results :: "'a option list"

definition pool_init :: "nat \<Rightarrow> 'a list \<Rightarrow> 'a Pool" where
  "pool_init maxConcurrency tasks = \<lparr>pl_next = 0,
     pl_workers = replicate (min maxConcurrency (length tasks)) None,
     pl_results = replicate (length tasks) None\<rparr>"

definition pool_start :: "nat \<Rightarrow> 'a Pool \<Rightarrow> 'a Pool" where
  "pool_start w s = s\<lparr>pl_next := Suc (pl_next s), pl_workers := (pl_workers s)[w := Some (pl_next s)]\<rparr>"

definition pool_finish :: "'a list \<Rightarrow> nat \<Rightarrow> nat \<Rightarrow> 'a Pool \<Rightarrow> 'a Pool" where
  "pool_finish tasks w i s = s\<lparr>pl_workers := (pl_workers s)[w := None],
     pl_results := (pl_results s)[i := Some (tasks ! i)]\<rparr>"

inductive pool_step :: "'a list \<Rightarrow> 'a Pool \<Rightarrow> 'a Pool \<Rightarrow> bool" for tasks where
  start: "w < length (pl_workers s) \<Longrightarrow> pl_workers s ! w = None \<Longrightarrow> pl_next s < length tasks
    \<Longrightarrow> pool_step tasks s (pool_start w s)"
| finish: "w < length (pl_workers s) \<Longrightarrow> pl_workers s ! w = Some i
    \<Longrightarrow> pool_step tasks s (pool_finish tasks w i s)"

inductive_cases pool_stepE: "pool_step tasks s t"

text \<open>One schedule: the first idle worker takes a task while there is one, then the first busy
  worker finishes.\<close>

fun first_worker :: "(nat option \<Rightarrow> bool) \<Rightarrow> nat \<Rightarrow> nat option list \<Rightarrow> nat option" where
  "first_worker p w [] = None"
| "first_worker p w (x # xs) = (if p x then Some w else first_worker p (Suc w) xs)"

definition pool_next :: "'a list \<Rightarrow> 'a Pool \<Rightarrow> 'a Pool option" where
  "pool_next tasks s =
     (case (if pl_next s < length tasks then first_worker (\<lambda>x. x = None) 0 (pl_workers s) else None) of
        Some w \<Rightarrow> Some (pool_start w s)
      | None \<Rightarrow>
          (case first_worker (\<lambda>x. x \<noteq> None) 0 (pl_workers s) of
             Some w \<Rightarrow> (case pl_workers s ! w of Some i \<Rightarrow> Some (pool_finish tasks w i s) | None \<Rightarrow> None)
           | None \<Rightarrow> None))"

fun pool_run :: "nat \<Rightarrow> 'a list \<Rightarrow> 'a Pool \<Rightarrow> 'a Pool" where
  "pool_run 0 tasks s = s"
| "pool_run (Suc fuel) tasks s = (case pool_next tasks s of None \<Rightarrow> s | Some t \<Rightarrow> pool_run fuel tasks t)"

text \<open>
  \<open>Math.min(maxConcurrency, tasks.length)\<close> workers, none when that is \<open>NaN\<close>. Every task is taken and finished once, so
  twice their number of steps is enough fuel.\<close>

definition worker_count :: "jsnum \<Rightarrow> nat \<Rightarrow> nat" where
  "worker_count maxConcurrency n =
     (case maxConcurrency of Num c \<Rightarrow> min (nat c) n | JInf \<Rightarrow> n | JNaN \<Rightarrow> 0 | JNegInf \<Rightarrow> 0)"

definition processWithConcurrency :: "'a list \<Rightarrow> jsnum \<Rightarrow> 'a option list" where
  "processWithConcurrency tasks maxConcurrency =
     pl_results (pool_run (2 * length tasks) tasks (pool_init (worker_count maxConcurrency (length tasks)) tasks))"

section \<open>BatchContractCallProcessor\<close>

record BatchProcessor =
  bp_maxConcurrency :: jsnum
  bp_maxPayloadBytes :: jsnum
  bp_gasProfiler :: "jsval \<Rightarrow> string + GasProfileResult"

text \<open>\<open>Math.max(1, x)\<close>, which \<open>NaN\<close> passes. Numbers are whole; a fraction gives as many workers as the integer below it.\<close>

definition at_least_one :: "jsnum \<Rightarrow> jsnum" where
  "at_least_one x = (case x of Num n \<Rightarrow> Num (max 1 n) | JNegInf \<Rightarrow> Num 1 | JInf \<Rightarrow> JInf | JNaN \<Rightarrow> JNaN)"

definition new_processor ::
  "jsnum option \<Rightarrow> jsnum option \<Rightarrow> (jsval \<Rightarrow> string + GasProfileResult) option \<Rightarrow> BatchProcessor" where
  "new_processor maxConcurrency maxPayloadBytes gasProfiler =
     \<lparr>bp_maxConcurrency = at_least_one (case maxConcurrency of None \<Rightarrow> Num 5 | Some c \<Rightarrow> c),
      bp_maxPayloadBytes = at_least_one (case maxPayloadBytes of None \<Rightarrow> Num 65536 | Some b \<Rightarrow> b),
      bp_gasProfiler = (case gasProfiler of None \<Rightarrow> (\<lambda>rq. Inr (simulate rq)) | Some p \<Rightarrow> p)\<rparr>"

record BatchEntryResult =
  be_ok :: bool
  be_index :: nat
  be_address :: jsval
  be_method :: jsval
  be_gasResult :: "GasProfileResult option"
  be_warnings :: "string list"
  be_error :: "string option"

record BatchResult =
  bt_ok :: bool
  bt_entries :: "BatchEntryResult list"
  bt_totalProcessed :: nat
  bt_successCount :: nat
  bt_failureCount :: nat
  bt_integrityHash :: string
  bt_error :: "string option"

definition fingerprint :: "jsval \<Rightarrow> string" where
  "fingerprint d = js_String (js_get d ''address'') @ ''::'' @ js_String (js_get d ''method'')
     @ ''::'' @ js_String (js_get d ''payload'')"

text \<open>Whether the three parts can be printed.\<close>

definition fingerprintable :: "jsval \<Rightarrow> bool" where
  "fingerprintable d = (printable (js_get d ''address'') \<and> printable (js_get d ''method'') \<and> printable (js_get d ''payload''))"

definition validateDescriptor :: "BatchProcessor \<Rightarrow> jsval \<Rightarrow> string option" where
  "validateDescriptor p d =
     (if \<not> is_object d then Some ''INVALID_DESCRIPTOR''
      else if is_nullish (js_get d ''address'') then Some ''INVALID_DESCRIPTOR''
      else if is_nullish (js_get d ''method'') then Some ''INVALID_DESCRIPTOR''
      else if is_nullish (js_get d ''payload'') then Some ''INVALID_DESCRIPTOR''
      else (case js_get d ''payloadSizeBytes'' of
              JNumber x \<Rightarrow> if js_gt x (bp_maxPayloadBytes p) then Some ''PAYLOAD_TOO_LARGE'' else None
            | _ \<Rightarrow> None))"

text \<open>The map of fingerprints to indices, then the indices of the fingerprints met more than once.\<close>

fun fingerprint_indices ::
  "nat \<Rightarrow> jsval list \<Rightarrow> (string, nat list) jmap \<Rightarrow> (string, nat list) jmap" where
  "fingerprint_indices i [] m = m"
| "fingerprint_indices i (entry # batch) m =
     (if is_object entry then
        (let fp = fingerprint entry;
             existing = (case jmap_get m fp of None \<Rightarrow> [] | Some is \<Rightarrow> is)
         in fingerprint_indices (Suc i) batch (jmap_set fp (existing @ [i]) m))
      else fingerprint_indices (Suc i) batch m)"

definition duplicateIndices :: "jsval list \<Rightarrow> nat list" where
  "duplicateIndices batch =
     concat (map snd (filter (\<lambda>(fp, is). length is > 1) (fingerprint_indices 0 batch [])))"

definition processEntry :: "BatchProcessor \<Rightarrow> jsval \<Rightarrow> nat \<Rightarrow> bool \<Rightarrow> BatchEntryResult" where
  "processEntry p descriptor index isDuplicate =
     (let warnings = (if isDuplicate then [''DUPLICATE_DETECTED''] else []);
          signaturesCount = js_get descriptor ''signaturesCount'';
          request = JObject
            [(''operations'', JArray [JObject [(''type'', js_get descriptor ''method''),
                (''payloadSize'', js_get descriptor ''payloadSizeBytes'')]]),
             (''signaturesCount'', if is_nullish signaturesCount then JNumber (Num 1) else signaturesCount)]
      in case bp_gasProfiler p request of
           Inl msg \<Rightarrow> \<lparr>be_ok = False, be_index = index, be_address = JUndefined, be_method = JUndefined,
             be_gasResult = None, be_warnings = warnings, be_error = Some (''PROFILER_ERROR: '' @ msg)\<rparr>
         | Inr gasResult \<Rightarrow>
             if gr_severity gasResult = CRITICAL then
               \<lparr>be_ok = False, be_index = index, be_address = js_get descriptor ''address'',
                be_method = js_get descriptor ''method'', be_gasResult = Some gasResult,
                be_warnings = warnings, be_error = Some ''GAS_LIMIT_EXCEEDED''\<rparr>
             else
               \<lparr>be_ok = gr_ok gasResult, be_index = index, be_address = js_get descriptor ''address'',
                be_method = js_get descriptor ''method'', be_gasResult = Some gasResult,
                be_warnings = warnings, be_error = gr_error gasResult\<rparr>)"

text \<open>The results as objects, for the integrity hash; fields that are not set are \<open>undefined\<close>.\<close>

definition opt_string :: "string option \<Rightarrow> jsval" where
  "opt_string x = (case x of None \<Rightarrow> JUndefined | Some s \<Rightarrow> JString s)"

definition gas_object :: "GasProfileResult \<Rightarrow> jsval" where
  "gas_object g = JObject [(''ok'', JBool (gr_ok g)), (''totalGas'', JNumber (gr_totalGas g)),
     (''breakdown'', JObject [(''baseFee'', JNumber (gb_baseFee (gr_breakdown g))),
        (''signaturesFee'', JNumber (gb_signaturesFee (gr_breakdown g))),
        (''operationsFee'', JNumber (gb_operationsFee (gr_breakdown g))),
        (''payloadFee'', JNumber (gb_payloadFee (gr_breakdown g)))]),
     (''severity'', JString (severity_name (gr_severity g))),
     (''warnings'', JArray (map JString (gr_warnings g))), (''error'', opt_string (gr_error g))]"

definition entry_object :: "BatchEntryResult \<Rightarrow> jsval" where
  "entry_object e = JObject [(''ok'', JBool (be_ok e)), (''index'', JNumber (Num (int (be_index e)))),
     (''address'', be_address e), (''method'', be_method e),
     (''gasResult'', case be_gasResult e of None \<Rightarrow> JUndefined | Some g \<Rightarrow> gas_object g),
     (''warnings'', JArray (map JString (be_warnings e))), (''error'', opt_string (be_error e))]"

text \<open>The replacer: every object is rebuilt with its keys in sorted order, at every depth.\<close>

fun sort_keys :: "jsval \<Rightarrow> jsval" where
  "sort_keys (JArray vs) = JArray (map sort_keys vs)"
| "sort_keys (JObject ps) = JObject (sort_key fst (map (\<lambda>(k, v). (k, sort_keys v)) ps))"
| "sort_keys v = v"

definition computeIntegrityHash :: "(nat list \<Rightarrow> nat list) \<Rightarrow> BatchEntryResult list \<Rightarrow> string" where
  "computeIntegrityHash sha256 entries =
     to_hex (sha256 (utf8 (json (sort_keys (JArray (map entry_object entries))))))"

text \<open>The entry slots: a validation failure is recorded at once, the other entries are queued as
  (slot, result of its task).\<close>

fun fill_slots ::
  "BatchProcessor \<Rightarrow> nat list \<Rightarrow> nat \<Rightarrow> jsval list
   \<Rightarrow> BatchEntryResult option list \<times> (nat \<times> BatchEntryResult) list" where
  "fill_slots p dups i [] = ([], [])"
| "fill_slots p dups i (entry # batch) =
     (case fill_slots p dups (Suc i) batch of (slots, tasks) \<Rightarrow>
        (case validateDescriptor p entry of
           Some e \<Rightarrow>
             (Some \<lparr>be_ok = False, be_index = i, be_address = JUndefined, be_method = JUndefined,
                be_gasResult = None, be_warnings = (if i \<in> set dups then [''DUPLICATE_DETECTED''] else []),
                be_error = Some e\<rparr> # slots, tasks)
         | None \<Rightarrow> (None # slots, (i, processEntry p entry i (i \<in> set dups)) # tasks)))"

fun place_results ::
  "(nat \<times> 'a option) list \<Rightarrow> 'a option list \<Rightarrow> 'a option list" where
  "place_results [] slots = slots"
| "place_results ((i, r) # rs) slots = place_results rs (slots[i := r])"

text \<open>
  The result, or \<open>None\<close> when it throws: on an object whose fingerprint cannot be printed, before anything else is done,
  and in the counting when a slot is not filled.\<close>

definition batch_result ::
  "(nat list \<Rightarrow> nat list) \<Rightarrow> BatchEntryResult list \<Rightarrow> BatchResult" where
  "batch_result sha256 entries =
     \<lparr>bt_ok = True, bt_entries = entries, bt_totalProcessed = length entries,
      bt_successCount = length (filter be_ok entries), bt_failureCount = length (filter (\<lambda>e. \<not> be_ok e) entries),
      bt_integrityHash = computeIntegrityHash sha256 entries, bt_error = None\<rparr>"

definition process :: "(nat list \<Rightarrow> nat list) \<Rightarrow> BatchProcessor \<Rightarrow> jsval \<Rightarrow> BatchResult option" where
  "process sha256 p input =
     (case input of
        JArray [] \<Rightarrow> Some \<lparr>bt_ok = True, bt_entries = [], bt_totalProcessed = 0, bt_successCount = 0,
          bt_failureCount = 0, bt_integrityHash = computeIntegrityHash sha256 [], bt_error = None\<rparr>
      | JArray batch \<Rightarrow>
          if list_ex (\<lambda>entry. is_object entry \<and> \<not> fingerprintable entry) batch then None
          else (case fill_slots p (duplicateIndices batch) 0 batch of (slots, tasks) \<Rightarrow>
             (let entrySlots = (if length tasks > 0
                    then place_results (zip (map fst tasks)
                           (processWithConcurrency (map snd tasks) (bp_maxConcurrency p))) slots
                    else slots)
              in if None \<in> set entrySlots then None else Some (batch_result sha256 (map the entrySlots))))
      | _ \<Rightarrow> Some \<lparr>bt_ok = False, bt_entries = [], bt_totalProcessed = 0, bt_successCount = 0,
          bt_failureCount = 0, bt_integrityHash = computeIntegrityHash sha256 [],
          bt_error = Some ''INVALID_INPUT: batch must be an array''\<rparr>)"

section \<open>Every schedule of the pool gives the same results\<close>

text \<open>Indices below the counter are finished or held by exactly one worker; the others are open.\<close>

definition pool_inv :: "nat \<Rightarrow> 'a list \<Rightarrow> 'a Pool \<Rightarrow> bool" where
  "pool_inv n tasks s \<longleftrightarrow> length (pl_workers s) = n \<and> length (pl_results s) = length tasks
     \<and> pl_next s \<le> length tasks
     \<and> (\<forall>i < length tasks. pl_results s ! i =
          (if i < pl_next s \<and> Some i \<notin> set (pl_workers s) then Some (tasks ! i) else None))
     \<and> (\<forall>i. Some i \<in> set (pl_workers s) \<longrightarrow> i < pl_next s)
     \<and> (\<forall>v < n. \<forall>w < n. pl_workers s ! v = pl_workers s ! w \<longrightarrow> pl_workers s ! v \<noteq> None \<longrightarrow> v = w)"

lemma pool_inv_init: "pool_inv (min c (length tasks)) tasks (pool_init c tasks)"
  by (simp add: pool_inv_def pool_init_def)

lemma in_set_update:
  assumes "w < length xs"
  shows "y \<in> set (xs[w := z]) \<longleftrightarrow> y = z \<or> (\<exists>v < length xs. v \<noteq> w \<and> xs ! v = y)"
  using assms by (auto simp: in_set_conv_nth nth_list_update)

lemma pool_inv_start:
  assumes "pool_inv n tasks s" and "w < length (pl_workers s)" and "pl_workers s ! w = None" and "pl_next s < length tasks"
  shows "pool_inv n tasks (pool_start w s)"
proof -
  let ?ws = "pl_workers s" and ?k = "pl_next s"
  have i: "Some i \<in> set (?ws[w := Some ?k]) \<longleftrightarrow> i = ?k \<or> Some i \<in> set ?ws" for i
    unfolding in_set_update [OF assms(2)] using assms(3) by (metis in_set_conv_nth option.distinct(1) option.inject)
  have k: "Some ?k \<notin> set ?ws" using assms(1) by (auto simp: pool_inv_def)
  have r: "pl_results s ! i = (if i < Suc ?k \<and> Some i \<notin> set (?ws[w := Some ?k]) then Some (tasks ! i) else None)"
    if "i < length tasks" for i
    using assms(1) that unfolding pool_inv_def i by (auto simp: less_Suc_eq)
  have d: "u = v" if "u < n" "v < n" "?ws[w := Some ?k] ! u = ?ws[w := Some ?k] ! v" "?ws[w := Some ?k] ! u \<noteq> None" for u v
    using that k assms(1,2) unfolding pool_inv_def
    by (auto simp: nth_list_update in_set_conv_nth split: if_splits)
  show ?thesis using assms(1,4) r d i unfolding pool_inv_def pool_start_def by (auto simp: less_Suc_eq)
qed

lemma pool_inv_finish:
  assumes "pool_inv n tasks s" and "w < length (pl_workers s)" and "pl_workers s ! w = Some j"
  shows "pool_inv n tasks (pool_finish tasks w j s)"
proof -
  let ?ws = "pl_workers s"
  have j: "j < pl_next s" using assms by (auto simp: pool_inv_def in_set_conv_nth)
  have dist: "v = w" if "v < length ?ws" "?ws ! v = Some j" for v
    using assms that unfolding pool_inv_def by (metis option.distinct(1))
  have i: "Some i \<in> set (?ws[w := None]) \<longleftrightarrow> i \<noteq> j \<and> Some i \<in> set ?ws" for i
    unfolding in_set_update [OF assms(2)] using assms(3) dist
    by (metis in_set_conv_nth option.distinct(1) option.inject)
  have r: "(pl_results s)[j := Some (tasks ! j)] ! i
      = (if i < pl_next s \<and> Some i \<notin> set (?ws[w := None]) then Some (tasks ! i) else None)"
    if "i < length tasks" for i
    using assms(1) that j unfolding pool_inv_def i by (auto simp: nth_list_update)
  have d: "u = v" if "u < n" "v < n" "?ws[w := None] ! u = ?ws[w := None] ! v" "?ws[w := None] ! u \<noteq> None" for u v
    using that assms(1,2) unfolding pool_inv_def by (auto simp: nth_list_update split: if_splits)
  show ?thesis using assms(1) r d i unfolding pool_inv_def pool_finish_def by auto
qed

lemma pool_inv_step: "pool_step tasks s t \<Longrightarrow> pool_inv n tasks s \<Longrightarrow> pool_inv n tasks t"
  by (erule pool_stepE) (auto intro: pool_inv_start pool_inv_finish)

lemma pool_inv_steps: "(pool_step tasks)\<^sup>*\<^sup>* s t \<Longrightarrow> pool_inv n tasks s \<Longrightarrow> pool_inv n tasks t"
  by (induction rule: rtranclp_induct) (auto intro: pool_inv_step)

text \<open>The work left: two steps per task not yet taken, one per task held by a worker.\<close>

definition pool_work :: "'a list \<Rightarrow> 'a Pool \<Rightarrow> nat" where
  "pool_work tasks s = 2 * (length tasks - pl_next s) + length (filter (\<lambda>x. x \<noteq> None) (pl_workers s))"

lemma filter_update_length:
  "w < length xs \<Longrightarrow> length (filter P (xs[w := y])) + (if P (xs ! w) then 1 else 0)
     = length (filter P xs) + (if P y then 1 else 0)"
proof (induction xs arbitrary: w)
  case (Cons x xs)
  show ?case
  proof (cases w)
    case (Suc v)
    then have "length (filter P (xs[v := y])) + (if P (xs ! v) then 1 else 0)
      = length (filter P xs) + (if P y then 1 else 0)" using Cons by auto
    then show ?thesis using Suc by auto
  qed simp
qed simp

lemma pool_work_step: "pool_step tasks s t \<Longrightarrow> Suc (pool_work tasks t) = pool_work tasks s"
proof (erule pool_stepE)
  fix w
  assume "t = pool_start w s" "w < length (pl_workers s)" "pl_workers s ! w = None" "pl_next s < length tasks"
  then show ?thesis
    using filter_update_length [of w "pl_workers s" "\<lambda>x. x \<noteq> None" "Some (pl_next s)"]
    by (simp add: pool_work_def pool_start_def)
next
  fix w i
  assume "t = pool_finish tasks w i s" "w < length (pl_workers s)" "pl_workers s ! w = Some i"
  then show ?thesis
    using filter_update_length [of w "pl_workers s" "\<lambda>x. x \<noteq> None" None]
    by (simp add: pool_work_def pool_finish_def)
qed

lemma pool_work_steps: "(pool_step tasks ^^ k) s t \<Longrightarrow> pool_work tasks t + k = pool_work tasks s"
proof (induction k arbitrary: t)
  case (Suc k)
  then obtain u where "(pool_step tasks ^^ k) s u" "pool_step tasks u t" by auto
  with Suc.IH [of u] pool_work_step [of tasks u t] show ?case by simp
qed simp

lemma pool_stuck:
  assumes "\<nexists>t. pool_step tasks s t" and "pool_inv n tasks s" and "0 < n \<or> tasks = []"
  shows "pl_results s = map Some tasks"
proof -
  have idle: "pl_workers s ! w = None" if "w < n" for w
    using assms(1,2) that pool_step.finish [of w s _ tasks]
    by (cases "pl_workers s ! w") (auto simp: pool_inv_def)
  then have none: "Some i \<notin> set (pl_workers s)" for i
    using assms(2) by (auto simp: pool_inv_def in_set_conv_nth)
  have "pl_next s = length tasks"
  proof (rule ccontr)
    assume "pl_next s \<noteq> length tasks"
    then have "pl_next s < length tasks" "0 < n" using assms(2,3) by (auto simp: pool_inv_def)
    then show False using assms(1,2) idle pool_step.start [of 0 s tasks] by (auto simp: pool_inv_def)
  qed
  then show ?thesis using assms(2) none by (intro nth_equalityI) (auto simp: pool_inv_def)
qed

lemma pool_schedule:
  assumes "1 \<le> maxConcurrency" and "(pool_step tasks ^^ k) (pool_init maxConcurrency tasks) s"
  shows "length (filter (\<lambda>x. x \<noteq> None) (pl_workers s)) \<le> maxConcurrency
     \<and> (\<forall>i < length tasks. pl_results s ! i \<in> {None, Some (tasks ! i)})
     \<and> k \<le> 2 * length tasks
     \<and> ((\<nexists>t. pool_step tasks s t) \<longleftrightarrow> k = 2 * length tasks)
     \<and> (k = 2 * length tasks \<longrightarrow> pl_results s = map Some tasks)"
proof -
  let ?n = "min maxConcurrency (length tasks)"
  have inv: "pool_inv ?n tasks s"
    using pool_inv_steps [OF relpowp_imp_rtranclp [OF assms(2)] pool_inv_init] .
  have w0: "pool_work tasks (pool_init maxConcurrency tasks) = 2 * length tasks"
    by (simp add: pool_work_def pool_init_def)
  have work: "pool_work tasks s + k = 2 * length tasks" using pool_work_steps [OF assms(2)] w0 by simp
  have n: "0 < ?n \<or> tasks = []" using assms(1) by auto
  have stuck: "(\<nexists>t. pool_step tasks s t) \<longleftrightarrow> k = 2 * length tasks"
  proof
    assume a: "\<nexists>t. pool_step tasks s t"
    have "pl_workers s ! w = None" if "w < length (pl_workers s)" for w
      using a that pool_step.finish [of w s _ tasks] by (cases "pl_workers s ! w") auto
    then have "filter (\<lambda>x. x \<noteq> None) (pl_workers s) = []" by (auto simp: filter_empty_conv in_set_conv_nth)
    moreover have "pl_next s = length tasks"
    proof (rule ccontr)
      assume "pl_next s \<noteq> length tasks"
      then have "pl_next s < length tasks" using inv by (auto simp: pool_inv_def)
      moreover from this have "0 < length (pl_workers s)" using inv n by (auto simp: pool_inv_def)
      ultimately show False using a pool_step.start [of 0 s tasks] pool_step.finish [of 0 s _ tasks]
        by (cases "pl_workers s ! 0") auto
    qed
    ultimately show "k = 2 * length tasks" using work by (simp add: pool_work_def)
  next
    assume "k = 2 * length tasks"
    then show "\<nexists>t. pool_step tasks s t" using work pool_work_step [of tasks s] by fastforce
  qed
  have "length (filter (\<lambda>x. x \<noteq> None) (pl_workers s)) \<le> maxConcurrency"
    using inv length_filter_le [of "\<lambda>x. x \<noteq> None" "pl_workers s"] by (auto simp: pool_inv_def)
  then show ?thesis using inv work stuck pool_stuck [OF _ inv n] by (auto simp: pool_inv_def)
qed

text \<open>
  C21. The worker pool is correct under every interleaving. Whatever order the workers take and finish
  tasks in: at most \<open>maxConcurrency\<close> tasks are in flight, no task is run by two workers, a result
  once stored is that of its own task, every schedule stops after exactly two steps per task when
  it can go no further, and then every result is in the slot of its task.\<close>

theorem pool_every_schedule:
  assumes "1 \<le> maxConcurrency" and "(pool_step tasks ^^ k) (pool_init maxConcurrency tasks) s"
  shows "length (filter (\<lambda>x. x \<noteq> None) (pl_workers s)) \<le> maxConcurrency
     \<and> (\<forall>i < length tasks. pl_results s ! i \<in> {None, Some (tasks ! i)})
     \<and> k \<le> 2 * length tasks
     \<and> ((\<nexists>t. pool_step tasks s t) \<longleftrightarrow> k = 2 * length tasks)
     \<and> (k = 2 * length tasks \<longrightarrow> pl_results s = map Some tasks)"
  by (rule pool_schedule [OF assms])

theorem pool_every_schedule_witness:
  "pl_results (pool_finish [5, 6 :: nat] 0 1 (pool_start 0 (pool_finish [5, 6] 0 0 (pool_start 0 (pool_init 1 [5, 6])))))
    = [Some 5, Some 6]"
proof -
  let ?t = "[5, 6 :: nat]"
  let ?s0 = "pool_init 1 ?t"
  let ?s1 = "pool_start 0 ?s0"
  let ?s2 = "pool_finish ?t 0 0 ?s1"
  let ?s3 = "pool_start 0 ?s2"
  let ?s4 = "pool_finish ?t 0 1 ?s3"
  note d = pool_init_def pool_start_def pool_finish_def
  have "pool_step ?t ?s0 ?s1" "pool_step ?t ?s2 ?s3" by (rule pool_step.start; simp add: d)+
  moreover have "pool_step ?t ?s1 ?s2" "pool_step ?t ?s3 ?s4" by (rule pool_step.finish; simp add: d)+
  ultimately have "(pool_step ?t ^^ 4) ?s0 ?s4" by (auto simp: eval_nat_numeral)
  from pool_every_schedule [OF _ this] show ?thesis by simp
qed

section \<open>The executable pool\<close>

lemma first_worker_Some:
  "first_worker p k xs = Some w \<Longrightarrow> k \<le> w \<and> w < k + length xs \<and> p (xs ! (w - k))"
proof (induction xs arbitrary: k)
  case (Cons x xs)
  then show ?case by (cases "p x") (fastforce simp: nth_Cons' Suc_le_eq)+
qed simp

lemma first_worker_None: "first_worker p k xs = None \<Longrightarrow> x \<in> set xs \<Longrightarrow> \<not> p x"
  by (induction xs arbitrary: k) (auto split: if_splits)

lemma pool_next_step: "pool_next tasks s = Some t \<Longrightarrow> pool_step tasks s t"
  by (auto simp: pool_next_def split: option.splits if_splits dest!: first_worker_Some
      intro: pool_step.start pool_step.finish)

lemma pool_next_stuck: "pool_next tasks s = None \<Longrightarrow> \<nexists>t. pool_step tasks s t"
  by (auto simp: pool_next_def split: option.splits if_splits elim!: pool_stepE
      dest!: first_worker_Some dest: first_worker_None [OF _ nth_mem])

lemma pool_run_steps:
  "\<exists>k. (pool_step tasks ^^ k) s (pool_run fuel tasks s)
     \<and> (k = fuel \<or> (\<nexists>t. pool_step tasks (pool_run fuel tasks s) t))"
proof (induction fuel arbitrary: s)
  case (Suc fuel)
  show ?case
  proof (cases "pool_next tasks s")
    case None
    then show ?thesis using pool_next_stuck by (auto intro!: exI [of _ 0])
  next
    case (Some t)
    obtain k where "(pool_step tasks ^^ k) t (pool_run fuel tasks t)"
      "k = fuel \<or> (\<nexists>u. pool_step tasks (pool_run fuel tasks t) u)" using Suc by blast
    moreover from this(1) have "(pool_step tasks ^^ Suc k) s (pool_run fuel tasks t)"
      using relpowp_Suc_I2 pool_next_step [OF Some] by metis
    ultimately show ?thesis using Some by (intro exI [of _ "Suc k"]) auto
  qed
qed (auto intro!: exI [of _ 0])

lemma pool_run_results:
  assumes "1 \<le> maxConcurrency"
  shows "pl_results (pool_run (2 * length tasks) tasks (pool_init maxConcurrency tasks)) = map Some tasks"
proof -
  obtain k where k: "(pool_step tasks ^^ k) (pool_init maxConcurrency tasks)
      (pool_run (2 * length tasks) tasks (pool_init maxConcurrency tasks))"
    "k = 2 * length tasks \<or> (\<nexists>t. pool_step tasks (pool_run (2 * length tasks) tasks (pool_init maxConcurrency tasks)) t)"
    using pool_run_steps by blast
  from pool_schedule [OF assms k(1)] k(2) show ?thesis by auto
qed

lemma processWithConcurrency_results: "processWithConcurrency tasks (Num (max 1 n)) = map Some tasks" "processWithConcurrency tasks JInf = map Some tasks"
proof -
  have "processWithConcurrency tasks c = map Some tasks" if "tasks = [] \<or> 1 \<le> worker_count c (length tasks)" for c
    using that pool_run_results [of "worker_count c (length tasks)" tasks]
    by (auto simp: processWithConcurrency_def pool_init_def)
  then show "processWithConcurrency tasks (Num (max 1 n)) = map Some tasks" "processWithConcurrency tasks JInf = map Some tasks"
    by (cases tasks; simp add: worker_count_def)+
qed

text \<open>Without workers nothing is done.\<close>

lemma processWithConcurrency_NaN: "processWithConcurrency tasks JNaN = replicate (length tasks) None"
proof -
  have "pool_next tasks (pool_init 0 tasks) = None" by (simp add: pool_next_def pool_init_def)
  then have "pool_run n tasks (pool_init 0 tasks) = pool_init 0 tasks" for n by (cases n) simp_all
  then show ?thesis by (simp add: processWithConcurrency_def worker_count_def pool_init_def)
qed

section \<open>Batches\<close>

fun occurrences :: "nat \<Rightarrow> string \<Rightarrow> jsval list \<Rightarrow> nat list" where
  "occurrences k fp [] = []"
| "occurrences k fp (e # batch) = (if is_object e \<and> fingerprint e = fp then [k] else []) @ occurrences (Suc k) fp batch"

lemma occurrences_iff:
  "i \<in> set (occurrences k fp batch) \<longleftrightarrow>
     k \<le> i \<and> i < k + length batch \<and> is_object (batch ! (i - k)) \<and> fingerprint (batch ! (i - k)) = fp"
proof (induction batch arbitrary: k)
  case (Cons e batch)
  then show ?case by (cases "i = k") (auto simp: nth_Cons' Suc_le_eq)
qed simp

lemma occurrences_distinct: "distinct (occurrences k fp batch)"
  by (induction batch arbitrary: k) (auto simp: occurrences_iff)

lemma fingerprint_indices_get:
  "jmap_get (fingerprint_indices k batch m) fp =
     (if occurrences k fp batch = [] then jmap_get m fp
      else Some ((case jmap_get m fp of None \<Rightarrow> [] | Some is \<Rightarrow> is) @ occurrences k fp batch))"
proof (induction k batch m rule: fingerprint_indices.induct)
  case (2 i entry batch m)
  then show ?case by (auto simp: Let_def jmap_get_set)
qed simp

lemma fingerprint_indices_ok: "jmap_ok m \<Longrightarrow> jmap_ok (fingerprint_indices k batch m)"
  by (induction k batch m rule: fingerprint_indices.induct) (auto simp: Let_def jmap_ok_set)

lemma duplicateIndices_iff:
  "i \<in> set (duplicateIndices batch) \<longleftrightarrow> i < length batch \<and> is_object (batch ! i)
     \<and> (\<exists>j < length batch. j \<noteq> i \<and> is_object (batch ! j) \<and> fingerprint (batch ! j) = fingerprint (batch ! i))"
proof -
  let ?m = "fingerprint_indices 0 batch []"
  have ok: "distinct (map fst ?m)" using fingerprint_indices_ok [of "[]" 0 batch] by (simp add: jmap_ok_def)
  have "i \<in> set (duplicateIndices batch) \<longleftrightarrow> (\<exists>fp is. jmap_get ?m fp = Some is \<and> 1 < length is \<and> i \<in> set is)"
    using ok by (force simp: duplicateIndices_def)
  also have "\<dots> \<longleftrightarrow> (\<exists>fp. 1 < length (occurrences 0 fp batch) \<and> i \<in> set (occurrences 0 fp batch))"
    by (auto simp: fingerprint_indices_get split: if_splits) (metis list.size(3) not_less_zero)
  also have "\<dots> \<longleftrightarrow> (\<exists>fp. \<exists>j \<in> set (occurrences 0 fp batch). j \<noteq> i \<and> i \<in> set (occurrences 0 fp batch))"
  proof -
    have "1 < length xs \<longleftrightarrow> (\<exists>j \<in> set xs. j \<noteq> i)" if "distinct xs" "i \<in> set xs" for xs :: "nat list"
    proof -
      have "1 < card (set xs) \<longleftrightarrow> (\<exists>j \<in> set xs. j \<noteq> i)"
        using that(2) card_le_Suc0_iff_eq [of "set xs"] by (metis List.finite_set One_nat_def not_less)
      then show ?thesis by (simp add: distinct_card [OF that(1)])
    qed
    then show ?thesis using occurrences_distinct by blast
  qed
  finally show ?thesis by (auto simp: occurrences_iff)
qed

text \<open>The result the code is meant to give for the entry at one index.\<close>

definition entry_spec :: "BatchProcessor \<Rightarrow> jsval list \<Rightarrow> nat \<Rightarrow> BatchEntryResult" where
  "entry_spec p batch i =
     (let dup = i \<in> set (duplicateIndices batch)
      in case validateDescriptor p (batch ! i) of
           None \<Rightarrow> processEntry p (batch ! i) i dup
         | Some e \<Rightarrow> \<lparr>be_ok = False, be_index = i, be_address = JUndefined, be_method = JUndefined,
             be_gasResult = None, be_warnings = (if dup then [''DUPLICATE_DETECTED''] else []), be_error = Some e\<rparr>)"

lemma place_results_nth:
  "distinct (map fst ts) \<Longrightarrow> \<forall>i \<in> set (map fst ts). i < length slots
   \<Longrightarrow> length (place_results ts slots) = length slots
     \<and> (\<forall>i < length slots. place_results ts slots ! i = (case map_of ts i of None \<Rightarrow> slots ! i | Some r \<Rightarrow> r))"
proof (induction ts arbitrary: slots)
  case (Cons t ts)
  obtain j r where t: "t = (j, r)" by fastforce
  have "j \<notin> set (map fst ts)" using Cons.prems by (simp add: t)
  then have "map_of ts j = None" by (simp add: map_of_eq_None_iff)
  then show ?case using Cons.IH [of "slots[j := r]"] Cons.prems
    by (auto simp: t nth_list_update split: option.splits)
qed simp

lemma fill_slots_tasks:
  "fill_slots p dups k batch = (slots, tasks) \<Longrightarrow> tasks = [] \<longleftrightarrow> \<not> list_ex (\<lambda>e. validateDescriptor p e = None) batch"
  by (induction batch arbitrary: k slots tasks) (fastforce split: prod.splits option.splits)+

lemma fill_slots_props:
  assumes "fill_slots p (duplicateIndices all) k batch = (slots, tasks)"
    and "\<forall>i < length batch. batch ! i = all ! (k + i)"
  shows "length slots = length batch \<and> distinct (map fst tasks)
    \<and> (\<forall>i \<in> set (map fst tasks). k \<le> i \<and> i < k + length batch)
    \<and> (\<forall>i < length batch. (case map_of tasks (k + i) of None \<Rightarrow> slots ! i | Some r \<Rightarrow> Some r)
         = Some (entry_spec p all (k + i)))"
  using assms
proof (induction batch arbitrary: k slots tasks)
  case (Cons entry batch)
  obtain sl tk where f: "fill_slots p (duplicateIndices all) (Suc k) batch = (sl, tk)" by fastforce
  have nth: "\<forall>i < length batch. batch ! i = all ! (Suc k + i)" and here: "all ! k = entry"
    using Cons.prems(2) by force+
  note IH = Cons.IH [OF f nth]
  have k: "map_of tk k = None" using IH by (force simp: map_of_eq_None_iff)
  show ?case
  proof (cases "validateDescriptor p entry")
    case None
    then have e: "slots = None # sl" "tasks = (k, entry_spec p all k) # tk"
      using Cons.prems(1) f here by (auto simp: entry_spec_def)
    have at: "(case map_of tasks (k + i) of None \<Rightarrow> slots ! i | Some r \<Rightarrow> Some r) = Some (entry_spec p all (k + i))"
      if "i < length (entry # batch)" for i
    proof (cases i)
      case (Suc j)
      have "(case map_of tk (Suc k + j) of None \<Rightarrow> sl ! j | Some r \<Rightarrow> Some r) = Some (entry_spec p all (Suc k + j))"
        using IH that Suc by simp
      then show ?thesis unfolding e Suc nth_Cons_Suc by simp
    qed (simp add: e)
    have "length slots = length (entry # batch)" "distinct (map fst tasks)"
      using IH k unfolding e by (auto simp: map_of_eq_None_iff)
    moreover have "\<forall>i \<in> set (map fst tasks). k \<le> i \<and> i < k + length (entry # batch)"
      using IH unfolding e by auto
    ultimately show ?thesis using at by blast
  next
    case (Some err)
    then have e: "slots = Some (entry_spec p all k) # sl" "tasks = tk"
      using Cons.prems(1) f here by (auto simp: entry_spec_def)
    have at: "(case map_of tasks (k + i) of None \<Rightarrow> slots ! i | Some r \<Rightarrow> Some r) = Some (entry_spec p all (k + i))"
      if "i < length (entry # batch)" for i
    proof (cases i)
      case (Suc j)
      have "(case map_of tk (Suc k + j) of None \<Rightarrow> sl ! j | Some r \<Rightarrow> Some r) = Some (entry_spec p all (Suc k + j))"
        using IH that Suc by simp
      then show ?thesis unfolding e Suc nth_Cons_Suc by simp
    qed (simp add: e k)
    have "length slots = length (entry # batch)" "distinct (map fst tasks)"
      using IH unfolding e by auto
    moreover have "\<forall>i \<in> set (map fst tasks). k \<le> i \<and> i < k + length (entry # batch)"
      using IH unfolding e by auto
    ultimately show ?thesis using at by blast
  qed
qed simp

text \<open>When a batch throws.\<close>

definition no_fingerprint :: "jsval list \<Rightarrow> bool" where
  "no_fingerprint batch = list_ex (\<lambda>e. is_object e \<and> \<not> fingerprintable e) batch"

definition no_worker :: "BatchProcessor \<Rightarrow> jsval list \<Rightarrow> bool" where
  "no_worker p batch = (bp_maxConcurrency p = JNaN \<and> list_ex (\<lambda>e. validateDescriptor p e = None) batch)"

lemma process_entries:
  assumes "\<not> no_fingerprint batch" "bp_maxConcurrency p = at_least_one c" "\<not> no_worker p batch"
  shows "process sha256 p (JArray batch) = Some (batch_result sha256 (map (entry_spec p batch) [0..<length batch]))"
proof (cases batch)
  case Nil
  then show ?thesis by (simp add: process_def batch_result_def)
next
  case (Cons b bs)
  obtain slots tasks where f: "fill_slots p (duplicateIndices batch) 0 batch = (slots, tasks)" by fastforce
  note props = fill_slots_props [OF f]
  let ?ts = "map (\<lambda>(i, r). (i, Some r)) tasks"
  have z: "zip (map fst tasks) (processWithConcurrency (map snd tasks) (bp_maxConcurrency p)) = ?ts"
  proof (cases "tasks = []")
    case False
    then have "c \<noteq> JNaN" using assms(2,3) fill_slots_tasks [OF f] by (auto simp: no_worker_def at_least_one_def)
    then have "processWithConcurrency (map snd tasks) (bp_maxConcurrency p) = map Some (map snd tasks)"
      using processWithConcurrency_results(1) [of "map snd tasks" 1]
      by (cases c) (simp_all add: assms(2) at_least_one_def processWithConcurrency_results)
    moreover have "zip (map fst tasks) (map Some (map snd tasks)) = ?ts" by (induction tasks) auto
    ultimately show ?thesis by (simp only:)
  qed simp
  have n: "distinct (map fst ?ts)" "\<forall>i \<in> set (map fst ?ts). i < length slots"
    using props by (auto simp: comp_def case_prod_unfold)
  have m: "map_of ?ts i = map_option Some (map_of tasks i)" for i by (induction tasks) auto
  have placed: "place_results ?ts slots = map Some (map (entry_spec p batch) [0..<length batch])"
    using place_results_nth [OF n] props m
    by (intro nth_equalityI) (auto simp del: map_map split: option.splits)
  have ok: "list_ex (\<lambda>e. is_object e \<and> \<not> fingerprintable e) (b # bs) = False"
    using assms(1) unfolding Cons by (simp add: no_fingerprint_def)
  have e: "tasks = [] \<Longrightarrow> slots = map Some (map (entry_spec p batch) [0..<length batch])" using placed by simp
  show ?thesis using f z placed e unfolding Cons process_def
    by (cases "tasks = []") (auto simp only: jsval.case list.case ok if_False prod.case Let_def, auto simp: comp_def)
qed

lemma process_throws:
  assumes "no_fingerprint batch \<or> no_worker p batch"
  shows "process sha256 p (JArray batch) = None"
proof (cases batch)
  case Nil
  then show ?thesis using assms by (simp add: no_fingerprint_def no_worker_def)
next
  case (Cons b bs)
  obtain slots tasks where f: "fill_slots p (duplicateIndices batch) 0 batch = (slots, tasks)" by fastforce
  show ?thesis
  proof (cases "no_fingerprint batch")
    case True
    then have "list_ex (\<lambda>e. is_object e \<and> \<not> fingerprintable e) (b # bs) = True" unfolding Cons by (simp add: no_fingerprint_def)
    then show ?thesis unfolding Cons process_def by (simp only: jsval.case list.case if_True)
  next
    case False
    then have c: "bp_maxConcurrency p = JNaN" "tasks \<noteq> []" using assms fill_slots_tasks [OF f] by (auto simp: no_worker_def)
    note props = fill_slots_props [OF f]
    let ?ts = "map (\<lambda>(i, r). (i, None)) tasks :: (nat \<times> BatchEntryResult option) list"
    have z: "zip (map fst tasks) (processWithConcurrency (map snd tasks) (bp_maxConcurrency p)) = ?ts"
      unfolding c processWithConcurrency_NaN by (induction tasks) auto
    have n: "distinct (map fst ?ts)" "\<forall>i \<in> set (map fst ?ts). i < length slots"
      using props by (auto simp: comp_def case_prod_unfold)
    obtain i r where i: "(i, r) \<in> set tasks" using c(2) by (cases tasks) auto
    then have "map_of ?ts i = Some None" using n(1) by (force simp: map_of_eq_Some_iff)
    moreover have "i < length slots" using i n(2) by force
    ultimately have "place_results ?ts slots ! i = None" "i < length (place_results ?ts slots)"
      using place_results_nth [OF n] by auto
    then have "None \<in> set (place_results ?ts slots)" by (metis nth_mem)
    then show ?thesis using f z c(2) unfolding Cons process_def by (simp add: Let_def)
  qed
qed


section \<open>Gas totals\<close>

definition gas_op :: "int \<times> jsval \<Rightarrow> jsval" where
  "gas_op op = JObject [(''payloadSize'', JNumber (Num (fst op))), (''complexity'', snd op)]"

definition gas_request :: "(int \<times> jsval) list \<Rightarrow> int \<Rightarrow> jsval" where
  "gas_request ops signatures = JObject [(''operations'', JArray (map gas_op ops)),
     (''signaturesCount'', JNumber (Num signatures))]"

lemma fees_sum:
  "fees (map gas_op ops) (Num a) (Num b) =
     (if list_all (\<lambda>op. 0 \<le> fst op) ops
      then Inr (Num (a + sum_list (map (complexity_fee \<circ> snd) ops)), Num (b + 2 * sum_list (map fst ops)))
      else Inl ''Invalid operation: payloadSize must be a non-negative number'')"
  by (induction ops arbitrary: a b)
    (auto simp: gas_op_def js_prop_def accepted_number_def FEE_PER_BYTE_def split: if_splits)

text \<open>
  The simulated gas is the fee schedule: for integer sizes and signature counts the request is
  accepted exactly when none is negative; then the total is 100, plus 500 per signature, plus the
  complexity fees, plus 2 per payload byte, and the severity is CRITICAL exactly above ten million,
  HIGH above 80 and MEDIUM above 50 per cent of it; otherwise the total is 0.\<close>

theorem gas_total_exact:
  "let r = simulate (gas_request ops signatures);
       total = 100 + 500 * signatures + sum_list (map (complexity_fee \<circ> snd) ops) + 2 * sum_list (map fst ops)
   in gr_ok r = (0 \<le> signatures \<and> list_all (\<lambda>op. 0 \<le> fst op) ops)
    \<and> (gr_error r = None) = gr_ok r
    \<and> gr_totalGas r = (if gr_ok r then Num total else Num 0)
    \<and> gr_severity r = (if \<not> gr_ok r then LOW else if total > 10000000 then CRITICAL
        else if total > 8000000 then HIGH else if total > 5000000 then MEDIUM else LOW)"
  by (auto simp: simulate_def gas_request_def js_prop_def accepted_number_def fees_sum createErrorResult_def
      gas_severity_def gas_constants Let_def split: prod.splits)

end
