(* ===== verification/Rpc_Health.thy ===== *)
theory Rpc_Health
  imports Js_Json Complex_Main
begin

text \<open>
  RPC node health: \<open>NodeHealthChecker\<close> (\<open>anomaly-detector/src/index.ts\<close>) and \<open>RpcFailoverMonitor\<close>
  (\<open>anomaly-detector/src/rpc-failover-monitor.ts\<close>). Whether a node answered, how long it took and the
  clock are arguments; rates are rational numbers.
\<close>

section \<open>NodeHealthChecker\<close>

record NodeStatus =
  ns_url :: string
  ns_healthy :: bool
  ns_lastChecked :: int
  ns_responseTime :: "rat option"

record NodeHealthChecker =
  nh_nodes :: "NodeStatus list"
  nh_currentNodeIndex :: nat

definition new_checker :: "int \<Rightarrow> string list \<Rightarrow> NodeHealthChecker" where
  "new_checker now urls =
     \<lparr>nh_nodes = map (\<lambda>u. \<lparr>ns_url = u, ns_healthy = True, ns_lastChecked = now, ns_responseTime = None\<rparr>) urls,
      nh_currentNodeIndex = 0\<rparr>"

definition getCurrentNode :: "NodeHealthChecker \<Rightarrow> string" where
  "getCurrentNode h = ns_url (nh_nodes h ! nh_currentNodeIndex h)"

text \<open>What probing one node gave: the response time, or nothing when it failed, and the clock.\<close>

type_synonym probe = "rat option \<times> int"

definition check_node :: "probe \<Rightarrow> NodeStatus \<Rightarrow> NodeStatus" where
  "check_node p n = n\<lparr>ns_healthy := (fst p \<noteq> None), ns_responseTime := fst p, ns_lastChecked := snd p\<rparr>"

fun find_other :: "nat \<Rightarrow> nat \<Rightarrow> NodeStatus list \<Rightarrow> nat option" where
  "find_other current i [] = None"
| "find_other current i (n # ns) =
     (if i \<noteq> current \<and> ns_healthy n then Some i else find_other current (Suc i) ns)"

text \<open>The result, the checker and the failover announced to the callbacks.\<close>

definition checkHealth ::
  "(nat \<Rightarrow> probe) \<Rightarrow> NodeHealthChecker \<Rightarrow> NodeStatus list \<times> (string \<times> string) option \<times> NodeHealthChecker" where
  "checkHealth probes h =
     (let nodes = map (\<lambda>(i, n). check_node (probes i) n) (enumerate 0 (nh_nodes h));
          h' = h\<lparr>nh_nodes := nodes\<rparr>;
          current = nh_currentNodeIndex h
      in if \<not> ns_healthy (nodes ! current) then
           (case find_other current 0 nodes of
              Some newIndex \<Rightarrow>
                (nodes, Some (ns_url (nodes ! current), ns_url (nodes ! newIndex)),
                 h'\<lparr>nh_currentNodeIndex := newIndex\<rparr>)
            | None \<Rightarrow> (nodes, None, h'))
         else (nodes, None, h'))"

section \<open>RpcFailoverMonitor\<close>

record FailoverEvent =
  fe_fromUrl :: string
  fe_toUrl :: string
  fe_latencyMs :: int
  fe_slowFailover :: bool
  fe_timestamp :: int

record EndpointStats =
  es_url :: string
  es_successRate :: rat
  es_checksRecorded :: nat

record FailoverReport =
  fr_generatedAt :: int
  fr_endpoints :: "EndpointStats list"
  fr_events :: "FailoverEvent list"
  fr_droppedEvents :: nat
  fr_degradedEndpoints :: "string list"

record RpcFailoverMonitor =
  fm_healthWindows :: "(string, bool list) jmap"
  fm_firstFailureTimes :: "(string, int) jmap"
  fm_failoverEvents :: "FailoverEvent list"
  fm_droppedEvents :: nat
  fm_windowSize :: nat
  fm_failoverEventCap :: nat

definition positive_or :: "nat \<Rightarrow> jsnum \<Rightarrow> nat" where
  "positive_or fallback x = (case x of Num n \<Rightarrow> if n > 0 then nat n else fallback | _ \<Rightarrow> fallback)"

definition new_failover_monitor :: "jsnum \<Rightarrow> jsnum \<Rightarrow> RpcFailoverMonitor" where
  "new_failover_monitor windowSize failoverEventCap =
     \<lparr>fm_healthWindows = [], fm_firstFailureTimes = [], fm_failoverEvents = [], fm_droppedEvents = 0,
      fm_windowSize = positive_or 100 windowSize, fm_failoverEventCap = positive_or 500 failoverEventCap\<rparr>"

definition window_of :: "RpcFailoverMonitor \<Rightarrow> string \<Rightarrow> bool list" where
  "window_of m url = (case jmap_get (fm_healthWindows m) url of None \<Rightarrow> [] | Some w \<Rightarrow> w)"

definition recordCheck :: "string \<Rightarrow> bool \<Rightarrow> int \<Rightarrow> RpcFailoverMonitor \<Rightarrow> RpcFailoverMonitor" where
  "recordCheck url healthy now m =
     m\<lparr>fm_healthWindows := jmap_set url (push_shift (fm_windowSize m) (window_of m url) healthy) (fm_healthWindows m),
       fm_firstFailureTimes :=
         (if \<not> healthy \<and> \<not> jmap_has (fm_firstFailureTimes m) url then jmap_set url now (fm_firstFailureTimes m)
          else if healthy then jmap_delete url (fm_firstFailureTimes m)
          else fm_firstFailureTimes m)\<rparr>"

definition getSuccessRate :: "RpcFailoverMonitor \<Rightarrow> string \<Rightarrow> rat" where
  "getSuccessRate m url =
     (let w = window_of m url
      in if w = [] then 1 else of_nat (length (filter (\<lambda>b. b) w)) / of_nat (length w))"

definition recordFailover ::
  "int \<Rightarrow> string \<Rightarrow> string \<Rightarrow> int \<Rightarrow> RpcFailoverMonitor \<Rightarrow> FailoverEvent \<times> RpcFailoverMonitor" where
  "recordFailover latencyThreshold fromUrl toUrl now m =
     (let firstFailure = (case jmap_get (fm_firstFailureTimes m) fromUrl of None \<Rightarrow> now | Some t \<Rightarrow> t);
          latencyMs = now - firstFailure;
          event = \<lparr>fe_fromUrl = fromUrl, fe_toUrl = toUrl, fe_latencyMs = latencyMs,
                   fe_slowFailover = (latencyMs > latencyThreshold), fe_timestamp = now\<rparr>;
          events = fm_failoverEvents m @ [event];
          eventsToDrop = (if length events > fm_failoverEventCap m then length events - fm_failoverEventCap m else 0)
      in (event, m\<lparr>fm_failoverEvents := drop eventsToDrop events,
                   fm_droppedEvents := fm_droppedEvents m + eventsToDrop\<rparr>))"

definition getDegradedEndpoints :: "rat \<Rightarrow> RpcFailoverMonitor \<Rightarrow> string list" where
  "getDegradedEndpoints threshold m =
     filter (\<lambda>url. getSuccessRate m url < threshold) (jmap_keys (fm_healthWindows m))"

definition buildReport :: "rat \<Rightarrow> int \<Rightarrow> RpcFailoverMonitor \<Rightarrow> FailoverReport" where
  "buildReport threshold now m =
     \<lparr>fr_generatedAt = now,
      fr_endpoints = map (\<lambda>(url, w). \<lparr>es_url = url, es_successRate = getSuccessRate m url,
        es_checksRecorded = length w\<rparr>) (fm_healthWindows m),
      fr_events = fm_failoverEvents m, fr_droppedEvents = fm_droppedEvents m,
      fr_degradedEndpoints = getDegradedEndpoints threshold m\<rparr>"

definition reset_failover_monitor :: "RpcFailoverMonitor \<Rightarrow> RpcFailoverMonitor" where
  "reset_failover_monitor m = m\<lparr>fm_healthWindows := [], fm_firstFailureTimes := [], fm_failoverEvents := [],
     fm_droppedEvents := 0\<rparr>"

section \<open>Failover of the health checker\<close>

lemma find_other_Some:
  "find_other c k ns = Some i \<Longrightarrow> k \<le> i \<and> i < k + length ns \<and> i \<noteq> c \<and> ns_healthy (ns ! (i - k))"
proof (induction ns arbitrary: k)
  case (Cons n ns)
  then show ?case by (cases "k \<noteq> c \<and> ns_healthy n") (fastforce simp: nth_Cons' Suc_le_eq)+
qed simp

lemma find_other_None:
  "find_other c k ns = None \<Longrightarrow> i < length ns \<Longrightarrow> k + i \<noteq> c \<Longrightarrow> \<not> ns_healthy (ns ! i)"
proof (induction ns arbitrary: k i)
  case (Cons n ns)
  then show ?case by (cases i) (auto split: if_splits)
qed simp

definition checker_ok :: "NodeHealthChecker \<Rightarrow> bool" where
  "checker_ok h \<longleftrightarrow> nh_currentNodeIndex h < length (nh_nodes h)"

lemma length_checked: "length (fst (checkHealth probes h)) = length (nh_nodes h)"
  by (auto simp: checkHealth_def Let_def split: option.splits)

lemma checker_ok_step: "checker_ok h \<Longrightarrow> checker_ok (snd (snd (checkHealth probes h)))"
  by (auto simp: checkHealth_def checker_ok_def Let_def dest!: find_other_Some split: option.splits)

interpretation checker: invariant_system "\<lambda>h probes. snd (snd (checkHealth probes h))" checker_ok
  by unfold_locales (rule checker_ok_step)

lemma checked_nodes:
  fixes probes :: "nat \<Rightarrow> probe" and h :: NodeHealthChecker
  assumes "i < length (nh_nodes h)"
  defines "ns \<equiv> map (\<lambda>(i, n). check_node (probes i) n) (enumerate 0 (nh_nodes h))"
  shows "ns_healthy (ns ! i) \<longleftrightarrow> fst (probes i) \<noteq> None" and "ns_url (ns ! i) = ns_url (nh_nodes h ! i)"
proof -
  have "ns ! i = check_node (probes i) (nh_nodes h ! i)"
    using assms(1) by (simp add: ns_def nth_enumerate_eq)
  then show "ns_healthy (ns ! i) \<longleftrightarrow> fst (probes i) \<noteq> None" "ns_url (ns ! i) = ns_url (nh_nodes h ! i)"
    by (simp_all add: check_node_def)
qed

lemma checkHealth_spec:
  fixes probes :: "nat \<Rightarrow> probe" and h :: NodeHealthChecker
  assumes "checker_ok h"
  defines "up \<equiv> \<lambda>i. fst (probes i) \<noteq> None" and "c \<equiv> nh_currentNodeIndex h"
    and "h' \<equiv> snd (snd (checkHealth probes h))" and "moved \<equiv> fst (snd (checkHealth probes h))"
  shows "(up c \<longrightarrow> nh_currentNodeIndex h' = c \<and> moved = None)
    \<and> (\<not> up c \<longrightarrow> (if \<exists>i < length (nh_nodes h). up i
         then up (nh_currentNodeIndex h') \<and> moved = Some (getCurrentNode h, getCurrentNode h')
         else nh_currentNodeIndex h' = c \<and> moved = None))"
proof -
  define ns where "ns = map (\<lambda>(i, n). check_node (probes i) n) (enumerate 0 (nh_nodes h))"
  note ns = checked_nodes [of _ h probes, folded ns_def]
  have len: "length ns = length (nh_nodes h)" by (simp add: ns_def)
  have c: "c < length (nh_nodes h)" using assms(1) by (simp add: checker_ok_def c_def)
  have r: "checkHealth probes h =
    (if \<not> up c then (case find_other c 0 ns of
        Some j \<Rightarrow> (ns, Some (ns_url (ns ! c), ns_url (ns ! j)), h\<lparr>nh_nodes := ns, nh_currentNodeIndex := j\<rparr>)
      | None \<Rightarrow> (ns, None, h\<lparr>nh_nodes := ns\<rparr>)) else (ns, None, h\<lparr>nh_nodes := ns\<rparr>))"
    using ns(1) [OF c] unfolding checkHealth_def Let_def ns_def [symmetric] up_def c_def by simp
  show ?thesis
  proof (cases "find_other c 0 ns")
    case None
    have "\<not> up i" if "i < length (nh_nodes h)" "i \<noteq> c" for i
      using find_other_None [OF None, of i] ns(1) [of i] that len by (simp add: up_def)
    then have "\<not> up i" if "i < length (nh_nodes h)" "\<not> up c" for i using that by blast
    then show ?thesis using None by (auto simp: h'_def moved_def r c_def)
  next
    case (Some j)
    then have j: "j < length (nh_nodes h)" "ns_healthy (ns ! j)" using find_other_Some [of c 0 ns j] len by auto
    then have "up j" using ns(1) [of j] by (simp add: up_def)
    then show ?thesis using Some ns(2) [OF c] j(1) by (auto simp: h'_def moved_def r c_def getCurrentNode_def)
  qed
qed

text \<open>
  Failover is sound and complete. From a non-empty node list, after any rounds of checks, a further
  round keeps the current node when it answered; otherwise it moves to a node that answered if
  there is one, announcing exactly that change, and stays put when no node answered. The current
  node is always one of the list.\<close>

theorem health_failover:
  assumes "urls \<noteq> []"
  shows "let h = foldl (\<lambda>h probes. snd (snd (checkHealth probes h))) (new_checker t urls) rounds;
             up = (\<lambda>i. fst (probes i) \<noteq> None);
             c = nh_currentNodeIndex h;
             h' = snd (snd (checkHealth probes h));
             moved = fst (snd (checkHealth probes h))
         in nh_currentNodeIndex h' < length (nh_nodes h')
          \<and> (up c \<longrightarrow> nh_currentNodeIndex h' = c \<and> moved = None)
          \<and> (\<not> up c \<longrightarrow> (if \<exists>i < length (nh_nodes h). up i
               then up (nh_currentNodeIndex h') \<and> moved = Some (getCurrentNode h, getCurrentNode h')
               else nh_currentNodeIndex h' = c \<and> moved = None))"
proof -
  define h where "h = foldl (\<lambda>h probes. snd (snd (checkHealth probes h))) (new_checker t urls) rounds"
  have "checker_ok (new_checker t urls)" using assms by (simp add: checker_ok_def new_checker_def)
  then have ok: "checker_ok h" unfolding h_def by (rule checker.run_inv)
  have "nh_currentNodeIndex (snd (snd (checkHealth probes h))) < length (nh_nodes (snd (snd (checkHealth probes h))))"
    using checker_ok_step [OF ok] by (simp add: checker_ok_def)
  with checkHealth_spec [OF ok, of probes] show ?thesis unfolding h_def [symmetric] Let_def by blast
qed

theorem health_failover_witness:
  "fst (snd (checkHealth (\<lambda>i. (if i = 0 then None else Some 5, 9)) (new_checker 0 [''a'', ''b''])))
    = Some (''a'', ''b'')"
  using health_failover [of "[''a'', ''b'']" 0 "[]" "\<lambda>i. (if i = 0 then None else Some 5, 9)"]
  by (simp add: Let_def new_checker_def getCurrentNode_def checkHealth_def check_node_def)

section \<open>What the failover monitor remembers\<close>

datatype fm_op = Check string bool int | Failover string string int

fun fm_step :: "int \<Rightarrow> RpcFailoverMonitor \<Rightarrow> fm_op \<Rightarrow> RpcFailoverMonitor" where
  "fm_step threshold m (Check url healthy now) = recordCheck url healthy now m"
| "fm_step threshold m (Failover from to now) = snd (recordFailover threshold from to now m)"

text \<open>The specification: the outcomes of the checks of one endpoint, and the failovers, oldest first.\<close>

fun checks_of :: "string \<Rightarrow> fm_op list \<Rightarrow> bool list" where
  "checks_of url [] = []"
| "checks_of url (Check u b t # ops) = (if u = url then b # checks_of url ops else checks_of url ops)"
| "checks_of url (Failover _ _ _ # ops) = checks_of url ops"

fun failovers_of :: "fm_op list \<Rightarrow> (string \<times> string \<times> int) list" where
  "failovers_of [] = []"
| "failovers_of (Check _ _ _ # ops) = failovers_of ops"
| "failovers_of (Failover from to now # ops) = (from, to, now) # failovers_of ops"

lemma checks_of_append: "checks_of url (xs @ ys) = checks_of url xs @ checks_of url ys"
  by (induction url xs rule: checks_of.induct) auto

lemma failovers_of_append: "failovers_of (xs @ ys) = failovers_of xs @ failovers_of ys"
  by (induction xs rule: failovers_of.induct) auto

definition event_key :: "FailoverEvent \<Rightarrow> string \<times> string \<times> int" where
  "event_key e = (fe_fromUrl e, fe_toUrl e, fe_timestamp e)"

lemma fm_config [simp]:
  "fm_windowSize (fm_step th m op) = fm_windowSize m" "fm_failoverEventCap (fm_step th m op) = fm_failoverEventCap m"
  by (cases op; simp add: recordCheck_def recordFailover_def Let_def)+

lemma fm_config_run [simp]:
  "fm_windowSize (foldl (fm_step th) m ops) = fm_windowSize m"
  "fm_failoverEventCap (foldl (fm_step th) m ops) = fm_failoverEventCap m"
  by (induction ops arbitrary: m) auto

lemma window_of_check:
  "window_of (recordCheck u b t m) url =
     (if u = url then push_shift (fm_windowSize m) (window_of m url) b else window_of m url)"
  by (simp add: window_of_def recordCheck_def jmap_get_set)

lemma window_run:
  "window_of m url = [] \<Longrightarrow>
   window_of (foldl (fm_step th) m ops) url = last_n (fm_windowSize m) (checks_of url ops)"
proof (induction ops rule: rev_induct)
  case Nil
  then show ?case by simp
next
  case (snoc op ops)
  show ?case
  proof (cases op)
    case (Check u b t)
    then show ?thesis using snoc
      by (simp add: window_of_check checks_of_append push_shift_last_n last_n_snoc)
  next
    case (Failover f t n)
    then show ?thesis using snoc
      by (simp add: checks_of_append recordFailover_def Let_def window_of_def)
  qed
qed

lemma drop_excess: "drop (if length xs > cap then length xs - cap else 0) xs = last_n cap xs"
  by (simp add: last_n_def)

lemma map_last_n: "map f (last_n n xs) = last_n n (map f xs)"
  by (simp add: last_n_def drop_map)

lemma events_run:
  "fm_failoverEvents m = [] \<Longrightarrow> fm_droppedEvents m = 0 \<Longrightarrow>
   map event_key (fm_failoverEvents (foldl (fm_step th) m ops)) = last_n (fm_failoverEventCap m) (failovers_of ops)
   \<and> fm_droppedEvents (foldl (fm_step th) m ops) + length (fm_failoverEvents (foldl (fm_step th) m ops))
       = length (failovers_of ops)"
proof (induction ops rule: rev_induct)
  case (snoc op ops)
  let ?m = "foldl (fm_step th) m ops"
  show ?case
  proof (cases op)
    case (Check u b t)
    then show ?thesis using snoc by (simp add: failovers_of_append recordCheck_def)
  next
    case (Failover f t n)
    define e where "e = fst (recordFailover th f t n ?m)"
    have key: "event_key e = (f, t, n)" by (simp add: e_def recordFailover_def Let_def event_key_def)
    have ev: "fm_failoverEvents (fm_step th ?m op) = last_n (fm_failoverEventCap m) (fm_failoverEvents ?m @ [e])"
      by (simp add: Failover e_def recordFailover_def Let_def last_n_def)
    have "length (fm_failoverEvents (fm_step th ?m op)) + fm_droppedEvents (fm_step th ?m op)
        = Suc (length (fm_failoverEvents ?m)) + fm_droppedEvents ?m"
      by (cases "fm_failoverEventCap m") (simp_all add: Failover recordFailover_def Let_def)
    then show ?thesis using snoc key unfolding foldl_append foldl.simps ev map_last_n
      by (simp add: ev Failover failovers_of_append last_n_snoc map_last_n)
  qed
qed simp

text \<open>
  The failover monitor forgets only what is old. After any checks and failovers on a fresh monitor,
  the window of an endpoint is exactly its newest \<open>windowSize\<close> outcomes and its success rate their
  share of successes, the stored events are exactly the newest ones up to the cap, and stored plus
  dropped events is the number of failovers.\<close>

theorem failover_monitor_memory:
  "let m = foldl (fm_step threshold) (new_failover_monitor w cap) ops;
       recent = last_n (fm_windowSize m) (checks_of url ops)
   in window_of m url = recent
    \<and> getSuccessRate m url = (if recent = [] then 1
        else of_nat (length (filter (\<lambda>b. b) recent)) / of_nat (length recent))
    \<and> map event_key (fm_failoverEvents m) = last_n (fm_failoverEventCap m) (failovers_of ops)
    \<and> fm_droppedEvents m + length (fm_failoverEvents m) = length (failovers_of ops)
    \<and> 0 < fm_windowSize m \<and> 0 < fm_failoverEventCap m"
proof -
  let ?m0 = "new_failover_monitor w cap"
  have 0: "window_of ?m0 url = []" "fm_failoverEvents ?m0 = []" "fm_droppedEvents ?m0 = 0"
    by (simp_all add: new_failover_monitor_def window_of_def)
  have "0 < fm_windowSize ?m0 \<and> 0 < fm_failoverEventCap ?m0"
    by (auto simp: new_failover_monitor_def positive_or_def split: jsnum.splits)
  then show ?thesis using window_run [OF 0(1), of threshold ops] events_run [OF 0(2,3), of threshold ops]
    by (simp add: Let_def getSuccessRate_def)
qed

end
