(* ===== verification/Anomaly_Detector.thy ===== *)
theory Anomaly_Detector
  imports Ingestion_Guard
begin

text \<open>
  The anomaly detector (\<open>anomaly-detector/src/index.ts\<close>) and its threat feed
  (\<open>anomaly-detector/src/audit-guard/threat-feed-fetcher.ts\<close>): the per-metric checks, the nonce
  store with its lock-protected merge, one polling round, and the feed cache. The thresholds are
  integers, the clock readings are arguments, HTTP responses are given, and \<open>date_ok\<close> is
  \<open>Date.parse\<close> as in the ingestion guard. The nonce file is its parsed content, or nothing when it
  cannot be read; several processes that share it are a step relation.
\<close>

section \<open>Threat feed\<close>

record ThreatFeedFetcher =
  tf_threatAddresses :: "string set"
  tf_lastUpdated :: "int option"
  tf_mockThreats :: "string set option"

definition is_stellar_address :: "string \<Rightarrow> bool" where
  "is_stellar_address s = (length s = 56 \<and> hd s = CHR ''G''
     \<and> list_all (\<lambda>c. let n = of_char c :: nat in (65 \<le> n \<and> n \<le> 90) \<or> (50 \<le> n \<and> n \<le> 55)) (tl s))"

fun extractFromJson :: "jsval \<Rightarrow> string set" where
  "extractFromJson (JString s) = (if is_stellar_address s then {s} else {})"
| "extractFromJson (JArray vs) = \<Union> (set (map extractFromJson vs))"
| "extractFromJson (JObject ps) = \<Union> (set (map (\<lambda>(k, v). extractFromJson v) ps))"
| "extractFromJson _ = {}"

text \<open>\<open>data.split(/[\s,;\n\r]+/)\<close>: the maximal runs without a separator; the empty pieces at the ends
  are no addresses.\<close>

fun split_tokens :: "string \<Rightarrow> string \<Rightarrow> string list" where
  "split_tokens w [] = [rev w]"
| "split_tokens w (c # s) = (if is_ws c \<or> c = CHR '','' \<or> c = CHR '';'' then rev w # split_tokens [] s
     else split_tokens (c # w) s)"

text \<open>A response body: a value, or a text with what \<open>JSON.parse\<close> makes of it.\<close>

datatype feed_data = FeedValue jsval | FeedText string "jsval option"

fun parseFeedData :: "feed_data \<Rightarrow> string set" where
  "parseFeedData (FeedValue v) = (case v of JArray _ \<Rightarrow> extractFromJson v | JObject _ \<Rightarrow> extractFromJson v | _ \<Rightarrow> {})"
| "parseFeedData (FeedText t parsed) =
     (if t = [] then {}
      else (case parsed of
              Some v \<Rightarrow> extractFromJson v
            | None \<Rightarrow> set (filter is_stellar_address (map trim (split_tokens [] t)))))"

definition getFeedUrls :: "string option \<Rightarrow> string option \<Rightarrow> string list" where
  "getFeedUrls urls url =
     (let raw = (case urls of Some u \<Rightarrow> u | None \<Rightarrow> (case url of Some u \<Rightarrow> u | None \<Rightarrow> []))
      in filter (\<lambda>u. u \<noteq> []) (map trim (split_on CHR '','' raw)))"

definition updateFeed ::
  "(string \<Rightarrow> string + feed_data) \<Rightarrow> string list \<Rightarrow> int \<Rightarrow> ThreatFeedFetcher \<Rightarrow> ThreatFeedFetcher" where
  "updateFeed fetch urls now f =
     (let fetched = [d. Inr d \<leftarrow> map fetch urls]
      in if urls = [] then f
         else if length fetched > 0 then
           f\<lparr>tf_threatAddresses := \<Union> (set (map parseFeedData fetched)), tf_lastUpdated := Some now\<rparr>
         else f)"

definition isThreat :: "ThreatFeedFetcher \<Rightarrow> string \<Rightarrow> bool" where
  "isThreat f address = (case tf_mockThreats f of Some m \<Rightarrow> address \<in> m | None \<Rightarrow> address \<in> tf_threatAddresses f)"

section \<open>Alerts\<close>

datatype AnomalyType = NONCE_SPIKE | FAILED_TX_BURST | UNAUTHORIZED_ADDRESS | THREAT_FEED_MATCH | NONCE_REUSE

record RelayerMetrics =
  rm_address :: string
  rm_nonce :: int
  rm_failedTxCount :: int
  rm_timestamp :: jsnum

record AnomalyAlert =
  aa_type :: AnomalyType
  aa_severity :: Severity
  aa_address :: string
  aa_detail :: string
  aa_timestamp :: jsnum

record DetectorConfig =
  dc_AUTHORIZED_ADDRESSES :: "string set"
  dc_NONCE_SPIKE_THRESHOLD :: int
  dc_FAILED_TX_THRESHOLD :: int
  dc_threatFetcher :: ThreatFeedFetcher

definition anomaly :: "AnomalyType \<Rightarrow> Severity \<Rightarrow> string \<Rightarrow> RelayerMetrics \<Rightarrow> AnomalyAlert" where
  "anomaly ty severity detail m = \<lparr>aa_type = ty, aa_severity = severity, aa_address = rm_address m,
     aa_detail = detail, aa_timestamp = rm_timestamp m\<rparr>"

type_synonym nonces = "(string, int) jmap"

text \<open>The body of the loop of \<open>analyze\<close>.\<close>

definition analyze_metric :: "DetectorConfig \<Rightarrow> nonces \<Rightarrow> RelayerMetrics \<Rightarrow> AnomalyAlert list \<times> nonces" where
  "analyze_metric cfg previousNonces m =
     (let prevNonce = (case jmap_get previousNonces (rm_address m) of None \<Rightarrow> rm_nonce m | Some p \<Rightarrow> p);
          reuse = (if jmap_has previousNonces (rm_address m) \<and> rm_nonce m \<le> prevNonce then
            [anomaly NONCE_REUSE HIGH (''Nonce reuse detected (prev: '' @ show_int prevNonce @ '', now: ''
               @ show_int (rm_nonce m) @ '')'') m] else []);
          nonceDelta = rm_nonce m - prevNonce;
          spike = (if nonceDelta > dc_NONCE_SPIKE_THRESHOLD cfg then
            [anomaly NONCE_SPIKE (if nonceDelta > dc_NONCE_SPIKE_THRESHOLD cfg * 2 then CRITICAL else HIGH)
               (''Nonce jumped by '' @ show_int nonceDelta @ '' (prev: '' @ show_int prevNonce @ '', now: ''
               @ show_int (rm_nonce m) @ '')'') m] else []);
          burst = (if rm_failedTxCount m \<ge> dc_FAILED_TX_THRESHOLD cfg then
            [anomaly FAILED_TX_BURST (if rm_failedTxCount m \<ge> dc_FAILED_TX_THRESHOLD cfg * 3 then CRITICAL else HIGH)
               (show_int (rm_failedTxCount m) @ '' failed transactions detected'') m] else []);
          unauthorized = (if dc_AUTHORIZED_ADDRESSES cfg \<noteq> {} \<and> rm_address m \<notin> dc_AUTHORIZED_ADDRESSES cfg then
            [anomaly UNAUTHORIZED_ADDRESS HIGH ''Address not in authorized set'' m] else []);
          threat = (if isThreat (dc_threatFetcher cfg) (rm_address m) then
            [anomaly THREAT_FEED_MATCH CRITICAL
               (''Address matches active blocklist in threat feed (last updated: ''
               @ (case tf_lastUpdated (dc_threatFetcher cfg) of None \<Rightarrow> ''never'' | Some t \<Rightarrow> iso_date t) @ '')'') m]
            else [])
      in (reuse @ spike @ burst @ unauthorized @ threat, jmap_set (rm_address m) (rm_nonce m) previousNonces))"

fun analyze_loop :: "DetectorConfig \<Rightarrow> nonces \<Rightarrow> RelayerMetrics list \<Rightarrow> AnomalyAlert list \<times> nonces" where
  "analyze_loop cfg prev [] = ([], prev)"
| "analyze_loop cfg prev (m # ms) =
     (case analyze_metric cfg prev m of (detected, prev') \<Rightarrow>
        (case analyze_loop cfg prev' ms of (rest, prev'') \<Rightarrow> (detected @ rest, prev'')))"

section \<open>The nonce store\<close>

definition loadNoncesFrom :: "nonces option \<Rightarrow> nonces" where
  "loadNoncesFrom disk = (case disk of None \<Rightarrow> [] | Some m \<Rightarrow> m)"

definition merge_nonce :: "nonces \<Rightarrow> string \<times> int \<Rightarrow> nonces" where
  "merge_nonce merged e =
     (case e of (addr, nonce) \<Rightarrow>
        jmap_set addr (case jmap_get merged addr of None \<Rightarrow> nonce | Some existing \<Rightarrow> max existing nonce) merged)"

definition merge_nonces :: "nonces \<Rightarrow> nonces \<Rightarrow> nonces" where
  "merge_nonces onDisk local_nonces = foldl merge_nonce onDisk local_nonces"

text \<open>
  What the file operations of \<open>persistNonceMap\<close> meet: the lock directory is made, stays there until the time limit
  or cannot be made; the file cannot be read as JSON; writing the temporary file, the first rename, the removal of the
  old file and the second rename may fail.
\<close>

datatype lock_outcome = Locked | LockBusy | LockError string

record FileOutcomes =
  fo_lock :: lock_outcome
  fo_readFails :: bool
  fo_tempError :: "string option"
  fo_renameFails :: bool
  fo_unlinkFails :: bool
  fo_retryError :: "string option"

definition all_fine :: FileOutcomes where
  "all_fine = \<lparr>fo_lock = Locked, fo_readFails = False, fo_tempError = None, fo_renameFails = False, fo_unlinkFails = False,
     fo_retryError = None\<rparr>"

text \<open>\<open>atomicWriteJson\<close>: the error, if there is one, and the file after it.\<close>

definition atomicWriteJson :: "FileOutcomes \<Rightarrow> nonces \<Rightarrow> nonces option \<Rightarrow> string option \<times> nonces option" where
  "atomicWriteJson fo data disk =
     (case fo_tempError fo of
        Some e \<Rightarrow> (Some e, disk)
      | None \<Rightarrow>
          if \<not> fo_renameFails fo then (None, Some data)
          else (case fo_retryError fo of
                  None \<Rightarrow> (None, Some data)
                | Some e \<Rightarrow> (Some e, if fo_unlinkFails fo then disk else None)))"

text \<open>\<open>persistNonceMap\<close>: the error it throws or the merged map, and the file after it.\<close>

definition persistNonceMap :: "FileOutcomes \<Rightarrow> nonces option \<Rightarrow> nonces \<Rightarrow> (string + nonces) \<times> nonces option" where
  "persistNonceMap fo disk local_nonces =
     (case fo_lock fo of
        LockBusy \<Rightarrow> (Inl ''Timed out after 5000ms waiting for nonce-db lock'', disk)
      | LockError e \<Rightarrow> (Inl e, disk)
      | Locked \<Rightarrow>
          (let merged = merge_nonces (if fo_readFails fo then [] else loadNoncesFrom disk) local_nonces
           in case atomicWriteJson fo merged disk of
                (Some e, disk') \<Rightarrow> (Inl e, disk')
              | (None, disk') \<Rightarrow> (Inr merged, disk')))"

text \<open>When it throws.\<close>

definition persist_fails :: "FileOutcomes \<Rightarrow> bool" where
  "persist_fails fo \<longleftrightarrow> fo_lock fo \<noteq> Locked \<or> fo_tempError fo \<noteq> None \<or> fo_renameFails fo \<and> fo_retryError fo \<noteq> None"

lemma persist_fails_iff: "(\<exists>e. fst (persistNonceMap fo disk l) = Inl e) \<longleftrightarrow> persist_fails fo"
  by (auto simp: persistNonceMap_def atomicWriteJson_def persist_fails_def Let_def split: lock_outcome.splits option.splits)

section \<open>One round\<close>

record Detector =
  dt_previousNonces :: nonces
  dt_alerts :: "AnomalyAlert list"
  dt_guard :: Guard
  dt_disk :: "nonces option"

text \<open>\<open>saveNonces\<close>: on success the file and the in-memory map are the merged map.\<close>

definition saveNonces :: "FileOutcomes \<Rightarrow> Detector \<Rightarrow> (string + unit) \<times> Detector" where
  "saveNonces fo d =
     (case persistNonceMap fo (dt_disk d) (dt_previousNonces d) of
        (Inl e, disk) \<Rightarrow> (Inl e, d\<lparr>dt_disk := disk\<rparr>)
      | (Inr merged, disk) \<Rightarrow> (Inr (), d\<lparr>dt_disk := disk, dt_previousNonces := merged\<rparr>))"

definition analyze ::
  "DetectorConfig \<Rightarrow> FileOutcomes \<Rightarrow> Detector \<Rightarrow> RelayerMetrics list \<Rightarrow> (string + AnomalyAlert list) \<times> Detector" where
  "analyze cfg fo d metrics =
     (case analyze_loop cfg (dt_previousNonces d) metrics of (detected, prev) \<Rightarrow>
        (case saveNonces fo (d\<lparr>dt_previousNonces := prev\<rparr>) of
           (Inl e, d') \<Rightarrow> (Inl e, d')
         | (Inr _, d') \<Rightarrow> (Inr detected, d')))"

definition metric_event :: "RelayerMetrics \<Rightarrow> range_error + jsval" where
  "metric_event m =
     (case toISOString (rm_timestamp m) of
        Inl e \<Rightarrow> Inl e
      | Inr isoText \<Rightarrow> Inr (JObject
          [(''id'', JString (rm_address m @ ''-'' @ show_num (rm_timestamp m))), (''timestamp'', JString isoText),
           (''payload'', JObject [(''address'', JString (rm_address m)), (''nonce'', JNumber (Num (rm_nonce m))),
              (''failedTxCount'', JNumber (Num (rm_failedTxCount m))), (''timestamp'', JNumber (rm_timestamp m))])]))"

text \<open>The ingestion loop of \<open>runOnce\<close>: the accepted metrics, unless an event cannot be built.\<close>

fun admit ::
  "(string \<Rightarrow> bool) \<Rightarrow> ((int \<times> int) \<times> RelayerMetrics) list \<Rightarrow> Guard \<Rightarrow> (range_error + RelayerMetrics list) \<times> Guard" where
  "admit date_ok [] g = (Inr [], g)"
| "admit date_ok ((clk, m) # ms) g =
     (case metric_event m of
        Inl e \<Rightarrow> (Inl e, g)
      | Inr event \<Rightarrow>
          (case ingest date_ok clk g event of (result, g') \<Rightarrow>
             (case admit date_ok ms g' of
                (Inl e, g'') \<Rightarrow> (Inl e, g'')
              | (Inr accepted, g'') \<Rightarrow>
                  (Inr (if ir_outcome result = ACCEPTED \<or> ir_outcome result = QUEUE_FULL_DROP
                        then m # accepted else accepted), g''))))"

datatype round_error = InvalidTime range_error | StoreError string

definition runOnce ::
  "(string \<Rightarrow> bool) \<Rightarrow> DetectorConfig \<Rightarrow> FileOutcomes \<Rightarrow> Detector \<Rightarrow> ((int \<times> int) \<times> RelayerMetrics) list
   \<Rightarrow> (round_error + AnomalyAlert list) \<times> Detector" where
  "runOnce date_ok cfg fo d metrics =
     (case admit date_ok metrics (dt_guard d) of
        (Inl e, g) \<Rightarrow> (Inl (InvalidTime e), d\<lparr>dt_guard := g\<rparr>)
      | (Inr accepted, g) \<Rightarrow>
          (case analyze cfg fo (d\<lparr>dt_guard := g\<rparr>) accepted of
             (Inl e, d') \<Rightarrow> (Inl (StoreError e), d')
           | (Inr found, d') \<Rightarrow> (Inr found, d'\<lparr>dt_alerts := dt_alerts d' @ found\<rparr>)))"

definition resetState :: "int \<Rightarrow> Detector \<Rightarrow> Detector" where
  "resetState now d = d\<lparr>dt_previousNonces := [], dt_alerts := [], dt_guard := reset_guard now (dt_guard d)\<rparr>"

section \<open>Processes that share the nonce file\<close>

text \<open>
  Each process runs \<open>persistNonceMap\<close> on its own map: it makes the lock directory, reads, merges, writes a temporary
  file and renames it over the file, and removes the directory. It may time out instead of getting the lock, or not be
  able to make it; the file may not be readable, and then counts as empty; the temporary file may not be writable; when
  the rename fails, the file is removed and the rename tried again, which may fail too; and the directory may not be
  removable, after success and after failure. \<open>Replacing\<close> and \<open>Retrying\<close> are before and after the removal.

  \<open>nd_damaged\<close> is history: the file was there and could not be read, or the second rename failed while it was gone.
\<close>

datatype phase =
  Waiting | Holding | Loaded nonces | Replacing nonces | Retrying nonces | Written nonces | Aborting | Finished nonces | Failed

record NonceDb =
  nd_disk :: "nonces option"
  nd_lock :: "nat option"
  nd_phases :: "phase list"
  nd_damaged :: bool

definition set_phase :: "nat \<Rightarrow> phase \<Rightarrow> NonceDb \<Rightarrow> NonceDb" where
  "set_phase w p s = s\<lparr>nd_phases := (nd_phases s)[w := p]\<rparr>"

definition in_phase :: "NonceDb \<Rightarrow> nat \<Rightarrow> phase \<Rightarrow> bool" where
  "in_phase s w p \<longleftrightarrow> w < length (nd_phases s) \<and> nd_phases s ! w = p"

inductive db_step :: "nonces list \<Rightarrow> NonceDb \<Rightarrow> NonceDb \<Rightarrow> bool" for locals where
  take_lock: "in_phase s w Waiting \<Longrightarrow> nd_lock s = None \<Longrightarrow> db_step locals s (set_phase w Holding (s\<lparr>nd_lock := Some w\<rparr>))"
| lock_timeout: "in_phase s w Waiting \<Longrightarrow> nd_lock s \<noteq> None \<Longrightarrow> db_step locals s (set_phase w Failed s)"
| lock_error: "in_phase s w Waiting \<Longrightarrow> db_step locals s (set_phase w Failed s)"
| load_file: "in_phase s w Holding \<Longrightarrow> db_step locals s (set_phase w (Loaded (loadNoncesFrom (nd_disk s))) s)"
| load_error: "in_phase s w Holding
    \<Longrightarrow> db_step locals s (set_phase w (Loaded []) (s\<lparr>nd_damaged := nd_damaged s \<or> nd_disk s \<noteq> None\<rparr>))"
| temp_error: "in_phase s w (Loaded onDisk) \<Longrightarrow> db_step locals s (set_phase w Aborting s)"
| rename: "in_phase s w (Loaded onDisk) \<Longrightarrow> merged = merge_nonces onDisk (locals ! w)
    \<Longrightarrow> db_step locals s (set_phase w (Written merged) (s\<lparr>nd_disk := Some merged\<rparr>))"
| rename_error: "in_phase s w (Loaded onDisk) \<Longrightarrow> merged = merge_nonces onDisk (locals ! w)
    \<Longrightarrow> db_step locals s (set_phase w (Replacing merged) s)"
| unlink: "in_phase s w (Replacing merged) \<Longrightarrow> db_step locals s (set_phase w (Retrying merged) (s\<lparr>nd_disk := None\<rparr>))"
| unlink_error: "in_phase s w (Replacing merged) \<Longrightarrow> db_step locals s (set_phase w (Retrying merged) s)"
| rename_again: "in_phase s w (Retrying merged)
    \<Longrightarrow> db_step locals s (set_phase w (Written merged) (s\<lparr>nd_disk := Some merged\<rparr>))"
| rename_again_error: "in_phase s w (Retrying merged)
    \<Longrightarrow> db_step locals s (set_phase w Aborting (s\<lparr>nd_damaged := nd_damaged s \<or> nd_disk s = None\<rparr>))"
| release: "in_phase s w (Written merged) \<Longrightarrow> db_step locals s (set_phase w (Finished merged) (s\<lparr>nd_lock := None\<rparr>))"
| release_error: "in_phase s w (Written merged) \<Longrightarrow> db_step locals s (set_phase w (Finished merged) s)"
| abort: "in_phase s w Aborting \<Longrightarrow> db_step locals s (set_phase w Failed (s\<lparr>nd_lock := None\<rparr>))"
| abort_error: "in_phase s w Aborting \<Longrightarrow> db_step locals s (set_phase w Failed s)"

inductive_cases db_stepE: "db_step locals s t"

section \<open>Merging\<close>

lemma merge_nonce_mono: "jmap_get m a = Some x \<Longrightarrow> \<exists>y \<ge> x. jmap_get (merge_nonce m e) a = Some y"
  by (cases e) (auto simp: merge_nonce_def jmap_get_set)

lemma merge_nonce_entry: "\<exists>y \<ge> n. jmap_get (merge_nonce m (a, n)) a = Some y"
  by (auto simp: merge_nonce_def jmap_get_set split: option.splits)

lemma merge_nonces_mono: "jmap_get m a = Some x \<Longrightarrow> \<exists>y \<ge> x. jmap_get (merge_nonces m l) a = Some y"
  unfolding merge_nonces_def
proof (induction l arbitrary: m x)
  case (Cons e l)
  obtain y where "x \<le> y" "jmap_get (merge_nonce m e) a = Some y" using merge_nonce_mono [OF Cons.prems] by blast
  with Cons.IH [of "merge_nonce m e" y] show ?case by (auto intro: order_trans)
qed simp

lemma merge_nonces_entry: "(a, n) \<in> set l \<Longrightarrow> \<exists>y \<ge> n. jmap_get (merge_nonces m l) a = Some y"
proof (induction l arbitrary: m)
  case (Cons e l)
  show ?case
  proof (cases "e = (a, n)")
    case True
    obtain y where "n \<le> y" "jmap_get (merge_nonce m e) a = Some y" using merge_nonce_entry True by blast
    then show ?thesis using merge_nonces_mono [of "merge_nonce m e" a y l]
      by (auto simp: merge_nonces_def intro: order_trans)
  next
    case False
    then show ?thesis using Cons by (auto simp: merge_nonces_def)
  qed
qed simp

text \<open>\<open>covers m l\<close>: the map holds every nonce of \<open>l\<close>, or a higher one.\<close>

definition covers :: "nonces \<Rightarrow> nonces \<Rightarrow> bool" where
  "covers m l \<longleftrightarrow> (\<forall>a n. jmap_get l a = Some n \<longrightarrow> (\<exists>y \<ge> n. jmap_get m a = Some y))"

lemma covers_merge_local: "covers (merge_nonces m l) l"
  using merge_nonces_entry map_of_SomeD unfolding covers_def by metis

lemma covers_merge: "covers m l \<Longrightarrow> covers (merge_nonces m l') l"
proof -
  assume c: "covers m l"
  have "\<exists>y \<ge> n. jmap_get (merge_nonces m l') a = Some y" if "jmap_get l a = Some n" for a n
  proof -
    obtain x where "n \<le> x" "jmap_get m a = Some x" using c \<open>jmap_get l a = Some n\<close> unfolding covers_def by blast
    then show ?thesis using merge_nonces_mono [of m a x l'] by (auto intro: order_trans)
  qed
  then show ?thesis by (auto simp: covers_def)
qed

section \<open>No lost update\<close>

definition critical :: "phase \<Rightarrow> bool" where
  "critical p = (case p of Holding \<Rightarrow> True | Loaded _ \<Rightarrow> True | Replacing _ \<Rightarrow> True | Retrying _ \<Rightarrow> True | Written _ \<Rightarrow> True
     | Aborting \<Rightarrow> True | _ \<Rightarrow> False)"

definition stored :: "phase \<Rightarrow> bool" where
  "stored p = (case p of Written _ \<Rightarrow> True | Finished _ \<Rightarrow> True | _ \<Rightarrow> False)"

text \<open>The temporary file about to be renamed by the holder of the lock, and what there is of the nonces: the file, or
  while it is gone the temporary file.\<close>

fun retry :: "phase \<Rightarrow> nonces option" where
  "retry (Retrying m) = Some m"
| "retry _ = None"

definition held :: "NonceDb \<Rightarrow> nonces option" where
  "held s = (case nd_lock s of None \<Rightarrow> None | Some w \<Rightarrow> if w < length (nd_phases s) then retry (nd_phases s ! w) else None)"

fun first_of :: "'a option \<Rightarrow> 'a option \<Rightarrow> 'a option" where
  "first_of None y = y"
| "first_of (Some x) y = Some x"

definition content :: "NonceDb \<Rightarrow> nonces" where
  "content s = loadNoncesFrom (first_of (nd_disk s) (held s))"

lemma first_of_None [simp]: "first_of x None = x"
  by (cases x) simp_all

definition phase_ok :: "NonceDb \<Rightarrow> nonces \<Rightarrow> nat \<Rightarrow> phase \<Rightarrow> bool" where
  "phase_ok s l w p \<longleftrightarrow> (critical p \<longrightarrow> nd_lock s = Some w)
     \<and> (nd_damaged s \<or>
         (\<forall>m. p = Loaded m \<longrightarrow> m = loadNoncesFrom (nd_disk s))
         \<and> (\<forall>m. p = Replacing m \<longrightarrow> m = merge_nonces (loadNoncesFrom (nd_disk s)) l)
         \<and> (\<forall>m. p = Retrying m \<longrightarrow> covers m l \<and> (nd_disk s = None \<or> m = merge_nonces (loadNoncesFrom (nd_disk s)) l))
         \<and> (stored p \<longrightarrow> covers (content s) l))"

definition db_inv :: "nonces list \<Rightarrow> nonces \<Rightarrow> NonceDb \<Rightarrow> bool" where
  "db_inv locals init s \<longleftrightarrow>
     (\<forall>w < length (nd_phases s). phase_ok s (locals ! w) w (nd_phases s ! w)) \<and> (nd_damaged s \<or> covers (content s) init)"

text \<open>A process that holds the lock, or takes a free one, may change lock and file.\<close>

lemma db_inv_update:
  assumes inv: "db_inv locals init s" and t: "t = set_phase w p (s\<lparr>nd_disk := disk', nd_lock := lock', nd_damaged := damaged'\<rparr>)"
    and free: "nd_lock s = None \<or> nd_lock s = Some w \<or> lock' = nd_lock s \<and> disk' = nd_disk s"
    and damage: "nd_damaged s \<Longrightarrow> damaged'"
    and grows: "\<And>l. \<not> damaged' \<Longrightarrow> covers (content s) l \<Longrightarrow> covers (content t) l"
    and p: "phase_ok t (locals ! w) w p"
  shows "db_inv locals init t"
proof -
  have "phase_ok t (locals ! v) v (nd_phases t ! v)" if v: "v < length (nd_phases t)" for v
  proof (cases "v = w")
    case True
    then show ?thesis using p v by (simp add: t set_phase_def)
  next
    case False
    have old: "phase_ok s (locals ! v) v (nd_phases s ! v)" using inv v by (simp add: db_inv_def t set_phase_def)
    have same: "nd_phases t ! v = nd_phases s ! v" using False by (simp add: t set_phase_def)
    have frame: "nd_lock t = lock'" "nd_disk t = disk'" "nd_damaged t = damaged'" by (simp_all add: t set_phase_def)
    show ?thesis
    proof (cases "critical (nd_phases s ! v)")
      case True
      then have "nd_lock s = Some v" using old by (simp add: phase_ok_def)
      then have "lock' = nd_lock s" "disk' = nd_disk s" using free False by auto
      then show ?thesis using old grows damage unfolding phase_ok_def same frame by auto
    next
      case False
      then show ?thesis using old grows damage unfolding phase_ok_def same frame
        by (auto simp: critical_def split: phase.splits)
    qed
  qed
  moreover have "nd_damaged t \<or> covers (content t) init"
  proof (cases damaged')
    case False
    then show ?thesis using inv damage grows [of init] by (auto simp: db_inv_def)
  qed (simp add: t set_phase_def)
  ultimately show ?thesis by (simp add: db_inv_def)
qed

lemma db_inv_phase: "db_inv locals init s \<Longrightarrow> in_phase s w p \<Longrightarrow> phase_ok s (locals ! w) w p"
  by (auto simp: db_inv_def in_phase_def)

lemma set_phase_simps [simp]:
  "nd_disk (set_phase w p s) = nd_disk s" "nd_lock (set_phase w p s) = nd_lock s" "nd_damaged (set_phase w p s) = nd_damaged s"
  by (simp_all add: set_phase_def)

lemma lock_same [simp]: "nd_lock s = l \<Longrightarrow> s\<lparr>nd_lock := l\<rparr> = s"
  by (cases s) simp

lemma covers_nothing: "covers [] l \<Longrightarrow> covers m l"
  by (auto simp: covers_def)

text \<open>What there is of the nonces after a step of the holder of the lock \<open>w\<close>, by its new phase.\<close>

lemma held_set:
  "in_phase s w q \<Longrightarrow> nd_lock s = Some w \<Longrightarrow> held s = retry q"
  "in_phase s w q \<Longrightarrow> nd_lock s = Some w \<Longrightarrow> held (set_phase w p (s\<lparr>nd_disk := disk'\<rparr>)) = retry p"
  "in_phase s w q \<Longrightarrow> nd_lock s = Some w \<Longrightarrow> held (set_phase w p (s\<lparr>nd_damaged := dmg'\<rparr>)) = retry p"
  "in_phase s w q \<Longrightarrow> nd_lock s = Some w \<Longrightarrow> held (set_phase w p s) = retry p"
  by (simp_all add: held_def in_phase_def set_phase_def)

lemma held_waiting:
  assumes "in_phase s w q" "retry q = None" "retry p = None"
  shows "held (set_phase w p s) = held s"
proof (cases "nd_lock s")
  case (Some v)
  then show ?thesis using assms by (cases "v = w") (simp_all add: held_def in_phase_def set_phase_def)
qed (simp add: held_def)

lemma held_taken: "in_phase s w q \<Longrightarrow> nd_lock s = None \<Longrightarrow> retry p = None \<Longrightarrow> held (set_phase w p (s\<lparr>nd_lock := Some w\<rparr>)) = held s"
  by (simp add: held_def in_phase_def set_phase_def)

lemma held_released: "held (set_phase w p (s\<lparr>nd_lock := None\<rparr>)) = None"
  by (simp add: held_def)

lemma content_waiting: "in_phase s w q \<Longrightarrow> retry q = None \<Longrightarrow> retry p = None \<Longrightarrow> content (set_phase w p s) = content s"
  by (simp add: content_def held_waiting)

lemma content_free: "in_phase s w q \<Longrightarrow> nd_lock s = None \<Longrightarrow> retry p = None \<Longrightarrow> content (set_phase w p (s\<lparr>nd_lock := Some w\<rparr>)) = content s"
  by (simp add: content_def held_taken)

lemma content_released: "content (set_phase w p (s\<lparr>nd_lock := None\<rparr>)) = loadNoncesFrom (nd_disk s)"
  by (simp add: content_def held_released)

lemma content_no_retry: "in_phase s w q \<Longrightarrow> nd_lock s = Some w \<Longrightarrow> retry q = None \<Longrightarrow> content s = loadNoncesFrom (nd_disk s)"
  by (simp add: content_def held_set)

lemma content_holder:
  assumes "in_phase s w q" "nd_lock s = Some w"
  shows "content (set_phase w p (s\<lparr>nd_disk := disk'\<rparr>)) = loadNoncesFrom (first_of disk' (retry p))"
    "content (set_phase w p (s\<lparr>nd_damaged := dmg'\<rparr>)) = loadNoncesFrom (first_of (nd_disk s) (retry p))"
    "content (set_phase w p s) = loadNoncesFrom (first_of (nd_disk s) (retry p))"
    "content s = loadNoncesFrom (first_of (nd_disk s) (retry q))"
  using assms by (simp_all add: content_def held_set)

lemma loaded [simp]: "loadNoncesFrom (Some m) = m" "loadNoncesFrom None = []"
  by (simp_all add: loadNoncesFrom_def)

lemma db_inv_step:
  assumes step: "db_step locals s t" and inv: "db_inv locals init s"
  shows "db_inv locals init t"
  using step
proof cases
  case (take_lock w)
  show ?thesis
    by (rule db_inv_update [OF inv, where w = w and p = Holding and disk' = "nd_disk s" and lock' = "Some w" and damaged' = "nd_damaged s"])
      (use take_lock in \<open>auto simp: content_free phase_ok_def critical_def stored_def\<close>)
next
  case (lock_timeout w)
  show ?thesis
    by (rule db_inv_update [OF inv, where w = w and p = Failed and disk' = "nd_disk s" and lock' = "nd_lock s" and damaged' = "nd_damaged s"])
      (use lock_timeout in \<open>auto simp: content_waiting phase_ok_def critical_def stored_def\<close>)
next
  case (lock_error w)
  show ?thesis
    by (rule db_inv_update [OF inv, where w = w and p = Failed and disk' = "nd_disk s" and lock' = "nd_lock s" and damaged' = "nd_damaged s"])
      (use lock_error in \<open>auto simp: content_waiting phase_ok_def critical_def stored_def\<close>)
next
  case (load_file w)
  have h: "nd_lock s = Some w" using db_inv_phase [OF inv load_file(2)] by (simp add: phase_ok_def critical_def)
  show ?thesis
    by (rule db_inv_update [OF inv, where w = w and p = "Loaded (loadNoncesFrom (nd_disk s))" and disk' = "nd_disk s" and lock' = "nd_lock s" and damaged' = "nd_damaged s"])
      (use load_file h in \<open>auto simp: content_waiting phase_ok_def critical_def stored_def\<close>)
next
  case (load_error w)
  have h: "nd_lock s = Some w" using db_inv_phase [OF inv load_error(2)] by (simp add: phase_ok_def critical_def)
  note c = content_holder [OF load_error(2) h]
  show ?thesis
    by (rule db_inv_update [OF inv, where w = w and p = "Loaded []" and disk' = "nd_disk s" and lock' = "nd_lock s"
          and damaged' = "nd_damaged s \<or> nd_disk s \<noteq> None"])
      (use load_error h c in \<open>auto simp: phase_ok_def critical_def stored_def loadNoncesFrom_def split: option.splits\<close>)
next
  case (temp_error w onDisk)
  have h: "nd_lock s = Some w" using db_inv_phase [OF inv temp_error(2)] by (simp add: phase_ok_def critical_def)
  show ?thesis
    by (rule db_inv_update [OF inv, where w = w and p = Aborting and disk' = "nd_disk s" and lock' = "nd_lock s" and damaged' = "nd_damaged s"])
      (use temp_error h in \<open>auto simp: content_waiting phase_ok_def critical_def stored_def\<close>)
next
  case (rename w onDisk merged)
  note ok = db_inv_phase [OF inv rename(2)]
  have h: "nd_lock s = Some w" using ok by (simp add: phase_ok_def critical_def)
  note c = content_holder [OF rename(2) h]
  have m: "merged = merge_nonces (content s) (locals ! w)" if "\<not> nd_damaged s"
    using ok that rename(3) unfolding c(4) by (auto simp: phase_ok_def split: option.splits)
  have l: "covers merged (locals ! w)" if "\<not> nd_damaged s" unfolding m [OF that] by (rule covers_merge_local)
  have g: "covers merged l" if "\<not> nd_damaged s" "covers (content s) l" for l unfolding m [OF that(1)] using that(2) by (rule covers_merge)
  show ?thesis
    by (rule db_inv_update [OF inv, where w = w and p = "Written merged" and disk' = "Some merged" and lock' = "nd_lock s" and damaged' = "nd_damaged s"])
      (use rename(1,2) h c(1) l g in \<open>auto simp: phase_ok_def critical_def stored_def\<close>)
next
  case (rename_error w onDisk merged)
  note ok = db_inv_phase [OF inv rename_error(2)]
  have h: "nd_lock s = Some w" using ok by (simp add: phase_ok_def critical_def)
  show ?thesis
    by (rule db_inv_update [OF inv, where w = w and p = "Replacing merged" and disk' = "nd_disk s" and lock' = "nd_lock s" and damaged' = "nd_damaged s"])
      (use rename_error h ok in \<open>auto simp: content_waiting phase_ok_def critical_def stored_def\<close>)
next
  case (unlink w merged)
  note ok = db_inv_phase [OF inv unlink(2)]
  have h: "nd_lock s = Some w" using ok by (simp add: phase_ok_def critical_def)
  note c = content_holder [OF unlink(2) h]
  have m: "merged = merge_nonces (content s) (locals ! w)" if "\<not> nd_damaged s"
    using ok that unfolding c(4) by (auto simp: phase_ok_def split: option.splits)
  have l: "covers merged (locals ! w)" if "\<not> nd_damaged s" unfolding m [OF that] by (rule covers_merge_local)
  have g: "covers merged l" if "\<not> nd_damaged s" "covers (content s) l" for l unfolding m [OF that(1)] using that(2) by (rule covers_merge)
  show ?thesis
    by (rule db_inv_update [OF inv, where w = w and p = "Retrying merged" and disk' = None and lock' = "nd_lock s" and damaged' = "nd_damaged s"])
      (use unlink h c(1) l g in \<open>auto simp: phase_ok_def critical_def stored_def\<close>)
next
  case (unlink_error w merged)
  note ok = db_inv_phase [OF inv unlink_error(2)]
  have h: "nd_lock s = Some w" using ok by (simp add: phase_ok_def critical_def)
  note c = content_holder [OF unlink_error(2) h]
  have m: "merged = merge_nonces (loadNoncesFrom (nd_disk s)) (locals ! w)" if "\<not> nd_damaged s"
    using ok that by (auto simp: phase_ok_def)
  have t: "content t = loadNoncesFrom (first_of (nd_disk s) (Some merged))" using c(3) [of "Retrying merged"] unlink_error(1) by simp
  have l: "covers merged (locals ! w)" if "\<not> nd_damaged s" unfolding m [OF that] by (rule covers_merge_local)
  have g: "covers (content t) l" if "covers (content s) l" for l
    using that c(4) unfolding t by (cases "nd_disk s") (simp_all add: covers_nothing)
  show ?thesis
    by (rule db_inv_update [OF inv, where w = w and p = "Retrying merged" and disk' = "nd_disk s" and lock' = "nd_lock s" and damaged' = "nd_damaged s"])
      (use unlink_error h l g m in \<open>auto simp: phase_ok_def critical_def stored_def\<close>)
next
  case (rename_again w merged)
  note ok = db_inv_phase [OF inv rename_again(2)]
  have h: "nd_lock s = Some w" using ok by (simp add: phase_ok_def critical_def)
  note c = content_holder [OF rename_again(2) h]
  have l: "covers merged (locals ! w)" if "\<not> nd_damaged s" using ok that by (simp add: phase_ok_def)
  have g: "covers merged l" if "\<not> nd_damaged s" "covers (content s) l" for l
    using ok that unfolding c(4) by (cases "nd_disk s") (auto simp: phase_ok_def intro: covers_merge)
  show ?thesis
    by (rule db_inv_update [OF inv, where w = w and p = "Written merged" and disk' = "Some merged" and lock' = "nd_lock s" and damaged' = "nd_damaged s"])
      (use rename_again h c(1) l g in \<open>auto simp: phase_ok_def critical_def stored_def\<close>)
next
  case (rename_again_error w merged)
  note ok = db_inv_phase [OF inv rename_again_error(2)]
  have h: "nd_lock s = Some w" using ok by (simp add: phase_ok_def critical_def)
  note c = content_holder [OF rename_again_error(2) h]
  show ?thesis
    by (rule db_inv_update [OF inv, where w = w and p = Aborting and disk' = "nd_disk s" and lock' = "nd_lock s"
          and damaged' = "nd_damaged s \<or> nd_disk s = None"])
      (use rename_again_error h c in \<open>auto simp: phase_ok_def critical_def stored_def\<close>)
next
  case (release w merged)
  note ok = db_inv_phase [OF inv release(2)]
  have h: "nd_lock s = Some w" using ok by (simp add: phase_ok_def critical_def)
  have c: "content s = loadNoncesFrom (nd_disk s)" by (rule content_no_retry [OF release(2) h]) simp
  show ?thesis
    by (rule db_inv_update [OF inv, where w = w and p = "Finished merged" and disk' = "nd_disk s" and lock' = None and damaged' = "nd_damaged s"])
      (use release h ok c in \<open>auto simp: content_released phase_ok_def critical_def stored_def\<close>)
next
  case (release_error w merged)
  note ok = db_inv_phase [OF inv release_error(2)]
  have h: "nd_lock s = Some w" using ok by (simp add: phase_ok_def critical_def)
  show ?thesis
    by (rule db_inv_update [OF inv, where w = w and p = "Finished merged" and disk' = "nd_disk s" and lock' = "nd_lock s" and damaged' = "nd_damaged s"])
      (use release_error h ok in \<open>auto simp: content_waiting phase_ok_def critical_def stored_def\<close>)
next
  case (abort w)
  note ok = db_inv_phase [OF inv abort(2)]
  have h: "nd_lock s = Some w" using ok by (simp add: phase_ok_def critical_def)
  have c: "content s = loadNoncesFrom (nd_disk s)" by (rule content_no_retry [OF abort(2) h]) simp
  show ?thesis
    by (rule db_inv_update [OF inv, where w = w and p = Failed and disk' = "nd_disk s" and lock' = None and damaged' = "nd_damaged s"])
      (use abort h c in \<open>auto simp: content_released phase_ok_def critical_def stored_def\<close>)
next
  case (abort_error w)
  note ok = db_inv_phase [OF inv abort_error(2)]
  have h: "nd_lock s = Some w" using ok by (simp add: phase_ok_def critical_def)
  show ?thesis
    by (rule db_inv_update [OF inv, where w = w and p = Failed and disk' = "nd_disk s" and lock' = "nd_lock s" and damaged' = "nd_damaged s"])
      (use abort_error h in \<open>auto simp: content_waiting phase_ok_def critical_def stored_def\<close>)
qed

lemma db_inv_steps: "(db_step locals)\<^sup>*\<^sup>* s t \<Longrightarrow> db_inv locals init s \<Longrightarrow> db_inv locals init t"
  by (induction rule: rtranclp_induct) (auto intro: db_inv_step)

text \<open>A fresh start with \<open>n\<close> processes.\<close>

definition db_start :: "nonces option \<Rightarrow> nat \<Rightarrow> NonceDb" where
  "db_start disk n = \<lparr>nd_disk = disk, nd_lock = None, nd_phases = replicate n Waiting, nd_damaged = False\<rparr>"


lemma db_stepI [intro]:
  "db_step l s t \<Longrightarrow> (db_step l)\<^sup>*\<^sup>* t u \<Longrightarrow> (db_step l)\<^sup>*\<^sup>* s u"
  by (rule converse_rtranclp_into_rtranclp)

text \<open>Two processes of which the second cannot rename at first: the first has nonce 9 for \<open>a\<close>, the second 7 and one for \<open>b\<close>.\<close>

definition two_locals :: "nonces list" where "two_locals = [[(''a'', 9)], [(''a'', 7), (''b'', 4)]]"

lemma two_writers:
  "(db_step two_locals)\<^sup>*\<^sup>* (db_start (Some [(''a'', 3)]) 2)
     \<lparr>nd_disk = None, nd_lock = Some 1, nd_phases = [Finished [(''a'', 9)], Retrying [(''a'', 9), (''b'', 4)]], nd_damaged = False\<rparr>"
proof -
  let ?db = "\<lambda>d l p. \<lparr>nd_disk = d, nd_lock = l, nd_phases = p, nd_damaged = False\<rparr>"
  let ?a = "[(''a'', 3)] :: nonces" and ?b = "[(''a'', 9)] :: nonces" and ?c = "[(''a'', 9), (''b'', 4)] :: nonces"
  note d = set_phase_def merge_nonces_def merge_nonce_def two_locals_def in_phase_def
  have 1: "db_step two_locals (?db (Some ?a) None [Waiting, Waiting]) (?db (Some ?a) (Some 0) [Holding, Waiting])"
    using db_step.take_lock [of "?db (Some ?a) None [Waiting, Waiting]" 0] by (simp add: d)
  have 2: "db_step two_locals (?db (Some ?a) (Some 0) [Holding, Waiting]) (?db (Some ?a) (Some 0) [Loaded ?a, Waiting])"
    using db_step.load_file [of "?db (Some ?a) (Some 0) [Holding, Waiting]" 0] by (simp add: d)
  have 3: "db_step two_locals (?db (Some ?a) (Some 0) [Loaded ?a, Waiting]) (?db (Some ?b) (Some 0) [Written ?b, Waiting])"
    using db_step.rename [of "?db (Some ?a) (Some 0) [Loaded ?a, Waiting]" 0 ?a ?b two_locals] by (simp add: d)
  have 4: "db_step two_locals (?db (Some ?b) (Some 0) [Written ?b, Waiting]) (?db (Some ?b) None [Finished ?b, Waiting])"
    using db_step.release [of "?db (Some ?b) (Some 0) [Written ?b, Waiting]" 0 ?b] by (simp add: d)
  have 5: "db_step two_locals (?db (Some ?b) None [Finished ?b, Waiting]) (?db (Some ?b) (Some 1) [Finished ?b, Holding])"
    using db_step.take_lock [of "?db (Some ?b) None [Finished ?b, Waiting]" 1] by (simp add: d)
  have 6: "db_step two_locals (?db (Some ?b) (Some 1) [Finished ?b, Holding]) (?db (Some ?b) (Some 1) [Finished ?b, Loaded ?b])"
    using db_step.load_file [of "?db (Some ?b) (Some 1) [Finished ?b, Holding]" 1] by (simp add: d)
  have 7: "db_step two_locals (?db (Some ?b) (Some 1) [Finished ?b, Loaded ?b]) (?db (Some ?b) (Some 1) [Finished ?b, Replacing ?c])"
    using db_step.rename_error [of "?db (Some ?b) (Some 1) [Finished ?b, Loaded ?b]" 1 ?b ?c two_locals] by (simp add: d)
  have 8: "db_step two_locals (?db (Some ?b) (Some 1) [Finished ?b, Replacing ?c]) (?db None (Some 1) [Finished ?b, Retrying ?c])"
    using db_step.unlink [of "?db (Some ?b) (Some 1) [Finished ?b, Replacing ?c]" 1 ?c] by (simp add: d)
  have "(db_step two_locals)\<^sup>*\<^sup>* (?db (Some ?a) None [Waiting, Waiting]) (?db None (Some 1) [Finished ?b, Retrying ?c])"
    by (rule db_stepI [OF 1], rule db_stepI [OF 2], rule db_stepI [OF 3], rule db_stepI [OF 4], rule db_stepI [OF 5], rule db_stepI [OF 6],
        rule db_stepI [OF 7], rule db_stepI [OF 8], rule rtranclp.rtrancl_refl)
  then show ?thesis by (simp add: db_start_def numeral_2_eq_2)
qed


text \<open>When the second rename fails too, what was completed is lost: the file is gone.\<close>

lemma failed_replacement_loses:
  "\<exists>s. (db_step two_locals)\<^sup>*\<^sup>* (db_start (Some [(''a'', 3)]) 2) s \<and> stored (nd_phases s ! 0) \<and> \<not> covers (content s) (two_locals ! 0)"
proof -
  let ?s = "\<lparr>nd_disk = None, nd_lock = Some 1, nd_phases = [Finished [(''a'', 9)], Retrying [(''a'', 9), (''b'', 4)]], nd_damaged = False\<rparr>"
  let ?t = "\<lparr>nd_disk = None, nd_lock = Some 1, nd_phases = [Finished [(''a'', 9)], Aborting], nd_damaged = True\<rparr>"
  have "db_step two_locals ?s ?t"
    using db_step.rename_again_error [of ?s 1 "[(''a'', 9), (''b'', 4)]" two_locals] by (simp add: set_phase_def in_phase_def)
  with two_writers have "(db_step two_locals)\<^sup>*\<^sup>* (db_start (Some [(''a'', 3)]) 2) ?t" by (rule rtranclp.rtrancl_into_rtrancl)
  moreover have "stored (nd_phases ?t ! 0)" by (simp add: stored_def)
  moreover have "\<not> covers (content ?t) (two_locals ! 0)" by (simp add: covers_def content_def held_def two_locals_def)
  ultimately show ?thesis by blast
qed

text \<open>A lock directory that its holder could not remove is never removed: nobody gets the lock again.\<close>

lemma stale_lock_stays:
  assumes "(db_step locals)\<^sup>*\<^sup>* s t" "nd_lock s = Some w" "in_phase s w (Finished m) \<or> in_phase s w Failed" "db_inv locals init s"
  shows "nd_lock t = Some w"
proof -
  have "nd_lock t = Some w \<and> (in_phase t w (Finished m) \<or> in_phase t w Failed) \<and> db_inv locals init t"
    using assms(1)
  proof (induction rule: rtranclp_induct)
    case (step t u)
    have inv: "db_inv locals init u" using step by (blast intro: db_inv_step)
    have crit: "v = w" if "in_phase t v p" "critical p" for v p
      using step(3) db_inv_phase [of locals init t v p] that by (auto simp: phase_ok_def)
    show ?case using step(2)
    proof cases
      case (take_lock v) then show ?thesis using step(3) by simp
    qed (use step(3) inv crit in \<open>auto simp: in_phase_def set_phase_def critical_def nth_list_update\<close>)
  qed (use assms in auto)
  then show ?thesis by blast
qed

section \<open>What a round reports\<close>

text \<open>The nonce last seen for an address: in the metrics so far, else in the stored map.\<close>

definition last_seen :: "nonces \<Rightarrow> RelayerMetrics list \<Rightarrow> string \<Rightarrow> int option" where
  "last_seen prev ms a =
     (case filter (\<lambda>m. rm_address m = a) ms of [] \<Rightarrow> jmap_get prev a | ys \<Rightarrow> Some (rm_nonce (last ys)))"

lemma analyze_loop_nonces: "snd (analyze_loop cfg prev ms) = foldl (\<lambda>p m. jmap_set (rm_address m) (rm_nonce m) p) prev ms"
proof (induction ms arbitrary: prev)
  case (Cons m ms)
  have "snd (analyze_metric cfg prev m) = jmap_set (rm_address m) (rm_nonce m) prev"
    by (simp add: analyze_metric_def Let_def)
  then show ?case using Cons by (simp split: prod.splits) (metis snd_conv)
qed simp

lemma last_seen_nonces: "jmap_get (snd (analyze_loop cfg prev ms)) a = last_seen prev ms a"
  by (simp add: analyze_loop_nonces last_seen_def set_table.get_foldl_put)

lemma analyze_loop_append:
  "fst (analyze_loop cfg prev (ms @ [m])) =
     fst (analyze_loop cfg prev ms) @ fst (analyze_metric cfg (snd (analyze_loop cfg prev ms)) m)"
proof (induction ms arbitrary: prev)
  case (Cons x xs)
  obtain d p where "analyze_metric cfg prev x = (d, p)" by fastforce
  then show ?case using Cons [of p] by (simp add: case_prod_beta)
qed (simp add: case_prod_beta)

text \<open>The types reported for one metric, given the nonce last seen for its address.\<close>

definition reported :: "DetectorConfig \<Rightarrow> int option \<Rightarrow> RelayerMetrics \<Rightarrow> AnomalyType \<Rightarrow> bool" where
  "reported cfg seen m ty \<longleftrightarrow>
     (case ty of
        NONCE_REUSE \<Rightarrow> (\<exists>p. seen = Some p \<and> rm_nonce m \<le> p)
      | NONCE_SPIKE \<Rightarrow> (case seen of Some p \<Rightarrow> rm_nonce m - p | None \<Rightarrow> 0) > dc_NONCE_SPIKE_THRESHOLD cfg
      | FAILED_TX_BURST \<Rightarrow> dc_FAILED_TX_THRESHOLD cfg \<le> rm_failedTxCount m
      | UNAUTHORIZED_ADDRESS \<Rightarrow> dc_AUTHORIZED_ADDRESSES cfg \<noteq> {} \<and> rm_address m \<notin> dc_AUTHORIZED_ADDRESSES cfg
      | THREAT_FEED_MATCH \<Rightarrow> isThreat (dc_threatFetcher cfg) (rm_address m))"

definition all_types :: "AnomalyType list" where
  "all_types = [NONCE_REUSE, NONCE_SPIKE, FAILED_TX_BURST, UNAUTHORIZED_ADDRESS, THREAT_FEED_MATCH]"

lemma analyze_metric_types:
  "map (\<lambda>a. (aa_type a, aa_address a)) (fst (analyze_metric cfg prev m)) =
     map (\<lambda>ty. (ty, rm_address m)) (filter (reported cfg (jmap_get prev (rm_address m)) m) all_types)"
  by (cases "jmap_get prev (rm_address m)")
    (auto simp: analyze_metric_def Let_def all_types_def reported_def anomaly_def jmap_has_def)

lemma analyze_loop_types:
  "map (\<lambda>a. (aa_type a, aa_address a)) (fst (analyze_loop cfg prev ms)) =
     concat (map (\<lambda>i. map (\<lambda>ty. (ty, rm_address (ms ! i)))
       (filter (reported cfg (last_seen prev (take i ms) (rm_address (ms ! i))) (ms ! i)) all_types)) [0..<length ms])"
proof (induction ms rule: rev_induct)
  case (snoc m ms)
  let ?r = "\<lambda>ns i. map (\<lambda>ty. (ty, rm_address (ns ! i)))
      (filter (reported cfg (last_seen prev (take i ns) (rm_address (ns ! i))) (ns ! i)) all_types)"
  have c: "concat (map (?r (ms @ [m])) [0..<length ms]) = concat (map (?r ms) [0..<length ms])"
    by (rule arg_cong [where f = concat], rule map_cong) (simp_all add: nth_append)
  have "take (length ms) (ms @ [m]) = ms" by simp
  then show ?case using snoc
    by (simp add: analyze_loop_append analyze_metric_types last_seen_nonces c del: take_append)
qed simp

lemma admit_outcome:
  "(\<exists>e. fst (admit date_ok ms g) = Inl e) \<longleftrightarrow> \<not> list_all (\<lambda>(clk, m). valid_time (rm_timestamp m)) ms"
proof (induction ms arbitrary: g)
  case (Cons x ms)
  obtain clk m where x: "x = (clk, m)" by fastforce
  show ?case
  proof (cases "metric_event m")
    case (Inl e)
    then have "\<not> valid_time (rm_timestamp m)"
      using toISOString_valid [of "rm_timestamp m"] by (auto simp: metric_event_def split: sum.splits)
    then show ?thesis using Inl by (simp add: x)
  next
    case (Inr ev)
    then have "valid_time (rm_timestamp m)"
      using toISOString_valid [of "rm_timestamp m"] by (auto simp: metric_event_def split: sum.splits)
    then show ?thesis using Inr Cons
      by (auto simp: x split: prod.splits sum.splits) (metis fst_conv sum.distinct(1))+
  qed
qed simp

text \<open>The metrics of a round that passed the ingestion guard.\<close>

definition admitted_metrics :: "(string \<Rightarrow> bool) \<Rightarrow> Detector \<Rightarrow> ((int \<times> int) \<times> RelayerMetrics) list \<Rightarrow> RelayerMetrics list" where
  "admitted_metrics date_ok d ms = (case fst (admit date_ok ms (dt_guard d)) of Inl _ \<Rightarrow> [] | Inr accepted \<Rightarrow> accepted)"


end
