(* ===== verification/Severity_Tiering.thy ===== *)
theory Severity_Tiering
  imports Js_Json
begin

text \<open>
  The severity tiering engine (\<open>src/audit-guard/src/severity-tiering.ts\<close>): classification of confirmed
  events with keyword, value, repetition and burst escalation, the driven alert action, the
  telemetry stream, and dispatch. Whether the dashboard accepted an alert and whether paging
  failed are arguments of \<open>dispatchEscalation\<close>.
\<close>

section \<open>Data\<close>

datatype EscalationTarget = Telemetry_log | Dashboard_alert | On_call_primary | On_call_secondary
  | On_call_manager | All_on_call_roles

record ConfirmedEvent =
  ce_id :: string
  ce_eventType :: string
  ce_source :: string
  ce_timestamp :: jsnum
  ce_confirmed :: bool
  ce_rawSeverity :: "Severity option"
  ce_metadata :: "(string, string) jmap"
  ce_matchedSignals :: "string list"
  ce_actor :: string
  ce_repository :: string
  ce_message :: string
  ce_repeatCount :: "jsnum option"
  ce_value :: "jsnum option"

record DrivenAlertAction =
  da_eventId :: string
  da_eventType :: string
  da_source :: string
  da_calculatedTier :: Severity
  da_escalationTargets :: "EscalationTarget list"
  da_requiresAck :: bool
  da_retryCount :: nat
  da_alertMessage :: string
  da_timestamp :: jsnum
  da_observationalOnly :: bool

datatype RecordType = Info | Alert_driven | Failure_surfaced

record TelemetryRecord =
  tr_id :: string
  tr_timestamp :: jsnum
  tr_recordType :: RecordType
  tr_eventId :: string
  tr_tier :: "Severity option"
  tr_detail :: string
  tr_error :: "string option"

record EscalationPolicy =
  po_burstWindowSecs :: int
  po_lowToMedium :: int
  po_mediumToHigh :: int
  po_highToCritical :: int
  po_maxPayloadBytes :: int
  po_highValue :: int

record TieringEngine =
  te_options :: EscalationPolicy
  te_eventHistory :: "(string, jsnum list) jmap"
  te_telemetryStream :: "TelemetryRecord list"

definition default_policy :: EscalationPolicy where
  "default_policy = \<lparr>po_burstWindowSecs = 300, po_lowToMedium = 3, po_mediumToHigh = 3, po_highToCritical = 3,
     po_maxPayloadBytes = 65536, po_highValue = 1000000\<rparr>"

definition new_tiering :: "EscalationPolicy \<Rightarrow> TieringEngine" where
  "new_tiering policy = \<lparr>te_options = policy, te_eventHistory = [], te_telemetryStream = []\<rparr>"

definition CRITICAL_KEYWORDS :: "string list" where
  "CRITICAL_KEYWORDS = [''private_key'', ''token_leak'', ''key_compromise'', ''emergency_exit'', ''zk_proof_invalid'',
     ''unauthorized_state'', ''reentrancy'', ''double_spend'']"

definition HIGH_KEYWORDS :: "string list" where
  "HIGH_KEYWORDS = [''unauthorized'', ''access denied'', ''permission denied'', ''privilege_escalation'',
     ''relayer_state_mismatch'', ''admin_override'', ''auth_failure'']"

definition MEDIUM_KEYWORDS :: "string list" where
  "MEDIUM_KEYWORDS = [''input_sanitization'', ''gas_spike'', ''nonce_desync'', ''rate_limit_exceeded'', ''log_anomaly'',
     ''warning'']"

section \<open>Classification\<close>

definition elevateTier :: "Severity \<Rightarrow> Severity \<Rightarrow> Severity" where
  "elevateTier current candidate = (if severity_weight candidate > severity_weight current then candidate else current)"

text \<open>\<open>a >= b\<close> on numbers; false for \<open>NaN\<close>.\<close>

definition js_ge :: "jsnum \<Rightarrow> jsnum \<Rightarrow> bool" where
  "js_ge a b = (js_gt a b \<or> (a = b \<and> a \<noteq> JNaN))"

definition adversarial :: "string \<Rightarrow> bool" where
  "adversarial text = (text \<noteq> [] \<and> (str_includes text [CHR 0x00] \<or> str_includes text ''<script>''
     \<or> str_includes text ''DROP TABLE''))"

definition reject_event :: "EscalationPolicy \<Rightarrow> ConfirmedEvent \<Rightarrow> string option" where
  "reject_event opts e =
     (let estimatedSize = int (length (ce_id e) + length (ce_eventType e) + length (ce_source e)
            + length (ce_message e) + length (ce_actor e) + length (ce_repository e))
      in if \<not> ce_confirmed e then
           Some (''Event must be confirmed to evaluate severity tiering: event_id='' @ ce_id e)
         else if trim (ce_id e) = [] then Some ''Event ID cannot be empty''
         else if \<not> js_gt (ce_timestamp e) (Num 0) then
           Some (''Invalid event timestamp: '' @ show_num (ce_timestamp e))
         else if estimatedSize > po_maxPayloadBytes opts then
           Some (''Adversarial payload detected in event: Payload size '' @ show_int estimatedSize
             @ '' exceeds maximum allowed limit '' @ show_int (po_maxPayloadBytes opts))
         else if \<exists>t \<in> set [ce_message e, ce_actor e, ce_repository e, ce_eventType e]. adversarial t then
           Some ''Adversarial payload detected in event: Malicious pattern or null byte detected''
         else None)"

definition combinedText :: "ConfirmedEvent \<Rightarrow> string" where
  "combinedText e = toLowerCase (ce_eventType e @ '' '' @ join '' '' (ce_matchedSignals e) @ '' '' @ ce_message e)"

definition keyword_tier :: "ConfirmedEvent \<Rightarrow> Severity \<Rightarrow> Severity" where
  "keyword_tier e tier =
     (if \<exists>kw \<in> set CRITICAL_KEYWORDS. str_includes (combinedText e) kw then elevateTier tier CRITICAL
      else if \<exists>kw \<in> set HIGH_KEYWORDS. str_includes (combinedText e) kw then elevateTier tier HIGH
      else if \<exists>kw \<in> set MEDIUM_KEYWORDS. str_includes (combinedText e) kw then elevateTier tier MEDIUM
      else tier)"

definition value_tier :: "EscalationPolicy \<Rightarrow> ConfirmedEvent \<Rightarrow> Severity \<Rightarrow> Severity" where
  "value_tier opts e tier =
     (case ce_value e of
        Some v \<Rightarrow> if js_ge v (Num (po_highValue opts)) then elevateTier tier HIGH else tier
      | None \<Rightarrow> tier)"

definition repeat_tier :: "EscalationPolicy \<Rightarrow> ConfirmedEvent \<Rightarrow> Severity \<Rightarrow> Severity" where
  "repeat_tier opts e tier =
     (case ce_repeatCount e of
        Some r \<Rightarrow>
          if js_ge r (Num (po_highToCritical opts)) \<and> severity_weight tier \<ge> severity_weight HIGH then CRITICAL
          else if js_ge r (Num (po_mediumToHigh opts)) \<and> severity_weight tier \<ge> severity_weight MEDIUM then HIGH
          else if js_ge r (Num (po_lowToMedium opts)) \<and> severity_weight tier \<ge> severity_weight LOW then MEDIUM
          else tier
      | None \<Rightarrow> tier)"

definition burst_tier :: "EscalationPolicy \<Rightarrow> nat \<Rightarrow> Severity \<Rightarrow> Severity" where
  "burst_tier opts burstCount tier =
     (if int burstCount \<ge> po_highToCritical opts \<and> tier = HIGH then CRITICAL
      else if int burstCount \<ge> po_mediumToHigh opts \<and> tier = MEDIUM then HIGH
      else if int burstCount \<ge> po_lowToMedium opts \<and> tier = LOW then MEDIUM
      else tier)"

definition valid_history :: "EscalationPolicy \<Rightarrow> ConfirmedEvent \<Rightarrow> jsnum list \<Rightarrow> jsnum list" where
  "valid_history opts e history =
     (let windowStart = js_sub (ce_timestamp e) (Num (po_burstWindowSecs opts))
      in filter (\<lambda>t. js_ge t windowStart) history @ [ce_timestamp e])"

definition classifyEvent :: "TieringEngine \<Rightarrow> ConfirmedEvent \<Rightarrow> (string + Severity) \<times> TieringEngine" where
  "classifyEvent te e =
     (let opts = te_options te
      in case reject_event opts e of
           Some err \<Rightarrow> (Inl err, te)
         | None \<Rightarrow>
             (let raw = (case ce_rawSeverity e of Some s \<Rightarrow> s | None \<Rightarrow> LOW);
                  tier = repeat_tier opts e (value_tier opts e (keyword_tier e raw));
                  history = (case jmap_get (te_eventHistory te) (ce_eventType e) of Some h \<Rightarrow> h | None \<Rightarrow> []);
                  validHistory = valid_history opts e history
              in (Inr (burst_tier opts (length validHistory) tier),
                  te\<lparr>te_eventHistory := jmap_set (ce_eventType e) validHistory (te_eventHistory te)\<rparr>)))"

section \<open>Escalation\<close>

definition surfaceFailure :: "string \<Rightarrow> string \<Rightarrow> jsnum \<Rightarrow> TieringEngine \<Rightarrow> TieringEngine" where
  "surfaceFailure eventId errorMsg timestamp te =
     te\<lparr>te_telemetryStream := te_telemetryStream te @
       [\<lparr>tr_id = ''telemetry-err-'' @ show_nat (length (te_telemetryStream te) + 1), tr_timestamp = timestamp,
         tr_recordType = Failure_surfaced, tr_eventId = eventId, tr_tier = None,
         tr_detail = ''Event processing failed: '' @ errorMsg, tr_error = Some errorMsg\<rparr>]\<rparr>"

fun escalation_targets :: "Severity \<Rightarrow> EscalationTarget list" where
  "escalation_targets LOW = [Telemetry_log]"
| "escalation_targets MEDIUM = [Telemetry_log, Dashboard_alert]"
| "escalation_targets HIGH = [Telemetry_log, Dashboard_alert, On_call_primary]"
| "escalation_targets CRITICAL = [Telemetry_log, Dashboard_alert, All_on_call_roles]"

definition retry_count :: "Severity \<Rightarrow> nat" where
  "retry_count tier = (if tier = CRITICAL then 5 else if tier = HIGH then 3 else if tier = MEDIUM then 2 else 1)"

definition evaluateAndEscalate ::
  "int \<Rightarrow> TieringEngine \<Rightarrow> ConfirmedEvent \<Rightarrow> (string + DrivenAlertAction) \<times> TieringEngine" where
  "evaluateAndEscalate now te e =
     (let timestamp = (if js_gt (ce_timestamp e) (Num 0) then ce_timestamp e else Num now)
      in case classifyEvent te e of
           (Inl err, te') \<Rightarrow> (Inl err, surfaceFailure (ce_id e) err timestamp te')
         | (Inr tier, te') \<Rightarrow>
             (let alertMessage = ''['' @ severity_name tier @ ''] '' @ ce_eventType e @ '' from '' @ ce_source e
                    @ '' (Event ID: '' @ ce_id e @ '')'';
                  action = \<lparr>da_eventId = ce_id e, da_eventType = ce_eventType e, da_source = ce_source e,
                    da_calculatedTier = tier, da_escalationTargets = escalation_targets tier,
                    da_requiresAck = (severity_weight tier \<ge> severity_weight HIGH),
                    da_retryCount = retry_count tier, da_alertMessage = alertMessage, da_timestamp = timestamp,
                    da_observationalOnly = True\<rparr>
              in (Inr action, te'\<lparr>te_telemetryStream := te_telemetryStream te' @
                   [\<lparr>tr_id = ''telemetry-rec-'' @ show_nat (length (te_telemetryStream te') + 1),
                     tr_timestamp = timestamp, tr_recordType = Alert_driven, tr_eventId = ce_id e,
                     tr_tier = Some tier, tr_detail = alertMessage, tr_error = None\<rparr>]\<rparr>)))"

text \<open>The outcome of the dashboard and of paging: absent when no client is given.\<close>

definition dispatchEscalation ::
  "bool option \<Rightarrow> string option option \<Rightarrow> DrivenAlertAction \<Rightarrow> TieringEngine \<Rightarrow> (range_error + bool) \<times> TieringEngine" where
  "dispatchEscalation dashboard paging action te =
     (let page = (\<lambda>success.
            if On_call_primary \<in> set (da_escalationTargets action) \<or> All_on_call_roles \<in> set (da_escalationTargets action)
            then (case paging of
                Some (Some err) \<Rightarrow> (Inr False,
                  surfaceFailure (da_eventId action) (''OnCall paging failed: '' @ err) (da_timestamp action) te)
              | _ \<Rightarrow> (Inr success, te))
            else (Inr success, te))
      in case dashboard of
           Some pushed \<Rightarrow>
             if Dashboard_alert \<in> set (da_escalationTargets action) then
               (case toISOString (da_timestamp action) of
                  Inl e \<Rightarrow> (Inl e, te)
                | Inr _ \<Rightarrow> page pushed)
             else page True
         | None \<Rightarrow> page True)"

definition clearTelemetryStream :: "TieringEngine \<Rightarrow> TieringEngine" where
  "clearTelemetryStream te = te\<lparr>te_telemetryStream := []\<rparr>"

section \<open>Escalation never lowers a severity\<close>

lemma elevateTier_max: "elevateTier s t = max s t"
  by (auto simp: elevateTier_def max_def severity_order dest: severity_weight_inj)

lemma keyword_tier_up: "tier \<le> keyword_tier e tier"
  by (simp add: keyword_tier_def elevateTier_max)

lemma value_tier_up: "tier \<le> value_tier opts e tier"
  by (auto simp: value_tier_def elevateTier_max le_max_iff_disj split: option.splits)

lemma burst_tier_up: "tier \<le> burst_tier opts n tier"
  by (auto simp: burst_tier_def severity_order)

lemma js_ge_trans: "js_ge r (Num a) \<Longrightarrow> b \<le> a \<Longrightarrow> js_ge r (Num b)"
  by (cases r) (auto simp: js_ge_def)

text \<open>Thresholds that do not grow towards the higher tiers, as the defaults.\<close>

definition ordered_policy :: "EscalationPolicy \<Rightarrow> bool" where
  "ordered_policy opts \<longleftrightarrow> po_highToCritical opts \<le> po_mediumToHigh opts \<and> po_mediumToHigh opts \<le> po_lowToMedium opts"

lemma repeat_tier_up: "ordered_policy opts \<Longrightarrow> tier \<le> repeat_tier opts e tier"
  using js_ge_trans [of _ "po_mediumToHigh opts" "po_highToCritical opts"]
    js_ge_trans [of _ "po_lowToMedium opts" "po_mediumToHigh opts"]
  by (cases tier) (auto simp: repeat_tier_def ordered_policy_def severity_order split: option.splits)

text \<open>
  Classification only escalates. When the repetition thresholds do not grow towards the higher
  tiers, as with the default options, the tier of an accepted event is at least its raw severity,
  at least what its keywords ask for, and at least HIGH for a high value; an accepted event extends
  the telemetry by one alert record with that tier, a rejected one by one failure record.\<close>

theorem tiering_escalates:
  assumes "ordered_policy (te_options te)"
  shows "let r = fst (evaluateAndEscalate now te e); te' = snd (evaluateAndEscalate now te e);
             raw = (case ce_rawSeverity e of Some s \<Rightarrow> s | None \<Rightarrow> LOW)
         in (case r of
               Inr a \<Rightarrow> keyword_tier e raw \<le> da_calculatedTier a \<and> raw \<le> da_calculatedTier a
                 \<and> value_tier (te_options te) e raw \<le> da_calculatedTier a
                 \<and> map (\<lambda>t. (tr_recordType t, tr_tier t)) (te_telemetryStream te')
                     = map (\<lambda>t. (tr_recordType t, tr_tier t)) (te_telemetryStream te)
                       @ [(Alert_driven, Some (da_calculatedTier a))]
             | Inl err \<Rightarrow> reject_event (te_options te) e = Some err \<and> te_eventHistory te' = te_eventHistory te
                 \<and> map tr_error (te_telemetryStream te') = map tr_error (te_telemetryStream te) @ [Some err])"
proof (cases "reject_event (te_options te) e")
  case (Some err)
  then show ?thesis by (simp add: evaluateAndEscalate_def classifyEvent_def surfaceFailure_def Let_def)
next
  case None
  let ?o = "te_options te" and ?raw = "case ce_rawSeverity e of Some s \<Rightarrow> s | None \<Rightarrow> LOW"
  let ?k = "keyword_tier e ?raw"
  have v: "value_tier ?o e ?raw \<le> value_tier ?o e ?k"
    using keyword_tier_up [of ?raw e] by (auto simp: value_tier_def elevateTier_max le_max_iff_disj split: option.splits)
  have up: "value_tier ?o e ?k \<le> burst_tier ?o n (repeat_tier ?o e (value_tier ?o e ?k))" for n
    using repeat_tier_up [OF assms] burst_tier_up order_trans by blast
  have k: "?k \<le> burst_tier ?o n (repeat_tier ?o e (value_tier ?o e ?k))" for n
    by (rule order_trans [OF value_tier_up up])
  have w: "value_tier ?o e ?raw \<le> burst_tier ?o n (repeat_tier ?o e (value_tier ?o e ?k))" for n
    by (rule order_trans [OF v up])
  have r: "?raw \<le> burst_tier ?o n (repeat_tier ?o e (value_tier ?o e ?k))" for n
    by (rule order_trans [OF keyword_tier_up k])
  show ?thesis using None k w r
    by (simp add: evaluateAndEscalate_def classifyEvent_def Let_def)
qed

definition demo_event :: ConfirmedEvent where
  "demo_event = \<lparr>ce_id = ''e1'', ce_eventType = ''x'', ce_source = ''s'', ce_timestamp = Num 5, ce_confirmed = True,
     ce_rawSeverity = Some CRITICAL, ce_metadata = [], ce_matchedSignals = [], ce_actor = [], ce_repository = [], ce_message = [],
     ce_repeatCount = Some (Num 5), ce_value = None\<rparr>"

theorem tiering_escalates_witness:
  "map_sum id da_calculatedTier (fst (evaluateAndEscalate 0 (new_tiering default_policy) demo_event)) = Inr CRITICAL"
proof -
  have "ordered_policy (te_options (new_tiering default_policy))"
    by (simp add: ordered_policy_def new_tiering_def default_policy_def)
  note t = tiering_escalates [OF this, of 0 demo_event]
  have r: "reject_event default_policy demo_event = None"
    by (simp add: reject_event_def demo_event_def default_policy_def trim_def is_ws_def adversarial_def startsWith_def)
  obtain a where a: "fst (evaluateAndEscalate 0 (new_tiering default_policy) demo_event) = Inr a"
    using r by (auto simp: evaluateAndEscalate_def classifyEvent_def new_tiering_def Let_def)
  then have "CRITICAL \<le> da_calculatedTier a" using t by (simp add: Let_def demo_event_def)
  then have "da_calculatedTier a = CRITICAL" by (cases "da_calculatedTier a") (auto simp: severity_order)
  then show ?thesis using a by simp
qed

text \<open>Thresholds in the other order lower a tier: a CRITICAL event repeated five times becomes HIGH
  when HIGH asks for three repetitions and CRITICAL for ten.\<close>

lemma repeat_count_lowers:
  "repeat_tier (default_policy\<lparr>po_highToCritical := 10\<rparr>) demo_event CRITICAL = HIGH"
  by (simp add: repeat_tier_def default_policy_def demo_event_def js_ge_def)

end
