(* ===== verification/Security_Gate.thy ===== *)
theory Security_Gate
  imports Js_Json
begin

text \<open>
  The CI security gate (\<open>src/audit-guard/src/security-gate.ts\<close>) and the drift report between two scans
  (\<open>src/audit-guard/src/diff-engine.ts\<close>). A scan report is the value \<open>JSON.parse\<close> makes of its text,
  or nothing when the text is not JSON; a \<open>TypeError\<close> raised on an ill-typed report is an error
  value. The file access of the drift engine is not modelled.
\<close>

section \<open>The gate\<close>

definition em_dash :: string where
  "em_dash = [CHR 0xE2, CHR 0x80, CHR 0x94]"

definition SEVERITY_RANK :: "string \<Rightarrow> int option" where
  "SEVERITY_RANK s = (if s = ''INFO'' then Some 0 else if s = ''LOW'' then Some 1 else if s = ''MEDIUM'' then Some 2
     else if s = ''HIGH'' then Some 3 else if s = ''CRITICAL'' then Some 4 else None)"

definition severityRank :: "string \<Rightarrow> int option" where
  "severityRank severity = SEVERITY_RANK (toUpperCase severity)"

definition isBlockingSeverity :: "string \<Rightarrow> jsnum \<Rightarrow> bool" where
  "isBlockingSeverity severity threshold =
     (if \<not> js_isFinite threshold then True
      else (case severityRank severity of None \<Rightarrow> True | Some rank \<Rightarrow> js_gt (Num rank) threshold))"

record SecurityGateResult =
  sg_passed :: bool
  sg_threshold :: jsnum
  sg_totalFindings :: nat
  sg_blockingFindings :: "jsval list"
  sg_blockingGovernanceFindings :: "jsval list"
  sg_summary :: string
  sg_error :: "string option"

text \<open>\<open>isBlockingSeverity(finding.severity, threshold)\<close> on a finding of unknown shape: reading a
  property of \<open>null\<close> and upper-casing a value that is not a text raise.\<close>

definition blocking_finding :: "jsnum \<Rightarrow> jsval \<Rightarrow> string + bool" where
  "blocking_finding threshold finding =
     (if is_nullish finding then Inl ''TypeError''
      else if \<not> js_isFinite threshold then Inr True
      else (case js_get finding ''severity'' of
              JString s \<Rightarrow> Inr (isBlockingSeverity s threshold)
            | _ \<Rightarrow> Inl ''TypeError''))"

fun blocking_findings :: "jsnum \<Rightarrow> jsval list \<Rightarrow> string + jsval list" where
  "blocking_findings threshold [] = Inr []"
| "blocking_findings threshold (f # fs) =
     (case blocking_finding threshold f of
        Inl e \<Rightarrow> Inl e
      | Inr b \<Rightarrow> map_sum id (\<lambda>rest. if b then f # rest else rest) (blocking_findings threshold fs))"

definition array_or_empty :: "jsval \<Rightarrow> string + jsval list" where
  "array_or_empty v = (if is_nullish v then Inr [] else (case v of JArray vs \<Rightarrow> Inr vs | _ \<Rightarrow> Inl ''TypeError''))"

definition gate_result :: "jsnum \<Rightarrow> jsval list \<Rightarrow> jsval list \<Rightarrow> jsval list \<Rightarrow> jsval list \<Rightarrow> SecurityGateResult" where
  "gate_result threshold findings governance blocking blockingGovernance =
     (let totalBlocking = length blocking + length blockingGovernance;
          totalFindings = length findings + length governance
      in if totalBlocking > 0 then
           \<lparr>sg_passed = False, sg_threshold = threshold, sg_totalFindings = totalFindings,
            sg_blockingFindings = blocking, sg_blockingGovernanceFindings = blockingGovernance,
            sg_summary = ''Build blocked '' @ em_dash @ '' '' @ show_nat totalBlocking
              @ '' finding(s) exceed severity threshold ('' @ show_num threshold @ '').'', sg_error = None\<rparr>
         else
           \<lparr>sg_passed = True, sg_threshold = threshold, sg_totalFindings = totalFindings,
            sg_blockingFindings = [], sg_blockingGovernanceFindings = [],
            sg_summary = (if totalFindings = 0 then ''Security gate passed '' @ em_dash @ '' no findings.''
              else ''Security gate passed '' @ em_dash @ '' '' @ show_nat totalFindings @ '' finding(s) within threshold.''),
            sg_error = None\<rparr>)"

definition evaluateSecurityGate :: "jsval \<Rightarrow> jsnum \<Rightarrow> string + SecurityGateResult" where
  "evaluateSecurityGate report threshold =
     (case array_or_empty (js_get report ''findings'') of
        Inl e \<Rightarrow> Inl e
      | Inr findings \<Rightarrow>
      (case blocking_findings threshold findings of
        Inl e \<Rightarrow> Inl e
      | Inr blocking \<Rightarrow>
      (case array_or_empty (js_get report ''governance_findings'') of
        Inl e \<Rightarrow> Inl e
      | Inr governance \<Rightarrow>
      (case blocking_findings threshold governance of
        Inl e \<Rightarrow> Inl e
      | Inr blockingGovernance \<Rightarrow> Inr (gate_result threshold findings governance blocking blockingGovernance)))))"

definition blocked :: "jsnum \<Rightarrow> string \<Rightarrow> string \<Rightarrow> SecurityGateResult" where
  "blocked threshold reason e = \<lparr>sg_passed = False, sg_threshold = threshold, sg_totalFindings = 0,
     sg_blockingFindings = [], sg_blockingGovernanceFindings = [],
     sg_summary = ''Build blocked '' @ em_dash @ '' '' @ reason, sg_error = Some e\<rparr>"

definition evaluateSecurityGateFromJson :: "jsval option \<Rightarrow> jsnum \<Rightarrow> string + SecurityGateResult" where
  "evaluateSecurityGateFromJson parsed threshold =
     (case parsed of
        None \<Rightarrow> Inr (blocked threshold ''scan report is not valid JSON.'' ''INVALID_JSON'')
      | Some report \<Rightarrow>
          if is_nullish report then Inl ''TypeError''
          else (case js_get report ''findings'' of
             JArray _ \<Rightarrow>
               (let invalid = Inr (blocked threshold
                      ''scan report target is missing, empty, or marked as not analyzed.'' ''INVALID_REPORT'')
                in case js_get report ''target'' of
                     JString t \<Rightarrow>
                       if trim t = [] \<or> trim t = ''N/A'' then invalid else evaluateSecurityGate report threshold
                   | JNull \<Rightarrow> invalid
                   | JUndefined \<Rightarrow> invalid
                   | _ \<Rightarrow> Inl ''TypeError'')
           | _ \<Rightarrow> Inr (blocked threshold ''scan report is missing a findings array.'' ''INVALID_REPORT'')))"

section \<open>Drift between scans\<close>

record DiffFinding =
  df_file :: string
  df_line :: "int option"
  df_rule :: "string option"
  df_severity :: "string option"
  df_snippet :: "string option"

record DiffReport =
  dr_added :: "DiffFinding list"
  dr_removed :: "DiffFinding list"
  dr_modified :: "DiffFinding list"
  dr_unchanged :: "DiffFinding list"
  dr_drift_detected :: bool
  dr_drift_summary :: string
  dr_current_hash :: "string option"
  dr_previous_hash :: "string option"

record ScanReport =
  sr_target :: "string option"
  sr_total_files :: "nat option"
  sr_findings :: "DiffFinding list"
  sr_report_hash :: "string option"

definition createFindingsKey :: "DiffFinding \<Rightarrow> string" where
  "createFindingsKey f = join '':'' [df_file f, (case df_line f of None \<Rightarrow> [] | Some l \<Rightarrow> show_int l),
     (case df_rule f of None \<Rightarrow> [] | Some r \<Rightarrow> r)]"

definition createFindingsMap :: "DiffFinding list \<Rightarrow> (string, DiffFinding) jmap" where
  "createFindingsMap findings = foldl (\<lambda>m f. jmap_set (createFindingsKey f) f m) [] findings"

definition isModified :: "DiffFinding \<Rightarrow> DiffFinding \<Rightarrow> bool" where
  "isModified current previous = (df_severity current \<noteq> df_severity previous \<or> df_snippet current \<noteq> df_snippet previous)"

definition generateSummary :: "bool \<Rightarrow> nat \<Rightarrow> nat \<Rightarrow> nat \<Rightarrow> string" where
  "generateSummary drift added removed modified =
     (if \<not> drift then [CHR 0xE2, CHR 0x9C, CHR 0x85] @ '' No drift detected - state matches previous scan''
      else [CHR 0xE2, CHR 0x9A, CHR 0xA0, CHR 0xEF, CHR 0xB8, CHR 0x8F] @ '' Drift detected: ''
        @ join '', '' ((if added > 0 then [''+'' @ show_nat added @ '' new finding(s)''] else [])
          @ (if removed > 0 then [''-'' @ show_nat removed @ '' resolved finding(s)''] else [])
          @ (if modified > 0 then [''~'' @ show_nat modified @ '' modified finding(s)''] else [])))"

definition compare_reports :: "ScanReport \<Rightarrow> ScanReport option \<Rightarrow> DiffReport" where
  "compare_reports current previous =
     (case previous of
        None \<Rightarrow>
          \<lparr>dr_added = sr_findings current, dr_removed = [], dr_modified = [], dr_unchanged = [],
           dr_drift_detected = (length (sr_findings current) > 0),
           dr_drift_summary = ''Initial scan: '' @ show_nat (length (sr_findings current)) @ '' finding(s) detected'',
           dr_current_hash = sr_report_hash current, dr_previous_hash = None\<rparr>
      | Some prev \<Rightarrow>
          (let currentMap = createFindingsMap (sr_findings current);
               previousMap = createFindingsMap (sr_findings prev);
               added = map snd (filter (\<lambda>(k, f). \<not> jmap_has previousMap k) currentMap);
               modified = map snd (filter (\<lambda>(k, f). case jmap_get previousMap k of
                   None \<Rightarrow> False | Some p \<Rightarrow> isModified f p) currentMap);
               unchanged = map snd (filter (\<lambda>(k, f). case jmap_get previousMap k of
                   None \<Rightarrow> False | Some p \<Rightarrow> \<not> isModified f p) currentMap);
               removed = map snd (filter (\<lambda>(k, f). \<not> jmap_has currentMap k) previousMap);
               drift = (length added > 0 \<or> length removed > 0 \<or> length modified > 0)
           in \<lparr>dr_added = added, dr_removed = removed, dr_modified = modified, dr_unchanged = unchanged,
               dr_drift_detected = drift,
               dr_drift_summary = generateSummary drift (length added) (length removed) (length modified),
               dr_current_hash = sr_report_hash current, dr_previous_hash = sr_report_hash prev\<rparr>))"

definition nl :: string where "nl = [CHR 0x0A]"

definition formatFinding :: "DiffFinding \<Rightarrow> string \<Rightarrow> string" where
  "formatFinding f mark =
     ''- '' @ mark @ '' **'' @ df_file f
     @ (case df_line f of Some l \<Rightarrow> if l = 0 then [] else '':'' @ show_int l | None \<Rightarrow> []) @ ''**''
     @ (case df_rule f of
          Some (c # r) \<Rightarrow> '' ['' @ (case df_severity f of Some (d # s) \<Rightarrow> d # s | _ \<Rightarrow> ''UNKNOWN'') @ ''] '' @ (c # r)
        | _ \<Rightarrow> [])
     @ nl"

definition generateMarkdownReport :: "DiffReport \<Rightarrow> string" where
  "generateMarkdownReport d =
     ''## '' @ [CHR 0xF0, CHR 0x9F, CHR 0x93, CHR 0x8A] @ '' State Drift Analysis'' @ nl @ nl
     @ dr_drift_summary d @ nl @ nl
     @ (case dr_current_hash d of Some (c # h) \<Rightarrow> ''**Current Hash:** `'' @ (c # h) @ ''`'' @ nl | _ \<Rightarrow> [])
     @ (case dr_previous_hash d of Some (c # h) \<Rightarrow> ''**Previous Hash:** `'' @ (c # h) @ ''`'' @ nl | _ \<Rightarrow> [])
     @ nl
     @ (if length (dr_added d) > 0 then ''### '' @ [CHR 0xF0, CHR 0x9F, CHR 0x94, CHR 0xB4] @ '' New Findings'' @ nl @ nl
          @ concat (map (\<lambda>f. formatFinding f ''+'') (dr_added d)) else [])
     @ (if length (dr_removed d) > 0 then ''### '' @ [CHR 0xF0, CHR 0x9F, CHR 0x9F, CHR 0xA2] @ '' Resolved Findings'' @ nl @ nl
          @ concat (map (\<lambda>f. formatFinding f ''-'') (dr_removed d)) else [])
     @ (if length (dr_modified d) > 0 then ''### '' @ [CHR 0xF0, CHR 0x9F, CHR 0x9F, CHR 0xA1] @ '' Modified Findings'' @ nl @ nl
          @ concat (map (\<lambda>f. formatFinding f ''~'') (dr_modified d)) else [])
     @ (if \<not> dr_drift_detected d then ''### '' @ [CHR 0xE2, CHR 0x9C, CHR 0x85] @ '' State Match'' @ nl @ nl
          @ ''All '' @ show_nat (length (dr_unchanged d)) @ '' finding(s) remain unchanged.'' @ nl else [])"

section \<open>The gate fails closed\<close>

text \<open>A finding that may pass: its severity is one of the five known, not above the threshold.\<close>

definition within_threshold :: "jsnum \<Rightarrow> jsval \<Rightarrow> bool" where
  "within_threshold threshold f \<longleftrightarrow>
     (\<exists>s r t. js_get f ''severity'' = JString s \<and> SEVERITY_RANK (toUpperCase s) = Some r \<and> threshold = Num t \<and> r \<le> t)"

lemma blocking_finding_pass: "blocking_finding threshold f = Inr False \<longleftrightarrow> within_threshold threshold f"
  by (cases threshold; cases f)
    (auto simp: blocking_finding_def within_threshold_def js_isFinite_def isBlockingSeverity_def severityRank_def
      is_nullish_def split: option.splits jsval.splits)

lemma blocking_findings_pass:
  "blocking_findings threshold fs = Inr [] \<longleftrightarrow> list_all (within_threshold threshold) fs"
proof (induction fs)
  case (Cons f fs)
  then show ?case
    by (cases "blocking_finding threshold f"; cases "blocking_findings threshold fs")
      (auto simp: blocking_finding_pass [symmetric] split: if_splits)
qed simp

lemma evaluateSecurityGate_passes:
  assumes f: "js_get report ''findings'' = JArray fs"
  shows "(\<exists>r. evaluateSecurityGate report threshold = Inr r \<and> sg_passed r) \<longleftrightarrow>
      (\<exists>gs. array_or_empty (js_get report ''governance_findings'') = Inr gs
         \<and> list_all (within_threshold threshold) (fs @ gs))"
proof -
  have "array_or_empty (js_get report ''findings'') = Inr fs" by (simp add: f array_or_empty_def is_nullish_def)
  then show ?thesis
    by (auto simp: evaluateSecurityGate_def gate_result_def Let_def blocking_findings_pass [symmetric]
        split: sum.splits if_splits)
qed

text \<open>
  C22. The gate passes a build exactly when there is a reason to: the report is JSON with a findings array
  and a non-blank target other than the not-analysed mark, and every finding, governance findings
  included, has a known severity that is not above a finite threshold. Everything else blocks, or
  raises on an ill-typed report.\<close>

theorem gate_fails_closed:
  "(\<exists>r. evaluateSecurityGateFromJson parsed threshold = Inr r \<and> sg_passed r) \<longleftrightarrow>
     (\<exists>report fs gs t. parsed = Some report \<and> js_get report ''findings'' = JArray fs
        \<and> array_or_empty (js_get report ''governance_findings'') = Inr gs
        \<and> js_get report ''target'' = JString t \<and> trim t \<noteq> [] \<and> trim t \<noteq> ''N/A''
        \<and> list_all (within_threshold threshold) (fs @ gs))"
proof (cases parsed)
  case (Some report)
  show ?thesis
  proof (cases "\<exists>fs. js_get report ''findings'' = JArray fs")
    case True
    then obtain fs where fs: "js_get report ''findings'' = JArray fs" by blast
    then have "\<not> is_nullish report" by (auto simp: is_nullish_def)
    then show ?thesis using evaluateSecurityGate_passes [OF fs] fs
      by (auto simp: Some evaluateSecurityGateFromJson_def blocked_def Let_def split: jsval.splits)
  next
    case False
    then show ?thesis by (auto simp: Some evaluateSecurityGateFromJson_def blocked_def split: jsval.splits)
  qed
qed (simp add: evaluateSecurityGateFromJson_def blocked_def)

section \<open>A drift report is a partition\<close>

text \<open>The finding a report holds under a key: the last one with that key.\<close>

definition last_with_key :: "DiffFinding list \<Rightarrow> string \<Rightarrow> DiffFinding option" where
  "last_with_key fs k = (case filter (\<lambda>f. createFindingsKey f = k) fs of [] \<Rightarrow> None | ys \<Rightarrow> Some (last ys))"

lemma findings_map_get: "jmap_get (createFindingsMap fs) k = last_with_key fs k"
  by (simp add: createFindingsMap_def set_table.get_foldl_put last_with_key_def split: list.splits)

lemma findings_map_ok: "jmap_ok (createFindingsMap fs)"
  unfolding createFindingsMap_def by (rule set_table.ok_foldl_put) (simp add: jmap_ok_def)

lemma in_findings_map: "(k, f) \<in> set (createFindingsMap fs) \<longleftrightarrow> last_with_key fs k = Some f"
  using findings_map_ok [of fs] findings_map_get [of fs k] by (auto simp: jmap_ok_def)

lemma last_with_key_key: "last_with_key fs k = Some f \<Longrightarrow> createFindingsKey f = k"
  using last_in_set [of "filter (\<lambda>f. createFindingsKey f = k) fs"]
  by (auto simp: last_with_key_def split: list.splits)

text \<open>
  The drift report accounts for every finding. Against a previous scan, a finding is added exactly
  when its key is new, removed when its key is gone, and modified or unchanged by whether severity
  or snippet changed, the last finding with a key standing for that key; drift is reported exactly
  when one of the first three is not empty.\<close>

theorem drift_report_exact:
  "let d = compare_reports current (Some previous);
       cur = last_with_key (sr_findings current); prev = last_with_key (sr_findings previous)
   in set (dr_added d) = {f. \<exists>k. cur k = Some f \<and> prev k = None}
    \<and> set (dr_removed d) = {f. \<exists>k. prev k = Some f \<and> cur k = None}
    \<and> set (dr_modified d) = {f. \<exists>k p. cur k = Some f \<and> prev k = Some p \<and> isModified f p}
    \<and> set (dr_unchanged d) = {f. \<exists>k p. cur k = Some f \<and> prev k = Some p \<and> \<not> isModified f p}
    \<and> (dr_drift_detected d \<longleftrightarrow> (\<exists>k. cur k \<noteq> None \<and> prev k = None) \<or> (\<exists>k. prev k \<noteq> None \<and> cur k = None)
         \<or> (\<exists>k f p. cur k = Some f \<and> prev k = Some p \<and> isModified f p))"
proof -
  let ?c = "createFindingsMap (sr_findings current)" and ?p = "createFindingsMap (sr_findings previous)"
  let ?cur = "last_with_key (sr_findings current)" and ?prev = "last_with_key (sr_findings previous)"
  have a: "set (map snd (filter (\<lambda>(k, f). \<not> jmap_has ?p k) ?c)) = {f. \<exists>k. ?cur k = Some f \<and> ?prev k = None}"
    by (force simp: in_findings_map findings_map_get jmap_has_def)
  have r: "set (map snd (filter (\<lambda>(k, f). \<not> jmap_has ?c k) ?p)) = {f. \<exists>k. ?prev k = Some f \<and> ?cur k = None}"
    by (force simp: in_findings_map findings_map_get jmap_has_def)
  have m: "set (map snd (filter (\<lambda>(k, f). case jmap_get ?p k of None \<Rightarrow> False | Some p \<Rightarrow> isModified f p) ?c))
      = {f. \<exists>k p. ?cur k = Some f \<and> ?prev k = Some p \<and> isModified f p}"
    by (force simp: in_findings_map findings_map_get split: option.splits)
  have u: "set (map snd (filter (\<lambda>(k, f). case jmap_get ?p k of None \<Rightarrow> False | Some p \<Rightarrow> \<not> isModified f p) ?c))
      = {f. \<exists>k p. ?cur k = Some f \<and> ?prev k = Some p \<and> \<not> isModified f p}"
    by (force simp: in_findings_map findings_map_get split: option.splits)
  have len: "(length xs > 0) = (set xs \<noteq> {})" for xs :: "DiffFinding list" by simp
  show ?thesis unfolding Let_def compare_reports_def option.case DiffReport.simps len a r m u by blast
qed

end
