(* ===== verification/Overflow_Check.thy ===== *)
theory Overflow_Check
  imports Js_Json
begin

text \<open>
  The integer overflow check: the interval domain and the expression evaluator
  (\<open>src/audit-guard/src/abstract-interpreter.ts\<close>) and the line-by-line checker
  (\<open>src/audit-guard/src/overflow-checker.ts\<close>). A \<open>bigint\<close> is an \<open>int\<close>. The assignment pattern is the
  deterministic matcher of the regular expression: none of its repetitions can give a character
  back to what follows, except the blank before an empty expression, which evaluates to nothing.
\<close>

section \<open>Intervals\<close>

record Interval =
  iv_min :: int
  iv_max :: int

definition fromValue :: "int \<Rightarrow> Interval" where
  "fromValue v = \<lparr>iv_min = v, iv_max = v\<rparr>"

definition iv_add :: "Interval \<Rightarrow> Interval \<Rightarrow> Interval" where
  "iv_add a b = \<lparr>iv_min = iv_min a + iv_min b, iv_max = iv_max a + iv_max b\<rparr>"

definition iv_sub :: "Interval \<Rightarrow> Interval \<Rightarrow> Interval" where
  "iv_sub a b = \<lparr>iv_min = iv_min a - iv_max b, iv_max = iv_max a - iv_min b\<rparr>"

definition iv_mul :: "Interval \<Rightarrow> Interval \<Rightarrow> Interval" where
  "iv_mul a b =
     (let vals = [iv_min a * iv_min b, iv_min a * iv_max b, iv_max a * iv_min b, iv_max a * iv_max b]
      in \<lparr>iv_min = foldl (\<lambda>m v. if v < m then v else m) (hd vals) vals,
          iv_max = foldl (\<lambda>m v. if v > m then v else m) (hd vals) vals\<rparr>)"

definition isWithinBounds :: "Interval \<Rightarrow> int \<Rightarrow> int \<Rightarrow> bool" where
  "isWithinBounds i lo hi = (iv_min i \<ge> lo \<and> iv_max i \<le> hi)"

definition iv_toString :: "Interval \<Rightarrow> string" where
  "iv_toString i = ''['' @ show_int (iv_min i) @ '', '' @ show_int (iv_max i) @ '']''"

section \<open>Expressions\<close>

type_synonym VariableState = "(string, Interval) jmap"

definition operands :: "char \<Rightarrow> string \<Rightarrow> (string \<times> string) option" where
  "operands op expr = (case split_on op expr of [l, r] \<Rightarrow> Some (l, r) | _ \<Rightarrow> None)"

definition combine :: "(Interval \<Rightarrow> Interval \<Rightarrow> Interval) \<Rightarrow> Interval option \<Rightarrow> Interval option \<Rightarrow> Interval option" where
  "combine f a b = (case (a, b) of (Some x, Some y) \<Rightarrow> Some (f x y) | _ \<Rightarrow> None)"

definition or_else :: "'a option \<Rightarrow> 'a option \<Rightarrow> 'a option" where
  "or_else a b = (case a of Some x \<Rightarrow> Some x | None \<Rightarrow> b)"

lemma operands_shorter:
  assumes "operands d s = Some (l, r)"
  shows "length l < length s \<and> length r < length s"
proof -
  have "split_on d s = [l, r]" using assms by (auto simp: operands_def split: list.splits)
  then have "join [d] [l, r] = s" using join_split_on [of d s] by simp
  then have "s = l @ d # r" by simp
  then show ?thesis by simp
qed

lemma trim_shorter: "length l < length (trim s) \<Longrightarrow> length l < length s"
  using length_trim [of s] by simp

text \<open>
  The operators are tried in the order of the source; one applies when it occurs exactly once and
  both operands evaluate.
\<close>

function evaluateExpression :: "VariableState \<Rightarrow> string \<Rightarrow> Interval option" where
  "evaluateExpression state expr0 =
     (let expr = trim expr0
      in if expr \<noteq> [] \<and> list_all is_digit expr then Some (fromValue (int (read_base 10 expr)))
         else if jmap_has state expr then jmap_get state expr
         else or_else
           (case operands CHR ''+'' expr of None \<Rightarrow> None
            | Some (l, r) \<Rightarrow> combine iv_add (evaluateExpression state l) (evaluateExpression state r))
           (or_else
             (case operands CHR ''-'' expr of None \<Rightarrow> None
              | Some (l, r) \<Rightarrow> combine iv_sub (evaluateExpression state l) (evaluateExpression state r))
             (case operands CHR ''*'' expr of None \<Rightarrow> None
              | Some (l, r) \<Rightarrow> combine iv_mul (evaluateExpression state l) (evaluateExpression state r))))"
  by auto

termination
  by (relation "measure (length \<circ> snd)") (auto dest!: operands_shorter intro: trim_shorter)

declare evaluateExpression.simps [simp del]

section \<open>The checker\<close>

record OverflowFinding =
  of_file :: string
  of_line :: nat
  of_rule :: string
  of_severity :: Severity
  of_message :: string
  of_detail :: string

definition is_word_char :: "char \<Rightarrow> bool" where
  "is_word_char c = (let n = of_char c :: nat in (48 \<le> n \<and> n \<le> 57) \<or> (65 \<le> n \<and> n \<le> 90) \<or> n = 95 \<or> (97 \<le> n \<and> n \<le> 122))"

text \<open>\<open>\s*=\s*([^;]+)\<close> after the name and the optional type.\<close>

definition match_value :: "string \<Rightarrow> string option" where
  "match_value s =
     (case dropWhile is_ws s of
        [] \<Rightarrow> None
      | c # rest \<Rightarrow>
          if c \<noteq> CHR ''='' then None
          else (let e = takeWhile (\<lambda>c. c \<noteq> CHR '';'') rest in if e = [] then None else Some e))"

definition match_type :: "string \<Rightarrow> string option" where
  "match_type s =
     (case dropWhile is_ws s of
        [] \<Rightarrow> None
      | c # rest \<Rightarrow>
          if c \<noteq> CHR '':'' then None
          else (let t = dropWhile is_ws rest
                in if takeWhile is_word_char t = [] then None else Some (dropWhile is_word_char t)))"

definition match_here :: "string \<Rightarrow> (string \<times> string) option" where
  "match_here s =
     (case (if startsWith s ''let'' then Some (drop 3 s) else if startsWith s ''const'' then Some (drop 5 s)
            else if startsWith s ''var'' then Some (drop 3 s) else None) of
        None \<Rightarrow> None
      | Some r \<Rightarrow>
          (let r1 = dropWhile is_ws r; name = takeWhile is_word_char r1; r2 = dropWhile is_word_char r1
           in if r1 = r \<or> name = [] then None
              else (case (case match_type r2 of Some r3 \<Rightarrow> match_value r3 | None \<Rightarrow> match_value r2) of
                      Some e \<Rightarrow> Some (name, e)
                    | None \<Rightarrow> None)))"

fun match_assignment :: "string \<Rightarrow> (string \<times> string) option" where
  "match_assignment [] = None"
| "match_assignment (c # s) = (case match_here (c # s) of Some m \<Rightarrow> Some m | None \<Rightarrow> match_assignment s)"

definition cross_mark :: string where
  "cross_mark = [CHR 0xE2, CHR 0x9D, CHR 0x8C]"

definition overflow_finding :: "string \<Rightarrow> nat \<Rightarrow> string \<Rightarrow> string \<Rightarrow> Interval \<Rightarrow> OverflowFinding list" where
  "overflow_finding filename i varName expression interval =
     (if iv_max interval > 18446744073709551615 then
        [\<lparr>of_file = filename, of_line = i, of_rule = ''INTEGER_OVERFLOW'', of_severity = HIGH,
          of_message = cross_mark @ '' Potential integer overflow detected in '' @ [CHR 0x27] @ varName @ [CHR 0x27],
          of_detail = ''Expression '' @ [CHR 0x27] @ expression @ [CHR 0x27] @ '' evaluates to range ''
            @ iv_toString interval @ '' which exceeds u64 bounds.''\<rparr>]
      else if iv_min interval < 0 then
        [\<lparr>of_file = filename, of_line = i, of_rule = ''INTEGER_UNDERFLOW'', of_severity = HIGH,
          of_message = cross_mark @ '' Potential integer underflow detected in '' @ [CHR 0x27] @ varName @ [CHR 0x27],
          of_detail = ''Expression '' @ [CHR 0x27] @ expression @ [CHR 0x27] @ '' evaluates to range ''
            @ iv_toString interval @ '' which is negative (unsigned expected).''\<rparr>]
      else [])"

fun analyze_lines :: "string \<Rightarrow> nat \<Rightarrow> string list \<Rightarrow> VariableState \<Rightarrow> OverflowFinding list \<times> VariableState" where
  "analyze_lines filename i [] state = ([], state)"
| "analyze_lines filename i (line # rest) state =
     (case match_assignment (trim line) of
        None \<Rightarrow> analyze_lines filename (Suc i) rest state
      | Some (varName, e) \<Rightarrow>
          (case evaluateExpression state (trim e) of
             None \<Rightarrow> analyze_lines filename (Suc i) rest state
           | Some interval \<Rightarrow>
               (case analyze_lines filename (Suc i) rest (jmap_set varName interval state) of (fs, state') \<Rightarrow>
                  (overflow_finding filename i varName (trim e) interval @ fs, state'))))"

definition analyzeContent :: "string \<Rightarrow> string \<Rightarrow> OverflowFinding list" where
  "analyzeContent content filename = fst (analyze_lines filename 1 (split_on CHR 0x0A content) [])"

text \<open>\<open>read\<close> gives the content of an existing file; a file that cannot be read is skipped.\<close>

definition checkFiles :: "(string \<Rightarrow> string option) \<Rightarrow> string list \<Rightarrow> OverflowFinding list" where
  "checkFiles read files =
     concat (map (\<lambda>file. if \<not> endsWith file ''.rs'' \<and> \<not> endsWith file ''.ts'' then []
        else (case read file of None \<Rightarrow> [] | Some content \<Rightarrow> analyzeContent content file)) files)"

section \<open>Soundness of the interval operations\<close>

definition in_iv :: "int \<Rightarrow> Interval \<Rightarrow> bool" where
  "in_iv v i \<longleftrightarrow> iv_min i \<le> v \<and> v \<le> iv_max i"

lemma iv_mul_eq:
  "iv_min (iv_mul a b) = Min {iv_min a * iv_min b, iv_min a * iv_max b, iv_max a * iv_min b, iv_max a * iv_max b}"
  "iv_max (iv_mul a b) = Max {iv_min a * iv_min b, iv_min a * iv_max b, iv_max a * iv_min b, iv_max a * iv_max b}"
  by (auto simp: iv_mul_def min_def max_def)

lemma mult_between:
  fixes l u x y :: int
  assumes "l \<le> x" and "x \<le> u"
  shows "min (l * y) (u * y) \<le> x * y" and "x * y \<le> max (l * y) (u * y)"
  using assms by (cases "0 \<le> y"; auto simp: min_le_iff_disj le_max_iff_disj mult_right_mono mult_right_mono_neg)+

lemma iv_add_sound: "in_iv x a \<Longrightarrow> in_iv y b \<Longrightarrow> in_iv (x + y) (iv_add a b)"
  by (auto simp: in_iv_def iv_add_def)

lemma iv_sub_sound: "in_iv x a \<Longrightarrow> in_iv y b \<Longrightarrow> in_iv (x - y) (iv_sub a b)"
  by (auto simp: in_iv_def iv_sub_def)

lemma iv_mul_sound:
  assumes "in_iv x a" and "in_iv y b"
  shows "in_iv (x * y) (iv_mul a b)"
proof -
  let ?l = "iv_min a" and ?u = "iv_max a" and ?m = "iv_min b" and ?n = "iv_max b"
  have x: "min (?l * y) (?u * y) \<le> x * y" "x * y \<le> max (?l * y) (?u * y)"
    using mult_between [of ?l x ?u y] assms(1) by (auto simp: in_iv_def)
  have y: "min (?m * z) (?n * z) \<le> y * z" "y * z \<le> max (?m * z) (?n * z)" for z
    using mult_between [of ?m y ?n z] assms(2) by (auto simp: in_iv_def)
  have lo: "min (min (?l * ?m) (?l * ?n)) (min (?u * ?m) (?u * ?n)) \<le> x * y"
    using x(1) y(1) [of ?l] y(1) [of ?u] by (auto simp: mult.commute min_def split: if_splits)
  have hi: "x * y \<le> max (max (?l * ?m) (?l * ?n)) (max (?u * ?m) (?u * ?n))"
    using x(2) y(2) [of ?l] y(2) [of ?u] by (auto simp: mult.commute max_def split: if_splits)
  show ?thesis unfolding in_iv_def iv_mul_eq using lo hi by (simp add: min.assoc max.assoc)
qed

text \<open>The value of an expression under an assignment of the variables, by the same grammar.\<close>

definition combine_values :: "(int \<Rightarrow> int \<Rightarrow> int) \<Rightarrow> int option \<Rightarrow> int option \<Rightarrow> int option" where
  "combine_values f a b = (case (a, b) of (Some x, Some y) \<Rightarrow> Some (f x y) | _ \<Rightarrow> None)"

function expression_value :: "(string \<Rightarrow> int option) \<Rightarrow> string \<Rightarrow> int option" where
  "expression_value \<rho> expr0 =
     (let expr = trim expr0
      in if expr \<noteq> [] \<and> list_all is_digit expr then Some (int (read_base 10 expr))
         else if \<rho> expr \<noteq> None then \<rho> expr
         else or_else
           (case operands CHR ''+'' expr of None \<Rightarrow> None
            | Some (l, r) \<Rightarrow> combine_values (+) (expression_value \<rho> l) (expression_value \<rho> r))
           (or_else
             (case operands CHR ''-'' expr of None \<Rightarrow> None
              | Some (l, r) \<Rightarrow> combine_values (-) (expression_value \<rho> l) (expression_value \<rho> r))
             (case operands CHR ''*'' expr of None \<Rightarrow> None
              | Some (l, r) \<Rightarrow> combine_values (*) (expression_value \<rho> l) (expression_value \<rho> r))))"
  by auto

termination
  by (relation "measure (length \<circ> snd)") (auto dest!: operands_shorter intro: trim_shorter)

declare expression_value.simps [simp del]

text \<open>\<open>described \<rho> state\<close>: the same variables are known, and each value lies in its interval.\<close>

definition described :: "(string \<Rightarrow> int option) \<Rightarrow> VariableState \<Rightarrow> bool" where
  "described \<rho> state \<longleftrightarrow> (\<forall>x. rel_option in_iv (\<rho> x) (jmap_get state x))"

lemma combine_sound:
  assumes "\<And>x y a b. in_iv x a \<Longrightarrow> in_iv y b \<Longrightarrow> in_iv (g x y) (f a b)"
    and "rel_option in_iv v a" and "rel_option in_iv w b"
  shows "rel_option in_iv (combine_values g v w) (combine f a b)"
  using assms by (cases v; cases a; cases w; cases b) (auto simp: combine_values_def combine_def)

lemma or_else_sound:
  "rel_option in_iv v a \<Longrightarrow> rel_option in_iv w b \<Longrightarrow> rel_option in_iv (or_else v w) (or_else a b)"
  by (cases v; cases a) (auto simp: or_else_def)

lemma evaluate_sound:
  "described \<rho> state \<Longrightarrow> rel_option in_iv (expression_value \<rho> e) (evaluateExpression state e)"
proof (induction state e rule: evaluateExpression.induct)
  case (1 state e)
  let ?t = "trim e"
  have lookup: "rel_option in_iv (\<rho> ?t) (jmap_get state ?t)" using 1(7) by (simp add: described_def)
  show ?case
  proof (cases "?t \<noteq> [] \<and> list_all is_digit ?t")
    case True
    then show ?thesis
      by (simp add: evaluateExpression.simps [of state e] expression_value.simps [of \<rho> e] fromValue_def in_iv_def Let_def)
  next
    case lit: False
    then have l: "(?t \<noteq> [] \<and> list_all is_digit ?t) = False" by blast
    show ?thesis
    proof (cases "jmap_has state ?t")
      case True
      then have "\<rho> ?t \<noteq> None" using lookup by (cases "\<rho> ?t") (auto simp: jmap_has_def)
      then show ?thesis using True lookup
        unfolding evaluateExpression.simps [of state e] expression_value.simps [of \<rho> e] Let_def l if_False by simp
    next
      case False
      then have n: "\<rho> ?t = None" using lookup by (cases "\<rho> ?t") (auto simp: jmap_has_def)
      have p: "rel_option in_iv
          (case operands CHR ''+'' ?t of None \<Rightarrow> None | Some (l, r) \<Rightarrow> combine_values (+) (expression_value \<rho> l) (expression_value \<rho> r))
          (case operands CHR ''+'' ?t of None \<Rightarrow> None | Some (l, r) \<Rightarrow> combine iv_add (evaluateExpression state l) (evaluateExpression state r))"
        using 1(1,2) [OF refl lit False] 1(7) by (auto intro!: combine_sound iv_add_sound split: option.splits)
      have m: "rel_option in_iv
          (case operands CHR ''-'' ?t of None \<Rightarrow> None | Some (l, r) \<Rightarrow> combine_values (-) (expression_value \<rho> l) (expression_value \<rho> r))
          (case operands CHR ''-'' ?t of None \<Rightarrow> None | Some (l, r) \<Rightarrow> combine iv_sub (evaluateExpression state l) (evaluateExpression state r))"
        using 1(3,4) [OF refl lit False] 1(7) by (auto intro!: combine_sound iv_sub_sound split: option.splits)
      have t: "rel_option in_iv
          (case operands CHR ''*'' ?t of None \<Rightarrow> None | Some (l, r) \<Rightarrow> combine_values (*) (expression_value \<rho> l) (expression_value \<rho> r))
          (case operands CHR ''*'' ?t of None \<Rightarrow> None | Some (l, r) \<Rightarrow> combine iv_mul (evaluateExpression state l) (evaluateExpression state r))"
        using 1(5,6) [OF refl lit False] 1(7) by (auto intro!: combine_sound iv_mul_sound split: option.splits)
      show ?thesis unfolding evaluateExpression.simps [of state e] expression_value.simps [of \<rho> e] Let_def l if_False
        using False n or_else_sound [OF p or_else_sound [OF m t]] by simp
    qed
  qed
qed

text \<open>
  C30. The interval analysis is sound. When every variable's value lies in its interval and the same
  variables are known, an expression has a value exactly when the interpreter gives an interval,
  and the value lies in it, for literals, variables, sums, differences and products; so a value
  beyond the 64-bit range or below zero is always reported for the assignment.\<close>

theorem interval_analysis_sound:
  assumes "described \<rho> state"
  shows "rel_option in_iv (expression_value \<rho> e) (evaluateExpression state e)
       \<and> (\<forall>v i. expression_value \<rho> e = Some v \<and> evaluateExpression state e = Some i
            \<and> \<not> (0 \<le> v \<and> v \<le> 18446744073709551615)
            \<longrightarrow> overflow_finding file line x e i \<noteq> [])"
proof -
  note r = evaluate_sound [OF assms, of e]
  show ?thesis using r by (auto simp: overflow_finding_def in_iv_def)
qed

theorem interval_analysis_sound_witness:
  "rel_option in_iv (expression_value (\<lambda>x. if x = ''a'' then Some 3 else None) ''a * 2'')
     (evaluateExpression [(''a'', \<lparr>iv_min = -1, iv_max = 5\<rparr>)] ''a * 2'')"
  using interval_analysis_sound [of "\<lambda>x. if x = ''a'' then Some 3 else None" "[(''a'', \<lparr>iv_min = -1, iv_max = 5\<rparr>)]" "''a * 2''"]
  by (auto simp: described_def in_iv_def)

end
