(* ===== verification/Relayer_State.thy ===== *)
theory Relayer_State
  imports Js_Json Complex_Main
begin

text \<open>
  Relayer state against chain state: the reconciliation (\<open>src/audit-guard/src/relayer-state-validator.ts\<close>)
  and the nonce watcher (\<open>src/audit-guard/watcher/nonce-anomaly-watcher.ts\<close>). Sequence numbers and
  the allowed drift are integers (\<open>BigInt\<close> refuses anything else). Balances are finite or \<open>NaN\<close>
  (\<open>None\<close>: a balance text that is no number) and computed exactly, where the code rounds to doubles;
  \<open>num_text\<close> renders a number as text. Chain data,
  the delivery of alerts and the clock are arguments; delivery failures are caught in the code and
  change nothing.
\<close>

section \<open>RelayerStateValidator\<close>

record RelayerAccountState =
  ra_accountId :: string
  ra_sequenceNumber :: int
  ra_balance :: "rat option"
  ra_pendingTxCount :: nat
  ra_lastUpdatedTimestamp :: int

record ChainAccountState =
  ca_accountId :: string
  ca_sequenceNumber :: int
  ca_balance :: "rat option"
  ca_latestLedgerNumber :: nat
  ca_authoritativeTimestamp :: int

datatype TxStatus = PENDING | CONFIRMED | TX_FAILED

record PendingTransactionRecord =
  pt_txHash :: string
  pt_submittedSequence :: int
  pt_submittedTimestamp :: int
  pt_status :: TxStatus

datatype DiscrepancyType = SEQUENCE_DRIFT | BALANCE_DISCREPANCY | STALLED_TRANSACTION | UNAUTHORIZED_STATE_CHANGE

record RelayerStateDiscrepancy =
  rd_checkId :: string
  rd_type :: DiscrepancyType
  rd_severity :: Severity
  rd_accountId :: string
  rd_message :: string
  rd_relayerValue :: "string option"
  rd_chainValue :: "string option"
  rd_remediation :: string

datatype ReconciliationStatus = IN_SYNC | DRIFT_DETECTED | CRITICAL_DESYNC

record RelayerReconciliationResult =
  rc_status :: ReconciliationStatus
  rc_discrepancies :: "RelayerStateDiscrepancy list"
  rc_totalCheckedAccounts :: nat
  rc_reconciliationTimestamp :: string
  rc_summary :: string

record RelayerStateValidator =
  rv_maxAllowedSequenceDrift :: int
  rv_balanceToleranceAmount :: rat
  rv_maxPendingTxStallSeconds :: rat

definition new_validator :: "int option \<Rightarrow> rat option \<Rightarrow> rat option \<Rightarrow> RelayerStateValidator" where
  "new_validator drift tolerance stall =
     \<lparr>rv_maxAllowedSequenceDrift = (case drift of None \<Rightarrow> 5 | Some d \<Rightarrow> d),
      rv_balanceToleranceAmount = (case tolerance of None \<Rightarrow> 1 / 10000 | Some t \<Rightarrow> t),
      rv_maxPendingTxStallSeconds = (case stall of None \<Rightarrow> 300 | Some s \<Rightarrow> s)\<rparr>"

definition missing_chain :: "RelayerAccountState \<Rightarrow> RelayerStateDiscrepancy" where
  "missing_chain rs = \<lparr>rd_checkId = ''MISSING_CHAIN_STATE_'' @ ra_accountId rs, rd_type = UNAUTHORIZED_STATE_CHANGE,
     rd_severity = HIGH, rd_accountId = ra_accountId rs,
     rd_message = ''Relayer tracks account '' @ ra_accountId rs @ '' but authoritative chain state is missing or unverified.'',
     rd_relayerValue = Some (ra_accountId rs), rd_chainValue = None,
     rd_remediation = ''Verify relayer configuration and ensure account is properly registered on-chain.''\<rparr>"

definition sequence_check ::
  "RelayerStateValidator \<Rightarrow> RelayerAccountState \<Rightarrow> ChainAccountState \<Rightarrow> RelayerStateDiscrepancy list" where
  "sequence_check v rs cs =
     (let relayerSeq = ra_sequenceNumber rs; chainSeq = ca_sequenceNumber cs
      in if relayerSeq < chainSeq then
           [\<lparr>rd_checkId = ''SEQ_DESYNC_'' @ ra_accountId rs, rd_type = SEQUENCE_DRIFT, rd_severity = CRITICAL,
             rd_accountId = ra_accountId rs,
             rd_message = ''Relayer sequence number ('' @ show_int relayerSeq
               @ '') is behind chain authoritative sequence ('' @ show_int chainSeq
               @ ''). Potential state desync or rollback vulnerability.'',
             rd_relayerValue = Some (show_int relayerSeq), rd_chainValue = Some (show_int chainSeq),
             rd_remediation = ''Immediately force-resync relayer sequence number from authoritative chain state.''\<rparr>]
         else if relayerSeq > chainSeq + rv_maxAllowedSequenceDrift v then
           [\<lparr>rd_checkId = ''SEQ_DRIFT_'' @ ra_accountId rs, rd_type = SEQUENCE_DRIFT, rd_severity = MEDIUM,
             rd_accountId = ra_accountId rs,
             rd_message = ''Relayer sequence number exceeds chain sequence by more than allowed threshold (''
               @ show_int (rv_maxAllowedSequenceDrift v) @ '').'',
             rd_relayerValue = Some (show_int relayerSeq), rd_chainValue = Some (show_int chainSeq),
             rd_remediation = ''Check transaction submission pipeline for network congestion or dropped transactions.''\<rparr>]
         else [])"

text \<open>\<open>Math.abs(relayerBal - chainBal) > tolerance\<close>: never for \<open>NaN\<close>.\<close>

definition balance_diff :: "rat option \<Rightarrow> rat option \<Rightarrow> rat option" where
  "balance_diff a b = (case (a, b) of (Some x, Some y) \<Rightarrow> Some \<bar>x - y\<bar> | _ \<Rightarrow> None)"

definition balance_check ::
  "(rat option \<Rightarrow> string) \<Rightarrow> RelayerStateValidator \<Rightarrow> RelayerAccountState \<Rightarrow> ChainAccountState
   \<Rightarrow> RelayerStateDiscrepancy list" where
  "balance_check num_text v rs cs =
     (case balance_diff (ra_balance rs) (ca_balance cs) of
        None \<Rightarrow> []
      | Some d \<Rightarrow>
          if d > rv_balanceToleranceAmount v then
            [\<lparr>rd_checkId = ''BAL_DISCREPANCY_'' @ ra_accountId rs, rd_type = BALANCE_DISCREPANCY,
              rd_severity = (if d > 100 then CRITICAL else HIGH), rd_accountId = ra_accountId rs,
              rd_message = ''Relayer recorded balance ('' @ num_text (ra_balance rs) @ '') diverges from chain balance (''
                @ num_text (ca_balance cs) @ '') beyond tolerance ('' @ num_text (Some (rv_balanceToleranceAmount v)) @ '').'',
              rd_relayerValue = Some (num_text (ra_balance rs)), rd_chainValue = Some (num_text (ca_balance cs)),
              rd_remediation = ''Audit recent outgoing transactions and reconcile ledger balance changes.''\<rparr>]
          else [])"

definition chain_map :: "ChainAccountState list \<Rightarrow> (string, ChainAccountState) jmap" where
  "chain_map chainStates = foldl (\<lambda>m cs. jmap_set (ca_accountId cs) cs m) [] chainStates"

definition account_check ::
  "(rat option \<Rightarrow> string) \<Rightarrow> RelayerStateValidator \<Rightarrow> (string, ChainAccountState) jmap \<Rightarrow> RelayerAccountState
   \<Rightarrow> RelayerStateDiscrepancy list" where
  "account_check num_text v m rs =
     (case jmap_get m (ra_accountId rs) of
        None \<Rightarrow> [missing_chain rs]
      | Some cs \<Rightarrow> sequence_check v rs cs @ balance_check num_text v rs cs)"

definition stall_duration :: "int \<Rightarrow> PendingTransactionRecord \<Rightarrow> rat" where
  "stall_duration now tx = of_int (now - pt_submittedTimestamp tx) / 1000"

text \<open>\<open>Math.round\<close>.\<close>

definition js_round :: "rat \<Rightarrow> int" where
  "js_round x = \<lfloor>x + 1 / 2\<rfloor>"

definition stall_check ::
  "(rat option \<Rightarrow> string) \<Rightarrow> RelayerStateValidator \<Rightarrow> int \<Rightarrow> PendingTransactionRecord \<Rightarrow> RelayerStateDiscrepancy list" where
  "stall_check num_text v now tx =
     (if pt_status tx = PENDING \<and> stall_duration now tx > rv_maxPendingTxStallSeconds v then
        [\<lparr>rd_checkId = ''STALLED_TX_'' @ pt_txHash tx, rd_type = STALLED_TRANSACTION, rd_severity = MEDIUM,
          rd_accountId = ''GLOBAL'',
          rd_message = ''Transaction '' @ pt_txHash tx @ '' has been pending for ''
            @ show_int (js_round (stall_duration now tx)) @ ''s, exceeding max stall duration (''
            @ num_text (Some (rv_maxPendingTxStallSeconds v)) @ ''s).'',
          rd_relayerValue = Some (show_int (js_round (stall_duration now tx)) @ ''s''), rd_chainValue = None,
          rd_remediation = ''Resubmit transaction with higher fee replacement or mark transaction as dropped.''\<rparr>]
      else [])"

fun status_text :: "ReconciliationStatus \<Rightarrow> string" where
  "status_text IN_SYNC = ''IN_SYNC''"
| "status_text DRIFT_DETECTED = ''DRIFT_DETECTED''"
| "status_text CRITICAL_DESYNC = ''CRITICAL_DESYNC''"

definition check_icon :: string where "check_icon = [CHR 0xE2, CHR 0x9C, CHR 0x85]"
definition warn_icon :: string where "warn_icon = [CHR 0xE2, CHR 0x9A, CHR 0xA0, CHR 0xEF, CHR 0xB8, CHR 0x8F]"
definition alarm_icon :: string where "alarm_icon = [CHR 0xF0, CHR 0x9F, CHR 0x9A, CHR 0xA8]"

definition reconcile_status :: "RelayerStateDiscrepancy list \<Rightarrow> ReconciliationStatus" where
  "reconcile_status ds =
     (if \<exists>d \<in> set ds. rd_severity d = CRITICAL \<or> rd_severity d = HIGH then CRITICAL_DESYNC
      else if length ds > 0 then DRIFT_DETECTED else IN_SYNC)"

text \<open>\<open>now\<close> is the time the checks use, \<open>stamp\<close> the clock reading for the timestamp of the result.\<close>

definition reconcile ::
  "(rat option \<Rightarrow> string) \<Rightarrow> RelayerStateValidator \<Rightarrow> RelayerAccountState list \<Rightarrow> ChainAccountState list
   \<Rightarrow> PendingTransactionRecord list \<Rightarrow> int \<Rightarrow> int \<Rightarrow> RelayerReconciliationResult" where
  "reconcile num_text v relayerStates chainStates pendingTxs now stamp =
     (let m = chain_map chainStates;
          discrepancies = concat (map (account_check num_text v m) relayerStates)
            @ concat (map (stall_check num_text v now) pendingTxs);
          status = reconcile_status discrepancies
      in \<lparr>rc_status = status, rc_discrepancies = discrepancies, rc_totalCheckedAccounts = length relayerStates,
          rc_reconciliationTimestamp = iso_date stamp,
          rc_summary = (if status = IN_SYNC
            then check_icon @ '' Relayer state reconciled successfully across '' @ show_nat (length relayerStates)
              @ '' account(s). No state drift detected.''
            else warn_icon @ '' Detected '' @ show_nat (length discrepancies)
              @ '' discrepancy(ies) during relayer state reconciliation across '' @ show_nat (length relayerStates)
              @ '' account(s). Status: '' @ status_text status)\<rparr>)"

fun type_text :: "DiscrepancyType \<Rightarrow> string" where
  "type_text SEQUENCE_DRIFT = ''SEQUENCE_DRIFT''"
| "type_text BALANCE_DISCREPANCY = ''BALANCE_DISCREPANCY''"
| "type_text STALLED_TRANSACTION = ''STALLED_TRANSACTION''"
| "type_text UNAUTHORIZED_STATE_CHANGE = ''UNAUTHORIZED_STATE_CHANGE''"

definition newline :: string where "newline = [CHR 0x0A]"

definition discrepancy_text :: "RelayerStateDiscrepancy \<Rightarrow> string" where
  "discrepancy_text d =
     ''#### ['' @ severity_name (rd_severity d) @ ''] '' @ type_text (rd_type d) @ '' ('' @ rd_checkId d @ '')'' @ newline
     @ ''- **Account / Target:** `'' @ rd_accountId d @ ''`'' @ newline
     @ ''- **Message:** '' @ rd_message d @ newline
     @ (case (rd_relayerValue d, rd_chainValue d) of
          (Some r, Some c) \<Rightarrow> ''- **Relayer State:** `'' @ r @ ''` | **Chain State:** `'' @ c @ ''`'' @ newline
        | (Some r, None) \<Rightarrow> ''- **Observed Value:** `'' @ r @ ''`'' @ newline
        | _ \<Rightarrow> [])
     @ ''- **Remediation:** '' @ rd_remediation d @ newline @ newline"

definition generateReport :: "RelayerReconciliationResult \<Rightarrow> string" where
  "generateReport r =
     (let icon = (if rc_status r = IN_SYNC then check_icon else if rc_status r = CRITICAL_DESYNC then alarm_icon else warn_icon);
          header = ''## '' @ icon @ '' Relayer State vs Chain State Reconciliation Report'' @ newline @ newline
            @ ''**Status:** `'' @ status_text (rc_status r) @ ''`'' @ newline @ newline
            @ ''**Reconciled at:** '' @ rc_reconciliationTimestamp r @ newline @ newline
            @ ''**Accounts Checked:** '' @ show_nat (rc_totalCheckedAccounts r) @ '' | **Discrepancies:** ''
            @ show_nat (length (rc_discrepancies r)) @ newline @ newline @ rc_summary r @ newline @ newline
      in if length (rc_discrepancies r) = 0 then header
         else header @ ''---'' @ newline @ newline @ ''### Discrepancy Findings'' @ newline @ newline
           @ concat (map discrepancy_text (rc_discrepancies r)))"

section \<open>NonceAnomalyWatcher\<close>

record NonceState =
  nn_accountId :: string
  nn_engineNonce :: int
  nn_chainNonce :: int
  nn_lastSyncedLedger :: int
  nn_driftCount :: nat
  nn_maxDrift :: int
  nn_updatedAt :: int

record NonceAnomalyAlert =
  na_accountId :: string
  na_engineNonce :: int
  na_chainNonce :: int
  na_drift :: int
  na_severity :: Severity
  na_timestamp :: int
  na_ledgerNumber :: int

record NonceAnomalyWatcher =
  nw_states :: "(string, NonceState) jmap"
  nw_alertHistory :: "NonceAnomalyAlert list"

definition new_watcher :: NonceAnomalyWatcher where
  "new_watcher = \<lparr>nw_states = [], nw_alertHistory = []\<rparr>"

definition registerEngineNonce :: "string \<Rightarrow> int \<Rightarrow> int \<Rightarrow> NonceAnomalyWatcher \<Rightarrow> NonceAnomalyWatcher" where
  "registerEngineNonce accountId nonce now w =
     (let existing = jmap_get (nw_states w) accountId
      in w\<lparr>nw_states := jmap_set accountId
        \<lparr>nn_accountId = accountId, nn_engineNonce = nonce,
         nn_chainNonce = (case existing of Some s \<Rightarrow> nn_chainNonce s | None \<Rightarrow> nonce),
         nn_lastSyncedLedger = (case existing of Some s \<Rightarrow> nn_lastSyncedLedger s | None \<Rightarrow> 0),
         nn_driftCount = (case existing of Some s \<Rightarrow> nn_driftCount s | None \<Rightarrow> 0),
         nn_maxDrift = (case existing of Some s \<Rightarrow> nn_maxDrift s | None \<Rightarrow> 0), nn_updatedAt = now\<rparr> (nw_states w)\<rparr>)"

definition calculateSeverity :: "int \<Rightarrow> Severity" where
  "calculateSeverity drift = (if drift \<ge> 10 then CRITICAL else if drift \<ge> 2 then HIGH else if drift > 0 then MEDIUM else LOW)"

text \<open>One account of \<open>syncNonces\<close>: what the provider answered (nothing when it failed) and the clock.\<close>

definition sync_account ::
  "(string \<Rightarrow> (int \<times> int) option) \<Rightarrow> int \<Rightarrow> NonceAnomalyWatcher \<Rightarrow> string \<Rightarrow> NonceAnomalyAlert option \<times> NonceAnomalyWatcher" where
  "sync_account provider now w accountId =
     (case (jmap_get (nw_states w) accountId, provider accountId) of
        (Some state, Some (nonce, ledgerNumber)) \<Rightarrow>
          (let drift = \<bar>nn_engineNonce state - nonce\<bar>
           in if drift > 0 then
                (let alert = \<lparr>na_accountId = accountId, na_engineNonce = nn_engineNonce state, na_chainNonce = nonce,
                       na_drift = drift, na_severity = calculateSeverity drift, na_timestamp = now,
                       na_ledgerNumber = ledgerNumber\<rparr>
                 in (Some alert,
                     w\<lparr>nw_alertHistory := push_shift 100 (nw_alertHistory w) alert,
                       nw_states := jmap_set accountId (state\<lparr>nn_chainNonce := nonce, nn_lastSyncedLedger := ledgerNumber,
                         nn_driftCount := Suc (nn_driftCount state), nn_maxDrift := max (nn_maxDrift state) drift\<rparr>)
                         (nw_states w)\<rparr>))
              else (None, w))
      | _ \<Rightarrow> (None, w))"

fun sync_accounts ::
  "(string \<Rightarrow> (int \<times> int) option) \<Rightarrow> int \<Rightarrow> NonceAnomalyWatcher \<Rightarrow> string list \<Rightarrow> NonceAnomalyAlert list \<times> NonceAnomalyWatcher" where
  "sync_accounts provider now w [] = ([], w)"
| "sync_accounts provider now w (a # as) =
     (case sync_account provider now w a of (alert, w') \<Rightarrow>
        (case sync_accounts provider now w' as of (alerts, w'') \<Rightarrow>
           ((case alert of None \<Rightarrow> [] | Some x \<Rightarrow> [x]) @ alerts, w'')))"

definition syncNonces ::
  "(string \<Rightarrow> (int \<times> int) option) \<Rightarrow> int \<Rightarrow> NonceAnomalyWatcher \<Rightarrow> NonceAnomalyAlert list \<times> NonceAnomalyWatcher" where
  "syncNonces provider now w = sync_accounts provider now w (jmap_keys (nw_states w))"

definition getAlerts :: "NonceAnomalyWatcher \<Rightarrow> string \<Rightarrow> nat \<Rightarrow> NonceAnomalyAlert list" where
  "getAlerts w accountId limit = (let as = filter (\<lambda>a. na_accountId a = accountId) (nw_alertHistory w)
     in if limit = 0 then as else last_n limit as)"

definition getState :: "NonceAnomalyWatcher \<Rightarrow> string \<Rightarrow> NonceState option" where
  "getState w accountId = jmap_get (nw_states w) accountId"

section \<open>Reconciliation reports exactly the differences\<close>

text \<open>The chain state of an account: the last one given for it.\<close>

definition chain_state :: "ChainAccountState list \<Rightarrow> string \<Rightarrow> ChainAccountState option" where
  "chain_state css a = (case filter (\<lambda>cs. ca_accountId cs = a) css of [] \<Rightarrow> None | ys \<Rightarrow> Some (last ys))"

lemma chain_map_get: "jmap_get (chain_map css) a = chain_state css a"
  by (simp add: chain_map_def set_table.get_foldl_put chain_state_def split: list.splits)

definition over_tolerance :: "RelayerStateValidator \<Rightarrow> RelayerAccountState \<Rightarrow> ChainAccountState \<Rightarrow> bool" where
  "over_tolerance v rs cs \<longleftrightarrow> (\<exists>x y. ra_balance rs = Some x \<and> ca_balance cs = Some y \<and> \<bar>x - y\<bar> > rv_balanceToleranceAmount v)"

text \<open>An account that makes the result critical, and one that is merely ahead.\<close>

definition desynced :: "RelayerStateValidator \<Rightarrow> ChainAccountState list \<Rightarrow> RelayerAccountState \<Rightarrow> bool" where
  "desynced v css rs \<longleftrightarrow>
     (case chain_state css (ra_accountId rs) of
        None \<Rightarrow> True
      | Some cs \<Rightarrow> ra_sequenceNumber rs < ca_sequenceNumber cs \<or> over_tolerance v rs cs)"

definition ahead :: "RelayerStateValidator \<Rightarrow> ChainAccountState list \<Rightarrow> RelayerAccountState \<Rightarrow> bool" where
  "ahead v css rs \<longleftrightarrow>
     (\<exists>cs. chain_state css (ra_accountId rs) = Some cs \<and> ca_sequenceNumber cs \<le> ra_sequenceNumber rs
        \<and> ca_sequenceNumber cs + rv_maxAllowedSequenceDrift v < ra_sequenceNumber rs)"

definition stalled :: "RelayerStateValidator \<Rightarrow> int \<Rightarrow> PendingTransactionRecord \<Rightarrow> bool" where
  "stalled v now tx \<longleftrightarrow> pt_status tx = PENDING \<and> stall_duration now tx > rv_maxPendingTxStallSeconds v"

lemma balance_check_iff: "balance_check nt v rs cs \<noteq> [] \<longleftrightarrow> over_tolerance v rs cs"
  by (auto simp: balance_check_def balance_diff_def over_tolerance_def split: option.splits)

lemma sequence_check_severe:
  "(\<exists>d \<in> set (sequence_check v rs cs). rd_severity d = CRITICAL \<or> rd_severity d = HIGH)
     \<longleftrightarrow> ra_sequenceNumber rs < ca_sequenceNumber cs"
  by (simp add: sequence_check_def Let_def)

lemma balance_check_severe:
  "(\<exists>d \<in> set (balance_check nt v rs cs). rd_severity d = CRITICAL \<or> rd_severity d = HIGH) \<longleftrightarrow> over_tolerance v rs cs"
proof -
  have "\<forall>d \<in> set (balance_check nt v rs cs). rd_severity d = CRITICAL \<or> rd_severity d = HIGH"
    by (cases "balance_diff (ra_balance rs) (ca_balance cs)") (simp_all add: balance_check_def)
  then show ?thesis unfolding balance_check_iff [of nt v rs cs, symmetric] by (cases "balance_check nt v rs cs") simp_all
qed

lemma account_check_severe:
  "(\<exists>d \<in> set (account_check nt v (chain_map css) rs). rd_severity d = CRITICAL \<or> rd_severity d = HIGH)
     \<longleftrightarrow> desynced v css rs"
proof (cases "chain_state css (ra_accountId rs)")
  case None
  then show ?thesis by (simp add: account_check_def chain_map_get desynced_def missing_chain_def)
next
  case (Some cs)
  then show ?thesis using sequence_check_severe [of v rs cs] balance_check_severe [of nt v rs cs]
    unfolding account_check_def chain_map_get desynced_def by (simp only: option.simps set_append bex_Un)
qed

lemma account_check_any:
  "account_check nt v (chain_map css) rs \<noteq> [] \<longleftrightarrow> desynced v css rs \<or> ahead v css rs"
proof (cases "chain_state css (ra_accountId rs)")
  case (Some cs)
  have "sequence_check v rs cs \<noteq> [] \<longleftrightarrow> ra_sequenceNumber rs < ca_sequenceNumber cs
      \<or> ca_sequenceNumber cs \<le> ra_sequenceNumber rs \<and> ca_sequenceNumber cs + rv_maxAllowedSequenceDrift v < ra_sequenceNumber rs"
    by (auto simp: sequence_check_def Let_def)
  then show ?thesis using Some balance_check_iff [of nt v rs cs]
    by (auto simp: account_check_def chain_map_get desynced_def ahead_def)
qed (simp add: account_check_def chain_map_get desynced_def)

lemma stall_check_props:
  "(stall_check nt v now tx \<noteq> []) = stalled v now tx" "d \<in> set (stall_check nt v now tx) \<Longrightarrow> rd_severity d = MEDIUM"
  by (auto simp: stall_check_def stalled_def split: if_splits)

text \<open>
  Reconciliation reports exactly the differences. It is CRITICAL_DESYNC exactly when some tracked
  account has no chain state, is behind the chain sequence, or differs in balance beyond the
  tolerance; otherwise DRIFT_DETECTED exactly when some account is ahead by more than the allowed
  drift or some pending transaction is older than the limit; otherwise IN_SYNC with no discrepancy.\<close>

theorem reconcile_exact:
  "let r = reconcile num_text v rss css txs now stamp
   in rc_status r = (if list_ex (desynced v css) rss then CRITICAL_DESYNC
        else if list_ex (ahead v css) rss \<or> list_ex (stalled v now) txs then DRIFT_DETECTED else IN_SYNC)
    \<and> (rc_status r = IN_SYNC \<longleftrightarrow> rc_discrepancies r = []) \<and> rc_totalCheckedAccounts r = length rss"
proof -
  let ?a = "concat (map (account_check num_text v (chain_map css)) rss)"
  let ?s = "concat (map (stall_check num_text v now) txs)"
  have sev: "(\<exists>d \<in> set (?a @ ?s). rd_severity d = CRITICAL \<or> rd_severity d = HIGH) \<longleftrightarrow> list_ex (desynced v css) rss"
    using account_check_severe [of num_text v css] stall_check_props(2) [of _ num_text v now]
    by (fastforce simp: list_ex_iff)
  have any: "?a @ ?s \<noteq> [] \<longleftrightarrow> list_ex (desynced v css) rss \<or> list_ex (ahead v css) rss \<or> list_ex (stalled v now) txs"
    using account_check_any [of num_text v css] stall_check_props(1) [of num_text v now]
    by (auto simp: list_ex_iff)
  have "length (?a @ ?s) > 0 \<longleftrightarrow> ?a @ ?s \<noteq> []" by simp
  then have st: "reconcile_status (?a @ ?s) = (if list_ex (desynced v css) rss then CRITICAL_DESYNC
        else if list_ex (ahead v css) rss \<or> list_ex (stalled v now) txs then DRIFT_DETECTED else IN_SYNC)"
    unfolding reconcile_status_def sev any by auto
  have "reconcile_status (?a @ ?s) = IN_SYNC \<longleftrightarrow> ?a @ ?s = []"
    unfolding reconcile_status_def by (cases "?a @ ?s") auto
  then show ?thesis using st unfolding reconcile_def Let_def by simp
qed

section \<open>One synchronisation\<close>

definition drifted :: "(string \<Rightarrow> (int \<times> int) option) \<Rightarrow> NonceAnomalyWatcher \<Rightarrow> string \<Rightarrow> bool" where
  "drifted provider w a \<longleftrightarrow>
     (\<exists>st nonce ledger. jmap_get (nw_states w) a = Some st \<and> provider a = Some (nonce, ledger) \<and> nn_engineNonce st \<noteq> nonce)"

lemma sync_account_cases:
  "(\<not> drifted provider w a \<and> sync_account provider now w a = (None, w)) \<or>
   (\<exists>alert st'. drifted provider w a \<and> na_accountId alert = a \<and> 0 < na_drift alert
      \<and> sync_account provider now w a = (Some alert, w\<lparr>nw_alertHistory := push_shift 100 (nw_alertHistory w) alert,
           nw_states := jmap_set a st' (nw_states w)\<rparr>))"
  by (auto simp: sync_account_def drifted_def Let_def split: option.splits prod.splits)

lemma sync_accounts_exact:
  assumes "distinct as" and "length (nw_alertHistory w) \<le> 100"
  shows "map na_accountId (fst (sync_accounts provider now w as)) = filter (drifted provider w) as
    \<and> nw_alertHistory (snd (sync_accounts provider now w as))
        = last_n 100 (nw_alertHistory w @ fst (sync_accounts provider now w as))
    \<and> (\<forall>a. a \<notin> set as \<longrightarrow> jmap_get (nw_states (snd (sync_accounts provider now w as))) a = jmap_get (nw_states w) a)"
  using assms
proof (induction as arbitrary: w)
  case Nil
  then show ?case by simp
next
  case (Cons a as)
  show ?case
  proof (cases "drifted provider w a")
    case False
    then have "sync_account provider now w a = (None, w)" using sync_account_cases [of provider w a now] by blast
    then show ?thesis using Cons False by (simp split: prod.splits)
  next
    case True
    then obtain alert st' where id: "na_accountId alert = a" and
      s: "sync_account provider now w a = (Some alert, w\<lparr>nw_alertHistory := push_shift 100 (nw_alertHistory w) alert,
        nw_states := jmap_set a st' (nw_states w)\<rparr>)"
      using sync_account_cases [of provider w a now] by blast
    let ?w = "w\<lparr>nw_alertHistory := push_shift 100 (nw_alertHistory w) alert, nw_states := jmap_set a st' (nw_states w)\<rparr>"
    have d: "drifted provider ?w b = drifted provider w b" if "b \<noteq> a" for b
      using that by (simp add: drifted_def jmap_get_set)
    have fd: "filter (drifted provider ?w) as = filter (drifted provider w) as"
      proof (rule filter_cong)
      fix b assume "b \<in> set as"
      then show "drifted provider ?w b = drifted provider w b" using Cons.prems(1) by (intro d) auto
    qed simp
    have len: "length (nw_alertHistory ?w) \<le> 100" using push_shift_length [OF Cons.prems(2)] by simp
    have h: "nw_alertHistory ?w = last_n 100 (nw_alertHistory w @ [alert])"
      using push_shift_last_n [OF Cons.prems(2)] by simp
    obtain al w2 where r: "sync_accounts provider now ?w as = (al, w2)" by fastforce
    have IH: "map na_accountId al = filter (drifted provider w) as"
      "nw_alertHistory w2 = last_n 100 (nw_alertHistory ?w @ al)"
      "\<forall>b. b \<notin> set as \<longrightarrow> jmap_get (nw_states w2) b = jmap_get (nw_states ?w) b"
      using Cons.IH [OF _ len] Cons.prems(1) fd r by auto
    have "last_n 100 (nw_alertHistory ?w @ al) = last_n 100 (nw_alertHistory w @ alert # al)"
      unfolding h using last_n_append [of 100 "nw_alertHistory w @ [alert]" al] by simp
    then show ?thesis using s r IH id True by (auto simp: jmap_get_set)
  qed
qed

text \<open>
  One synchronisation raises exactly one alert for every registered account whose chain nonce was
  read and differs from the engine's, in the order of registration, and none for any other account;
  the alert history afterwards is the last hundred of the earlier alerts followed by the new ones.\<close>

theorem watcher_sync_exact:
  assumes "jmap_ok (nw_states w)" and "length (nw_alertHistory w) \<le> 100"
  shows "map na_accountId (fst (syncNonces provider now w)) = filter (drifted provider w) (jmap_keys (nw_states w))
    \<and> nw_alertHistory (snd (syncNonces provider now w)) = last_n 100 (nw_alertHistory w @ fst (syncNonces provider now w))"
  using sync_accounts_exact [of "jmap_keys (nw_states w)" w provider now] assms
  unfolding syncNonces_def jmap_ok_def by blast

theorem watcher_sync_exact_witness:
  "map na_accountId (fst (syncNonces (\<lambda>a. if a = ''A'' then Some (7, 1) else if a = ''B'' then Some (4, 1) else None) 50
      (registerEngineNonce ''C'' 1 3 (registerEngineNonce ''B'' 4 2 (registerEngineNonce ''A'' 5 1 new_watcher))))) = [''A'']"
  (is "map _ (fst (syncNonces ?p _ ?w)) = _")
proof -
  have "map na_accountId (fst (syncNonces ?p 50 ?w)) = filter (drifted ?p ?w) (jmap_keys (nw_states ?w))"
    using watcher_sync_exact [of ?w ?p 50] by (simp add: registerEngineNonce_def new_watcher_def jmap_ok_def)
  also have "\<dots> = [''A'']" by (simp add: registerEngineNonce_def new_watcher_def drifted_def)
  finally show ?thesis .
qed

end
