(* ===== verification/Policy_Bundle.thy ===== *)
theory Policy_Bundle
  imports Js_Json Js_Bytes
begin

text \<open>
  Signed policy bundles (\<open>src/audit-guard/src/policy-bundle-verifier.ts\<close>) and their maintainer command
  line (\<open>policy-bundle-cli.ts\<close>).

  The bundle on disk is a tree of directory entries, in the order the directory is read; a directory or
  file that cannot be read carries the message of the error. Outside the repository, and so fields of
  \<open>BundleWorld\<close>: SHA-256, the Ed25519 check of the Stellar SDK (\<open>None\<close> when it throws), the environment,
  the clock, and what reading and parsing the manifest file gives. File sizes of a parsed manifest are
  integers.
\<close>

section \<open>Data\<close>

datatype PolicyBundleErrorCode =
    BundleDirNotFound | EmptyBundle | ManifestMissing | ManifestMalformed | SignatureMissing
  | SignatureMalformed | NoTrustedSigners | UntrustedSigner | SignatureInvalid | BundleTampered

fun bundle_code :: "PolicyBundleErrorCode \<Rightarrow> string" where
  "bundle_code BundleDirNotFound = ''POLICY_BUNDLE_DIR_NOT_FOUND''"
| "bundle_code EmptyBundle = ''POLICY_BUNDLE_EMPTY''"
| "bundle_code ManifestMissing = ''POLICY_BUNDLE_MANIFEST_MISSING''"
| "bundle_code ManifestMalformed = ''POLICY_BUNDLE_MANIFEST_MALFORMED''"
| "bundle_code SignatureMissing = ''POLICY_BUNDLE_SIGNATURE_MISSING''"
| "bundle_code SignatureMalformed = ''POLICY_BUNDLE_SIGNATURE_MALFORMED''"
| "bundle_code NoTrustedSigners = ''POLICY_BUNDLE_NO_TRUSTED_SIGNERS''"
| "bundle_code UntrustedSigner = ''POLICY_BUNDLE_UNTRUSTED_SIGNER''"
| "bundle_code SignatureInvalid = ''POLICY_BUNDLE_SIGNATURE_INVALID''"
| "bundle_code BundleTampered = ''POLICY_BUNDLE_TAMPERED''"

record PolicyBundleError =
  pe_code :: PolicyBundleErrorCode
  pe_message :: string
  pe_detail :: string

record PolicyBundleFileEntry =
  pf_path :: string
  pf_sha256 :: string
  pf_bytes :: jsnum

record PolicyBundleManifest =
  pm_version :: jsnum
  pm_algorithm :: string
  pm_files :: "PolicyBundleFileEntry list"
  pm_bundle_digest :: string

record PolicyBundleDrift =
  bd_added :: "string list"
  bd_removed :: "string list"
  bd_modified :: "string list"

record PolicyBundleVerificationResult =
  br_verified :: bool
  br_bundleDigest :: string
  br_signer :: "string option"
  br_errors :: "PolicyBundleError list"
  br_drift :: "PolicyBundleDrift option"
  br_checkedAt :: string

datatype TelemetryLevel = Level_info | Level_warn | Level_critical

record BundleTelemetry =
  bt_level :: TelemetryLevel
  bt_code :: string
  bt_message :: string
  bt_detail :: string

datatype fs_node =
    DirNode "(string \<times> fs_node) list"
  | UnreadableDir string
  | FileNode "nat list"
  | UnreadableFile string
  | OtherNode

record BundleWorld =
  bw_sha256 :: "nat list \<Rightarrow> nat list"
  bw_verify :: "string \<Rightarrow> nat list \<Rightarrow> nat list \<Rightarrow> bool option"
  bw_tree :: "string \<Rightarrow> fs_node option"
  bw_manifest :: "string \<Rightarrow> (string + (string + jsval)) option"
  bw_SIGNATURE :: "string option"
  bw_SIGNERS :: "string option"

record PolicyBundleVerifier =
  bv_policiesDir :: string
  bv_manifestPath :: string
  bv_signature :: "string option"
  bv_trustedSigners :: "string list"
  bv_extensions :: "string list"

section \<open>The manifest of a directory\<close>

definition bundle_extension :: "string list \<Rightarrow> string \<Rightarrow> bool" where
  "bundle_extension extensions name = list_ex (\<lambda>ext. endsWith (toLowerCase name) ext) extensions"

text \<open>\<open>walk\<close>: relative paths with their files, in directory order; the first unreadable directory throws.\<close>

definition walk_then :: "'e + 'a list \<Rightarrow> 'e + 'a list \<Rightarrow> 'e + 'a list" where
  "walk_then a b = (case a of Inl e \<Rightarrow> Inl e | Inr xs \<Rightarrow> map_sum id (\<lambda>ys. xs @ ys) b)"

fun walk :: "string list \<Rightarrow> string \<Rightarrow> (string \<times> fs_node) list \<Rightarrow> string + (string \<times> fs_node) list" where
  "walk extensions pre [] = Inr []"
| "walk extensions pre ((name, node) # es) =
     walk_then
       (case node of
          DirNode sub \<Rightarrow> walk extensions (pre @ name @ ''/'') sub
        | UnreadableDir msg \<Rightarrow> Inl msg
        | OtherNode \<Rightarrow> Inr []
        | _ \<Rightarrow> if bundle_extension extensions name then Inr [(pre @ name, node)] else Inr [])
       (walk extensions pre es)"

definition collectBundleFiles :: "(string \<times> fs_node) list \<Rightarrow> string list \<Rightarrow> string + (string \<times> fs_node) list" where
  "collectBundleFiles entries extensions = map_sum id (sort_key fst) (walk extensions [] entries)"

fun file_entries :: "BundleWorld \<Rightarrow> (string \<times> fs_node) list \<Rightarrow> string + PolicyBundleFileEntry list" where
  "file_entries w [] = Inr []"
| "file_entries w ((rel, node) # fs) =
     (case node of
        FileNode contents \<Rightarrow>
          map_sum id (\<lambda>es. \<lparr>pf_path = rel, pf_sha256 = to_hex (bw_sha256 w contents),
            pf_bytes = Num (int (length contents))\<rparr> # es) (file_entries w fs)
      | UnreadableFile msg \<Rightarrow> Inl msg
      | _ \<Rightarrow> file_entries w fs)"

definition entry_json :: "PolicyBundleFileEntry \<Rightarrow> jsval" where
  "entry_json f = JObject [(''path'', JString (pf_path f)), (''sha256'', JString (pf_sha256 f)), (''bytes'', JNumber (pf_bytes f))]"

definition canonical_value :: "PolicyBundleManifest \<Rightarrow> jsval" where
  "canonical_value m = JObject [(''version'', JNumber (pm_version m)), (''algorithm'', JString (pm_algorithm m)),
     (''files'', JArray (map entry_json (sort_key pf_path (pm_files m)))), (''bundle_digest'', JString (pm_bundle_digest m))]"

definition canonicalizeManifest :: "PolicyBundleManifest \<Rightarrow> string" where
  "canonicalizeManifest m = json (canonical_value m)"

text \<open>What \<open>computeBundleManifest\<close> throws: an error of its own or the error of a file operation.\<close>

datatype bundle_throw = BundleThrow PolicyBundleError | IoThrow string

definition computeBundleManifest :: "BundleWorld \<Rightarrow> string \<Rightarrow> string list \<Rightarrow> bundle_throw + PolicyBundleManifest" where
  "computeBundleManifest w policiesDir extensions =
     (case bw_tree w policiesDir of
        None \<Rightarrow> Inl (BundleThrow \<lparr>pe_code = BundleDirNotFound, pe_message = ''Policy bundle directory not found'',
                  pe_detail = policiesDir\<rparr>)
      | Some (UnreadableDir msg) \<Rightarrow> Inl (IoThrow msg)
      | Some (DirNode entries) \<Rightarrow>
          (case collectBundleFiles entries extensions of
             Inl msg \<Rightarrow> Inl (IoThrow msg)
           | Inr found \<Rightarrow>
               if found = [] then
                 Inl (BundleThrow \<lparr>pe_code = EmptyBundle, pe_message = ''Policy bundle contains no policy files'',
                   pe_detail = ''No '' @ join ''/'' extensions @ '' files under '' @ policiesDir\<rparr>)
               else (case file_entries w found of
                 Inl msg \<Rightarrow> Inl (IoThrow msg)
               | Inr files \<Rightarrow>
                   Inr \<lparr>pm_version = Num 1, pm_algorithm = ''sha256'', pm_files = files,
                     pm_bundle_digest = to_hex (bw_sha256 w (utf8 (json (JArray (map entry_json files)))))\<rparr>))
      | Some _ \<Rightarrow> Inl (BundleThrow \<lparr>pe_code = BundleDirNotFound,
                  pe_message = ''Policy bundle path is not a directory'', pe_detail = policiesDir\<rparr>))"

definition signBundleManifest :: "(nat list \<Rightarrow> nat list) \<Rightarrow> PolicyBundleManifest \<Rightarrow> string" where
  "signBundleManifest sign m = to_hex (sign (utf8 (canonicalizeManifest m)))"

section \<open>Comparison and parsing\<close>

definition digest_map :: "PolicyBundleManifest \<Rightarrow> (string, string) jmap" where
  "digest_map m = foldl (\<lambda>mp f. jmap_set (pf_path f) (pf_sha256 f) mp) [] (pm_files m)"

definition diffManifests :: "PolicyBundleManifest \<Rightarrow> PolicyBundleManifest \<Rightarrow> PolicyBundleDrift" where
  "diffManifests live signed =
     (let liveMap = digest_map live; signedMap = digest_map signed
      in \<lparr>bd_added = sort (filter (\<lambda>p. \<not> jmap_has signedMap p) (jmap_keys liveMap)),
          bd_removed = sort (filter (\<lambda>p. \<not> jmap_has liveMap p) (jmap_keys signedMap)),
          bd_modified = sort (map fst (filter (\<lambda>(p, h). jmap_has signedMap p \<and> jmap_get signedMap p \<noteq> Some h) liveMap))\<rparr>)"

fun parse_entry :: "jsval \<Rightarrow> PolicyBundleError + PolicyBundleFileEntry" where
  "parse_entry f =
     (case (js_get f ''path'', js_get f ''sha256'', js_get f ''bytes'') of
        (JString p, JString h, JNumber n) \<Rightarrow> Inr \<lparr>pf_path = p, pf_sha256 = h, pf_bytes = n\<rparr>
      | _ \<Rightarrow> Inl \<lparr>pe_code = ManifestMalformed, pe_message = ''Signed manifest has a malformed file entry'',
                pe_detail = json f\<rparr>)"

fun parse_entries :: "jsval list \<Rightarrow> PolicyBundleError + PolicyBundleFileEntry list" where
  "parse_entries [] = Inr []"
| "parse_entries (f # fs) =
     (case parse_entry f of Inl e \<Rightarrow> Inl e | Inr x \<Rightarrow> map_sum id (\<lambda>xs. x # xs) (parse_entries fs))"

definition quote :: string where
  "quote = [CHR 0x27]"

definition parseSignedManifest :: "string + jsval \<Rightarrow> PolicyBundleError + PolicyBundleManifest" where
  "parseSignedManifest parsed =
     (case parsed of
        Inl msg \<Rightarrow> Inl \<lparr>pe_code = ManifestMalformed, pe_message = ''Signed manifest is not valid JSON'', pe_detail = msg\<rparr>
      | Inr m \<Rightarrow>
          (case (js_get m ''version'', js_get m ''algorithm'', js_get m ''files'', js_get m ''bundle_digest'') of
             (JNumber v, JString a, JArray fs, JString d) \<Rightarrow>
               if v = Num 1 \<and> a = ''sha256'' then
                 map_sum id (\<lambda>files. \<lparr>pm_version = v, pm_algorithm = a, pm_files = files, pm_bundle_digest = d\<rparr>)
                   (parse_entries fs)
               else Inl \<lparr>pe_code = ManifestMalformed, pe_message = ''Signed manifest is structurally invalid'',
                      pe_detail = ''Expected {version:1, algorithm:'' @ quote @ ''sha256'' @ quote @ '', files:[], bundle_digest}''\<rparr>
           | _ \<Rightarrow> Inl \<lparr>pe_code = ManifestMalformed, pe_message = ''Signed manifest is structurally invalid'',
                    pe_detail = ''Expected {version:1, algorithm:'' @ quote @ ''sha256'' @ quote @ '', files:[], bundle_digest}''\<rparr>))"

section \<open>The verifier\<close>

text \<open>The constructor: \<open>dir\<close>, \<open>manifest\<close>, \<open>sig\<close>, \<open>signers\<close>, \<open>exts\<close> are the options; the two defaults
  for the paths depend on where the program is installed.\<close>

definition new_verifier ::
  "BundleWorld \<Rightarrow> string \<Rightarrow> (string \<Rightarrow> string) \<Rightarrow> string option \<Rightarrow> string option \<Rightarrow> string option
   \<Rightarrow> string list option \<Rightarrow> string list option \<Rightarrow> PolicyBundleVerifier" where
  "new_verifier w default_dir default_manifest dir manifest sig signers exts =
     (let d = (case dir of Some p \<Rightarrow> if p \<noteq> [] then p else default_dir | None \<Rightarrow> default_dir)
      in \<lparr>bv_policiesDir = d,
          bv_manifestPath = (case manifest of Some p \<Rightarrow> if p \<noteq> [] then p else default_manifest d | None \<Rightarrow> default_manifest d),
          bv_signature = (case sig of Some s \<Rightarrow> Some s | None \<Rightarrow> bw_SIGNATURE w),
          bv_trustedSigners = (case signers of Some ss \<Rightarrow> ss
            | None \<Rightarrow> filter (\<lambda>s. s \<noteq> []) (map trim (split_on CHR '','' (case bw_SIGNERS w of Some s \<Rightarrow> s | None \<Rightarrow> [])))),
          bv_extensions = (case exts of Some es \<Rightarrow> es | None \<Rightarrow> [''.rego''])\<rparr>)"

text \<open>A configured signature: not absent and not empty.\<close>

definition given_signature :: "PolicyBundleVerifier \<Rightarrow> string option" where
  "given_signature v = (case bv_signature v of Some s \<Rightarrow> if s \<noteq> [] then Some s else None | None \<Rightarrow> None)"

definition isConfigured :: "PolicyBundleVerifier \<Rightarrow> bool" where
  "isConfigured v = (given_signature v \<noteq> None \<and> length (bv_trustedSigners v) > 0)"

definition hexToBuffer :: "string \<Rightarrow> string + nat list" where
  "hexToBuffer hex =
     (let normalized = toLowerCase (trim hex)
      in if length normalized = 0 \<or> length normalized mod 2 \<noteq> 0 then Inl ''signature hex has invalid length''
         else if \<not> list_all is_hex normalized then Inl ''signature contains non-hex characters''
         else Inr (buffer_from_hex normalized))"

text \<open>The first trusted signer whose key verifies the payload; a key that cannot be read is skipped.\<close>

fun first_signer :: "BundleWorld \<Rightarrow> nat list \<Rightarrow> nat list \<Rightarrow> string list \<Rightarrow> string option" where
  "first_signer w payload sig [] = None"
| "first_signer w payload sig (pub # pubs) =
     (if bw_verify w pub payload sig = Some True then Some pub else first_signer w payload sig pubs)"

definition verifySignature ::
  "BundleWorld \<Rightarrow> PolicyBundleVerifier \<Rightarrow> PolicyBundleManifest \<Rightarrow> PolicyBundleError list \<times> string option" where
  "verifySignature w v signed =
     (case given_signature v of
        None \<Rightarrow> ([\<lparr>pe_code = SignatureMissing, pe_message = ''No detached signature configured for the policy bundle'',
                  pe_detail = ''Set POLICY_BUNDLE_SIGNATURE or pass options.signature''\<rparr>], None)
      | Some s \<Rightarrow>
          if length (bv_trustedSigners v) = 0 then
            ([\<lparr>pe_code = NoTrustedSigners, pe_message = ''No trusted signers configured for the policy bundle'',
               pe_detail = ''Set POLICY_BUNDLE_SIGNERS or pass options.trustedSigners''\<rparr>], None)
          else (case hexToBuffer s of
              Inl msg \<Rightarrow> ([\<lparr>pe_code = SignatureMalformed, pe_message = ''Policy-bundle signature is not valid hex'',
                           pe_detail = msg\<rparr>], None)
            | Inr sigBytes \<Rightarrow>
                (case first_signer w (utf8 (canonicalizeManifest signed)) sigBytes (bv_trustedSigners v) of
                   Some pub \<Rightarrow> ([], Some pub)
                 | None \<Rightarrow> ([\<lparr>pe_code = SignatureInvalid,
                             pe_message = ''Policy-bundle signature did not verify against any trusted signer'',
                             pe_detail = ''signers='' @ show_nat (length (bv_trustedSigners v))\<rparr>], None))))"

definition unexpected_error :: "string \<Rightarrow> PolicyBundleError" where
  "unexpected_error msg = \<lparr>pe_code = ManifestMalformed,
     pe_message = ''Unexpected error during policy-bundle verification'', pe_detail = msg\<rparr>"

fun asPolicyBundleError :: "bundle_throw \<Rightarrow> PolicyBundleError" where
  "asPolicyBundleError (BundleThrow e) = e"
| "asPolicyBundleError (IoThrow msg) = unexpected_error msg"

definition load_signed :: "BundleWorld \<Rightarrow> PolicyBundleVerifier \<Rightarrow> PolicyBundleError + PolicyBundleManifest" where
  "load_signed w v =
     (case bw_manifest w (bv_manifestPath v) of
        None \<Rightarrow> Inl \<lparr>pe_code = ManifestMissing, pe_message = ''No signed policy-bundle manifest found'',
                  pe_detail = bv_manifestPath v\<rparr>
      | Some (Inl msg) \<Rightarrow> Inl (unexpected_error msg)
      | Some (Inr parsed) \<Rightarrow> parseSignedManifest parsed)"

definition no_drift :: "PolicyBundleDrift \<Rightarrow> bool" where
  "no_drift d = (bd_added d = [] \<and> bd_removed d = [] \<and> bd_modified d = [])"

definition tampered_error :: "PolicyBundleDrift \<Rightarrow> PolicyBundleError" where
  "tampered_error d = \<lparr>pe_code = BundleTampered, pe_message = ''Live policy bundle does not match the signed manifest'',
     pe_detail = ''added=['' @ join '', '' (bd_added d) @ ''] removed=['' @ join '', '' (bd_removed d)
       @ ''] modified=['' @ join '', '' (bd_modified d) @ '']''\<rparr>"

definition critical_code :: "PolicyBundleErrorCode \<Rightarrow> bool" where
  "critical_code c = (c = BundleTampered \<or> c = SignatureInvalid \<or> c = UntrustedSigner)"

definition emitTelemetry :: "PolicyBundleVerificationResult \<Rightarrow> BundleTelemetry list" where
  "emitTelemetry r =
     (if br_verified r then
        [\<lparr>bt_level = Level_info, bt_code = ''POLICY_BUNDLE_VERIFIED'',
          bt_message = ''Policy bundle verified (signer ''
            @ (case br_signer r of Some s \<Rightarrow> s | None \<Rightarrow> ''undefined'') @ '')'',
          bt_detail = ''digest='' @ br_bundleDigest r\<rparr>]
      else map (\<lambda>e. \<lparr>bt_level = (if critical_code (pe_code e) then Level_critical else Level_warn),
             bt_code = bundle_code (pe_code e), bt_message = pe_message e, bt_detail = pe_detail e\<rparr>) (br_errors r))"

text \<open>\<open>verify\<close> returns its result and what it sent to telemetry; it never throws.\<close>

definition verify ::
  "BundleWorld \<Rightarrow> PolicyBundleVerifier \<Rightarrow> int \<Rightarrow> PolicyBundleVerificationResult \<times> BundleTelemetry list" where
  "verify w v now =
     (case computeBundleManifest w (bv_policiesDir v) (bv_extensions v) of
        Inl t \<Rightarrow> (\<lparr>br_verified = False, br_bundleDigest = [], br_signer = None, br_errors = [asPolicyBundleError t],
                   br_drift = None, br_checkedAt = iso_date now\<rparr>, [])
      | Inr live \<Rightarrow>
          (let (errors, drift, signer) =
             (case load_signed w v of
                Inl e \<Rightarrow> ([e], None, None)
              | Inr signed \<Rightarrow>
                  (let d = diffManifests live signed;
                       (es, signer) = verifySignature w v signed
                   in (if no_drift d then (es, None, signer) else (tampered_error d # es, Some d, signer))));
             result = \<lparr>br_verified = (errors = [] \<and> signer \<noteq> None \<and> signer \<noteq> Some []),
               br_bundleDigest = pm_bundle_digest live, br_signer = signer, br_errors = errors, br_drift = drift,
               br_checkedAt = iso_date now\<rparr>
           in (result, emitTelemetry result)))"

section \<open>The maintainer command line\<close>

definition manifest_json :: "PolicyBundleManifest \<Rightarrow> jsval" where
  "manifest_json m = JObject [(''version'', JNumber (pm_version m)), (''algorithm'', JString (pm_algorithm m)),
     (''files'', JArray (map entry_json (pm_files m))), (''bundle_digest'', JString (pm_bundle_digest m))]"

record BundleCliOutput =
  bc_exit :: nat
  bc_written :: "jsval option"
  bc_printed :: "(string \<times> string \<times> string) option"

text \<open>An exception that leaves a command ends the process with exit code 1. \<open>fromSecret\<close> gives the
  public key and the signing function of a secret.\<close>

definition regenerate :: "BundleWorld \<Rightarrow> string \<Rightarrow> BundleCliOutput" where
  "regenerate w dir = (case computeBundleManifest w dir [''.rego''] of
     Inl _ \<Rightarrow> \<lparr>bc_exit = 1, bc_written = None, bc_printed = None\<rparr>
   | Inr m \<Rightarrow> \<lparr>bc_exit = 0, bc_written = Some (manifest_json m), bc_printed = None\<rparr>)"

definition cli_sign ::
  "BundleWorld \<Rightarrow> (string \<Rightarrow> (string \<times> (nat list \<Rightarrow> nat list)) option) \<Rightarrow> string option \<Rightarrow> string \<Rightarrow> BundleCliOutput" where
  "cli_sign w fromSecret secret dir =
     (case secret of
        None \<Rightarrow> \<lparr>bc_exit = 1, bc_written = None, bc_printed = None\<rparr>
      | Some s \<Rightarrow>
          if s = [] then \<lparr>bc_exit = 1, bc_written = None, bc_printed = None\<rparr>
          else (case (fromSecret (trim s), computeBundleManifest w dir [''.rego'']) of
              (Some (pub, sign), Inr m) \<Rightarrow>
                \<lparr>bc_exit = 0, bc_written = None,
                 bc_printed = Some (pm_bundle_digest m, pub, signBundleManifest sign m)\<rparr>
            | _ \<Rightarrow> \<lparr>bc_exit = 1, bc_written = None, bc_printed = None\<rparr>))"

definition cli_verify :: "BundleWorld \<Rightarrow> (string \<Rightarrow> string) \<Rightarrow> string \<Rightarrow> int \<Rightarrow> BundleCliOutput" where
  "cli_verify w default_manifest dir now =
     (let r = fst (verify w (new_verifier w dir default_manifest (Some dir) None None None None) now)
      in \<lparr>bc_exit = (if br_verified r then 0 else 1), bc_written = None, bc_printed = None\<rparr>)"

definition bundle_main ::
  "BundleWorld \<Rightarrow> (string \<Rightarrow> (string \<times> (nat list \<Rightarrow> nat list)) option) \<Rightarrow> (string \<Rightarrow> string) \<Rightarrow> string option
   \<Rightarrow> string \<Rightarrow> int \<Rightarrow> string option \<Rightarrow> BundleCliOutput" where
  "bundle_main w fromSecret default_manifest secret dir now command =
     (if command = Some ''regenerate'' then regenerate w dir
      else if command = Some ''sign'' then cli_sign w fromSecret secret dir
      else if command = Some ''verify'' then cli_verify w default_manifest dir now
      else \<lparr>bc_exit = 1, bc_written = None, bc_printed = None\<rparr>)"

section \<open>What the manifest of a directory holds\<close>

text \<open>\<open>in_bundle exts es p c\<close>: the directory with entries \<open>es\<close> has a policy file with path \<open>p\<close> and contents \<open>c\<close>.\<close>

inductive in_bundle :: "string list \<Rightarrow> (string \<times> fs_node) list \<Rightarrow> string \<Rightarrow> nat list \<Rightarrow> bool" for exts where
  at_top: "(name, FileNode c) \<in> set es \<Longrightarrow> bundle_extension exts name \<Longrightarrow> in_bundle exts es name c"
| below: "(name, DirNode ds) \<in> set es \<Longrightarrow> in_bundle exts ds p c \<Longrightarrow> in_bundle exts es (name @ ''/'' @ p) c"

text \<open>File names are unique in a directory and have no slash.\<close>

fun wf_tree :: "(string \<times> fs_node) list \<Rightarrow> bool" where
  "wf_tree [] = True"
| "wf_tree ((name, node) # es) = (CHR ''/'' \<notin> set name \<and> name \<notin> fst ` set es
     \<and> (case node of DirNode ds \<Rightarrow> wf_tree ds | _ \<Rightarrow> True) \<and> wf_tree es)"

lemma wf_tree_entry:
  assumes "wf_tree es" "(name, node) \<in> set es"
  shows "CHR ''/'' \<notin> set name" "node = DirNode ds \<Longrightarrow> wf_tree ds" "(name, node') \<in> set es \<Longrightarrow> node' = node"
  using assms by (induction es rule: wf_tree.induct) (auto simp: rev_image_eqI)

lemma in_bundle_unique:
  assumes "in_bundle exts es p c" "in_bundle exts es p c'" "wf_tree es"
  shows "c = c'"
  using assms
proof (induction arbitrary: c')
  case (at_top name c es)
  note wf = wf_tree_entry [OF \<open>wf_tree es\<close> at_top.hyps(1)]
  from at_top.prems(1) show ?case
  proof cases
    case at_top
    then show ?thesis using wf(3) by blast
  qed (use wf(1) in auto)
next
  case (below name ds es p c)
  note wf = wf_tree_entry [OF \<open>wf_tree es\<close> below.hyps(1)]
  note IH = below.IH
  from below.prems(1) show ?case
  proof cases
    case at_top
    then have "CHR ''/'' \<notin> set (name @ ''/'' @ p)" using wf_tree_entry(1) \<open>wf_tree es\<close> by blast
    then show ?thesis by simp
  next
    case (below name' ds' p')
    then have s: "CHR ''/'' \<notin> set name'" using wf_tree_entry(1) \<open>wf_tree es\<close> by blast
    have "name = name' \<and> p = p'"
      using below(1) s wf(1) by (auto simp: append_eq_append_conv2 Cons_eq_append_conv append_eq_Cons_conv)
    then have "ds' = ds" using below(2) wf(3) by fastforce
    then show ?thesis using IH [of c'] below(3) \<open>name = name' \<and> p = p'\<close> wf(2) by blast
  qed
qed

lemma walk_then_Inr: "walk_then a b = Inr zs \<longleftrightarrow> (\<exists>xs ys. a = Inr xs \<and> b = Inr ys \<and> zs = xs @ ys)"
  by (cases a; cases b) (auto simp: walk_then_def)

text \<open>A walk finds exactly the policy files of the tree.\<close>

lemma walk_files:
  assumes "walk exts pre es = Inr fs"
  shows "(q, FileNode c) \<in> set fs \<longleftrightarrow> (\<exists>p. q = pre @ p \<and> in_bundle exts es p c)"
  using assms
proof (induction exts pre es arbitrary: fs rule: walk.induct)
  case (1 extensions pre)
  then show ?case by (auto elim: in_bundle.cases)
next
  case (2 exts pre name node es)
  obtain xs ys where x: "(case node of DirNode sub \<Rightarrow> walk exts (pre @ name @ ''/'') sub
          | UnreadableDir msg \<Rightarrow> Inl msg | OtherNode \<Rightarrow> Inr []
          | _ \<Rightarrow> if bundle_extension exts name then Inr [(pre @ name, node)] else Inr []) = Inr xs"
    and y: "walk exts pre es = Inr ys" and fs: "fs = xs @ ys"
    using 2(3) by (auto simp: walk_then_Inr)
  have head: "(q, FileNode c) \<in> set xs \<longleftrightarrow> (\<exists>p. q = pre @ p \<and> in_bundle exts [(name, node)] p c)"
  proof (cases node)
    case (DirNode ds)
    have "in_bundle exts [(name, DirNode ds)] p c \<longleftrightarrow> (\<exists>r. p = name @ ''/'' @ r \<and> in_bundle exts ds r c)" for p
      by (subst in_bundle.simps) auto
    then show ?thesis using 2(1) [OF DirNode, of xs] x DirNode by auto
  qed (use x in \<open>auto simp: in_bundle.simps [of exts "[(name, node)]" for node] split: if_splits\<close>)
  have "in_bundle exts ((name, node) # es) p c \<longleftrightarrow> in_bundle exts [(name, node)] p c \<or> in_bundle exts es p c" for p
    by (subst (1 2 3) in_bundle.simps) auto
  then show ?case using head 2(2) [OF y] fs by auto
qed

lemma file_entries_set:
  assumes "file_entries w fs = Inr es"
  shows "\<lparr>pf_path = q, pf_sha256 = h, pf_bytes = n\<rparr> \<in> set es \<longleftrightarrow>
    (\<exists>c. (q, FileNode c) \<in> set fs \<and> h = to_hex (bw_sha256 w c) \<and> n = Num (int (length c)))"
  using assms
proof (induction w fs arbitrary: es rule: file_entries.induct)
  case (2 w rel node fs)
  then show ?case by (cases node; cases "file_entries w fs") auto
qed simp

text \<open>The digest a manifest gives for a path.\<close>

definition file_digest :: "PolicyBundleManifest \<Rightarrow> string \<Rightarrow> string option" where
  "file_digest m p = (case filter (\<lambda>f. pf_path f = p) (pm_files m) of [] \<Rightarrow> None | fs \<Rightarrow> Some (pf_sha256 (last fs)))"

lemma digest_map_get: "jmap_get (digest_map m) p = file_digest m p"
  by (simp add: digest_map_def set_table.get_foldl_put file_digest_def split: list.splits)

lemma digest_map_ok: "jmap_ok (digest_map m)"
  unfolding digest_map_def by (rule set_table.ok_foldl_put) (simp add: jmap_ok_def)

lemma computeBundleManifest_tree:
  assumes "computeBundleManifest w dir exts = Inr m"
  obtains entries fs files where "bw_tree w dir = Some (DirNode entries)" "walk exts [] entries = Inr fs"
    "file_entries w (sort_key fst fs) = Inr files" "pm_files m = files" "pm_version m = Num 1" "pm_algorithm m = ''sha256''"
proof -
  obtain entries where e: "bw_tree w dir = Some (DirNode entries)"
    using assms by (auto simp: computeBundleManifest_def split: option.splits fs_node.splits)
  obtain fs where f: "walk exts [] entries = Inr fs"
    using assms e by (cases "walk exts [] entries") (auto simp: computeBundleManifest_def collectBundleFiles_def)
  obtain files where g: "file_entries w (sort_key fst fs) = Inr files"
    using assms e f by (cases "file_entries w (sort_key fst fs)")
      (auto simp: computeBundleManifest_def collectBundleFiles_def split: if_splits)
  show thesis
    by (rule that [OF e f g]) (use assms e f g in \<open>auto simp: computeBundleManifest_def collectBundleFiles_def split: if_splits\<close>)
qed

lemma live_digest:
  assumes "computeBundleManifest w dir exts = Inr m" "bw_tree w dir = Some (DirNode entries)" "wf_tree entries"
  shows "file_digest m p = Some h \<longleftrightarrow> (\<exists>c. in_bundle exts entries p c \<and> h = to_hex (bw_sha256 w c))"
proof -
  obtain fs files where f: "walk exts [] entries = Inr fs" "file_entries w (sort_key fst fs) = Inr files" "pm_files m = files"
    using computeBundleManifest_tree [OF assms(1)] assms(2) by (metis fs_node.inject(1) option.inject)
  have e: "\<lparr>pf_path = q, pf_sha256 = k, pf_bytes = n\<rparr> \<in> set files \<longleftrightarrow>
      (\<exists>c. in_bundle exts entries q c \<and> k = to_hex (bw_sha256 w c) \<and> n = Num (int (length c)))" for q k n
    using file_entries_set [OF f(2)] walk_files [OF f(1)] by simp
  let ?fs = "filter (\<lambda>f. pf_path f = p) files"
  have mem: "f \<in> set files \<longleftrightarrow> (\<exists>c. in_bundle exts entries (pf_path f) c \<and> pf_sha256 f = to_hex (bw_sha256 w c)
      \<and> pf_bytes f = Num (int (length c)))" for f
    using e by (cases f) simp
  show ?thesis
  proof (cases "?fs = []")
    case True
    then have "\<not> in_bundle exts entries p c" for c
      using e [of p "to_hex (bw_sha256 w c)" "Num (int (length c))"] by (fastforce simp: filter_empty_conv)
    then show ?thesis using True by (simp add: file_digest_def f(3))
  next
    case False
    then have "last ?fs \<in> set ?fs" by (rule last_in_set)
    then obtain c where c: "in_bundle exts entries p c" "pf_sha256 (last ?fs) = to_hex (bw_sha256 w c)"
      using mem by auto
    have "file_digest m p = Some (pf_sha256 (last ?fs))"
      using False by (simp add: file_digest_def f(3) split: list.splits)
    then show ?thesis using c in_bundle_unique [OF c(1) _ assms(3)] by (metis option.inject)
  qed
qed

section \<open>Verification\<close>

lemma jmap_entry: "jmap_ok m \<Longrightarrow> (k, v) \<in> set m \<longleftrightarrow> jmap_get m k = Some v"
  by (simp add: jmap_ok_def)

lemma sort_empty: "sort xs = [] \<longleftrightarrow> xs = []"
  by (metis length_0_conv length_sort)

lemma digest_map_keys: "p \<in> set (jmap_keys (digest_map m)) \<longleftrightarrow> file_digest m p \<noteq> None"
  unfolding digest_map_get [symmetric] by (simp add: map_of_eq_None_iff)

lemma digest_map_has: "jmap_has (digest_map m) p \<longleftrightarrow> file_digest m p \<noteq> None"
  by (simp add: jmap_has_def digest_map_get)

lemma no_drift_iff: "no_drift (diffManifests live signed) \<longleftrightarrow> file_digest live = file_digest signed"
proof -
  have a: "bd_added (diffManifests live signed) = [] \<longleftrightarrow> (\<forall>p. file_digest live p \<noteq> None \<longrightarrow> file_digest signed p \<noteq> None)"
    "bd_removed (diffManifests live signed) = [] \<longleftrightarrow> (\<forall>p. file_digest signed p \<noteq> None \<longrightarrow> file_digest live p \<noteq> None)"
    unfolding diffManifests_def Let_def using digest_map_keys
    by (auto simp only: PolicyBundleDrift.simps sort_empty filter_empty_conv digest_map_has) (metis not_None_eq)+
  have b: "bd_modified (diffManifests live signed) = [] \<longleftrightarrow>
      (\<forall>p h. file_digest live p = Some h \<and> file_digest signed p \<noteq> None \<longrightarrow> file_digest signed p = Some h)"
    using jmap_entry [OF digest_map_ok [of live]]
    by (fastforce simp: diffManifests_def Let_def sort_empty filter_empty_conv digest_map_has digest_map_get)
  show ?thesis unfolding no_drift_def a b fun_eq_iff by (metis not_None_eq)
qed

lemma first_signer_Some:
  "first_signer w payload sig pubs = Some pub \<Longrightarrow> pub \<in> set pubs \<and> bw_verify w pub payload sig = Some True"
  by (induction pubs) (auto split: if_splits)

lemma verifySignature_ok:
  "verifySignature w v signed = ([], signer) \<longleftrightarrow>
   (\<exists>s sig pub. given_signature v = Some s \<and> hexToBuffer s = Inr sig \<and> signer = Some pub
      \<and> first_signer w (utf8 (canonicalizeManifest signed)) sig (bv_trustedSigners v) = Some pub)"
  by (auto simp: verifySignature_def split: option.splits sum.splits)

lemma verifiedE:
  assumes "br_verified (fst (verify w v now))"
  obtains live signed s sig pub where "computeBundleManifest w (bv_policiesDir v) (bv_extensions v) = Inr live"
    "load_signed w v = Inr signed" "no_drift (diffManifests live signed)" "bv_signature v = Some s" "hexToBuffer s = Inr sig"
    "pub \<in> set (bv_trustedSigners v)" "br_signer (fst (verify w v now)) = Some pub"
    "bw_verify w pub (utf8 (canonicalizeManifest signed)) sig = Some True"
proof -
  obtain live where live: "computeBundleManifest w (bv_policiesDir v) (bv_extensions v) = Inr live"
    using assms by (auto simp: verify_def split: sum.splits)
  obtain signed where signed: "load_signed w v = Inr signed"
    using assms live by (cases "load_signed w v") (auto simp: verify_def Let_def)
  obtain es signer where vs: "verifySignature w v signed = (es, signer)" by fastforce
  have r: "no_drift (diffManifests live signed)" "es = []" "br_signer (fst (verify w v now)) = signer"
    using assms live signed vs by (auto simp: verify_def Let_def split: if_splits)
  obtain s sig pub where g: "given_signature v = Some s" "hexToBuffer s = Inr sig" "signer = Some pub"
    "first_signer w (utf8 (canonicalizeManifest signed)) sig (bv_trustedSigners v) = Some pub"
    using vs r(2) verifySignature_ok by auto
  have "bv_signature v = Some s" using g(1) by (auto simp: given_signature_def split: option.splits if_splits)
  then show ?thesis using that [OF live signed r(1) _ g(2)] first_signer_Some [OF g(4)] r(3) g(3) by blast
qed

text \<open>
  C8. A verified bundle is what a trusted maintainer signed. When verification succeeds, some trusted
  signer's key verifies the configured signature over the canonical manifest on disk, and that manifest
  describes the bundle exactly: a policy file is on disk with a digest if and only if the signed
  manifest lists its path with that digest. So no policy file can be added, removed or changed unnoticed.\<close>

theorem bundle_verified_sound:
  assumes "br_verified (fst (verify w v now))" and "bw_tree w (bv_policiesDir v) = Some (DirNode entries)" and "wf_tree entries"
  shows "\<exists>signed s sig pub. load_signed w v = Inr signed \<and> bv_signature v = Some s \<and> hexToBuffer s = Inr sig
     \<and> pub \<in> set (bv_trustedSigners v) \<and> br_signer (fst (verify w v now)) = Some pub
     \<and> bw_verify w pub (utf8 (canonicalizeManifest signed)) sig = Some True
     \<and> (\<forall>p h. file_digest signed p = Some h \<longleftrightarrow>
          (\<exists>c. in_bundle (bv_extensions v) entries p c \<and> h = to_hex (bw_sha256 w c)))"
proof -
  obtain live signed s sig pub where l: "computeBundleManifest w (bv_policiesDir v) (bv_extensions v) = Inr live"
    and d: "no_drift (diffManifests live signed)" and g: "load_signed w v = Inr signed" "bv_signature v = Some s" "hexToBuffer s = Inr sig"
    "pub \<in> set (bv_trustedSigners v)" "br_signer (fst (verify w v now)) = Some pub"
    "bw_verify w pub (utf8 (canonicalizeManifest signed)) sig = Some True"
    by (rule verifiedE [OF assms(1)])
  have "file_digest signed p = Some h \<longleftrightarrow>
          (\<exists>c. in_bundle (bv_extensions v) entries p c \<and> h = to_hex (bw_sha256 w c))" for p h
    using live_digest [OF l assms(2,3)] d unfolding no_drift_iff by simp
  then show ?thesis using g by blast
qed

section \<open>Signing then verifying\<close>

lemma trim_id: "\<forall>c \<in> set s. \<not> is_ws c \<Longrightarrow> trim s = s"
  by (simp add: trim_def dropWhile_eq_self_iff) (metis hd_in_set last_in_set hd_rev list.set_sel(1) rev_rev_ident set_rev dropWhile_eq_self_iff)

lemma hex_digit: "d < 16 \<Longrightarrow> is_hex (digit_char d) \<and> \<not> is_ws (digit_char d) \<and> lower_char (digit_char d) = digit_char d"
proof -
  assume d: "d < 16"
  have "is_hex (digit_char d)" using d by (simp add: is_hex_def)
  moreover have "\<not> is_ws (digit_char d) \<and> lower_char (digit_char d) = digit_char d"
    using d by (auto simp: is_ws_def lower_char_def digit_char_def Let_def)
  ultimately show ?thesis by blast
qed

lemma to_hex_chars:
  assumes "bytes bs" "c \<in> set (to_hex bs)"
  shows "is_hex c \<and> \<not> is_ws c \<and> lower_char c = c"
proof -
  obtain b where b: "b \<in> set bs" "c = digit_char (b div 16) \<or> c = digit_char (b mod 16)"
    using assms(2) by (auto simp: to_hex_def)
  have "b < 256" using assms(1) b(1) by (simp add: bytes_def list_all_iff)
  then have "b div 16 < 16" "b mod 16 < 16" by auto
  with b(2) obtain d where "d < 16" "c = digit_char d" by blast
  then show ?thesis using hex_digit by blast
qed

lemma hexToBuffer_to_hex:
  assumes "bytes bs" "bs \<noteq> []"
  shows "hexToBuffer (to_hex bs) = Inr bs"
proof -
  have t: "trim (to_hex bs) = to_hex bs" using to_hex_chars [OF assms(1)] by (blast intro: trim_id)
  have l: "toLowerCase (to_hex bs) = to_hex bs"
    unfolding toLowerCase_def using to_hex_chars [OF assms(1)] by (simp add: map_idI)
  have "list_all is_hex (to_hex bs)" using to_hex_chars [OF assms(1)] by (simp add: list_all_iff)
  moreover have "to_hex bs \<noteq> []" using assms(2) length_to_hex [of bs] by auto
  ultimately show ?thesis using assms by (simp add: hexToBuffer_def Let_def t l length_to_hex buffer_to_hex)
qed

lemma parse_entries_json: "parse_entries (map entry_json fs) = Inr fs"
  by (induction fs) (simp_all add: entry_json_def js_prop_def)

lemma parse_manifest_json:
  "pm_version m = Num 1 \<Longrightarrow> pm_algorithm m = ''sha256'' \<Longrightarrow> parseSignedManifest (Inr (manifest_json m)) = Inr m"
  by (simp add: parseSignedManifest_def manifest_json_def js_prop_def parse_entries_json)

lemma first_signer_exists:
  "pub \<in> set pubs \<Longrightarrow> bw_verify w pub payload sig = Some True \<Longrightarrow> \<exists>p. first_signer w payload sig pubs = Some p"
  by (induction pubs) auto

lemma signed_bundle_verifies:
  assumes c: "computeBundleManifest w (bv_policiesDir v) (bv_extensions v) = Inr m"
    and f: "bw_manifest w (bv_manifestPath v) = Some (Inr (Inr (manifest_json m)))"
    and s: "bv_signature v = Some (signBundleManifest sign m)"
    and b: "bytes (sign (utf8 (canonicalizeManifest m)))" "sign (utf8 (canonicalizeManifest m)) \<noteq> []"
    and p: "pub \<in> set (bv_trustedSigners v)" "[] \<notin> set (bv_trustedSigners v)"
    and k: "bw_verify w pub (utf8 (canonicalizeManifest m)) (sign (utf8 (canonicalizeManifest m))) = Some True"
  shows "br_verified (fst (verify w v now)) \<and> br_errors (fst (verify w v now)) = []"
proof -
  have l: "load_signed w v = Inr m"
    using computeBundleManifest_tree [OF c] parse_manifest_json [of m] f by (simp add: load_signed_def) metis
  obtain q where q: "first_signer w (utf8 (canonicalizeManifest m)) (sign (utf8 (canonicalizeManifest m)))
      (bv_trustedSigners v) = Some q"
    using first_signer_exists [OF p(1) k] by blast
  have ne: "to_hex (sign (utf8 (canonicalizeManifest m))) \<noteq> []"
    using b(2) length_to_hex [of "sign (utf8 (canonicalizeManifest m))"] by auto
  have "verifySignature w v m = ([], Some q)"
    unfolding verifySignature_ok given_signature_def s signBundleManifest_def
    using hexToBuffer_to_hex [OF b] q ne by auto
  moreover have "q \<noteq> []" using first_signer_Some [OF q] p(2) by auto
  moreover have "no_drift (diffManifests m m)" by (simp add: no_drift_iff)
  ultimately show ?thesis using c l by (simp add: verify_def Let_def)
qed

lemma sign_then_verify:
  assumes "bundle_main w fromSecret default_manifest (Some secret) dir now (Some ''sign'')
      = \<lparr>bc_exit = 0, bc_written = None, bc_printed = Some (digest, pub, sig)\<rparr>"
    and "bc_written (bundle_main w' fromSecret default_manifest None dir now (Some ''regenerate'')) = Some file"
    and "bw_tree w' = bw_tree w" and "bw_sha256 w' = bw_sha256 w"
    and "bw_manifest w (default_manifest dir) = Some (Inr (Inr file))"
    and "bw_SIGNATURE w = Some sig" and "bw_SIGNERS w = Some signers"
    and "pub \<in> set (map trim (split_on CHR '','' signers))" and "pub \<noteq> []" and "dir \<noteq> []"
    and keys: "\<And>s p sign payload. fromSecret s = Some (p, sign) \<Longrightarrow>
      bytes (sign payload) \<and> sign payload \<noteq> [] \<and> bw_verify w p payload (sign payload) = Some True"
  shows "bc_exit (bundle_main w fromSecret default_manifest None dir now' (Some ''verify'')) = 0"
proof -
  obtain sign m where k: "fromSecret (trim secret) = Some (pub, sign)"
    and m: "computeBundleManifest w dir [''.rego''] = Inr m" and s: "sig = signBundleManifest sign m"
    using assms(1) by (auto simp: bundle_main_def cli_sign_def split: if_splits option.splits sum.splits)
  have fe: "file_entries w' fs = file_entries w fs" for fs
    using assms(4) by (induction w fs rule: file_entries.induct) (auto split: fs_node.splits)
  have "computeBundleManifest w' dir [''.rego''] = Inr m"
    unfolding m [symmetric] by (simp only: computeBundleManifest_def fe assms(3,4))
  then have fm: "file = manifest_json m" using assms(2) by (simp add: bundle_main_def regenerate_def)
  let ?v = "new_verifier w dir default_manifest (Some dir) None None None None"
  have "br_verified (fst (verify w ?v now'))"
    using signed_bundle_verifies [of w ?v m sign pub now'] m fm assms(5-10) s keys [OF k]
    by (auto simp: new_verifier_def Let_def)
  then show ?thesis by (simp add: bundle_main_def cli_verify_def)
qed

text \<open>
  C18. Signing then verifying succeeds. When the manifest of the bundle on disk was written by the
  command line, its detached signature comes from a trusted signer's key, and the key verifies what it
  signed, the bundle is verified with no errors, whatever other signers are trusted.\<close>

theorem bundle_sign_verify_roundtrip:
  assumes "bundle_main w fromSecret default_manifest (Some secret) dir now (Some ''sign'')
      = \<lparr>bc_exit = 0, bc_written = None, bc_printed = Some (digest, pub, sig)\<rparr>"
    and "bc_written (bundle_main w' fromSecret default_manifest None dir now (Some ''regenerate'')) = Some file"
    and "bw_tree w' = bw_tree w" and "bw_sha256 w' = bw_sha256 w"
    and "bw_manifest w (default_manifest dir) = Some (Inr (Inr file))"
    and "bw_SIGNATURE w = Some sig" and "bw_SIGNERS w = Some signers"
    and "pub \<in> set (map trim (split_on CHR '','' signers))" and "pub \<noteq> []" and "dir \<noteq> []"
    and keys: "\<And>s p sign payload. fromSecret s = Some (p, sign) \<Longrightarrow>
      bytes (sign payload) \<and> sign payload \<noteq> [] \<and> bw_verify w p payload (sign payload) = Some True"
  shows "bc_exit (bundle_main w fromSecret default_manifest None dir now' (Some ''verify'')) = 0"
  by (rule sign_then_verify [OF assms(1-10)]) (rule keys)

definition demo_bundle :: BundleWorld where
  "demo_bundle = \<lparr>bw_sha256 = (\<lambda>bs. take 1 bs), bw_verify = (\<lambda>pub payload sig. Some (pub = ''G'' \<and> sig = [1])),
     bw_tree = (\<lambda>dir. Some (DirNode [(''a.rego'', FileNode [7]), (''x'', OtherNode)])),
     bw_manifest = (\<lambda>p. Some (Inr (Inr (manifest_json \<lparr>pm_version = Num 1, pm_algorithm = ''sha256'',
       pm_files = [\<lparr>pf_path = ''a.rego'', pf_sha256 = ''07'', pf_bytes = Num 1\<rparr>], pm_bundle_digest = ''5b''\<rparr>)))),
     bw_SIGNATURE = Some ''01'', bw_SIGNERS = Some ''G''\<rparr>"

definition demo_secret :: "string \<Rightarrow> (string \<times> (nat list \<Rightarrow> nat list)) option" where
  "demo_secret s = Some (''G'', \<lambda>payload. [1])"

lemma demo_digits: "to_hex [7] = ''07''" "to_hex [Suc 0] = ''01''" "to_hex [91] = ''5b''"
  by (simp_all add: to_hex_def digit_char_def char_of_of_char_nat)

lemma demo_manifest:
  "computeBundleManifest demo_bundle dir [''.rego''] = Inr \<lparr>pm_version = Num 1, pm_algorithm = ''sha256'',
     pm_files = [\<lparr>pf_path = ''a.rego'', pf_sha256 = ''07'', pf_bytes = Num 1\<rparr>], pm_bundle_digest = ''5b''\<rparr>"
  by (simp add: computeBundleManifest_def demo_bundle_def collectBundleFiles_def walk_then_def bundle_extension_def
      endsWith_def startsWith_def toLowerCase_def lower_char_def demo_digits)

theorem bundle_sign_verify_roundtrip_witness:
  "bc_exit (bundle_main demo_bundle demo_secret (\<lambda>d. d) None ''p'' 0 (Some ''verify'')) = 0"
  by (rule bundle_sign_verify_roundtrip [where w' = demo_bundle and secret = "''s''" and now = 0 and digest = "''5b''"
        and pub = "''G''" and sig = "''01''" and signers = "''G''"])
    (simp_all add: bundle_main_def cli_sign_def regenerate_def demo_manifest demo_secret_def signBundleManifest_def
      demo_digits, simp_all add: demo_bundle_def trim_def is_ws_def bytes_def)

lemma demo_verified:
  "br_verified (fst (verify demo_bundle (new_verifier demo_bundle ''p'' (\<lambda>d. d) None None None None None) 0))"
  by (rule signed_bundle_verifies [where sign = "\<lambda>_. [1]" and pub = "''G''", THEN conjunct1])
    (simp_all add: new_verifier_def Let_def demo_manifest signBundleManifest_def demo_digits,
     simp_all add: demo_bundle_def trim_def is_ws_def bytes_def)

theorem bundle_verified_sound_witness:
  "\<exists>signed. load_signed demo_bundle (new_verifier demo_bundle ''p'' (\<lambda>d. d) None None None None None) = Inr signed
     \<and> file_digest signed ''a.rego'' = Some ''07''"
proof -
  let ?v = "new_verifier demo_bundle ''p'' (\<lambda>d. d) None None None None None"
  have t: "bw_tree demo_bundle (bv_policiesDir ?v) = Some (DirNode [(''a.rego'', FileNode [7]), (''x'', OtherNode)])"
    by (simp add: demo_bundle_def)
  have b: "in_bundle (bv_extensions ?v) [(''a.rego'', FileNode [7]), (''x'', OtherNode)] ''a.rego'' [7]"
    by (rule in_bundle.at_top) (simp_all add: new_verifier_def Let_def bundle_extension_def endsWith_def startsWith_def
        toLowerCase_def lower_char_def)
  have h: "to_hex (bw_sha256 demo_bundle [7]) = ''07''" by (simp add: demo_bundle_def demo_digits)
  show ?thesis using bundle_verified_sound [OF demo_verified t] b h by fastforce
qed

section \<open>The signed text binds the manifest\<close>

definition finite_manifest :: "PolicyBundleManifest \<Rightarrow> bool" where
  "finite_manifest m = (js_isFinite (pm_version m) \<and> list_all (\<lambda>f. js_isFinite (pf_bytes f)) (pm_files m))"

lemma entry_json_inj: "entry_json f = entry_json g \<longleftrightarrow> f = g"
  by (cases f; cases g) (simp add: entry_json_def)

lemma canonical_plain: "finite_manifest m \<Longrightarrow> json_plain (canonical_value m)"
  by (auto simp: finite_manifest_def canonical_value_def entry_json_def is_array_index_def is_digit_def list_all_iff)

text \<open>
  C19. The signature binds the manifest: two manifests with finite sizes and one entry per path have the
  same canonical bytes exactly when they agree in version, algorithm and digest and list the same
  entries, in whatever order.\<close>

theorem canonical_manifest_binds:
  assumes "finite_manifest m" and "finite_manifest m'"
    and "distinct (map pf_path (pm_files m))" and "distinct (map pf_path (pm_files m'))"
  shows "utf8 (canonicalizeManifest m) = utf8 (canonicalizeManifest m') \<longleftrightarrow>
    pm_version m = pm_version m' \<and> pm_algorithm m = pm_algorithm m' \<and> pm_bundle_digest m = pm_bundle_digest m'
    \<and> mset (pm_files m) = mset (pm_files m')"
proof -
  have "utf8 (canonicalizeManifest m) = utf8 (canonicalizeManifest m') \<longleftrightarrow> canonical_value m = canonical_value m'"
    unfolding canonicalizeManifest_def using utf8_inj json_inj canonical_plain assms(1,2) by metis
  also have "\<dots> \<longleftrightarrow> pm_version m = pm_version m' \<and> pm_algorithm m = pm_algorithm m' \<and> pm_bundle_digest m = pm_bundle_digest m'
      \<and> sort_key pf_path (pm_files m) = sort_key pf_path (pm_files m')"
    using inj_map_eq_map [of entry_json] by (auto simp: canonical_value_def inj_def entry_json_inj)
  also have "sort_key pf_path (pm_files m) = sort_key pf_path (pm_files m') \<longleftrightarrow> mset (pm_files m) = mset (pm_files m')"
    using sort_key_unique [OF assms(3)] by (metis mset_sort)
  finally show ?thesis .
qed

theorem canonical_manifest_binds_witness:
  "utf8 (canonicalizeManifest \<lparr>pm_version = Num 1, pm_algorithm = ''sha256'',
       pm_files = [\<lparr>pf_path = ''a'', pf_sha256 = ''0'', pf_bytes = Num 1\<rparr>], pm_bundle_digest = ''5''\<rparr>)
   \<noteq> utf8 (canonicalizeManifest \<lparr>pm_version = Num 1, pm_algorithm = ''sha256'',
       pm_files = [\<lparr>pf_path = ''a'', pf_sha256 = ''1'', pf_bytes = Num 1\<rparr>], pm_bundle_digest = ''5''\<rparr>)"
  by (subst canonical_manifest_binds) (simp_all add: finite_manifest_def js_isFinite_def)

end
