(* ===== verification/Policy_Engine.thy ===== *)
theory Policy_Engine
  imports Policy_Bundle Protocol_Machine Overflow_Check
begin

text \<open>
  The policy engine (\<open>src/audit-guard/src/policy-engine.ts\<close>) with the security tips
  (\<open>security-tips.ts\<close>): one evaluation of a pull request drives the protocol machine, runs the overflow
  checker, evaluates the policies with OPA or with the built-in fallback, checks the policy bundle, and
  reports to the dashboard.

  Arguments stand for what is outside: the environment, the clock (successive readings \<open>clk 0\<close>,
  \<open>clk 1\<close>, \<open>\<dots>\<close>, always representable, so \<open>tryApply\<close> does not throw here), the files, the Ed25519 check
  (\<open>Inl\<close> the message when it throws), and the parsed output of \<open>opa eval\<close> or the message of its
  failure. Objects list their fields in the order of their interfaces; what OPA returns under \<open>deny\<close>
  and \<open>warning\<close> is an array when present (a Rego set), its fields are read as text.
\<close>

section \<open>Data\<close>

record PullRequest =
  pr_title :: string
  pr_body :: string
  pr_labels :: "string list"
  pr_base_branch :: string
  pr_head_branch :: string
  pr_number :: int
  pr_author :: string

record DependencyAdded =
  dep_name :: string
  dep_version :: string
  dep_is_dev_dependency :: "bool option"

record DependencyUpdated =
  du_name :: string
  du_current_version :: string
  du_latest_version :: string

record PRData =
  pd_pull_request :: PullRequest
  pd_files_modified :: "string list"
  pd_file_contents :: "(string \<times> string) list option"
  pd_additions :: int
  pd_deletions :: int
  pd_dependencies_added :: "DependencyAdded list option"
  pd_dependencies_updated :: "DependencyUpdated list option"
  pd_relayer :: "string option"
  pd_signature :: "string option"
  pd_timestamp :: "jsnum option"
  pd_maintenance_mode :: "bool option"
  pd_maintenance_message :: "string option"

record PolicyViolation =
  pv_rule :: string
  pv_severity :: string
  pv_message :: string
  pv_detail :: string

record SecurityTip =
  st_id :: string
  st_title :: string
  st_content :: string

record EvaluationResult =
  er_status :: string
  er_violations :: "PolicyViolation list"
  er_warnings :: "PolicyViolation list"
  er_summary :: string
  er_violations_count :: nat
  er_warnings_count :: nat
  er_high_severity_violations :: "PolicyViolation list"
  er_overflow_findings :: "OverflowFinding list"
  er_maintenance_alert :: "string option"
  er_anchored_tx :: "string option"
  er_security_tip :: "SecurityTip option"

record PolicyEngine =
  pg_policiesDir :: string
  pg_opaAvailable :: bool
  pg_stateMachine :: Machine

definition new_engine_for :: "string \<Rightarrow> bool \<Rightarrow> string option \<Rightarrow> PolicyEngine" where
  "new_engine_for default_dir opa dir =
     \<lparr>pg_policiesDir = (case dir of Some d \<Rightarrow> if d \<noteq> [] then d else default_dir | None \<Rightarrow> default_dir),
      pg_opaAvailable = opa, pg_stateMachine = new_machine None None 1\<rparr>"

definition getStateMachineSnapshot :: "PolicyEngine \<Rightarrow> StateMachineSnapshot" where
  "getStateMachineSnapshot e = snapshot (pg_stateMachine e)"

definition warning_sign :: string where "warning_sign = [CHR 0xE2, CHR 0x9A, CHR 0xA0, CHR 0xEF, CHR 0xB8, CHR 0x8F]"
definition check_mark :: string where "check_mark = [CHR 0xE2, CHR 0x9C, CHR 0x85]"
definition info_sign :: string where "info_sign = [CHR 0xE2, CHR 0x84, CHR 0xB9, CHR 0xEF, CHR 0xB8, CHR 0x8F]"
definition long_dash :: string where "long_dash = [CHR 0xE2, CHR 0x80, CHR 0x94]"

definition violation :: "string \<Rightarrow> string \<Rightarrow> string \<Rightarrow> string \<Rightarrow> PolicyViolation" where
  "violation rule severity message detail =
     \<lparr>pv_rule = rule, pv_severity = severity, pv_message = message, pv_detail = detail\<rparr>"

section \<open>Security tips\<close>

definition SECURITY_TIPS :: "SecurityTip list" where
  "SECURITY_TIPS =
    [\<lparr>st_id = ''SEC_TTP_SECRET_MGMT'', st_title = ''Secret Management'', st_content =
        ''Never commit secrets, API keys, or private keys to the repository. Use environment variables or a dedicated secret management service like AWS Secrets Manager or GitHub Secrets.''\<rparr>,
     \<lparr>st_id = ''SEC_TTP_DEP_SECURITY'', st_title = ''Dependency Security'', st_content =
        ''Regularly audit your dependencies for known vulnerabilities using '' @ quote @ ''npm audit'' @ quote @ '' or '' @ quote @ ''yarn audit'' @ quote @ ''. Pin your dependency versions to avoid unexpected breaking changes and potential supply chain attacks.''\<rparr>,
     \<lparr>st_id = ''SEC_TTP_INPUT_VAL'', st_title = ''Input Validation'', st_content =
        ''Always validate and sanitize user input to prevent common vulnerabilities like Cross-Site Scripting (XSS) and SQL Injection.''\<rparr>,
     \<lparr>st_id = ''SEC_TTP_LEAST_PRIV'', st_title = ''Principle of Least Privilege'', st_content =
        ''Grant only the minimum permissions necessary for a user or system to perform its function. This limits the potential impact of a security breach.''\<rparr>,
     \<lparr>st_id = ''SEC_TTP_SEC_COMM'', st_title = ''Secure Communication'', st_content =
        ''Always use encrypted protocols like HTTPS for transmitting sensitive data. Ensure that SSL/TLS certificates are valid and up-to-date.''\<rparr>,
     \<lparr>st_id = ''SEC_TTP_ERR_HANDLING'', st_title = ''Secure Error Handling'', st_content =
        ''Avoid displaying detailed error messages to users, as they can reveal sensitive information about your system'' @ quote @ ''s architecture. Log detailed errors internally for debugging purposes.''\<rparr>,
     \<lparr>st_id = ''SEC_TTP_AUTH_N_AUTHZ'', st_title = ''Authentication & Authorization'', st_content =
        ''Implement robust authentication and authorization mechanisms. Use well-established libraries and frameworks instead of building your own security logic from scratch.''\<rparr>,
     \<lparr>st_id = ''SEC_TTP_DATA_MIN'', st_title = ''Data Minimization'', st_content =
        ''Only collect and store the data that is absolutely necessary for your application. Reducing the amount of sensitive data you hold minimizes the risk in case of a data breach.''\<rparr>]"

definition keywordMap :: "(string \<times> string list) list" where
  "keywordMap =
    [(''SEC_TIP_SECRET_MGMT'', [''secret'', ''key'', ''token'', ''password'', ''aws_access'', ''credential'']),
     (''SEC_TIP_DEP_SECURITY'', [''dependency'', ''package'', ''npm'', ''yarn'', ''lockfile'', ''version'']),
     (''SEC_TIP_INPUT_VAL'', [''input'', ''sanitize'', ''validate'', ''xss'', ''injection'', ''query'']),
     (''SEC_TIP_AUTH_N_AUTHZ'', [''auth'', ''login'', ''oauth'', ''jwt'', ''session'']),
     (''SEC_TIP_LEAST_PRIV'', [''permission'', ''access'', ''role'', ''grant'', ''policy'', ''admin'']),
     (''SEC_TIP_SEC_COMM'', [''https'', ''ssl'', ''tls'', ''encrypt'', ''certificate'', ''protocol'']),
     (''SEC_TIP_ERR_HANDLING'', [''error'', ''exception'', ''catch'', ''stacktrace'', ''debug'']),
     (''SEC_TIP_DATA_MIN'', [''sensitive'', ''data'', ''privacy'', ''pii'', ''collection''])]"

fun first_tip :: "string \<Rightarrow> (string \<times> string list) list \<Rightarrow> SecurityTip option" where
  "first_tip allText [] = None"
| "first_tip allText ((tipId, keywords) # rest) =
     (if list_ex (\<lambda>kw. str_includes allText kw) keywords then
        (case find (\<lambda>t. st_id t = tipId) SECURITY_TIPS of Some tip \<Rightarrow> Some tip | None \<Rightarrow> first_tip allText rest)
      else first_tip allText rest)"

text \<open>For a pull request number that is not negative; a negative remainder would index out of range.\<close>

definition getSecurityTip :: "PRData \<Rightarrow> SecurityTip option" where
  "getSecurityTip prData =
     (let p = pd_pull_request prData;
          allText = toLowerCase (pr_title p) @ '' '' @ toLowerCase (pr_body p)
      in case first_tip allText keywordMap of
           Some tip \<Rightarrow> Some tip
         | None \<Rightarrow> if pr_number p < 0 then None
                   else Some (SECURITY_TIPS ! nat (pr_number p mod int (length SECURITY_TIPS))))"

section \<open>The relayer signature\<close>

definition opt_json :: "('a \<Rightarrow> jsval) \<Rightarrow> 'a option \<Rightarrow> jsval" where
  "opt_json f x = (case x of None \<Rightarrow> JUndefined | Some v \<Rightarrow> f v)"

definition pull_request_json :: "PullRequest \<Rightarrow> jsval" where
  "pull_request_json p = JObject [(''title'', JString (pr_title p)), (''body'', JString (pr_body p)),
     (''labels'', JArray (map JString (pr_labels p))), (''base_branch'', JString (pr_base_branch p)),
     (''head_branch'', JString (pr_head_branch p)), (''number'', JNumber (Num (pr_number p))),
     (''author'', JString (pr_author p))]"

definition added_json :: "DependencyAdded \<Rightarrow> jsval" where
  "added_json d = JObject [(''name'', JString (dep_name d)), (''version'', JString (dep_version d)),
     (''is_dev_dependency'', opt_json JBool (dep_is_dev_dependency d))]"

definition updated_json :: "DependencyUpdated \<Rightarrow> jsval" where
  "updated_json d = JObject [(''name'', JString (du_name d)), (''current_version'', JString (du_current_version d)),
     (''latest_version'', JString (du_latest_version d))]"

definition payload_value :: "PRData \<Rightarrow> jsval" where
  "payload_value d = JObject [(''pull_request'', pull_request_json (pd_pull_request d)),
     (''files_modified'', JArray (map JString (pd_files_modified d))),
     (''additions'', JNumber (Num (pd_additions d))), (''deletions'', JNumber (Num (pd_deletions d))),
     (''dependencies_added'', opt_json (\<lambda>xs. JArray (map added_json xs)) (pd_dependencies_added d)),
     (''dependencies_updated'', opt_json (\<lambda>xs. JArray (map updated_json xs)) (pd_dependencies_updated d)),
     (''relayer'', opt_json JString (pd_relayer d)), (''timestamp'', opt_json JNumber (pd_timestamp d))]"

definition getSignaturePayload :: "PRData \<Rightarrow> string" where
  "getSignaturePayload prData = json (payload_value prData)"

text \<open>The signature fields when all are truthy: not absent, not empty, the time neither 0 nor \<open>NaN\<close>.\<close>

definition signature_fields :: "PRData \<Rightarrow> (string \<times> string \<times> jsnum) option" where
  "signature_fields d =
     (case (pd_relayer d, pd_signature d, pd_timestamp d) of
        (Some r, Some s, Some t) \<Rightarrow> if r \<noteq> [] \<and> s \<noteq> [] \<and> t \<noteq> Num 0 \<and> t \<noteq> JNaN then Some (r, s, t) else None
      | _ \<Rightarrow> None)"

definition authorized_relayers :: "string option \<Rightarrow> string list" where
  "authorized_relayers env = filter (\<lambda>s. s \<noteq> []) (split_on CHR '','' (case env of Some s \<Rightarrow> s | None \<Rightarrow> []))"

definition relayer_violations :: "string list \<Rightarrow> string \<Rightarrow> PolicyViolation list" where
  "relayer_violations authorized relayer =
     (if length authorized = 0 then
        [violation ''RELAYER_UNAUTHORIZED'' ''CRITICAL'' (cross_mark @ '' Relayer not authorized'')
           ''No authorized relayers configured in AUTHORIZED_ADDRESSES environment variable'']
      else if relayer \<notin> set authorized then
        [violation ''RELAYER_UNAUTHORIZED'' ''CRITICAL'' (cross_mark @ '' Relayer not authorized'')
           (''The relayer address '' @ quote @ relayer @ quote @ '' is not in the authorized set'')]
      else [])"

definition expired :: "int \<Rightarrow> jsnum \<Rightarrow> bool" where
  "expired now t = js_gt (js_abs (js_sub (Num now) t)) (Num 300000)"

definition signature_violations ::
  "(string \<Rightarrow> nat list \<Rightarrow> nat list \<Rightarrow> string + bool) \<Rightarrow> PRData \<Rightarrow> string \<Rightarrow> string \<Rightarrow> PolicyViolation list" where
  "signature_violations vf prData relayer sig =
     (case vf relayer (utf8 (getSignaturePayload prData)) (buffer_from_hex sig) of
        Inr True \<Rightarrow> []
      | Inr False \<Rightarrow> [violation ''RELAYER_SIGNATURE_INVALID'' ''CRITICAL'' (cross_mark @ '' Invalid relayer signature'')
          ''The cryptographic signature does not match the PR data payload'']
      | Inl msg \<Rightarrow> [violation ''RELAYER_SIGNATURE_INVALID'' ''CRITICAL'' (cross_mark @ '' Invalid relayer signature'')
          (''Signature verification failed: '' @ msg)])"

text \<open>Formatting the time of an expired signature throws when it cannot be represented.\<close>

definition verifyRelayerSignature ::
  "string option \<Rightarrow> (string \<Rightarrow> nat list \<Rightarrow> nat list \<Rightarrow> string + bool) \<Rightarrow> int \<Rightarrow> PRData \<Rightarrow> string + PolicyViolation list" where
  "verifyRelayerSignature env vf now prData =
     (case signature_fields prData of
        None \<Rightarrow> Inr [violation ''RELAYER_SIGNATURE_MISSING'' ''CRITICAL'' (cross_mark @ '' Relayer signature missing'')
                  ''PR data must be signed by an authorized relayer'']
      | Some (relayer, sig, t) \<Rightarrow>
          (let unauthorized = relayer_violations (authorized_relayers env) relayer
           in if expired now t then
                (case toISOString t of
                   Inl _ \<Rightarrow> Inl ''Invalid time value''
                 | Inr isoText \<Rightarrow> Inr (unauthorized
                     @ [violation ''RELAYER_SIGNATURE_EXPIRED'' ''CRITICAL'' (cross_mark @ '' Relayer signature expired'')
                          (''Signature timestamp ('' @ isoText @ '') is outside the 5-minute window'')]
                     @ signature_violations vf prData relayer sig))
              else Inr (unauthorized @ signature_violations vf prData relayer sig)))"

section \<open>Evaluation without OPA\<close>

definition title_checks :: "PullRequest \<Rightarrow> PolicyViolation list" where
  "title_checks p =
     (if pr_title p = [] then [violation ''PR_TITLE_EMPTY'' ''MEDIUM'' (cross_mark @ '' PR title cannot be empty'')
        ''Provide a clear, descriptive title for the PR''] else [])
     @ (if length (pr_title p) < 10 then [violation ''PR_TITLE_TOO_SHORT'' ''MEDIUM'' (cross_mark @ '' PR title is too short'')
        (''Title '' @ quote @ pr_title p @ quote @ '' is less than 10 characters'')] else [])"

definition body_violations :: "PullRequest \<Rightarrow> PolicyViolation list" where
  "body_violations p =
     (if pr_body p = [] then [violation ''PR_DESCRIPTION_MISSING'' ''HIGH'' (cross_mark @ '' PR description is required'')
        ''Provide a detailed description of changes, security implications, and testing'']
      else if str_includes (toLowerCase (pr_body p)) ''breaking'' \<and> ''breaking-change'' \<notin> set (pr_labels p) then
        [violation ''BREAKING_CHANGE_NOT_LABELED'' ''HIGH'' (cross_mark @ '' Breaking changes must be labeled'')
          (''Add '' @ quote @ ''breaking-change'' @ quote @ '' label if this PR contains breaking changes'')]
      else [])"

definition securityKeywords :: "string list" where
  "securityKeywords = [''auth'', ''crypto'', ''signature'', ''key'', ''secret'', ''token'', ''vulnerability'']"

definition body_warnings :: "PullRequest \<Rightarrow> PolicyViolation list" where
  "body_warnings p =
     (if pr_body p = [] then []
      else (let bodyLower = toLowerCase (pr_body p)
        in (if \<not> str_includes bodyLower ''test'' then
              [violation ''PR_TESTING_UNDOCUMENTED'' ''MEDIUM'' (warning_sign @ ''  PR testing not documented'')
                 ''Describe how you tested these changes''] else [])
           @ (if list_ex (\<lambda>kw. str_includes bodyLower kw) securityKeywords
                \<and> ''security'' \<notin> set (pr_labels p) \<and> ''audit'' \<notin> set (pr_labels p) then
              [violation ''SECURITY_CHANGE_NEEDS_LABEL'' ''HIGH'' (warning_sign @ ''  Security-sensitive changes detected'')
                 (''Add '' @ quote @ ''security'' @ quote @ '' or '' @ quote @ ''audit'' @ quote
                   @ '' label for changes involving auth, crypto, keys'')] else [])
           @ (if ''trivial'' \<notin> set (pr_labels p) \<and> ''docs'' \<notin> set (pr_labels p) \<and> \<not> str_includes bodyLower ''changelog'' then
              [violation ''CHANGELOG_NOT_UPDATED'' ''MEDIUM'' (warning_sign @ ''  Changelog should be updated'')
                 ''For non-trivial changes, update CHANGELOG.md or mention changelog in PR''] else [])))"

definition bannedAlgorithms :: "(string \<times> string \<times> string) list" where
  "bannedAlgorithms =
    [(''MD5'', ''md5'', ''MD5 is cryptographically broken and should not be used for security purposes.''),
     (''SHA1'', ''sha1'', ''SHA-1 is no longer considered secure against well-funded opponents.''),
     (''RC4'', ''rc4'', ''RC4 is insecure and has many known vulnerabilities.''),
     (''DES'', ''des'', ''DES has a small key size and can be brute-forced easily.'')]"

text \<open>The patterns: the name followed by a quote or a parenthesis, or at the end of the text, in any case.\<close>

definition uses_algorithm :: "string \<Rightarrow> string \<Rightarrow> bool" where
  "uses_algorithm name content =
     (let c = toLowerCase content
      in list_ex (\<lambda>d. str_includes c (name @ [d])) [CHR 0x27, CHR 0x22, CHR ''(''] \<or> endsWith c name)"

definition crypto_violations :: "PRData \<Rightarrow> PolicyViolation list" where
  "crypto_violations d =
     (case pd_file_contents d of
        None \<Rightarrow> []
      | Some files \<Rightarrow> concat (map (\<lambda>(filename, content).
          concat (map (\<lambda>(name, pat, msg).
            if uses_algorithm pat content then
              [violation ''INSECURE_CRYPTO_ALGORITHM'' ''CRITICAL''
                 (cross_mark @ '' Insecure crypto algorithm '' @ quote @ name @ quote @ '' detected in '' @ filename)
                 (msg @ '' Use modern alternatives like SHA-256, SHA-3, or AES.'')]
            else []) bannedAlgorithms)) (own_order files)))"

definition size_warnings :: "PRData \<Rightarrow> PolicyViolation list" where
  "size_warnings d =
     (if length (pd_files_modified d) > 20 then
        [violation ''TOO_MANY_FILES_MODIFIED'' ''MEDIUM''
           (warning_sign @ ''  Many files modified ('' @ show_nat (length (pd_files_modified d)) @ '')'')
           ''Consider breaking this into smaller, focused PRs''] else [])
     @ (let totalChanges = pd_additions d + pd_deletions d
        in if totalChanges > 1000 then
             [violation ''LARGE_DIFF_REQUIRES_JUSTIFICATION'' ''MEDIUM''
                (warning_sign @ ''  Large changeset ('' @ show_int totalChanges @ '' lines)'')
                ''Break large changes into smaller PRs for easier review''] else [])"

definition overflow_violation :: "OverflowFinding \<Rightarrow> PolicyViolation" where
  "overflow_violation f = violation (of_rule f) (severity_name (of_severity f)) (of_message f)
     (of_detail f @ '' (at '' @ of_file f @ '':'' @ show_nat (of_line f) @ '')'')"

definition title_warnings :: "PullRequest \<Rightarrow> PolicyViolation list" where
  "title_warnings p =
     (if length (pr_title p) > 100 then
        [violation ''PR_TITLE_TOO_LONG'' ''LOW'' (info_sign @ ''  PR title is long'')
           (''Consider shortening title from '' @ show_nat (length (pr_title p)) @ '' characters'')] else [])"

definition high_severity :: "PolicyViolation \<Rightarrow> bool" where
  "high_severity v = (pv_severity v = ''CRITICAL'' \<or> pv_severity v = ''HIGH'')"

definition evaluateWithoutOPA ::
  "string option \<Rightarrow> (string \<Rightarrow> nat list \<Rightarrow> nat list \<Rightarrow> string + bool) \<Rightarrow> int \<Rightarrow> PRData \<Rightarrow> OverflowFinding list
   \<Rightarrow> string + EvaluationResult" where
  "evaluateWithoutOPA env vf now prData overflowFindings =
     (case verifyRelayerSignature env vf now prData of
        Inl msg \<Rightarrow> Inl msg
      | Inr signature_vs \<Rightarrow>
          (let p = pd_pull_request prData;
               violations = signature_vs @ title_checks p @ body_violations p @ crypto_violations prData
                 @ map overflow_violation overflowFindings;
               warnings = body_warnings p @ size_warnings prData @ title_warnings p
           in Inr \<lparr>er_status = (if length violations > 0 then ''NON_COMPLIANT''
                     else if length warnings > 0 then ''WARNING'' else ''COMPLIANT''),
                   er_violations = violations, er_warnings = warnings,
                   er_summary = trim (if length violations = 0 \<and> length warnings = 0
                     then check_mark @ '' All compliance checks passed!''
                     else (if length violations > 0 then cross_mark @ '' '' @ show_nat (length violations) @ '' violation(s)'' else [])
                       @ '' '' @ (if length warnings > 0 then warning_sign @ ''  '' @ show_nat (length warnings) @ '' warning(s)'' else [])),
                   er_violations_count = length violations, er_warnings_count = length warnings,
                   er_high_severity_violations = filter high_severity violations,
                   er_overflow_findings = [], er_maintenance_alert = None, er_anchored_tx = None, er_security_tip = None\<rparr>))"

section \<open>Evaluation with OPA\<close>

definition js_truthy :: "jsval \<Rightarrow> bool" where
  "js_truthy v = (case v of JNull \<Rightarrow> False | JUndefined \<Rightarrow> False | JBool b \<Rightarrow> b | JNumber n \<Rightarrow> n \<noteq> Num 0 \<and> n \<noteq> JNaN
     | JString s \<Rightarrow> s \<noteq> [] | _ \<Rightarrow> True)"

text \<open>\<open>v?.[0]\<close>.\<close>

definition js_first :: "jsval \<Rightarrow> jsval" where
  "js_first v = (case v of JArray (x # _) \<Rightarrow> x | JString (c # _) \<Rightarrow> JString [c] | JObject ps \<Rightarrow> js_prop ps ''0'' | _ \<Rightarrow> JUndefined)"

definition opa_violation :: "jsval \<Rightarrow> PolicyViolation" where
  "opa_violation v = violation (js_String (js_get v ''rule'')) (js_String (js_get v ''severity''))
     (js_String (js_get v ''message'')) (js_String (js_get v ''detail''))"

text \<open>A truthy \<open>deny\<close> that is no array has no \<open>filter\<close>, and \<open>null\<close> entries have no \<open>severity\<close>: both throw.\<close>

definition parseOPAResult :: "jsval \<Rightarrow> string + EvaluationResult" where
  "parseOPAResult opaOutput =
     (if is_nullish opaOutput then Inl ''TypeError''
      else (let bindings = js_get (js_get (js_first (js_get opaOutput ''result'')) ''bindings'') ''result'';
                deny = js_get bindings ''deny'';
                warnings = (case js_get bindings ''warning'' of JArray ws \<Rightarrow> ws | _ \<Rightarrow> []);
                first = js_first (js_get bindings ''summary'');
                status = js_get first ''status''; message = js_get first ''message''
        in case (if js_truthy deny then (case deny of JArray vs \<Rightarrow> if list_ex is_nullish vs then None else Some vs | _ \<Rightarrow> None)
                 else Some []) of
             None \<Rightarrow> Inl ''TypeError''
           | Some vs \<Rightarrow>
               Inr \<lparr>er_status = (if js_truthy status then js_String status else ''COMPLIANT''),
                    er_violations = map opa_violation vs, er_warnings = map opa_violation warnings,
                    er_summary = (if js_truthy message then js_String message else check_mark @ '' All compliance checks passed!''),
                    er_violations_count = length vs, er_warnings_count = length warnings,
                    er_high_severity_violations = filter high_severity (map opa_violation vs),
                    er_overflow_findings = [], er_maintenance_alert = None, er_anchored_tx = None, er_security_tip = None\<rparr>))"

definition evaluateWithOPA :: "string + jsval \<Rightarrow> string + EvaluationResult" where
  "evaluateWithOPA opa = (case opa of Inl msg \<Rightarrow> Inl msg | Inr output \<Rightarrow> parseOPAResult output)"

section \<open>The whole evaluation\<close>

definition bundle_warning :: "PolicyBundleError \<Rightarrow> PolicyViolation" where
  "bundle_warning e = violation (bundle_code (pe_code e)) (if critical_code (pe_code e) then ''CRITICAL'' else ''HIGH'')
     (warning_sign @ ''  Policy bundle signature verification failed: '' @ pe_message e)
     (if pe_detail e \<noteq> [] then pe_detail e else pe_message e)"

text \<open>\<open>v\<close> is the verifier made for the engine's directory.\<close>

definition applyPolicyBundleVerification ::
  "BundleWorld \<Rightarrow> PolicyBundleVerifier \<Rightarrow> int \<Rightarrow> EvaluationResult \<Rightarrow> EvaluationResult" where
  "applyPolicyBundleVerification w v now result =
     (if \<not> isConfigured v then result
      else (let verification = fst (verify w v now)
        in if br_verified verification then result
           else (let warnings = er_warnings result @ map bundle_warning (br_errors verification)
             in result\<lparr>er_warnings := warnings, er_warnings_count := length warnings,
                  er_status := (if er_status result = ''COMPLIANT'' then ''WARNING'' else er_status result)\<rparr>)))"

definition closed_result :: "PolicyViolation \<Rightarrow> string \<Rightarrow> OverflowFinding list \<Rightarrow> EvaluationResult" where
  "closed_result v summary overflowFindings =
     \<lparr>er_status = ''NON_COMPLIANT'', er_violations = [v], er_warnings = [], er_summary = summary,
      er_violations_count = 1, er_warnings_count = 0, er_high_severity_violations = [v],
      er_overflow_findings = overflowFindings, er_maintenance_alert = None, er_anchored_tx = None, er_security_tip = None\<rparr>"

record EvalWorld =
  ew_AUTHORIZED_ADDRESSES :: "string option"
  ew_verify :: "string \<Rightarrow> nat list \<Rightarrow> nat list \<Rightarrow> string + bool"
  ew_read :: "string \<Rightarrow> string option"
  ew_opa :: "PRData \<Rightarrow> OverflowFinding list \<Rightarrow> string + jsval"
  ew_bundle :: BundleWorld
  ew_default_manifest :: "string \<Rightarrow> string"

definition engine_verifier :: "EvalWorld \<Rightarrow> PolicyEngine \<Rightarrow> PolicyBundleVerifier" where
  "engine_verifier w e = new_verifier (ew_bundle w) (pg_policiesDir e) (ew_default_manifest w) (Some (pg_policiesDir e)) None None None None"

definition evaluation_result :: "EvalWorld \<Rightarrow> PolicyEngine \<Rightarrow> PRData \<Rightarrow> int \<Rightarrow> EvaluationResult" where
  "evaluation_result w e prData now =
     (let overflowFindings = checkFiles (ew_read w) (pd_files_modified prData);
          checked = (\<lambda>r. applyPolicyBundleVerification (ew_bundle w) (engine_verifier w e) now r)
      in if \<not> pg_opaAvailable e then
           (case evaluateWithoutOPA (ew_AUTHORIZED_ADDRESSES w) (ew_verify w) now prData overflowFindings of
              Inr r \<Rightarrow> checked (r\<lparr>er_overflow_findings := overflowFindings\<rparr>)
            | Inl msg \<Rightarrow> closed_result (violation ''EVALUATION_PIPELINE_ERROR'' ''CRITICAL''
                (cross_mark @ '' Unexpected evaluation pipeline error'') msg) (cross_mark @ '' Evaluation pipeline error'') overflowFindings)
         else
           (case evaluateWithOPA (ew_opa w prData overflowFindings) of
              Inr r \<Rightarrow> checked (r\<lparr>er_overflow_findings := overflowFindings\<rparr>)
            | Inl msg \<Rightarrow> checked (closed_result (violation ''OPA_EVALUATION_FAILED'' ''CRITICAL''
                (cross_mark @ '' Primary OPA policy evaluator failed '' @ long_dash @ '' PR blocked (fail-closed)'')
                (''OPA crashed, timed out, or returned invalid output. Fallback evaluator was NOT used. Error: '' @ msg))
                (cross_mark @ '' OPA evaluation failed '' @ long_dash @ '' failing closed'') overflowFindings)))"

text \<open>One event offered to the machine; a refusal only writes a log line.\<close>

definition advance :: "int \<Rightarrow> ProtocolEvent \<Rightarrow> Machine \<Rightarrow> Machine" where
  "advance now event m = fst (snd (tryApply (Num now) m event))"

definition scan_id :: "PRData \<Rightarrow> int \<Rightarrow> string" where
  "scan_id prData now = ''pr-'' @ show_int (pr_number (pd_pull_request prData)) @ ''-'' @ show_int now"

definition evaluate :: "EvalWorld \<Rightarrow> (nat \<Rightarrow> int) \<Rightarrow> PolicyEngine \<Rightarrow> PRData \<Rightarrow> EvaluationResult \<times> PolicyEngine" where
  "evaluate w clk e prData =
     (let scanId = scan_id prData (clk 0);
          m1 = advance (clk 2) (SCAN_STARTED scanId (pr_head_branch (pd_pull_request prData)) (Num (clk 1))) (pg_stateMachine e);
          result = evaluation_result w e prData (clk 3);
          m2 = advance (clk 5) (SCAN_COMPLETED scanId (int (length (er_violations result))) (Num (clk 4))) m1;
          m3 = advance (clk 7) (REPORT_DELIVERED scanId [] (Num (clk 6))) m2;
          m4 = advance (clk 9) (RESET ''PolicyEngine'' (Num (clk 8))) m3
      in (result, e\<lparr>pg_stateMachine := m4\<rparr>))"

section \<open>What the fallback evaluation admits\<close>

lemma not_expired_iff: "\<not> expired now t \<and> t \<noteq> JNaN \<longleftrightarrow> (\<exists>ms. t = Num ms \<and> \<bar>now - ms\<bar> \<le> 300000)"
  by (cases t) (auto simp: expired_def)

definition uses_banned :: "PRData \<Rightarrow> bool" where
  "uses_banned d = list_ex (\<lambda>(name, content). list_ex (\<lambda>pat. uses_algorithm pat content) [''md5'', ''sha1'', ''rc4'', ''des''])
     (case pd_file_contents d of None \<Rightarrow> [] | Some files \<Rightarrow> own_order files)"

lemma crypto_violations_empty: "crypto_violations d = [] \<longleftrightarrow> \<not> uses_banned d"
  by (auto simp: crypto_violations_def uses_banned_def bannedAlgorithms_def list_ex_iff split: option.splits)

text \<open>The relayer signed exactly this payload, is authorised, and signed it within five minutes of now.\<close>

definition properly_signed ::
  "string option \<Rightarrow> (string \<Rightarrow> nat list \<Rightarrow> nat list \<Rightarrow> string + bool) \<Rightarrow> int \<Rightarrow> PRData \<Rightarrow> bool" where
  "properly_signed env vf now d \<longleftrightarrow> (\<exists>relayer sig ms. pd_relayer d = Some relayer \<and> pd_signature d = Some sig
     \<and> pd_timestamp d = Some (Num ms) \<and> relayer \<noteq> [] \<and> sig \<noteq> [] \<and> ms \<noteq> 0 \<and> \<bar>now - ms\<bar> \<le> 300000
     \<and> relayer \<in> set (authorized_relayers env)
     \<and> vf relayer (utf8 (getSignaturePayload d)) (buffer_from_hex sig) = Inr True)"

lemma relayer_violations_empty: "relayer_violations a r = [] \<longleftrightarrow> r \<in> set a"
  by (auto simp: relayer_violations_def)

lemma signature_violations_empty:
  "signature_violations vf d r s = [] \<longleftrightarrow> vf r (utf8 (getSignaturePayload d)) (buffer_from_hex s) = Inr True"
  by (auto simp: signature_violations_def split: sum.splits bool.splits)

lemma signature_fields_iff:
  "signature_fields d = Some (r, s, t) \<longleftrightarrow> pd_relayer d = Some r \<and> pd_signature d = Some s \<and> pd_timestamp d = Some t
     \<and> r \<noteq> [] \<and> s \<noteq> [] \<and> t \<noteq> Num 0 \<and> t \<noteq> JNaN"
  by (auto simp: signature_fields_def split: option.splits)

lemma verifyRelayerSignature_ok: "verifyRelayerSignature env vf now d = Inr [] \<longleftrightarrow> properly_signed env vf now d"
proof (cases "signature_fields d")
  case None
  then have "\<not> properly_signed env vf now d" by (auto simp: signature_fields_def properly_signed_def)
  then show ?thesis using None by (simp add: verifyRelayerSignature_def)
next
  case (Some f)
  then obtain r s t where f: "signature_fields d = Some (r, s, t)" by (cases f) auto
  then have "verifyRelayerSignature env vf now d = Inr [] \<longleftrightarrow> \<not> expired now t \<and> t \<noteq> JNaN \<and> r \<in> set (authorized_relayers env)
      \<and> vf r (utf8 (getSignaturePayload d)) (buffer_from_hex s) = Inr True"
    using signature_fields_iff [of d r s t]
    by (auto simp: verifyRelayerSignature_def Let_def relayer_violations_empty signature_violations_empty split: sum.splits)
  also have "\<dots> \<longleftrightarrow> properly_signed env vf now d"
    using f not_expired_iff [of now t] unfolding signature_fields_iff properly_signed_def by auto
  finally show ?thesis .
qed

text \<open>
  C9. The built-in evaluation admits a pull request exactly when an authorised relayer signed its payload
  within five minutes of now, its title has at least ten characters, it has a description, a breaking change
  is labelled, no submitted file uses a banned algorithm, and the overflow checker found nothing. A missing
  or malformed signature, or a check that throws, never passes.\<close>

theorem fallback_admits_iff:
  "(case evaluateWithoutOPA env vf now d findings of Inl _ \<Rightarrow> False | Inr r \<Rightarrow> er_status r \<noteq> ''NON_COMPLIANT'') \<longleftrightarrow>
     properly_signed env vf now d \<and> 10 \<le> length (pr_title (pd_pull_request d)) \<and> pr_body (pd_pull_request d) \<noteq> []
     \<and> (if str_includes (toLowerCase (pr_body (pd_pull_request d))) ''breaking''
        then ''breaking-change'' \<in> set (pr_labels (pd_pull_request d)) else True)
     \<and> \<not> uses_banned d \<and> findings = []"
proof -
  have t: "title_checks p = [] \<longleftrightarrow> 10 \<le> length (pr_title p)" for p by (auto simp: title_checks_def)
  have b: "body_violations p = [] \<longleftrightarrow> pr_body p \<noteq> [] \<and> (if str_includes (toLowerCase (pr_body p)) ''breaking''
        then ''breaking-change'' \<in> set (pr_labels p) else True)" for p by (auto simp: body_violations_def)
  show ?thesis
  proof (cases "verifyRelayerSignature env vf now d")
    case (Inl msg)
    then have "\<not> properly_signed env vf now d" using verifyRelayerSignature_ok [of env vf now d] by simp
    then show ?thesis by (simp add: evaluateWithoutOPA_def Inl)
  next
    case (Inr vs)
    then have "properly_signed env vf now d \<longleftrightarrow> vs = []" using verifyRelayerSignature_ok [of env vf now d] by simp
    then show ?thesis by (auto simp: evaluateWithoutOPA_def Inr Let_def t b crypto_violations_empty)
  qed
qed

section \<open>The evaluation fails closed\<close>

text \<open>What the evaluator of the engine said, before the bundle is looked at.\<close>

definition primary_verdict :: "EvalWorld \<Rightarrow> PolicyEngine \<Rightarrow> PRData \<Rightarrow> int \<Rightarrow> string + EvaluationResult" where
  "primary_verdict w e d now =
     (let findings = checkFiles (ew_read w) (pd_files_modified d)
      in if pg_opaAvailable e then evaluateWithOPA (ew_opa w d findings)
         else evaluateWithoutOPA (ew_AUTHORIZED_ADDRESSES w) (ew_verify w) now d findings)"

definition bundle_clean :: "EvalWorld \<Rightarrow> PolicyEngine \<Rightarrow> int \<Rightarrow> bool" where
  "bundle_clean w e now = (\<not> isConfigured (engine_verifier w e)
     \<or> br_verified (fst (verify (ew_bundle w) (engine_verifier w e) now)))"

lemma apply_bundle_simps:
  "er_violations (applyPolicyBundleVerification w v now r) = er_violations r"
  "er_violations_count (applyPolicyBundleVerification w v now r) = er_violations_count r"
  "er_high_severity_violations (applyPolicyBundleVerification w v now r) = er_high_severity_violations r"
  "er_overflow_findings (applyPolicyBundleVerification w v now r) = er_overflow_findings r"
  by (simp_all add: applyPolicyBundleVerification_def Let_def)

lemma apply_bundle_status:
  "er_status (applyPolicyBundleVerification w v now r) =
     (if er_status r = ''COMPLIANT'' \<and> isConfigured v \<and> \<not> br_verified (fst (verify w v now)) then ''WARNING'' else er_status r)"
  by (simp add: applyPolicyBundleVerification_def Let_def)

lemma apply_bundle_warnings:
  "er_warnings (applyPolicyBundleVerification w v now r) = er_warnings r @
     (if isConfigured v \<and> \<not> br_verified (fst (verify w v now)) then map bundle_warning (br_errors (fst (verify w v now))) else [])"
  by (simp add: applyPolicyBundleVerification_def Let_def)

lemmas apply_bundle_facts = apply_bundle_simps apply_bundle_status apply_bundle_warnings

text \<open>
  C10. An evaluation fails closed. When the evaluator in charge throws, the result is NON_COMPLIANT with
  exactly one critical violation that quotes the error, and the other evaluator is not consulted; otherwise
  its violations and its status are kept, except that COMPLIANT survives only when the policy bundle is not
  configured or verifies. The overflow findings of the modified files are always attached.\<close>

theorem evaluation_fails_closed:
  "case primary_verdict w e d now of
     Inl msg \<Rightarrow> er_status (evaluation_result w e d now) = ''NON_COMPLIANT''
       \<and> map pv_severity (er_violations (evaluation_result w e d now)) = [''CRITICAL'']
       \<and> list_all (\<lambda>v. str_includes (pv_detail v) msg) (er_violations (evaluation_result w e d now))
       \<and> er_overflow_findings (evaluation_result w e d now) = checkFiles (ew_read w) (pd_files_modified d)
   | Inr r \<Rightarrow> er_violations (evaluation_result w e d now) = er_violations r
       \<and> er_status (evaluation_result w e d now) =
           (if er_status r = ''COMPLIANT'' \<and> \<not> bundle_clean w e now then ''WARNING'' else er_status r)
       \<and> er_overflow_findings (evaluation_result w e d now) = checkFiles (ew_read w) (pd_files_modified d)"
proof (cases "primary_verdict w e d now")
  case (Inl msg)
  then show ?thesis
    by (cases "pg_opaAvailable e") (simp_all add: primary_verdict_def evaluation_result_def Let_def apply_bundle_facts
        closed_result_def violation_def str_includes_iff sublist_Cons_right)
next
  case (Inr r)
  then show ?thesis
    by (cases "pg_opaAvailable e") (simp_all add: primary_verdict_def evaluation_result_def Let_def apply_bundle_facts bundle_clean_def)
qed

section \<open>The engine is ready again after every evaluation\<close>

definition ready :: "Machine \<Rightarrow> bool" where
  "ready m \<longleftrightarrow> m_state m = IDLE \<and> m_activeScanId m = None \<and> \<not> m_shutdown m \<and> m_maxClockSkewMs m = 300000"

lemma advance_commit:
  assumes "\<not> m_shutdown m" "m_maxClockSkewMs m = 300000" "ev_timestamp e = Num t" "\<bar>t - now\<bar> \<le> 300000"
    "\<not> is_reset e" "next_state (m_state m) e = Some s" "is_scan_started e \<or> m_activeScanId m = event_scanId e"
  shows "m_state (advance now e m) = s \<and> \<not> m_shutdown (advance now e m) \<and> m_maxClockSkewMs (advance now e m) = 300000
    \<and> m_transitionCount (advance now e m) = Suc (m_transitionCount m)
    \<and> m_activeScanId (advance now e m) = (if is_scan_started e then Some (scanId e) else m_activeScanId m)"
proof -
  have "\<not> skewed (Num now) m e" using assms(2-4) by (simp add: skewed_def)
  moreover have "scan_mismatch m e = None"
    using assms(7) by (auto simp: scan_mismatch_def split: option.splits)
  moreover have "s \<noteq> IDLE" using next_state_not_idle assms(6) by blast
  ultimately show ?thesis using assms(1,2,5,6)
    by (simp add: advance_def tryApply_def apply_event_def apply_table_def commit_def Let_def)
qed

lemma advance_reset:
  assumes "\<not> m_shutdown m" "m_maxClockSkewMs m = 300000" "\<bar>t - now\<bar> \<le> 300000"
  shows "ready (advance now (RESET u (Num t)) m) \<and> m_transitionCount (advance now (RESET u (Num t)) m) = Suc (m_transitionCount m)"
  using assms by (simp add: ready_def advance_def tryApply_def apply_event_def skewed_def is_reset_def applyReset_def commit_def Let_def)

definition steady :: "(nat \<Rightarrow> int) \<Rightarrow> bool" where
  "steady clk = list_all (\<lambda>i. \<bar>clk i - clk (Suc i)\<bar> \<le> 300000) [1, 4, 6, 8]"

lemma evaluate_ready:
  assumes "ready (pg_stateMachine e)" "steady clk"
  shows "ready (pg_stateMachine (snd (evaluate w clk e d)))
    \<and> m_transitionCount (pg_stateMachine (snd (evaluate w clk e d))) = m_transitionCount (pg_stateMachine e) + 4"
proof -
  define i where "i = scan_id d (clk 0)"
  let ?n = "int (length (er_violations (evaluation_result w e d (clk 3))))"
  define m1 where "m1 = advance (clk 2) (SCAN_STARTED i (pr_head_branch (pd_pull_request d)) (Num (clk 1))) (pg_stateMachine e)"
  define m2 where "m2 = advance (clk 5) (SCAN_COMPLETED i ?n (Num (clk 4))) m1"
  define m3 where "m3 = advance (clk 7) (REPORT_DELIVERED i [] (Num (clk 6))) m2"
  have c: "\<bar>clk 1 - clk 2\<bar> \<le> 300000" "\<bar>clk 4 - clk 5\<bar> \<le> 300000" "\<bar>clk 6 - clk 7\<bar> \<le> 300000" "\<bar>clk 8 - clk 9\<bar> \<le> 300000"
    using assms(2) by (simp_all add: steady_def numeral_eq_Suc)
  have 1: "m_state m1 = SCANNING" "\<not> m_shutdown m1" "m_maxClockSkewMs m1 = 300000" "m_activeScanId m1 = Some i"
    "m_transitionCount m1 = Suc (m_transitionCount (pg_stateMachine e))"
    using advance_commit [of "pg_stateMachine e" "SCAN_STARTED i (pr_head_branch (pd_pull_request d)) (Num (clk 1))" "clk 1" "clk 2" SCANNING]
      assms(1) c(1) by (simp_all add: ready_def m1_def is_reset_def is_scan_started_def next_state_def)
  have 2: "m_state m2 = REPORTING" "\<not> m_shutdown m2" "m_maxClockSkewMs m2 = 300000" "m_activeScanId m2 = Some i"
    "m_transitionCount m2 = Suc (m_transitionCount m1)"
    using advance_commit [of m1 "SCAN_COMPLETED i ?n (Num (clk 4))" "clk 4" "clk 5" REPORTING] 1 c(2)
    by (simp_all add: m2_def is_reset_def is_scan_started_def next_state_def)
  have 3: "m_state m3 = DONE" "\<not> m_shutdown m3" "m_maxClockSkewMs m3 = 300000"
    "m_transitionCount m3 = Suc (m_transitionCount m2)"
    using advance_commit [of m2 "REPORT_DELIVERED i [] (Num (clk 6))" "clk 6" "clk 7" DONE] 2 c(3)
    by (simp_all add: m3_def is_reset_def is_scan_started_def next_state_def)
  have "pg_stateMachine (snd (evaluate w clk e d)) = advance (clk 9) (RESET ''PolicyEngine'' (Num (clk 8))) m3"
    by (simp add: evaluate_def Let_def i_def m1_def m2_def m3_def)
  then show ?thesis using advance_reset [OF 3(2,3) c(4)] 1(5) 2(5) 3(4) by simp
qed

lemma evaluate_keeps: "pg_policiesDir (snd (evaluate w clk e d)) = pg_policiesDir e \<and> pg_opaAvailable (snd (evaluate w clk e d)) = pg_opaAvailable e"
  by (simp add: evaluate_def Let_def)

text \<open>A session: pull requests evaluated one after another, each with its own readings of the clock.\<close>

definition evaluate_each :: "EvalWorld \<Rightarrow> PolicyEngine \<Rightarrow> (PRData \<times> (nat \<Rightarrow> int)) list \<Rightarrow> PolicyEngine" where
  "evaluate_each w = foldl (\<lambda>e (d, clk). snd (evaluate w clk e d))"

text \<open>
  C11. An engine never gets stuck. However many pull requests a new engine evaluates, whatever the outcomes,
  as long as the clock does not jump by more than five minutes between making an event and applying it, its
  protocol machine is then IDLE with no active scan and has gone through exactly one complete session of
  four transitions per pull request; its policies and evaluator are unchanged.\<close>

theorem engine_always_ready:
  assumes "list_all (\<lambda>(d, clk). steady clk) prs"
  shows "let e = evaluate_each w (new_engine_for dflt opa dir) prs; s = getStateMachineSnapshot e in
    snap_state s = IDLE \<and> snap_activeScanId s = None \<and> snap_transitionCount s = 4 * length prs
    \<and> pg_opaAvailable e = opa"
proof -
  have "ready (pg_stateMachine (evaluate_each w e prs)) \<and> m_transitionCount (pg_stateMachine (evaluate_each w e prs))
      = m_transitionCount (pg_stateMachine e) + 4 * length prs \<and> pg_opaAvailable (evaluate_each w e prs) = pg_opaAvailable e"
    if "ready (pg_stateMachine e)" for e using assms that
  proof (induction prs arbitrary: e)
    case Nil
    then show ?case by (simp add: evaluate_each_def)
  next
    case (Cons x prs)
    obtain d clk where x: "x = (d, clk)" by (cases x)
    note r = evaluate_ready [OF Cons.prems(2), of clk w d]
    then show ?case using Cons.IH [of "snd (evaluate w clk e d)"] Cons.prems evaluate_keeps [of w clk e d]
      by (simp add: x evaluate_each_def)
  qed
  from this [of "new_engine_for dflt opa dir"] show ?thesis
    by (simp add: ready_def new_engine_for_def new_machine_def getStateMachineSnapshot_def snapshot_def Let_def)
qed

definition demo_pr :: PRData where
  "demo_pr = \<lparr>pd_pull_request = \<lparr>pr_title = ''Add a guard'', pr_body = ''tested, changelog'', pr_labels = [], pr_base_branch = ''main'',
       pr_head_branch = ''fix'', pr_number = 7, pr_author = ''a''\<rparr>,
     pd_files_modified = [], pd_file_contents = None, pd_additions = 1, pd_deletions = 0, pd_dependencies_added = None,
     pd_dependencies_updated = None, pd_relayer = Some ''G'', pd_signature = Some ''01'', pd_timestamp = Some (Num 5),
     pd_maintenance_mode = None, pd_maintenance_message = None\<rparr>"

definition demo_eval :: EvalWorld where
  "demo_eval = \<lparr>ew_AUTHORIZED_ADDRESSES = Some ''G'', ew_verify = \<lambda>_ _ _. Inr True, ew_read = \<lambda>_. None, ew_opa = \<lambda>_ _. Inl ''no opa'',
     ew_bundle = demo_bundle, ew_default_manifest = \<lambda>d. d\<rparr>"

theorem engine_always_ready_witness:
  "snap_transitionCount (getStateMachineSnapshot (evaluate_each demo_eval (new_engine_for ''p'' False None)
     [(demo_pr, \<lambda>_. 10), (demo_pr, \<lambda>i. 20 + int i)])) = 8"
  using engine_always_ready [of "[(demo_pr, \<lambda>_. 10), (demo_pr, \<lambda>i. 20 + int i)]" demo_eval "''p''" False None]
  by (simp add: steady_def Let_def)

section \<open>The keywords of the security tips are dead\<close>

text \<open>No identifier of the keyword map is the identifier of a tip, so the tip never depends on the text.\<close>

lemma tip_ids: "list_all (\<lambda>(tipId, _). find (\<lambda>t. st_id t = tipId) SECURITY_TIPS = None) keywordMap"
  by (simp add: keywordMap_def SECURITY_TIPS_def)

lemma first_tip_none:
  "list_all (\<lambda>(tipId, _). find (\<lambda>t. st_id t = tipId) SECURITY_TIPS = None) ks \<Longrightarrow> first_tip allText ks = None"
  by (induction allText ks rule: first_tip.induct) simp_all

lemma tip_by_number_only:
  "getSecurityTip d = (if pr_number (pd_pull_request d) < 0 then None
     else Some (SECURITY_TIPS ! nat (pr_number (pd_pull_request d) mod 8)))"
  by (simp add: getSecurityTip_def Let_def first_tip_none [OF tip_ids]) (simp add: SECURITY_TIPS_def)

end
