(* ===== verification/Alert_Channels.thy ===== *)
theory Alert_Channels
  imports Js_Json Js_Bytes
begin

text \<open>
  The channels from an anomaly to people: the dashboard client (\<open>dashboard-client.ts\<close>), the alert
  dispatcher (\<open>anomaly-alert-dispatcher.ts\<close>), the on-call roster (\<open>oncall-roster.ts\<close>) and the multisig
  webhook notifier (\<open>multisig-webhook-notifier.ts\<close>), all under \<open>src/audit-guard/src\<close>.

  Alerts arrive as dynamic values, because the code validates their fields at run time. HTTP posts and
  writing the page log are functions that give the outcome of each attempt; \<open>date_ok\<close> tells the texts
  \<open>Date.parse\<close> accepts; \<open>add_days\<close> is the calendar arithmetic of the host's time zone. Log lines are not
  modelled.
\<close>

section \<open>DashboardClient\<close>

record DashboardAlert =
  da_source :: string
  da_type :: string
  da_severity :: string
  da_message :: string
  da_detail :: string
  da_timestamp :: string
  da_metadata :: jsval

record DashboardClient =
  dc_url :: string
  dc_token :: string

text \<open>\<open>post\<close>: whether the request with this URL and authorisation header was answered with success.\<close>

definition sendAlert ::
  "(string \<Rightarrow> string \<Rightarrow> DashboardAlert \<Rightarrow> bool) \<Rightarrow> DashboardClient \<Rightarrow> DashboardAlert \<Rightarrow> bool" where
  "sendAlert post c alert = (if dc_url c = [] then False else post (dc_url c) (''Bearer '' @ dc_token c) alert)"

section \<open>AnomalyAlertDispatcher\<close>

datatype DispatchError =
    DashboardDeliveryError string "string option"
  | AlertValidationError string jsval
  | DispatcherShutdownError
  | DispatchTimeoutError int string

fun dispatch_code :: "DispatchError \<Rightarrow> string" where
  "dispatch_code (DashboardDeliveryError _ _) = ''DASHBOARD_DELIVERY_FAILED''"
| "dispatch_code (AlertValidationError _ _) = ''ALERT_VALIDATION_FAILED''"
| "dispatch_code DispatcherShutdownError = ''DISPATCHER_SHUTDOWN''"
| "dispatch_code (DispatchTimeoutError _ _) = ''DISPATCH_TIMEOUT''"

fun dispatch_message :: "DispatchError \<Rightarrow> string" where
  "dispatch_message (DashboardDeliveryError ty _) = ''Dashboard delivery failed for alert type '' @ [CHR 0x22] @ ty @ [CHR 0x22]"
| "dispatch_message (AlertValidationError field received) =
     ''Invalid alert payload: field '' @ [CHR 0x22] @ field @ [CHR 0x22] @ '' has unexpected value: '' @
     (if received = JUndefined then ''undefined'' else json received)"
| "dispatch_message DispatcherShutdownError =
     ''Dispatcher has been shut down '' @ [CHR 0xE2, CHR 0x80, CHR 0x94] @ '' no further alerts will be accepted''"
| "dispatch_message (DispatchTimeoutError ms ty) =
     ''Dispatch timed out after '' @ show_int ms @ ''ms for alert type '' @ [CHR 0x22] @ ty @ [CHR 0x22]"

text \<open>What can be thrown: an error of the hierarchy, or the \<open>TypeError\<close> of reading a field of \<open>null\<close>.\<close>

datatype dispatch_throw = Dispatch_error DispatchError | Type_error

definition VALID_SEVERITIES :: "string list" where
  "VALID_SEVERITIES = [''LOW'', ''MEDIUM'', ''HIGH'', ''CRITICAL'']"

definition blank_or_no_text :: "jsval \<Rightarrow> bool" where
  "blank_or_no_text v = (case v of JString s \<Rightarrow> trim s = [] | _ \<Rightarrow> True)"

definition valid_severity :: "jsval \<Rightarrow> bool" where
  "valid_severity v = (case v of JString s \<Rightarrow> s \<in> set VALID_SEVERITIES | _ \<Rightarrow> False)"

definition bad_timestamp :: "(string \<Rightarrow> bool) \<Rightarrow> jsval \<Rightarrow> bool" where
  "bad_timestamp date_ok v = (v \<noteq> JUndefined \<and> \<not> date_ok (js_String v))"

definition bad_metadata :: "jsval \<Rightarrow> bool" where
  "bad_metadata v = (v \<noteq> JUndefined \<and> (case v of JObject _ \<Rightarrow> False | _ \<Rightarrow> True))"

text \<open>The field of the first failed check and what was received.\<close>

definition validateAlert :: "(string \<Rightarrow> bool) \<Rightarrow> jsval \<Rightarrow> (string \<times> jsval) option" where
  "validateAlert date_ok input =
     (if blank_or_no_text (js_get input ''type'') then Some (''type'', js_get input ''type'')
      else if \<not> valid_severity (js_get input ''severity'') then Some (''severity'', js_get input ''severity'')
      else if blank_or_no_text (js_get input ''message'') then Some (''message'', js_get input ''message'')
      else if blank_or_no_text (js_get input ''detail'') then Some (''detail'', js_get input ''detail'')
      else if bad_timestamp date_ok (js_get input ''timestamp'') then Some (''timestamp'', js_get input ''timestamp'')
      else if bad_metadata (js_get input ''metadata'') then Some (''metadata'', js_get input ''metadata'')
      else None)"

record DispatchResult =
  dr_delivered :: bool
  dr_dispatchedAt :: string
  dr_error :: "DispatchError option"

text \<open>The client of a dispatcher: \<open>Inl\<close> the message when it throws (an injected client may), else its answer.\<close>

record AnomalyAlertDispatcher =
  ad_client :: "(DashboardAlert \<Rightarrow> string + bool) option"
  ad_nonBlocking :: bool
  ad_shutdown :: bool
  ad_deliveredCount :: nat
  ad_failedCount :: nat

definition new_dispatcher ::
  "(string \<Rightarrow> string \<Rightarrow> DashboardAlert \<Rightarrow> bool) \<Rightarrow> string option \<Rightarrow> string option \<Rightarrow> string option \<Rightarrow> string option
   \<Rightarrow> bool option \<Rightarrow> (DashboardAlert \<Rightarrow> string + bool) option \<Rightarrow> AnomalyAlertDispatcher" where
  "new_dispatcher post env_url env_token url token nonBlocking client =
     (let u = (case url of Some x \<Rightarrow> x | None \<Rightarrow> (case env_url of Some x \<Rightarrow> x | None \<Rightarrow> []));
          t = (case token of Some x \<Rightarrow> x | None \<Rightarrow> (case env_token of Some x \<Rightarrow> x | None \<Rightarrow> []))
      in \<lparr>ad_client = (case client of Some c \<Rightarrow> Some c
            | None \<Rightarrow> if u \<noteq> [] then Some (\<lambda>alert. Inr (sendAlert post \<lparr>dc_url = u, dc_token = t\<rparr> alert)) else None),
          ad_nonBlocking = (case nonBlocking of Some b \<Rightarrow> b | None \<Rightarrow> True),
          ad_shutdown = False, ad_deliveredCount = 0, ad_failedCount = 0\<rparr>)"

definition dashboard_alert :: "int \<Rightarrow> jsval \<Rightarrow> DashboardAlert" where
  "dashboard_alert now input =
     \<lparr>da_source = ''anomaly-detector'', da_type = js_String (js_get input ''type''),
      da_severity = js_String (js_get input ''severity''), da_message = js_String (js_get input ''message''),
      da_detail = js_String (js_get input ''detail''),
      da_timestamp = (if js_get input ''timestamp'' = JUndefined then iso_date now else js_String (js_get input ''timestamp'')),
      da_metadata = (if js_get input ''metadata'' = JUndefined then JObject [] else js_get input ''metadata'')\<rparr>"

definition dispatch ::
  "(string \<Rightarrow> bool) \<Rightarrow> int \<Rightarrow> AnomalyAlertDispatcher \<Rightarrow> jsval \<Rightarrow> (dispatch_throw + DispatchResult) \<times> AnomalyAlertDispatcher" where
  "dispatch date_ok now d input =
     (if ad_shutdown d then (Inl (Dispatch_error DispatcherShutdownError), d)
      else if is_nullish input then (Inl Type_error, d)
      else (let failed = d\<lparr>ad_failedCount := ad_failedCount d + 1\<rparr>; ty = js_String (js_get input ''type'')
        in case validateAlert date_ok input of
             Some (field, received) \<Rightarrow> (Inl (Dispatch_error (AlertValidationError field received)), failed)
           | None \<Rightarrow>
               (case ad_client d of
                  None \<Rightarrow> (Inr \<lparr>dr_delivered = False, dr_dispatchedAt = iso_date now, dr_error = None\<rparr>, failed)
                | Some client \<Rightarrow>
                    (case client (dashboard_alert now input) of
                       Inr True \<Rightarrow> (Inr \<lparr>dr_delivered = True, dr_dispatchedAt = iso_date now, dr_error = None\<rparr>,
                                    d\<lparr>ad_deliveredCount := ad_deliveredCount d + 1\<rparr>)
                     | Inr False \<Rightarrow>
                         (if ad_nonBlocking d
                          then (Inr \<lparr>dr_delivered = False, dr_dispatchedAt = iso_date now,
                                  dr_error = Some (DashboardDeliveryError ty None)\<rparr>, failed)
                          else (Inl (Dispatch_error (DashboardDeliveryError ty None)), failed))
                     | Inl cause \<Rightarrow>
                         (if ad_nonBlocking d
                          then (Inr \<lparr>dr_delivered = False, dr_dispatchedAt = iso_date now,
                                  dr_error = Some (DashboardDeliveryError ty (Some cause))\<rparr>, failed)
                          else (Inl (Dispatch_error (DashboardDeliveryError ty (Some cause))), failed))))))"

definition captured :: "int \<Rightarrow> dispatch_throw \<Rightarrow> DispatchResult" where
  "captured now t = \<lparr>dr_delivered = False, dr_dispatchedAt = iso_date now,
     dr_error = Some (case t of Dispatch_error e \<Rightarrow> e | Type_error \<Rightarrow> DashboardDeliveryError ''UNKNOWN'' (Some ''TypeError''))\<rparr>"

fun dispatch_all ::
  "(string \<Rightarrow> bool) \<Rightarrow> (nat \<Rightarrow> int) \<Rightarrow> AnomalyAlertDispatcher \<Rightarrow> jsval list \<Rightarrow> DispatchResult list \<times> AnomalyAlertDispatcher" where
  "dispatch_all date_ok clk d [] = ([], d)"
| "dispatch_all date_ok clk d (input # inputs) =
     (case dispatch date_ok (clk 0) d input of (r, d') \<Rightarrow>
        (case dispatch_all date_ok (\<lambda>i. clk (Suc i)) d' inputs of (rs, d'') \<Rightarrow>
           ((case r of Inr x \<Rightarrow> x | Inl t \<Rightarrow> captured (clk 0) t) # rs, d'')))"

definition dispatchBatch ::
  "(string \<Rightarrow> bool) \<Rightarrow> (nat \<Rightarrow> int) \<Rightarrow> AnomalyAlertDispatcher \<Rightarrow> jsval
   \<Rightarrow> (dispatch_throw + DispatchResult list) \<times> AnomalyAlertDispatcher" where
  "dispatchBatch date_ok clk d inputs =
     (if ad_shutdown d then (Inl (Dispatch_error DispatcherShutdownError), d)
      else (case inputs of
          JArray vs \<Rightarrow> (case dispatch_all date_ok clk d vs of (rs, d') \<Rightarrow> (Inr rs, d'))
        | _ \<Rightarrow> (Inl (Dispatch_error (AlertValidationError ''inputs'' inputs)), d)))"

definition dispatcher_shutdown :: "AnomalyAlertDispatcher \<Rightarrow> AnomalyAlertDispatcher" where
  "dispatcher_shutdown d = d\<lparr>ad_shutdown := True\<rparr>"

section \<open>OnCallRoster\<close>

datatype OnCallRole = PRIMARY | SECONDARY | MANAGER

fun role_name :: "OnCallRole \<Rightarrow> string" where
  "role_name PRIMARY = ''PRIMARY''"
| "role_name SECONDARY = ''SECONDARY''"
| "role_name MANAGER = ''MANAGER''"

record OnCallContact =
  oc_name :: string
  oc_email :: string
  oc_slack :: "string option"
  oc_phone :: "string option"
  oc_role :: OnCallRole

datatype RotationInterval = Daily | Weekly

text \<open>The time of the last rotation is \<open>NaN\<close> when the stored text is no date.\<close>

record RotationState =
  rs_currentPrimaryIndex :: nat
  rs_lastRotated :: jsnum

record OnCallRoster =
  or_contacts :: "OnCallContact list"
  or_rotationInterval :: RotationInterval
  or_state :: RotationState

record PagePayload =
  pp_contact :: OnCallContact
  pp_alert :: string
  pp_severity :: string
  pp_timestamp :: string
  pp_repository :: string
  pp_rotationId :: nat

definition na_contact :: "OnCallRole \<Rightarrow> OnCallContact" where
  "na_contact r = \<lparr>oc_name = ''N/A'', oc_email = ''N/A'', oc_slack = None, oc_phone = None, oc_role = r\<rparr>"

text \<open>\<open>parsed\<close>: the parsed \<open>ONCALL_CONTACTS\<close>, when it is set and is JSON.\<close>

definition defaultContacts :: "OnCallContact list option \<Rightarrow> OnCallContact list" where
  "defaultContacts parsed =
     (case parsed of
        Some cs \<Rightarrow> cs
      | None \<Rightarrow> [\<lparr>oc_name = ''Alice Primary'', oc_email = ''alice@vero.xyz'', oc_slack = None, oc_phone = None, oc_role = PRIMARY\<rparr>,
                 \<lparr>oc_name = ''Bob Secondary'', oc_email = ''bob@vero.xyz'', oc_slack = None, oc_phone = None, oc_role = SECONDARY\<rparr>,
                 \<lparr>oc_name = ''Carol Manager'', oc_email = ''carol@vero.xyz'', oc_slack = None, oc_phone = None, oc_role = MANAGER\<rparr>])"

definition defaultRotationInterval :: "string option \<Rightarrow> RotationInterval" where
  "defaultRotationInterval env = (if env = Some ''daily'' then Daily else Weekly)"

definition loadState :: "int \<Rightarrow> RotationState option \<Rightarrow> RotationState" where
  "loadState now stored = (case stored of Some s \<Rightarrow> s | None \<Rightarrow> \<lparr>rs_currentPrimaryIndex = 0, rs_lastRotated = Num now\<rparr>)"

definition getDayOfRotation :: "int \<Rightarrow> RotationState \<Rightarrow> RotationInterval \<Rightarrow> int option" where
  "getDayOfRotation now st interval =
     (case rs_lastRotated st of
        Num lastMs \<Rightarrow> (let diffDays = (now - lastMs) div 86400000 in Some (if interval = Daily then diffDays else diffDays div 7))
      | _ \<Rightarrow> None)"

definition with_role :: "OnCallRole \<Rightarrow> OnCallContact list \<Rightarrow> OnCallContact list" where
  "with_role r cs = filter (\<lambda>c. oc_role c = r) cs"

definition primaryCount :: "OnCallRoster \<Rightarrow> nat" where
  "primaryCount r = length (with_role PRIMARY (or_contacts r))"

text \<open>A rotation by \<open>k\<close> places; the new state is also what is stored.\<close>

definition rotate_by :: "int \<Rightarrow> nat \<Rightarrow> OnCallRoster \<Rightarrow> OnCallRoster" where
  "rotate_by now k r = r\<lparr>or_state := \<lparr>rs_currentPrimaryIndex =
       (if primaryCount r > 0 then (rs_currentPrimaryIndex (or_state r) + k) mod primaryCount r
        else rs_currentPrimaryIndex (or_state r)), rs_lastRotated = Num now\<rparr>\<rparr>"

definition autoRotate :: "int \<Rightarrow> OnCallRoster \<Rightarrow> OnCallRoster" where
  "autoRotate now r =
     (case getDayOfRotation now (or_state r) (or_rotationInterval r) of
        None \<Rightarrow> r
      | Some cycles \<Rightarrow> if cycles > 0 then rotate_by now (nat cycles) r else r)"

definition new_roster ::
  "int \<Rightarrow> OnCallContact list option \<Rightarrow> string option \<Rightarrow> RotationState option \<Rightarrow> OnCallContact list option
   \<Rightarrow> RotationInterval option \<Rightarrow> OnCallRoster" where
  "new_roster now env_contacts env_interval stored contacts interval =
     autoRotate now \<lparr>or_contacts = (case contacts of Some cs \<Rightarrow> cs | None \<Rightarrow> defaultContacts env_contacts),
       or_rotationInterval = (case interval of Some i \<Rightarrow> i | None \<Rightarrow> defaultRotationInterval env_interval),
       or_state = loadState now stored\<rparr>"

definition rotate_roster :: "int \<Rightarrow> OnCallRoster \<Rightarrow> OnCallRoster" where
  "rotate_roster now r = rotate_by now 1 r"

record OnCall =
  cu_primary :: OnCallContact
  cu_secondary :: OnCallContact
  cu_manager :: OnCallContact
  cu_rotationId :: nat
  cu_nextRotation :: string

definition contact_at :: "OnCallRoster \<Rightarrow> OnCallRole \<Rightarrow> OnCallContact" where
  "contact_at r role =
     (let cs = with_role role (or_contacts r)
      in if length cs > 0 then cs ! (rs_currentPrimaryIndex (or_state r) mod length cs) else na_contact role)"

text \<open>Printing the time of the next rotation throws when the stored time is no date.\<close>

definition getCurrentOnCall :: "(nat \<Rightarrow> jsnum \<Rightarrow> jsnum) \<Rightarrow> OnCallRoster \<Rightarrow> range_error + OnCall" where
  "getCurrentOnCall add_days r =
     map_sum id (\<lambda>next. \<lparr>cu_primary = contact_at r PRIMARY, cu_secondary = contact_at r SECONDARY,
       cu_manager = contact_at r MANAGER, cu_rotationId = rs_currentPrimaryIndex (or_state r), cu_nextRotation = next\<rparr>)
       (toISOString (add_days (if or_rotationInterval r = Daily then 1 else 7) (rs_lastRotated (or_state r))))"

text \<open>The pages written in turn; \<open>write i\<close> is the error of the \<open>i\<close>-th write to the page log, if any, which
  ends the paging. The webhook of a page cannot fail it.\<close>

fun deliver_pages :: "(nat \<Rightarrow> string option) \<Rightarrow> nat \<Rightarrow> PagePayload list \<Rightarrow> string option \<times> PagePayload list" where
  "deliver_pages write i [] = (None, [])"
| "deliver_pages write i (p # ps) =
     (case write i of
        Some err \<Rightarrow> (Some err, [])
      | None \<Rightarrow> (case deliver_pages write (Suc i) ps of (e, done_pages) \<Rightarrow> (e, p # done_pages)))"

definition pageCurrentOnCall ::
  "(nat \<Rightarrow> jsnum \<Rightarrow> jsnum) \<Rightarrow> (nat \<Rightarrow> string option) \<Rightarrow> int \<Rightarrow> OnCallRoster \<Rightarrow> string \<Rightarrow> string \<Rightarrow> string
   \<Rightarrow> string option \<times> PagePayload list" where
  "pageCurrentOnCall add_days write now r alert severity repository =
     (case getCurrentOnCall add_days r of
        Inl _ \<Rightarrow> (Some ''Invalid time value'', [])
      | Inr onCall \<Rightarrow>
          deliver_pages write 0 (map (\<lambda>contact. \<lparr>pp_contact = contact, pp_alert = alert, pp_severity = severity,
              pp_timestamp = iso_date now, pp_repository = repository, pp_rotationId = cu_rotationId onCall\<rparr>)
            [cu_primary onCall, cu_secondary onCall, cu_manager onCall]))"

section \<open>MultisigWebhookNotifier\<close>

datatype WebhookDeliveryError =
    WebhookNon2xxResponseError string int
  | WebhookTimeoutError string jsnum
  | WebhookNetworkError string string

datatype notify_throw =
    WebhookConfigurationError string
  | WebhookPayloadSerializationError string
  | WebhookDelivery WebhookDeliveryError
  | Notify_type_error

fun webhook_code :: "notify_throw \<Rightarrow> string" where
  "webhook_code (WebhookConfigurationError _) = ''WEBHOOK_CONFIGURATION_INVALID''"
| "webhook_code (WebhookPayloadSerializationError _) = ''WEBHOOK_PAYLOAD_SERIALIZATION_FAILED''"
| "webhook_code (WebhookDelivery (WebhookNon2xxResponseError _ _)) = ''WEBHOOK_NON_2XX_RESPONSE''"
| "webhook_code (WebhookDelivery (WebhookTimeoutError _ _)) = ''WEBHOOK_TIMEOUT''"
| "webhook_code (WebhookDelivery (WebhookNetworkError _ _)) = ''WEBHOOK_NETWORK_ERROR''"
| "webhook_code Notify_type_error = ''TypeError''"

definition received :: "jsval \<Rightarrow> string" where
  "received v = (if v = JUndefined then ''undefined'' else json v)"

definition field_message :: "string \<Rightarrow> string \<Rightarrow> jsval \<Rightarrow> string" where
  "field_message field what v = ''Webhook payload serialization failed: field '' @ [CHR 0x22] @ field @ [CHR 0x22] @ '' must be ''
     @ what @ '', got: '' @ received v"

definition validateInput :: "(string \<Rightarrow> bool) \<Rightarrow> jsval \<Rightarrow> string option" where
  "validateInput date_ok input =
     (if blank_or_no_text (js_get input ''type'') then Some (field_message ''type'' ''a non-empty string'' (js_get input ''type''))
      else if \<not> valid_severity (js_get input ''severity'') then Some (field_message ''severity'' ''LOW|MEDIUM|HIGH|CRITICAL'' (js_get input ''severity''))
      else if blank_or_no_text (js_get input ''message'') then Some (field_message ''message'' ''a non-empty string'' (js_get input ''message''))
      else if blank_or_no_text (js_get input ''detail'') then Some (field_message ''detail'' ''a non-empty string'' (js_get input ''detail''))
      else if bad_timestamp date_ok (js_get input ''timestamp'') then Some (field_message ''timestamp'' ''a valid ISO-8601 string'' (js_get input ''timestamp''))
      else if bad_metadata (js_get input ''metadata'') then Some (field_message ''metadata'' ''a plain object'' (js_get input ''metadata''))
      else if js_get input ''address'' \<noteq> JUndefined \<and> blank_or_no_text (js_get input ''address'') then
        Some (field_message ''address'' ''a non-empty string when provided'' (js_get input ''address''))
      else None)"

text \<open>How a post ends: an answer, an axios error with an answer, an axios error without one (its code and
  message), or another error.\<close>

datatype PostOutcome =
    Responded int
  | AxiosResponse int
  | AxiosFailure "string option" string
  | OtherFailure string

record SignedPost =
  sp_url :: string
  sp_body :: string
  sp_signature :: string
  sp_timeout :: jsnum

record EndpointDeliveryResult =
  ed_url :: string
  ed_delivered :: bool
  ed_attemptedAt :: string
  ed_error :: "WebhookDeliveryError option"

record WebhookNotifyResult =
  wn_successCount :: nat
  wn_failureCount :: nat
  wn_endpoints :: "EndpointDeliveryResult list"
  wn_completedAt :: string

record MultisigWebhookNotifier =
  mn_secret :: string
  mn_endpoints :: "string list"
  mn_timeoutMs :: jsnum
  mn_throwOnAnyFailure :: bool

definition new_notifier ::
  "string option \<Rightarrow> string option \<Rightarrow> jsnum option \<Rightarrow> string option \<Rightarrow> string option \<Rightarrow> jsnum option \<Rightarrow> bool option
   \<Rightarrow> MultisigWebhookNotifier" where
  "new_notifier env_secret env_urls env_timeout secret urls timeout throwing =
     \<lparr>mn_secret = (case secret of Some s \<Rightarrow> s | None \<Rightarrow> (case env_secret of Some s \<Rightarrow> s | None \<Rightarrow> [])),
      mn_endpoints = filter (\<lambda>u. length u > 0) (map trim (split_on CHR '',''
        (case urls of Some s \<Rightarrow> s | None \<Rightarrow> (case env_urls of Some s \<Rightarrow> s | None \<Rightarrow> [])))),
      mn_timeoutMs = (case timeout of Some t \<Rightarrow> t | None \<Rightarrow> (case env_timeout of Some t \<Rightarrow> t | None \<Rightarrow> Num 5000)),
      mn_throwOnAnyFailure = (case throwing of Some b \<Rightarrow> b | None \<Rightarrow> False)\<rparr>"

definition computeHmacSignature :: "(nat list \<Rightarrow> nat list \<Rightarrow> nat list) \<Rightarrow> string \<Rightarrow> string \<Rightarrow> notify_throw + string" where
  "computeHmacSignature hmac jsonBody secret =
     (if secret = [] then Inl (WebhookConfigurationError
        (''MULTISIG_WEBHOOK_SECRET is empty '' @ [CHR 0xE2, CHR 0x80, CHR 0x94] @ '' cannot compute HMAC signature''))
      else Inr (''sha256='' @ to_hex (hmac (utf8 secret) (utf8 jsonBody))))"

definition webhook_payload :: "int \<Rightarrow> jsval \<Rightarrow> jsval" where
  "webhook_payload now input =
     JObject [(''source'', JString ''vero-audit-guard''), (''event'', JString ''CRITICAL_ANOMALY_DETECTED''),
       (''anomaly'', JObject ([(''type'', js_get input ''type''), (''severity'', js_get input ''severity''),
          (''message'', js_get input ''message''), (''detail'', js_get input ''detail'')]
          @ (if js_get input ''address'' \<noteq> JUndefined then [(''address'', js_get input ''address'')] else [])
          @ [(''metadata'', if js_get input ''metadata'' = JUndefined then JObject [] else js_get input ''metadata'')])),
       (''detectedAt'', if js_get input ''timestamp'' = JUndefined then JString (iso_date now) else js_get input ''timestamp''),
       (''notifiedAt'', JString (iso_date now))]"

definition deliverToEndpoint :: "(SignedPost \<Rightarrow> PostOutcome) \<Rightarrow> int \<Rightarrow> SignedPost \<Rightarrow> EndpointDeliveryResult" where
  "deliverToEndpoint post now p =
     (let failed = (\<lambda>e. \<lparr>ed_url = sp_url p, ed_delivered = False, ed_attemptedAt = iso_date now, ed_error = Some e\<rparr>)
      in case post p of
           Responded status \<Rightarrow>
             if status < 200 \<or> status \<ge> 300 then failed (WebhookNon2xxResponseError (sp_url p) status)
             else \<lparr>ed_url = sp_url p, ed_delivered = True, ed_attemptedAt = iso_date now, ed_error = None\<rparr>
         | AxiosResponse status \<Rightarrow> failed (WebhookNon2xxResponseError (sp_url p) status)
         | AxiosFailure code msg \<Rightarrow>
             if code = Some ''ECONNABORTED'' \<or> code = Some ''ERR_CANCELED'' then failed (WebhookTimeoutError (sp_url p) (sp_timeout p))
             else failed (WebhookNetworkError (sp_url p) msg)
         | OtherFailure msg \<Rightarrow> failed (WebhookNetworkError (sp_url p) msg))"

definition page_text :: "jsval \<Rightarrow> EndpointDeliveryResult list \<Rightarrow> nat \<Rightarrow> string" where
  "page_text input failures n_endpoints =
     ''[VAG-010] Multi-sig webhook delivery failed for anomaly type '' @ [CHR 0x22] @ js_String (js_get input ''type'') @ [CHR 0x22]
     @ '' ('' @ js_String (js_get input ''severity'') @ ''). Failed endpoints: '' @ join '', '' (map ed_url failures) @ ''. ''
     @ show_nat (length failures) @ ''/'' @ show_nat n_endpoints @ '' notification(s) undelivered.''"

text \<open>The outside of a notification round: the clock, HMAC-SHA256, the posts, and the roster to page with the
  writes of its log (\<open>Inl\<close> the message when it cannot be made).\<close>

record NotifyWorld =
  nw_date_ok :: "string \<Rightarrow> bool"
  nw_now :: int
  nw_hmac :: "nat list \<Rightarrow> nat list \<Rightarrow> nat list"
  nw_post :: "SignedPost \<Rightarrow> PostOutcome"
  nw_roster :: "string + OnCallRoster"
  nw_add_days :: "nat \<Rightarrow> jsnum \<Rightarrow> jsnum"
  nw_write :: "nat \<Rightarrow> string option"

record NotifyOutcome =
  no_result :: "notify_throw + WebhookNotifyResult"
  no_posts :: "SignedPost list"
  no_pages :: "PagePayload list"

definition signed_posts :: "MultisigWebhookNotifier \<Rightarrow> string \<Rightarrow> string \<Rightarrow> SignedPost list" where
  "signed_posts n body sig =
     map (\<lambda>url. \<lparr>sp_url = url, sp_body = body, sp_signature = sig, sp_timeout = mn_timeoutMs n\<rparr>) (mn_endpoints n)"

text \<open>Paging the roster when something failed; a failure of the paging itself is only logged.\<close>

definition page_failures :: "NotifyWorld \<Rightarrow> jsval \<Rightarrow> EndpointDeliveryResult list \<Rightarrow> nat \<Rightarrow> PagePayload list" where
  "page_failures w input failures n_endpoints =
     (if failures = [] then []
      else (case nw_roster w of
          Inl _ \<Rightarrow> []
        | Inr roster \<Rightarrow> snd (pageCurrentOnCall (nw_add_days w) (nw_write w) (nw_now w) roster
            (page_text input failures n_endpoints) ''CRITICAL'' ''vero-audit-guard'')))"

definition notifySigners :: "NotifyWorld \<Rightarrow> MultisigWebhookNotifier \<Rightarrow> jsval \<Rightarrow> NotifyOutcome" where
  "notifySigners w n input =
     (let throws = (\<lambda>t. \<lparr>no_result = Inl t, no_posts = [], no_pages = []\<rparr>)
      in if is_nullish input then throws Notify_type_error
         else (case validateInput (nw_date_ok w) input of
           Some msg \<Rightarrow> throws (WebhookPayloadSerializationError msg)
         | None \<Rightarrow>
             if mn_secret n = [] then throws (WebhookConfigurationError ''MULTISIG_WEBHOOK_SECRET environment variable is not set'')
             else if mn_endpoints n = [] then throws (WebhookConfigurationError
               ''MULTISIG_WEBHOOK_URLS environment variable is not set or contains no valid URLs'')
             else (let body = json (webhook_payload (nw_now w) input)
               in case computeHmacSignature (nw_hmac w) body (mn_secret n) of
                    Inl t \<Rightarrow> throws t
                  | Inr sig \<Rightarrow>
                      (let posts = signed_posts n body sig;
                           results = map (deliverToEndpoint (nw_post w) (nw_now w)) posts;
                           failures = filter (\<lambda>r. \<not> ed_delivered r) results;
                           pages = page_failures w input failures (length (mn_endpoints n));
                           answer = \<lparr>wn_successCount = length (filter ed_delivered results), wn_failureCount = length failures,
                             wn_endpoints = results, wn_completedAt = iso_date (nw_now w)\<rparr>
                       in \<lparr>no_result = (case (mn_throwOnAnyFailure n, failures) of
                              (True, f # _) \<Rightarrow> (case ed_error f of Some e \<Rightarrow> Inl (WebhookDelivery e) | None \<Rightarrow> Inr answer)
                            | _ \<Rightarrow> Inr answer),
                            no_posts = posts, no_pages = pages\<rparr>))))"

section \<open>Every alert of a batch is accounted for\<close>

definition accepted_by_client :: "(string \<Rightarrow> bool) \<Rightarrow> int \<Rightarrow> AnomalyAlertDispatcher \<Rightarrow> jsval \<Rightarrow> bool" where
  "accepted_by_client date_ok now d input =
     (\<not> is_nullish input \<and> validateAlert date_ok input = None
      \<and> (case ad_client d of None \<Rightarrow> False | Some client \<Rightarrow> client (dashboard_alert now input) = Inr True))"

definition as_result :: "int \<Rightarrow> dispatch_throw + DispatchResult \<Rightarrow> DispatchResult" where
  "as_result now r = (case r of Inr x \<Rightarrow> x | Inl t \<Rightarrow> captured now t)"

definition bool_count :: "bool \<Rightarrow> nat" where
  "bool_count b = (if b then 1 else 0)"

lemma dispatch_step:
  assumes "\<not> ad_shutdown d" and "dispatch date_ok now d input = (r, d')"
  shows "dr_delivered (as_result now r) = accepted_by_client date_ok now d input"
    and "ad_deliveredCount d' = ad_deliveredCount d + bool_count (accepted_by_client date_ok now d input)"
    and "ad_failedCount d' + bool_count (is_nullish input) = ad_failedCount d + bool_count (\<not> accepted_by_client date_ok now d input)"
    and "ad_client d' = ad_client d \<and> ad_shutdown d' = ad_shutdown d"
  using assms
  by (auto simp: dispatch_def Let_def accepted_by_client_def as_result_def captured_def bool_count_def
      split: if_splits option.splits sum.splits bool.splits)

lemma accepted_by_client_cong: "ad_client d' = ad_client d \<Longrightarrow> accepted_by_client date_ok now d' x = accepted_by_client date_ok now d x"
  by (simp add: accepted_by_client_def)

lemma dispatch_all_exact:
  assumes "\<not> ad_shutdown d" and "dispatch_all date_ok clk d inputs = (rs, d')"
  shows "map dr_delivered rs = map (\<lambda>i. accepted_by_client date_ok (clk i) d (inputs ! i)) [0..<length inputs]
    \<and> ad_deliveredCount d' = ad_deliveredCount d + length (filter dr_delivered rs)
    \<and> ad_failedCount d' + length (filter is_nullish inputs) = ad_failedCount d + length (filter (\<lambda>r. \<not> dr_delivered r) rs)"
  using assms
proof (induction inputs arbitrary: d clk rs d')
  case (Cons x xs)
  obtain r d1 where r: "dispatch date_ok (clk 0) d x = (r, d1)" by fastforce
  obtain rs2 where rs2: "dispatch_all date_ok (\<lambda>i. clk (Suc i)) d1 xs = (rs2, d')" and rs: "rs = as_result (clk 0) r # rs2"
    using Cons.prems(2) r by (auto simp: as_result_def split: prod.splits)
  note s = dispatch_step [OF Cons.prems(1) r]
  have sh: "\<not> ad_shutdown d1" using s(4) Cons.prems(1) by simp
  have c: "accepted_by_client date_ok now d1 y = accepted_by_client date_ok now d y" for now y
    using s(4) by (intro accepted_by_client_cong) simp
  have "map dr_delivered rs = map (\<lambda>i. accepted_by_client date_ok (clk i) d ((x # xs) ! i)) [0..<length (x # xs)]"
    using Cons.IH [OF sh rs2] s(1) rs by (simp add: c upt_conv_Cons map_Suc_upt [symmetric] comp_def del: upt_Suc)
  then show ?case using Cons.IH [OF sh rs2] s(1-3) rs by (auto simp: bool_count_def split: if_splits)
qed simp


definition demo_alert :: jsval where
  "demo_alert = JObject [(''type'', JString ''T''), (''severity'', JString ''HIGH''), (''message'', JString ''m''), (''detail'', JString ''d'')]"


section \<open>The rotation is fair\<close>

definition interval_ms :: "RotationInterval \<Rightarrow> int" where
  "interval_ms i = (case i of Daily \<Rightarrow> 86400000 | Weekly \<Rightarrow> 604800000)"

lemma rotate_by_simps:
  "or_contacts (rotate_by now k r) = or_contacts r" "primaryCount (rotate_by now k r) = primaryCount r"
  by (simp_all add: rotate_by_def primaryCount_def)

lemma contact_rotate_by:
  assumes "with_role PRIMARY (or_contacts r) = ps" "ps \<noteq> []"
  shows "contact_at (rotate_by now k r) PRIMARY = ps ! ((rs_currentPrimaryIndex (or_state r) + k) mod length ps)"
  using assms by (simp add: contact_at_def rotate_by_def primaryCount_def)

lemma rotations_index:
  assumes "0 < primaryCount r"
  shows "rs_currentPrimaryIndex (or_state (foldl (\<lambda>r t. rotate_roster t r) r ts)) mod primaryCount r
     = (rs_currentPrimaryIndex (or_state r) + length ts) mod primaryCount r
   \<and> or_contacts (foldl (\<lambda>r t. rotate_roster t r) r ts) = or_contacts r"
  using assms
proof (induction ts arbitrary: r)
  case (Cons t ts)
  let ?r = "rotate_roster t r"
  have p: "primaryCount ?r = primaryCount r" "or_contacts ?r = or_contacts r"
    by (simp_all add: rotate_roster_def rotate_by_simps)
  have "rs_currentPrimaryIndex (or_state ?r) = (rs_currentPrimaryIndex (or_state r) + 1) mod primaryCount r"
    using Cons.prems by (simp add: rotate_roster_def rotate_by_def)
  then show ?case using Cons.IH [of ?r] Cons.prems p by (simp add: mod_add_left_eq)
qed simp

lemma elapsed_cycles:
  assumes "0 \<le> rest" "rest < interval_ms i"
  shows "getDayOfRotation (t + int k * interval_ms i + rest) \<lparr>rs_currentPrimaryIndex = j, rs_lastRotated = Num t\<rparr> i = Some (int k)"
proof (cases i)
  case Daily
  then show ?thesis using assms by (simp add: getDayOfRotation_def interval_ms_def)
next
  case Weekly
  have "(int k * 604800000 + rest) div 86400000 div 7 = (int k * 604800000 + rest) div 604800000"
    by (simp add: zdiv_zmult2_eq [symmetric])
  also have "\<dots> = int k" using assms Weekly by (simp add: interval_ms_def)
  finally show ?thesis using Weekly by (simp add: getDayOfRotation_def interval_ms_def)
qed

text \<open>
  The rotation is fair and catches up. After any number of rotations the primary on call is the one that
  many places further round the list of primaries, so each serves once in every round; and a roster that
  starts after \<open>k\<close> whole intervals since the stored rotation has the same primary as after \<open>k\<close> rotations.\<close>

theorem roster_rotation_fair:
  assumes "with_role PRIMARY (or_contacts r) = ps" and "ps \<noteq> []" and "rs_lastRotated (or_state r) = Num t"
    and "0 \<le> rest" and "rest < interval_ms (or_rotationInterval r)"
  shows "contact_at (foldl (\<lambda>r t. rotate_roster t r) r ts) PRIMARY
           = ps ! ((rs_currentPrimaryIndex (or_state r) + length ts) mod length ps)
     \<and> contact_at (autoRotate (t + int k * interval_ms (or_rotationInterval r) + rest) r) PRIMARY
           = ps ! ((rs_currentPrimaryIndex (or_state r) + k) mod length ps)"
proof
  have pc: "primaryCount r = length ps" using assms(1) by (simp add: primaryCount_def)
  have "0 < primaryCount r" using assms(2) pc by simp
  from rotations_index [OF this] show "contact_at (foldl (\<lambda>r t. rotate_roster t r) r ts) PRIMARY
      = ps ! ((rs_currentPrimaryIndex (or_state r) + length ts) mod length ps)"
    using assms(1,2) pc by (simp add: contact_at_def)
  have st: "or_state r = \<lparr>rs_currentPrimaryIndex = rs_currentPrimaryIndex (or_state r), rs_lastRotated = Num t\<rparr>"
    using assms(3) by (cases "or_state r") simp
  have "getDayOfRotation (t + int k * interval_ms (or_rotationInterval r) + rest) (or_state r) (or_rotationInterval r) = Some (int k)"
    using elapsed_cycles [OF assms(4,5), of t k "rs_currentPrimaryIndex (or_state r)"] st by simp
  then show "contact_at (autoRotate (t + int k * interval_ms (or_rotationInterval r) + rest) r) PRIMARY
           = ps ! ((rs_currentPrimaryIndex (or_state r) + k) mod length ps)"
    using contact_rotate_by [OF assms(1,2)] assms(1,2) by (cases "k = 0") (simp_all add: autoRotate_def contact_at_def)
qed

definition demo_roster :: OnCallRoster where
  "demo_roster = new_roster 0 None None None (Some
     [(na_contact PRIMARY)\<lparr>oc_name := ''a''\<rparr>, na_contact MANAGER, (na_contact PRIMARY)\<lparr>oc_name := ''b''\<rparr>]) (Some Daily)"

lemma demo_roster_simps:
  "with_role PRIMARY (or_contacts demo_roster) = [(na_contact PRIMARY)\<lparr>oc_name := ''a''\<rparr>, (na_contact PRIMARY)\<lparr>oc_name := ''b''\<rparr>]"
  "with_role SECONDARY (or_contacts demo_roster) = []" "with_role MANAGER (or_contacts demo_roster) = [na_contact MANAGER]"
  "or_rotationInterval demo_roster = Daily"
  "or_state demo_roster = \<lparr>rs_currentPrimaryIndex = 0, rs_lastRotated = Num 0\<rparr>"
  by (simp_all add: demo_roster_def new_roster_def autoRotate_def getDayOfRotation_def loadState_def with_role_def na_contact_def)

theorem roster_rotation_fair_witness:
  "oc_name (contact_at (foldl (\<lambda>r t. rotate_roster t r) demo_roster [1]) PRIMARY) = ''b''
   \<and> oc_name (contact_at (autoRotate 86400005 demo_roster) PRIMARY) = ''b''"
  using roster_rotation_fair [OF demo_roster_simps(1), of 0 5 "[1]" 1]
  by (simp add: demo_roster_simps interval_ms_def)

section \<open>A failed notification is never silent\<close>

lemma delivered_iff_no_error: "ed_delivered (deliverToEndpoint post now p) \<longleftrightarrow> ed_error (deliverToEndpoint post now p) = None"
  by (simp add: deliverToEndpoint_def Let_def split: PostOutcome.splits)

lemma deliver_url: "ed_url (deliverToEndpoint post now p) = sp_url p"
  by (simp add: deliverToEndpoint_def Let_def split: PostOutcome.splits)

text \<open>The people on call, in the order they are paged.\<close>

definition on_call_list :: "OnCallRoster \<Rightarrow> OnCallContact list" where
  "on_call_list r = [contact_at r PRIMARY, contact_at r SECONDARY, contact_at r MANAGER]"

definition undelivered :: "NotifyWorld \<Rightarrow> SignedPost \<Rightarrow> bool" where
  "undelivered w p = (\<not> ed_delivered (deliverToEndpoint (nw_post w) (nw_now w) p))"

lemma sublist_wrap: "sublist x s \<Longrightarrow> sublist x (a @ s @ b)"
  unfolding sublist_def by (metis append.assoc)

lemma sublist_behind: "sublist x s \<Longrightarrow> sublist x (a @ s)"
  using sublist_wrap [of x s a "[]"] by simp

lemma sublist_before: "sublist x s \<Longrightarrow> sublist x (s @ b)"
  using sublist_wrap [of x s "[]" b] by simp

lemma join_includes: "x \<in> set xs \<Longrightarrow> sublist x (join sep xs)"
proof (induction sep xs rule: join.induct)
  case (3 sep w v vs)
  then show ?case using sublist_wrap [of x "join sep (v # vs)" "w @ sep" "[]"] by auto
qed auto

lemma page_text_names:
  "f \<in> set failures \<Longrightarrow> str_includes (page_text input failures n) (ed_url f)"
proof -
  assume "f \<in> set failures"
  then have named: "sublist (ed_url f) (join '', '' (map ed_url failures))" by (intro join_includes) simp
  show ?thesis unfolding str_includes_iff page_text_def
    by (rule sublist_behind, rule sublist_behind, rule sublist_behind, rule sublist_behind, rule sublist_behind, rule sublist_behind,
        rule sublist_behind, rule sublist_before) (rule named)
qed

lemma page_failures_sent:
  assumes "nw_roster w = Inr roster" "valid_time (nw_add_days w (if or_rotationInterval roster = Daily then 1 else 7)
      (rs_lastRotated (or_state roster)))" "\<And>i. nw_write w i = None" "failures \<noteq> []"
  shows "map (\<lambda>p. (pp_contact p, pp_severity p)) (page_failures w input failures k) = map (\<lambda>c. (c, ''CRITICAL'')) (on_call_list roster)
    \<and> list_all (\<lambda>p. pp_alert p = page_text input failures k) (page_failures w input failures k)"
proof -
  obtain s where "toISOString (nw_add_days w (if or_rotationInterval roster = Daily then 1 else 7) (rs_lastRotated (or_state roster))) = Inr s"
    using assms(2) toISOString_valid by blast
  then show ?thesis using assms(1,4)
    by (simp add: assms(3) page_failures_def pageCurrentOnCall_def getCurrentOnCall_def on_call_list_def)
qed


definition demo_notifier :: MultisigWebhookNotifier where
  "demo_notifier = \<lparr>mn_secret = ''k'', mn_endpoints = [''a'', ''b''], mn_timeoutMs = Num 5000, mn_throwOnAnyFailure = False\<rparr>"

text \<open>The endpoint \<open>b\<close> answers 500.\<close>

definition demo_notify :: NotifyWorld where
  "demo_notify = \<lparr>nw_date_ok = \<lambda>_. True, nw_now = 0, nw_hmac = \<lambda>_ _. [1], nw_post = \<lambda>p. Responded (if sp_url p = ''b'' then 500 else 200),
     nw_roster = Inr demo_roster, nw_add_days = \<lambda>_ t. t, nw_write = \<lambda>_. None\<rparr>"

lemma demo_notify_posts: "map sp_url (no_posts (notifySigners demo_notify demo_notifier demo_alert)) = [''a'', ''b'']"
  by (simp add: notifySigners_def Let_def demo_notify_def demo_notifier_def demo_alert_def validateInput_def js_prop_def
      blank_or_no_text_def trim_def is_ws_def valid_severity_def VALID_SEVERITIES_def bad_timestamp_def bad_metadata_def is_nullish_def
      computeHmacSignature_def signed_posts_def)


end
