(* ===== verification/Policy_Report.thy ===== *)
theory Policy_Report
  imports Policy_Engine Alert_Channels
begin

text \<open>
  What becomes of an evaluation: the report to the dashboard and the markdown report of
  \<open>policy-engine.ts\<close>, with the report counter of \<open>report-version.ts\<close>. The counter file is a value of the
  state: absent, unreadable or not JSON (\<open>Inl\<close>), or its parsed content. Pictograms are written as their
  UTF-8 bytes.
\<close>

section \<open>Report versions\<close>

type_synonym version_file = "(string + jsval) option"

text \<open>\<open>v + 1\<close>: numbers and booleans are added to, everything else is turned into text.\<close>

definition plus_one :: "jsval \<Rightarrow> jsval" where
  "plus_one v = (case v of JNumber n \<Rightarrow> JNumber (js_add n (Num 1)) | JBool b \<Rightarrow> JNumber (Num (if b then 2 else 1))
     | _ \<Rightarrow> JString (js_String v @ ''1''))"

definition read_version :: "version_file \<Rightarrow> jsval" where
  "read_version f =
     (case f of
        Some (Inr dat) \<Rightarrow>
          if is_nullish dat then JNumber (Num 1)
          else (let v = js_get dat ''version'' in if is_nullish v then JNumber (Num 1) else plus_one v)
      | _ \<Rightarrow> JNumber (Num 1))"

text \<open>\<open>JSON.stringify\<close> writes a number that is not finite as \<open>null\<close>.\<close>

definition stored_version :: "jsval \<Rightarrow> jsval" where
  "stored_version v = (case v of JNumber (Num n) \<Rightarrow> v | JNumber _ \<Rightarrow> JNull | _ \<Rightarrow> v)"

definition getNextReportVersion :: "bool \<Rightarrow> version_file \<Rightarrow> jsval \<times> version_file" where
  "getNextReportVersion writable f =
     (let version = read_version f
      in (version, if writable then Some (Inr (JObject [(''version'', stored_version version)])) else f))"

section \<open>The dashboard\<close>

definition evaluation_alert :: "PRData \<Rightarrow> EvaluationResult \<Rightarrow> int \<Rightarrow> PolicyViolation \<Rightarrow> DashboardAlert" where
  "evaluation_alert prData result now v =
     \<lparr>da_source = ''audit-guard'', da_type = pv_rule v, da_severity = pv_severity v, da_message = pv_message v,
      da_detail = pv_detail v, da_timestamp = iso_date now,
      da_metadata = JObject [(''pr_number'', JNumber (Num (pr_number (pd_pull_request prData)))),
        (''pr_author'', JString (pr_author (pd_pull_request prData))), (''pr_title'', JString (pr_title (pd_pull_request prData))),
        (''status'', JString (er_status result))]\<rparr>"

text \<open>The alerts handed to the client with what \<open>sendAlert\<close> resolved to; \<open>clk i\<close> is the clock at the
  \<open>i\<close>-th alert. The code waits for all of them and ignores the outcomes.\<close>

definition reportToDashboard ::
  "string option \<Rightarrow> string option \<Rightarrow> (string \<Rightarrow> string \<Rightarrow> DashboardAlert \<Rightarrow> bool) \<Rightarrow> (nat \<Rightarrow> int)
   \<Rightarrow> EvaluationResult \<Rightarrow> PRData \<Rightarrow> (DashboardAlert \<times> bool) list" where
  "reportToDashboard env_url env_token post clk result prData =
     (let dashUrl = (case env_url of Some u \<Rightarrow> u | None \<Rightarrow> []);
          dashToken = (case env_token of Some t \<Rightarrow> t | None \<Rightarrow> []);
          client = \<lparr>dc_url = dashUrl, dc_token = dashToken\<rparr>
      in if dashUrl = [] then []
         else map (\<lambda>(i, v). let alert = evaluation_alert prData result (clk i) v in (alert, sendAlert post client alert))
           (enumerate 0 (er_violations result @ filter high_severity (er_warnings result))))"

section \<open>The markdown report\<close>

abbreviation eol :: string where "eol \<equiv> [CHR 0x0A]"

definition violation_lines :: "PolicyViolation \<Rightarrow> string" where
  "violation_lines v = ''- **'' @ pv_rule v @ ''** ['' @ pv_severity v @ '']'' @ eol
     @ ''  '' @ pv_message v @ eol @ ''  _'' @ pv_detail v @ ''_'' @ eol @ eol"

definition status_emoji :: "string \<Rightarrow> string" where
  "status_emoji status = (if status = ''COMPLIANT'' then check_mark else if status = ''WARNING'' then warning_sign else cross_mark)"

record MaintenanceEnv =
  me_MODE :: "string option"
  me_MESSAGE :: "string option"

definition maintenance_notice :: "MaintenanceEnv \<Rightarrow> string" where
  "maintenance_notice env =
     (if me_MODE env = Some ''true'' then
        (let msg = (case me_MESSAGE env of Some m \<Rightarrow> if m \<noteq> [] then m
             else ''System undergoing maintenance. Compliance checks may be delayed.''
           | None \<Rightarrow> ''System undergoing maintenance. Compliance checks may be delayed.'')
         in ''> '' @ [CHR 0xF0, CHR 0x9F, CHR 0x9B, CHR 0xA0, CHR 0xEF, CHR 0xB8, CHR 0x8F]
            @ '' **MAINTENANCE NOTICE:** '' @ msg @ eol @ eol)
      else [])"

definition given :: "string option \<Rightarrow> string option" where
  "given x = (case x of Some s \<Rightarrow> if s \<noteq> [] then Some s else None | None \<Rightarrow> None)"

definition report_head :: "MaintenanceEnv \<Rightarrow> jsval \<Rightarrow> EvaluationResult \<Rightarrow> string" where
  "report_head env version result =
     maintenance_notice env
     @ ''## '' @ status_emoji (er_status result) @ '' Policy Compliance Check'' @ eol @ eol
     @ ''### Report Version: '' @ js_String version @ eol @ eol
     @ ''**Status:** '' @ er_status result @ eol @ eol
     @ (case given (er_maintenance_alert result) of None \<Rightarrow> []
        | Some a \<Rightarrow> ''> [!IMPORTANT]'' @ eol @ ''> ### '' @ [CHR 0xF0, CHR 0x9F, CHR 0x9A, CHR 0xA7] @ '' MAINTENANCE NOTICE'' @ eol
            @ ''> '' @ a @ eol @ eol)
     @ er_summary result @ eol @ eol"

definition listed :: "string \<Rightarrow> PolicyViolation list \<Rightarrow> string" where
  "listed heading vs = (if length vs > 0 then ''### '' @ heading @ eol @ eol @ concat (map violation_lines vs) else [])"

definition report_tail :: "EvaluationResult \<Rightarrow> string" where
  "report_tail result =
     (case given (er_anchored_tx result) of None \<Rightarrow> []
      | Some tx \<Rightarrow> ''### '' @ [CHR 0xF0, CHR 0x9F, CHR 0x94, CHR 0x97] @ '' Immutable Audit Trail'' @ eol @ eol
          @ ''This audit report has been anchored to the Stellar ledger for immutability.'' @ eol
          @ ''**Transaction Hash:** `'' @ tx @ ''`'' @ eol @ eol)
     @ (if length (er_violations result) = 0
        then ''---'' @ eol @ ''_All mandatory compliance checks passed. Review warnings to ensure best practices._'' @ eol else [])
     @ (case er_security_tip result of None \<Rightarrow> []
        | Some tip \<Rightarrow> eol @ ''---'' @ eol @ ''### '' @ [CHR 0xF0, CHR 0x9F, CHR 0x8E, CHR 0x93] @ '' Security Training'' @ eol @ eol
            @ ''**'' @ st_title tip @ ''**'' @ eol @ eol @ st_content tip @ eol)"

text \<open>The report, the alert given to the webhook (only for a maintenance alert), and the counter file.\<close>

definition engine_generateReport ::
  "MaintenanceEnv \<Rightarrow> bool \<Rightarrow> int \<Rightarrow> version_file \<Rightarrow> EvaluationResult
   \<Rightarrow> string \<times> (string \<times> string \<times> string) option \<times> version_file" where
  "engine_generateReport env writable now f result =
     (let (version, f') = getNextReportVersion writable f
      in (report_head env version result
            @ listed (cross_mark @ '' Violations'') (er_violations result)
            @ listed (warning_sign @ ''  Warnings'') (er_warnings result)
            @ report_tail result,
          (case given (er_maintenance_alert result) of None \<Rightarrow> None | Some a \<Rightarrow> Some (''unknown'', a, iso_date now)),
          f'))"

section \<open>Consecutive versions\<close>

primrec report_versions :: "nat \<Rightarrow> version_file \<Rightarrow> jsval list" where
  "report_versions 0 f = []"
| "report_versions (Suc n) f = (case getNextReportVersion True f of (v, f') \<Rightarrow> v # report_versions n f')"

text \<open>A counter that can be written numbers the reports consecutively, from one when there is no counter yet.\<close>

lemma versions_consecutive:
  "read_version f = JNumber (Num k) \<Longrightarrow> report_versions n f = map (\<lambda>i. JNumber (Num (k + int i))) [0..<n]"
proof (induction n arbitrary: f k)
  case (Suc n)
  have "read_version (Some (Inr (JObject [(''version'', JNumber (Num k))]))) = JNumber (Num (k + 1))"
    by (simp add: read_version_def js_prop_def is_nullish_def plus_one_def)
  from Suc.IH [OF this] show ?case using Suc.prems
    by (simp add: getNextReportVersion_def Let_def stored_version_def map_upt_Suc algebra_simps del: upt_Suc)
qed simp

section \<open>Tampering reaches people\<close>

lemma unverified_has_error:
  assumes "\<not> br_verified (fst (verify w v now))" "[] \<notin> set (bv_trustedSigners v)"
  shows "br_errors (fst (verify w v now)) \<noteq> []"
proof
  assume none: "br_errors (fst (verify w v now)) = []"
  then obtain live where live: "computeBundleManifest w (bv_policiesDir v) (bv_extensions v) = Inr live"
    by (auto simp: verify_def split: sum.splits)
  then obtain signed where signed: "load_signed w v = Inr signed"
    using none by (cases "load_signed w v") (auto simp: verify_def Let_def)
  obtain es signer where vs: "verifySignature w v signed = (es, signer)" by fastforce
  have "es = []" "signer = None \<or> signer = Some []"
    using none assms(1) live signed vs by (auto simp: verify_def Let_def split: if_splits)
  then show False using verifySignature_ok [of w v signed signer] vs assms(2) first_signer_Some by fastforce
qed

lemma engine_signers_named: "[] \<notin> set (bv_trustedSigners (engine_verifier w e))"
  by (auto simp: engine_verifier_def new_verifier_def Let_def)

lemma bundle_warning_high: "high_severity (bundle_warning err)"
  by (simp add: high_severity_def bundle_warning_def violation_def)

lemma dashboard_gets:
  assumes "u \<noteq> []" "v \<in> set (er_violations r @ filter high_severity (er_warnings r))"
  shows "list_ex (\<lambda>(a, _). da_type a = pv_rule v \<and> da_severity a = pv_severity v \<and> da_message a = pv_message v)
    (reportToDashboard (Some u) token post clk r d)"
proof -
  let ?vs = "er_violations r @ filter high_severity (er_warnings r)"
  obtain i where "i < length ?vs" "?vs ! i = v" using assms(2) by (metis in_set_conv_nth)
  then have "(i, v) \<in> set (enumerate 0 ?vs)" by (auto simp: in_set_enumerate_eq)
  then show ?thesis using assms(1)
    by (force simp: reportToDashboard_def Let_def list_ex_iff evaluation_alert_def)
qed

lemma listed_shows:
  assumes "v \<in> set vs"
  shows "sublist (violation_lines v) (listed heading vs)"
proof -
  obtain ys zs where "vs = ys @ v # zs" using assms by (metis split_list)
  then have "listed heading vs = (''### '' @ heading @ eol @ eol @ concat (map violation_lines ys)) @ violation_lines v @ concat (map violation_lines zs)"
    by (simp add: listed_def)
  then show ?thesis by (metis sublist_wrap sublist_order.order_refl)
qed

lemma report_shows:
  assumes "v \<in> set (er_violations r) \<union> set (er_warnings r)"
  shows "str_includes (fst (engine_generateReport env writable now f r)) (violation_lines v)"
proof -
  let ?a = "listed (cross_mark @ '' Violations'') (er_violations r)" and ?b = "listed (warning_sign @ ''  Warnings'') (er_warnings r)"
  obtain version f' where v: "getNextReportVersion writable f = (version, f')" by fastforce
  have "sublist (violation_lines v) ?a \<or> sublist (violation_lines v) ?b" using assms listed_shows by blast
  then have "sublist (violation_lines v) (report_head env version r @ ?a @ ?b @ report_tail r)"
    using sublist_wrap [of _ ?a "report_head env version r" "?b @ report_tail r"]
      sublist_wrap [of _ ?b "report_head env version r @ ?a" "report_tail r"] by auto
  then show ?thesis by (simp add: engine_generateReport_def v str_includes_iff)
qed


text \<open>The policies of \<open>demo_eval\<close> with a signature that no trusted key verifies.\<close>

definition forged_eval :: EvalWorld where
  "forged_eval = demo_eval\<lparr>ew_bundle := demo_bundle\<lparr>bw_verify := \<lambda>_ _ _. Some False\<rparr>\<rparr>"


end
