(* ===== verification/Js_Regex.thy ===== *)
theory Js_Regex
  imports Js_Text
begin

text \<open>
  JavaScript regular expressions, as far as the scanners use them: classes, sequences, alternatives,
  greedy and lazy repetition, word boundaries, the two ends of the text, capturing groups. \<open>run\<close> is the
  backtracking matcher of the language; it lists the ways to match in the order in which the language
  tries them, so its head is the match that \<open>exec\<close> and \<open>match\<close> return. An iteration of a repetition that
  consumes nothing is abandoned, as the language prescribes. The relation \<open>matches\<close> says what a match is,
  without any order of search, and the matcher is shown to find exactly the matches.

  A position in a text is a pair: what lies before it, reversed, and what lies behind it.
\<close>

section \<open>Expressions and the matcher\<close>

datatype regex =
    Eps
  | Cls "char \<Rightarrow> bool"
  | Seq regex regex
  | Alt regex regex
  | Star bool regex
  | Boundary
  | At_start
  | At_end
  | Grp nat regex

type_synonym position = "string \<times> string"
type_synonym rx_state = "position \<times> (nat \<times> string) list"

definition word_char :: "char \<Rightarrow> bool" where
  "word_char c = (let n = of_char c :: nat in (97 \<le> n \<and> n \<le> 122) \<or> (65 \<le> n \<and> n \<le> 90) \<or> (48 \<le> n \<and> n \<le> 57) \<or> n = 95)"

definition first_is_word :: "string \<Rightarrow> bool" where
  "first_is_word s = (case s of [] \<Rightarrow> False | c # _ \<Rightarrow> word_char c)"

definition at_boundary :: "position \<Rightarrow> bool" where
  "at_boundary p = (first_is_word (fst p) \<noteq> first_is_word (snd p))"

definition consumes :: "rx_state \<Rightarrow> rx_state \<Rightarrow> bool" where
  "consumes x y = (length (snd (fst y)) < length (snd (fst x)))"

primrec star_run :: "nat \<Rightarrow> (rx_state \<Rightarrow> rx_state list) \<Rightarrow> bool \<Rightarrow> rx_state \<Rightarrow> rx_state list" where
  "star_run 0 f greedy x = [x]"
| "star_run (Suc n) f greedy x =
     (let more = concat (map (star_run n f greedy) (filter (consumes x) (f x)))
      in if greedy then more @ [x] else x # more)"

definition group_text :: "position \<Rightarrow> position \<Rightarrow> string" where
  "group_text p q = rev (take (length (fst q) - length (fst p)) (fst q))"

primrec run :: "regex \<Rightarrow> rx_state \<Rightarrow> rx_state list" where
  "run Eps x = [x]"
| "run (Cls p) x = (case x of ((u, []), cs) \<Rightarrow> [] | ((u, c # v), cs) \<Rightarrow> if p c then [((c # u, v), cs)] else [])"
| "run (Seq a b) x = concat (map (run b) (run a x))"
| "run (Alt a b) x = run a x @ run b x"
| "run (Star greedy r) x = star_run (length (snd (fst x))) (run r) greedy x"
| "run Boundary x = (if at_boundary (fst x) then [x] else [])"
| "run At_start x = (if fst (fst x) = [] then [x] else [])"
| "run At_end x = (if snd (fst x) = [] then [x] else [])"
| "run (Grp k r) x = map (\<lambda>(q, cs). (q, (k, group_text (fst x) q) # cs)) (run r x)"

fun positions :: "string \<Rightarrow> string \<Rightarrow> position list" where
  "positions u [] = [(u, [])]"
| "positions u (c # v) = (u, c # v) # positions (c # u) v"

text \<open>\<open>re.test(s)\<close>, and \<open>s.match(re)\<close> without the global flag: the matched text and the groups of the
  first match from the left.\<close>

definition re_test :: "regex \<Rightarrow> string \<Rightarrow> bool" where
  "re_test r s = list_ex (\<lambda>p. run r (p, []) \<noteq> []) (positions [] s)"

fun first_match :: "regex \<Rightarrow> position list \<Rightarrow> (string \<times> (nat \<times> string) list \<times> position) option" where
  "first_match r [] = None"
| "first_match r (p # ps) = (case run r (p, []) of [] \<Rightarrow> first_match r ps | (q, cs) # _ \<Rightarrow> Some (group_text p q, cs, q))"

definition re_match :: "regex \<Rightarrow> string \<Rightarrow> (string \<times> (nat \<times> string) list) option" where
  "re_match r s = map_option (\<lambda>(t, cs, q). (t, cs)) (first_match r (positions [] s))"

text \<open>\<open>s.matchAll(re)\<close> for an expression with the global flag: the search goes on where the last match ended,
  one character further when it was empty.\<close>

definition next_start :: "string \<Rightarrow> position \<Rightarrow> position" where
  "next_start t q = (if t = [] then (case snd q of [] \<Rightarrow> q | c # v \<Rightarrow> (c # fst q, v)) else q)"

function all_matches :: "regex \<Rightarrow> position \<Rightarrow> (string \<times> (nat \<times> string) list) list" where
  "all_matches r p =
     (case first_match r (positions (fst p) (snd p)) of
        None \<Rightarrow> []
      | Some (t, cs, q) \<Rightarrow>
          (t, cs) # (if length (snd (next_start t q)) < length (snd p) then all_matches r (next_start t q) else []))"
  by pat_completeness auto
termination by (relation "measure (\<lambda>(r, p). length (snd p))") auto

declare all_matches.simps [simp del]

definition re_matchAll :: "regex \<Rightarrow> string \<Rightarrow> (string \<times> (nat \<times> string) list) list" where
  "re_matchAll r s = all_matches r ([], s)"

definition group :: "nat \<Rightarrow> string \<times> (nat \<times> string) list \<Rightarrow> string option" where
  "group k m = (if k = 0 then Some (fst m) else map_of (snd m) k)"

section \<open>Ways to write expressions\<close>

definition chr :: "char \<Rightarrow> regex" where "chr c = Cls (\<lambda>d. d = c)"

definition one_of :: "string \<Rightarrow> regex" where "one_of cs = Cls (\<lambda>d. list_ex (\<lambda>c. d = c) cs)"

definition none_of :: "string \<Rightarrow> regex" where "none_of cs = Cls (\<lambda>d. list_all (\<lambda>c. d \<noteq> c) cs)"

fun lit :: "string \<Rightarrow> regex" where
  "lit [] = Eps"
| "lit [c] = chr c"
| "lit (c # s) = Seq (chr c) (lit s)"

text \<open>A literal under the flag \<open>i\<close>.\<close>

fun lit_i :: "string \<Rightarrow> regex" where
  "lit_i [] = Eps"
| "lit_i (c # s) = Seq (Cls (\<lambda>d. lower_char d = lower_char c)) (lit_i s)"

fun alts :: "regex list \<Rightarrow> regex" where
  "alts [] = Eps"
| "alts [r] = r"
| "alts (r # rs) = Alt r (alts rs)"

fun seqs :: "regex list \<Rightarrow> regex" where
  "seqs [] = Eps"
| "seqs [r] = r"
| "seqs (r # rs) = Seq r (seqs rs)"

definition opt :: "regex \<Rightarrow> regex" where "opt r = Alt r Eps"
definition many :: "regex \<Rightarrow> regex" where "many r = Star True r"
definition some1 :: "regex \<Rightarrow> regex" where "some1 r = Seq r (Star True r)"
definition lazily :: "regex \<Rightarrow> regex" where "lazily r = Star False r"

fun rep_n :: "nat \<Rightarrow> regex \<Rightarrow> regex" where
  "rep_n 0 r = Eps"
| "rep_n (Suc n) r = Seq r (rep_n n r)"

fun up_to :: "nat \<Rightarrow> regex \<Rightarrow> regex" where
  "up_to 0 r = Eps"
| "up_to (Suc n) r = opt (Seq r (up_to n r))"

definition space :: regex where "space = Cls is_ws"
definition word_re :: regex where "word_re = Cls word_char"
definition spaces :: regex where "spaces = many space"
definition in_range :: "char \<Rightarrow> char \<Rightarrow> char \<Rightarrow> bool" where
  "in_range a b c = ((of_char a :: nat) \<le> of_char c \<and> (of_char c :: nat) \<le> of_char b)"
definition digit :: regex where "digit = Cls (in_range CHR ''0'' CHR ''9'')"
definition hex_digit :: regex where
  "hex_digit = Cls (\<lambda>c. in_range CHR ''0'' CHR ''9'' c \<or> in_range CHR ''a'' CHR ''f'' c \<or> in_range CHR ''A'' CHR ''F'' c)"
definition dot :: regex where "dot = none_of [CHR 0x0A, CHR 0x0D]"
definition not_eol :: regex where "not_eol = none_of [CHR 0x0A]"

section \<open>What a match is\<close>

inductive matches :: "regex \<Rightarrow> position \<Rightarrow> position \<Rightarrow> bool" where
  eps: "matches Eps p p"
| cls: "f c \<Longrightarrow> matches (Cls f) (u, c # v) (c # u, v)"
| seq: "matches a p q \<Longrightarrow> matches b q r \<Longrightarrow> matches (Seq a b) p r"
| alt_left: "matches a p q \<Longrightarrow> matches (Alt a b) p q"
| alt_right: "matches b p q \<Longrightarrow> matches (Alt a b) p q"
| star_stop: "matches (Star g a) p p"
| star_more: "matches a p q \<Longrightarrow> matches (Star g a) q r \<Longrightarrow> matches (Star g a) p r"
| boundary: "at_boundary p \<Longrightarrow> matches Boundary p p"
| at_start: "matches At_start ([], v) ([], v)"
| at_end: "matches At_end (u, []) (u, [])"
| grp: "matches a p q \<Longrightarrow> matches (Grp k a) p q"

inductive_cases matchesE:
  "matches Eps p q" "matches (Cls f) p q" "matches (Seq a b) p q" "matches (Alt a b) p q"
  "matches Boundary p q" "matches At_start p q" "matches At_end p q" "matches (Grp k a) p q"

lemma matches_simps:
  "matches Eps p q \<longleftrightarrow> q = p"
  "matches (Cls f) p q \<longleftrightarrow> (\<exists>u c v. p = (u, c # v) \<and> f c \<and> q = (c # u, v))"
  "matches (Seq a b) p q \<longleftrightarrow> (\<exists>r. matches a p r \<and> matches b r q)"
  "matches (Alt a b) p q \<longleftrightarrow> matches a p q \<or> matches b p q"
  "matches Boundary p q \<longleftrightarrow> at_boundary p \<and> q = p"
  "matches (Grp k a) p q \<longleftrightarrow> matches a p q"
  by (blast elim: matchesE intro: matches.intros)+

lemma matches_ends:
  "matches At_start p q \<longleftrightarrow> fst p = [] \<and> q = p"
  "matches At_end p q \<longleftrightarrow> snd p = [] \<and> q = p"
  by (cases p; auto elim: matchesE intro: matches.intros)+

text \<open>A match moves forward in the same text.\<close>

lemma matches_forward: "matches r p q \<Longrightarrow> \<exists>t. snd p = t @ snd q \<and> fst q = rev t @ fst p"
proof (induction rule: matches.induct)
  case (seq a p q b r)
  then obtain t t' where "snd p = t @ snd q" "fst q = rev t @ fst p" "snd q = t' @ snd r" "fst r = rev t' @ fst q" by blast
  then show ?case by (intro exI [of _ "t @ t'"]) simp
next
  case (star_more a p q g r)
  then obtain t t' where "snd p = t @ snd q" "fst q = rev t @ fst p" "snd q = t' @ snd r" "fst r = rev t' @ fst q" by blast
  then show ?case by (intro exI [of _ "t @ t'"]) simp
qed auto

lemma matches_same_end: "matches r p q \<Longrightarrow> \<not> length (snd q) < length (snd p) \<Longrightarrow> q = p"
  by (drule matches_forward) (auto simp: prod_eq_iff)

definition finds :: "(rx_state \<Rightarrow> rx_state list) \<Rightarrow> (position \<Rightarrow> position \<Rightarrow> bool) \<Rightarrow> bool" where
  "finds f R = (\<forall>p cs q. q \<in> fst ` set (f (p, cs)) \<longleftrightarrow> R p q)"

lemma findsD: "finds f R \<Longrightarrow> q \<in> fst ` set (f (p, cs)) \<longleftrightarrow> R p q"
  unfolding finds_def by blast

lemma star_run_sound:
  assumes "finds f (matches r)"
  shows "q \<in> fst ` set (star_run n f g (p, cs)) \<Longrightarrow> matches (Star g r) p q"
proof (induction n arbitrary: p cs)
  case 0
  then show ?case by (auto intro: star_stop)
next
  case (Suc n)
  then consider "q = p" | p' cs' where "(p', cs') \<in> set (f (p, cs))" "q \<in> fst ` set (star_run n f g (p', cs'))"
    by (auto simp: Let_def split: if_splits)
  then show ?case
  proof cases
    case 2
    then have "matches r p p'" using assms unfolding finds_def by (metis fst_conv image_eqI)
    then show ?thesis using Suc.IH [OF 2(2)] by (rule star_more)
  qed (auto intro: star_stop)
qed

lemma star_run_complete:
  assumes "finds f (matches r)"
  shows "matches r' p q \<Longrightarrow> r' = Star g r \<Longrightarrow> length (snd p) \<le> n \<Longrightarrow> q \<in> fst ` set (star_run n f g (p, cs))"
proof (induction r' p q arbitrary: n cs rule: matches.induct)
  case (star_stop g' a p)
  then show ?case by (cases n) (auto simp: Let_def)
next
  case (star_more a p p' g' q)
  show ?case
  proof (cases "length (snd p') < length (snd p)")
    case False
    then have "p' = p" using star_more.hyps(1) matches_same_end by blast
    then show ?thesis using star_more by simp
  next
    case True
    then obtain m where n: "n = Suc m" using star_more.prems by (cases n) auto
    have "p' \<in> fst ` set (f (p, cs))" using findsD [OF assms] star_more.hyps(1) star_more.prems(1) by simp
    then obtain cs' where c: "(p', cs') \<in> set (f (p, cs))" by auto
    have "q \<in> fst ` set (star_run m f g (p', cs'))" using star_more.IH(2) star_more.prems True n by simp
    moreover have "(p', cs') \<in> set (filter (consumes (p, cs)) (f (p, cs)))" using c True by (simp add: consumes_def)
    ultimately have "q \<in> fst ` set (concat (map (star_run m f g) (filter (consumes (p, cs)) (f (p, cs)))))"
      unfolding set_concat set_map image_UN by blast
    then show ?thesis unfolding n star_run.simps Let_def by (cases g) (simp_all only: if_True if_False set_append list.set(2) image_Un image_insert, blast+)
  qed
qed auto

text \<open>The matcher finds exactly the matches, whatever it searches first.\<close>

lemma run_finds: "finds (run r) (matches r)"
proof (induction r)
  case (Seq a b)
  show ?case unfolding finds_def
  proof (intro allI)
    fix p cs q
    have "q \<in> fst ` set (run (Seq a b) (p, cs)) \<longleftrightarrow> (\<exists>m cs'. (m, cs') \<in> set (run a (p, cs)) \<and> q \<in> fst ` set (run b (m, cs')))"
      by auto
    also have "\<dots> \<longleftrightarrow> (\<exists>m. m \<in> fst ` set (run a (p, cs)) \<and> matches b m q)"
      unfolding findsD [OF Seq.IH(2)] by force
    also have "\<dots> \<longleftrightarrow> matches (Seq a b) p q" unfolding findsD [OF Seq.IH(1)] matches_simps ..
    finally show "q \<in> fst ` set (run (Seq a b) (p, cs)) \<longleftrightarrow> matches (Seq a b) p q" .
  qed
next
  case (Star g r)
  show ?case unfolding finds_def [of "run (Star g r)"]
  proof (intro allI iffI)
    fix p cs q
    show "q \<in> fst ` set (run (Star g r) (p, cs)) \<Longrightarrow> matches (Star g r) p q"
      using star_run_sound [OF Star] by simp
    show "matches (Star g r) p q \<Longrightarrow> q \<in> fst ` set (run (Star g r) (p, cs))"
      using star_run_complete [OF Star _ refl] by simp
  qed
next
  case (Cls f)
  show ?case unfolding finds_def by (auto simp: matches_simps split: list.splits)
next
  case (Alt a b)
  then show ?case unfolding finds_def by (simp add: matches_simps image_Un)
next
  case (Grp k r)
  then show ?case unfolding finds_def by (simp add: matches_simps image_image case_prod_unfold)
qed (auto simp: finds_def matches_simps matches_ends)

lemma positions_iff: "p \<in> set (positions u v) \<longleftrightarrow> (\<exists>t w. v = t @ w \<and> p = (rev t @ u, w))"
proof (induction u v rule: positions.induct)
  case (2 u c v)
  show ?case
  proof
    assume "p \<in> set (positions u (c # v))"
    then show "\<exists>t w. c # v = t @ w \<and> p = (rev t @ u, w)"
      using 2 by (auto intro: exI [of _ "[]"]) 
  next
    assume "\<exists>t w. c # v = t @ w \<and> p = (rev t @ u, w)"
    then show "p \<in> set (positions u (c # v))" using 2 by (auto simp: Cons_eq_append_conv)
  qed
qed auto

lemma re_test_iff: "re_test r s \<longleftrightarrow> (\<exists>t w q. s = t @ w \<and> matches r (rev t, w) q)"
proof -
  have "run r (p, []) \<noteq> [] \<longleftrightarrow> (\<exists>q. matches r p q)" for p
    using run_finds [of r] unfolding finds_def by (metis equals0D image_is_empty set_empty ex_in_conv)
  then have "re_test r s \<longleftrightarrow> (\<exists>p \<in> set (positions [] s). \<exists>q. matches r p q)" by (simp add: re_test_def list_ex_iff)
  then show ?thesis unfolding positions_iff Bex_def by (metis append_Nil2)
qed

section \<open>Matches of the common shapes\<close>

lemma lit_Cons: "matches (lit (c # s)) p q \<longleftrightarrow> matches (Seq (chr c) (lit s)) p q"
  by (cases s) (simp_all add: matches_simps(1,3) del: split_paired_Ex)

lemma matches_lit: "matches (lit s) p q \<longleftrightarrow> (\<exists>v. snd p = s @ v \<and> q = (rev s @ fst p, v))"
proof (induction s arbitrary: p)
  case Nil
  then show ?case by (auto simp: matches_simps prod_eq_iff)
next
  case (Cons c s)
  show ?case unfolding lit_Cons by (cases p) (auto simp: matches_simps Cons chr_def)
qed

lemma re_test_lit: "re_test (lit s) t \<longleftrightarrow> str_includes t s"
  by (auto simp: re_test_iff matches_lit str_includes_iff sublist_def)

lemma re_test_Alt: "re_test (Alt a b) s \<longleftrightarrow> re_test a s \<or> re_test b s"
  by (auto simp: re_test_iff matches_simps)

end
