(* ===== verification/Rbac_Mapper.thy ===== *)
theory Rbac_Mapper
  imports Js_Json Js_Regex
begin

text \<open>
  The RBAC mapper (\<open>src/audit-guard/src/rbac-mapper.ts\<close>): validation of a policy document, permissions
  along role inheritance with the depth limit and the cache of the code, admin roles, the role hierarchy,
  privilege-escalation findings, least-privilege violations and the report.

  A policy arrives as a dynamic value, because the code checks its shape at run time; after validation it
  is read into records. A JavaScript \<open>Set\<close> is a list without duplicates in insertion order. The remaining
  depth is counted down: \<open>left\<close> is \<open>maxDepth + 1 - depth\<close> where the code compares \<open>depth > maxDepth\<close>.
\<close>

section \<open>Data\<close>

record RbacRole =
  rr_id :: string
  rr_name :: string
  rr_permissions :: "string list"
  rr_inherits :: "string list"
  rr_isAdmin :: bool

record RbacUser =
  ru_id :: string
  ru_name :: string
  ru_email :: "string option"
  ru_roles :: "string list"

record PrivilegeEscalationFinding =
  pf_userId :: string
  pf_userName :: string
  pf_roleId :: string
  pf_roleName :: string
  pf_reason :: string
  pf_severity :: Severity
  pf_remediation :: string

record LeastPrivilegeViolation =
  lv_userId :: string
  lv_userName :: string
  lv_excessivePermissions :: "string list"
  lv_severity :: Severity
  lv_remediation :: string

datatype RoleHierarchyNode =
  HNode (hn_roleId: string) (hn_roleName: string) (hn_depth: nat) (hn_children: "RoleHierarchyNode list")
    (hn_effectivePermissions: "string list") (hn_isAdmin: bool)

record RbacScanResult =
  rs_status :: string
  rs_escalationFindings :: "PrivilegeEscalationFinding list"
  rs_leastPrivilegeViolations :: "LeastPrivilegeViolation list"
  rs_roleHierarchy :: "RoleHierarchyNode list"
  rs_adminUsers :: "RbacUser list"
  rs_totalUsers :: nat
  rs_totalRoles :: nat
  rs_summary :: string
  rs_scanTimestamp :: string

datatype RbacMapperErrorCode =
  INVALID_POLICY | INVALID_ROLE | INVALID_USER | DUPLICATE_ROLE | DUPLICATE_USER | UNKNOWN_ROLE | INVALID_OPTIONS

type_synonym rbac_error = "RbacMapperErrorCode \<times> string"

record RbacMapper =
  rm_maxDepth :: nat
  rm_dangerousPermissions :: "string list"

definition DEFAULT_DANGEROUS_PERMISSIONS :: "string list" where
  "DEFAULT_DANGEROUS_PERMISSIONS = [''*'', ''admin:*'', ''assign:roles'', ''manage:permissions'', ''manage:users'', ''impersonate:users'', ''sudo'']"

definition ADMIN_ROLE_NAME_RE :: regex where
  "ADMIN_ROLE_NAME_RE = seqs [Boundary,
     alts [lit_i ''admin'', lit_i ''superuser'', lit_i ''root'', lit_i ''owner'', lit_i ''god-mode''], Boundary]"

section \<open>Validation\<close>

definition nonblank :: "jsval \<Rightarrow> bool" where
  "nonblank v = (case v of JString s \<Rightarrow> trim s \<noteq> [] | _ \<Rightarrow> False)"

definition all_nonblank :: "jsval \<Rightarrow> bool" where
  "all_nonblank v = (case v of JArray vs \<Rightarrow> list_all nonblank vs | _ \<Rightarrow> False)"

definition validateOptions :: "jsval \<Rightarrow> rbac_error option" where
  "validateOptions options =
     (if \<not> is_object options then Some (INVALID_OPTIONS, ''RBAC options must be an object'')
      else if (case js_get options ''maxInheritanceDepth'' of JUndefined \<Rightarrow> False | JNumber (Num n) \<Rightarrow> n < 1 | _ \<Rightarrow> True)
        then Some (INVALID_OPTIONS, ''maxInheritanceDepth must be a positive integer'')
      else if js_get options ''dangerousPermissions'' \<noteq> JUndefined \<and> \<not> all_nonblank (js_get options ''dangerousPermissions'')
        then Some (INVALID_OPTIONS, ''dangerousPermissions must contain non-empty strings'')
      else None)"

definition strings_of :: "jsval \<Rightarrow> string list" where
  "strings_of v = (case v of JArray vs \<Rightarrow> map js_String vs | _ \<Rightarrow> [])"

definition new_mapper :: "jsval \<Rightarrow> rbac_error + RbacMapper" where
  "new_mapper options =
     (case validateOptions options of
        Some e \<Rightarrow> Inl e
      | None \<Rightarrow> Inr \<lparr>rm_maxDepth = (case js_get options ''maxInheritanceDepth'' of JNumber (Num n) \<Rightarrow> nat n | _ \<Rightarrow> 10),
          rm_dangerousPermissions = add_all [] (DEFAULT_DANGEROUS_PERMISSIONS @ strings_of (js_get options ''dangerousPermissions''))\<rparr>)"

definition valid_role :: "jsval \<Rightarrow> bool" where
  "valid_role r = (nonblank (js_get r ''id'') \<and> nonblank (js_get r ''name'') \<and> all_nonblank (js_get r ''permissions'')
     \<and> (js_get r ''inherits'' = JUndefined \<or> all_nonblank (js_get r ''inherits'')))"

definition truthy :: "jsval \<Rightarrow> bool" where
  "truthy v = (case v of JNull \<Rightarrow> False | JUndefined \<Rightarrow> False | JBool b \<Rightarrow> b | JNumber n \<Rightarrow> n \<noteq> Num 0 \<and> n \<noteq> JNaN
     | JString s \<Rightarrow> s \<noteq> [] | _ \<Rightarrow> True)"

definition role_of :: "jsval \<Rightarrow> RbacRole" where
  "role_of r = \<lparr>rr_id = js_String (js_get r ''id''), rr_name = js_String (js_get r ''name''),
     rr_permissions = strings_of (js_get r ''permissions''), rr_inherits = strings_of (js_get r ''inherits''),
     rr_isAdmin = truthy (js_get r ''isAdmin'')\<rparr>"

fun check_roles :: "jsval list \<Rightarrow> string list \<Rightarrow> rbac_error + string list" where
  "check_roles [] roleIds = Inr roleIds"
| "check_roles (r # rs) roleIds =
     (if \<not> valid_role r then Inl (INVALID_ROLE, ''each role must have non-empty id, name, and permission values'')
      else if rr_id (role_of r) \<in> set roleIds then Inl (DUPLICATE_ROLE, ''duplicate role id: '' @ rr_id (role_of r))
      else check_roles rs (roleIds @ [rr_id (role_of r)]))"

definition unknown_parent :: "string list \<Rightarrow> RbacRole \<Rightarrow> rbac_error option" where
  "unknown_parent roleIds role =
     map_option (\<lambda>p. (UNKNOWN_ROLE, ''role '' @ rr_id role @ '' inherits unknown role: '' @ p))
       (find (\<lambda>p. p \<notin> set roleIds) (rr_inherits role))"

fun check_parents :: "string list \<Rightarrow> RbacRole list \<Rightarrow> rbac_error option" where
  "check_parents roleIds [] = None"
| "check_parents roleIds (r # rs) = (case unknown_parent roleIds r of Some e \<Rightarrow> Some e | None \<Rightarrow> check_parents roleIds rs)"

definition valid_user :: "jsval \<Rightarrow> bool" where
  "valid_user u = (nonblank (js_get u ''id'') \<and> nonblank (js_get u ''name'') \<and> all_nonblank (js_get u ''roles''))"

definition user_of :: "jsval \<Rightarrow> RbacUser" where
  "user_of u = \<lparr>ru_id = js_String (js_get u ''id''), ru_name = js_String (js_get u ''name''),
     ru_email = (if truthy (js_get u ''email'') then Some (js_String (js_get u ''email'')) else None),
     ru_roles = strings_of (js_get u ''roles'')\<rparr>"

fun check_users :: "string list \<Rightarrow> jsval list \<Rightarrow> string list \<Rightarrow> rbac_error option" where
  "check_users roleIds [] userIds = None"
| "check_users roleIds (u # us) userIds =
     (if \<not> valid_user u then Some (INVALID_USER, ''each user must have non-empty id, name, and role values'')
      else if ru_id (user_of u) \<in> set userIds then Some (DUPLICATE_USER, ''duplicate user id: '' @ ru_id (user_of u))
      else (case find (\<lambda>r. r \<notin> set roleIds) (ru_roles (user_of u)) of
          Some r \<Rightarrow> Some (UNKNOWN_ROLE, ''user '' @ ru_id (user_of u) @ '' references unknown role: '' @ r)
        | None \<Rightarrow> check_users roleIds us (userIds @ [ru_id (user_of u)])))"

text \<open>The records of a policy that passes, or the error.\<close>

definition validatePolicy :: "jsval \<Rightarrow> rbac_error + RbacRole list \<times> RbacUser list" where
  "validatePolicy policy =
     (case (js_get policy ''roles'', js_get policy ''users'') of
        (JArray rs, JArray us) \<Rightarrow>
          (case check_roles rs [] of
             Inl e \<Rightarrow> Inl e
           | Inr roleIds \<Rightarrow>
               (case check_parents roleIds (map role_of rs) of
                  Some e \<Rightarrow> Inl e
                | None \<Rightarrow> (case check_users roleIds us [] of
                    Some e \<Rightarrow> Inl e
                  | None \<Rightarrow> Inr (map role_of rs, map user_of us))))
      | _ \<Rightarrow> Inl (INVALID_POLICY, ''policy must have '' @ [CHR 0x27] @ ''roles'' @ [CHR 0x27] @ '' and '' @ [CHR 0x27] @ ''users'' @ [CHR 0x27] @ '' arrays''))"

section \<open>Permissions along inheritance\<close>

type_synonym role_map = "(string, RbacRole) jmap"
type_synonym perm_map = "(string, string list) jmap"

definition buildRoleMap :: "RbacRole list \<Rightarrow> role_map" where
  "buildRoleMap roles = foldl (\<lambda>m r. jmap_set (rr_id r) r m) [] roles"

definition own_permissions :: "role_map \<Rightarrow> string \<Rightarrow> string list" where
  "own_permissions m i = (case jmap_get m i of None \<Rightarrow> [] | Some role \<Rightarrow> add_all [] (rr_permissions role))"

text \<open>One role, with the cache threaded through; the loop over the parents is \<open>resolve_parents\<close>.\<close>

fun resolve_parents :: "(string \<Rightarrow> perm_map \<Rightarrow> string list \<times> perm_map) \<Rightarrow> string list \<Rightarrow> string list \<Rightarrow> perm_map \<Rightarrow> string list \<times> perm_map" where
  "resolve_parents f [] perms cache = (perms, cache)"
| "resolve_parents f (p # ps) perms cache =
     (case f p cache of (parentPerms, cache') \<Rightarrow> resolve_parents f ps (add_all perms parentPerms) cache')"

primrec resolve :: "nat \<Rightarrow> role_map \<Rightarrow> string list \<Rightarrow> string \<Rightarrow> perm_map \<Rightarrow> string list \<times> perm_map" where
  "resolve 0 m visited i cache =
     (case jmap_get cache i of Some ps \<Rightarrow> (ps, cache) | None \<Rightarrow> (own_permissions m i, cache))"
| "resolve (Suc left) m visited i cache =
     (case jmap_get cache i of
        Some ps \<Rightarrow> (ps, cache)
      | None \<Rightarrow>
          if i \<in> set visited then (own_permissions m i, cache)
          else (case jmap_get m i of
              None \<Rightarrow> ([], cache)
            | Some role \<Rightarrow>
                (case resolve_parents (resolve left m (visited @ [i])) (rr_inherits role) (add_all [] (rr_permissions role)) cache of
                   (perms, cache') \<Rightarrow> (perms, jmap_set i perms cache'))))"

definition resolveAllPermissions :: "nat \<Rightarrow> role_map \<Rightarrow> perm_map" where
  "resolveAllPermissions maxDepth m =
     foldl (\<lambda>cache i. snd (resolve (maxDepth + 1) m [] i cache)) [] (jmap_keys m)"

definition perms_of :: "perm_map \<Rightarrow> string \<Rightarrow> string list" where
  "perms_of e i = (case jmap_get e i of None \<Rightarrow> [] | Some ps \<Rightarrow> ps)"

section \<open>Admin roles and the hierarchy\<close>

definition admin_name :: "string \<Rightarrow> bool" where
  "admin_name s = re_test ADMIN_ROLE_NAME_RE s"

definition is_admin_role :: "string list \<Rightarrow> perm_map \<Rightarrow> string \<Rightarrow> RbacRole \<Rightarrow> bool" where
  "is_admin_role dangerous e i role =
     (rr_isAdmin role \<or> admin_name (rr_name role) \<or> admin_name i \<or> list_ex (\<lambda>p. p \<in> set dangerous) (perms_of e i))"

definition resolveAdminRoleIds :: "string list \<Rightarrow> role_map \<Rightarrow> perm_map \<Rightarrow> string list" where
  "resolveAdminRoleIds dangerous m e = map fst (filter (\<lambda>(i, role). is_admin_role dangerous e i role) m)"

text \<open>\<open>left\<close> is \<open>maxDepth - depth\<close> here. Every role named as a parent is in the map of a validated policy;
  an unknown one would not be descended into.\<close>

primrec buildNode :: "nat \<Rightarrow> string list \<Rightarrow> role_map \<Rightarrow> perm_map \<Rightarrow> nat \<Rightarrow> string list \<Rightarrow> string \<times> RbacRole \<Rightarrow> RoleHierarchyNode" where
  "buildNode 0 dangerous m e depth visited ir =
     HNode (fst ir) (rr_name (snd ir)) depth [] (sort (perms_of e (fst ir)))
       (rr_isAdmin (snd ir) \<or> admin_name (rr_name (snd ir)) \<or> list_ex (\<lambda>p. p \<in> set dangerous) (perms_of e (fst ir)))"
| "buildNode (Suc left) dangerous m e depth visited ir =
     HNode (fst ir) (rr_name (snd ir)) depth
       (if fst ir \<in> set visited then []
        else map (buildNode left dangerous m e (Suc depth) (visited @ [fst ir]))
               (concat (map (\<lambda>c. case jmap_get m c of None \<Rightarrow> [] | Some role \<Rightarrow> [(c, role)]) (rr_inherits (snd ir)))))
       (sort (perms_of e (fst ir)))
       (rr_isAdmin (snd ir) \<or> admin_name (rr_name (snd ir)) \<or> list_ex (\<lambda>p. p \<in> set dangerous) (perms_of e (fst ir)))"

definition hierarchy_roots :: "RbacRole list \<Rightarrow> RbacRole list" where
  "hierarchy_roots roles = filter (\<lambda>r. rr_id r \<notin> set (concat (map rr_inherits roles))) roles"

definition buildHierarchy :: "nat \<Rightarrow> string list \<Rightarrow> RbacRole list \<Rightarrow> role_map \<Rightarrow> perm_map \<Rightarrow> RoleHierarchyNode list" where
  "buildHierarchy maxDepth dangerous roles m e =
     map (\<lambda>r. buildNode maxDepth dangerous m e 0 [] (rr_id r, r)) (hierarchy_roots roles)"

section \<open>Privilege escalation\<close>

text \<open>Depth-first search for an admin role among the ancestors; the set of visited roles is copied on every
  descent, so it holds the roles on the path.\<close>

function find_chain :: "role_map \<Rightarrow> string list \<Rightarrow> string list \<Rightarrow> string list \<Rightarrow> string \<Rightarrow> string list"
  and find_in :: "role_map \<Rightarrow> string list \<Rightarrow> string list \<Rightarrow> string list \<Rightarrow> string list \<Rightarrow> string list" where
  "find_chain m admins chain visited i =
     (if i \<in> set visited then []
      else (case jmap_get m i of None \<Rightarrow> [] | Some role \<Rightarrow> find_in m admins chain (visited @ [i]) (rr_inherits role)))"
| "find_in m admins chain visited [] = []"
| "find_in m admins chain visited (p # ps) =
     (if p \<in> set admins then chain @ [p]
      else (let deeper = find_chain m admins (chain @ [p]) visited p
            in if length deeper > 0 then deeper else find_in m admins chain visited ps))"
  by pat_completeness auto

termination
proof (relation "measures [\<lambda>x. case x of Inl (m, a, c, v, i) \<Rightarrow> card (set (jmap_keys m) - set v) | Inr (m, a, c, v, ps) \<Rightarrow> card (set (jmap_keys m) - set v),
    \<lambda>x. case x of Inl _ \<Rightarrow> 0 | Inr (m, a, c, v, ps) \<Rightarrow> Suc (length ps)]", goal_cases)
  case (2 m admins chain visited i role)
  then have "i \<in> set (jmap_keys m) - set visited" by (auto dest: map_of_SomeD intro: image_eqI [where x = "(i, role)"])
  then have "card (set (jmap_keys m) - set (visited @ [i])) < card (set (jmap_keys m) - set visited)"
    by (intro psubset_card_mono) auto
  then show ?case by simp
qed auto

definition backtick :: string where "backtick = [CHR 0x60]"
definition arrow :: string where "arrow = '' '' @ [CHR 0xE2, CHR 0x86, CHR 0x92] @ '' ''"

definition escalation :: "RbacUser \<Rightarrow> string \<Rightarrow> RbacRole \<Rightarrow> string \<Rightarrow> Severity \<Rightarrow> string \<Rightarrow> PrivilegeEscalationFinding" where
  "escalation user roleId role reason severity remediation =
     \<lparr>pf_userId = ru_id user, pf_userName = ru_name user, pf_roleId = roleId, pf_roleName = rr_name role,
      pf_reason = reason, pf_severity = severity, pf_remediation = remediation\<rparr>"

definition role_escalation :: "string list \<Rightarrow> role_map \<Rightarrow> perm_map \<Rightarrow> string list \<Rightarrow> RbacUser \<Rightarrow> string \<Rightarrow> PrivilegeEscalationFinding list" where
  "role_escalation dangerousSet m e admins user roleId =
     (case jmap_get m roleId of
        None \<Rightarrow> []
      | Some role \<Rightarrow>
          (let dangerous = filter (\<lambda>p. p \<in> set dangerousSet) (perms_of e roleId);
               chain = find_chain m admins [] [] roleId
           in if roleId \<in> set admins \<and> rr_isAdmin role then
                [escalation user roleId role (''Direct assignment of admin role '' @ backtick @ roleId @ backtick @ '' (isAdmin: true).'') CRITICAL
                   (''Verify this admin assignment is intentional, time-bound, and audited. '' @ ''Prefer granting scoped roles over blanket admin access.'')]
              else if length dangerous > 0 then
                [escalation user roleId role
                   (''Role '' @ backtick @ roleId @ backtick @ '' grants dangerous permission(s): ''
                      @ join '', '' (map (\<lambda>p. backtick @ p @ backtick) dangerous) @ ''.'')
                   (if list_ex (\<lambda>p. p \<in> set dangerous) [''*'', ''sudo'', ''admin:*'', ''impersonate:users''] then CRITICAL else HIGH)
                   (''Replace wildcard / admin permissions with fine-grained scoped permissions '' @ ''following the principle of least privilege.'')]
              else if roleId \<in> set admins \<and> admin_name (rr_name role) then
                [escalation user roleId role
                   (''Role name '' @ backtick @ rr_name role @ backtick @ '' matches admin pattern '' @ [CHR 0xE2, CHR 0x80, CHR 0x94]
                      @ '' admin-level access implied.'') HIGH
                   ''Rename the role to something more granular and strip any unnecessary permissions.'']
              else if length chain > 0 then
                [escalation user roleId role
                   (''Privilege escalation via inheritance chain: '' @ backtick @ join arrow (roleId # chain) @ backtick @ ''.'') HIGH
                   (''Break the inheritance chain by splitting roles into least-privilege '' @ ''components and removing the admin role from the inheritance path.'')]
              else []))"

definition detectPrivilegeEscalation :: "string list \<Rightarrow> RbacUser list \<Rightarrow> role_map \<Rightarrow> perm_map \<Rightarrow> string list \<Rightarrow> PrivilegeEscalationFinding list" where
  "detectPrivilegeEscalation dangerous users m e admins =
     concat (map (\<lambda>user. concat (map (role_escalation dangerous m e admins user) (ru_roles user))) users)"

section \<open>Least privilege and the scan\<close>

definition user_permissions :: "perm_map \<Rightarrow> RbacUser \<Rightarrow> string list" where
  "user_permissions e user = foldl (\<lambda>s r. add_all s (perms_of e r)) [] (ru_roles user)"

definition excessive :: "string list \<Rightarrow> string \<Rightarrow> bool" where
  "excessive dangerous p = (p = ''*'' \<or> endsWith p '':*'' \<or> p \<in> set dangerous)"

definition user_violation :: "string list \<Rightarrow> perm_map \<Rightarrow> RbacUser \<Rightarrow> LeastPrivilegeViolation list" where
  "user_violation dangerous e user =
     (let ex = filter (excessive dangerous) (user_permissions e user)
      in if length ex > 0 then
           [\<lparr>lv_userId = ru_id user, lv_userName = ru_name user, lv_excessivePermissions = sort ex,
             lv_severity = (if list_ex (\<lambda>p. p = ''*'' \<or> p = ''admin:*'' \<or> p = ''sudo'') ex then CRITICAL else HIGH),
             lv_remediation = ''Replace wildcard/admin permissions with scoped permissions covering only '' @ ''the resources and actions this user legitimately needs.''\<rparr>]
         else [])"

definition detectLeastPrivilegeViolations :: "string list \<Rightarrow> RbacUser list \<Rightarrow> perm_map \<Rightarrow> LeastPrivilegeViolation list" where
  "detectLeastPrivilegeViolations dangerous users e = concat (map (user_violation dangerous e) users)"

definition rbac_scan :: "RbacMapper \<Rightarrow> int \<Rightarrow> jsval \<Rightarrow> jsval \<Rightarrow> rbac_error + RbacScanResult" where
  "rbac_scan mapper now policy options =
     (case validateOptions options of
        Some e \<Rightarrow> Inl e
      | None \<Rightarrow> (case validatePolicy policy of
          Inl e \<Rightarrow> Inl e
        | Inr (roles, users) \<Rightarrow>
            (let m = buildRoleMap roles;
                 e = resolveAllPermissions (rm_maxDepth mapper) m;
                 dangerous = rm_dangerousPermissions mapper;
                 hierarchy = buildHierarchy (rm_maxDepth mapper) dangerous roles m e;
                 admins = resolveAdminRoleIds dangerous m e;
                 escalations = detectPrivilegeEscalation dangerous users m e admins;
                 violations = detectLeastPrivilegeViolations dangerous users e;
                 status = (if length escalations + length violations > 0 then ''VIOLATIONS_FOUND'' else ''SAFE'')
             in Inr \<lparr>rs_status = status, rs_escalationFindings = escalations, rs_leastPrivilegeViolations = violations,
                  rs_roleHierarchy = hierarchy,
                  rs_adminUsers = filter (\<lambda>u. list_ex (\<lambda>r. r \<in> set admins) (ru_roles u)) users,
                  rs_totalUsers = length users, rs_totalRoles = length roles,
                  rs_summary = (if status = ''SAFE''
                    then [CHR 0xE2, CHR 0x9C, CHR 0x85] @ '' No RBAC violations detected '' @ [CHR 0xE2, CHR 0x80, CHR 0x94] @ '' least privilege appears enforced''
                    else [CHR 0xE2, CHR 0x9D, CHR 0x8C] @ '' '' @ show_nat (length escalations) @ '' privilege escalation finding(s), ''
                      @ show_nat (length violations) @ '' least-privilege violation(s)''),
                  rs_scanTimestamp = iso_date now\<rparr>)))"

section \<open>The report\<close>

abbreviation nl2 :: string where "nl2 \<equiv> [CHR 0x0A, CHR 0x0A]"
abbreviation nl1 :: string where "nl1 \<equiv> [CHR 0x0A]"

fun renderHierarchy :: "nat \<Rightarrow> RoleHierarchyNode list \<Rightarrow> string" where
  "renderHierarchy depth [] = []"
| "renderHierarchy depth (HNode i name d children perms adm # rest) =
     concat (replicate depth ''  '') @ ''- '' @ backtick @ i @ backtick @ '' **'' @ name @ ''**''
     @ (if adm then '' '' @ [CHR 0xF0, CHR 0x9F, CHR 0x91, CHR 0x91] else [])
     @ (if length perms > 0 then '' _('' @ show_nat (length perms) @ '' permission'' @ (if length perms \<noteq> 1 then ''s'' else []) @ '')_'' else [])
     @ nl1 @ (if length children > 0 then renderHierarchy (Suc depth) children else []) @ renderHierarchy depth rest"

definition admin_line :: "RbacUser \<Rightarrow> string" where
  "admin_line u = ''- **'' @ ru_name u @ ''**'' @ (case ru_email u of None \<Rightarrow> [] | Some m \<Rightarrow> '' <'' @ m @ ''>'')
     @ '' '' @ [CHR 0xE2, CHR 0x80, CHR 0x94] @ '' roles: '' @ backtick @ join '', '' (ru_roles u) @ backtick @ nl1"

definition escalation_lines :: "PrivilegeEscalationFinding \<Rightarrow> string" where
  "escalation_lines f = ''- **'' @ pf_roleId f @ ''** ['' @ severity_name (pf_severity f) @ '']'' @ nl1
     @ ''  User **'' @ pf_userName f @ ''** ('' @ backtick @ pf_userId f @ backtick @ ''): '' @ pf_reason f @ nl1
     @ ''  _Remediation:_ '' @ pf_remediation f @ nl2"

definition least_privilege_lines :: "LeastPrivilegeViolation \<Rightarrow> string" where
  "least_privilege_lines v = ''- **'' @ lv_userName v @ ''** ('' @ backtick @ lv_userId v @ backtick @ '') ['' @ severity_name (lv_severity v) @ '']'' @ nl1
     @ ''  Excessive permissions: '' @ backtick @ join (backtick @ '', '' @ backtick) (lv_excessivePermissions v) @ backtick @ nl1
     @ ''  _Remediation:_ '' @ lv_remediation v @ nl2"

text \<open>The findings are printed most severe first; the sort is stable.\<close>

definition rbac_generateReport :: "RbacScanResult \<Rightarrow> string" where
  "rbac_generateReport r =
     ''## '' @ (if rs_status r = ''SAFE'' then [CHR 0xE2, CHR 0x9C, CHR 0x85] else [CHR 0xE2, CHR 0x9D, CHR 0x8C]) @ '' RBAC Access Control Audit'' @ nl2
     @ ''**Status:** '' @ rs_status r @ nl2 @ ''**Scanned at:** '' @ rs_scanTimestamp r @ nl2
     @ ''**Roles:** '' @ show_nat (rs_totalRoles r) @ ''  |  **Users:** '' @ show_nat (rs_totalUsers r) @ nl2 @ rs_summary r @ nl2
     @ ''---'' @ nl2 @ ''### '' @ [CHR 0xF0, CHR 0x9F, CHR 0x97, CHR 0x82, CHR 0xEF, CHR 0xB8, CHR 0x8F] @ '' Role Hierarchy'' @ nl2
     @ (if length (rs_roleHierarchy r) = 0 then ''_No roles defined._'' @ nl2 else renderHierarchy 0 (rs_roleHierarchy r) @ nl1)
     @ ''---'' @ nl2 @ ''### '' @ [CHR 0xF0, CHR 0x9F, CHR 0x91, CHR 0x91] @ '' Admin Users ('' @ show_nat (length (rs_adminUsers r)) @ '')'' @ nl2
     @ (if length (rs_adminUsers r) = 0 then ''_No users with admin roles detected._'' @ nl2
        else concat (map admin_line (rs_adminUsers r)) @ nl1)
     @ ''---'' @ nl2 @ ''### '' @ [CHR 0xF0, CHR 0x9F, CHR 0x9A, CHR 0xA8] @ '' Privilege Escalation Findings ('' @ show_nat (length (rs_escalationFindings r)) @ '')'' @ nl2
     @ (if length (rs_escalationFindings r) = 0 then ''_No privilege escalation paths detected._'' @ nl2
        else concat (map escalation_lines (sort_key (\<lambda>f. 4 - severity_weight (pf_severity f)) (rs_escalationFindings r))))
     @ ''---'' @ nl2 @ ''### '' @ [CHR 0xE2, CHR 0x9A, CHR 0xA0, CHR 0xEF, CHR 0xB8, CHR 0x8F] @ '' Least-Privilege Violations ('' @ show_nat (length (rs_leastPrivilegeViolations r)) @ '')'' @ nl2
     @ (if length (rs_leastPrivilegeViolations r) = 0 then ''_No least-privilege violations detected._'' @ nl2
        else concat (map least_privilege_lines (rs_leastPrivilegeViolations r)))"

section \<open>The inheritance graph\<close>

text \<open>\<open>inherits m a b\<close>: role \<open>a\<close> names \<open>b\<close> as a parent. \<open>grants m i p\<close>: \<open>p\<close> is a permission of \<open>i\<close> or of one
  of its ancestors, which is what inheritance means.\<close>

definition inherits :: "role_map \<Rightarrow> string \<Rightarrow> string \<Rightarrow> bool" where
  "inherits m a b = (case jmap_get m a of None \<Rightarrow> False | Some role \<Rightarrow> b \<in> set (rr_inherits role))"

definition grants :: "role_map \<Rightarrow> string \<Rightarrow> string \<Rightarrow> bool" where
  "grants m i p = (\<exists>b. (inherits m)\<^sup>*\<^sup>* i b \<and> p \<in> set (own_permissions m b))"

lemma set_own: "set (own_permissions m i) = (case jmap_get m i of None \<Rightarrow> {} | Some role \<Rightarrow> set (rr_permissions role))"
  by (auto simp: own_permissions_def split: option.splits)

lemma grants_own: "p \<in> set (own_permissions m i) \<Longrightarrow> grants m i p"
  unfolding grants_def by blast

lemma grants_parent: "inherits m i b \<Longrightarrow> grants m b p \<Longrightarrow> grants m i p"
  unfolding grants_def by (meson converse_rtranclp_into_rtranclp)

lemma grants_cases: "grants m i p \<longleftrightarrow> p \<in> set (own_permissions m i) \<or> (\<exists>b. inherits m i b \<and> grants m b p)"
  unfolding grants_def by (metis converse_rtranclpE converse_rtranclp_into_rtranclp rtranclp.rtrancl_refl)

text \<open>What a cache may hold: only granted permissions.\<close>

definition sound_cache :: "role_map \<Rightarrow> perm_map \<Rightarrow> bool" where
  "sound_cache m c = (\<forall>i ps. jmap_get c i = Some ps \<longrightarrow> (\<forall>p \<in> set ps. grants m i p))"

lemma sound_cache_set: "sound_cache m c \<Longrightarrow> \<forall>p \<in> set ps. grants m i p \<Longrightarrow> sound_cache m (jmap_set i ps c)"
  by (simp add: sound_cache_def jmap_get_set)

lemma resolve_parents_sound:
  assumes "\<And>b c. b \<in> set bs \<Longrightarrow> sound_cache m c \<Longrightarrow> (\<forall>p \<in> set (fst (f b c)). grants m b p) \<and> sound_cache m (snd (f b c))"
    and "\<And>b. b \<in> set bs \<Longrightarrow> inherits m i b" and "\<forall>p \<in> set perms. grants m i p" and "sound_cache m c"
  shows "(\<forall>p \<in> set (fst (resolve_parents f bs perms c)). grants m i p) \<and> sound_cache m (snd (resolve_parents f bs perms c))"
  using assms
proof (induction bs arbitrary: perms c)
  case (Cons b bs)
  obtain pp c' where f: "f b c = (pp, c')" by fastforce
  have "(\<forall>p \<in> set pp. grants m b p) \<and> sound_cache m c'" using Cons.prems(1) [of b c] Cons.prems(4) f by simp
  moreover from this have "\<forall>p \<in> set (add_all perms pp). grants m i p"
    using Cons.prems(2) [of b] Cons.prems(3) grants_parent by auto
  ultimately show ?case using Cons.IH [of "add_all perms pp" c'] Cons.prems(1,2) by (simp add: f)
qed simp

lemma resolve_sound:
  "sound_cache m c \<Longrightarrow> (\<forall>p \<in> set (fst (resolve n m visited i c)). grants m i p) \<and> sound_cache m (snd (resolve n m visited i c))"
proof (induction n arbitrary: visited i c)
  case 0
  then show ?case by (auto simp: sound_cache_def grants_own split: option.splits)
next
  case (Suc n)
  show ?case
  proof (cases "jmap_get c i")
    case (Some ps)
    then show ?thesis using Suc.prems by (simp add: sound_cache_def)
  next
    case None
    show ?thesis
    proof (cases "i \<in> set visited \<or> jmap_get m i = None")
      case True
      then show ?thesis using Suc.prems None by (auto intro: grants_own split: option.splits)
    next
      case False
      then obtain role where role: "jmap_get m i = Some role" by blast
      let ?r = "resolve_parents (resolve n m (visited @ [i])) (rr_inherits role) (add_all [] (rr_permissions role)) c"
      have "(\<forall>p \<in> set (fst ?r). grants m i p) \<and> sound_cache m (snd ?r)"
        using role Suc.prems by (intro resolve_parents_sound Suc.IH) (auto simp: inherits_def set_own intro: grants_own)
      then show ?thesis using None False role by (auto simp: sound_cache_set case_prod_beta)
    qed
  qed
qed

text \<open>No chain of \<open>n\<close> inheritance steps starts at \<open>i\<close>; in particular no cycle can be reached from it.\<close>

definition short :: "role_map \<Rightarrow> nat \<Rightarrow> string \<Rightarrow> bool" where
  "short m n i = (\<nexists>b. (inherits m ^^ n) i b)"

lemma short_parent: "short m (Suc n) i \<Longrightarrow> inherits m i b \<Longrightarrow> short m n b"
  unfolding short_def by (metis relpowp_Suc_I2)

lemma short_acyclic: "short m n i \<Longrightarrow> \<not> (inherits m)\<^sup>+\<^sup>+ i i"
proof
  assume "(inherits m)\<^sup>+\<^sup>+ i i"
  have "\<exists>b. (inherits m ^^ k) i b \<and> (inherits m)\<^sup>+\<^sup>+ b i" for k
  proof (induction k)
    case 0
    then show ?case using \<open>(inherits m)\<^sup>+\<^sup>+ i i\<close> by auto
  next
    case (Suc k)
    then obtain b b' where "(inherits m ^^ k) i b" "inherits m b b'" "(inherits m)\<^sup>*\<^sup>* b' i" by (meson tranclpD)
    then show ?case using \<open>(inherits m)\<^sup>+\<^sup>+ i i\<close> by (meson relpowp_Suc_I rtranclp_tranclp_tranclp)
  qed
  then show "short m n i \<Longrightarrow> False" unfolding short_def by blast
qed

definition exact_cache :: "role_map \<Rightarrow> perm_map \<Rightarrow> bool" where
  "exact_cache m c = (\<forall>i ps. jmap_get c i = Some ps \<longrightarrow> set ps = {p. grants m i p})"

lemma exact_cache_set: "exact_cache m c \<Longrightarrow> set ps = {p. grants m i p} \<Longrightarrow> exact_cache m (jmap_set i ps c)"
  by (simp add: exact_cache_def jmap_get_set)

lemma resolve_parents_exact:
  assumes "\<And>b c. b \<in> set bs \<Longrightarrow> exact_cache m c \<Longrightarrow> set (fst (f b c)) = {p. grants m b p} \<and> exact_cache m (snd (f b c))"
    and "exact_cache m c"
  shows "set (fst (resolve_parents f bs perms c)) = set perms \<union> {p. \<exists>b \<in> set bs. grants m b p}
    \<and> exact_cache m (snd (resolve_parents f bs perms c))"
  using assms
proof (induction bs arbitrary: perms c)
  case (Cons b bs)
  obtain pp c' where f: "f b c = (pp, c')" by fastforce
  have "set pp = {p. grants m b p} \<and> exact_cache m c'" using Cons.prems(1) [of b c] Cons.prems(2) f by simp
  then show ?case using Cons.IH [of c' "add_all perms pp"] Cons.prems(1) by (auto simp: f)
qed simp

lemma resolve_exact:
  "exact_cache m c \<Longrightarrow> short m n i \<Longrightarrow> \<forall>v \<in> set visited. (inherits m)\<^sup>+\<^sup>+ v i \<Longrightarrow>
   set (fst (resolve n m visited i c)) = {p. grants m i p} \<and> exact_cache m (snd (resolve n m visited i c))"
proof (induction n arbitrary: visited i c)
  case 0
  then show ?case by (simp add: short_def)
next
  case (Suc n)
  have nv: "i \<notin> set visited" using Suc.prems(2,3) short_acyclic by blast
  show ?case
  proof (cases "jmap_get c i")
    case (Some ps)
    then show ?thesis using Suc.prems by (simp add: exact_cache_def)
  next
    case None
    show ?thesis
    proof (cases "jmap_get m i")
      case None': None
      then have "\<not> grants m i p" for p using grants_cases [of m i p] by (simp add: set_own inherits_def)
      then show ?thesis using Suc.prems None None' nv by simp
    next
      case (Some role)
      let ?r = "resolve_parents (resolve n m (visited @ [i])) (rr_inherits role) (add_all [] (rr_permissions role)) c"
      have i: "inherits m i b \<longleftrightarrow> b \<in> set (rr_inherits role)" for b by (simp add: inherits_def Some)
      have "set (fst (resolve n m (visited @ [i]) b c')) = {p. grants m b p} \<and> exact_cache m (snd (resolve n m (visited @ [i]) b c'))"
        if "b \<in> set (rr_inherits role)" "exact_cache m c'" for b c'
        using that Suc.prems(2,3) short_parent [of m n i b] by (intro Suc.IH) (auto simp: i [symmetric])
      then have "set (fst ?r) = set (rr_permissions role) \<union> {p. \<exists>b \<in> set (rr_inherits role). grants m b p} \<and> exact_cache m (snd ?r)"
        using resolve_parents_exact [of "rr_inherits role" m "resolve n m (visited @ [i])" c "add_all [] (rr_permissions role)"] Suc.prems(1)
        by simp
      moreover have "{p. grants m i p} = set (rr_permissions role) \<union> {p. \<exists>b \<in> set (rr_inherits role). grants m b p}"
        using grants_cases [of m i] by (auto simp: i [symmetric] set_own Some)
      ultimately show ?thesis using None Some nv by (auto simp: exact_cache_set case_prod_beta)
    qed
  qed
qed

lemma resolve_parents_keeps:
  "(\<And>b c. jmap_get c j \<noteq> None \<Longrightarrow> jmap_get (snd (f b c)) j \<noteq> None) \<Longrightarrow> jmap_get c j \<noteq> None \<Longrightarrow>
   jmap_get (snd (resolve_parents f bs perms c)) j \<noteq> None"
proof (induction bs arbitrary: perms c)
  case (Cons b bs)
  then have "jmap_get (snd (f b c)) j \<noteq> None" by blast
  then show ?case using Cons by (simp add: case_prod_beta)
qed simp

lemma resolve_keeps: "jmap_get c j \<noteq> None \<Longrightarrow> jmap_get (snd (resolve n m visited i c)) j \<noteq> None"
proof (induction n arbitrary: visited i c)
  case (Suc n)
  show ?case using Suc.prems resolve_parents_keeps [of j "resolve n m (visited @ [i])" c] Suc.IH
    by (auto simp: case_prod_beta jmap_get_set split: option.splits)
qed (simp split: option.splits)

lemma resolve_caches: "jmap_get m i \<noteq> None \<Longrightarrow> i \<notin> set visited \<Longrightarrow> jmap_get (snd (resolve (Suc n) m visited i c)) i \<noteq> None"
  by (auto simp: case_prod_beta jmap_get_set split: option.splits)

lemma resolve_all:
  assumes "\<And>i. i \<in> set ids \<Longrightarrow> jmap_get m i \<noteq> None"
  shows "(\<forall>j. j \<in> set ids \<or> jmap_get c j \<noteq> None \<longrightarrow> jmap_get (foldl (\<lambda>c i. snd (resolve (Suc n) m [] i c)) c ids) j \<noteq> None)
    \<and> (sound_cache m c \<longrightarrow> sound_cache m (foldl (\<lambda>c i. snd (resolve (Suc n) m [] i c)) c ids))
    \<and> (exact_cache m c \<longrightarrow> (\<forall>i \<in> set ids. short m (Suc n) i) \<longrightarrow> exact_cache m (foldl (\<lambda>c i. snd (resolve (Suc n) m [] i c)) c ids))"
  using assms
proof (induction ids arbitrary: c)
  case (Cons i ids)
  let ?c = "snd (resolve (Suc n) m [] i c)"
  have "jmap_get ?c j \<noteq> None" if "j = i \<or> jmap_get c j \<noteq> None" for j
    using that resolve_keeps [of c j "Suc n" m "[]" i] resolve_caches [of m i "[]" n c] Cons.prems [of i] by (metis empty_iff empty_set list.set_intros(1))
  moreover have "sound_cache m c \<longrightarrow> sound_cache m ?c" using resolve_sound by blast
  moreover have "exact_cache m c \<longrightarrow> short m (Suc n) i \<longrightarrow> exact_cache m ?c" using resolve_exact [of m c "Suc n" i "[]"] by simp
  ultimately show ?case using Cons.IH [of ?c] Cons.prems by (simp del: resolve.simps)
qed simp

lemma all_permissions:
  "jmap_get m i \<noteq> None \<Longrightarrow> set (perms_of (resolveAllPermissions d m) i) \<subseteq> {p. grants m i p}"
  "(\<And>i. i \<in> set (jmap_keys m) \<Longrightarrow> short m (Suc d) i) \<Longrightarrow> jmap_get m i \<noteq> None \<Longrightarrow>
   set (perms_of (resolveAllPermissions d m) i) = {p. grants m i p}"
proof -
  have k: "j \<in> set (jmap_keys m) \<Longrightarrow> jmap_get m j \<noteq> None" for j by (simp add: map_of_eq_None_iff)
  have n: "sound_cache m []" "exact_cache m []" by (simp_all add: sound_cache_def exact_cache_def)
  note a = resolve_all [where m = m and n = d and c = "[]" and ids = "jmap_keys m", OF k]
  let ?e = "resolveAllPermissions d m"
  have e: "foldl (\<lambda>c i. snd (resolve (Suc d) m [] i c)) [] (jmap_keys m) = ?e" by (simp add: resolveAllPermissions_def del: resolve.simps)
  assume i: "jmap_get m i \<noteq> None"
  then have "i \<in> set (jmap_keys m)" by (metis map_of_eq_None_iff set_map)
  then obtain ps where ps: "jmap_get ?e i = Some ps" using a unfolding e by blast
  show "set (perms_of ?e i) \<subseteq> {p. grants m i p}" using a n(1) ps unfolding e by (auto simp: perms_of_def sound_cache_def)
  show "set (perms_of ?e i) = {p. grants m i p}" if "\<And>i. i \<in> set (jmap_keys m) \<Longrightarrow> short m (Suc d) i"
    using a n(2) ps that unfolding e by (simp add: perms_of_def exact_cache_def)
qed

section \<open>The search for an admin ancestor\<close>

definition leads_to_admin :: "role_map \<Rightarrow> string list \<Rightarrow> string list \<Rightarrow> bool" where
  "leads_to_admin m admins ws = (2 \<le> length ws \<and> successively (inherits m) ws \<and> last ws \<in> set admins)"

lemma find_sound:
  "find_chain m admins chain visited i \<noteq> [] \<Longrightarrow> \<exists>xs. find_chain m admins chain visited i = chain @ xs \<and> leads_to_admin m admins (i # xs)"
  "find_in m admins chain visited ps \<noteq> [] \<Longrightarrow> \<exists>p xs. p \<in> set ps \<and> find_in m admins chain visited ps = chain @ p # xs
     \<and> successively (inherits m) (p # xs) \<and> last (p # xs) \<in> set admins"
proof (induction m admins chain visited i and m admins chain visited ps rule: find_chain_find_in.induct)
  case (1 m admins chain visited i)
  then obtain role where r: "i \<notin> set visited" "jmap_get m i = Some role" "find_in m admins chain (visited @ [i]) (rr_inherits role) \<noteq> []"
    by (auto split: if_splits option.splits)
  obtain p xs where "p \<in> set (rr_inherits role)" "find_in m admins chain (visited @ [i]) (rr_inherits role) = chain @ p # xs"
    "successively (inherits m) (p # xs)" "last (p # xs) \<in> set admins"
    using "1.IH" [OF r] by blast
  then show ?case using r(1,2)
    by (intro exI [of _ "p # xs"]) (simp add: leads_to_admin_def inherits_def)
next
  case (3 m admins chain visited p ps)
  show ?case
  proof (cases "p \<in> set admins")
    case True
    then show ?thesis by (intro exI [of _ p] exI [of _ "[]"]) simp
  next
    case False
    show ?thesis
    proof (cases "find_chain m admins (chain @ [p]) visited p = []")
      case True
      then show ?thesis using "3.IH"(2) [OF False refl] "3.prems" False by (fastforce simp del: find_chain.simps)
    next
      case ne: False
      then obtain xs where "find_chain m admins (chain @ [p]) visited p = chain @ p # xs" "leads_to_admin m admins (p # xs)"
        using "3.IH"(1) [OF False] by auto
      then show ?thesis using False by (intro exI [of _ p] exI [of _ xs]) (simp add: leads_to_admin_def del: find_chain.simps)
    qed
  qed
qed simp

lemma find_in_hit:
  "p \<in> set ps \<Longrightarrow> p \<in> set admins \<or> find_chain m admins (chain @ [p]) visited p \<noteq> [] \<Longrightarrow> find_in m admins chain visited ps \<noteq> []"
  by (induction ps) (auto simp: Let_def simp del: find_chain.simps)

lemma find_complete:
  "leads_to_admin m admins (i # xs) \<Longrightarrow> distinct (i # butlast xs) \<Longrightarrow> set (i # butlast xs) \<inter> set visited = {} \<Longrightarrow>
   find_chain m admins chain visited i \<noteq> []"
proof (induction xs arbitrary: i visited chain)
  case Nil
  then show ?case by (simp add: leads_to_admin_def)
next
  case (Cons x xs)
  then have ih: "inherits m i x" by (simp add: leads_to_admin_def)
  then obtain role where role: "jmap_get m i = Some role" "x \<in> set (rr_inherits role)" by (auto simp: inherits_def split: option.splits)
  have "x \<in> set admins \<or> find_chain m admins (chain @ [x]) (visited @ [i]) x \<noteq> []"
  proof (cases "xs = []")
    case True
    then show ?thesis using Cons.prems(1) by (simp add: leads_to_admin_def)
  next
    case False
    then have "leads_to_admin m admins (x # xs)" using Cons.prems(1) by (cases xs) (auto simp: leads_to_admin_def)
    then show ?thesis using False Cons.prems(2,3) by (intro disjI2 Cons.IH) auto
  qed
  from find_in_hit [OF role(2) this] show ?case using Cons.prems(3) role(1) by simp
qed

text \<open>A way to an admin ancestor can be shortened until it visits no role twice.\<close>

lemma leads_to_admin_cut:
  assumes "leads_to_admin m admins (as @ [y] @ bs @ [y] @ cs @ [l])"
  shows "leads_to_admin m admins (as @ [y] @ cs @ [l])"
  using assms by (auto simp: leads_to_admin_def successively_append_iff successively_Cons)

lemma simple_way:
  assumes "leads_to_admin m admins (i # xs)"
  shows "\<exists>ys. leads_to_admin m admins (i # ys) \<and> distinct (i # butlast ys)"
  using assms
proof (induction "length xs" arbitrary: xs rule: less_induct)
  case less
  have ne: "xs \<noteq> []" using less.prems by (auto simp: leads_to_admin_def)
  show ?case
  proof (cases "distinct (i # butlast xs)")
    case True
    then show ?thesis using less.prems by blast
  next
    case False
    then obtain as bs cs y where d: "i # butlast xs = as @ [y] @ bs @ [y] @ cs" using not_distinct_decomp by blast
    have "i # xs = (i # butlast xs) @ [last xs]" using ne by simp
    then have full: "i # xs = as @ [y] @ bs @ [y] @ cs @ [last xs]" unfolding d by simp
    then have cut: "leads_to_admin m admins (as @ [y] @ cs @ [last xs])" using leads_to_admin_cut less.prems by metis
    obtain zs where zs: "as @ [y] @ cs @ [last xs] = i # zs" using full by (cases as) auto
    have "length (i # zs) < length (i # xs)" unfolding full zs [symmetric] by simp
    then show ?thesis using less.hyps [of zs] cut zs by simp
  qed
qed

lemma admin_ancestor_iff:
  "find_chain m admins [] [] i \<noteq> [] \<longleftrightarrow> (\<exists>b \<in> set admins. (inherits m)\<^sup>+\<^sup>+ i b)"
proof
  have way: "successively (inherits m) (i # xs) \<Longrightarrow> xs \<noteq> [] \<Longrightarrow> (inherits m)\<^sup>+\<^sup>+ i (last xs)" for i xs
    by (induction xs arbitrary: i) (force intro: tranclp_trans tranclp.r_into_trancl split: if_splits)+
  assume "find_chain m admins [] [] i \<noteq> []"
  then obtain xs where "leads_to_admin m admins (i # xs)" using find_sound(1) by blast
  then show "\<exists>b \<in> set admins. (inherits m)\<^sup>+\<^sup>+ i b" using way [of i xs] by (auto simp: leads_to_admin_def split: if_splits)
next
  have way: "(inherits m)\<^sup>+\<^sup>+ a b \<Longrightarrow> \<exists>xs. xs \<noteq> [] \<and> successively (inherits m) (a # xs) \<and> last xs = b" for a b
  proof (induction rule: converse_tranclp_induct)
    case (base a)
    then show ?case by (intro exI [of _ "[b]"]) simp
  next
    case (step a c)
    then obtain xs where "xs \<noteq> []" "successively (inherits m) (c # xs)" "last xs = b" by blast
    then show ?case using step.hyps(1) by (intro exI [of _ "c # xs"]) simp
  qed
  assume "\<exists>b \<in> set admins. (inherits m)\<^sup>+\<^sup>+ i b"
  then obtain b xs where "b \<in> set admins" "xs \<noteq> []" "successively (inherits m) (i # xs)" "last xs = b" using way by blast
  then have "leads_to_admin m admins (i # xs)" by (cases xs) (simp_all add: leads_to_admin_def)
  then show "find_chain m admins [] [] i \<noteq> []" using simple_way find_complete [of m admins i] by (metis inf_bot_right set_empty)
qed

section \<open>What a scan finds\<close>

lemma role_map_build:
  assumes "distinct (map rr_id roles)"
  shows "jmap_ok (buildRoleMap roles)" "set (jmap_keys (buildRoleMap roles)) = rr_id ` set roles"
    "role \<in> set roles \<Longrightarrow> jmap_get (buildRoleMap roles) (rr_id role) = Some role"
proof -
  have "jmap_ok m \<Longrightarrow> distinct (map rr_id roles) \<Longrightarrow> rr_id ` set roles \<inter> set (jmap_keys m) = {} \<Longrightarrow>
      jmap_ok (foldl (\<lambda>m r. jmap_set (rr_id r) r m) m roles)
      \<and> set (jmap_keys (foldl (\<lambda>m r. jmap_set (rr_id r) r m) m roles)) = set (jmap_keys m) \<union> rr_id ` set roles
      \<and> (\<forall>i. i \<notin> rr_id ` set roles \<longrightarrow> jmap_get (foldl (\<lambda>m r. jmap_set (rr_id r) r m) m roles) i = jmap_get m i)
      \<and> (\<forall>r \<in> set roles. jmap_get (foldl (\<lambda>m r. jmap_set (rr_id r) r m) m roles) (rr_id r) = Some r)" for m
  proof (induction roles arbitrary: m)
    case (Cons r rs)
    have k: "set (jmap_keys (jmap_set (rr_id r) r m)) = insert (rr_id r) (set (jmap_keys m))" by (simp add: dom_update)
    have "rr_id ` set rs \<inter> set (jmap_keys (jmap_set (rr_id r) r m)) = {}" unfolding k using Cons.prems by auto
    then show ?case using Cons.IH [of "jmap_set (rr_id r) r m"] Cons.prems k by (auto simp: jmap_ok_set jmap_get_set)
  qed simp
  from this [of "[]"] assms show "jmap_ok (buildRoleMap roles)" "set (jmap_keys (buildRoleMap roles)) = rr_id ` set roles"
    "role \<in> set roles \<Longrightarrow> jmap_get (buildRoleMap roles) (rr_id role) = Some role"
    by (simp_all add: buildRoleMap_def jmap_ok_def)
qed

lemma check_roles_ok:
  "check_roles rs ids = Inr ids' \<Longrightarrow> distinct ids \<Longrightarrow> ids' = ids @ map (rr_id \<circ> role_of) rs \<and> distinct ids'"
  by (induction rs ids rule: check_roles.induct) (fastforce split: if_splits)+

lemma check_parents_ok: "check_parents ids roles = None \<Longrightarrow> \<forall>r \<in> set roles. set (rr_inherits r) \<subseteq> set ids"
  by (induction roles) (auto simp: unknown_parent_def find_None_iff split: option.splits)

lemma check_users_ok:
  "check_users ids us seen = None \<Longrightarrow> (\<forall>u \<in> set us. set (ru_roles (user_of u)) \<subseteq> set ids) \<and> distinct (map (ru_id \<circ> user_of) us)
     \<and> set (map (ru_id \<circ> user_of) us) \<inter> set seen = {}"
  by (induction ids us seen rule: check_users.induct) (auto simp: find_None_iff split: if_splits option.splits)

text \<open>A policy that passes validation names every role and every user once and refers to known roles only.\<close>

lemma validatePolicy_ok:
  assumes "validatePolicy policy = Inr (roles, users)"
  shows "distinct (map rr_id roles)" "distinct (map ru_id users)"
    "r \<in> set roles \<Longrightarrow> set (rr_inherits r) \<subseteq> rr_id ` set roles" "u \<in> set users \<Longrightarrow> set (ru_roles u) \<subseteq> rr_id ` set roles"
proof -
  obtain rs us ids where p: "check_roles rs [] = Inr ids" "check_parents ids (map role_of rs) = None" "check_users ids us [] = None"
    "roles = map role_of rs" "users = map user_of us"
    using assms by (auto simp: validatePolicy_def split: jsval.splits sum.splits option.splits)
  have i: "ids = map rr_id roles" "distinct ids" using check_roles_ok [OF p(1)] p(4) by auto
  then show "distinct (map rr_id roles)" by simp
  show "r \<in> set roles \<Longrightarrow> set (rr_inherits r) \<subseteq> rr_id ` set roles"
    using check_parents_ok [OF p(2)] p(4) i(1) by (auto simp: image_image)
  show "u \<in> set users \<Longrightarrow> set (ru_roles u) \<subseteq> rr_id ` set roles" "distinct (map ru_id users)"
    using check_users_ok [OF p(3)] p(5) i(1) by (auto simp: image_image)
qed

definition admin_by :: "string list \<Rightarrow> role_map \<Rightarrow> string \<Rightarrow> bool" where
  "admin_by dangerous m i = (case jmap_get m i of None \<Rightarrow> False | Some role \<Rightarrow>
     rr_isAdmin role \<or> admin_name (rr_name role) \<or> admin_name i \<or> (\<exists>p \<in> set dangerous. grants m i p))"

text \<open>
  A role that is admin by its identifier alone is an admin role for those who inherit from it, but assigning it directly is
  not reported.\<close>

definition admin_by_identifier_only :: "string list \<Rightarrow> role_map \<Rightarrow> string \<Rightarrow> bool" where
  "admin_by_identifier_only dangerous m i = (case jmap_get m i of None \<Rightarrow> False | Some role \<Rightarrow>
     admin_name i \<and> \<not> rr_isAdmin role \<and> \<not> admin_name (rr_name role) \<and> \<not> (\<exists>p \<in> set dangerous. grants m i p))"

definition escalates :: "string list \<Rightarrow> role_map \<Rightarrow> string \<Rightarrow> bool" where
  "escalates dangerous m i \<longleftrightarrow>
     (admin_by dangerous m i \<and> \<not> admin_by_identifier_only dangerous m i) \<or> (\<exists>b. (inherits m)\<^sup>+\<^sup>+ i b \<and> admin_by dangerous m b)"

lemma unknown_does_not_escalate: "jmap_get m i = None \<Longrightarrow> \<not> escalates dangerous m i"
  by (auto simp: escalates_def admin_by_def inherits_def dest!: tranclpD)

lemma known_escalates:
  "jmap_get m i = Some role \<Longrightarrow> escalates dangerous m i \<longleftrightarrow> rr_isAdmin role \<or> admin_name (rr_name role)
     \<or> (\<exists>p \<in> set dangerous. grants m i p) \<or> (\<exists>b. (inherits m)\<^sup>+\<^sup>+ i b \<and> admin_by dangerous m b)"
  by (auto simp: escalates_def admin_by_def admin_by_identifier_only_def)

definition bounded_map :: "nat \<Rightarrow> role_map \<Rightarrow> bool" where
  "bounded_map d m = (jmap_ok m \<and> (\<forall>i \<in> set (jmap_keys m). short m (Suc d) i))"

text \<open>What the detectors rely on: whoever resolves the permissions of a bounded hierarchy does so exactly.\<close>

locale permission_resolver =
  fixes resolver :: "nat \<Rightarrow> role_map \<Rightarrow> perm_map"
  assumes exact: "bounded_map d m \<Longrightarrow> jmap_get m i \<noteq> None \<Longrightarrow> set (perms_of (resolver d m) i) = {p. grants m i p}"
begin

lemma admin_ids:
  assumes "bounded_map d m"
  shows "i \<in> set (resolveAdminRoleIds dangerous m (resolver d m)) \<longleftrightarrow> admin_by dangerous m i"
proof -
  let ?e = "resolver d m"
  have keys: "jmap_ok m" using assms by (simp add: bounded_map_def)
  have "i \<in> set (resolveAdminRoleIds dangerous m ?e) \<longleftrightarrow> (\<exists>role. (i, role) \<in> set m \<and> is_admin_role dangerous ?e i role)"
    by (force simp: resolveAdminRoleIds_def)
  also have "\<dots> \<longleftrightarrow> (\<exists>role. jmap_get m i = Some role \<and> is_admin_role dangerous ?e i role)"
    using keys by (metis jmap_ok_def map_of_eq_Some_iff)
  also have "\<dots> \<longleftrightarrow> admin_by dangerous m i"
    using exact [OF assms, of i] by (auto simp: admin_by_def is_admin_role_def list_ex_iff split: option.splits)
  finally show ?thesis .
qed

lemma escalation_of_role:
  assumes "bounded_map d m"
  shows "map (\<lambda>f. (pf_userId f, pf_roleId f))
      (role_escalation dangerous m (resolver d m) (resolveAdminRoleIds dangerous m (resolver d m)) user i)
    = (if escalates dangerous m i then [(ru_id user, i)] else [])"
proof (cases "jmap_get m i")
  case None
  then show ?thesis by (simp add: role_escalation_def unknown_does_not_escalate)
next
  case (Some role)
  let ?e = "resolver d m"
  have d: "filter (\<lambda>p. p \<in> set dangerous) (perms_of ?e i) = [] \<longleftrightarrow> \<not> (\<exists>p \<in> set dangerous. grants m i p)"
    using exact [OF assms, of i] Some by (auto simp: filter_empty_conv)
  have c: "find_chain m (resolveAdminRoleIds dangerous m ?e) [] [] i = [] \<longleftrightarrow> \<not> (\<exists>b. (inherits m)\<^sup>+\<^sup>+ i b \<and> admin_by dangerous m b)"
    using admin_ancestor_iff [of m "resolveAdminRoleIds dangerous m ?e" i] admin_ids [OF assms] by blast
  have a: "rr_isAdmin role \<or> admin_name (rr_name role) \<Longrightarrow> i \<in> set (resolveAdminRoleIds dangerous m ?e)"
    using admin_ids [OF assms] Some by (auto simp: admin_by_def)
  show ?thesis using a d c
    by (simp add: role_escalation_def known_escalates [OF Some] Some Let_def escalation_def del: find_chain.simps)
qed

lemma violation_of_user:
  assumes "bounded_map d m" "\<And>r. r \<in> set (ru_roles user) \<Longrightarrow> jmap_get m r \<noteq> None"
  shows "map lv_userId (user_violation dangerous (resolver d m) user)
    = (if \<exists>r \<in> set (ru_roles user). \<exists>p. grants m r p \<and> excessive dangerous p then [ru_id user] else [])"
proof -
  let ?e = "resolver d m"
  have "set (foldl (\<lambda>s r. add_all s (perms_of ?e r)) s rs) = set s \<union> (\<Union>r \<in> set rs. set (perms_of ?e r))" for s rs
    by (induction rs arbitrary: s) auto
  then have "set (user_permissions ?e user) = (\<Union>r \<in> set (ru_roles user). {p. grants m r p})"
    using assms(2) exact [OF assms(1)] by (simp add: user_permissions_def)
  then show ?thesis by (auto simp: user_violation_def Let_def filter_empty_conv)
qed

end

interpretation resolved: permission_resolver resolveAllPermissions
  by unfold_locales (rule all_permissions(2), auto simp: bounded_map_def)

lemma concat_map_if: "concat (map (\<lambda>x. if P x then [f x] else []) xs) = map f (filter P xs)"
  by (induction xs) auto


lemma short_rank:
  assumes "\<And>a b. inherits m a b \<Longrightarrow> rank b < (rank a :: nat)"
  shows "rank i < n \<Longrightarrow> short m n i"
proof -
  have "(inherits m ^^ n) a b \<Longrightarrow> n \<le> rank a" for n a b
  proof (induction n arbitrary: a)
    case (Suc n)
    then obtain c where "inherits m a c" "(inherits m ^^ n) c b" by (metis relpowp_Suc_E2)
    then show ?case using Suc.IH assms by fastforce
  qed simp
  then show "rank i < n \<Longrightarrow> short m n i" unfolding short_def by (meson leD)
qed

definition demo_role :: "string \<Rightarrow> string \<Rightarrow> string list \<Rightarrow> jsval" where
  "demo_role i p parents = JObject [(''id'', JString i), (''name'', JString ''Staff''), (''permissions'', JArray [JString p]),
     (''inherits'', JArray (map JString parents))]"

definition demo_policy :: jsval where
  "demo_policy = JObject [(''roles'', JArray [demo_role ''r'' ''read'' [''s''], demo_role ''s'' ''sudo'' []]),
     (''users'', JArray [JObject [(''id'', JString ''u''), (''name'', JString ''U''), (''roles'', JArray [JString ''r''])]])]"

definition demo_roles :: "RbacRole list" where
  "demo_roles = [\<lparr>rr_id = ''r'', rr_name = ''Staff'', rr_permissions = [''read''], rr_inherits = [''s''], rr_isAdmin = False\<rparr>,
     \<lparr>rr_id = ''s'', rr_name = ''Staff'', rr_permissions = [''sudo''], rr_inherits = [], rr_isAdmin = False\<rparr>]"

lemma demo_policy_valid:
  "validatePolicy demo_policy = Inr (demo_roles, [\<lparr>ru_id = ''u'', ru_name = ''U'', ru_email = None, ru_roles = [''r'']\<rparr>])"
  by (simp add: validatePolicy_def demo_policy_def demo_roles_def demo_role_def js_prop_def valid_role_def nonblank_def all_nonblank_def trim_def is_ws_def
      role_of_def strings_of_def truthy_def unknown_parent_def valid_user_def user_of_def)

lemma demo_inherits: "inherits (buildRoleMap demo_roles) a b \<longleftrightarrow> a = ''r'' \<and> b = ''s''"
  by (simp add: inherits_def demo_roles_def buildRoleMap_def)


section \<open>Cycles\<close>

text \<open>
  On a cycle the result of a role is computed while one of its ancestors is still open, and then cached: in
  a policy where \<open>a\<close> inherits \<open>b\<close> and \<open>c\<close>, and \<open>b\<close> inherits \<open>a\<close>, the role \<open>b\<close> is granted what \<open>c\<close> has, but is
  recorded without it, so a user of \<open>b\<close> shows no least-privilege violation.\<close>

definition cyclic_roles :: "RbacRole list" where
  "cyclic_roles = [\<lparr>rr_id = ''a'', rr_name = ''A'', rr_permissions = [], rr_inherits = [''b'', ''c''], rr_isAdmin = False\<rparr>,
     \<lparr>rr_id = ''b'', rr_name = ''B'', rr_permissions = [], rr_inherits = [''a''], rr_isAdmin = False\<rparr>,
     \<lparr>rr_id = ''c'', rr_name = ''C'', rr_permissions = [''sudo''], rr_inherits = [], rr_isAdmin = False\<rparr>]"

lemma cycle_hides_permission:
  "grants (buildRoleMap cyclic_roles) ''b'' ''sudo''"
  "user_violation DEFAULT_DANGEROUS_PERMISSIONS (resolveAllPermissions 10 (buildRoleMap cyclic_roles))
     \<lparr>ru_id = ''u'', ru_name = ''U'', ru_email = None, ru_roles = [''b'']\<rparr> = []"
proof -
  let ?m = "buildRoleMap cyclic_roles"
  have "grants ?m ''c'' ''sudo''" by (rule grants_own) (simp add: set_own buildRoleMap_def cyclic_roles_def)
  moreover have "inherits ?m ''a'' ''c''" "inherits ?m ''b'' ''a''" by (simp_all add: inherits_def buildRoleMap_def cyclic_roles_def)
  ultimately show "grants ?m ''b'' ''sudo''" using grants_parent by blast
  show "user_violation DEFAULT_DANGEROUS_PERMISSIONS (resolveAllPermissions 10 ?m)
     \<lparr>ru_id = ''u'', ru_name = ''U'', ru_email = None, ru_roles = [''b'']\<rparr> = []"
    by code_simp
qed

text \<open>A role that is an admin role only by its identifier is assigned without an escalation finding, although
  its holder is listed as an admin user.\<close>

lemma admin_by_id_not_reported:
  "let m = buildRoleMap [\<lparr>rr_id = ''root'', rr_name = ''Ops'', rr_permissions = [], rr_inherits = [], rr_isAdmin = False\<rparr>];
       e = resolveAllPermissions 10 m; admins = resolveAdminRoleIds [] m e
   in admins = [''root''] \<and> role_escalation [] m e admins \<lparr>ru_id = ''u'', ru_name = ''U'', ru_email = None, ru_roles = [''root'']\<rparr> ''root'' = []"
  by code_simp

end
