(* ===== verification/Crypto_Scanner.thy ===== *)
theory Crypto_Scanner
  imports Js_Json Js_Regex "HOL-Library.Product_Lexorder"
begin

text \<open>
  Scanning source text line by line with a library of patterns: what the two pattern scanners share, and
  the scanner for weak cryptography (\<open>crypto-scanner.ts\<close>, \<open>crypto-patterns.ts\<close> under
  \<open>src/audit-guard/src\<close>). A pattern is its data with its detector; a detector that throws is \<open>None\<close> and is
  skipped by the scan. The lines are split by the scan and handed to every detector.
\<close>

section \<open>Lines and findings\<close>

record CodeFinding =
  cf_file :: "string option"
  cf_line :: nat
  cf_snippet :: string
  cf_ruleId :: string
  cf_severity :: Severity
  cf_message :: string
  cf_remediation :: string

type_synonym CryptoFinding = CodeFinding

text \<open>\<open>code.split(/\\r?\\n/)\<close>: a carriage return before a line feed belongs to the separator.\<close>

definition strip_cr :: "string \<Rightarrow> string" where
  "strip_cr s = (if s \<noteq> [] \<and> last s = CHR 0x0D then butlast s else s)"

definition code_lines :: "string \<Rightarrow> string list" where
  "code_lines code = (let ps = split_on CHR 0x0A code in map strip_cr (butlast ps) @ [last ps])"

record Pattern =
  pt_id :: string
  pt_title :: string
  pt_description :: string
  pt_severity :: Severity
  pt_references :: "string list"
  pt_detect :: "string option \<Rightarrow> string list \<Rightarrow> CodeFinding list option"

definition makeFinding :: "string option \<Rightarrow> nat \<Rightarrow> string \<Rightarrow> Severity \<Rightarrow> string \<Rightarrow> string \<Rightarrow> string list \<Rightarrow> CodeFinding" where
  "makeFinding src_file line ruleId severity message remediation lines =
     \<lparr>cf_file = src_file, cf_line = line,
      cf_snippet = trim (if 1 \<le> line \<and> line \<le> length lines then lines ! (line - 1) else []),
      cf_ruleId = ruleId, cf_severity = severity, cf_message = message, cf_remediation = remediation\<rparr>"

text \<open>The loop \<open>for (let i = 0; i < lines.length; i++)\<close> with its \<open>continue\<close>s as a condition.\<close>

definition report_lines ::
  "(nat \<Rightarrow> string \<Rightarrow> bool) \<Rightarrow> string \<Rightarrow> Severity \<Rightarrow> (nat \<Rightarrow> string) \<Rightarrow> string \<Rightarrow> string option \<Rightarrow> string list \<Rightarrow> CodeFinding list" where
  "report_lines hit ruleId severity message remediation src_file lines =
     map (\<lambda>(i, l). makeFinding src_file (i + 1) ruleId severity (message (i + 1)) remediation lines)
       (filter (\<lambda>(i, l). hit i l) (enumerate 0 lines))"

text \<open>\<open>lines.slice(a, b).join("\\n")\<close>.\<close>

definition window :: "nat \<Rightarrow> nat \<Rightarrow> string list \<Rightarrow> string" where
  "window a b lines = join [CHR 0x0A] (take (b - a) (drop a lines))"

section \<open>Patterns for weak cryptography\<close>

definition words :: "string list \<Rightarrow> regex" where
  "words ws = seqs [Boundary, alts (map lit ws), Boundary]"

definition md5Re :: regex where "md5Re = words [''md5'', ''MD5'']"

definition WEAK_HASH_MD5 :: Pattern where
  "WEAK_HASH_MD5 = \<lparr>pt_id = ''WEAK_HASH_MD5'', pt_title = ''Use of MD5 hash function'',
     pt_description = ''MD5 is cryptographically broken and vulnerable to collision attacks. It must not be used for signatures, integrity, or any security-sensitive purpose.'',
     pt_severity = CRITICAL, pt_references = [''https://owasp.org/www-community/vulnerabilities/Insecure_Hash_Algorithm''],
     pt_detect = \<lambda>src_file lines. Some (report_lines (\<lambda>i l. re_test md5Re l) ''WEAK_HASH_MD5'' CRITICAL
       (\<lambda>n. ''MD5 detected on line '' @ show_nat n @ ''. MD5 is broken and unsuitable for security use.'')
       ''Replace MD5 with SHA-256 or SHA-3 for hashing, or a modern authenticated scheme (e.g. HMAC-SHA256) for integrity.''
       src_file lines)\<rparr>"

definition sha1Re :: regex where "sha1Re = words [''sha1'', ''SHA1'', ''sha-1'', ''SHA-1'']"

definition WEAK_HASH_SHA1 :: Pattern where
  "WEAK_HASH_SHA1 = \<lparr>pt_id = ''WEAK_HASH_SHA1'', pt_title = ''Use of SHA-1 hash function'',
     pt_description = ''SHA-1 is deprecated and considered broken for collision resistance. Avoid for signatures, certificates, and integrity checks.'',
     pt_severity = HIGH, pt_references = [''https://owasp.org/www-community/vulnerabilities/Insecure_Hash_Algorithm''],
     pt_detect = \<lambda>src_file lines. Some (report_lines (\<lambda>i l. re_test sha1Re l) ''WEAK_HASH_SHA1'' HIGH
       (\<lambda>n. ''SHA-1 detected on line '' @ show_nat n @ ''. SHA-1 is deprecated and should not be used for security-sensitive operations.'')
       ''Replace SHA-1 with SHA-256 or SHA-3. For code signing or certificates, migrate to stronger algorithms.''
       src_file lines)\<rparr>"

definition desRe :: regex where
  "desRe = words [''des'', ''3des'', ''tripledes'', ''tdea'', ''TDES'', ''TDEA'', ''DES'', ''3DES'', ''TripleDES'']"

definition WEAK_CIPHER_DES :: Pattern where
  "WEAK_CIPHER_DES = \<lparr>pt_id = ''WEAK_CIPHER_DES'', pt_title = ''Use of DES / 3DES block cipher'',
     pt_description = ''DES has an effective 56-bit key and is brute-forceable. 3DES/TDEA is deprecated (Sweet32 attack) and should not be used.'',
     pt_severity = CRITICAL, pt_references = [''https://sweet32.info/''],
     pt_detect = \<lambda>src_file lines. Some (report_lines (\<lambda>i l. re_test desRe l) ''WEAK_CIPHER_DES'' CRITICAL
       (\<lambda>n. ''DES/3DES detected on line '' @ show_nat n @ ''. These ciphers are deprecated and vulnerable to practical attacks.'')
       ''Replace with AES-256-GCM or ChaCha20-Poly1305. Use authenticated encryption with a random IV/nonce.''
       src_file lines)\<rparr>"

definition rc4Re :: regex where "rc4Re = words [''rc4'', ''RC4'', ''arc4'', ''ARC4'']"

definition WEAK_CIPHER_RC4 :: Pattern where
  "WEAK_CIPHER_RC4 = \<lparr>pt_id = ''WEAK_CIPHER_RC4'', pt_title = ''Use of RC4 stream cipher'',
     pt_description = ''RC4 has statistical biases and is prohibited in TLS. It must not be used for encryption.'',
     pt_severity = CRITICAL, pt_references = [''https://tools.ietf.org/html/rfc7465''],
     pt_detect = \<lambda>src_file lines. Some (report_lines (\<lambda>i l. re_test rc4Re l) ''WEAK_CIPHER_RC4'' CRITICAL
       (\<lambda>n. ''RC4 detected on line '' @ show_nat n @ ''. RC4 is broken and banned in modern protocols.'')
       ''Replace RC4 with AES-256-GCM or ChaCha20-Poly1305.'' src_file lines)\<rparr>"

definition weakRsaRe :: regex where
  "weakRsaRe = Alt (seqs [words [''rsa'', ''RSA''], lazily not_eol, words [''512'', ''1024'']])
     (seqs [words [''512'', ''1024''], lazily not_eol, words [''rsa'', ''RSA'']])"

definition WEAK_RSA_KEY_SIZE :: Pattern where
  "WEAK_RSA_KEY_SIZE = \<lparr>pt_id = ''WEAK_RSA_KEY_SIZE'', pt_title = ''Weak RSA key size'',
     pt_description = ''RSA keys smaller than 2048 bits are considered weak. 512-bit and 1024-bit RSA keys have been factored or are within reach of motivated attackers.'',
     pt_severity = HIGH, pt_references = [''https://nvlpubs.nist.gov/nistpubs/SpecialPublications/NIST.SP.800-57pt1r5.pdf''],
     pt_detect = \<lambda>src_file lines. Some (report_lines (\<lambda>i l. re_test weakRsaRe l) ''WEAK_RSA_KEY_SIZE'' HIGH
       (\<lambda>n. ''Weak RSA key size (512 or 1024 bits) detected on line '' @ show_nat n @ ''.'')
       ''Use RSA-2048 as a minimum; prefer RSA-3072 or ECDSA P-256/P-384 for new designs.'' src_file lines)\<rparr>"

definition ecbRe :: regex where
  "ecbRe = alts [words [''ECB''], Seq (lit ''_ECB'') Boundary, words [''ecb'']]"

definition ECB_MODE :: Pattern where
  "ECB_MODE = \<lparr>pt_id = ''ECB_MODE'', pt_title = ''Use of ECB block cipher mode'',
     pt_description = ''ECB mode leaks plaintext structure and is not semantically secure. Never use ECB for confidential data.'',
     pt_severity = HIGH, pt_references = [''https://cryptopals.com/sets/2/challenges/12''],
     pt_detect = \<lambda>src_file lines. Some (report_lines (\<lambda>i l. re_test ecbRe l) ''ECB_MODE'' HIGH
       (\<lambda>n. ''ECB mode detected on line '' @ show_nat n @ ''. ECB leaks plaintext structure and is insecure.'')
       ''Use CBC with a random IV and authentication (e.g. HMAC) or, better, an authenticated mode such as GCM or ChaCha20-Poly1305.''
       src_file lines)\<rparr>"

definition words_i :: "string list \<Rightarrow> regex" where
  "words_i ws = seqs [Boundary, alts (map lit_i ws), Boundary]"

definition quote_mark :: regex where "quote_mark = one_of [CHR 0x22, CHR 0x27, CHR 0x60]"

definition cryptoContextRe :: regex where
  "cryptoContextRe = words [''aes'', ''cipher'', ''encrypt'', ''decrypt'', ''crypto'', ''Crypto'', ''AES'', ''CIPHER'']"

definition hardcodedIvRe :: regex where
  "hardcodedIvRe = seqs [words_i [''iv'', ''nonce'', ''salt'', ''initializationVector''], spaces, one_of '':='', spaces, quote_mark,
     Alt (Seq (lit_i ''0x'') (some1 hex_digit)) (Seq (rep_n 8 hex_digit) (many hex_digit)), quote_mark]"

definition HARDCODED_IV_OR_NONCE :: Pattern where
  "HARDCODED_IV_OR_NONCE = \<lparr>pt_id = ''HARDCODED_IV_OR_NONCE'', pt_title = ''Hardcoded IV or nonce'',
     pt_description = ''A static/hardcoded IV or nonce defeats the security guarantees of symmetric encryption. IVs and nonces must be unique and unpredictable per message.'',
     pt_severity = HIGH, pt_references = [''https://owasp.org/www-community/vulnerabilities/Insecure_Randomness''],
     pt_detect = \<lambda>src_file lines. Some (report_lines
       (\<lambda>i l. re_test hardcodedIvRe l \<and> re_test cryptoContextRe (window (i - 2) (min (length lines) (i + 3)) lines)) ''HARDCODED_IV_OR_NONCE'' HIGH
       (\<lambda>n. ''Hardcoded IV/nonce/salt detected on line '' @ show_nat n @ ''. Static values break confidentiality guarantees.'')
       ''Generate a random IV/nonce for each encryption operation using a cryptographically secure random number generator.''
       src_file lines)\<rparr>"

definition mathRandomRe :: regex where
  "mathRandomRe = seqs [Boundary, lit ''Math.random'', spaces, lit ''('', spaces, lit '')'']"

definition secretContextRe :: regex where
  "secretContextRe = words_i [''key'', ''secret'', ''token'', ''password'', ''nonce'', ''iv'', ''salt'', ''crypto'', ''encrypt'', ''sign'', ''auth'',
     ''randomBytes'', ''rng'']"

definition WEAK_RANDOM_MATH :: Pattern where
  "WEAK_RANDOM_MATH = \<lparr>pt_id = ''WEAK_RANDOM_MATH'', pt_title = ''Math.random() used for security-sensitive randomness'',
     pt_description = ''Math.random() is not cryptographically secure. Using it for keys, nonces, tokens, or secrets is a vulnerability.'',
     pt_severity = HIGH, pt_references = [''https://owasp.org/www-community/vulnerabilities/Insecure_Randomness''],
     pt_detect = \<lambda>src_file lines. Some (report_lines
       (\<lambda>i l. re_test mathRandomRe l \<and> re_test secretContextRe (window (i - 2) (min (length lines) (i + 3)) lines)) ''WEAK_RANDOM_MATH'' HIGH
       (\<lambda>n. ''Math.random() used in a security-sensitive context around line '' @ show_nat n @ ''.'')
       ''Use a cryptographically secure random number generator (e.g. crypto.randomBytes in Node.js, crypto.getRandomValues in browsers, or os.urandom in Python).''
       src_file lines)\<rparr>"

definition CRYPTO_PATTERNS :: "Pattern list" where
  "CRYPTO_PATTERNS = [WEAK_HASH_MD5, WEAK_HASH_SHA1, WEAK_CIPHER_DES, WEAK_CIPHER_RC4, WEAK_RSA_KEY_SIZE, ECB_MODE,
     HARDCODED_IV_OR_NONCE, WEAK_RANDOM_MATH]"

section \<open>The scanner\<close>

record PatternScanResult =
  sc_status :: string
  sc_findings :: "CodeFinding list"
  sc_count :: nat
  sc_summary :: string
  sc_scanTimestamp :: string
  sc_patternIds :: "string list"

definition active_patterns :: "Pattern list \<Rightarrow> string list option \<Rightarrow> Pattern list" where
  "active_patterns patterns only = (case only of None \<Rightarrow> patterns | Some ids \<Rightarrow> filter (\<lambda>p. pt_id p \<in> set ids) patterns)"

definition collect :: "Pattern list \<Rightarrow> string option \<Rightarrow> string list \<Rightarrow> CodeFinding list" where
  "collect active src_file lines = concat (map (\<lambda>p. case pt_detect p src_file lines of None \<Rightarrow> [] | Some fs \<Rightarrow> fs) active)"

text \<open>Most severe first, then by line; the language's sort is stable.\<close>

definition scan_order :: "CodeFinding \<Rightarrow> nat \<times> nat" where
  "scan_order f = (4 - severity_weight (cf_severity f), cf_line f)"

definition crypto_scan :: "Pattern list \<Rightarrow> int \<Rightarrow> string \<Rightarrow> string option \<Rightarrow> string list option \<Rightarrow> PatternScanResult" where
  "crypto_scan patterns now code src_file only =
     (let active = active_patterns patterns only;
          findings = sort_key scan_order (collect active src_file (code_lines code));
          status = (if length findings = 0 then ''SAFE'' else ''VULNERABLE'')
      in \<lparr>sc_status = status, sc_findings = findings, sc_count = length findings,
          sc_summary = (if status = ''SAFE'' then ''No weak cryptographic primitives detected''
            else show_nat (length findings) @ '' weak-crypto finding(s) '' @ [CHR 0xE2, CHR 0x80, CHR 0x94] @ '' review before merging''),
          sc_scanTimestamp = iso_date now, sc_patternIds = map pt_id active\<rparr>)"

text \<open>The report of both scanners; they differ in the heading.\<close>

abbreviation lf :: string where "lf \<equiv> [CHR 0x0A]"

definition finding_lines :: "CodeFinding \<Rightarrow> string" where
  "finding_lines f = ''- **'' @ cf_ruleId f @ ''** ['' @ severity_name (cf_severity f) @ ''] ''
     @ (if cf_line f \<noteq> 0 then ''(line '' @ show_nat (cf_line f) @ '')'' else []) @ lf
     @ ''  '' @ cf_message f @ lf @ ''  ```'' @ lf @ ''  '' @ cf_snippet f @ lf @ ''  ```'' @ lf
     @ ''  _Remediation:_ '' @ cf_remediation f @ lf @ lf"

definition pattern_report :: "string \<Rightarrow> PatternScanResult \<Rightarrow> string" where
  "pattern_report heading r =
     ''## '' @ (if sc_status r = ''SAFE'' then [CHR 0xE2, CHR 0x9C, CHR 0x85] else [CHR 0xE2, CHR 0x9D, CHR 0x8C]) @ '' '' @ heading @ lf @ lf
     @ (case sc_findings r of [] \<Rightarrow> [] | f # _ \<Rightarrow>
          (case cf_file f of None \<Rightarrow> [] | Some n \<Rightarrow> if n \<noteq> [] then ''**File:** `'' @ n @ ''`'' @ lf @ lf else []))
     @ ''**Status:** '' @ sc_status r @ lf @ lf @ ''**Scanned at:** '' @ sc_scanTimestamp r @ lf @ lf @ sc_summary r @ lf @ lf
     @ ''**Patterns evaluated:** '' @ show_nat (length (sc_patternIds r)) @ lf @ lf
     @ (if length (sc_findings r) = 0 then []
        else ''### '' @ [CHR 0xE2, CHR 0x9D, CHR 0x8C] @ '' Findings'' @ lf @ lf @ concat (map finding_lines (sc_findings r)))"

definition crypto_generateReport :: "PatternScanResult \<Rightarrow> string" where
  "crypto_generateReport = pattern_report ''Weak Cryptographic Primitive Scan''"

section \<open>Whole words\<close>

text \<open>A word of the list occurs in the text and is not part of a longer word.\<close>

definition has_word :: "string list \<Rightarrow> string \<Rightarrow> bool" where
  "has_word ws s = (\<exists>w \<in> set ws. \<exists>u v. s = u @ w @ v \<and> (u = [] \<or> \<not> word_char (last u)) \<and> (v = [] \<or> \<not> word_char (hd v)))"

definition plain_word :: "string \<Rightarrow> bool" where
  "plain_word w = (w \<noteq> [] \<and> word_char (hd w) \<and> word_char (last w))"

lemma matches_alts: "rs \<noteq> [] \<Longrightarrow> matches (alts rs) p q \<longleftrightarrow> (\<exists>r \<in> set rs. matches r p q)"
  by (induction rs rule: alts.induct) (auto simp: matches_simps)

lemma first_is_word_hd: "first_is_word v \<longleftrightarrow> v \<noteq> [] \<and> word_char (hd v)"
  by (cases v) (auto simp: first_is_word_def)

lemma re_test_words:
  assumes "ws \<noteq> []" "list_all plain_word ws"
  shows "re_test (words ws) s \<longleftrightarrow> has_word ws s"
proof -
  have m: "(\<exists>q. matches (words ws) (rev u, v) q) \<longleftrightarrow> (\<exists>w \<in> set ws. \<exists>v'. v = w @ v' \<and> (u = [] \<or> \<not> word_char (last u)) \<and> (v' = [] \<or> \<not> word_char (hd v')))"
    (is "?l = ?r") for u v
  proof -
    have "?l \<longleftrightarrow> (\<exists>w \<in> set ws. \<exists>v'. v = w @ v' \<and> at_boundary (rev u, w @ v') \<and> at_boundary (rev w @ rev u, v'))"
      using assms(1) by (auto simp: words_def matches_simps matches_alts matches_lit)
    also have "\<dots> \<longleftrightarrow> ?r"
      using assms(2) by (intro bex_cong refl) (auto simp: at_boundary_def first_is_word_hd list_all_iff plain_word_def hd_rev hd_append)
    finally show ?thesis .
  qed
  have "re_test (words ws) s \<longleftrightarrow> (\<exists>u v. s = u @ v \<and> (\<exists>q. matches (words ws) (rev u, v) q))" unfolding re_test_iff by blast
  then show ?thesis unfolding m has_word_def by blast
qed

section \<open>The scan is exact\<close>

lemma set_report_lines:
  "f \<in> set (report_lines hit rid sev msg rem src_file lines) \<longleftrightarrow>
   (\<exists>i < length lines. hit i (lines ! i) \<and> f = makeFinding src_file (i + 1) rid sev (msg (i + 1)) rem lines)"
  by (force simp: report_lines_def in_set_enumerate_eq)

lemma set_collect: "f \<in> set (collect ps src_file lines) \<longleftrightarrow> (\<exists>p \<in> set ps. \<exists>fs. pt_detect p src_file lines = Some fs \<and> f \<in> set fs)"
  by (force simp: collect_def split: option.splits)

lemma makeFinding_simps [simp]:
  "cf_line (makeFinding a n c d e g h) = n" "cf_ruleId (makeFinding a n c d e g h) = c" "cf_severity (makeFinding a n c d e g h) = d"
  by (simp_all add: makeFinding_def)

lemmas crypto_pattern_defs = WEAK_HASH_MD5_def WEAK_HASH_SHA1_def WEAK_CIPHER_DES_def WEAK_CIPHER_RC4_def WEAK_RSA_KEY_SIZE_def ECB_MODE_def
  HARDCODED_IV_OR_NONCE_def WEAK_RANDOM_MATH_def

definition reported :: "PatternScanResult \<Rightarrow> string \<Rightarrow> nat \<Rightarrow> bool" where
  "reported r rule n = list_ex (\<lambda>f. cf_ruleId f = rule \<and> cf_line f = n) (sc_findings r)"

text \<open>A library whose patterns report under their own identifiers.\<close>

definition own_rule :: "Pattern \<Rightarrow> bool" where
  "own_rule p = (\<forall>src_file lines fs. pt_detect p src_file lines = Some fs \<longrightarrow> (\<forall>f \<in> set fs. cf_ruleId f = pt_id p))"

lemma collect_rule:
  assumes "list_all own_rule ps" "distinct (map pt_id ps)" "p \<in> set ps" "pt_detect p src_file lines = Some fs" "cf_ruleId f = pt_id p"
  shows "f \<in> set (collect ps src_file lines) \<longleftrightarrow> f \<in> set fs"
proof
  assume "f \<in> set (collect ps src_file lines)"
  then obtain q gs where q: "q \<in> set ps" "pt_detect q src_file lines = Some gs" "f \<in> set gs" unfolding set_collect by blast
  then have "pt_id q = pt_id p" using assms(1,5) by (metis list_all_iff own_rule_def)
  then have "q = p" using assms(2,3) q(1) by (metis distinct_map inj_onD)
  then show "f \<in> set fs" using q assms(4) by simp
qed (use assms(3,4) set_collect in blast)

lemma report_rule [simp]: "\<forall>f \<in> set (report_lines hit rid sev msg rem src_file lines). cf_ruleId f = rid"
  by (auto simp: set_report_lines)

lemma crypto_library: "list_all own_rule CRYPTO_PATTERNS" "distinct (map pt_id CRYPTO_PATTERNS)"
  by (simp_all add: CRYPTO_PATTERNS_def crypto_pattern_defs own_rule_def)

lemma reported_line:
  assumes "p \<in> set CRYPTO_PATTERNS" "pt_detect p src_file (code_lines code) = Some (report_lines hit (pt_id p) sev msg rem src_file (code_lines code))"
    "i < length (code_lines code)"
  shows "reported (crypto_scan CRYPTO_PATTERNS now code src_file None) (pt_id p) (i + 1) = hit i (code_lines code ! i)"
proof -
  let ?c = "collect CRYPTO_PATTERNS src_file (code_lines code)"
  have "reported (crypto_scan CRYPTO_PATTERNS now code src_file None) (pt_id p) (i + 1)
      \<longleftrightarrow> (\<exists>f \<in> set ?c. cf_ruleId f = pt_id p \<and> cf_line f = i + 1)"
    by (simp add: reported_def crypto_scan_def Let_def list_ex_iff active_patterns_def)
  also have "\<dots> \<longleftrightarrow> (\<exists>f \<in> set (report_lines hit (pt_id p) sev msg rem src_file (code_lines code)). cf_ruleId f = pt_id p \<and> cf_line f = i + 1)"
    using collect_rule [OF crypto_library assms(1,2)] by blast
  also have "\<dots> \<longleftrightarrow> hit i (code_lines code ! i)" using assms(3) unfolding Bex_def set_report_lines by auto
  finally show ?thesis .
qed

text \<open>
  C16. The weak-crypto scan is exact for the broken primitives and ordered. A line is reported for MD5, SHA-1,
  DES or RC4 exactly when one of the spellings of that primitive occurs in it as a whole word; the findings
  of all patterns are listed most severe first and then by line, none lost or added; and the code is SAFE
  exactly when there is none.\<close>

theorem crypto_scan_exact:
  "let r = crypto_scan CRYPTO_PATTERNS now code src_file None; ls = code_lines code in
     list_all (\<lambda>(rule, ws). list_all (\<lambda>i. reported r rule (i + 1) = has_word ws (ls ! i)) [0..<length ls])
       [(''WEAK_HASH_MD5'', [''md5'', ''MD5'']), (''WEAK_HASH_SHA1'', [''sha1'', ''SHA1'', ''sha-1'', ''SHA-1'']),
        (''WEAK_CIPHER_DES'', [''des'', ''3des'', ''tripledes'', ''tdea'', ''TDES'', ''TDEA'', ''DES'', ''3DES'', ''TripleDES'']),
        (''WEAK_CIPHER_RC4'', [''rc4'', ''RC4'', ''arc4'', ''ARC4''])]
   \<and> sorted (map scan_order (sc_findings r)) \<and> mset (sc_findings r) = mset (collect CRYPTO_PATTERNS src_file ls)
   \<and> (sc_status r = ''SAFE'' \<longleftrightarrow> sc_findings r = [])"
proof -
  let ?r = "crypto_scan CRYPTO_PATTERNS now code src_file None" and ?ls = "code_lines code"
  have w: "list_all plain_word [''md5'', ''MD5'']" "list_all plain_word [''sha1'', ''SHA1'', ''sha-1'', ''SHA-1'']"
    "list_all plain_word [''des'', ''3des'', ''tripledes'', ''tdea'', ''TDES'', ''TDEA'', ''DES'', ''3DES'', ''TripleDES'']"
    "list_all plain_word [''rc4'', ''RC4'', ''arc4'', ''ARC4'']"
    by (simp_all add: plain_word_def word_char_def)
  have ids: "pt_id WEAK_HASH_MD5 = ''WEAK_HASH_MD5''" "pt_id WEAK_HASH_SHA1 = ''WEAK_HASH_SHA1''" "pt_id WEAK_CIPHER_DES = ''WEAK_CIPHER_DES''"
    "pt_id WEAK_CIPHER_RC4 = ''WEAK_CIPHER_RC4''" by (simp_all add: crypto_pattern_defs)
  have "reported ?r ''WEAK_HASH_MD5'' (i + 1) = has_word [''md5'', ''MD5''] (?ls ! i)"
    "reported ?r ''WEAK_HASH_SHA1'' (i + 1) = has_word [''sha1'', ''SHA1'', ''sha-1'', ''SHA-1''] (?ls ! i)"
    "reported ?r ''WEAK_CIPHER_DES'' (i + 1)
       = has_word [''des'', ''3des'', ''tripledes'', ''tdea'', ''TDES'', ''TDEA'', ''DES'', ''3DES'', ''TripleDES''] (?ls ! i)"
    "reported ?r ''WEAK_CIPHER_RC4'' (i + 1) = has_word [''rc4'', ''RC4'', ''arc4'', ''ARC4''] (?ls ! i)" if "i < length ?ls" for i
    unfolding ids [symmetric] w [THEN re_test_words [rotated], simplified, symmetric]
       apply (subst reported_line [OF _ _ that]; simp add: CRYPTO_PATTERNS_def crypto_pattern_defs md5Re_def)
      apply (subst reported_line [OF _ _ that]; simp add: CRYPTO_PATTERNS_def crypto_pattern_defs sha1Re_def)
     apply (subst reported_line [OF _ _ that]; simp add: CRYPTO_PATTERNS_def crypto_pattern_defs desRe_def)
    apply (subst reported_line [OF _ _ that]; simp add: CRYPTO_PATTERNS_def crypto_pattern_defs rc4Re_def)
    done
  moreover have "sc_findings ?r = sort_key scan_order (collect CRYPTO_PATTERNS src_file ?ls)"
    by (simp add: crypto_scan_def Let_def active_patterns_def)
  moreover have "sc_status ?r = ''SAFE'' \<longleftrightarrow> sc_findings ?r = []" by (simp add: crypto_scan_def Let_def)
  ultimately show ?thesis unfolding Let_def by (simp add: list_all_iff)
qed

end
