(* ===== verification/Logic_Detector.thy ===== *)
theory Logic_Detector
  imports Crypto_Scanner
begin

text \<open>
  The logic error detector (\<open>logic-detector.ts\<close>, \<open>logic-patterns.ts\<close> under \<open>src/audit-guard/src\<close>): eleven
  patterns, several of which look at neighbouring lines, and the scan over them.
\<close>

section \<open>Regular expressions\<close>

abbreviation sq :: string where "sq \<equiv> [CHR 0x27]"

definition any_lit :: "string list \<Rightarrow> regex" where "any_lit ws = alts (map lit ws)"

definition callRe :: regex where
  "callRe = seqs [some1 word_re, lit ''.'', any_lit [''call'', ''send'', ''delegatecall'', ''staticcall''], spaces, one_of ''({'']"

definition stateWriteRe :: regex where
  "stateWriteRe = seqs [any_lit [''balance'', ''amount'', ''total'', ''allowance''], many word_re, Boundary, spaces,
     opt (seqs [lit ''['', lazily dot, lit '']'']), spaces, lit ''='', none_of ''='']"

definition intAssign :: regex where
  "intAssign = seqs [Boundary, opt (lit ''u''), lit ''int'', any_lit [''8'', ''16'', ''32'', ''64'', ''128'', ''256''], Boundary, some1 space,
     Grp 1 (some1 word_re), spaces, lit ''='', spaces, Grp 2 (some1 digit), Boundary]"

definition infinitePatterns :: "regex list" where
  "infinitePatterns = [seqs [Boundary, lit ''while'', spaces, lit ''('', spaces, lit ''true'', spaces, lit '')''],
     seqs [Boundary, lit ''for'', spaces, lit ''('', spaces, lit '';'', spaces, lit '';'', spaces, lit '')'']]"

definition lower_letter :: regex where "lower_letter = Cls (in_range CHR ''a'' CHR ''z'')"

definition dynamic_bound :: "string \<Rightarrow> bool" where
  "dynamic_bound l =
     (re_test (seqs [Boundary, lit ''for'', spaces, lit ''('']) l
      \<and> re_test (Seq (lit ''.length'') Boundary) l
      \<and> \<not> re_test (alts [lit ''MAX_'', lit ''limit'', lit ''bound'', seqs [lit ''<='', opt (lit '' ''), spaces, digit]]) l
      \<and> re_test (seqs [Boundary, lit ''for'', spaces, lit ''('', spaces, opt (Seq (lit ''uint'') (some1 space)), Seq lower_letter (up_to 2 lower_letter),
          some1 space, one_of ''=:'']) l
      \<and> \<not> re_test (seqs [lit '':'', spaces, some1 word_re, lit ''[]'']) l
      \<and> \<not> re_test (seqs [lit ''memory'', some1 space, some1 word_re, lit ''[]'']) l)"

definition transferRe :: regex where
  "transferRe = seqs [lit ''.'', any_lit [''transfer'', ''send'', ''safeTransfer'', ''safeTransferFrom''], spaces, lit ''('']"

definition httpSendRe :: regex where
  "httpSendRe = seqs [Boundary, any_lit [''res'', ''response'', ''reply'', ''resp''], spaces, lit ''.send'', spaces, lit ''('']"

definition zeroAddressRe :: regex where
  "zeroAddressRe = seqs [lit ''address'', spaces, lit ''('', spaces, lit ''0'', spaces, lit '')'']"

definition notZeroAddressRe :: regex where
  "notZeroAddressRe = seqs [lit ''!'', spaces, lit ''='', spaces, zeroAddressRe]"

definition hexRe :: regex where "hexRe = seqs [Boundary, lit ''0x'', rep_n 64 hex_digit, Boundary]"

definition two_quotes :: regex where "two_quotes = one_of [CHR 0x27, CHR 0x22]"

definition node_assert :: "string \<Rightarrow> bool" where
  "node_assert l =
     (re_test (seqs [Boundary, lit ''assert'', spaces, lit ''('', some1 (none_of '')''), lit '','', spaces, quote_mark]) l
      \<or> re_test (seqs [lit ''require'', spaces, lit ''('', spaces, two_quotes, lit ''assert'', two_quotes, spaces, lit '')'']) l
      \<or> re_test (seqs [lit ''import'', some1 space, many dot, words [''assert''], many dot, lit ''from'', some1 space, two_quotes, lit ''assert'', two_quotes]) l
      \<or> re_test (seqs [Boundary, lit ''assert'', spaces, lit ''.'']) l)"

definition todoRe :: regex where
  "todoRe = seqs [words_i [''TODO'', ''FIXME'', ''XXX'', ''HACK''], many not_eol,
     words_i [''auth'', ''verify'', ''signature'', ''login'', ''password'', ''secret'', ''token'', ''key'', ''allow'', ''revoke'', ''grant'',
       ''permission'', ''role'', ''exploit'', ''bypass'']]"

definition lowLevelCallRe :: regex where
  "lowLevelCallRe = seqs [some1 word_re, lit ''.'', any_lit [''call'', ''delegatecall'', ''staticcall''], spaces,
     Alt (seqs [lit ''{'', many (none_of ''}''), lit ''}'']) Eps, spaces, lit ''('']"

definition solidityCallMarker :: regex where
  "solidityCallMarker = alts [lit ''{value:'', lit ''abi.encode'', lit ''abi.encodeWithSignature'', words [''abi'']]"

definition captureRe :: regex where
  "captureRe = alts [seqs [lit ''bool'', some1 space, some1 word_re, spaces, lit ''=''],
     seqs [lit ''='', spaces, many (none_of ''=''), lit ''.'', any_lit [''call'', ''delegatecall'', ''staticcall'']],
     seqs [lit ''('', spaces, lit ''bool'']]"

definition result_checked :: "string \<Rightarrow> bool" where
  "result_checked look =
     (re_test (seqs [Boundary, lit ''require'', spaces, lit ''('', spaces, some1 word_re, spaces, lit '')'']) look
      \<or> re_test (seqs [Boundary, lit ''if'', spaces, lit ''('', spaces, some1 word_re, spaces, lit '')'']) look
      \<or> re_test (seqs [Boundary, lit ''require'', spaces, lit ''('', spaces, lit ''success'']) look)"

definition testFileRe :: regex where
  "testFileRe = alts [seqs [lit ''.'', Alt (lit_i ''test'') (lit_i ''spec''), lit ''.'', one_of ''jtJT'', lit_i ''s'', opt (lit_i ''x'')],
     lit_i ''__tests__'', Seq (lit_i ''fixtures'') (one_of [CHR ''/'', CHR 0x5C])]"

definition apiKeyRe :: regex where
  "apiKeyRe = seqs [Boundary,
     Grp 1 (alts [seqs [lit_i ''api'', opt (lit ''_''), lit_i ''key''], lit_i ''secret'', lit_i ''password'',
       seqs [lit_i ''auth'', opt (lit ''_''), lit_i ''token''], seqs [lit_i ''access'', opt (lit ''_''), lit_i ''token''],
       seqs [lit_i ''client'', opt (lit ''_''), lit_i ''secret'']]),
     Boundary, spaces, one_of '':='', spaces, quote_mark,
     Grp 2 (some1 (Cls (\<lambda>c. c \<notin> set [CHR 0x22, CHR 0x27, CHR 0x60] \<and> \<not> is_ws c))), quote_mark]"

section \<open>The patterns\<close>

definition each_line :: "(nat \<Rightarrow> string \<Rightarrow> CodeFinding list) \<Rightarrow> string list \<Rightarrow> CodeFinding list" where
  "each_line f lines = concat (map (\<lambda>(i, l). f i l) (enumerate 0 lines))"

definition REENTRANCY_RISK :: Pattern where
  "REENTRANCY_RISK = \<lparr>pt_id = ''REENTRANCY_RISK'', pt_title = ''Potential reentrancy vulnerability'',
     pt_description = ''An external (low-level) call is followed by a state write on a balance or amount field. Classic checks-effects-interactions violation.'',
     pt_severity = HIGH, pt_references = [''https://docs.soliditylang.org/en/latest/security-considerations.html#re-entrancy''],
     pt_detect = \<lambda>src_file lines. Some (each_line (\<lambda>i l.
       if \<not> re_test callRe l then []
       else (case find (\<lambda>j. re_test stateWriteRe (lines ! j)) [i + 1..<min (i + 4) (length lines)] of
           None \<Rightarrow> []
         | Some j \<Rightarrow> [makeFinding src_file (i + 1) ''REENTRANCY_RISK'' HIGH
             (''External call on line '' @ show_nat (i + 1) @ '' is followed by a state write on line '' @ show_nat (j + 1) @ ''. Possible reentrancy.'')
             ''Apply the checks-effects-interactions pattern: update state BEFORE making external calls, or use a reentrancy guard.'' lines])) lines)\<rparr>"

text \<open>\<open>Number(m[2]) > 2 ** 62\<close>: the literal is rounded to a double first; near \<open>2^62\<close> doubles are 1024 apart
  and a tie goes to \<open>2^62\<close> itself.\<close>

definition exceeds_62_bits :: "string \<Rightarrow> bool" where
  "exceeds_62_bits digits = (read_base 10 digits > 2 ^ 62 + 512)"

definition overflow_message :: "string \<times> (nat \<times> string) list \<Rightarrow> string" where
  "overflow_message m = ''Literal '' @ (case group 2 m of Some d \<Rightarrow> d | None \<Rightarrow> []) @ '' assigned to '' @ sq @ (case group 1 m of Some n \<Rightarrow> n | None \<Rightarrow> []) @ sq
     @ '' (type '' @ sq @ takeWhile (\<lambda>c. \<not> is_ws c) (fst m) @ sq @ '') could overflow at runtime.''"

definition INTEGER_OVERFLOW_RAW :: Pattern where
  "INTEGER_OVERFLOW_RAW = \<lparr>pt_id = ''INTEGER_OVERFLOW_RAW'', pt_title = ''Possible integer overflow without SafeMath'',
     pt_description = ''A sized uint/int is being assigned a numeric literal that exceeds the safe range for that type without an explicit overflow check.'',
     pt_severity = MEDIUM, pt_references = [],
     pt_detect = \<lambda>src_file lines. Some (each_line (\<lambda>i l.
       case re_match intAssign l of
         None \<Rightarrow> []
       | Some m \<Rightarrow> (case group 2 m of
           None \<Rightarrow> []
         | Some d \<Rightarrow> if exceeds_62_bits d then [makeFinding src_file (i + 1) ''INTEGER_OVERFLOW_RAW'' MEDIUM (overflow_message m)
             ''Use a checked arithmetic library (SafeMath, OpenZeppelin Math) or upgrade to a Solidity version with built-in overflow checks.'' lines] else [])) lines)\<rparr>"

definition UNBOUNDED_LOOP :: Pattern where
  "UNBOUNDED_LOOP = \<lparr>pt_id = ''UNBOUNDED_LOOP'', pt_title = ''Unbounded loop'',
     pt_description = ''A loop has no exit condition bound (`while(true)`, `for(;;)`) or iterates over a user-controlled dynamic collection without a length cap.'',
     pt_severity = HIGH, pt_references = [],
     pt_detect = \<lambda>src_file lines. Some (each_line (\<lambda>i l.
       map (\<lambda>re. makeFinding src_file (i + 1) ''UNBOUNDED_LOOP'' HIGH (''Loop on line '' @ show_nat (i + 1) @ '' has no finite exit boundary.'')
           ''Add a bounded iteration cap (e.g. `require(i < MAX_ITERATIONS)` or a pull-payment / pagination pattern).'' lines)
         (filter (\<lambda>re. re_test re l) infinitePatterns)
       @ (if dynamic_bound l then [makeFinding src_file (i + 1) ''UNBOUNDED_LOOP'' MEDIUM
            (''Loop bound on line '' @ show_nat (i + 1) @ '' depends on a dynamic collection length.'')
            ''Cap the loop with a hard maximum and validate the length before entering the loop.'' lines] else [])) lines)\<rparr>"

definition MISSING_ZERO_ADDRESS_CHECK :: Pattern where
  "MISSING_ZERO_ADDRESS_CHECK = \<lparr>pt_id = ''MISSING_ZERO_ADDRESS_CHECK'', pt_title = ''Missing zero-address check before transfer'',
     pt_description = ''A Solidity transfer/send is being made to a non-literal address. Ensure the recipient is checked against `address(0)` before sending.'',
     pt_severity = MEDIUM, pt_references = [],
     pt_detect = \<lambda>src_file lines. Some (report_lines (\<lambda>i l. re_test transferRe l \<and> \<not> re_test httpSendRe l
         \<and> \<not> re_test zeroAddressRe (window (i - 6) i lines) \<and> \<not> re_test notZeroAddressRe (window (i - 6) i lines))
       ''MISSING_ZERO_ADDRESS_CHECK'' MEDIUM
       (\<lambda>n. ''Transfer on line '' @ show_nat n @ '' has no zero-address guard in the preceding 6 lines.'')
       ''Add `require(recipient != address(0))` (or the equivalent) before every transfer/send.'' src_file lines)\<rparr>"

definition HARDCODED_PRIVATE_KEY :: Pattern where
  "HARDCODED_PRIVATE_KEY = \<lparr>pt_id = ''HARDCODED_PRIVATE_KEY'', pt_title = ''Hardcoded 64-char hex literal (potential private key)'',
     pt_description = ''A 32-byte (64-character) hexadecimal literal in source '' @ [CHR 0xE2, CHR 0x80, CHR 0x94]
       @ '' strongly indicating a hardcoded private key. Critical security risk if committed.'',
     pt_severity = CRITICAL, pt_references = [],
     pt_detect = \<lambda>src_file lines. Some (report_lines (\<lambda>i l. re_test hexRe l) ''HARDCODED_PRIVATE_KEY'' CRITICAL
       (\<lambda>n. ''64-character hex literal on line '' @ show_nat n @ '' looks like a hardcoded private key.'')
       ''Rotate the key IMMEDIATELY (assume it is compromised), remove from source, and load from environment / KMS / Vault instead.'' src_file lines)\<rparr>"

definition ASSERT_VS_REQUIRE :: Pattern where
  "ASSERT_VS_REQUIRE = \<lparr>pt_id = ''ASSERT_VS_REQUIRE'', pt_title = ''Use of `assert` for input validation'',
     pt_description = ''`assert` consumes all remaining gas on failure in Solidity, so it should only be used for invariants. Use `require` for user-input validation instead.'',
     pt_severity = MEDIUM, pt_references = [],
     pt_detect = \<lambda>src_file lines. Some (report_lines
       (\<lambda>i l. re_test (seqs [Boundary, lit ''assert'', spaces, lit ''('']) l \<and> \<not> node_assert l) ''ASSERT_VS_REQUIRE'' MEDIUM
       (\<lambda>n. ''assert(...) on line '' @ show_nat n @ '' is unreachable on failure (consumes all gas).'')
       ''Use `require(...)` for user-input validation; reserve `assert(...)` for true invariants.'' src_file lines)\<rparr>"

definition TODO_SECURITY :: Pattern where
  "TODO_SECURITY = \<lparr>pt_id = ''TODO_SECURITY'', pt_title = ''TODO/FIXME near security-sensitive code'',
     pt_description = ''A TODO or FIXME comment is colocated with a security-sensitive identifier. Open security TODOs frequently backslide into shipped vulnerabilities.'',
     pt_severity = MEDIUM, pt_references = [],
     pt_detect = \<lambda>src_file lines. Some (report_lines (\<lambda>i l. re_test todoRe l) ''TODO_SECURITY'' MEDIUM
       (\<lambda>n. ''Security-related TODO/FIXME on line '' @ show_nat n @ ''.'')
       ''File a tracked ticket and address the TODO before merging; do not defer security work.'' src_file lines)\<rparr>"

definition UNCHECKED_RETURN_VALUE :: Pattern where
  "UNCHECKED_RETURN_VALUE = \<lparr>pt_id = ''UNCHECKED_RETURN_VALUE'', pt_title = ''Unchecked low-level call return value'',
     pt_description = ''A low-level call (`.call`, `.delegatecall`, `.staticcall`) is invoked without capturing or asserting on its return value.'',
     pt_severity = HIGH, pt_references = [],
     pt_detect = \<lambda>src_file lines. Some (report_lines (\<lambda>i l. re_test lowLevelCallRe l \<and> re_test solidityCallMarker l \<and> \<not> re_test captureRe l
         \<and> \<not> result_checked (window (i + 1) (i + 4) lines)) ''UNCHECKED_RETURN_VALUE'' HIGH
       (\<lambda>n. ''Low-level call on line '' @ show_nat n @ '' discards its boolean return value.'')
       ''Capture the return value (`bool ok = target.call(...)`) and either `require(ok)` or handle failure explicitly. Prefer OpenZeppelin `ReentrancyGuard` and `Address.sendValue` helpers.''
       src_file lines)\<rparr>"

definition TX_ORIGIN_AUTHORIZATION :: Pattern where
  "TX_ORIGIN_AUTHORIZATION = \<lparr>pt_id = ''TX_ORIGIN_AUTHORIZATION'', pt_title = ''Use of `tx.origin` for authorization'',
     pt_description = ''`tx.origin` is the original signer of the entire transaction chain; using it for authorization is vulnerable to phishing attacks. Always use `msg.sender`.'',
     pt_severity = HIGH, pt_references = [],
     pt_detect = \<lambda>src_file lines. Some (report_lines (\<lambda>i l. re_test (words [''tx.origin'']) l) ''TX_ORIGIN_AUTHORIZATION'' HIGH
       (\<lambda>n. ''tx.origin used on line '' @ show_nat n @ ''.'')
       ''Replace `tx.origin` with `msg.sender` in authorization checks.'' src_file lines)\<rparr>"

definition EVAL_USAGE :: Pattern where
  "EVAL_USAGE = \<lparr>pt_id = ''EVAL_USAGE'', pt_title = ''Use of `eval`'',
     pt_description = ''`eval` executes arbitrary code at runtime. Use it only as a last resort and never on user-controlled input.'',
     pt_severity = CRITICAL, pt_references = [],
     pt_detect = \<lambda>src_file lines. Some (report_lines (\<lambda>i l. re_test (seqs [Boundary, lit ''eval'', spaces, lit ''('']) l) ''EVAL_USAGE'' CRITICAL
       (\<lambda>n. ''eval() invoked on line '' @ show_nat n @ ''.'')
       ''Replace with a safer alternative (e.g. JSON.parse for JSON, a parser for DSLs, Function constructor only for static templates).'' src_file lines)\<rparr>"

text \<open>The value of a matched assignment that is worth reporting.\<close>

definition real_secret :: "bool \<Rightarrow> string \<Rightarrow> bool" where
  "real_secret isTestFile val =
     (6 \<le> length val
      \<and> \<not> re_test (alts [lit ''${'', lit ''process.env'', lit ''require'', lit ''import'']) val
      \<and> \<not> re_test (seqs [At_start, some1 (Cls (\<lambda>c. in_range CHR ''A'' CHR ''Z'' c \<or> c = CHR ''_'')), At_end]) val
      \<and> (\<not> isTestFile \<or> (re_test lower_letter val \<and> re_test digit val \<and> 20 \<le> length val)))"

definition HARDCODED_API_KEY_LITERAL :: Pattern where
  "HARDCODED_API_KEY_LITERAL = \<lparr>pt_id = ''HARDCODED_API_KEY_LITERAL'', pt_title = ''Hardcoded API key / secret / password literal'',
     pt_description = ''A non-empty string literal is assigned to a variable named like an API key, secret, password, or token.'',
     pt_severity = HIGH, pt_references = [],
     pt_detect = \<lambda>src_file lines.
       (let isTestFile = (case src_file of None \<Rightarrow> False | Some n \<Rightarrow> re_test testFileRe n)
        in Some (report_lines (\<lambda>i l. case re_match apiKeyRe l of None \<Rightarrow> False
             | Some m \<Rightarrow> (case group 2 m of None \<Rightarrow> False | Some val \<Rightarrow> real_secret isTestFile val)) ''HARDCODED_API_KEY_LITERAL'' HIGH
           (\<lambda>n. ''Hardcoded secret material on line '' @ show_nat n @ ''.'')
           ''Rotate the credential (assume it is leaked), then load it from environment, a secrets manager, or a KMS-backed secret store.'' src_file lines))\<rparr>"

definition LOGIC_PATTERNS :: "Pattern list" where
  "LOGIC_PATTERNS = [REENTRANCY_RISK, INTEGER_OVERFLOW_RAW, UNBOUNDED_LOOP, MISSING_ZERO_ADDRESS_CHECK, HARDCODED_PRIVATE_KEY, ASSERT_VS_REQUIRE,
     TODO_SECURITY, UNCHECKED_RETURN_VALUE, TX_ORIGIN_AUTHORIZATION, EVAL_USAGE, HARDCODED_API_KEY_LITERAL]"

section \<open>The detector\<close>

definition logic_scan :: "Pattern list \<Rightarrow> int \<Rightarrow> string \<Rightarrow> string option \<Rightarrow> string list option \<Rightarrow> PatternScanResult" where
  "logic_scan patterns now code src_file only =
     (let active = active_patterns patterns only;
          findings = sort_key scan_order (collect active src_file (code_lines code));
          status = (if length findings = 0 then ''SAFE'' else ''VULNERABLE'')
      in \<lparr>sc_status = status, sc_findings = findings, sc_count = length findings,
          sc_summary = (if status = ''SAFE'' then [CHR 0xE2, CHR 0x9C, CHR 0x85] @ '' No logic flaws detected''
            else [CHR 0xE2, CHR 0x9D, CHR 0x8C] @ '' '' @ show_nat (length findings) @ '' logic-flaw finding(s) '' @ [CHR 0xE2, CHR 0x80, CHR 0x94]
              @ '' review before merging''),
          sc_scanTimestamp = iso_date now, sc_patternIds = map pt_id active\<rparr>)"

definition logic_generateReport :: "PatternScanResult \<Rightarrow> string" where
  "logic_generateReport = pattern_report ''Logic Error Scan''"

section \<open>Private keys\<close>

definition is_hex :: "char \<Rightarrow> bool" where
  "is_hex c = (in_range CHR ''0'' CHR ''9'' c \<or> in_range CHR ''a'' CHR ''f'' c \<or> in_range CHR ''A'' CHR ''F'' c)"

text \<open>A 64-digit hexadecimal literal that is not part of a longer word.\<close>

definition has_private_key :: "string \<Rightarrow> bool" where
  "has_private_key s = (\<exists>u k v. s = u @ ''0x'' @ k @ v \<and> length k = 64 \<and> list_all is_hex k
     \<and> (u = [] \<or> \<not> word_char (last u)) \<and> (v = [] \<or> \<not> word_char (hd v)))"

lemma matches_rep_n: "matches (rep_n n (Cls f)) p q \<longleftrightarrow> (\<exists>k v. snd p = k @ v \<and> length k = n \<and> list_all f k \<and> q = (rev k @ fst p, v))"
proof (induction n arbitrary: p)
  case 0
  then show ?case by (auto simp: matches_simps prod_eq_iff)
next
  case (Suc n)
  obtain u w where p: "p = (u, w)" by (cases p)
  show ?case
  proof
    assume "matches (rep_n (Suc n) (Cls f)) p q"
    then obtain c v where c: "w = c # v" "f c" "matches (rep_n n (Cls f)) (c # u, v) q" by (auto simp: p matches_simps)
    then obtain k v' where "v = k @ v'" "length k = n" "list_all f k" "q = (rev k @ c # u, v')" using Suc by auto
    then show "\<exists>k v. snd p = k @ v \<and> length k = Suc n \<and> list_all f k \<and> q = (rev k @ fst p, v)"
      using c by (intro exI [of _ "c # k"] exI [of _ v']) (simp add: p)
  next
    assume "\<exists>k v. snd p = k @ v \<and> length k = Suc n \<and> list_all f k \<and> q = (rev k @ fst p, v)"
    then obtain k v where k: "w = k @ v" "length k = Suc n" "list_all f k" "q = (rev k @ u, v)" by (auto simp: p)
    then obtain c k' where kc: "k = c # k'" by (cases k) auto
    then have "matches (rep_n n (Cls f)) (c # u, k' @ v) q" unfolding Suc using k by auto
    moreover have "matches (Cls f) p (c # u, k' @ v)" using k kc by (simp add: p matches_simps)
    ultimately show "matches (rep_n (Suc n) (Cls f)) p q" by (auto intro: matches.seq)
  qed
qed

lemma hex_digit_is: "hex_digit = Cls is_hex"
  by (simp add: hex_digit_def is_hex_def [abs_def])

lemma is_hex_word: "is_hex c \<Longrightarrow> word_char c"
  by (auto simp: is_hex_def in_range_def word_char_def Let_def)

lemma private_key_iff: "re_test hexRe s \<longleftrightarrow> has_private_key s"
proof -
  have m: "(\<exists>q. matches hexRe (rev u, t) q) \<longleftrightarrow> (\<exists>k v. t = ''0x'' @ k @ v \<and> length k = 64 \<and> list_all is_hex k
      \<and> (u = [] \<or> \<not> word_char (last u)) \<and> (v = [] \<or> \<not> word_char (hd v)))" for u t
  proof -
    have e: "(\<exists>q. matches hexRe (rev u, t) q) \<longleftrightarrow> (\<exists>k v. t = ''0x'' @ k @ v \<and> length k = 64 \<and> list_all is_hex k
        \<and> at_boundary (rev u, ''0x'' @ k @ v) \<and> at_boundary (rev k @ rev ''0x'' @ rev u, v))"
      by (auto simp: hexRe_def hex_digit_is matches_simps(3,5) matches_lit matches_rep_n simp del: rep_n.simps lit.simps)
    have a: "at_boundary (rev u, ''0x'' @ k @ v) \<longleftrightarrow> u = [] \<or> \<not> word_char (last u)" for k v
      by (auto simp: at_boundary_def first_is_word_hd hd_rev word_char_def Let_def)
    have b: "at_boundary (rev k @ rev ''0x'' @ rev u, v) \<longleftrightarrow> v = [] \<or> \<not> word_char (hd v)" if "length k = 64" "list_all is_hex k" for k v
    proof -
      have "k \<noteq> []" using that(1) by auto
      then have "word_char (last k)" using that(2) is_hex_word by (simp add: list_all_iff)
      then show ?thesis using \<open>k \<noteq> []\<close> by (auto simp: at_boundary_def first_is_word_hd hd_append hd_rev)
    qed
    show ?thesis unfolding e a using b by blast
  qed
  have "re_test hexRe s \<longleftrightarrow> (\<exists>u t. s = u @ t \<and> (\<exists>q. matches hexRe (rev u, t) q))" unfolding re_test_iff by blast
  then show ?thesis unfolding m has_private_key_def by blast
qed

text \<open>
  A low-level call, and a write to a balance. Any receiver counts that ends in a word character, and so do \<open>fn.call(ctx)\<close>
  and \<open>axios.send(\<dots>)\<close>, which the comments say are avoided; \<open>transfer\<close> does not count, which they say is detected.\<close>

definition makes_call :: "string \<Rightarrow> bool" where
  "makes_call l \<longleftrightarrow> (\<exists>u c m sp b v. l = u @ [c] @ ''.'' @ m @ sp @ [b] @ v \<and> word_char c
     \<and> m \<in> {''call'', ''send'', ''delegatecall'', ''staticcall''} \<and> list_all is_ws sp \<and> b \<in> {CHR ''('', CHR ''{''})"

definition writes_balance :: "string \<Rightarrow> bool" where
  "writes_balance l \<longleftrightarrow> (\<exists>u w tl sp index sp' e v. l = u @ w @ tl @ sp @ index @ sp' @ ''='' @ [e] @ v
     \<and> w \<in> {''balance'', ''amount'', ''total'', ''allowance''} \<and> list_all word_char tl \<and> list_all is_ws sp \<and> list_all is_ws sp'
     \<and> (index = [] \<or> (\<exists>i. index = ''['' @ i @ '']'' \<and> CHR 0x0A \<notin> set i \<and> CHR 0x0D \<notin> set i)) \<and> e \<noteq> CHR ''='')"

lemma matches_star_cls:
  "matches (Star g (Cls f)) p q \<longleftrightarrow> (\<exists>t. list_all f t \<and> snd p = t @ snd q \<and> fst q = rev t @ fst p)"
proof
  assume "matches (Star g (Cls f)) p q"
  then show "\<exists>t. list_all f t \<and> snd p = t @ snd q \<and> fst q = rev t @ fst p"
  proof (induction "Star g (Cls f)" p q rule: matches.induct)
    case (star_more p q r)
    then obtain t c where "list_all f t" "snd q = t @ snd r" "fst r = rev t @ fst q" "f c" "p = (fst p, c # snd q)" "fst q = c # fst p"
      by (auto simp: matches_simps)
    then show ?case by (intro exI [of _ "c # t"]) (cases p, auto)
  qed auto
next
  have "list_all f t \<Longrightarrow> matches (Star g (Cls f)) (u, t @ v) (rev t @ u, v)" for t u v
  proof (induction t arbitrary: u)
    case (Cons c t)
    then have "matches (Cls f) (u, c # t @ v) (c # u, t @ v)" "matches (Star g (Cls f)) (c # u, t @ v) (rev t @ c # u, v)"
      by (auto simp: matches_simps)
    then show ?case using star_more by fastforce
  qed (simp add: star_stop)
  then show "\<exists>t. list_all f t \<and> snd p = t @ snd q \<and> fst q = rev t @ fst p \<Longrightarrow> matches (Star g (Cls f)) p q"
    by (metis prod.collapse)
qed

text \<open>An expression without boundaries spells a set of texts.\<close>

definition spells :: "regex \<Rightarrow> string set \<Rightarrow> bool" where
  "spells r S = (\<forall>p q. matches r p q \<longleftrightarrow> (\<exists>t \<in> S. snd p = t @ snd q \<and> fst q = rev t @ fst p))"

definition conc :: "string set \<Rightarrow> string set \<Rightarrow> string set" where "conc A B = (\<Union>s \<in> A. (\<lambda>t. s @ t) ` B)"

lemma spellsD: "spells r S \<Longrightarrow> matches r p q \<longleftrightarrow> (\<exists>t \<in> S. snd p = t @ snd q \<and> fst q = rev t @ fst p)"
  unfolding spells_def by blast

lemma spells_seq: "spells a A \<Longrightarrow> spells b B \<Longrightarrow> spells (Seq a b) (conc A B)"
  unfolding spells_def [of "Seq a b"] matches_simps(3) by (auto simp: spellsD conc_def)

lemma spells_basic:
  "spells (lit s) {s}" "spells (Cls f) {[c] |c. f c}" "spells (Star g (Cls f)) {t. list_all f t}"
  "spells a A \<Longrightarrow> spells (Alt a Eps) (insert [] A)"
  "ws \<noteq> [] \<Longrightarrow> spells (any_lit ws) (set ws)"
proof -
  show "spells (lit s) {s}" "spells (Cls f) {[c] |c. f c}"
    by (auto simp: spells_def matches_lit matches_simps prod_eq_iff)
  show "spells (Star g (Cls f)) {t. list_all f t}" by (auto simp: spells_def matches_star_cls)
  show "spells a A \<Longrightarrow> spells (Alt a Eps) (insert [] A)"
    by (auto simp: spells_def matches_simps prod_eq_iff)
  show "spells (any_lit ws) (set ws)" if "ws \<noteq> []"
    unfolding spells_def any_lit_def using that by (subst matches_alts) (auto simp: matches_lit prod_eq_iff)
qed

lemma re_test_spells:
  assumes "spells r S"
  shows "re_test r l \<longleftrightarrow> (\<exists>u t v. l = u @ t @ v \<and> t \<in> S)"
  unfolding re_test_iff spellsD [OF assms] by (metis append.assoc fst_conv snd_conv)

text \<open>A boundary between a word and something that does not go on with it holds by itself.\<close>

lemma boundary_idle:
  assumes "spells b B" "\<And>s. s \<in> B \<Longrightarrow> s \<noteq> [] \<and> word_char (last s)"
    and "spells r S" "\<And>s. s \<in> S \<Longrightarrow> s \<noteq> [] \<and> \<not> word_char (hd s)"
  shows "matches (Seq b (Seq Boundary r)) p q \<longleftrightarrow> matches (Seq b r) p q"
proof -
  have "at_boundary m" if bm: "matches b p m" and rm: "matches r m q" for m
  proof -
    obtain s where s: "s \<in> B" "fst m = rev s @ fst p" using bm spellsD [OF assms(1)] by blast
    obtain t where t: "t \<in> S" "snd m = t @ snd q" using rm spellsD [OF assms(3)] by blast
    have "first_is_word (rev s @ u)" for u using assms(2) [OF s(1)] by (cases s rule: rev_cases) (simp_all add: first_is_word_def)
    moreover have "\<not> first_is_word (t @ v)" for v using assms(4) [OF t(1)] by (cases t) (simp_all add: first_is_word_def)
    ultimately show ?thesis unfolding at_boundary_def s(2) t(2) by blast
  qed
  then show ?thesis unfolding matches_simps by blast
qed

lemma in_conc: "x \<in> conc A B \<longleftrightarrow> (\<exists>s t. x = s @ t \<and> s \<in> A \<and> t \<in> B)"
  by (auto simp: conc_def)

lemma call_iff: "re_test callRe l \<longleftrightarrow> makes_call l"
proof -
  define W where "W = conc {[c] |c. word_char c} {t. list_all word_char t}"
  define D where "D = ''.''"
  define M where "M = set [''call'', ''send'', ''delegatecall'', ''staticcall'']"
  define S where "S = {t. list_all is_ws t}"
  define B where "B = {[b] |b. list_ex (\<lambda>c. b = c) ''({''}"
  let ?r = "conc {D} (conc M (conc S B))"
  have "spells callRe (conc W ?r)"
    unfolding callRe_def seqs.simps some1_def word_re_def spaces_def many_def space_def one_of_def W_def D_def M_def S_def B_def
    by (intro spells_seq spells_basic) simp
  note shape = re_test_spells [OF this, of l]
  have w: "u @ (w @ s) @ v = (u @ butlast w) @ [last w] @ s @ v" "word_char (last w)" if "w \<in> W" for u w s v :: string
  proof -
    have "w \<noteq> []" "list_all word_char w" using that by (auto simp: in_conc W_def)
    then show "u @ (w @ s) @ v = (u @ butlast w) @ [last w] @ s @ v" "word_char (last w)"
      by (simp_all add: list_all_iff)
  qed
  have c: "word_char c \<Longrightarrow> [c] \<in> W" for c unfolding in_conc W_def by (intro exI [of _ "[c]"] exI [of _ "[]"]) simp
  have "re_test callRe l \<longleftrightarrow> (\<exists>u c s v. l = u @ [c] @ s @ v \<and> word_char c \<and> s \<in> ?r)"
  proof
    assume "re_test callRe l"
    then obtain u w s v where "l = u @ (w @ s) @ v" "w \<in> W" "s \<in> ?r" unfolding shape in_conc [of _ W ?r] by blast
    then show "\<exists>u c s v. l = u @ [c] @ s @ v \<and> word_char c \<and> s \<in> ?r" using w by blast
  next
    assume "\<exists>u c s v. l = u @ [c] @ s @ v \<and> word_char c \<and> s \<in> ?r"
    then obtain u x s v where "l = u @ ([x] @ s) @ v" "[x] \<in> W" "s \<in> ?r" using c by auto
    then show "re_test callRe l" unfolding shape in_conc [of _ W ?r] by blast
  qed
  also have "\<dots> \<longleftrightarrow> (\<exists>u c m sp b v. l = u @ [c] @ D @ m @ sp @ b @ v \<and> word_char c \<and> m \<in> M \<and> sp \<in> S \<and> b \<in> B)"
    by (simp add: in_conc ex_simps [symmetric] del: ex_simps) blast
  also have "\<dots> \<longleftrightarrow> makes_call l"
  proof -
    have m: "{''call'', ''send'', ''delegatecall'', ''staticcall''} = M" unfolding M_def list.set ..
    have b: "b \<in> B \<longleftrightarrow> (\<exists>x. b = [x] \<and> x \<in> {CHR ''('', CHR ''{''})" for b by (auto simp: B_def)
    have sp: "list_all is_ws x \<longleftrightarrow> x \<in> S" for x by (simp add: S_def)
    show ?thesis unfolding makes_call_def m b sp D_def [symmetric] by blast
  qed
  finally show ?thesis .
qed

lemma ws_no_word: "is_ws c \<Longrightarrow> \<not> word_char c"
  by (auto simp: is_ws_def word_char_def Let_def)

lemma write_iff: "re_test stateWriteRe l \<longleftrightarrow> writes_balance l"
proof -
  define M where "M = set [''balance'', ''amount'', ''total'', ''allowance'']"
  define W where "W = {t. list_all word_char t}"
  define S where "S = {t. list_all is_ws t}"
  define I where "I = insert [] (conc {''[''} (conc {t. list_all (\<lambda>d. list_all (\<lambda>c. d \<noteq> c) [CHR 0x0A, CHR 0x0D]) t} {'']''}))"
  define E where "E = {''=''}"
  define N where "N = {[c] |c. list_all (\<lambda>d. c \<noteq> d) ''=''}"
  let ?r = "conc S (conc I (conc S (conc E N)))" and ?rest = "seqs [spaces, opt (seqs [lit ''['', lazily dot, lit '']'']), spaces, lit ''='', none_of ''='']"
  have b: "spells (Seq (any_lit [''balance'', ''amount'', ''total'', ''allowance'']) (many word_re)) (conc M W)"
    unfolding many_def word_re_def M_def W_def by (intro spells_seq spells_basic) simp
  have r: "spells ?rest ?r"
    unfolding seqs.simps spaces_def many_def space_def opt_def lazily_def dot_def none_of_def S_def I_def E_def N_def
    by (intro spells_seq spells_basic)
  have word: "s \<noteq> [] \<and> word_char (last s)" if s: "s \<in> conc M W" for s
  proof -
    obtain m w where "s = m @ w" "m \<in> M" "list_all word_char w" using s by (auto simp: in_conc W_def)
    moreover from this have "m \<noteq> []" "word_char (last m)" by (auto simp: M_def word_char_def Let_def)
    ultimately show ?thesis by (cases "w = []") (auto simp: list_all_iff)
  qed
  have not_word: "\<not> word_char CHR ''[''" "\<not> word_char CHR ''=''" by (simp_all add: word_char_def Let_def)
  have other: "s \<noteq> [] \<and> \<not> word_char (hd s)" if s: "s \<in> ?r" for s
  proof -
    obtain a i a' n where "s = a @ i @ a' @ ''='' @ n" "a \<in> S" "i \<in> I" "a' \<in> S" using s by (auto simp: in_conc E_def)
    moreover have "i = [] \<or> hd i = CHR ''[''" using \<open>i \<in> I\<close> by (auto simp: I_def in_conc)
    ultimately show ?thesis
      by (cases a; cases i; cases a') (auto simp: S_def ws_no_word not_word)
  qed
  have idle: "matches (Seq (Seq (any_lit [''balance'', ''amount'', ''total'', ''allowance'']) (many word_re)) (Seq Boundary ?rest)) p q
    \<longleftrightarrow> matches (Seq (Seq (any_lit [''balance'', ''amount'', ''total'', ''allowance'']) (many word_re)) ?rest) p q" for p q
    by (rule boundary_idle [OF b word r other])
  have "matches stateWriteRe p q \<longleftrightarrow> matches (Seq (Seq (any_lit [''balance'', ''amount'', ''total'', ''allowance'']) (many word_re)) (Seq Boundary ?rest)) p q" for p q
    unfolding stateWriteRe_def seqs.simps matches_simps(3) by blast
  then have "spells stateWriteRe (conc (conc M W) ?r)"
    using spells_seq [OF b r] idle unfolding spells_def by simp
  from re_test_spells [OF this, of l]
  have "re_test stateWriteRe l \<longleftrightarrow> (\<exists>u m w a i a' e n v. l = u @ m @ w @ a @ i @ a' @ e @ n @ v \<and> m \<in> M \<and> w \<in> W \<and> a \<in> S \<and> i \<in> I \<and> a' \<in> S \<and> e \<in> E \<and> n \<in> N)"
    by (simp add: in_conc ex_simps [symmetric] del: ex_simps) blast
  also have "\<dots> \<longleftrightarrow> writes_balance l"
  proof -
    have m: "{''balance'', ''amount'', ''total'', ''allowance''} = M" unfolding M_def list.set ..
    have n: "n \<in> N \<longleftrightarrow> (\<exists>x. n = [x] \<and> x \<noteq> CHR ''='')" for n by (auto simp: N_def)
    have i: "(i = [] \<or> (\<exists>x. i = ''['' @ x @ '']'' \<and> CHR 0x0A \<notin> set x \<and> CHR 0x0D \<notin> set x)) \<longleftrightarrow> i \<in> I" for i
      unfolding I_def in_conc insert_iff by (auto simp: list_all_iff)
    have sp: "list_all is_ws x \<longleftrightarrow> x \<in> S" for x by (simp add: S_def)
    have w: "list_all word_char x \<longleftrightarrow> x \<in> W" for x by (simp add: W_def)
    show ?thesis unfolding writes_balance_def m n i sp w E_def by blast
  qed
  finally show ?thesis .
qed

section \<open>The scan is exact\<close>

lemmas logic_pattern_defs = REENTRANCY_RISK_def INTEGER_OVERFLOW_RAW_def UNBOUNDED_LOOP_def MISSING_ZERO_ADDRESS_CHECK_def HARDCODED_PRIVATE_KEY_def
  ASSERT_VS_REQUIRE_def TODO_SECURITY_def UNCHECKED_RETURN_VALUE_def TX_ORIGIN_AUTHORIZATION_def EVAL_USAGE_def HARDCODED_API_KEY_LITERAL_def

lemma set_each_line: "f \<in> set (each_line g lines) \<longleftrightarrow> (\<exists>i < length lines. f \<in> set (g i (lines ! i)))"
  by (force simp: each_line_def in_set_enumerate_eq)

lemma each_line_at:
  assumes "\<And>k l f. f \<in> set (g k l) \<Longrightarrow> cf_line f = k + 1" "i < length lines"
  shows "(\<exists>f \<in> set (each_line g lines). cf_line f = i + 1) \<longleftrightarrow> g i (lines ! i) \<noteq> []"
proof
  assume "\<exists>f \<in> set (each_line g lines). cf_line f = i + 1"
  then obtain f k where "f \<in> set (g k (lines ! k))" "cf_line f = i + 1" unfolding Bex_def set_each_line by blast
  moreover from this have "k = i" using assms(1) [of f k] by simp
  ultimately show "g i (lines ! i) \<noteq> []" by auto
next
  assume "g i (lines ! i) \<noteq> []"
  then obtain f where "f \<in> set (g i (lines ! i))" by (metis list.set_intros(1) neq_Nil_conv)
  then show "\<exists>f \<in> set (each_line g lines). cf_line f = i + 1" using assms unfolding Bex_def set_each_line by blast
qed

lemma each_line_rule: "(\<And>i l f. f \<in> set (g i l) \<Longrightarrow> cf_ruleId f = rid) \<Longrightarrow> \<forall>f \<in> set (each_line g lines). cf_ruleId f = rid"
  by (auto simp: set_each_line)

lemma logic_own_rules: "own_rule REENTRANCY_RISK" "own_rule INTEGER_OVERFLOW_RAW" "own_rule UNBOUNDED_LOOP"
  unfolding own_rule_def logic_pattern_defs Pattern.simps
  by (intro allI impI; drule option.inject [THEN iffD1]; hypsubst; rule each_line_rule; auto split: if_splits option.splits)+

lemma logic_library: "list_all own_rule LOGIC_PATTERNS" "distinct (map pt_id LOGIC_PATTERNS)"
proof -
  have "own_rule MISSING_ZERO_ADDRESS_CHECK" "own_rule HARDCODED_PRIVATE_KEY" "own_rule ASSERT_VS_REQUIRE" "own_rule TODO_SECURITY"
    "own_rule UNCHECKED_RETURN_VALUE" "own_rule TX_ORIGIN_AUTHORIZATION" "own_rule EVAL_USAGE" "own_rule HARDCODED_API_KEY_LITERAL"
    by (simp_all add: logic_pattern_defs own_rule_def Let_def)
  then show "list_all own_rule LOGIC_PATTERNS" using logic_own_rules by (simp add: LOGIC_PATTERNS_def)
  show "distinct (map pt_id LOGIC_PATTERNS)" by (simp add: LOGIC_PATTERNS_def logic_pattern_defs)
qed

lemma logic_reported:
  assumes "p \<in> set LOGIC_PATTERNS" "pt_detect p src_file (code_lines code) = Some fs"
  shows "reported (logic_scan LOGIC_PATTERNS now code src_file None) (pt_id p) n \<longleftrightarrow> (\<exists>f \<in> set fs. cf_line f = n)"
proof -
  have "reported (logic_scan LOGIC_PATTERNS now code src_file None) (pt_id p) n
      \<longleftrightarrow> (\<exists>f \<in> set (collect LOGIC_PATTERNS src_file (code_lines code)). cf_ruleId f = pt_id p \<and> cf_line f = n)"
    by (simp add: reported_def logic_scan_def Let_def list_ex_iff active_patterns_def)
  moreover have "\<forall>f \<in> set fs. cf_ruleId f = pt_id p" using logic_library(1) assms unfolding list_all_iff own_rule_def by blast
  ultimately show ?thesis using collect_rule [OF logic_library assms] by blast
qed

text \<open>A low-level call with a state write on one of the next three lines.\<close>

definition call_then_write :: "string list \<Rightarrow> nat \<Rightarrow> bool" where
  "call_then_write ls i \<longleftrightarrow> makes_call (ls ! i) \<and> (\<exists>l \<in> set (take 3 (drop (i + 1) ls)). writes_balance l)"

lemma reentrancy_lines:
  assumes "i < length lines" "pt_detect REENTRANCY_RISK src_file lines = Some fs"
  shows "(\<exists>f \<in> set fs. cf_line f = i + 1) \<longleftrightarrow> call_then_write lines i"
proof -
  have w: "list_ex P (take 3 (drop (i + 1) lines)) \<longleftrightarrow> (\<exists>j. i + 1 \<le> j \<and> j < min (i + 4) (length lines) \<and> P (lines ! j))" for P
  proof -
    have "list_ex P (take 3 (drop (i + 1) lines)) \<longleftrightarrow> (\<exists>k < min 3 (length lines - (i + 1)). P (lines ! (i + 1 + k)))"
      by (auto simp: list_ex_length)
    also have "\<dots> \<longleftrightarrow> (\<exists>j. i + 1 \<le> j \<and> j < min (i + 4) (length lines) \<and> P (lines ! j))"
    proof
      assume "\<exists>k < min 3 (length lines - (i + 1)). P (lines ! (i + 1 + k))"
      then obtain k where "k < min 3 (length lines - (i + 1))" "P (lines ! (i + 1 + k))" by blast
      then show "\<exists>j. i + 1 \<le> j \<and> j < min (i + 4) (length lines) \<and> P (lines ! j)" by (intro exI [of _ "i + 1 + k"]) auto
    next
      assume "\<exists>j. i + 1 \<le> j \<and> j < min (i + 4) (length lines) \<and> P (lines ! j)"
      then obtain j where "i + 1 \<le> j" "j < min (i + 4) (length lines)" "P (lines ! j)" by blast
      then show "\<exists>k < min 3 (length lines - (i + 1)). P (lines ! (i + 1 + k))" by (intro exI [of _ "j - (i + 1)"]) auto
    qed
    finally show ?thesis .
  qed
  have "(\<exists>f \<in> set fs. cf_line f = i + 1) \<longleftrightarrow> re_test callRe (lines ! i)
      \<and> find (\<lambda>j. re_test stateWriteRe (lines ! j)) [i + 1..<min (i + 4) (length lines)] \<noteq> None"
    using assms(2) unfolding REENTRANCY_RISK_def Pattern.simps option.inject
    apply hypsubst
    apply (subst each_line_at [OF _ assms(1)])
     apply (simp_all del: upt_Suc split: if_splits option.splits)
     apply auto
    done
  also have "\<dots> \<longleftrightarrow> call_then_write lines i"
    unfolding call_then_write_def call_iff [symmetric] write_iff [symmetric] list_ex_iff [symmetric] w by (auto simp: find_None_iff)
  finally show ?thesis .
qed

lemma avoided_receivers_match:
  "makes_call ''fn.call(ctx)''" "makes_call ''axios.send(data)''"
  unfolding call_iff [symmetric] by code_simp+

lemma transfer_is_no_call: "\<not> makes_call ''msg.sender.transfer(amount);''"
  unfolding call_iff [symmetric] by code_simp


end
