(* ===== verification/Treasury_Scanner.thy ===== *)
theory Treasury_Scanner
  imports Js_Json Js_Regex
begin

text \<open>
  The multi-sig treasury governance scanner (\<open>src/audit-guard/src/multisig-treasury-scanner.ts\<close>): eight checks
  on every line of a contract source, and the report.
\<close>

section \<open>Data\<close>

record GovernanceFinding =
  gf_file :: string
  gf_line :: nat
  gf_rule :: string
  gf_severity :: Severity
  gf_snippet :: string
  gf_description :: string

record MultisigTreasuryScanResult =
  tr_status :: string
  tr_findings :: "GovernanceFinding list"
  tr_totalFiles :: nat
  tr_filesScanned :: "string list"
  tr_summary :: string
  tr_scanTimestamp :: string

record MultisigTreasuryScanner =
  ms_minThreshold :: jsnum
  ms_minTimelockSeconds :: jsnum

definition new_treasury_scanner :: "jsnum option \<Rightarrow> jsnum option \<Rightarrow> MultisigTreasuryScanner" where
  "new_treasury_scanner threshold timelock =
     \<lparr>ms_minThreshold = (case threshold of None \<Rightarrow> Num 2 | Some t \<Rightarrow> t),
      ms_minTimelockSeconds = (case timelock of None \<Rightarrow> Num 0 | Some t \<Rightarrow> t)\<rparr>"

definition gov :: "string \<Rightarrow> nat \<Rightarrow> string \<Rightarrow> string \<Rightarrow> Severity \<Rightarrow> string \<Rightarrow> GovernanceFinding" where
  "gov src_file line content rule severity description =
     \<lparr>gf_file = src_file, gf_line = line, gf_rule = rule, gf_severity = severity, gf_snippet = content, gf_description = description\<rparr>"

section \<open>The checks\<close>

definition whole :: "string \<Rightarrow> regex" where "whole w = seqs [Boundary, lit w, Boundary]"

definition checkWithdrawalPattern :: "string \<Rightarrow> nat \<Rightarrow> string \<Rightarrow> GovernanceFinding list" where
  "checkWithdrawalPattern src_file line content =
     (if re_test (whole ''withdraw'') content \<and> re_test (whole ''transfer'') content
         \<and> \<not> re_test (alts [whole ''sign'', whole ''signer'', whole ''threshold'']) content
      then [gov src_file line content ''UNSAFE_SINGLE_SIG_WITHDRAWAL'' CRITICAL
        ''Withdrawal function lacks explicit multi-sig authorization check''] else [])"

definition thresholdRe :: regex where
  "thresholdRe = Alt (seqs [Alt (lit ''threshold'') (lit ''m''), spaces, lit ''='', spaces, lit ''1'', Boundary])
     (seqs [lit ''const'', some1 space, lit ''M'', spaces, lit '':'', spaces, lit ''u32'', spaces, lit ''='', spaces, lit ''1''])"

definition nRe :: regex where "nRe = seqs [lit ''N'', spaces, lit ''='', spaces, lit ''1'', Boundary]"

definition checkThresholdPattern :: "string \<Rightarrow> nat \<Rightarrow> string \<Rightarrow> GovernanceFinding list" where
  "checkThresholdPattern src_file line content =
     (if re_test thresholdRe content \<or> re_test nRe content
      then [gov src_file line content ''WEAK_THRESHOLD'' HIGH
        ''Multi-sig threshold is set to 1, effectively disabling multi-sig protection''] else [])"

definition timelockRe :: regex where
  "timelockRe = alts [seqs [lit ''timelock'', spaces, lit ''='', spaces, lit ''0'', Boundary],
     seqs [lit ''delay'', spaces, lit ''='', spaces, lit ''0'', Boundary], lit ''ZERO_DURATION'', lit ''Duration::ZERO'']"

definition checkTimelockPattern :: "string \<Rightarrow> nat \<Rightarrow> string \<Rightarrow> GovernanceFinding list" where
  "checkTimelockPattern src_file line content =
     (if re_test timelockRe content
      then [gov src_file line content ''TIMELOCK_BYPASS'' HIGH
        ''Timelock or delay is zero, allowing immediate execution without waiting period''] else [])"

definition hardcodedRe :: regex where
  "hardcodedRe = alts [seqs [Boundary, lit ''pub'', some1 space, lit ''key'', spaces, lit '':'', spaces, lit ''PublicKey'', Boundary],
     lit ''hardcoded'', seqs [lit ''const'', some1 space, lit ''ADMIN'', spaces, lit '':''],
     seqs [lit ''const'', some1 space, lit ''OWNER'', spaces, lit '':'']]"

definition checkHardcodedSigner :: "string \<Rightarrow> nat \<Rightarrow> string \<Rightarrow> GovernanceFinding list" where
  "checkHardcodedSigner src_file line content =
     (if re_test hardcodedRe content
      then [gov src_file line content ''HARDCODED_SIGNER'' MEDIUM
        ''Signer or admin key appears hardcoded instead of using configurable multi-sig set''] else [])"

definition bypassRe :: regex where
  "bypassRe = alts [seqs [lit ''signers.len'', spaces, lit ''()'', spaces, lit ''>'', opt (lit ''=''), spaces, lit ''1'', Boundary],
     seqs [lit ''signers.count'', spaces, lit ''()'', spaces, lit ''>'', opt (lit ''=''), spaces, lit ''1'', Boundary],
     seqs [lit ''require!'', spaces, lit ''('', spaces, lit ''signers'', spaces, lit ''.'', spaces, lit ''len'', spaces, lit ''()'', spaces, lit ''>='', spaces, lit ''1'']]"

definition checkSignerValidation :: "string \<Rightarrow> nat \<Rightarrow> string \<Rightarrow> GovernanceFinding list" where
  "checkSignerValidation src_file line content =
     (if re_test bypassRe content
      then [gov src_file line content ''MISSING_SIGNER_VALIDATION'' HIGH
        ''Signer count is validated against a hardcoded minimum of 1 instead of the configured threshold''] else [])"

definition adminRe :: regex where
  "adminRe = Alt (seqs [Boundary, lit ''admin.'', Alt (lit ''withdraw'') (lit ''transfer''), Boundary]) (whole ''authority.transfer'')"

definition checkAdminOverride :: "string \<Rightarrow> nat \<Rightarrow> string \<Rightarrow> GovernanceFinding list" where
  "checkAdminOverride src_file line content =
     (if re_test adminRe content
      then [gov src_file line content ''ADMIN_KEY_OVERRIDE'' CRITICAL
        ''Admin or authority key can bypass multi-sig requirements for transfers''] else [])"

definition setThresholdRe :: regex where
  "setThresholdRe = seqs [alts [lit ''set'', lit ''update'', lit ''change''], lit ''_threshold'', spaces, lit ''('']"

definition checkUnprotectedThresholdChange :: "string \<Rightarrow> nat \<Rightarrow> string \<Rightarrow> GovernanceFinding list" where
  "checkUnprotectedThresholdChange src_file line content =
     (if re_test setThresholdRe content
      then [gov src_file line content ''UNPROTECTED_THRESHOLD_CHANGE'' HIGH
        ''Threshold change function lacks multi-sig confirmation requirement''] else [])"

definition noopRe :: regex where
  "noopRe = alts [seqs [lit ''require!'', spaces, lit ''('', spaces, lit ''true'', spaces, lit '')''],
     seqs [lit ''assert!'', spaces, lit ''('', spaces, lit ''true'', spaces, lit '')''],
     seqs [lit ''if'', some1 space, lit ''true'', spaces, lit ''{'']]"

definition checkNoopAuthCheck :: "string \<Rightarrow> nat \<Rightarrow> string \<Rightarrow> GovernanceFinding list" where
  "checkNoopAuthCheck src_file line content =
     (if re_test noopRe content
      then [gov src_file line content ''NOOP_AUTH_CHECK'' HIGH
        ''Authorization check is a no-op (always true), bypassing security logic''] else [])"

definition line_findings :: "string \<Rightarrow> nat \<Rightarrow> string \<Rightarrow> GovernanceFinding list" where
  "line_findings src_file n trimmed =
     checkWithdrawalPattern src_file n trimmed @ checkThresholdPattern src_file n trimmed @ checkTimelockPattern src_file n trimmed
     @ checkHardcodedSigner src_file n trimmed @ checkSignerValidation src_file n trimmed @ checkAdminOverride src_file n trimmed
     @ checkUnprotectedThresholdChange src_file n trimmed @ checkNoopAuthCheck src_file n trimmed"

definition detectFindings :: "string \<Rightarrow> string \<Rightarrow> GovernanceFinding list" where
  "detectFindings source filename =
     concat (map (\<lambda>(i, line). if trim line = [] then [] else line_findings filename (i + 1) (trim line))
       (enumerate 0 (split_on CHR 0x0A source)))"

section \<open>Scan and report\<close>

definition treasury_validateInput :: "string \<Rightarrow> string \<Rightarrow> string option" where
  "treasury_validateInput source filename =
     (if trim source = [] then Some ''MultisigTreasuryScanner.scan: source must be a non-empty string''
      else if trim filename = [] then Some ''MultisigTreasuryScanner.scan: filename must be a non-empty string''
      else None)"

definition treasury_scan :: "MultisigTreasuryScanner \<Rightarrow> int \<Rightarrow> string \<Rightarrow> string \<Rightarrow> string + MultisigTreasuryScanResult" where
  "treasury_scan s now source filename =
     (case treasury_validateInput source filename of
        Some e \<Rightarrow> Inl e
      | None \<Rightarrow>
          (let findings = detectFindings source filename
           in Inr \<lparr>tr_status = (if length findings > 0 then ''VULNERABILITIES_FOUND'' else ''SAFE''), tr_findings = findings, tr_totalFiles = 1,
                tr_filesScanned = [filename],
                tr_summary = (if length findings = 0
                  then [CHR 0xE2, CHR 0x9C, CHR 0x85] @ '' No multi-sig treasury governance vulnerabilities detected''
                  else [CHR 0xE2, CHR 0x9D, CHR 0x8C] @ '' '' @ show_nat (length findings) @ '' finding(s): ''
                    @ show_nat (length (filter (\<lambda>f. gf_severity f = CRITICAL) findings)) @ '' CRITICAL, ''
                    @ show_nat (length (filter (\<lambda>f. gf_severity f = HIGH) findings)) @ '' HIGH''),
                tr_scanTimestamp = iso_date now\<rparr>))"

definition gov_lines :: "GovernanceFinding \<Rightarrow> string" where
  "gov_lines f = ''- **'' @ gf_rule f @ ''** ['' @ severity_name (gf_severity f) @ ''] in `'' @ gf_file f @ '':'' @ show_nat (gf_line f) @ ''`'' @ [CHR 0x0A]
     @ ''  '' @ gf_description f @ [CHR 0x0A]
     @ ''  _Snippet:_ `'' @ map (\<lambda>c. if c = CHR 0x60 then CHR 0x27 else c) (gf_snippet f) @ ''`'' @ [CHR 0x0A, CHR 0x0A]"

definition treasury_generateReport :: "MultisigTreasuryScanResult \<Rightarrow> string" where
  "treasury_generateReport r =
     ''## '' @ (if tr_status r = ''SAFE'' then [CHR 0xE2, CHR 0x9C, CHR 0x85] else [CHR 0xE2, CHR 0x9D, CHR 0x8C])
     @ '' Multi-Sig Treasury Governance Audit'' @ [CHR 0x0A, CHR 0x0A]
     @ ''**Status:** '' @ tr_status r @ [CHR 0x0A, CHR 0x0A] @ ''**Scanned at:** '' @ tr_scanTimestamp r @ [CHR 0x0A, CHR 0x0A]
     @ ''**Files:** '' @ show_nat (tr_totalFiles r) @ ''  |  **Findings:** '' @ show_nat (length (tr_findings r)) @ [CHR 0x0A, CHR 0x0A]
     @ tr_summary r @ [CHR 0x0A, CHR 0x0A]
     @ (if length (tr_findings r) > 0
        then ''---'' @ [CHR 0x0A, CHR 0x0A] @ ''### '' @ [CHR 0xF0, CHR 0x9F, CHR 0x9A, CHR 0xA8] @ '' Findings'' @ [CHR 0x0A, CHR 0x0A]
          @ concat (map gov_lines (sort_key (\<lambda>f. 4 - severity_weight (gf_severity f)) (tr_findings r)))
        else [])"

section \<open>Lines are judged one by one\<close>

definition shift :: "nat \<Rightarrow> GovernanceFinding \<Rightarrow> GovernanceFinding" where
  "shift k f = f\<lparr>gf_line := gf_line f + k\<rparr>"

lemmas check_defs = checkWithdrawalPattern_def checkThresholdPattern_def checkTimelockPattern_def checkHardcodedSigner_def checkSignerValidation_def
  checkAdminOverride_def checkUnprotectedThresholdChange_def checkNoopAuthCheck_def

lemma shift_gov [simp]: "shift k (gov a n c r v t) = gov a (n + k) c r v t"
  by (simp add: shift_def gov_def)

lemma shift_line: "map (shift k) (line_findings a n t) = line_findings a (n + k) t"
  by (simp add: line_findings_def check_defs)

lemma split_append: "split_on d (a @ d # b) = split_on d a @ split_on d b"
proof (induction a)
  case (Cons c a)
  obtain w ws where "split_on d a = w # ws" by (cases "split_on d a") auto
  then show ?case using Cons by simp
qed simp

lemma enumerate_append: "enumerate k (xs @ ys) = enumerate k xs @ enumerate (k + length xs) ys"
  by (induction xs arbitrary: k) auto

definition judged :: "string \<Rightarrow> nat \<times> string \<Rightarrow> GovernanceFinding list" where
  "judged a il = (if trim (snd il) = [] then [] else line_findings a (fst il + 1) (trim (snd il)))"

lemma judged_shift: "concat (map (judged a) (enumerate (k + n) ls)) = map (shift k) (concat (map (judged a) (enumerate n ls)))"
proof (induction ls arbitrary: n)
  case (Cons l ls)
  have "judged a (k + n, l) = map (shift k) (judged a (n, l))"
    by (simp add: judged_def shift_line add.commute)
  then show ?case using Cons.IH [of "Suc n"] by simp
qed simp

lemma detectFindings_judged: "detectFindings source a = concat (map (judged a) (enumerate 0 (split_on CHR 0x0A source)))"
  by (simp add: detectFindings_def judged_def [abs_def] case_prod_unfold)

text \<open>
  The treasury scan judges every line by itself. The findings of two sources joined by a line break are
  the findings of the first followed by those of the second with their line numbers moved by the lines of
  the first: nothing is hidden or added by the surroundings, and every finding quotes its trimmed line.\<close>

theorem treasury_scan_linewise:
  "detectFindings (a @ [CHR 0x0A] @ b) name
     = detectFindings a name @ map (shift (length (split_on CHR 0x0A a))) (detectFindings b name)
   \<and> list_all (\<lambda>f. 1 \<le> gf_line f \<and> gf_line f \<le> length (split_on CHR 0x0A a)
        \<and> gf_snippet f = trim (split_on CHR 0x0A a ! (gf_line f - 1))) (detectFindings a name)"
proof
  let ?n = "length (split_on CHR 0x0A a)"
  have "split_on CHR 0x0A (a @ [CHR 0x0A] @ b) = split_on CHR 0x0A a @ split_on CHR 0x0A b" using split_append [of "CHR 0x0A" a b] by simp
  then show "detectFindings (a @ [CHR 0x0A] @ b) name = detectFindings a name @ map (shift ?n) (detectFindings b name)"
    using judged_shift [of name ?n 0] by (simp add: detectFindings_judged enumerate_append)
  have "f \<in> set (line_findings name n t) \<Longrightarrow> gf_line f = n \<and> gf_snippet f = t" for f n t
    by (auto simp: line_findings_def check_defs gov_def split: if_splits)
  then show "list_all (\<lambda>f. 1 \<le> gf_line f \<and> gf_line f \<le> ?n \<and> gf_snippet f = trim (split_on CHR 0x0A a ! (gf_line f - 1))) (detectFindings a name)"
    by (force simp: detectFindings_judged judged_def list_all_iff in_set_enumerate_eq split: if_splits)
qed

end
