(* ===== verification/Log_Analyzer.thy ===== *)
theory Log_Analyzer
  imports Js_Json Js_Regex
begin

text \<open>
  The log anomaly detector (\<open>src/audit-guard/src/log-analyzer.ts\<close>): single error patterns and error spikes in
  a batch of relayer logs. The argument \<open>getTime\<close> is what \<open>new Date(timestamp).getTime()\<close> gives for the ISO
  timestamps of the entries. The loop over the spikes moves its own counter; it is a partial function whose
  value \<open>None\<close> means that it never ends, and it is shown to end for every positive threshold.
\<close>

section \<open>Data\<close>

datatype LogLevel = LInfo | LWarn | LError | LFatal

record LogEntry =
  le_timestamp :: string
  le_level :: LogLevel
  le_message :: string
  le_service :: "string option"

datatype LogAnomalyType = ERROR_PATTERN | ERROR_SPIKE

record LogAnomaly =
  la_type :: LogAnomalyType
  la_severity :: Severity
  la_message :: string
  la_timestamp :: string
  la_count :: "nat option"

record LogAnalyzer =
  lc_errorThreshold :: int
  lc_windowMs :: int

definition new_log_analyzer :: "int option \<Rightarrow> int option \<Rightarrow> LogAnalyzer" where
  "new_log_analyzer threshold window_ms =
     \<lparr>lc_errorThreshold = (case threshold of None \<Rightarrow> 5 | Some t \<Rightarrow> t),
      lc_windowMs = (case window_ms of None \<Rightarrow> 60000 | Some w \<Rightarrow> w)\<rparr>"

section \<open>Error patterns\<close>

definition criticalLogRe :: regex where
  "criticalLogRe = alts (map lit_i [''panic'', ''crash'', ''security'', ''unauthorized'', ''vulnerability''])"

definition is_error_log :: "LogEntry \<Rightarrow> bool" where
  "is_error_log l = (le_level l = LError \<or> le_level l = LFatal)"

definition error_logs :: "(string \<Rightarrow> int) \<Rightarrow> LogEntry list \<Rightarrow> LogEntry list" where
  "error_logs getTime logs = filter is_error_log (sort_key (\<lambda>l. getTime (le_timestamp l)) logs)"

definition pattern_anomaly :: "LogEntry \<Rightarrow> LogAnomaly" where
  "pattern_anomaly l =
     (if le_level l = LFatal
      then \<lparr>la_type = ERROR_PATTERN, la_severity = CRITICAL, la_message = ''Fatal error detected: '' @ le_message l,
            la_timestamp = le_timestamp l, la_count = None\<rparr>
      else \<lparr>la_type = ERROR_PATTERN, la_severity = (if re_test criticalLogRe (le_message l) then CRITICAL else HIGH),
            la_message = ''Error pattern detected: '' @ le_message l, la_timestamp = le_timestamp l, la_count = None\<rparr>)"

section \<open>Error spikes\<close>

definition countInWindow :: "(string \<Rightarrow> int) \<Rightarrow> LogAnalyzer \<Rightarrow> LogEntry list \<Rightarrow> nat \<Rightarrow> nat" where
  "countInWindow getTime c errs i =
     (let windowEnd = getTime (le_timestamp (errs ! i)) + lc_windowMs c
      in length (takeWhile (\<lambda>l. getTime (le_timestamp l) \<le> windowEnd) (drop i errs)))"

text \<open>A number of milliseconds divided by 1000, as it prints.\<close>

definition show_seconds :: "int \<Rightarrow> string" where
  "show_seconds ms =
     (let n = nat \<bar>ms\<bar>; fraction = rev (dropWhile (\<lambda>d. d = CHR ''0'') (rev (padStart 3 CHR ''0'' (show_nat (n mod 1000)))))
      in (if ms < 0 then ''-'' else []) @ show_nat (n div 1000) @ (if fraction = [] then [] else ''.'' @ fraction))"

definition spike_anomaly :: "(string \<Rightarrow> int) \<Rightarrow> LogAnalyzer \<Rightarrow> LogEntry list \<Rightarrow> nat \<Rightarrow> LogAnomaly" where
  "spike_anomaly getTime c errs i =
     (let n = countInWindow getTime c errs i
      in \<lparr>la_type = ERROR_SPIKE, la_severity = (if int n \<ge> lc_errorThreshold c * 2 then CRITICAL else HIGH),
          la_message = ''Detected spike of '' @ show_nat n @ '' errors in '' @ show_seconds (lc_windowMs c) @ ''s'',
          la_timestamp = le_timestamp (errs ! i), la_count = Some n\<rparr>)"

text \<open>\<open>i += countInWindow - 1\<close> in the body and \<open>i++\<close> in the head of the loop. Reading the timestamp of an entry
  past the end raises a \<open>TypeError\<close>.\<close>

partial_function (option) spike_loop ::
  "(string \<Rightarrow> int) \<Rightarrow> LogAnalyzer \<Rightarrow> LogEntry list \<Rightarrow> nat \<Rightarrow> LogAnomaly list \<Rightarrow> (string + LogAnomaly list) option" where
  "spike_loop getTime c errs i anomalies =
     (if int i > int (length errs) - lc_errorThreshold c then Some (Inr anomalies)
      else if length errs \<le> i then Some (Inl ''TypeError'')
      else if int (countInWindow getTime c errs i) \<ge> lc_errorThreshold c
        then spike_loop getTime c errs (i + countInWindow getTime c errs i) (anomalies @ [spike_anomaly getTime c errs i])
      else spike_loop getTime c errs (i + 1) anomalies)"

definition analyze_logs :: "(string \<Rightarrow> int) \<Rightarrow> LogAnalyzer \<Rightarrow> LogEntry list \<Rightarrow> (string + LogAnomaly list) option" where
  "analyze_logs getTime c logs =
     (if logs = [] then Some (Inr [])
      else let errs = error_logs getTime logs; anomalies = map pattern_anomaly errs
           in if int (length errs) \<ge> lc_errorThreshold c then spike_loop getTime c errs 0 anomalies else Some (Inr anomalies))"

section \<open>The window counts\<close>

text \<open>What the count means: the errors not before the \<open>i\<close>-th that are at most the window later.\<close>

definition errors_within :: "(string \<Rightarrow> int) \<Rightarrow> LogAnalyzer \<Rightarrow> LogEntry list \<Rightarrow> nat \<Rightarrow> nat" where
  "errors_within getTime c errs i =
     card {j. i \<le> j \<and> j < length errs \<and> getTime (le_timestamp (errs ! j)) \<le> getTime (le_timestamp (errs ! i)) + lc_windowMs c}"

lemma takeWhile_sorted: "sorted (map f xs) \<Longrightarrow> takeWhile (\<lambda>x. f x \<le> b) xs = filter (\<lambda>x. f x \<le> b) xs"
  for f :: "'a \<Rightarrow> 'b::linorder"
proof (induction xs)
  case (Cons x xs)
  then have "\<not> f x \<le> b \<Longrightarrow> filter (\<lambda>x. f x \<le> b) xs = []" by (auto simp: filter_empty_conv dest: order_trans)
  then show ?case using Cons by simp
qed simp

lemma countInWindow_within:
  assumes "sorted (map (\<lambda>l. getTime (le_timestamp l)) errs)"
  shows "countInWindow getTime c errs i = errors_within getTime c errs i"
proof -
  let ?t = "\<lambda>l. getTime (le_timestamp l)" and ?b = "getTime (le_timestamp (errs ! i)) + lc_windowMs c"
  have "sorted (map ?t (drop i errs))" using assms by (simp add: drop_map [symmetric] sorted_wrt_drop)
  then have "countInWindow getTime c errs i = card {k. k < length errs - i \<and> ?t (drop i errs ! k) \<le> ?b}"
    by (simp add: countInWindow_def Let_def takeWhile_sorted length_filter_conv_card)
  also have "{k. k < length errs - i \<and> ?t (drop i errs ! k) \<le> ?b} = {k. k < length errs - i \<and> ?t (errs ! (i + k)) \<le> ?b}" by auto
  also have "card \<dots> = card ((+) i ` \<dots>)" by (simp add: card_image)
  also have "(+) i ` {k. k < length errs - i \<and> ?t (errs ! (i + k)) \<le> ?b} = {j. i \<le> j \<and> j < length errs \<and> ?t (errs ! j) \<le> ?b}"
  proof (intro set_eqI iffI)
    fix j assume "j \<in> {j. i \<le> j \<and> j < length errs \<and> ?t (errs ! j) \<le> ?b}"
    then have "j = i + (j - i)" "j - i < length errs - i" "?t (errs ! j) \<le> ?b" by auto
    then show "j \<in> (+) i ` {k. k < length errs - i \<and> ?t (errs ! (i + k)) \<le> ?b}" by (intro image_eqI [of _ _ "j - i"]) auto
  qed auto
  finally show ?thesis by (simp add: errors_within_def)
qed

lemma countInWindow_le: "countInWindow getTime c errs i \<le> length errs - i"
  by (simp add: countInWindow_def Let_def) (metis length_drop length_takeWhile_le)

lemma error_logs_sorted: "sorted (map (\<lambda>l. getTime (le_timestamp l)) (error_logs getTime logs))"
  by (simp add: error_logs_def sorted_filter)

section \<open>The loop ends and covers every spike\<close>

text \<open>\<open>ss\<close> lists the spikes from position \<open>i\<close> on: disjoint, each dense enough, and every dense window lies in
  one that was found.\<close>

definition spike_list :: "(string \<Rightarrow> int) \<Rightarrow> LogAnalyzer \<Rightarrow> LogEntry list \<Rightarrow> nat \<Rightarrow> nat list \<Rightarrow> bool" where
  "spike_list getTime c errs i ss =
     (sorted_wrt (\<lambda>j k. j + countInWindow getTime c errs j \<le> k) ss
      \<and> (\<forall>k \<in> set ss. i \<le> k \<and> k < length errs \<and> lc_errorThreshold c \<le> int (countInWindow getTime c errs k))
      \<and> (\<forall>j. i \<le> j \<and> j < length errs \<and> lc_errorThreshold c \<le> int (countInWindow getTime c errs j)
            \<longrightarrow> (\<exists>k \<in> set ss. k \<le> j \<and> j < k + countInWindow getTime c errs k)))"

lemma spike_list_done: "1 \<le> lc_errorThreshold c \<Longrightarrow> int i > int (length errs) - lc_errorThreshold c \<Longrightarrow> spike_list getTime c errs i []"
proof -
  assume a: "int i > int (length errs) - lc_errorThreshold c"
  have "\<not> lc_errorThreshold c \<le> int (countInWindow getTime c errs j)" if "i \<le> j" "j < length errs" for j
    using a that countInWindow_le [of getTime c errs j] by linarith
  then show ?thesis by (auto simp: spike_list_def)
qed

lemma spike_list_found:
  assumes "spike_list getTime c errs (i + countInWindow getTime c errs i) ss" "i < length errs"
    "lc_errorThreshold c \<le> int (countInWindow getTime c errs i)"
  shows "spike_list getTime c errs i (i # ss)"
proof -
  have "\<exists>k \<in> set (i # ss). k \<le> j \<and> j < k + countInWindow getTime c errs k"
    if "i \<le> j" "j < length errs" "lc_errorThreshold c \<le> int (countInWindow getTime c errs j)" for j
  proof (cases "j < i + countInWindow getTime c errs i")
    case True
    then show ?thesis using that(1) by simp
  next
    case False
    then have "i + countInWindow getTime c errs i \<le> j" by simp
    then show ?thesis using assms(1) that(2,3) unfolding spike_list_def by fastforce
  qed
  then show ?thesis using assms unfolding spike_list_def by fastforce
qed

lemma spike_list_skip:
  assumes "spike_list getTime c errs (i + 1) ss" "\<not> lc_errorThreshold c \<le> int (countInWindow getTime c errs i)"
  shows "spike_list getTime c errs i ss"
proof -
  have "\<exists>k \<in> set ss. k \<le> j \<and> j < k + countInWindow getTime c errs k"
    if "i \<le> j" "j < length errs" "lc_errorThreshold c \<le> int (countInWindow getTime c errs j)" for j
  proof -
    have "i + 1 \<le> j" using that assms(2) by (cases "i = j") auto
    then show ?thesis using assms(1) that(2,3) unfolding spike_list_def by blast
  qed
  then show ?thesis using assms(1) unfolding spike_list_def by fastforce
qed

lemma spike_loop_returns:
  assumes "1 \<le> lc_errorThreshold c"
  shows "\<exists>ss. spike_loop getTime c errs i acc = Some (Inr (acc @ map (spike_anomaly getTime c errs) ss)) \<and> spike_list getTime c errs i ss"
proof (induction "length errs - i" arbitrary: i acc rule: less_induct)
  case less
  let ?n = "countInWindow getTime c errs i"
  note step = spike_loop.simps [of getTime c errs i acc]
  consider "int i > int (length errs) - lc_errorThreshold c"
    | "i < length errs" "lc_errorThreshold c \<le> int ?n" "\<not> int i > int (length errs) - lc_errorThreshold c"
    | "i < length errs" "\<not> lc_errorThreshold c \<le> int ?n" "\<not> int i > int (length errs) - lc_errorThreshold c"
    using assms by linarith
  then show ?case
  proof cases
    case 1
    then show ?thesis using step spike_list_done [OF assms 1] by (intro exI [of _ "[]"]) simp
  next
    case 2
    then have "length errs - (i + ?n) < length errs - i" using assms by linarith
    from less [OF this] obtain ss where
      "spike_loop getTime c errs (i + ?n) (acc @ [spike_anomaly getTime c errs i])
         = Some (Inr ((acc @ [spike_anomaly getTime c errs i]) @ map (spike_anomaly getTime c errs) ss))"
      "spike_list getTime c errs (i + ?n) ss" by blast
    then show ?thesis using 2 step spike_list_found by (intro exI [of _ "i # ss"]) simp
  next
    case 3
    then have "length errs - (i + 1) < length errs - i" by linarith
    from less [OF this] 3 show ?thesis using step spike_list_skip by fastforce
  qed
qed

lemma spikes_of_batch:
  assumes "1 \<le> lc_errorThreshold c"
  shows "\<exists>ss. analyze_logs getTime c logs
      = Some (Inr (map pattern_anomaly (error_logs getTime logs) @ map (spike_anomaly getTime c (error_logs getTime logs)) ss))
    \<and> spike_list getTime c (error_logs getTime logs) 0 ss"
proof -
  let ?e = "error_logs getTime logs"
  consider "logs = []" | "logs \<noteq> []" "int (length ?e) < lc_errorThreshold c" | "logs \<noteq> []" "lc_errorThreshold c \<le> int (length ?e)" by linarith
  then show ?thesis
  proof cases
    case 1
    then show ?thesis by (intro exI [of _ "[]"]) (simp add: analyze_logs_def error_logs_def spike_list_def)
  next
    case 2
    then show ?thesis using spike_list_done [OF assms] by (intro exI [of _ "[]"]) (simp add: analyze_logs_def Let_def)
  next
    case 3
    then show ?thesis using spike_loop_returns [OF assms] by (simp add: analyze_logs_def Let_def)
  qed
qed

text \<open>
  C36. With a positive threshold the analysis always returns and its spikes are exact. It reports one pattern per
  error in order of time, and then spikes that start at disjoint stretches of errors, each holding at least
  the threshold within the window counted from its first error; and every stretch of errors that dense,
  wherever it starts, starts inside a reported spike.\<close>

theorem log_spikes_exact:
  assumes "1 \<le> lc_errorThreshold c"
  shows "let errs = error_logs getTime logs; n = errors_within getTime c errs in
     \<exists>ss. analyze_logs getTime c logs = Some (Inr (map pattern_anomaly errs @ map (spike_anomaly getTime c errs) ss))
       \<and> sorted_wrt (\<lambda>j k. j + n j \<le> k) ss
       \<and> (\<forall>k \<in> set ss. k < length errs \<and> lc_errorThreshold c \<le> int (n k))
       \<and> (\<forall>j < length errs. lc_errorThreshold c \<le> int (n j) \<longrightarrow> (\<exists>k \<in> set ss. k \<le> j \<and> j < k + n k))"
proof -
  have n: "countInWindow getTime c (error_logs getTime logs) = errors_within getTime c (error_logs getTime logs)"
    by (rule ext) (rule countInWindow_within, rule error_logs_sorted)
  obtain ss where "analyze_logs getTime c logs
      = Some (Inr (map pattern_anomaly (error_logs getTime logs) @ map (spike_anomaly getTime c (error_logs getTime logs)) ss))"
    "spike_list getTime c (error_logs getTime logs) 0 ss" using spikes_of_batch [OF assms] by blast
  then show ?thesis unfolding Let_def spike_list_def n by (intro exI [of _ ss]) auto
qed

definition demo_log :: "char \<Rightarrow> LogEntry" where
  "demo_log d = \<lparr>le_timestamp = [d], le_level = LError, le_message = ''x'', le_service = None\<rparr>"

theorem log_spikes_exact_witness:
  "\<exists>ss. analyze_logs (\<lambda>s. int (read_base 10 s)) \<lparr>lc_errorThreshold = 2, lc_windowMs = 1\<rparr> [demo_log CHR ''9'', demo_log CHR ''3'', demo_log CHR ''2'']
      = Some (Inr (map pattern_anomaly [demo_log CHR ''2'', demo_log CHR ''3'', demo_log CHR ''9''] @ ss)) \<and> length ss \<ge> 1"
proof -
  let ?t = "\<lambda>s. int (read_base 10 s)" and ?c = "\<lparr>lc_errorThreshold = 2, lc_windowMs = 1\<rparr>"
    and ?l = "[demo_log CHR ''9'', demo_log CHR ''3'', demo_log CHR ''2'']" and ?e = "[demo_log CHR ''2'', demo_log CHR ''3'', demo_log CHR ''9'']"
  have e: "error_logs ?t ?l = ?e" by (simp add: error_logs_def is_error_log_def demo_log_def read_base_def digit_value_def)
  have "countInWindow ?t ?c ?e 0 = 2" by (simp add: countInWindow_def demo_log_def read_base_def digit_value_def)
  then have two: "errors_within ?t ?c ?e 0 = 2" using countInWindow_within [where errs = ?e and getTime = ?t and c = ?c and i = 0] error_logs_sorted [of ?t ?l] e by simp
  obtain ss where "analyze_logs ?t ?c ?l = Some (Inr (map pattern_anomaly ?e @ map (spike_anomaly ?t ?c ?e) ss))"
    "\<forall>j < length ?e. 2 \<le> int (errors_within ?t ?c ?e j) \<longrightarrow> (\<exists>k \<in> set ss. k \<le> j \<and> j < k + errors_within ?t ?c ?e k)"
    using log_spikes_exact [of ?c ?t ?l] unfolding e by (auto simp: Let_def)
  with two show ?thesis by (intro exI [of _ "map (spike_anomaly ?t ?c ?e) ss"]) (cases ss; force)
qed

section \<open>Thresholds that are not positive\<close>

text \<open>A threshold of zero reads past the last error, and with a negative window it never ends: the counter
  moves back by one and forward by one.\<close>

lemma zero_threshold_empty:
  "analyze_logs getTime \<lparr>lc_errorThreshold = 0, lc_windowMs = w\<rparr> [\<lparr>le_timestamp = t, le_level = LInfo, le_message = m, le_service = s\<rparr>]
     = Some (Inl ''TypeError'')"
  by (simp add: analyze_logs_def error_logs_def is_error_log_def spike_loop.simps)

lemma countInWindow_negative: "lc_windowMs c < 0 \<Longrightarrow> i < length errs \<Longrightarrow> countInWindow getTime c errs i = 0"
  by (cases "drop i errs") (auto simp: countInWindow_def Let_def drop_eq_Nil nth_via_drop)

lemma negative_window_diverges:
  assumes "lc_windowMs c < 0" "lc_errorThreshold c = 0" "errs \<noteq> []"
  shows "spike_loop getTime c errs 0 acc = None"
proof -
  have "c' = c \<and> errs' = errs \<and> i = 0 \<and> getTime' = getTime \<Longrightarrow> False" if "spike_loop getTime' c' errs' i acc' = Some y" for getTime' c' errs' i acc' y
  proof (rule spike_loop.raw_induct [where P = "\<lambda>getTime' c' errs' i acc' y. c' = c \<and> errs' = errs \<and> i = 0 \<and> getTime' = getTime \<longrightarrow> False",
        OF _ that, THEN mp])
    fix f getTime' c' errs' i acc' y
    assume ih: "\<And>getTime' c' errs' i acc' y. f getTime' c' errs' i acc' = Some y \<Longrightarrow> c' = c \<and> errs' = errs \<and> i = 0 \<and> getTime' = getTime \<longrightarrow> False"
      and eq: "(if int i > int (length errs') - lc_errorThreshold c' then Some (Inr acc')
        else if length errs' \<le> i then Some (Inl ''TypeError'')
        else if int (countInWindow getTime' c' errs' i) \<ge> lc_errorThreshold c'
          then f getTime' c' errs' (i + countInWindow getTime' c' errs' i) (acc' @ [spike_anomaly getTime' c' errs' i])
        else f getTime' c' errs' (i + 1) acc') = Some y"
    show "c' = c \<and> errs' = errs \<and> i = 0 \<and> getTime' = getTime \<longrightarrow> False"
    proof
      assume eqs: "c' = c \<and> errs' = errs \<and> i = 0 \<and> getTime' = getTime"
      then have "f getTime c errs 0 (acc' @ [spike_anomaly getTime c errs 0]) = Some y"
        using eq assms countInWindow_negative [OF assms(1), of 0 errs getTime] by simp
      from ih [OF this] show False by simp
    qed
  qed
  then show ?thesis by (cases "spike_loop getTime c errs 0 acc") auto
qed

end
