(* ===== verification/Event_Log.thy ===== *)
theory Event_Log
  imports Crypto_Scanner
begin

text \<open>
  The event log scanner (\<open>src/audit-guard/src/event-log-scanner.ts\<close>): every non-blank line becomes an event,
  from JSON, from \<open>key=value\<close> pairs or from the bare text; events are judged sensitive, indexed and reported.
  \<open>parse\<close> stands for \<open>JSON.parse\<close> with \<open>None\<close> when it throws, \<open>files\<close> for the file system.
\<close>

section \<open>Data\<close>

record EventLogEntry =
  el_id :: string
  el_line :: nat
  el_timestamp :: string
  el_eventType :: string
  el_source :: string
  el_severity :: Severity
  el_sensitive :: bool
  el_matchedSignals :: "string list"
  el_raw :: jsval
  el_actor :: "string option"
  el_repository :: "string option"
  el_message :: "string option"

type_synonym event_table = "(string, EventLogEntry list) jmap"

record EventLogIndex =
  ix_byType :: event_table
  ix_byActor :: event_table
  ix_byRepository :: event_table

record EventLogScanResult =
  er_source :: string
  er_scannedAt :: string
  er_totalEvents :: nat
  er_sensitiveCount :: nat
  er_events :: "EventLogEntry list"
  er_sensitiveEvents :: "EventLogEntry list"
  er_index :: EventLogIndex

record EventLogScanner =
  es_sensitiveKeywords :: "string list"
  es_sensitiveEventTypes :: "string list"

text \<open>The options of a scan: \<open>source\<close> and \<open>scannedAt\<close>.\<close>

record EventLogOptions =
  eo_source :: "string option"
  eo_scannedAt :: "string option"

definition DEFAULT_SENSITIVE_KEYWORDS :: "string list" where
  "DEFAULT_SENSITIVE_KEYWORDS = [''unauthorized'', ''auth_failure'', ''auth failed'', ''access denied'', ''permission denied'', ''privilege'',
     ''admin_override'', ''admin privilege'', ''token leak'', ''token stolen'', ''secret'', ''password'', ''private_key'', ''credential'', ''suspicious'']"

definition DEFAULT_SENSITIVE_EVENT_TYPES :: "string list" where
  "DEFAULT_SENSITIVE_EVENT_TYPES = [''unauthorized_access'', ''auth_failure'', ''privilege_escalation'', ''permission_change'', ''admin_override'',
     ''secret_access'', ''token_leak'']"

definition normalizeSignals :: "string list \<Rightarrow> string list" where
  "normalizeSignals signals = filter (\<lambda>s. s \<noteq> []) (map (\<lambda>s. trim (toLowerCase s)) signals)"

definition new_event_scanner :: "string list option \<Rightarrow> string list option \<Rightarrow> EventLogScanner" where
  "new_event_scanner keywords types =
     \<lparr>es_sensitiveKeywords = normalizeSignals (case keywords of None \<Rightarrow> DEFAULT_SENSITIVE_KEYWORDS | Some k \<Rightarrow> k),
      es_sensitiveEventTypes = normalizeSignals (case types of None \<Rightarrow> DEFAULT_SENSITIVE_EVENT_TYPES | Some t \<Rightarrow> t)\<rparr>"

text \<open>\<open>x || y\<close> on an optional string.\<close>

definition nonempty :: "string option \<Rightarrow> string option" where
  "nonempty s = (case s of Some t \<Rightarrow> if t = [] then None else Some t | None \<Rightarrow> None)"

definition or_else_string :: "string option \<Rightarrow> string \<Rightarrow> string" where
  "or_else_string s d = (case nonempty s of Some t \<Rightarrow> t | None \<Rightarrow> d)"

section \<open>Reading a line\<close>

definition key_char :: "char \<Rightarrow> bool" where
  "key_char c = (word_char c \<or> c = CHR ''.'' \<or> c = CHR ''-'')"

definition pairRe :: regex where
  "pairRe = seqs [Grp 1 (some1 (Cls key_char)), lit ''='',
     Grp 2 (alts [seqs [chr CHR 0x22, many (none_of [CHR 0x22]), chr CHR 0x22],
                  seqs [chr CHR 0x27, many (none_of [CHR 0x27]), chr CHR 0x27],
                  some1 (Cls (\<lambda>c. \<not> is_ws c))])]"

definition is_quote :: "char \<Rightarrow> bool" where "is_quote c = (c = CHR 0x22 \<or> c = CHR 0x27)"

text \<open>\<open>replace(/^["']|["']$/g, "")\<close>.\<close>

definition unquote :: "string \<Rightarrow> string" where
  "unquote v =
     (let u = (case v of [] \<Rightarrow> [] | c # r \<Rightarrow> if is_quote c then r else v)
      in if u \<noteq> [] \<and> is_quote (last u) then butlast u else u)"

text \<open>Assigning a string to \<open>__proto__\<close> of an object does nothing.\<close>

definition add_pair :: "(string \<times> jsval) list \<Rightarrow> string \<times> (nat \<times> string) list \<Rightarrow> (string \<times> jsval) list" where
  "add_pair parsed m =
     (case (group 1 m, group 2 m) of
        (Some key, Some v) \<Rightarrow> if key = ''__proto__'' then parsed else jmap_set key (JString (unquote v)) parsed
      | _ \<Rightarrow> parsed)"

definition parseKeyValueLine :: "string \<Rightarrow> jsval option" where
  "parseKeyValueLine line =
     (let pairs = re_matchAll pairRe line
      in if length pairs = 0 then None else Some (JObject (foldl add_pair [] pairs)))"

definition parseLogLine :: "(string \<Rightarrow> jsval option) \<Rightarrow> string \<Rightarrow> jsval" where
  "parseLogLine parse line =
     (let trimmed = trim line
      in case parse trimmed of
           Some v \<Rightarrow> v
         | None \<Rightarrow> (case parseKeyValueLine trimmed of Some kv \<Rightarrow> kv | None \<Rightarrow> JString trimmed))"

definition isRecord :: "jsval \<Rightarrow> bool" where
  "isRecord v = (case v of JObject _ \<Rightarrow> True | _ \<Rightarrow> False)"

fun read_keys :: "jsval \<Rightarrow> string list \<Rightarrow> string option" where
  "read_keys raw [] = None"
| "read_keys raw (k # ks) =
     (case js_get raw k of
        JString s \<Rightarrow> if trim s \<noteq> [] then Some s else read_keys raw ks
      | JNumber n \<Rightarrow> Some (js_String (JNumber n))
      | JBool b \<Rightarrow> Some (js_String (JBool b))
      | _ \<Rightarrow> read_keys raw ks)"

definition readString :: "jsval \<Rightarrow> string list \<Rightarrow> string option" where
  "readString raw ks = (if isRecord raw then read_keys raw ks else None)"

fun readNestedString :: "jsval \<Rightarrow> string list \<Rightarrow> string option" where
  "readNestedString current [] = (case current of JString s \<Rightarrow> if trim s \<noteq> [] then Some s else None | _ \<Rightarrow> None)"
| "readNestedString current (k # ks) = (if isRecord current then readNestedString (js_get current k) ks else None)"

section \<open>Judging an event\<close>

definition normalizeSeverity :: "string option \<Rightarrow> Severity option" where
  "normalizeSeverity v =
     (case nonempty v of
        None \<Rightarrow> None
      | Some s \<Rightarrow> map_of [(''LOW'', LOW), (''MEDIUM'', MEDIUM), (''HIGH'', HIGH), (''CRITICAL'', CRITICAL)] (toUpperCase s))"

definition inferSeverity :: "string list \<Rightarrow> Severity" where
  "inferSeverity signals =
     (if list_ex (\<lambda>s. str_includes s ''private_key'' \<or> str_includes s ''token_leak'') signals then CRITICAL
      else if list_ex (\<lambda>s. list_ex (str_includes s)
          [''unauthorized'', ''access denied'', ''permission denied'', ''privilege'', ''admin'', ''secret'', ''token'']) signals then HIGH
      else if length signals > 0 then MEDIUM else LOW)"

definition safeStringify :: "jsval \<Rightarrow> string" where
  "safeStringify raw = (case raw of JString s \<Rightarrow> s | _ \<Rightarrow> json raw)"

definition haystack :: "string \<Rightarrow> jsval \<Rightarrow> string" where
  "haystack eventType raw = toLowerCase (eventType @ '' '' @ safeStringify raw)"

definition findMatchedSignals :: "EventLogScanner \<Rightarrow> string \<Rightarrow> jsval \<Rightarrow> string list" where
  "findMatchedSignals sc eventType raw =
     sort (add_all (add_all [] (filter (str_includes (toLowerCase eventType)) (es_sensitiveEventTypes sc)))
       (filter (str_includes (haystack eventType raw)) (es_sensitiveKeywords sc)))"

text \<open>Runs of other characters become one dash; a dash at either end is dropped.\<close>

definition slug_char :: "char \<Rightarrow> bool" where
  "slug_char c = (in_range CHR ''a'' CHR ''z'' c \<or> in_range CHR ''0'' CHR ''9'' c)"

fun dash_runs :: "string \<Rightarrow> string" where
  "dash_runs [] = []"
| "dash_runs (c # s) =
     (if slug_char c then c # dash_runs s
      else case dash_runs s of [] \<Rightarrow> ''-'' | d # r \<Rightarrow> if d = CHR ''-'' then d # r else CHR ''-'' # d # r)"

definition drop_dashes :: "string \<Rightarrow> string" where
  "drop_dashes s =
     (let u = (case s of [] \<Rightarrow> [] | c # r \<Rightarrow> if c = CHR ''-'' then r else s)
      in if u \<noteq> [] \<and> last u = CHR ''-'' then butlast u else u)"

definition makeId :: "nat \<Rightarrow> string \<Rightarrow> string" where
  "makeId lineNumber eventType =
     (let slug = drop_dashes (dash_runs (toLowerCase eventType))
      in ''line-'' @ show_nat lineNumber @ ''-'' @ (if slug = [] then ''event'' else slug))"

definition normalizeEvent :: "EventLogScanner \<Rightarrow> jsval \<Rightarrow> nat \<Rightarrow> EventLogOptions \<Rightarrow> EventLogEntry" where
  "normalizeEvent sc raw lineNumber options =
     (let eventType = or_else_string (readString raw [''eventType'', ''event_type'', ''event'', ''type'', ''action'', ''alert'']) ''unknown'';
          timestamp = or_else_string (readString raw [''timestamp'', ''time'', ''created_at'', ''createdAt'']) ''unknown'';
          source = or_else_string (readString raw [''source'', ''service'']) (or_else_string (eo_source options) ''event-log'');
          actor = (case nonempty (readString raw [''actor'', ''user'', ''username'', ''login'']) of
            Some a \<Rightarrow> Some a | None \<Rightarrow> readNestedString raw [''sender'', ''login'']);
          repository = (case nonempty (readString raw [''repository'', ''repo'']) of
            Some a \<Rightarrow> Some a | None \<Rightarrow> readNestedString raw [''repository'', ''full_name'']);
          message = (case nonempty (readString raw [''message'', ''msg'', ''detail'', ''description'']) of
            Some a \<Rightarrow> Some a | None \<Rightarrow> (case raw of JString s \<Rightarrow> Some s | _ \<Rightarrow> None));
          matchedSignals = findMatchedSignals sc eventType raw;
          severity = (case normalizeSeverity (readString raw [''severity'', ''level'']) of Some v \<Rightarrow> v | None \<Rightarrow> inferSeverity matchedSignals);
          sensitive = (length matchedSignals > 0 \<or> severity = HIGH \<or> severity = CRITICAL)
      in \<lparr>el_id = or_else_string (readString raw [''id'', ''event_id'', ''request_id'']) (makeId lineNumber eventType),
          el_line = lineNumber, el_timestamp = timestamp, el_eventType = eventType, el_source = source, el_severity = severity,
          el_sensitive = sensitive, el_matchedSignals = matchedSignals, el_raw = raw, el_actor = actor, el_repository = repository,
          el_message = message\<rparr>)"

section \<open>The index\<close>

text \<open>
  The index is a plain object. Reading a name that every object inherits finds the inherited value, which
  has no \<open>push\<close>, so adding under such a name raises a \<open>TypeError\<close>.
\<close>

definition INHERITED_NAMES :: "string list" where
  "INHERITED_NAMES = [''constructor'', ''__proto__'', ''__defineGetter__'', ''__defineSetter__'', ''__lookupGetter__'', ''__lookupSetter__'',
     ''hasOwnProperty'', ''isPrototypeOf'', ''propertyIsEnumerable'', ''toLocaleString'', ''toString'', ''valueOf'']"

definition addToIndex :: "event_table \<Rightarrow> string \<Rightarrow> EventLogEntry \<Rightarrow> string + event_table" where
  "addToIndex target key event =
     (if key \<in> set INHERITED_NAMES then Inl ''TypeError: target[key].push is not a function''
      else Inr (jmap_set key ((case jmap_get target key of None \<Rightarrow> [] | Some es \<Rightarrow> es) @ [event]) target))"

definition add_if :: "event_table \<Rightarrow> string option \<Rightarrow> EventLogEntry \<Rightarrow> string + event_table" where
  "add_if target key event = (case nonempty key of None \<Rightarrow> Inr target | Some k \<Rightarrow> addToIndex target k event)"

fun index_events :: "EventLogEntry list \<Rightarrow> EventLogIndex \<Rightarrow> string + EventLogIndex" where
  "index_events [] ix = Inr ix"
| "index_events (e # es) ix =
     (case addToIndex (ix_byType ix) (el_eventType e) e of
        Inl x \<Rightarrow> Inl x
      | Inr t \<Rightarrow> (case add_if (ix_byActor ix) (el_actor e) e of
          Inl x \<Rightarrow> Inl x
        | Inr a \<Rightarrow> (case add_if (ix_byRepository ix) (el_repository e) e of
            Inl x \<Rightarrow> Inl x
          | Inr r \<Rightarrow> index_events es \<lparr>ix_byType = t, ix_byActor = a, ix_byRepository = r\<rparr>)))"

definition buildIndex :: "EventLogEntry list \<Rightarrow> string + EventLogIndex" where
  "buildIndex events = index_events events \<lparr>ix_byType = [], ix_byActor = [], ix_byRepository = []\<rparr>"

section \<open>Scanning\<close>

definition numbered_lines :: "string \<Rightarrow> (nat \<times> string) list" where
  "numbered_lines text = filter (\<lambda>(n, l). trim l \<noteq> []) (enumerate 1 (code_lines text))"

definition events_of :: "EventLogScanner \<Rightarrow> (string \<Rightarrow> jsval option) \<Rightarrow> string \<Rightarrow> EventLogOptions \<Rightarrow> EventLogEntry list" where
  "events_of sc parse text options = map (\<lambda>(n, l). normalizeEvent sc (parseLogLine parse l) n options) (numbered_lines text)"

definition scanText :: "EventLogScanner \<Rightarrow> (string \<Rightarrow> jsval option) \<Rightarrow> int \<Rightarrow> jsval \<Rightarrow> EventLogOptions \<Rightarrow> string + EventLogScanResult" where
  "scanText sc parse now logText options =
     (case logText of
        JString text \<Rightarrow>
          (let events = events_of sc parse text options
           in case buildIndex events of
                Inl e \<Rightarrow> Inl e
              | Inr index \<Rightarrow>
                  (let sensitiveEvents = filter el_sensitive events
                   in Inr \<lparr>er_source = or_else_string (eo_source options) ''event-log'',
                        er_scannedAt = or_else_string (eo_scannedAt options) (iso_date now),
                        er_totalEvents = length events, er_sensitiveCount = length sensitiveEvents, er_events = events,
                        er_sensitiveEvents = sensitiveEvents, er_index = index\<rparr>))
      | _ \<Rightarrow> Inl ''Event log input must be a string'')"

text \<open>A file that exists has its content, or the message with which reading it fails.\<close>

definition scanFile ::
  "EventLogScanner \<Rightarrow> (string \<Rightarrow> jsval option) \<Rightarrow> (string \<Rightarrow> (string + string) option) \<Rightarrow> int \<Rightarrow> string \<Rightarrow> EventLogOptions
     \<Rightarrow> string + EventLogScanResult" where
  "scanFile sc parse files now filePath options =
     (case files filePath of
        None \<Rightarrow> Inl (''Event log file does not exist: '' @ filePath)
      | Some (Inl e) \<Rightarrow> Inl e
      | Some (Inr content) \<Rightarrow> scanText sc parse now (JString content)
          (options\<lparr>eo_source := Some (or_else_string (eo_source options) filePath)\<rparr>))"

definition optional_line :: "string \<Rightarrow> string option \<Rightarrow> string list" where
  "optional_line label v = (case nonempty v of None \<Rightarrow> [] | Some s \<Rightarrow> [label @ s])"

definition event_report_lines :: "EventLogEntry \<Rightarrow> string list" where
  "event_report_lines e =
     [''- ['' @ severity_name (el_severity e) @ ''] '' @ el_eventType e @ '' at line '' @ show_nat (el_line e),
      ''  - Source: '' @ el_source e, ''  - Signals: '' @ join '', '' (el_matchedSignals e)]
     @ optional_line ''  - Repository: '' (el_repository e) @ optional_line ''  - Actor: '' (el_actor e)
     @ optional_line ''  - Message: '' (el_message e)"

definition event_generateReport :: "EventLogScanResult \<Rightarrow> string" where
  "event_generateReport r =
     join [CHR 0x0A]
       ([''# Event Log Scan'', [], ''Source: '' @ er_source r, ''Scanned at: '' @ er_scannedAt r,
         ''Total events: '' @ show_nat (er_totalEvents r), ''Sensitive events: '' @ show_nat (er_sensitiveCount r), [],
         ''## Sensitive Events'', []]
        @ (if length (er_sensitiveEvents r) = 0 then [''No sensitive events detected.'', []]
           else concat (map event_report_lines (er_sensitiveEvents r)) @ [[]]))"

section \<open>The index groups the events\<close>

definition grouped :: "(EventLogEntry \<Rightarrow> string option) \<Rightarrow> EventLogEntry list \<Rightarrow> string \<Rightarrow> EventLogEntry list option" where
  "grouped key es k = (let g = filter (\<lambda>e. key e = Some k) es in if g = [] then None else Some g)"

definition type_key :: "EventLogEntry \<Rightarrow> string option" where "type_key e = Some (el_eventType e)"
definition actor_key :: "EventLogEntry \<Rightarrow> string option" where "actor_key e = nonempty (el_actor e)"
definition repository_key :: "EventLogEntry \<Rightarrow> string option" where "repository_key e = nonempty (el_repository e)"

lemmas key_defs = type_key_def actor_key_def repository_key_def

text \<open>An event that is filed under a name every object inherits.\<close>

definition unfileable :: "EventLogEntry \<Rightarrow> bool" where
  "unfileable e = list_ex (\<lambda>key. \<exists>k \<in> set INHERITED_NAMES. key e = Some k) [type_key, actor_key, repository_key]"

definition index_of :: "EventLogEntry list \<Rightarrow> EventLogIndex \<Rightarrow> bool" where
  "index_of es ix = ((\<forall>k. jmap_get (ix_byType ix) k = grouped type_key es k)
     \<and> (\<forall>k. jmap_get (ix_byActor ix) k = grouped actor_key es k)
     \<and> (\<forall>k. jmap_get (ix_byRepository ix) k = grouped repository_key es k))"

lemma grouped_snoc: "grouped key (es @ [e]) k =
    (if key e = Some k then Some ((case grouped key es k of None \<Rightarrow> [] | Some g \<Rightarrow> g) @ [e]) else grouped key es k)"
  by (simp add: grouped_def Let_def)

lemma add_if_grouped:
  assumes "\<forall>k. jmap_get t k = grouped (\<lambda>e. nonempty (f e)) es k"
  shows "case add_if t (f e) e of
      Inl x \<Rightarrow> x = ''TypeError: target[key].push is not a function'' \<and> (\<exists>k \<in> set INHERITED_NAMES. nonempty (f e) = Some k)
    | Inr t' \<Rightarrow> \<not> (\<exists>k \<in> set INHERITED_NAMES. nonempty (f e) = Some k)
        \<and> (\<forall>k. jmap_get t' k = grouped (\<lambda>e. nonempty (f e)) (es @ [e]) k)"
  using assms by (cases "nonempty (f e)") (auto simp: add_if_def addToIndex_def grouped_snoc update_conv')

lemma add_type_grouped:
  assumes "\<forall>k. jmap_get t k = grouped type_key es k"
  shows "case addToIndex t (el_eventType e) e of
      Inl x \<Rightarrow> x = ''TypeError: target[key].push is not a function'' \<and> el_eventType e \<in> set INHERITED_NAMES
    | Inr t' \<Rightarrow> el_eventType e \<notin> set INHERITED_NAMES \<and> (\<forall>k. jmap_get t' k = grouped type_key (es @ [e]) k)"
  using assms by (auto simp: addToIndex_def grouped_snoc type_key_def update_conv')

lemma index_events_spec:
  assumes "index_of before ix"
  shows "case index_events es ix of
      Inl x \<Rightarrow> x = ''TypeError: target[key].push is not a function'' \<and> list_ex unfileable es
    | Inr ix' \<Rightarrow> \<not> list_ex unfileable es \<and> index_of (before @ es) ix'"
  using assms
proof (induction es arbitrary: before ix)
  case (Cons e es)
  note t = add_type_grouped [of "ix_byType ix" before e]
    and a = add_if_grouped [of "ix_byActor ix" el_actor before e] and r = add_if_grouped [of "ix_byRepository ix" el_repository before e]
  show ?case
  proof (cases "unfileable e")
    case True
    then show ?thesis
      using t a r Cons.prems by (auto simp: index_of_def unfileable_def key_defs [abs_def] split: sum.splits)
  next
    case False
    then obtain x y z where xyz: "addToIndex (ix_byType ix) (el_eventType e) e = Inr x" "add_if (ix_byActor ix) (el_actor e) e = Inr y"
      "add_if (ix_byRepository ix) (el_repository e) e = Inr z"
      using t a r Cons.prems by (auto simp: index_of_def unfileable_def key_defs [abs_def] split: sum.splits)
    then have "index_of (before @ [e]) \<lparr>ix_byType = x, ix_byActor = y, ix_byRepository = z\<rparr>"
      using t a r Cons.prems by (simp add: index_of_def key_defs [abs_def])
    from Cons.IH [OF this] show ?thesis using xyz False by (simp split: sum.splits)
  qed
qed simp

lemma buildIndex_spec:
  "case buildIndex es of
      Inl x \<Rightarrow> x = ''TypeError: target[key].push is not a function'' \<and> list_ex unfileable es
    | Inr ix \<Rightarrow> \<not> list_ex unfileable es \<and> index_of es ix"
  using index_events_spec [of "[]" "\<lparr>ix_byType = [], ix_byActor = [], ix_byRepository = []\<rparr>" es]
  by (auto simp: buildIndex_def index_of_def grouped_def split: sum.splits)

section \<open>What a scan finds\<close>

text \<open>An event type or text that carries one of the signals.\<close>

definition signalled :: "EventLogScanner \<Rightarrow> EventLogEntry \<Rightarrow> bool" where
  "signalled sc e = (list_ex (str_includes (toLowerCase (el_eventType e))) (es_sensitiveEventTypes sc)
     \<or> list_ex (str_includes (haystack (el_eventType e) (el_raw e))) (es_sensitiveKeywords sc))"

lemma matched_iff: "findMatchedSignals sc t raw \<noteq> [] \<longleftrightarrow>
    list_ex (str_includes (toLowerCase t)) (es_sensitiveEventTypes sc) \<or> list_ex (str_includes (haystack t raw)) (es_sensitiveKeywords sc)"
proof -
  have "set (findMatchedSignals sc t raw) = {} \<longleftrightarrow> \<not> (list_ex (str_includes (toLowerCase t)) (es_sensitiveEventTypes sc)
      \<or> list_ex (str_includes (haystack t raw)) (es_sensitiveKeywords sc))"
    unfolding findMatchedSignals_def set_sort set_add_all set_filter by (auto simp: list_ex_iff)
  then show ?thesis by simp
qed

lemma sensitive_iff:
  "el_sensitive (normalizeEvent sc raw n options) \<longleftrightarrow>
     signalled sc (normalizeEvent sc raw n options) \<or> HIGH \<le> el_severity (normalizeEvent sc raw n options)"
proof -
  let ?e = "normalizeEvent sc raw n options"
  have "el_sensitive ?e \<longleftrightarrow> el_matchedSignals ?e \<noteq> [] \<or> el_severity ?e = HIGH \<or> el_severity ?e = CRITICAL"
    by (simp add: normalizeEvent_def Let_def)
  moreover have "el_matchedSignals ?e = findMatchedSignals sc (el_eventType ?e) (el_raw ?e)" by (simp add: normalizeEvent_def Let_def)
  moreover have "v = HIGH \<or> v = CRITICAL \<longleftrightarrow> HIGH \<le> v" for v by (cases v) (simp_all add: severity_order)
  ultimately show ?thesis unfolding signalled_def using matched_iff by metis
qed

lemma event_line [simp]: "el_line (normalizeEvent sc raw n options) = n"
  by (simp add: normalizeEvent_def Let_def)

text \<open>
  C37. A scan of a log text yields one event per non-blank line, in order and with its line number; the sensitive
  ones are exactly those that carry a signal, whatever severity they declare, or that are HIGH or CRITICAL;
  and the index files every event under its type, actor and repository in order, and nothing else. The scan
  fails exactly when one of these names is inherited by every object.\<close>

theorem event_scan_exact:
  "let events = events_of sc parse text options in
   case scanText sc parse now (JString text) options of
     Inl e \<Rightarrow> list_ex unfileable events
   | Inr r \<Rightarrow> \<not> list_ex unfileable events \<and> er_events r = events
       \<and> map el_line events = map fst (filter (\<lambda>(n, l). trim l \<noteq> []) (enumerate 1 (code_lines text)))
       \<and> er_sensitiveEvents r = filter (\<lambda>e. signalled sc e \<or> HIGH \<le> el_severity e) events
       \<and> er_totalEvents r = length events \<and> er_sensitiveCount r = length (er_sensitiveEvents r)
       \<and> (\<forall>k. jmap_get (ix_byType (er_index r)) k = grouped type_key events k
            \<and> jmap_get (ix_byActor (er_index r)) k = grouped actor_key events k
            \<and> jmap_get (ix_byRepository (er_index r)) k = grouped repository_key events k)"
proof -
  let ?es = "events_of sc parse text options"
  have "filter el_sensitive ?es = filter (\<lambda>e. signalled sc e \<or> HIGH \<le> el_severity e) ?es"
    by (rule filter_cong) (auto simp: events_of_def sensitive_iff)
  moreover have "map el_line ?es = map fst (numbered_lines text)" by (simp add: events_of_def case_prod_unfold)
  ultimately show ?thesis
    using buildIndex_spec [of ?es] by (auto simp: scanText_def Let_def index_of_def numbered_lines_def split: sum.splits)
qed

text \<open>The form every entry has, whatever value stands behind it.\<close>

definition entry_form :: "EventLogScanner \<Rightarrow> EventLogEntry \<Rightarrow> bool" where
  "entry_form sc e =
     (el_id e \<noteq> [] \<and> el_timestamp e \<noteq> [] \<and> el_eventType e \<noteq> [] \<and> el_source e \<noteq> []
      \<and> el_actor e \<noteq> Some [] \<and> el_repository e \<noteq> Some []
      \<and> sorted (el_matchedSignals e) \<and> distinct (el_matchedSignals e)
      \<and> set (el_matchedSignals e) \<subseteq> set (es_sensitiveEventTypes sc) \<union> set (es_sensitiveKeywords sc)
      \<and> el_sensitive e = (el_matchedSignals e \<noteq> [] \<or> HIGH \<le> el_severity e))"

lemma or_else_string_nonempty [simp]: "or_else_string s d = [] \<longleftrightarrow> nonempty s = None \<and> d = []"
  by (auto simp: or_else_string_def nonempty_def split: option.splits if_splits)

lemma nonempty_some: "nonempty s = Some t \<Longrightarrow> t \<noteq> []"
  by (auto simp: nonempty_def split: option.splits if_splits)

lemma readNestedString_nonempty [simp]: "readNestedString v ks \<noteq> Some []"
  by (induction v ks rule: readNestedString.induct) (auto simp: trim_def split: jsval.splits)

lemma findMatchedSignals_form:
  "sorted (findMatchedSignals sc t raw)" "distinct (findMatchedSignals sc t raw)"
  "set (findMatchedSignals sc t raw) \<subseteq> set (es_sensitiveEventTypes sc) \<union> set (es_sensitiveKeywords sc)"
  unfolding findMatchedSignals_def by auto

text \<open>
  C38. Every line of a log, whatever JSON value, list of pairs or free text it holds, becomes an entry of the same
  form: its identifier, time, type and source are never empty, an actor or repository is absent or not empty, the
  matched signals are sorted, without duplicates and taken from the configured ones, and the entry is marked
  sensitive exactly when it has a signal or a severity of at least HIGH.\<close>

theorem event_entries_form: "list_all (entry_form sc) (events_of sc parse text options)"
proof -
  have "entry_form sc (normalizeEvent sc raw n options)" for raw n
  proof -
    let ?e = "normalizeEvent sc raw n options"
    have signals: "el_matchedSignals ?e = findMatchedSignals sc (el_eventType ?e) raw"
      by (simp add: normalizeEvent_def Let_def)
    have texts: "el_id ?e \<noteq> []" "el_timestamp ?e \<noteq> []" "el_eventType ?e \<noteq> []" "el_source ?e \<noteq> []"
      by (simp_all add: normalizeEvent_def Let_def makeId_def)
    have names: "el_actor ?e \<noteq> Some []" "el_repository ?e \<noteq> Some []"
      by (auto simp: normalizeEvent_def Let_def simp del: readNestedString.simps dest: nonempty_some split: option.splits)
    have high: "v = HIGH \<or> v = CRITICAL \<longleftrightarrow> HIGH \<le> v" for v :: Severity by (cases v) (simp_all add: severity_order)
    have "el_sensitive ?e = (el_matchedSignals ?e \<noteq> [] \<or> HIGH \<le> el_severity ?e)"
      unfolding high [symmetric] by (simp add: normalizeEvent_def Let_def)
    thus ?thesis
      unfolding entry_form_def using texts names findMatchedSignals_form [of sc "el_eventType ?e" raw] by (simp add: signals)
  qed
  thus ?thesis by (auto simp: events_of_def list_all_iff)
qed

text \<open>One event of a type such as \<open>constructor\<close> aborts the scan of the whole log.\<close>

lemma constructor_event_aborts:
  "scanText (new_event_scanner None None) (\<lambda>s. Some (JObject [(''type'', JString ''constructor'')])) 0 (JString ''x'') \<lparr>eo_source = None, eo_scannedAt = None\<rparr>
     = Inl ''TypeError: target[key].push is not a function''"
proof -
  have "list_ex unfileable (events_of (new_event_scanner None None) (\<lambda>s. Some (JObject [(''type'', JString ''constructor'')])) ''x'' \<lparr>eo_source = None, eo_scannedAt = None\<rparr>)"
    by (simp add: events_of_def numbered_lines_def code_lines_def unfileable_def key_defs INHERITED_NAMES_def normalizeEvent_def Let_def parseLogLine_def
        readString_def isRecord_def js_prop_def or_else_string_def nonempty_def trim_def is_ws_def)
  then show ?thesis
    using buildIndex_spec [of "events_of (new_event_scanner None None) (\<lambda>s. Some (JObject [(''type'', JString ''constructor'')])) ''x'' \<lparr>eo_source = None, eo_scannedAt = None\<rparr>"]
    by (auto simp: scanText_def Let_def split: sum.splits)
qed

end
