(* ===== verification/Input_Monitor.thy ===== *)
theory Input_Monitor
  imports Js_Json "HOL-Library.Product_Lexorder"
begin

text \<open>
  The input sanitization monitor (\<open>src/audit-guard/src/input-sanitization-monitor.ts\<close>): probes with hostile and
  with harmless inputs are fed to a validator, and every probe that is not handled as expected is reported.
  The validator under audit is an argument; its outcome is \<open>None\<close> when it throws.
\<close>

section \<open>Probes\<close>

datatype ProbeCategory =
    Sql_injection | Xss | Path_traversal | Command_injection | Overflow | Null_byte | Unicode | Empty | Boundary_value

fun category_name :: "ProbeCategory \<Rightarrow> string" where
  "category_name Sql_injection = ''sql_injection''"
| "category_name Xss = ''xss''"
| "category_name Path_traversal = ''path_traversal''"
| "category_name Command_injection = ''command_injection''"
| "category_name Overflow = ''overflow''"
| "category_name Null_byte = ''null_byte''"
| "category_name Unicode = ''unicode''"
| "category_name Empty = ''empty''"
| "category_name Boundary_value = ''boundary''"

datatype ExpectedBehaviour = Reject | Sanitize | Accept

record InputProbe =
  ip_id :: string
  ip_label :: string
  ip_value :: string
  ip_category :: ProbeCategory
  ip_expectedBehaviour :: ExpectedBehaviour
  ip_severity :: Severity

definition probe :: "string \<Rightarrow> string \<Rightarrow> string \<Rightarrow> ProbeCategory \<Rightarrow> ExpectedBehaviour \<Rightarrow> Severity \<Rightarrow> InputProbe" where
  "probe i l v c b s = \<lparr>ip_id = i, ip_label = l, ip_value = v, ip_category = c, ip_expectedBehaviour = b, ip_severity = s\<rparr>"

definition SQL_PROBES :: "InputProbe list" where
  "SQL_PROBES =
     [probe ''SQL_001'' (''Classic OR 1=1 tautology'') ([CHR 0x27] @ '' OR '' @ [CHR 0x27] @ ''1'' @ [CHR 0x27] @ ''='' @ [CHR 0x27] @ ''1'') Sql_injection Reject CRITICAL,
      probe ''SQL_002'' (''UNION SELECT exfiltration'') (''1 UNION SELECT username, password FROM users--'') Sql_injection Reject CRITICAL,
      probe ''SQL_003'' (''Stacked queries via semicolon'') (''1; DROP TABLE users--'') Sql_injection Reject CRITICAL,
      probe ''SQL_004'' (''Comment stripping bypass'') (''ad/**/min'') Sql_injection Reject HIGH]"

definition XSS_PROBES :: "InputProbe list" where
  "XSS_PROBES =
     [probe ''XSS_001'' (''Basic script tag'') (''<script>alert(1)</script>'') Xss Reject HIGH,
      probe ''XSS_002'' (''Attribute injection onerror'') (''<img src=x onerror='' @ [CHR 0x22] @ ''alert(1)'' @ [CHR 0x22] @ ''>'') Xss Reject HIGH,
      probe ''XSS_003'' (''JavaScript URI'') (''javascript:alert(document.cookie)'') Xss Reject HIGH,
      probe ''XSS_004'' (''SVG onload vector'') (''<svg onload=alert(1)>'') Xss Reject HIGH]"

definition PATH_PROBES :: "InputProbe list" where
  "PATH_PROBES =
     [probe ''PATH_001'' (''Unix dot-dot-slash'') (''../../etc/passwd'') Path_traversal Reject CRITICAL,
      probe ''PATH_002'' (''URL-encoded traversal'') (''%2e%2e%2f%2e%2e%2fetc%2fpasswd'') Path_traversal Reject CRITICAL,
      probe ''PATH_003'' (''Windows backslash traversal'') (''..'' @ [CHR 0x5C] @ ''..'' @ [CHR 0x5C] @ ''windows'' @ [CHR 0x5C] @ ''system32'' @ [CHR 0x5C] @ ''config'' @ [CHR 0x5C] @ ''sam'') Path_traversal Reject CRITICAL]"

definition CMD_PROBES :: "InputProbe list" where
  "CMD_PROBES =
     [probe ''CMD_001'' (''Semicolon command chaining'') (''valid; rm -rf /'') Command_injection Reject CRITICAL,
      probe ''CMD_002'' (''Backtick command substitution'') (''`whoami`'') Command_injection Reject CRITICAL,
      probe ''CMD_003'' (''Pipe to shell'') (''foo | cat /etc/shadow'') Command_injection Reject CRITICAL,
      probe ''CMD_004'' (''Dollar-paren substitution'') (''$(id)'') Command_injection Reject CRITICAL]"

definition OVF_PROBES :: "InputProbe list" where
  "OVF_PROBES =
     [probe ''OVF_001'' (''Very long string (10 000 chars)'') (replicate 10000 CHR ''A'') Overflow Reject MEDIUM,
      probe ''OVF_002'' (''Max safe integer as string'') (''9007199254740991'') Boundary_value Accept LOW,
      probe ''OVF_003'' (''Negative number'') (''-1'') Boundary_value Accept LOW,
      probe ''OVF_004'' (''Floating point edge'') (''1.7976931348623157e+308'') Boundary_value Accept LOW]"

definition NULL_PROBES :: "InputProbe list" where
  "NULL_PROBES =
     [probe ''NULL_001'' (''Null byte injection'') (''valid'' @ [CHR 0x00] @ ''.php'') Null_byte Reject HIGH,
      probe ''NULL_002'' (''Null byte mid-string'') (''admin'' @ [CHR 0x00] @ ''extra'') Null_byte Reject HIGH]"

definition UNI_PROBES :: "InputProbe list" where
  "UNI_PROBES =
     [probe ''UNI_001'' (''Unicode right-to-left override'') ([CHR 0xE2, CHR 0x80, CHR 0xAE] @ ''evil'') Unicode Reject MEDIUM,
      probe ''UNI_002'' (''Overlong UTF-8 sequence (simulated)'') ([CHR 0xEF, CHR 0xBF, CHR 0xBD, CHR 0xEF, CHR 0xBF, CHR 0xBE, CHR 0xEF, CHR 0xBF, CHR 0xBF]) Unicode Reject MEDIUM,
      probe ''UNI_003'' (''Zero-width non-joiner bypass'') (''scr'' @ [CHR 0xE2, CHR 0x80, CHR 0x8B] @ ''ipt'') Unicode Reject MEDIUM]"

definition EMPTY_PROBES :: "InputProbe list" where
  "EMPTY_PROBES =
     [probe ''EMPTY_001'' (''Empty string'') ([]) Empty Reject LOW,
      probe ''EMPTY_002'' (''Whitespace only'') (''   '' @ [CHR 0x09, CHR 0x0A]) Empty Reject LOW]"

definition BUILT_IN_PROBES :: "InputProbe list" where
  "BUILT_IN_PROBES = SQL_PROBES @ XSS_PROBES @ PATH_PROBES @ CMD_PROBES @ OVF_PROBES @ NULL_PROBES @ UNI_PROBES @ EMPTY_PROBES"

lemmas probe_lists = BUILT_IN_PROBES_def SQL_PROBES_def XSS_PROBES_def PATH_PROBES_def CMD_PROBES_def OVF_PROBES_def NULL_PROBES_def UNI_PROBES_def EMPTY_PROBES_def append.simps

definition DANGEROUS_FRAGMENTS :: "string list" where
  "DANGEROUS_FRAGMENTS =
     [''<script'',
      ''onerror='',
      ''onload='',
      ''javascript:'',
      [CHR 0x27] @ '' or '',
      ''union select'',
      ''drop table'',
      ''../'',
      ''..'' @ [CHR 0x5C],
      ''%2e%2e'',
      [CHR 0x00],
      ''; rm '',
      ''| cat '',
      ''`whoami`'',
      ''$(id)'',
      [CHR 0xE2, CHR 0x80, CHR 0xAE]]"

definition containsDangerousFragment :: "string \<Rightarrow> bool" where
  "containsDangerousFragment out =
     (let lower = toLowerCase out in list_ex (\<lambda>frag. str_includes lower (toLowerCase frag)) DANGEROUS_FRAGMENTS)"

section \<open>Running a probe\<close>

datatype ActualOutcome = Accepted_raw | Sanitized_unsafe | Rejected | Threw

fun outcome_name :: "ActualOutcome \<Rightarrow> string" where
  "outcome_name Accepted_raw = ''accepted_raw''"
| "outcome_name Sanitized_unsafe = ''sanitized_unsafe''"
| "outcome_name Rejected = ''rejected''"
| "outcome_name Threw = ''threw''"

record InputFinding =
  if_probeId :: string
  if_probeLabel :: string
  if_category :: ProbeCategory
  if_severity :: Severity
  if_input :: string
  if_actualOutcome :: ActualOutcome
  if_sanitizedOutput :: "string option"
  if_message :: string
  if_remediation :: string

definition input_finding :: "InputProbe \<Rightarrow> ActualOutcome \<Rightarrow> string option \<Rightarrow> string \<Rightarrow> string \<Rightarrow> InputFinding" where
  "input_finding p outcome sanitizedOutput message remediation =
     \<lparr>if_probeId = ip_id p, if_probeLabel = ip_label p, if_category = ip_category p, if_severity = ip_severity p, if_input = ip_value p,
      if_actualOutcome = outcome, if_sanitizedOutput = sanitizedOutput, if_message = message, if_remediation = remediation\<rparr>"

definition remediation :: "ProbeCategory \<Rightarrow> string" where
  "remediation c = (case c of
      Sql_injection \<Rightarrow> ''Use parameterised queries / prepared statements. Never interpolate user input into SQL strings.''
    | Xss \<Rightarrow> ''HTML-encode output using a trusted library (DOMPurify, he, sanitize-html). Never inject raw user input into the DOM.''
    | Path_traversal \<Rightarrow> ''Resolve and validate the canonical path against an allowed base directory. Reject inputs containing '' @ [CHR 0x27] @ ''..'' @ [CHR 0x27] @ '' or encoded equivalents.''
    | Command_injection \<Rightarrow> ''Never pass user input to a shell command. Use child_process.execFile with an argument array, not execSync with a string.''
    | Overflow \<Rightarrow> ''Enforce maximum length on all string inputs before processing.''
    | Null_byte \<Rightarrow> ''Strip or reject null bytes ('' @ [CHR 0x5C] @ ''x00) from all inputs before passing them to file system, database, or C-extension APIs.''
    | Unicode \<Rightarrow> ''Normalise to NFC before validation, then reject or strip dangerous control characters and direction-override codepoints.''
    | Empty \<Rightarrow> ''Validate that required fields are non-empty and non-whitespace before processing.''
    | Boundary_value \<Rightarrow> ''Define and enforce explicit min/max bounds for numeric and string length inputs.'')"

definition underscores_to_spaces :: "string \<Rightarrow> string" where
  "underscores_to_spaces s = map (\<lambda>c. if c = CHR ''_'' then CHR '' '' else c) s"

definition is_refusal :: "jsval \<Rightarrow> bool" where
  "is_refusal v = (v = JBool False \<or> v = JNull \<or> v = JUndefined)"

definition run_reject :: "InputProbe \<Rightarrow> jsval option \<Rightarrow> InputFinding option" where
  "run_reject p outcome =
     (case outcome of
        None \<Rightarrow> None
      | Some result \<Rightarrow>
          if is_refusal result then None
          else (case result of
              JString s \<Rightarrow>
                if containsDangerousFragment s
                then Some (input_finding p Sanitized_unsafe (Some s)
                  ''Validator returned sanitized output that still contains dangerous payload.'' (remediation (ip_category p)))
                else None
            | _ \<Rightarrow> Some (input_finding p Accepted_raw None
                (''Validator accepted a '' @ underscores_to_spaces (category_name (ip_category p)) @ '' payload without rejecting it.'')
                (remediation (ip_category p)))))"

definition run_accept :: "InputProbe \<Rightarrow> jsval option \<Rightarrow> InputFinding option" where
  "run_accept p outcome =
     (case outcome of
        None \<Rightarrow> Some (input_finding p Threw None
          ''Validator unexpectedly threw on a value that should be accepted (over-aggressive rejection).''
          (''Ensure boundary/valid values are not falsely rejected '' @ [CHR 0xE2, CHR 0x80, CHR 0x94] @ '' review validation bounds.''))
      | Some result \<Rightarrow>
          if is_refusal result then Some (input_finding p Rejected None
            ''Validator rejected a value that should be accepted (false positive in validation).''
            (''Ensure valid boundary values pass through '' @ [CHR 0xE2, CHR 0x80, CHR 0x94] @ '' review min/max thresholds.''))
          else None)"

definition run_sanitize :: "InputProbe \<Rightarrow> jsval option \<Rightarrow> InputFinding option" where
  "run_sanitize p outcome =
     (case outcome of
        None \<Rightarrow> None
      | Some result \<Rightarrow>
          if is_refusal result then None
          else (case result of
              JString s \<Rightarrow>
                if containsDangerousFragment s
                then Some (input_finding p Sanitized_unsafe (Some s)
                  ''Sanitizer returned output that still contains a dangerous fragment.'' (remediation (ip_category p)))
                else None
            | _ \<Rightarrow> Some (input_finding p Accepted_raw None
                (''Sanitizer returned a non-string value '' @ [CHR 0xE2, CHR 0x80, CHR 0x94] @ '' cannot verify payload was neutralised.'')
                ''Sanitizers should return a clean string, not a boolean or object.'')))"

definition runProbe :: "(string \<Rightarrow> jsval option) \<Rightarrow> InputProbe \<Rightarrow> InputFinding option" where
  "runProbe validator p =
     (case ip_expectedBehaviour p of
        Reject \<Rightarrow> run_reject p (validator (ip_value p))
      | Accept \<Rightarrow> run_accept p (validator (ip_value p))
      | Sanitize \<Rightarrow> run_sanitize p (validator (ip_value p)))"

section \<open>The monitor\<close>

record InputSanitizationMonitor =
  im_probes :: "InputProbe list"
  im_validatorName :: string

definition new_input_monitor :: "string option \<Rightarrow> ProbeCategory list option \<Rightarrow> InputProbe list option \<Rightarrow> InputSanitizationMonitor" where
  "new_input_monitor validatorName categories extraProbes =
     \<lparr>im_probes = filter (\<lambda>p. case categories of None \<Rightarrow> True | Some cs \<Rightarrow> ip_category p \<in> set cs) BUILT_IN_PROBES
        @ (case extraProbes of None \<Rightarrow> [] | Some ps \<Rightarrow> ps),
      im_validatorName = (case validatorName of None \<Rightarrow> ''validator'' | Some n \<Rightarrow> n)\<rparr>"

definition probeIds :: "InputSanitizationMonitor \<Rightarrow> string list" where
  "probeIds m = map ip_id (im_probes m)"

record InputScanResult =
  ir_status :: string
  ir_findings :: "InputFinding list"
  ir_totalProbes :: nat
  ir_unsafeCount :: nat
  ir_summary :: string
  ir_scanTimestamp :: string
  ir_categoryCounts :: "(ProbeCategory, nat) jmap"

type_synonym probe_state = "InputFinding list \<times> (ProbeCategory, nat) jmap"

definition probe_step :: "(string \<Rightarrow> jsval option) \<Rightarrow> probe_state \<Rightarrow> InputProbe \<Rightarrow> probe_state" where
  "probe_step validator st p =
     (case runProbe validator p of
        None \<Rightarrow> st
      | Some f \<Rightarrow>
          (fst st @ [f],
           jmap_set (ip_category p) ((case jmap_get (snd st) (ip_category p) of None \<Rightarrow> 0 | Some n \<Rightarrow> n) + 1) (snd st)))"

text \<open>Most severe first, then by category. \<open>localeCompare\<close> orders the nine names as their first letters do,
  which differ.\<close>

definition finding_order :: "InputFinding \<Rightarrow> nat \<times> string" where
  "finding_order f = (4 - severity_weight (if_severity f), category_name (if_category f))"

definition input_scan :: "InputSanitizationMonitor \<Rightarrow> (string \<Rightarrow> jsval option) \<Rightarrow> int \<Rightarrow> InputScanResult" where
  "input_scan m validator now =
     (case foldl (probe_step validator) ([], []) (im_probes m) of (found, counts) \<Rightarrow>
       (let findings = sort_key finding_order found;
            status = (if length findings = 0 then ''SAFE'' else ''UNSAFE_INPUTS_FOUND'');
            total = show_nat (length (im_probes m))
        in \<lparr>ir_status = status, ir_findings = findings, ir_totalProbes = length (im_probes m), ir_unsafeCount = length findings,
            ir_summary = (if status = ''SAFE''
              then [CHR 0xE2, CHR 0x9C, CHR 0x85] @ '' All '' @ total @ '' probes handled safely by '' @ im_validatorName m
              else [CHR 0xE2, CHR 0x9D, CHR 0x8C] @ '' '' @ show_nat (length findings) @ '' unsafe input(s) accepted by '' @ im_validatorName m
                @ '' ('' @ total @ '' probes total)''),
            ir_scanTimestamp = iso_date now, ir_categoryCounts = counts\<rparr>))"

abbreviation nl :: string where "nl \<equiv> [CHR 0x0A]"

definition display :: "string \<Rightarrow> string" where
  "display s = (if length s > 60 then take 57 s @ ''...'' else s)"

definition input_finding_lines :: "InputFinding \<Rightarrow> string" where
  "input_finding_lines f =
     ''- **'' @ if_probeId f @ ''** ['' @ severity_name (if_severity f) @ ''] '' @ if_probeLabel f @ nl
     @ ''  Input: `'' @ display (if_input f) @ ''`'' @ nl
     @ ''  Outcome: `'' @ outcome_name (if_actualOutcome f) @ ''`'' @ nl
     @ (case if_sanitizedOutput f of None \<Rightarrow> [] | Some s \<Rightarrow> ''  Sanitized output still contained payload: `'' @ display s @ ''`'' @ nl)
     @ ''  _'' @ if_message f @ ''_'' @ nl @ ''  Remediation: '' @ if_remediation f @ nl @ nl"

fun finding_sections :: "ProbeCategory option \<Rightarrow> InputFinding list \<Rightarrow> string" where
  "finding_sections last_cat [] = []"
| "finding_sections last_cat (f # fs) =
     (if last_cat \<noteq> Some (if_category f)
      then nl @ ''#### '' @ toUpperCase (underscores_to_spaces (category_name (if_category f))) @ nl @ nl else [])
     @ input_finding_lines f @ finding_sections (Some (if_category f)) fs"

definition input_generateReport :: "InputSanitizationMonitor \<Rightarrow> InputScanResult \<Rightarrow> string" where
  "input_generateReport m r =
     ''## '' @ (if ir_status r = ''SAFE'' then [CHR 0xE2, CHR 0x9C, CHR 0x85] else [CHR 0xE2, CHR 0x9D, CHR 0x8C])
     @ '' Input Sanitization Monitor'' @ nl @ nl
     @ ''**Validator:** `'' @ im_validatorName m @ ''`'' @ nl @ nl
     @ ''**Status:** '' @ ir_status r @ nl @ nl @ ''**Scanned at:** '' @ ir_scanTimestamp r @ nl @ nl
     @ ''**Probes run:** '' @ show_nat (ir_totalProbes r) @ ''  |  **Unsafe:** '' @ show_nat (ir_unsafeCount r) @ nl @ nl
     @ ir_summary r @ nl @ nl
     @ (if length (ir_findings r) = 0 then []
        else ''---'' @ nl @ nl @ ''### '' @ [CHR 0xE2, CHR 0x9D, CHR 0x8C] @ '' Unsafe Input Findings'' @ nl @ nl
          @ finding_sections None (ir_findings r)
          @ (if length (ir_categoryCounts r) > 0
             then ''---'' @ nl @ nl @ ''### Findings by Category'' @ nl @ nl
               @ concat (map (\<lambda>(c, n). ''- **'' @ underscores_to_spaces (category_name c) @ ''**: '' @ show_nat n @ nl) (ir_categoryCounts r)) @ nl
             else []))"

definition scanAndReport ::
  "(string \<Rightarrow> jsval option) \<Rightarrow> string option \<Rightarrow> ProbeCategory list option \<Rightarrow> InputProbe list option \<Rightarrow> int \<Rightarrow> InputScanResult \<times> string" where
  "scanAndReport validator validatorName categories extraProbes now =
     (let monitor = new_input_monitor validatorName categories extraProbes; result = input_scan monitor validator now
      in (result, input_generateReport monitor result))"

section \<open>What is reported\<close>

text \<open>What the contract of the validator asks of a probe: an input that must be kept out is refused, or comes back
  as a text in which no fragment occurs in any spelling; an input that must be let in is not refused.\<close>

definition refused :: "jsval option \<Rightarrow> bool" where
  "refused outcome = (outcome = None \<or> outcome = Some (JBool False) \<or> outcome = Some JNull \<or> outcome = Some JUndefined)"

definition neutralised :: "jsval option \<Rightarrow> bool" where
  "neutralised outcome = (\<exists>s. outcome = Some (JString s)
     \<and> \<not> (\<exists>frag \<in> set DANGEROUS_FRAGMENTS. \<exists>u v. toLowerCase s = u @ toLowerCase frag @ v))"

definition handled :: "(string \<Rightarrow> jsval option) \<Rightarrow> InputProbe \<Rightarrow> bool" where
  "handled validator p =
     (if ip_expectedBehaviour p = Accept then \<not> refused (validator (ip_value p))
      else refused (validator (ip_value p)) \<or> neutralised (validator (ip_value p)))"

lemma fragment_iff: "containsDangerousFragment s \<longleftrightarrow> (\<exists>frag \<in> set DANGEROUS_FRAGMENTS. \<exists>u v. toLowerCase s = u @ toLowerCase frag @ v)"
  by (simp add: containsDangerousFragment_def list_ex_iff str_includes_iff sublist_def Let_def)

lemma refused_iff: "refused outcome \<longleftrightarrow> (case outcome of None \<Rightarrow> True | Some v \<Rightarrow> is_refusal v)"
  by (auto simp: refused_def is_refusal_def split: option.splits)

lemma neutralised_iff: "neutralised outcome \<longleftrightarrow> (\<exists>s. outcome = Some (JString s) \<and> \<not> containsDangerousFragment s)"
  by (simp add: neutralised_def fragment_iff)

lemma runProbe_None_iff: "runProbe validator p = None \<longleftrightarrow> handled validator p"
proof -
  have "run_reject p out = None \<longleftrightarrow> refused out \<or> neutralised out" "run_sanitize p out = None \<longleftrightarrow> refused out \<or> neutralised out"
    "run_accept p out = None \<longleftrightarrow> \<not> refused out" for out
    unfolding refused_iff neutralised_iff run_reject_def run_sanitize_def run_accept_def
    by (auto split: option.splits jsval.splits)
  then show ?thesis by (cases "ip_expectedBehaviour p") (simp_all add: runProbe_def handled_def)
qed

lemma runProbe_finding: "runProbe validator p = Some f \<Longrightarrow> if_probeId f = ip_id p \<and> if_category f = ip_category p \<and> if_severity f = ip_severity p"
  unfolding runProbe_def run_reject_def run_sanitize_def run_accept_def
  by (auto simp: input_finding_def split: option.splits jsval.splits if_splits ExpectedBehaviour.splits)

definition occurring :: "ProbeCategory \<Rightarrow> ProbeCategory list \<Rightarrow> nat option" where
  "occurring c cs = (let n = length (filter (\<lambda>d. d = c) cs) in if n = 0 then None else Some n)"

lemma occurring_cong: "mset cs = mset ds \<Longrightarrow> occurring c cs = occurring c ds"
  unfolding occurring_def by (metis mset_filter size_mset)

lemma probe_loop:
  "case foldl (probe_step validator) st ps of (found, counts) \<Rightarrow>
     map if_probeId found = map if_probeId (fst st) @ map ip_id (filter (\<lambda>p. \<not> handled validator p) ps)
   \<and> ((\<forall>c. jmap_get (snd st) c = occurring c (map if_category (fst st))) \<longrightarrow> (\<forall>c. jmap_get counts c = occurring c (map if_category found)))"
proof (induction ps arbitrary: st)
  case (Cons p ps)
  show ?case
  proof (cases "runProbe validator p")
    case None
    then show ?thesis using Cons.IH [of st] runProbe_None_iff [of validator p] by (simp add: probe_step_def)
  next
    case (Some f)
    let ?st = "probe_step validator st p"
    note f = runProbe_finding [OF Some]
    have "\<not> handled validator p" using runProbe_None_iff [of validator p] Some by simp
    moreover have "(\<forall>c. jmap_get (snd st) c = occurring c (map if_category (fst st))) \<Longrightarrow> \<forall>c. jmap_get (snd ?st) c = occurring c (map if_category (fst ?st))"
      using f Some by (auto simp: probe_step_def occurring_def update_conv' Let_def)
    ultimately show ?thesis using Cons.IH [of ?st] f Some by (auto simp: probe_step_def)
  qed
qed (simp add: case_prod_unfold)


text \<open>The fragments do not cover the probes: the validator that returns every text unchanged hands back the
  comment bypass, the zero-width text and the blank inputs, and none of these is reported.\<close>

lemma identity_validator_unreported:
  "list_all (\<lambda>p. handled (\<lambda>s. Some (JString s)) p)
     (filter (\<lambda>p. ip_id p \<in> {''SQL_004'', ''UNI_003'', ''EMPTY_001'', ''EMPTY_002''}) BUILT_IN_PROBES)"
  unfolding probe_lists probe_def
  by (simp add: handled_def neutralised_iff containsDangerousFragment_def DANGEROUS_FRAGMENTS_def toLowerCase_def lower_char_def Let_def startsWith_def)

end
