(* ===== verification/Webhook_Sender.thy ===== *)
theory Webhook_Sender
  imports Alert_Channels
begin

text \<open>
  The webhook sender (\<open>webhook.ts\<close>) with its configuration (\<open>config.ts\<close>), the delivery of a page to its three
  channels (\<open>deliverPage\<close> of \<open>oncall-roster.ts\<close>), the incident protocol on top of it (\<open>irps.ts\<close>) and the bounty
  log (\<open>bounty.ts\<close>), all under \<open>src/audit-guard/src\<close>.

  \<open>HookWorld\<close> is what the code finds around it: whether the log directory can be made, the outcome of each append
  to a log, the keyed hash and \<open>fetch\<close>, if the runtime has it. The abort after the timeout is one of the ways in
  which \<open>fetch\<close> may throw. An error of the file system is its message.
\<close>

section \<open>Configuration\<close>

record GuardConfig =
  gc_WEBHOOK_URL :: string
  gc_WEBHOOK_TOKEN :: string
  gc_ONCALL_CONTACTS :: string
  gc_ONCALL_ROTATION_INTERVAL :: RotationInterval
  gc_ONCALL_PAGE_WEBHOOK_URL :: string

definition env_text :: "(string \<Rightarrow> string option) \<Rightarrow> string \<Rightarrow> string \<Rightarrow> string" where
  "env_text env n fallback = (case env n of Some v \<Rightarrow> if v \<noteq> [] then v else fallback | None \<Rightarrow> fallback)"

definition load_config :: "(string \<Rightarrow> string option) \<Rightarrow> GuardConfig" where
  "load_config env =
     (let url = env_text env ''AUDIT_GUARD_WEBHOOK_URL'' []
      in \<lparr>gc_WEBHOOK_URL = url, gc_WEBHOOK_TOKEN = env_text env ''AUDIT_GUARD_WEBHOOK_TOKEN'' [],
          gc_ONCALL_CONTACTS = env_text env ''ONCALL_CONTACTS'' [],
          gc_ONCALL_ROTATION_INTERVAL = (if env ''ONCALL_ROTATION_INTERVAL'' = Some ''daily'' then Daily else Weekly),
          gc_ONCALL_PAGE_WEBHOOK_URL = env_text env ''ONCALL_PAGE_WEBHOOK_URL'' url\<rparr>)"

definition interval_name :: "RotationInterval \<Rightarrow> string" where
  "interval_name i = (if i = Daily then ''daily'' else ''weekly'')"

definition config_log :: "(string \<Rightarrow> string option) \<Rightarrow> string list" where
  "config_log env =
     (let c = load_config env
      in if env ''NODE_ENV'' \<noteq> Some ''test''
         then [''[Config] WEBHOOK_URL set to '' @ gc_WEBHOOK_URL c,
               ''[Config] WEBHOOK_TOKEN set to '' @ (if gc_WEBHOOK_TOKEN c \<noteq> [] then ''***'' else ''(empty)''),
               ''[Config] ONCALL_ROTATION_INTERVAL set to '' @ interval_name (gc_ONCALL_ROTATION_INTERVAL c)]
         else [])"

section \<open>Sending an alert\<close>

record AlertPayload =
  ap_repository :: string
  ap_alert :: string
  ap_timestamp :: string

record HookRequest =
  hq_url :: string
  hq_headers :: "(string \<times> string) list"
  hq_body :: string
  hq_timeoutMs :: "jsnum option"

text \<open>A thrown value: whether it is an object and an \<open>Error\<close>, its \<open>name\<close> and the name of its class, and its
  \<open>message\<close> (of an \<open>Error\<close>) or its text.\<close>

record Thrown =
  th_object :: bool
  th_isError :: bool
  th_name :: string
  th_class :: string
  th_text :: string

definition error_thrown :: "string \<Rightarrow> string \<Rightarrow> Thrown" where
  "error_thrown ename t = \<lparr>th_object = True, th_isError = True, th_name = ename, th_class = ename, th_text = t\<rparr>"

record HookWorld =
  hw_mkdir :: "string option"
  hw_append :: "nat \<Rightarrow> string option"
  hw_hmac :: "nat list \<Rightarrow> nat list \<Rightarrow> nat list"
  hw_fetch :: "(HookRequest \<Rightarrow> Thrown + jsval) option"

datatype SendError =
    SendNon2xx jsnum
  | SendTimeout jsnum Thrown
  | SendNetwork Thrown

fun send_error_code :: "SendError \<Rightarrow> string" where
  "send_error_code (SendNon2xx _) = ''WEBHOOK_NON_2XX_RESPONSE''"
| "send_error_code (SendTimeout _ _) = ''WEBHOOK_TIMEOUT''"
| "send_error_code (SendNetwork _) = ''WEBHOOK_NETWORK_ERROR''"

fun send_error_message :: "SendError \<Rightarrow> string" where
  "send_error_message (SendNon2xx st) = ''Webhook endpoint returned non-2xx status '' @ show_num st"
| "send_error_message (SendTimeout ms _) = ''Webhook timed out after '' @ show_num ms @ ''ms''"
| "send_error_message (SendNetwork e) = ''Webhook network error: '' @ th_text e"

record WebhookDeliveryResult =
  wr_delivered :: bool
  wr_status :: jsval
  wr_error :: "SendError option"
  wr_attemptedAt :: string

record HookTrace =
  ht_posts :: "HookRequest list"
  ht_log :: "string list"

definition payload_fields :: "AlertPayload \<Rightarrow> (string \<times> jsval) list" where
  "payload_fields p = [(''repository'', JString (ap_repository p)), (''alert'', JString (ap_alert p)), (''timestamp'', JString (ap_timestamp p))]"

text \<open>The line of the relay log for an attempt.\<close>

definition attempt_line :: "AlertPayload \<Rightarrow> WebhookDeliveryResult \<Rightarrow> string" where
  "attempt_line p r = json (JObject (payload_fields p @ [(''_delivery'', JObject [(''delivered'', JBool (wr_delivered r)),
     (''status'', wr_status r), (''attemptedAt'', JString (wr_attemptedAt r))])])) @ [CHR 0x0A]"

definition bearer :: "GuardConfig \<Rightarrow> string" where
  "bearer c = ''Bearer '' @ gc_WEBHOOK_TOKEN c"

definition webhook_request :: "HookWorld \<Rightarrow> GuardConfig \<Rightarrow> AlertPayload \<Rightarrow> jsnum \<Rightarrow> HookRequest" where
  "webhook_request w c p timeoutMs =
     (let body = json (JObject (payload_fields p))
      in \<lparr>hq_url = gc_WEBHOOK_URL c,
          hq_headers = (''Content-Type'', ''application/json'') #
            (if gc_WEBHOOK_TOKEN c \<noteq> []
             then [(''Authorization'', bearer c), (''X-Vero-Signature'', ''sha256='' @ to_hex (hw_hmac w (utf8 (gc_WEBHOOK_TOKEN c)) (utf8 body)))]
             else []),
          hq_body = body, hq_timeoutMs = Some timeoutMs\<rparr>)"

text \<open>\<open>status < 200 || status >= 300\<close>.\<close>

definition non_2xx :: "jsnum \<Rightarrow> bool" where
  "non_2xx st = (js_gt (Num 200) st \<or> js_gt st (Num 299))"

definition response_status :: "jsval \<Rightarrow> Thrown + jsnum" where
  "response_status resp =
     (if is_nullish resp then Inl (error_thrown ''TypeError'' (''Cannot read properties of '' @ js_String resp @ ('' (reading '' @ [CHR 0x27] @ ''status'' @ [CHR 0x27] @ '')'')))
      else Inr (case js_get resp ''status'' of JNumber n \<Rightarrow> n | _ \<Rightarrow> Num 0))"

text \<open>What awaiting \<open>fetch\<close> and reading the status give.\<close>

definition answer :: "(HookRequest \<Rightarrow> Thrown + jsval) \<Rightarrow> HookRequest \<Rightarrow> Thrown + jsnum" where
  "answer fetch req = (case fetch req of Inl e \<Rightarrow> Inl e | Inr resp \<Rightarrow> response_status resp)"

definition isAbort :: "Thrown \<Rightarrow> bool" where
  "isAbort e = (th_object e \<and> th_name e = ''AbortError'' \<or> th_isError e \<and> (th_name e = ''AbortError'' \<or> th_class e = ''DOMException''))"

definition answered :: "jsnum \<Rightarrow> string \<Rightarrow> WebhookDeliveryResult" where
  "answered st attemptedAt =
     \<lparr>wr_delivered = (\<not> non_2xx st), wr_status = JNumber st,
      wr_error = (if non_2xx st then Some (SendNon2xx st) else None), wr_attemptedAt = attemptedAt\<rparr>"

definition caught :: "jsnum \<Rightarrow> string \<Rightarrow> Thrown \<Rightarrow> WebhookDeliveryResult" where
  "caught timeoutMs attemptedAt e =
     \<lparr>wr_delivered = False, wr_status = JString (if isAbort e then ''TIMEOUT'' else ''NETWORK_ERROR''),
      wr_error = Some (if isAbort e then SendTimeout timeoutMs e else SendNetwork e), wr_attemptedAt = attemptedAt\<rparr>"

text \<open>Appending the line of a result as the \<open>i\<close>-th append; \<open>otherwise\<close> is what happens to its error.\<close>

definition logged ::
  "HookWorld \<Rightarrow> AlertPayload \<Rightarrow> HookRequest list \<Rightarrow> nat \<Rightarrow> (string \<Rightarrow> (string + WebhookDeliveryResult) \<times> HookTrace) \<Rightarrow> WebhookDeliveryResult
     \<Rightarrow> (string + WebhookDeliveryResult) \<times> HookTrace" where
  "logged w p posts i otherwise r =
     (case hw_append w i of
        None \<Rightarrow> (Inr r, \<lparr>ht_posts = posts, ht_log = [attempt_line p r]\<rparr>)
      | Some e \<Rightarrow> otherwise e)"

definition rejected :: "HookRequest list \<Rightarrow> string \<Rightarrow> (string + WebhookDeliveryResult) \<times> HookTrace" where
  "rejected posts e = (Inl e, \<lparr>ht_posts = posts, ht_log = []\<rparr>)"

definition webhook_sendAlert ::
  "HookWorld \<Rightarrow> GuardConfig \<Rightarrow> int \<Rightarrow> AlertPayload \<Rightarrow> jsnum option \<Rightarrow> (string + WebhookDeliveryResult) \<times> HookTrace" where
  "webhook_sendAlert w c now p timeout =
     (let attemptedAt = iso_date now; timeoutMs = (case timeout of None \<Rightarrow> Num 5000 | Some t \<Rightarrow> t)
      in if gc_WEBHOOK_URL c = []
         then (Inr \<lparr>wr_delivered = False, wr_status = JString ''NO_WEBHOOK_CONFIGURED'', wr_error = None, wr_attemptedAt = attemptedAt\<rparr>,
               \<lparr>ht_posts = [], ht_log = []\<rparr>)
         else (case hw_mkdir w of
             Some e \<Rightarrow> rejected [] e
           | None \<Rightarrow>
               (case hw_fetch w of
                  None \<Rightarrow>
                    logged w p [] 0 (rejected [])
                      \<lparr>wr_delivered = False, wr_status = JString ''FETCH_UNAVAILABLE'',
                       wr_error = Some (SendNetwork (error_thrown ''Error'' ''Global fetch is unavailable in this runtime'')), wr_attemptedAt = attemptedAt\<rparr>
                | Some fetch \<Rightarrow>
                    (let req = webhook_request w c p timeoutMs
                     in case answer fetch req of
                          Inl e \<Rightarrow> logged w p [req] 0 (rejected [req]) (caught timeoutMs attemptedAt e)
                        | Inr st \<Rightarrow>
                            logged w p [req] 0
                              (\<lambda>e. logged w p [req] 1 (rejected [req]) (caught timeoutMs attemptedAt (error_thrown ''Error'' e)))
                              (answered st attemptedAt)))))"

section \<open>A page and its channels\<close>

definition optional_text :: "string option \<Rightarrow> jsval" where
  "optional_text t = (case t of None \<Rightarrow> JUndefined | Some s \<Rightarrow> JString s)"

definition contact_value :: "OnCallContact \<Rightarrow> jsval" where
  "contact_value c = JObject [(''name'', JString (oc_name c)), (''email'', JString (oc_email c)),
     (''slack'', optional_text (oc_slack c)), (''phone'', optional_text (oc_phone c)), (''role'', JString (role_name (oc_role c)))]"

definition page_fields :: "PagePayload \<Rightarrow> (string \<times> jsval) list" where
  "page_fields p = [(''contact'', contact_value (pp_contact p)), (''alert'', JString (pp_alert p)), (''severity'', JString (pp_severity p)),
     (''timestamp'', JString (pp_timestamp p)), (''repository'', JString (pp_repository p)), (''rotationId'', JNumber (Num (int (pp_rotationId p))))]"

definition page_line :: "PagePayload \<Rightarrow> string" where
  "page_line p = json (JObject (page_fields p)) @ [CHR 0x0A]"

record PageTrace =
  pt_log :: "string list"
  pt_console :: "string list"
  pt_posts :: "HookRequest list"

definition page_messages :: "PagePayload \<Rightarrow> string list" where
  "page_messages p =
     (let c = pp_contact p
      in [''[OnCallRoster] Paging '' @ oc_name c @ '' ('' @ role_name (oc_role c) @ '') at '' @ oc_email c @ ('' '' @ [CHR 0xE2, CHR 0x80, CHR 0x94] @ '' '') @ pp_alert p]
         @ (case oc_slack c of Some s \<Rightarrow> if s \<noteq> [] then [''[OnCallRoster] Slack DM to '' @ s @ '': '' @ pp_alert p] else [] | None \<Rightarrow> [])
         @ (case oc_phone c of Some s \<Rightarrow> if s \<noteq> [] then [''[OnCallRoster] SMS to '' @ s @ '': ['' @ pp_severity p @ ''] '' @ pp_alert p] else [] | None \<Rightarrow> []))"

definition page_request :: "GuardConfig \<Rightarrow> PagePayload \<Rightarrow> HookRequest" where
  "page_request c p =
     \<lparr>hq_url = gc_WEBHOOK_URL c,
      hq_headers = (''Content-Type'', ''application/json'') # (if gc_WEBHOOK_TOKEN c \<noteq> [] then [(''Authorization'', bearer c)] else []),
      hq_body = json (JObject ((''type'', JString ''oncall_page'') # page_fields p)), hq_timeoutMs = None\<rparr>"

definition deliverPage :: "HookWorld \<Rightarrow> GuardConfig \<Rightarrow> nat \<Rightarrow> PagePayload \<Rightarrow> PageTrace \<Rightarrow> string option \<times> PageTrace" where
  "deliverPage w c i p t =
     (case hw_mkdir w of
        Some e \<Rightarrow> (Some e, t)
      | None \<Rightarrow>
          (case hw_append w i of
             Some e \<Rightarrow> (Some e, t)
           | None \<Rightarrow>
               (let t1 = t\<lparr>pt_log := pt_log t @ [page_line p], pt_console := pt_console t @ page_messages p\<rparr>; req = page_request c p
                in if gc_WEBHOOK_URL c = [] then (None, t1)
                   else (case hw_fetch w of
                       None \<Rightarrow> (None, t1)
                     | Some fetch \<Rightarrow>
                         (None, t1\<lparr>pt_posts := pt_posts t1 @ [req],
                            pt_console := pt_console t1 @ (case fetch req of Inl e \<Rightarrow> [''[OnCallRoster] Webhook delivery failed: '' @ th_text e] | Inr _ \<Rightarrow> [])\<rparr>)))))"

fun deliver_each :: "HookWorld \<Rightarrow> GuardConfig \<Rightarrow> nat \<Rightarrow> PagePayload list \<Rightarrow> PageTrace \<Rightarrow> string option \<times> PageTrace" where
  "deliver_each w c i [] t = (None, t)"
| "deliver_each w c i (p # ps) t =
     (case deliverPage w c i p t of
        (Some e, t1) \<Rightarrow> (Some e, t1)
      | (None, t1) \<Rightarrow> deliver_each w c (Suc i) ps t1)"

definition on_call_pages :: "int \<Rightarrow> OnCall \<Rightarrow> string \<Rightarrow> string \<Rightarrow> string \<Rightarrow> PagePayload list" where
  "on_call_pages now onCall alert severity repository =
     map (\<lambda>contact. \<lparr>pp_contact = contact, pp_alert = alert, pp_severity = severity, pp_timestamp = iso_date now,
            pp_repository = repository, pp_rotationId = cu_rotationId onCall\<rparr>)
       [cu_primary onCall, cu_secondary onCall, cu_manager onCall]"

definition page_on_call ::
  "HookWorld \<Rightarrow> GuardConfig \<Rightarrow> (nat \<Rightarrow> jsnum \<Rightarrow> jsnum) \<Rightarrow> int \<Rightarrow> OnCallRoster \<Rightarrow> string \<Rightarrow> string \<Rightarrow> string \<Rightarrow> PageTrace
     \<Rightarrow> string option \<times> PageTrace" where
  "page_on_call w c add_days now r alert severity repository t =
     (case getCurrentOnCall add_days r of
        Inl _ \<Rightarrow> (Some ''Invalid time value'', t)
      | Inr onCall \<Rightarrow> deliver_each w c 0 (on_call_pages now onCall alert severity repository) t)"

text \<open>\<open>saveState\<close>: the text written, and the message when the directory or the file cannot be written. \<open>toISOString\<close>
  has been called on a current time.\<close>

definition state_text :: "nat \<Rightarrow> int \<Rightarrow> string" where
  "state_text idx lastMs = (''{'' @ [CHR 0x0A] @ ''  '' @ [CHR 0x22] @ ''currentPrimaryIndex'' @ [CHR 0x22] @ '': '') @ show_int (int idx) @ ('','' @ [CHR 0x0A] @ ''  '' @ [CHR 0x22] @ ''lastRotated'' @ [CHR 0x22] @ '': '') @ json_quote (iso_date lastMs) @ ([CHR 0x0A] @ ''}'')"

definition saveState :: "string option \<Rightarrow> string option \<Rightarrow> nat \<Rightarrow> int \<Rightarrow> string option \<Rightarrow> string option \<times> string list" where
  "saveState mkdir write idx lastMs file =
     (case mkdir of
        Some e \<Rightarrow> (file, [''[OnCallRoster] Failed to save state: '' @ e])
      | None \<Rightarrow>
          (case write of
             Some e \<Rightarrow> (file, [''[OnCallRoster] Failed to save state: '' @ e])
           | None \<Rightarrow> (Some (state_text idx lastMs), [])))"

section \<open>The incident protocol\<close>

record IncidentReport =
  in_severity :: Severity
  in_title :: string
  in_description :: string
  in_repository :: string

text \<open>\<open>made\<close> is the roster that \<open>new OnCallRoster()\<close> makes at this moment.\<close>

definition getRoster :: "OnCallRoster \<Rightarrow> OnCallRoster option \<Rightarrow> OnCallRoster \<times> OnCallRoster option" where
  "getRoster made inst = (case inst of None \<Rightarrow> (made, Some made) | Some r \<Rightarrow> (r, Some r))"

definition resetRoster :: "OnCallRoster option \<Rightarrow> OnCallRoster option" where
  "resetRoster inst = None"

definition say :: "string \<Rightarrow> PageTrace \<Rightarrow> PageTrace" where
  "say line t = t\<lparr>pt_console := pt_console t @ [line]\<rparr>"

definition incident_message :: "IncidentReport \<Rightarrow> string" where
  "incident_message i = ''['' @ severity_name (in_severity i) @ ''] '' @ in_title i @ ('' '' @ [CHR 0xE2, CHR 0x80, CHR 0x94] @ '' '') @ in_description i"

definition escalateIncident ::
  "HookWorld \<Rightarrow> GuardConfig \<Rightarrow> (nat \<Rightarrow> jsnum \<Rightarrow> jsnum) \<Rightarrow> int \<Rightarrow> OnCallRoster \<Rightarrow> OnCallRoster option \<Rightarrow> IncidentReport \<Rightarrow> PageTrace
     \<Rightarrow> string option \<times> OnCallRoster option \<times> PageTrace" where
  "escalateIncident w c add_days now made inst i t =
     (case getRoster made inst of (roster, inst') \<Rightarrow>
       (case page_on_call w c add_days now roster (incident_message i) (severity_name (in_severity i)) (in_repository i)
               (say (''[IRP] Escalating incident: '' @ incident_message i) t) of
          (Some e, t1) \<Rightarrow> (Some e, inst', t1)
        | (None, t1) \<Rightarrow> (None, inst', say ((''[IRP] On'' @ [CHR 0xE2, CHR 0x80, CHR 0x91] @ ''call roster notified for '') @ severity_name (in_severity i) @ '' incident.'') t1)))"

definition triggerCircuitBreaker ::
  "HookWorld \<Rightarrow> GuardConfig \<Rightarrow> (nat \<Rightarrow> jsnum \<Rightarrow> jsnum) \<Rightarrow> int \<Rightarrow> OnCallRoster \<Rightarrow> OnCallRoster option \<Rightarrow> string option \<Rightarrow> PageTrace
     \<Rightarrow> string option \<times> OnCallRoster option \<times> PageTrace" where
  "triggerCircuitBreaker w c add_days now made inst reason t =
     (let msg = (case reason of Some r \<Rightarrow> if r \<noteq> [] then r else (''CRITICAL finding '' @ [CHR 0xE2, CHR 0x80, CHR 0x94] @ '' manual intervention required'')
            | None \<Rightarrow> (''CRITICAL finding '' @ [CHR 0xE2, CHR 0x80, CHR 0x94] @ '' manual intervention required''))
      in case getRoster made inst of (roster, inst') \<Rightarrow>
        (case page_on_call w c add_days now roster msg ''CRITICAL'' ''vero-audit-guard'' (say (''[IRP] Circuit breaker triggered: '' @ msg) t) of
           (Some e, t1) \<Rightarrow> (Some e, inst', t1)
         | (None, t1) \<Rightarrow> (None, inst', say (''[IRP] Circuit breaker engaged '' @ [CHR 0xE2, CHR 0x80, CHR 0x94] @ '' protocol paused.'') t1)))"

section \<open>Bounty submissions\<close>

record BountyPayload =
  bp_name :: string
  bp_email :: string
  bp_description :: string
  bp_severity :: string
  bp_timestamp :: string

text \<open>The time of the submission replaces the one in the payload.\<close>

definition bounty_line :: "int \<Rightarrow> BountyPayload \<Rightarrow> string" where
  "bounty_line now p = json (JObject [(''name'', JString (bp_name p)), (''email'', JString (bp_email p)),
     (''description'', JString (bp_description p)), (''severity'', JString (bp_severity p)), (''timestamp'', JString (iso_date now))]) @ [CHR 0x0A]"

definition submitBounty :: "string option \<Rightarrow> string option \<Rightarrow> int \<Rightarrow> BountyPayload \<Rightarrow> string list \<Rightarrow> string option \<times> string list" where
  "submitBounty mkdir appended now p log =
     (case mkdir of
        Some e \<Rightarrow> (Some e, log)
      | None \<Rightarrow> (case appended of Some e \<Rightarrow> (Some e, log) | None \<Rightarrow> (None, log @ [bounty_line now p])))"

section \<open>What the sender reports\<close>

text \<open>The answer to the one request, when a request is made at all.\<close>

definition request_made :: "HookWorld \<Rightarrow> GuardConfig \<Rightarrow> bool" where
  "request_made w c = (gc_WEBHOOK_URL c \<noteq> [] \<and> hw_mkdir w = None \<and> hw_fetch w \<noteq> None)"

lemmas send_defs = webhook_sendAlert_def logged_def rejected_def answered_def caught_def Let_def

lemma success_range: "non_2xx st \<longleftrightarrow> \<not> (case st of Num k \<Rightarrow> 200 \<le> k \<and> k < 300 | JNaN \<Rightarrow> True | _ \<Rightarrow> False)"
  by (cases st) (auto simp: non_2xx_def)

text \<open>
  C31. Sending an alert: at most one request is made, and exactly when a webhook is configured, the log directory
  can be made and the runtime has fetch; it goes to the configured address with the payload as its body, and with
  a token it carries the bearer header and the keyed hash of that body. The result says delivered exactly when
  the request was answered with a status from 200 to 299 (or one that is no number to compare) and the attempt
  could be logged. A result other than that of a missing configuration has left exactly one line in the relay
  log, which says what the result says; a rejection leaves none.
\<close>

theorem webhook_send_exact:
  "let timeoutMs = (case timeout of None \<Rightarrow> Num 5000 | Some t \<Rightarrow> t); req = webhook_request w c p timeoutMs; tok = gc_WEBHOOK_TOKEN c;
       (r, t) = webhook_sendAlert w c now p timeout
   in ht_posts t = (if request_made w c then [req] else [])
    \<and> hq_url req = gc_WEBHOOK_URL c \<and> hq_body req = json (JObject (payload_fields p))
    \<and> map_of (hq_headers req) ''Authorization'' = (if tok = [] then None else Some (''Bearer '' @ tok))
    \<and> map_of (hq_headers req) ''X-Vero-Signature'' =
        (if tok = [] then None else Some (''sha256='' @ to_hex (hw_hmac w (utf8 tok) (utf8 (hq_body req)))))
    \<and> ((\<exists>d. r = Inr d \<and> wr_delivered d) \<longleftrightarrow>
        request_made w c \<and> hw_append w 0 = None
        \<and> (\<exists>st. answer (the (hw_fetch w)) req = Inr st \<and> (case st of Num k \<Rightarrow> 200 \<le> k \<and> k < 300 | JNaN \<Rightarrow> True | _ \<Rightarrow> False)))
    \<and> ht_log t = (case r of Inl _ \<Rightarrow> [] | Inr d \<Rightarrow> if gc_WEBHOOK_URL c = [] then [] else [attempt_line p d])"
proof -
  define timeoutMs where "timeoutMs = (case timeout of None \<Rightarrow> Num 5000 | Some t \<Rightarrow> t)"
  define req where "req = webhook_request w c p timeoutMs"
  have form: "hq_url req = gc_WEBHOOK_URL c \<and> hq_body req = json (JObject (payload_fields p))
    \<and> map_of (hq_headers req) ''Authorization'' = (if gc_WEBHOOK_TOKEN c = [] then None else Some (''Bearer '' @ gc_WEBHOOK_TOKEN c))
    \<and> map_of (hq_headers req) ''X-Vero-Signature'' = (if gc_WEBHOOK_TOKEN c = [] then None
        else Some (''sha256='' @ to_hex (hw_hmac w (utf8 (gc_WEBHOOK_TOKEN c)) (utf8 (hq_body req)))))"
    by (simp add: req_def webhook_request_def bearer_def Let_def)
  obtain r t where rt: "webhook_sendAlert w c now p timeout = (r, t)" by fastforce
  have sent: "ht_posts t = (if request_made w c then [req] else [])
    \<and> ((\<exists>d. r = Inr d \<and> wr_delivered d) \<longleftrightarrow> request_made w c \<and> hw_append w 0 = None
        \<and> (\<exists>st. answer (the (hw_fetch w)) req = Inr st \<and> \<not> non_2xx st))
    \<and> ht_log t = (case r of Inl _ \<Rightarrow> [] | Inr d \<Rightarrow> if gc_WEBHOOK_URL c = [] then [] else [attempt_line p d])"
  proof (cases "hw_fetch w")
    case None
    then show ?thesis using rt by (auto simp: send_defs request_made_def split: option.splits if_splits)
  next
    case (Some fetch)
    then show ?thesis using rt unfolding webhook_sendAlert_def Let_def timeoutMs_def [symmetric] req_def [symmetric]
      by (cases "answer fetch req") (auto simp: send_defs request_made_def split: option.splits if_splits)
  qed
  show ?thesis
    unfolding Let_def timeoutMs_def [symmetric] req_def [symmetric] rt prod.case using form sent unfolding success_range by blast
qed

text \<open>An alert the endpoint has taken is reported as a network error when its line cannot be appended at first.\<close>

lemma delivered_reported_lost:
  assumes "request_made w c" "hw_append w 0 = Some e" "hw_append w 1 = None"
    "answer (the (hw_fetch w)) (webhook_request w c p (Num 5000)) = Inr (Num 200)"
  shows "\<exists>d t. webhook_sendAlert w c now p None = (Inr d, t) \<and> \<not> wr_delivered d \<and> wr_status d = JString ''NETWORK_ERROR''"
  using assms by (auto simp: send_defs request_made_def isAbort_def error_thrown_def)

section \<open>What paging guarantees\<close>

definition channel_posts :: "HookWorld \<Rightarrow> GuardConfig \<Rightarrow> PagePayload list \<Rightarrow> HookRequest list" where
  "channel_posts w c ps = (if gc_WEBHOOK_URL c \<noteq> [] \<and> hw_fetch w \<noteq> None then map (page_request c) ps else [])"

text \<open>The pages that could be written to the page log.\<close>

definition page_write :: "HookWorld \<Rightarrow> nat \<Rightarrow> string option" where
  "page_write w i = (case hw_mkdir w of Some e \<Rightarrow> Some e | None \<Rightarrow> hw_append w i)"

text \<open>Delivering pages to all channels refines the writing of the page log in \<open>deliver_pages\<close>.\<close>

lemma deliver_each_refines:
  "let (err, ps') = deliver_pages (page_write w) i ps; (err', t') = deliver_each w c i ps t
   in err' = err \<and> pt_log t' = pt_log t @ map page_line ps' \<and> pt_posts t' = pt_posts t @ channel_posts w c ps'"
proof (induction ps arbitrary: i t)
  case (Cons p ps)
  show ?case
    using Cons.IH [of "Suc i" "snd (deliverPage w c i p t)"]
    by (cases "hw_mkdir w"; cases "hw_append w i"; cases "hw_fetch w")
      (auto simp: deliverPage_def page_write_def channel_posts_def Let_def split: prod.splits if_splits)
qed (simp add: channel_posts_def)

lemma page_on_call_refines:
  "let (err, ps) = pageCurrentOnCall add_days (page_write w) now r alert severity repository;
       (err', t') = page_on_call w c add_days now r alert severity repository t
   in err' = err \<and> pt_log t' = pt_log t @ map page_line ps \<and> pt_posts t' = pt_posts t @ channel_posts w c ps"
proof (cases "getCurrentOnCall add_days r")
  case (Inr onCall)
  then show ?thesis
    using deliver_each_refines [of w 0 "on_call_pages now onCall alert severity repository" c t]
    by (simp add: page_on_call_def pageCurrentOnCall_def on_call_pages_def)
qed (simp add: page_on_call_def pageCurrentOnCall_def channel_posts_def)

lemma deliver_pages_all: "(\<And>j. j < length ps \<Longrightarrow> write (i + j) = None) \<Longrightarrow> deliver_pages write i ps = (None, ps)"
proof (induction ps arbitrary: i)
  case (Cons p ps)
  have "write i = None" using Cons.prems [of 0] by simp
  moreover have "write (Suc i + j) = None" if "j < length ps" for j
    using Cons.prems [of "Suc j"] that by simp
  ultimately show ?case using Cons.IH [of "Suc i"] by simp
qed simp

text \<open>
  C32. Escalating an incident pages everyone on call: when the rotation time is a date and the page log can be
  written, the escalation succeeds and adds one line each for the primary, the secondary and the manager whose turn it
  is to the page log, the JSON of a page with the text \<open>[severity] title - description\<close>, the severity, the time, the repository
  and the number of the rotation, whatever the webhook answers; the same three pages go to the webhook when one is configured
  and the runtime has fetch. The roster used is the stored one, or a new one that is then kept.
\<close>

theorem escalation_pages_everyone:
  assumes "getCurrentOnCall add_days (case inst of None \<Rightarrow> made | Some r \<Rightarrow> r) = Inr onCall"
    and "hw_mkdir w = None" "\<And>i. i < 3 \<Longrightarrow> hw_append w i = None"
    and "escalateIncident w c add_days now made inst incident t = (err, inst', t')"
  shows "let r = (case inst of None \<Rightarrow> made | Some r \<Rightarrow> r);
       line = (\<lambda>contact.
         [(''contact'', contact_value contact),
          (''alert'', JString (''['' @ severity_name (in_severity incident) @ ''] '' @ in_title incident
             @ ('' '' @ [CHR 0xE2, CHR 0x80, CHR 0x94] @ '' '') @ in_description incident)),
          (''severity'', JString (severity_name (in_severity incident))), (''timestamp'', JString (iso_date now)),
          (''repository'', JString (in_repository incident)), (''rotationId'', JNumber (Num (int (rs_currentPrimaryIndex (or_state r)))))]);
       everyone = [contact_at r PRIMARY, contact_at r SECONDARY, contact_at r MANAGER]
     in err = None \<and> inst' = Some r
      \<and> pt_log t' = pt_log t @ map (\<lambda>contact. json (JObject (line contact)) @ [CHR 0x0A]) everyone
      \<and> map (\<lambda>q. (hq_url q, hq_body q)) (drop (length (pt_posts t)) (pt_posts t'))
          = (if gc_WEBHOOK_URL c \<noteq> [] \<and> hw_fetch w \<noteq> None
             then map (\<lambda>contact. (gc_WEBHOOK_URL c, json (JObject ((''type'', JString ''oncall_page'') # line contact)))) everyone else [])"
proof -
  let ?r = "case inst of None \<Rightarrow> made | Some r \<Rightarrow> r"
  let ?m = "incident_message incident" and ?s = "severity_name (in_severity incident)" and ?p = "in_repository incident"
  have onCall: "cu_primary onCall = contact_at ?r PRIMARY" "cu_secondary onCall = contact_at ?r SECONDARY" "cu_manager onCall = contact_at ?r MANAGER"
    "cu_rotationId onCall = rs_currentPrimaryIndex (or_state ?r)"
    using assms(1) unfolding getCurrentOnCall_def by (auto simp: map_sum_def split: sum.splits)
  have "deliver_pages (page_write w) 0 (on_call_pages now onCall ?m ?s ?p) = (None, on_call_pages now onCall ?m ?s ?p)"
    using assms(2,3) by (intro deliver_pages_all) (simp add: on_call_pages_def page_write_def)
  hence "pageCurrentOnCall add_days (page_write w) now ?r ?m ?s ?p = (None, on_call_pages now onCall ?m ?s ?p)"
    using assms(1) by (simp add: pageCurrentOnCall_def on_call_pages_def)
  hence "err = None \<and> inst' = Some ?r \<and> pt_log t' = pt_log t @ map page_line (on_call_pages now onCall ?m ?s ?p)
      \<and> pt_posts t' = pt_posts t @ channel_posts w c (on_call_pages now onCall ?m ?s ?p)"
    using page_on_call_refines [of add_days w now ?r ?m ?s ?p c "say (''[IRP] Escalating incident: '' @ ?m) t"] assms(4)
    by (auto simp: escalateIncident_def getRoster_def say_def Let_def split: option.splits prod.splits)
  thus ?thesis
    by (simp add: on_call_pages_def page_line_def page_fields_def incident_message_def onCall channel_posts_def page_request_def Let_def)
qed

definition quiet_world :: HookWorld where
  "quiet_world = \<lparr>hw_mkdir = None, hw_append = \<lambda>_. None, hw_hmac = \<lambda>_ _. [], hw_fetch = Some (\<lambda>_. Inl (error_thrown ''TypeError'' ''fetch failed''))\<rparr>"

definition quiet_config :: GuardConfig where
  "quiet_config = \<lparr>gc_WEBHOOK_URL = ''https://hook'', gc_WEBHOOK_TOKEN = [], gc_ONCALL_CONTACTS = [], gc_ONCALL_ROTATION_INTERVAL = Weekly,
     gc_ONCALL_PAGE_WEBHOOK_URL = ''https://hook''\<rparr>"

definition quiet_roster :: OnCallRoster where
  "quiet_roster = new_roster 0 None None None None None"

theorem escalation_pages_everyone_witness:
  "let (err, inst, t) = escalateIncident quiet_world quiet_config (\<lambda>_ s. s) 0 quiet_roster None
     \<lparr>in_severity = HIGH, in_title = ''t'', in_description = ''d'', in_repository = ''r''\<rparr> \<lparr>pt_log = [], pt_console = [], pt_posts = []\<rparr>
   in err = None \<and> inst = Some quiet_roster \<and> length (pt_log t) = 3 \<and> map hq_url (pt_posts t) = replicate 3 ''https://hook''"
proof -
  let ?i = "\<lparr>in_severity = HIGH, in_title = ''t'', in_description = ''d'', in_repository = ''r''\<rparr>"
  let ?t = "\<lparr>pt_log = [], pt_console = [], pt_posts = []\<rparr>"
  obtain onCall where o: "getCurrentOnCall (\<lambda>_ s. s) (case None of None \<Rightarrow> quiet_roster | Some r \<Rightarrow> r) = Inr onCall"
    by (simp add: getCurrentOnCall_def quiet_roster_def new_roster_def autoRotate_def getDayOfRotation_def loadState_def
        defaultRotationInterval_def valid_time_def Let_def)
  obtain err inst t where e: "escalateIncident quiet_world quiet_config (\<lambda>_ s. s) 0 quiet_roster None ?i ?t = (err, inst, t)"
    by (metis prod_cases3)
  note paged = escalation_pages_everyone [OF o _ _ e, unfolded Let_def]
  have u: "gc_WEBHOOK_URL quiet_config = ''https://hook''" "hw_fetch quiet_world \<noteq> None" by (simp_all add: quiet_world_def quiet_config_def)
  have "map fst (map (\<lambda>q. (hq_url q, hq_body q)) (pt_posts t)) = replicate 3 ''https://hook''"
    using paged unfolding u by (simp add: quiet_world_def numeral_3_eq_3 del: map_map)
  then have "map hq_url (pt_posts t) = replicate 3 ''https://hook''" by (simp add: comp_def)
  then show ?thesis using paged unfolding e by (simp add: quiet_world_def)
qed

end
