(* ===== verification/Js_Number.thy ===== *)
theory Js_Number
  imports Complex_Main Js_Text
begin

text \<open>
  \<open>Number(text)\<close>: what the language reads out of a text. Decimal literals are exact rationals in place of
  doubles.
\<close>

datatype js_real = Finite rat | Plus_infinity | Minus_infinity | No_number

definition read_mantissa :: "string \<Rightarrow> rat option" where
  "read_mantissa s =
     (let a = takeWhile is_digit s; b = dropWhile is_digit s
      in case b of
           [] \<Rightarrow> if a = [] then None else Some (of_nat (read_base 10 a))
         | c # f \<Rightarrow>
             if c = CHR ''.'' \<and> list_all is_digit f \<and> (a \<noteq> [] \<or> f \<noteq> [])
             then Some (of_nat (read_base 10 a) + of_nat (read_base 10 f) / 10 ^ length f) else None)"

definition read_digits :: "string \<Rightarrow> nat option" where
  "read_digits s = (if s \<noteq> [] \<and> list_all is_digit s then Some (read_base 10 s) else None)"

text \<open>The value of ten to the power that a text with an optional sign denotes.\<close>

definition read_power :: "string \<Rightarrow> rat option" where
  "read_power s =
     (case s of
        [] \<Rightarrow> None
      | c # r \<Rightarrow>
          if c = CHR ''-'' then map_option (\<lambda>n. 1 / 10 ^ n) (read_digits r)
          else if c = CHR ''+'' then map_option (\<lambda>n. 10 ^ n) (read_digits r)
          else map_option (\<lambda>n. 10 ^ n) (read_digits s))"

definition is_exponent_mark :: "char \<Rightarrow> bool" where "is_exponent_mark c = (c = CHR ''e'' \<or> c = CHR ''E'')"

definition read_decimal :: "string \<Rightarrow> rat option" where
  "read_decimal s =
     (let m = takeWhile (\<lambda>c. \<not> is_exponent_mark c) s; e = dropWhile (\<lambda>c. \<not> is_exponent_mark c) s
      in case e of
           [] \<Rightarrow> read_mantissa m
         | _ # p \<Rightarrow> (case (read_mantissa m, read_power p) of (Some q, Some t) \<Rightarrow> Some (q * t) | _ \<Rightarrow> None))"

definition digit_of_base :: "nat \<Rightarrow> char \<Rightarrow> bool" where
  "digit_of_base b c = (case digit_value (lower_char c) of Some d \<Rightarrow> d < b | None \<Rightarrow> False)"

text \<open>\<open>0x\<close>, \<open>0o\<close> and \<open>0b\<close>, without a sign.\<close>

definition read_prefixed :: "string \<Rightarrow> rat option" where
  "read_prefixed s =
     (case s of
        z # p # ds \<Rightarrow>
          (let b = (if p = CHR ''x'' \<or> p = CHR ''X'' then 16 else if p = CHR ''o'' \<or> p = CHR ''O'' then 8
                    else if p = CHR ''b'' \<or> p = CHR ''B'' then 2 else 0)
           in if z = CHR ''0'' \<and> b \<noteq> 0 \<and> ds \<noteq> [] \<and> list_all (digit_of_base b) ds
              then Some (of_nat (read_base b (map lower_char ds))) else None)
      | _ \<Rightarrow> None)"

definition signed :: "string \<Rightarrow> js_real" where
  "signed t =
     (let negative = (t \<noteq> [] \<and> hd t = CHR ''-''); u = (if t \<noteq> [] \<and> (hd t = CHR ''-'' \<or> hd t = CHR ''+'') then tl t else t)
      in if u = ''Infinity'' then (if negative then Minus_infinity else Plus_infinity)
         else (case read_decimal u of Some q \<Rightarrow> Finite (if negative then - q else q) | None \<Rightarrow> No_number))"

definition js_Number :: "string \<Rightarrow> js_real" where
  "js_Number s =
     (let t = trim s
      in if t = [] then Finite 0
         else (case read_prefixed t of Some q \<Rightarrow> Finite q | None \<Rightarrow> signed t))"

definition is_whole :: "rat \<Rightarrow> bool" where "is_whole q = (of_int \<lfloor>q\<rfloor> = q)"

fun whole_number :: "js_real \<Rightarrow> jsnum" where
  "whole_number (Finite q) = Num \<lfloor>q\<rfloor>"
| "whole_number Plus_infinity = JInf"
| "whole_number Minus_infinity = JNegInf"
| "whole_number No_number = JNaN"

section \<open>Decimal integers\<close>

lemma takeWhile_all [simp]: "list_all p s \<Longrightarrow> takeWhile p s = s"
  by (induction s) auto

lemma dropWhile_all [simp]: "list_all p s \<Longrightarrow> dropWhile p s = []"
  by (induction s) auto

lemma digit_plain: "is_digit c \<Longrightarrow> \<not> is_exponent_mark c \<and> \<not> is_ws c \<and> c \<noteq> CHR ''-'' \<and> c \<noteq> CHR ''+'' \<and> c \<noteq> CHR ''I''
    \<and> c \<notin> set ''xXoObB''"
  by (auto simp: is_digit_def is_exponent_mark_def is_ws_def Let_def)

lemma trim_plain: "\<forall>c \<in> set s. \<not> is_ws c \<Longrightarrow> trim s = s"
proof -
  have "dropWhile is_ws t = t" if "\<forall>c \<in> set t. \<not> is_ws c" for t using that by (cases t) auto
  from this [of s] this [of "rev s"] show "\<forall>c \<in> set s. \<not> is_ws c \<Longrightarrow> trim s = s" by (simp add: trim_def)
qed

lemma read_prefixed_plain: "\<forall>c \<in> set s. c \<notin> set ''xXoObB'' \<Longrightarrow> read_prefixed s = None"
  by (auto simp: read_prefixed_def split: list.splits)

lemma js_Number_digits:
  assumes "s \<noteq> []" "\<forall>c \<in> set s. is_digit c"
  shows "js_Number s = Finite (of_nat (read_base 10 s))"
proof -
  have plain: "\<forall>c \<in> set s. \<not> is_exponent_mark c \<and> \<not> is_ws c \<and> c \<noteq> CHR ''-'' \<and> c \<noteq> CHR ''+'' \<and> c \<noteq> CHR ''I'' \<and> c \<notin> set ''xXoObB''"
    using assms(2) digit_plain by blast
  have "trim s = s" using plain by (intro trim_plain) auto
  moreover have "read_prefixed s = None" using plain by (intro read_prefixed_plain) auto
  moreover have "hd s \<noteq> CHR ''-''" "hd s \<noteq> CHR ''+''" using bspec [OF plain hd_in_set [OF assms(1)]] by simp_all
  moreover have "s \<noteq> ''Infinity''" using bspec [OF plain hd_in_set [OF assms(1)]] by force
  moreover have "read_decimal s = Some (of_nat (read_base 10 s))"
    using assms plain by (simp add: read_decimal_def read_mantissa_def list_all_iff)
  ultimately show ?thesis using assms(1) by (simp add: js_Number_def signed_def Let_def)
qed

text \<open>The decimal print of a natural number reads back as that number.\<close>

lemma js_Number_show_nat: "js_Number (show_nat n) = Finite (of_nat n)"
  using js_Number_digits [OF show_base_nonempty, of 10 n] is_digit_show_nat [of _ n] read_show_base [of 10 n] by simp

end
