(* ===== verification/Log_Backup.thy ===== *)
theory Log_Backup
  imports Js_Number Js_Regex Guard_Prelude
begin

text \<open>
  Backups of the log directory (\<open>backup.ts\<close>) and archiving of old logs (\<open>archiver.ts\<close>, \<open>archive-cli.ts\<close>, all
  under \<open>src/audit-guard/src\<close>).

  A file system maps resolved paths, which are lists of names, to directories and files; its operations are
  those of Node's \<open>fs\<close> module that the code calls. \<open>rsync\<close> is an external program: what running a command
  does to the file system, and whether it fails, is an argument. So are the uploads of the archiver. An error
  of \<open>fs\<close> is its code. There are no symbolic links, and permissions never refuse an operation.
\<close>

section \<open>Paths and files\<close>

type_synonym path = "string list"

datatype Node = Dir | File string

type_synonym fs = "path \<Rightarrow> Node option"

text \<open>\<open>path.resolve(input)\<close> from the working directory.\<close>

fun step_into :: "path \<Rightarrow> string list \<Rightarrow> path" where
  "step_into p [] = p"
| "step_into p (seg # segs) =
     (if seg = [] \<or> seg = ''.'' then step_into p segs
      else if seg = ''..'' then step_into (butlast p) segs
      else step_into (p @ [seg]) segs)"

definition normalizePath :: "path \<Rightarrow> string \<Rightarrow> path" where
  "normalizePath cwd input = step_into (if startsWith input ''/'' then [] else cwd) (split_on CHR ''/'' input)"

definition existsSync :: "fs \<Rightarrow> path \<Rightarrow> bool" where
  "existsSync f p = (f p \<noteq> None)"

definition is_file :: "fs \<Rightarrow> path \<Rightarrow> bool" where
  "is_file f p = (case f p of Some (File _) \<Rightarrow> True | _ \<Rightarrow> False)"

text \<open>\<open>mkdirSync(p, { recursive: true })\<close> makes every missing directory on the way; a file on the way is an error.\<close>

definition mkdirSync :: "path \<Rightarrow> fs \<Rightarrow> string + fs" where
  "mkdirSync p f =
     (if list_ex (is_file f) (prefixes p) then Inl (if is_file f p then ''EEXIST'' else ''ENOTDIR'')
      else Inr (\<lambda>q. if prefix q p then Some Dir else f q))"

definition rmSync :: "path \<Rightarrow> fs \<Rightarrow> fs" where
  "rmSync p f = (\<lambda>q. if prefix p q then None else f q)"

text \<open>
  \<open>cpSync(src, dst, { recursive: true, force: true })\<close> merges: what the source has replaces what the destination has in
  the same place, and whatever else the destination has is kept. A directory that would land on a file, or a file on a
  directory, is an error at the destination itself; further down it is not looked for.\<close>

definition cpSync :: "path \<Rightarrow> path \<Rightarrow> fs \<Rightarrow> string + fs" where
  "cpSync src dst f =
     (if f src = None then Inl ''ENOENT''
      else if prefix src dst then Inl ''ERR_FS_CP_EINVAL''
      else if f src = Some Dir \<and> is_file f dst then Inl ''ERR_FS_CP_DIR_TO_NON_DIR''
      else if is_file f src \<and> f dst = Some Dir then Inl ''ERR_FS_CP_NON_DIR_TO_DIR''
      else Inr (\<lambda>q. if prefix dst q then (case f (src @ drop (length dst) q) of None \<Rightarrow> f q | Some n \<Rightarrow> Some n) else f q))"

section \<open>Backup and restore\<close>

definition driveRe :: regex where
  "driveRe = seqs [At_start, Cls (\<lambda>c. in_range CHR ''a'' CHR ''z'' c \<or> in_range CHR ''A'' CHR ''Z'' c), lit '':'', one_of [CHR 0x5C, CHR ''/'']]"

definition hostRe :: regex where
  "hostRe = seqs [At_start, opt (Seq (some1 (Cls (\<lambda>c. word_char c \<or> c = CHR ''-''))) (lit ''@'')),
     some1 (Cls (\<lambda>c. word_char c \<or> c = CHR ''.'' \<or> c = CHR ''-'')), lit '':'']"

definition isRemoteDestination :: "string \<Rightarrow> bool" where
  "isRemoteDestination destination =
     (if re_test driveRe destination then False
      else startsWith destination ''rsync://'' \<or> startsWith destination ''ssh://'' \<or> re_test hostRe destination)"

definition ensureLocalDirectory :: "path \<Rightarrow> fs \<Rightarrow> string \<Rightarrow> string option" where
  "ensureLocalDirectory cwd f directory =
     (case (if directory = [] then None else f (normalizePath cwd directory)) of
        None \<Rightarrow> Some (''Directory does not exist: '' @ directory)
      | Some Dir \<Rightarrow> None
      | Some (File _) \<Rightarrow> Some (''Path is not a directory: '' @ directory))"

text \<open>What a command leaves behind: its error, if it threw, and the file system at that point.\<close>

type_synonym outcome = "string option \<times> fs"

definition copyDirectory :: "path \<Rightarrow> string \<Rightarrow> string \<Rightarrow> fs \<Rightarrow> outcome" where
  "copyDirectory cwd sourceDir destinationDir f =
     (let src = normalizePath cwd sourceDir; dst = normalizePath cwd destinationDir
      in case mkdirSync (butlast dst) f of
           Inl e \<Rightarrow> (Some e, f)
         | Inr f1 \<Rightarrow>
             (let f2 = (if existsSync f1 dst then rmSync dst f1 else f1)
              in case cpSync src dst f2 of
                   Inl e \<Rightarrow> (Some e, f2)
                 | Inr f3 \<Rightarrow> (None, f3)))"

definition rsync_command :: "string \<Rightarrow> string \<Rightarrow> bool \<Rightarrow> string" where
  "rsync_command sourceDir destination dryRun =
     (let source = (if endsWith sourceDir ''/'' then sourceDir else sourceDir @ ''/'')
      in join '' '' ([''rsync'', ''-a'', ''--delete''] @ (if dryRun then [''--dry-run''] else []) @ [source, destination]))"

definition runRsync :: "(string \<Rightarrow> fs \<Rightarrow> outcome) \<Rightarrow> string \<Rightarrow> string \<Rightarrow> bool \<Rightarrow> fs \<Rightarrow> outcome" where
  "runRsync execSync sourceDir destination dryRun f = execSync (rsync_command sourceDir destination dryRun) f"

definition backupLogs :: "(string \<Rightarrow> fs \<Rightarrow> outcome) \<Rightarrow> path \<Rightarrow> string \<Rightarrow> string \<Rightarrow> bool \<Rightarrow> fs \<Rightarrow> outcome" where
  "backupLogs execSync cwd sourceDir destination dryRun f =
     (case ensureLocalDirectory cwd f sourceDir of
        Some e \<Rightarrow> (Some e, f)
      | None \<Rightarrow>
          if isRemoteDestination destination then runRsync execSync sourceDir destination dryRun f
          else copyDirectory cwd sourceDir destination f)"

definition restoreLogs :: "(string \<Rightarrow> fs \<Rightarrow> outcome) \<Rightarrow> path \<Rightarrow> string \<Rightarrow> string \<Rightarrow> bool \<Rightarrow> fs \<Rightarrow> outcome" where
  "restoreLogs execSync cwd backupSource targetDir dryRun f =
     (if isRemoteDestination backupSource then
        (case mkdirSync (butlast (normalizePath cwd targetDir)) f of
           Inl e \<Rightarrow> (Some e, f)
         | Inr f1 \<Rightarrow> runRsync execSync backupSource targetDir dryRun f1)
      else (case ensureLocalDirectory cwd f backupSource of
          Some e \<Rightarrow> (Some e, f)
        | None \<Rightarrow> copyDirectory cwd backupSource targetDir f))"

section \<open>The backup command\<close>

fun first_set :: "(string \<Rightarrow> string option) \<Rightarrow> string list \<Rightarrow> string option" where
  "first_set env [] = None"
| "first_set env (n # ns) = (case env n of Some v \<Rightarrow> if v \<noteq> [] then Some v else first_set env ns | None \<Rightarrow> first_set env ns)"

definition resolvePath :: "(string \<Rightarrow> string option) \<Rightarrow> string option \<Rightarrow> string list \<Rightarrow> string option" where
  "resolvePath env arg envNames =
     (case arg of
        Some a \<Rightarrow> if a \<noteq> [] \<and> trim a \<noteq> [] then Some a else first_set env envNames
      | None \<Rightarrow> first_set env envNames)"

definition nth_arg :: "nat \<Rightarrow> string list \<Rightarrow> string option" where
  "nth_arg i args = (if i < length args then Some (args ! i) else None)"

definition backup_help :: "string list" where
  "backup_help =
     [[], ''Vero Audit Guard Backup Utility'', [], ''Usage:'', ''  npm run backup -- <source-dir> <destination>'',
      ''  npm run restore -- <backup-source> <target-dir>'', [], ''Environment variables:'', ''  BACKUP_SOURCE   Source directory for backup'',
      ''  BACKUP_DEST     Destination path or remote target for backup'', ''  BACKUP_TARGET   Target directory for restore'',
      ''  LOG_SRC         Alias for BACKUP_SOURCE'', ''  LOG_DEST        Alias for BACKUP_DEST'', [], ''Options:'',
      ''  --dry-run       Show what would be backed up without copying'', []]"

record BackupExit =
  bx_code :: nat
  bx_console :: "string list"
  bx_files :: fs

text \<open>An error thrown inside is printed by the handler at the end of the file, with exit code 1.\<close>

definition finish :: "string \<Rightarrow> outcome \<Rightarrow> BackupExit" where
  "finish announced out =
     (case out of
        (None, f) \<Rightarrow> \<lparr>bx_code = 0, bx_console = [announced], bx_files = f\<rparr>
      | (Some e, f) \<Rightarrow> \<lparr>bx_code = 1, bx_console = [announced, ([CHR 0xE2, CHR 0x9D, CHR 0x8C] @ '' Backup utility failed: '') @ e], bx_files = f\<rparr>)"

definition backup_main ::
  "(string \<Rightarrow> fs \<Rightarrow> outcome) \<Rightarrow> path \<Rightarrow> (string \<Rightarrow> string option) \<Rightarrow> fs \<Rightarrow> string list \<Rightarrow> BackupExit" where
  "backup_main execSync cwd env f args =
     (let dryRun = (''--dry-run'' \<in> set args);
          words = filter (\<lambda>a. a \<noteq> ''--dry-run'') args;
          help = join [CHR 0x0A] backup_help;
          stop = (\<lambda>code lines. \<lparr>bx_code = code, bx_console = lines @ [help], bx_files = f\<rparr>)
      in case nth_arg 0 words of
           None \<Rightarrow> stop 1 []
         | Some command \<Rightarrow>
             if command = [] then stop 1 []
             else if command = ''help'' then stop 0 []
             else if command = ''backup'' then
               (case (resolvePath env (nth_arg 1 words) [''BACKUP_SOURCE'', ''LOG_SRC''], resolvePath env (nth_arg 2 words) [''BACKUP_DEST'', ''LOG_DEST'']) of
                  (Some source, Some destination) \<Rightarrow>
                    finish (([CHR 0xF0, CHR 0x9F, CHR 0x94, CHR 0x81] @ '' Backing up logs from '') @ source @ '' to '' @ destination) (backupLogs execSync cwd source destination dryRun f)
                | _ \<Rightarrow> stop 1 [([CHR 0xE2, CHR 0x9D, CHR 0x8C] @ '' Backup requires a source and destination.'')])
             else if command = ''restore'' then
               (case (resolvePath env (nth_arg 1 words) [''BACKUP_SOURCE'', ''LOG_SRC''], resolvePath env (nth_arg 2 words) [''BACKUP_TARGET'']) of
                  (Some backupSource, Some target) \<Rightarrow>
                    finish (([CHR 0xF0, CHR 0x9F, CHR 0x94, CHR 0x84] @ '' Restoring logs from '') @ backupSource @ '' to '' @ target) (restoreLogs execSync cwd backupSource target dryRun f)
                | _ \<Rightarrow> stop 1 [([CHR 0xE2, CHR 0x9D, CHR 0x8C] @ '' Restore requires a backup source and target directory.'')])
             else stop 1 [([CHR 0xE2, CHR 0x9D, CHR 0x8C] @ '' Unknown command: '') @ command])"

section \<open>Archiving\<close>

record LogArchiver =
  ar_bucketName :: string
  ar_region :: string
  ar_retentionDays :: js_real
  ar_prefix :: string

definition new_archiver :: "string \<Rightarrow> string \<Rightarrow> js_real option \<Rightarrow> string option \<Rightarrow> string + LogArchiver" where
  "new_archiver bucketName region retentionDays key_prefix =
     (if bucketName = [] \<or> region = [] then Inl ''bucketName and region are required for LogArchiver configuration''
      else Inr \<lparr>ar_bucketName = bucketName, ar_region = region,
        ar_retentionDays = (case retentionDays of None \<Rightarrow> Finite 30 | Some d \<Rightarrow> d),
        ar_prefix = (case key_prefix of None \<Rightarrow> ''audit-logs/'' | Some p \<Rightarrow> p)\<rparr>)"

text \<open>A directory entry as the archiver meets it. \<open>de_mtime\<close> is the modification time, or the error of \<open>stat\<close>.\<close>

record DirEntry =
  de_name :: string
  de_isFile :: bool
  de_mtime :: "string + rat"
  de_content :: string

definition is_old :: "js_real \<Rightarrow> int \<Rightarrow> rat \<Rightarrow> bool" where
  "is_old retention now mtime =
     (case retention of
        Finite days \<Rightarrow> mtime < of_int now - days * 86400000
      | Minus_infinity \<Rightarrow> True
      | _ \<Rightarrow> False)"

text \<open>The bucket and the files left, with the error that ended the work. An upload is the key with the content
  that goes through gzip.\<close>

record ArchiveState =
  as_uploaded :: "(string \<times> string) list"
  as_removed :: "string list"

definition archiveFile ::
  "(string \<Rightarrow> string option) \<Rightarrow> (string \<Rightarrow> string option) \<Rightarrow> LogArchiver \<Rightarrow> DirEntry \<Rightarrow> ArchiveState \<Rightarrow> string option \<times> ArchiveState" where
  "archiveFile send unlink a e st =
     (let key = ar_prefix a @ de_name e @ ''.gz''
      in case send key of
           Some err \<Rightarrow> (Some err, st)
         | None \<Rightarrow>
             (let st1 = st\<lparr>as_uploaded := as_uploaded st @ [(key, de_content e)]\<rparr>
              in case unlink (de_name e) of
                   Some err \<Rightarrow> (Some err, st1)
                 | None \<Rightarrow> (None, st1\<lparr>as_removed := as_removed st1 @ [de_name e]\<rparr>)))"

fun archive_entries ::
  "(string \<Rightarrow> string option) \<Rightarrow> (string \<Rightarrow> string option) \<Rightarrow> LogArchiver \<Rightarrow> int \<Rightarrow> DirEntry list \<Rightarrow> ArchiveState
     \<Rightarrow> string option \<times> ArchiveState" where
  "archive_entries send unlink a now [] st = (None, st)"
| "archive_entries send unlink a now (e # es) st =
     (if \<not> de_isFile e then archive_entries send unlink a now es st
      else (case de_mtime e of
          Inl err \<Rightarrow> (Some err, st)
        | Inr mtime \<Rightarrow>
            if is_old (ar_retentionDays a) now mtime
            then (case archiveFile send unlink a e st of
                (Some err, st1) \<Rightarrow> (Some err, st1)
              | (None, st1) \<Rightarrow> archive_entries send unlink a now es st1)
            else archive_entries send unlink a now es st))"

definition archiveDirectory ::
  "(string \<Rightarrow> string option) \<Rightarrow> (string \<Rightarrow> string option) \<Rightarrow> LogArchiver \<Rightarrow> int \<Rightarrow> string + DirEntry list \<Rightarrow> string option \<times> ArchiveState" where
  "archiveDirectory send unlink a now listing =
     (case listing of
        Inl err \<Rightarrow> (Some err, \<lparr>as_uploaded = [], as_removed = []\<rparr>)
      | Inr files \<Rightarrow> archive_entries send unlink a now files \<lparr>as_uploaded = [], as_removed = []\<rparr>)"

text \<open>\<open>env || fallback\<close>, and \<open>Number(env) || 30\<close>: zero and what is no number give 30.\<close>

definition env_or :: "(string \<Rightarrow> string option) \<Rightarrow> string \<Rightarrow> string \<Rightarrow> string" where
  "env_or env n d = (case env n of Some v \<Rightarrow> if v \<noteq> [] then v else d | None \<Rightarrow> d)"

definition retention_of :: "string option \<Rightarrow> js_real" where
  "retention_of v =
     (case v of
        None \<Rightarrow> Finite 30
      | Some t \<Rightarrow> (case js_Number t of Finite q \<Rightarrow> if q = 0 then Finite 30 else Finite q | No_number \<Rightarrow> Finite 30 | x \<Rightarrow> x))"

text \<open>\<open>readdir\<close> gives the listing of a directory. The result is the exit code with what was done.\<close>

definition archive_main ::
  "(string \<Rightarrow> string option) \<Rightarrow> (string \<Rightarrow> string option) \<Rightarrow> (string \<Rightarrow> string option) \<Rightarrow> (string \<Rightarrow> string + DirEntry list) \<Rightarrow> int
     \<Rightarrow> nat \<times> ArchiveState" where
  "archive_main env send unlink readdir now =
     (let nothing = \<lparr>as_uploaded = [], as_removed = []\<rparr>;
          bucketName = env_or env ''ARCHIVE_S3_BUCKET'' []
      in if bucketName = [] then (1, nothing)
         else (case new_archiver bucketName (env_or env ''ARCHIVE_S3_REGION'' ''us-east-1'') (Some (retention_of (env ''ARCHIVE_RETENTION_DAYS'')))
               (Some (env_or env ''ARCHIVE_S3_PREFIX'' ''audit-logs/'')) of
             Inl _ \<Rightarrow> (1, nothing)
           | Inr a \<Rightarrow>
               (case archiveDirectory send unlink a now (readdir (env_or env ''ARCHIVE_LOGS_PATH'' ''logs'')) of
                  (Some _, st) \<Rightarrow> (1, st)
                | (None, st) \<Rightarrow> (0, st))))"

section \<open>A backup can be restored\<close>

text \<open>The part of a file system below a path.\<close>

definition below :: "fs \<Rightarrow> path \<Rightarrow> path \<Rightarrow> Node option" where
  "below f p = (\<lambda>q. f (p @ q))"


text \<open>Whatever there is lies in a directory; every operation keeps this.\<close>

definition well_formed :: "fs \<Rightarrow> bool" where
  "well_formed f = (\<forall>p x. f (p @ [x]) \<noteq> None \<longrightarrow> f p = Some Dir)"

lemma well_formedD: "well_formed f \<Longrightarrow> f (p @ [x]) \<noteq> None \<Longrightarrow> f p = Some Dir"
  by (auto simp: well_formed_def)

lemma absent_below: "well_formed f \<Longrightarrow> f p = None \<Longrightarrow> f (p @ q) = None"
proof (induction q rule: rev_induct)
  case (snoc x q)
  then show ?case using well_formedD [of f "p @ q" x] by force
qed simp

lemma mkdirSync_ok: "\<not> list_ex (is_file f) (prefixes p) \<Longrightarrow> mkdirSync p f = Inr (\<lambda>q. if prefix q p then Some Dir else f q)"
  by (simp add: mkdirSync_def)

lemma prefix_butlast: "prefix (butlast p) p"
  by (cases p rule: rev_cases) auto

lemma mkdirSync_well_formed:
  assumes "well_formed f" "mkdirSync p f = Inr f'"
  shows "well_formed f' \<and> f' p = Some Dir"
proof -
  have f: "f' = (\<lambda>q. if prefix q p then Some Dir else f q)" using assms(2) by (auto simp: mkdirSync_def split: if_splits)
  have "f' q = Some Dir" if "f' (q @ [x]) \<noteq> None" for q x
    using that well_formedD [OF assms(1), of q x] append_prefixD [of q "[x]" p] by (simp add: f split: if_splits)
  then show ?thesis by (simp add: well_formed_def f)
qed

lemma rmSync_well_formed: "well_formed f \<Longrightarrow> well_formed (rmSync p f)"
  unfolding well_formed_def rmSync_def by (auto intro: prefix_order.trans)

lemma cpSync_absent:
  assumes "\<And>q. f (dst @ q) = None"
  shows "cpSync src dst f = (if f src = None then Inl ''ENOENT'' else if prefix src dst then Inl ''ERR_FS_CP_EINVAL''
    else Inr (\<lambda>q. if prefix dst q then f (src @ drop (length dst) q) else f q))"
proof -
  have "(case f (src @ drop (length dst) q) of None \<Rightarrow> f q | Some n \<Rightarrow> Some n) = f (src @ drop (length dst) q)" if "prefix dst q" for q
    using that assms by (auto simp: prefix_def split: option.splits)
  then show ?thesis using assms [of "[]"] by (simp add: cpSync_def is_file_def cong: if_cong)
qed

lemma cpSync_well_formed:
  assumes "well_formed f" "f dst = None" "dst = [] \<or> f (butlast dst) = Some Dir" "cpSync src dst f = Inr f'"
  shows "well_formed f'"
proof -
  have f: "f' = (\<lambda>q. if prefix dst q then f (src @ drop (length dst) q) else f q)"
    using assms(4) unfolding cpSync_absent [where f = f and dst = dst, OF absent_below [OF assms(1,2)]] by (simp split: if_splits)
  have "f' p = Some Dir" if some: "f' (p @ [x]) \<noteq> None" for p x
  proof (cases "prefix dst (p @ [x])")
    case True
    then consider "dst = p @ [x]" | q where "p = dst @ q" unfolding prefix_snoc by (auto elim: prefixE)
    then show ?thesis
    proof cases
      case 1
      then show ?thesis using assms(3) by (simp add: f)
    next
      case 2
      then show ?thesis using some well_formedD [OF assms(1), of "src @ q" x] by (simp add: f)
    qed
  next
    case False
    then have "\<not> prefix dst p" by (auto simp: prefix_snoc)
    then show ?thesis using some False well_formedD [OF assms(1), of p x] by (simp add: f)
  qed
  then show ?thesis by (simp add: well_formed_def)
qed

text \<open>A path that neither leads to the destination nor lies in it is read the same after the directories above
  the destination are made and the destination is removed.\<close>

lemma parallel_below: "parallel s d \<Longrightarrow> \<not> prefix d (s @ q) \<and> \<not> prefix (s @ q) (butlast d)"
  by (meson append_prefixD parallelE prefixI prefix_butlast prefix_order.trans prefix_same_cases)

text \<open>The file system before the copying proper: the way to the destination is made and the destination is gone.\<close>

definition cleared :: "path \<Rightarrow> fs \<Rightarrow> fs" where
  "cleared dst f = (if existsSync f dst then rmSync dst f else f)"

lemma cleared_gone: "well_formed f \<Longrightarrow> cleared d f (d @ q) = None"
  by (auto simp: cleared_def rmSync_def existsSync_def absent_below)

lemma copyDirectory_well_formed:
  assumes "well_formed f"
  shows "well_formed (snd (copyDirectory cwd s d f))"
proof (cases "mkdirSync (butlast (normalizePath cwd d)) f")
  case (Inr f1)
  let ?d = "normalizePath cwd d"
  note m = mkdirSync_well_formed [OF assms Inr]
  have c: "well_formed (cleared ?d f1)" using m rmSync_well_formed by (auto simp: cleared_def)
  have "?d = [] \<or> \<not> prefix ?d (butlast ?d)" by (cases ?d rule: rev_cases) (auto dest: prefix_length_le)
  then have "?d = [] \<or> cleared ?d f1 (butlast ?d) = Some Dir" using m by (auto simp: cleared_def rmSync_def)
  then show ?thesis
    using cpSync_well_formed [OF c _ _, of ?d] cleared_gone [of f1 ?d "[]"] m c Inr
    by (auto simp: copyDirectory_def Let_def cleared_def [symmetric] split: sum.splits)
qed (simp add: copyDirectory_def Let_def assms)

lemma copyDirectory_copies:
  assumes "well_formed f" "\<not> list_ex (is_file f) (prefixes (butlast (normalizePath cwd d)))" "f (normalizePath cwd s) = Some Dir"
    "parallel (normalizePath cwd s) (normalizePath cwd d)"
  shows "fst (copyDirectory cwd s d f) = None \<and> below (snd (copyDirectory cwd s d f)) (normalizePath cwd d) = below f (normalizePath cwd s)"
proof -
  let ?s = "normalizePath cwd s" and ?d = "normalizePath cwd d"
  let ?m = "\<lambda>q. if prefix q (butlast ?d) then Some Dir else f q"
  note m = mkdirSync_ok [OF assms(2)]
  have w: "well_formed ?m" using mkdirSync_well_formed [OF assms(1) m] by blast
  have gone: "cleared ?d ?m (?d @ q) = None" for q by (rule cleared_gone [OF w])
  have r: "cleared ?d ?m (?s @ q) = f (?s @ q)" for q
    using parallel_below [OF assms(4), of q] by (simp add: cleared_def rmSync_def)
  have cp: "cpSync ?s ?d (cleared ?d ?m) = Inr (\<lambda>q. if prefix ?d q then cleared ?d ?m (?s @ drop (length ?d) q) else cleared ?d ?m q)"
    unfolding cpSync_absent [where f = "cleared ?d ?m" and dst = ?d, OF gone] using r [of "[]"] assms(3,4) by auto
  show ?thesis
    unfolding copyDirectory_def Let_def m sum.case cleared_def [symmetric] cp
    by (simp add: below_def r fun_eq_iff)
qed

text \<open>
  C34. A local backup can be restored: when the source directory and the backup lie apart, nothing but
  directories stands above the two destinations, and the backup is neither of remote form nor a dry run, then backing up
  succeeds, and restoring later, from whatever file system still holds the backup as it was written, succeeds
  too and leaves below the target exactly the tree the source had when it was backed up: nothing of what the backup
  or the target held before is left, although copying merges.
\<close>

theorem backup_restore_roundtrip:
  assumes "well_formed f" "ensureLocalDirectory cwd f source = None" "\<not> isRemoteDestination backup" "backup \<noteq> []"
    "parallel (normalizePath cwd source) (normalizePath cwd backup)"
    "\<not> list_ex (is_file f) (prefixes (butlast (normalizePath cwd backup)))"
    "backupLogs execSync cwd source backup False f = (err, f1)"
    "well_formed g" "below g (normalizePath cwd backup) = below f1 (normalizePath cwd backup)"
    "parallel (normalizePath cwd backup) (normalizePath cwd target)"
    "\<not> list_ex (is_file g) (prefixes (butlast (normalizePath cwd target)))"
    "restoreLogs execSync cwd backup target False g = (err', g1)"
  shows "err = None \<and> err' = None \<and> below g1 (normalizePath cwd target) = below f (normalizePath cwd source)"
proof -
  have src: "source \<noteq> []" "f (normalizePath cwd source) = Some Dir"
    using assms(2) by (auto simp: ensureLocalDirectory_def split: if_splits option.splits Node.splits)
  have c: "copyDirectory cwd source backup f = (err, f1)"
    using assms(2,3,7) by (simp add: backupLogs_def)
  have b: "err = None" "below f1 (normalizePath cwd backup) = below f (normalizePath cwd source)"
    using copyDirectory_copies [OF assms(1,6) src(2) assms(5)] c by auto
  have g: "g (normalizePath cwd backup) = Some Dir"
    using fun_cong [OF assms(9), of "[]"] fun_cong [OF b(2), of "[]"] src(2) by (simp add: below_def)
  have "ensureLocalDirectory cwd g backup = None"
    using g assms(4) by (simp add: ensureLocalDirectory_def)
  hence "copyDirectory cwd backup target g = (err', g1)"
    using assms(3,12) by (simp add: restoreLogs_def)
  thus ?thesis
    using copyDirectory_copies [OF assms(8,11) g assms(10)] b assms(9) by auto
qed

definition sample_fs :: fs where
  "sample_fs = (\<lambda>q. if q = [] \<or> q = [''logs''] \<or> q = [''old''] then Some Dir
     else if q = [''logs'', ''a''] then Some (File ''one'') else if q = [''old'', ''b''] then Some (File ''two'') else None)"

lemma sample_fs_well_formed: "well_formed sample_fs"
  by (auto simp: well_formed_def sample_fs_def append_eq_Cons_conv split: if_splits)

theorem backup_restore_roundtrip_witness:
  "let (err, f1) = backupLogs (\<lambda>c f. (None, f)) [] ''/logs'' ''/save'' False sample_fs;
       g = rmSync [''logs''] f1; (err', g1) = restoreLogs (\<lambda>c f. (None, f)) [] ''/save'' ''/old'' False g
   in err = None \<and> err' = None \<and> below g1 [''old''] = below sample_fs [''logs''] \<and> g1 [''old'', ''a''] = Some (File ''one'') \<and> g1 [''old'', ''b''] = None"
proof -
  let ?x = "\<lambda>c f. (None, f)"
  let ?b = "backupLogs ?x [] ''/logs'' ''/save'' False sample_fs"
  let ?g = "rmSync [''logs''] (snd ?b)"
  let ?r = "restoreLogs ?x [] ''/save'' ''/old'' False ?g"
  have n: "normalizePath [] ''/logs'' = [''logs'']" "normalizePath [] ''/save'' = [''save'']" "normalizePath [] ''/old'' = [''old'']"
    by code_simp+
  have l: "\<not> isRemoteDestination ''/save''" by code_simp
  have e: "ensureLocalDirectory [] sample_fs ''/logs'' = None"
    by (simp add: ensureLocalDirectory_def n sample_fs_def)
  have dir: "sample_fs [] = Some Dir" by (simp add: sample_fs_def)
  have c: "?b = copyDirectory [] ''/logs'' ''/save'' sample_fs" by (simp add: backupLogs_def e l)
  have root: "?g [] = Some Dir"
    unfolding c by (simp add: copyDirectory_def n mkdirSync_def is_file_def existsSync_def cpSync_def rmSync_def Let_def)
      (simp add: sample_fs_def)
  have w: "well_formed ?g" unfolding c by (intro rmSync_well_formed copyDirectory_well_formed sample_fs_well_formed)
  have t: "fst ?b = None \<and> fst ?r = None \<and> below (snd ?r) (normalizePath [] ''/old'') = below sample_fs (normalizePath [] ''/logs'')"
  proof (rule backup_restore_roundtrip [where source = "''/logs''" and backup = "''/save''" and g = ?g and execSync = ?x])
    show "below ?g (normalizePath [] ''/save'') = below (snd ?b) (normalizePath [] ''/save'')"
      by (simp add: n below_def rmSync_def)
  qed (simp_all add: e l n root dir is_file_def parallel_def w sample_fs_well_formed)
  hence "snd ?r [''old'', ''a''] = Some (File ''one'')" "snd ?r [''old'', ''b''] = None"
    using fun_cong [of "below (snd ?r) [''old'']" "below sample_fs [''logs'']"] unfolding n
    by (auto simp: below_def sample_fs_def fun_eq_iff)
  thus ?thesis using t by (simp add: n case_prod_beta Let_def)
qed

text \<open>A backup onto the source itself, or onto a directory above it, removes the source before it is read:
  the command fails and the logs are gone.\<close>

lemma backup_onto_itself_erases:
  assumes "ensureLocalDirectory cwd f s = None" "\<not> isRemoteDestination d" "f (normalizePath cwd d) \<noteq> None"
    "prefix (normalizePath cwd d) (normalizePath cwd s)"
    "\<not> list_ex (is_file f) (prefixes (butlast (normalizePath cwd d)))"
  shows "fst (backupLogs x cwd s d dry f) = Some ''ENOENT'' \<and> snd (backupLogs x cwd s d dry f) (normalizePath cwd s @ q) = None"
  using assms by (auto simp: backupLogs_def copyDirectory_def Let_def mkdirSync_ok existsSync_def rmSync_def cpSync_def)

text \<open>The dry run of a local backup copies all the same.\<close>

lemma dry_run_copies: "\<not> isRemoteDestination d \<Longrightarrow> backupLogs x cwd s d True f = backupLogs x cwd s d False f"
  by (simp add: backupLogs_def)

section \<open>Archiving loses nothing\<close>

text \<open>A reference for one pass: which entries are due, what is uploaded for one, and which ones let the pass go on.\<close>

definition due :: "LogArchiver \<Rightarrow> int \<Rightarrow> DirEntry \<Rightarrow> bool" where
  "due a now e = (de_isFile e \<and> (case de_mtime e of Inl _ \<Rightarrow> False
     | Inr m \<Rightarrow> (case ar_retentionDays a of Finite days \<Rightarrow> m + days * 24 * 60 * 60 * 1000 < of_int now | Minus_infinity \<Rightarrow> True | _ \<Rightarrow> False)))"

lemma due_iff: "due a now e \<longleftrightarrow> de_isFile e \<and> (\<exists>m. de_mtime e = Inr m \<and> is_old (ar_retentionDays a) now m)"
  by (auto simp: due_def is_old_def split: sum.splits js_real.splits)

definition archive_key :: "LogArchiver \<Rightarrow> string \<Rightarrow> string" where
  "archive_key a name = ar_prefix a @ name @ ''.gz''"

definition passes :: "(string \<Rightarrow> string option) \<Rightarrow> (string \<Rightarrow> string option) \<Rightarrow> LogArchiver \<Rightarrow> int \<Rightarrow> DirEntry \<Rightarrow> bool" where
  "passes send unlink a now e =
     (if due a now e then send (archive_key a (de_name e)) = None \<and> unlink (de_name e) = None
      else \<not> de_isFile e \<or> \<not> isl (de_mtime e))"

definition half_done :: "(string \<Rightarrow> string option) \<Rightarrow> LogArchiver \<Rightarrow> int \<Rightarrow> DirEntry list \<Rightarrow> (string \<times> string) list" where
  "half_done send a now es =
     (case es of
        [] \<Rightarrow> []
      | e # _ \<Rightarrow> if due a now e \<and> send (archive_key a (de_name e)) = None then [(archive_key a (de_name e), de_content e)] else [])"

lemma archive_entries_exact:
  "let done = filter (due a now) (takeWhile (passes send unlink a now) es); (err, st') = archive_entries send unlink a now es st
   in (err = None \<longleftrightarrow> list_all (passes send unlink a now) es)
    \<and> as_removed st' = as_removed st @ map de_name done
    \<and> as_uploaded st' = as_uploaded st @ map (\<lambda>e. (archive_key a (de_name e), de_content e)) done
        @ half_done send a now (dropWhile (passes send unlink a now) es)"
proof (induction es arbitrary: st)
  case (Cons e es)
  show ?case
    using Cons.IH [of st] Cons.IH [of "st\<lparr>as_uploaded := as_uploaded st @ [(archive_key a (de_name e), de_content e)],
        as_removed := as_removed st @ [de_name e]\<rparr>"]
    by (cases "de_mtime e"; cases "send (archive_key a (de_name e))"; cases "unlink (de_name e)")
      (auto simp: passes_def due_iff archiveFile_def half_done_def Let_def archive_key_def split: prod.splits if_splits)
qed (simp add: half_done_def)

text \<open>
  C35. One run of the archiver over a directory, where a regular file is due when it was modified more than the
  retention time ago: it ends without an error exactly when every entry lets it go on
  (a due file is uploaded and removed, any other regular file has its time read). The local files removed are
  the due ones among the entries before the first failure, in order; each of them was uploaded before, with its
  own content under the prefix, its name and the ending of gzip. Beyond these at most the entry that failed is
  uploaded, and that one is still there locally.
\<close>

theorem archive_no_loss:
  "let go = passes send unlink a now; done = filter (due a now) (takeWhile go files);
       (err, st) = archiveDirectory send unlink a now (Inr files)
   in (err = None \<longleftrightarrow> list_all go files)
    \<and> as_removed st = map de_name done
    \<and> as_uploaded st = map (\<lambda>e. (archive_key a (de_name e), de_content e)) done @ half_done send a now (dropWhile go files)
    \<and> archive_key a ` set (as_removed st) \<subseteq> fst ` set (as_uploaded st)"
  using archive_entries_exact [of a now send unlink files "\<lparr>as_uploaded = [], as_removed = []\<rparr>"]
  by (auto simp: archiveDirectory_def Let_def image_Un image_image split: prod.splits)

text \<open>A retention of zero days is read as thirty.\<close>

lemma zero_retention_is_thirty: "retention_of (Some ''0'') = Finite 30"
  by code_simp

end
