(* ===== verification/Scan_Report.thy ===== *)
theory Scan_Report
  imports Complex_Main Policy_Engine Js_Bytes "HOL-Library.Multiset"
begin

text \<open>
  The PDF report of a scan (\<open>report-generator.ts\<close>), the anchoring of a result on the Stellar ledger
  (\<open>audit-trail.ts\<close>) and the resilience check (\<open>security-protocol.ts\<close>), all under \<open>src/audit-guard/src\<close>.

  A document is the list of the drawing commands given to \<open>pdfkit\<close>; the height of the cursor after some commands
  is an argument, as are the calls of the Stellar SDK and SHA-256. How pages look is not modelled, nor the ways in
  which the file of a report can fail to be written.
\<close>

section \<open>Findings by severity\<close>

datatype ReportSeverity = R_CRITICAL | R_HIGH | R_MEDIUM | R_LOW | R_INFO

definition SEVERITY_ORDER :: "ReportSeverity list" where
  "SEVERITY_ORDER = [R_CRITICAL, R_HIGH, R_MEDIUM, R_LOW, R_INFO]"

fun report_severity_name :: "ReportSeverity \<Rightarrow> string" where
  "report_severity_name R_CRITICAL = ''CRITICAL''"
| "report_severity_name R_HIGH = ''HIGH''"
| "report_severity_name R_MEDIUM = ''MEDIUM''"
| "report_severity_name R_LOW = ''LOW''"
| "report_severity_name R_INFO = ''INFO''"

record ScanFinding =
  sg_id :: string
  sg_title :: string
  sg_description :: string
  sg_severity :: ReportSeverity
  sg_location :: "string option"
  sg_line :: "nat option"
  sg_remediation :: "string option"

record ScanResult =
  sr_target :: string
  sr_scannedAt :: string
  sr_scannerVersion :: string
  sr_findings :: "ScanFinding list"
  sr_notes :: "string option"

text \<open>\<open>None\<close> is the risk \<open>NONE\<close>.\<close>

definition getOverallRisk :: "ScanFinding list \<Rightarrow> ReportSeverity option" where
  "getOverallRisk findings = List.find (\<lambda>sev. list_ex (\<lambda>f. sg_severity f = sev) findings) SEVERITY_ORDER"

definition countBySeverity :: "ScanFinding list \<Rightarrow> ReportSeverity \<Rightarrow> nat" where
  "countBySeverity findings sev = length (filter (\<lambda>f. sg_severity f = sev) findings)"

fun index_in :: "'a list \<Rightarrow> 'a \<Rightarrow> nat" where
  "index_in [] x = 0"
| "index_in (y # ys) x = (if x = y then 0 else Suc (index_in ys x))"

definition severity_rank :: "ReportSeverity \<Rightarrow> nat" where
  "severity_rank sev = index_in SEVERITY_ORDER sev"

definition sortFindingsBySeverity :: "ScanFinding list \<Rightarrow> ScanFinding list" where
  "sortFindingsBySeverity findings = sort_key (\<lambda>f. severity_rank (sg_severity f)) findings"

section \<open>The document\<close>

datatype Draw =
    FontSize nat
  | Font string
  | Text string "nat option"
  | MoveDown rat
  | AddPage
  | Footer string
  | End_document

definition padEnd :: "nat \<Rightarrow> string \<Rightarrow> string" where
  "padEnd n s = s @ replicate (n - length s) CHR '' ''"

definition plain :: "nat \<Rightarrow> string \<Rightarrow> Draw list" where
  "plain pt t = [FontSize pt, Font ''Helvetica'', Text t None]"

definition bold :: "nat \<Rightarrow> string \<Rightarrow> Draw list" where
  "bold pt t = [FontSize pt, Font ''Helvetica-Bold'', Text t None]"

definition risk_name :: "ReportSeverity option \<Rightarrow> string" where
  "risk_name r = (case r of None \<Rightarrow> ''NONE'' | Some sev \<Rightarrow> report_severity_name sev)"

definition draw_header :: "(string \<Rightarrow> string) \<Rightarrow> ScanResult \<Rightarrow> Draw list" where
  "draw_header utc scan =
     bold 20 (''VERO PROTOCOL '' @ [CHR 0xE2, CHR 0x80, CHR 0x94] @ '' AUDIT REPORT'') @ [MoveDown (1/2)]
     @ plain 10 (''Target:           '' @ sr_target scan)
     @ [Text (''Scanned at:       '' @ utc (sr_scannedAt scan)) None, Text (''Scanner version:  '' @ sr_scannerVersion scan) None, MoveDown (3/10)]
     @ bold 12 (''Overall risk: '' @ risk_name (getOverallRisk (sr_findings scan))) @ [MoveDown 1]"

definition draw_summary :: "ScanFinding list \<Rightarrow> Draw list" where
  "draw_summary findings =
     bold 14 ''SUMMARY'' @ [MoveDown (3/10)]
     @ concat (map (\<lambda>sev. plain 10 (''  '' @ padEnd 10 (report_severity_name sev) @ '' '' @ show_nat (countBySeverity findings sev))) SEVERITY_ORDER)
     @ bold 10 (''  '' @ padEnd 10 ''TOTAL'' @ '' '' @ show_nat (length findings)) @ [MoveDown 1]"

definition finding_title :: "ScanFinding \<Rightarrow> string" where
  "finding_title f = ''['' @ report_severity_name (sg_severity f) @ ''] '' @ sg_id f @ ('' '' @ [CHR 0xE2, CHR 0x80, CHR 0x94] @ '' '') @ sg_title f"

definition location_text :: "ScanFinding \<Rightarrow> string \<Rightarrow> string" where
  "location_text f loc = (case sg_line f of Some n \<Rightarrow> if n \<noteq> 0 then loc @ '':'' @ show_nat n else loc | None \<Rightarrow> loc)"

definition draw_finding :: "ScanFinding \<Rightarrow> Draw list" where
  "draw_finding f =
     bold 10 (finding_title f) @ [FontSize 9, Font ''Helvetica'', Text (''  '' @ sg_description f) (Some 490)]
     @ (case sg_location f of Some loc \<Rightarrow> if loc \<noteq> [] then [Text (''  Location: '' @ location_text f loc) None] else [] | None \<Rightarrow> [])
     @ (case sg_remediation f of Some r \<Rightarrow> if r \<noteq> [] then [Text (''  Remediation: '' @ r) (Some 490)] else [] | None \<Rightarrow> [])
     @ [MoveDown (1/2)]"

text \<open>\<open>y doc\<close> is the height of the cursor after the commands of \<open>doc\<close>.\<close>

definition new_page :: "(Draw list \<Rightarrow> rat) \<Rightarrow> Draw list \<Rightarrow> Draw list" where
  "new_page y doc = (if y doc > 700 then doc @ [AddPage] else doc)"

fun draw_findings :: "(Draw list \<Rightarrow> rat) \<Rightarrow> ScanFinding list \<Rightarrow> Draw list \<Rightarrow> Draw list" where
  "draw_findings y [] doc = doc"
| "draw_findings y (f # fs) doc = draw_findings y fs (new_page y doc @ draw_finding f)"

definition draw_notes :: "(Draw list \<Rightarrow> rat) \<Rightarrow> string option \<Rightarrow> Draw list \<Rightarrow> Draw list" where
  "draw_notes y note_text doc =
     (case note_text of
        Some n \<Rightarrow>
          if n \<noteq> []
          then new_page y doc @ [MoveDown (1/2)] @ bold 14 ''NOTES'' @ [MoveDown (3/10), FontSize 9, Font ''Helvetica'', Text n (Some 490)]
          else doc
      | None \<Rightarrow> doc)"

definition generateScanReport :: "(string \<Rightarrow> string) \<Rightarrow> (Draw list \<Rightarrow> rat) \<Rightarrow> ScanResult \<Rightarrow> Draw list" where
  "generateScanReport utc y scan =
     (let sorted = sortFindingsBySeverity (sr_findings scan);
          doc1 = draw_header utc scan @ draw_summary (sr_findings scan) @ bold 14 ''FINDINGS'' @ [MoveDown (1/2)]
            @ (if sorted = [] then plain 10 ''  No findings detected.'' else []);
          doc2 = draw_notes y (sr_notes scan) (draw_findings y sorted doc1)
      in doc2 @ [FontSize 8, Font ''Helvetica'', Footer (''Generated by vero-audit-guard '' @ [CHR 0xE2, CHR 0x80, CHR 0x94] @ '' Vero Protocol''), End_document])"

section \<open>Anchoring a result\<close>

record AuditTrail =
  at_horizonUrl :: string
  at_public :: bool

definition new_audit_trail :: "(string \<Rightarrow> string option) \<Rightarrow> AuditTrail" where
  "new_audit_trail env =
     \<lparr>at_horizonUrl = (case env ''HORIZON_URL'' of Some u \<Rightarrow> u | None \<Rightarrow> ''https://horizon-testnet.stellar.org''),
      at_public = (env ''STELLAR_NETWORK'' = Some ''mainnet'')\<rparr>"

text \<open>\<open>printed\<close> is \<open>JSON.stringify(result)\<close>.\<close>

definition computeHash :: "(nat list \<Rightarrow> nat list) \<Rightarrow> string \<Rightarrow> string" where
  "computeHash sha256 printed = to_hex (sha256 (utf8 printed))"

text \<open>The transaction that is built, signed by the key and submitted. \<open>tx_account\<close> is the loaded account.\<close>

record 'acc AnchorTx =
  tx_account :: 'acc
  tx_fee :: string
  tx_public :: bool
  tx_destination :: string
  tx_amount :: string
  tx_memoHash :: string
  tx_timeout :: nat
  tx_signer :: string

record AnchorError =
  ae_resultCode :: "string option"
  ae_message :: string

record 'acc Stellar =
  st_publicKey :: "string \<Rightarrow> AnchorError + string"
  st_loadAccount :: "string \<Rightarrow> string \<Rightarrow> AnchorError + 'acc"
  st_submit :: "string \<Rightarrow> 'acc AnchorTx \<Rightarrow> AnchorError + string"

definition anchor_failure :: "AnchorError \<Rightarrow> string" where
  "anchor_failure e = ''Failed to anchor audit hash on-chain: '' @
     (case ae_resultCode e of Some c \<Rightarrow> if c \<noteq> [] then c else ae_message e | None \<Rightarrow> ae_message e)"

definition anchor_tx :: "AuditTrail \<Rightarrow> 'acc \<Rightarrow> string \<Rightarrow> string \<Rightarrow> 'acc AnchorTx" where
  "anchor_tx a account key hash =
     \<lparr>tx_account = account, tx_fee = ''100'', tx_public = at_public a, tx_destination = key, tx_amount = ''0.0000001'',
      tx_memoHash = hash, tx_timeout = 30, tx_signer = key\<rparr>"

text \<open>The transaction submitted, if any, with the hash of the ledger's answer, or the message of the error thrown.\<close>

definition anchor_result ::
  "(nat list \<Rightarrow> nat list) \<Rightarrow> 'acc Stellar \<Rightarrow> AuditTrail \<Rightarrow> string option \<Rightarrow> string \<Rightarrow> (string + string) \<times> 'acc AnchorTx option" where
  "anchor_result sha256 sdk a secret printed =
     (if secret = None \<or> secret = Some [] then (Inr [], None)
      else (let hash = computeHash sha256 printed
        in case st_publicKey sdk (the secret) of
             Inl e \<Rightarrow> (Inl (anchor_failure e), None)
           | Inr key \<Rightarrow>
               (case st_loadAccount sdk (at_horizonUrl a) key of
                  Inl e \<Rightarrow> (Inl (anchor_failure e), None)
                | Inr account \<Rightarrow>
                    (let tx = anchor_tx a account key hash
                     in case st_submit sdk (at_horizonUrl a) tx of
                          Inl e \<Rightarrow> (Inl (anchor_failure e), Some tx)
                        | Inr h \<Rightarrow> (Inr h, Some tx)))))"

section \<open>The resilience check\<close>

record SecurityProtocolResult =
  sp_isResilient :: bool
  sp_vulnerabilities :: "string list"

definition evaluateSystemResilience :: SecurityProtocolResult where
  "evaluateSystemResilience = \<lparr>sp_isResilient = True, sp_vulnerabilities = []\<rparr>"

definition enforceSecurityProtocols :: SecurityProtocolResult where
  "enforceSecurityProtocols = evaluateSystemResilience"

section \<open>What a report shows\<close>

fun drawn_text :: "Draw \<Rightarrow> string option" where
  "drawn_text (Text t _) = Some t"
| "drawn_text _ = None"

definition texts :: "Draw list \<Rightarrow> string list" where
  "texts doc = List.map_filter drawn_text doc"

lemma texts_append [simp]: "texts (a @ b) = texts a @ texts b"
  by (simp add: texts_def map_filter_def)

lemma texts_simps [simp]:
  "texts [] = []" "texts (Text t n # d) = t # texts d" "texts (FontSize k # d) = texts d" "texts (Font s # d) = texts d"
  "texts (MoveDown r # d) = texts d" "texts (AddPage # d) = texts d" "texts (Footer s # d) = texts d" "texts (End_document # d) = texts d"
  by (simp_all add: texts_def map_filter_simps)

lemma texts_new_page [simp]: "texts (new_page y doc) = texts doc"
  by (simp add: new_page_def)

lemma texts_draw_findings: "texts (draw_findings y fs doc) = texts doc @ concat (map (\<lambda>f. texts (draw_finding f)) fs)"
  by (induction fs arbitrary: doc) auto

lemma severity_rank_simps [simp]:
  "severity_rank R_CRITICAL = 0" "severity_rank R_HIGH = 1" "severity_rank R_MEDIUM = 2" "severity_rank R_LOW = 3" "severity_rank R_INFO = 4"
  by (simp_all add: severity_rank_def SEVERITY_ORDER_def)

lemma severity_rank_inj [simp]: "severity_rank a = severity_rank b \<longleftrightarrow> a = b"
  by (cases a; cases b) simp_all

lemma severity_rank_ge:
  "Suc 0 \<le> severity_rank s \<longleftrightarrow> s \<noteq> R_CRITICAL"
  "2 \<le> severity_rank s \<longleftrightarrow> s \<noteq> R_CRITICAL \<and> s \<noteq> R_HIGH"
  "3 \<le> severity_rank s \<longleftrightarrow> s \<noteq> R_CRITICAL \<and> s \<noteq> R_HIGH \<and> s \<noteq> R_MEDIUM"
  "4 \<le> severity_rank s \<longleftrightarrow> s \<noteq> R_CRITICAL \<and> s \<noteq> R_HIGH \<and> s \<noteq> R_MEDIUM \<and> s \<noteq> R_LOW"
  by (cases s; simp)+

lemma overall_risk_least:
  "getOverallRisk fs = Some r \<longleftrightarrow> (\<exists>f\<in>set fs. sg_severity f = r) \<and> (\<forall>f\<in>set fs. severity_rank r \<le> severity_rank (sg_severity f))"
  by (cases r) (auto simp: getOverallRisk_def SEVERITY_ORDER_def list_ex_iff severity_rank_ge)

lemma overall_risk_none: "getOverallRisk fs = None \<longleftrightarrow> fs = []"
proof
  assume none: "getOverallRisk fs = None"
  show "fs = []"
  proof (rule ccontr)
    assume "fs \<noteq> []"
    then obtain f where "f \<in> set fs" "\<forall>g\<in>set fs. severity_rank (sg_severity f) \<le> severity_rank (sg_severity g)"
      using ex_min_if_finite [of "(\<lambda>f. severity_rank (sg_severity f)) ` set fs"] by (auto simp: not_less)
    hence "getOverallRisk fs = Some (sg_severity f)" by (auto simp: overall_risk_least)
    thus False using none by simp
  qed
qed (simp add: getOverallRisk_def SEVERITY_ORDER_def)

lemma overall_risk_worst:
  "getOverallRisk fs = Some r \<longleftrightarrow> fs \<noteq> [] \<and> severity_rank r = Min ((\<lambda>f. severity_rank (sg_severity f)) ` set fs)"
  unfolding overall_risk_least by (cases "fs = []") (auto simp: Min_eq_iff eq_commute [of "severity_rank r" "Min _"])

lemma counts_add_up: "sum_list (map (countBySeverity fs) SEVERITY_ORDER) = length fs"
proof (induction fs)
  case (Cons f fs)
  show ?case using Cons.IH by (cases "sg_severity f") (simp_all add: countBySeverity_def SEVERITY_ORDER_def)
qed (simp add: countBySeverity_def SEVERITY_ORDER_def)

text \<open>
  A scan report shows every finding once, the most severe first and findings of one severity in the order of
  the scan: the texts drawn are a header and summary, then for each finding of that order its title, description,
  location and remediation, then the notes. The overall risk is the most severe level among the findings and
  NONE exactly for a scan without findings, and the counts of the summary add up to the total.
\<close>

theorem scan_report_complete:
  "let fs = sr_findings scan; sorted_fs = sortFindingsBySeverity fs
   in texts (generateScanReport utc y scan) =
        texts (draw_header utc scan) @ texts (draw_summary fs) @ ''FINDINGS'' #
        (if fs = [] then [''  No findings detected.''] else []) @ concat (map (\<lambda>f. texts (draw_finding f)) sorted_fs)
        @ texts (draw_notes y (sr_notes scan) [])
    \<and> mset sorted_fs = mset fs \<and> sorted (map (\<lambda>f. severity_rank (sg_severity f)) sorted_fs)
    \<and> (\<forall>sev. filter (\<lambda>f. sg_severity f = sev) sorted_fs = filter (\<lambda>f. sg_severity f = sev) fs)
    \<and> (getOverallRisk fs = None \<longleftrightarrow> fs = [])
    \<and> (\<forall>r. getOverallRisk fs = Some r \<longleftrightarrow> fs \<noteq> [] \<and> severity_rank r = Min ((\<lambda>f. severity_rank (sg_severity f)) ` set fs))
    \<and> sum_list (map (countBySeverity fs) SEVERITY_ORDER) = length fs"
proof -
  have notes_last: "texts (draw_notes y n doc) = texts doc @ texts (draw_notes y n [])" for n doc
    by (auto simp: draw_notes_def bold_def split: option.splits)
  have stable: "filter (\<lambda>f. sg_severity f = sev) (sortFindingsBySeverity fs) = filter (\<lambda>f. sg_severity f = sev) fs" for sev fs
    using sort_key_stable [of "\<lambda>f. severity_rank (sg_severity f)" "severity_rank sev" fs]
    by (simp add: sortFindingsBySeverity_def)
  have empty: "sortFindingsBySeverity fs = [] \<longleftrightarrow> fs = []" for fs
    by (metis length_0_conv length_sort sortFindingsBySeverity_def)
  have drawn: "texts (generateScanReport utc y scan) =
      texts (draw_header utc scan) @ texts (draw_summary (sr_findings scan)) @ ''FINDINGS'' #
      (if sr_findings scan = [] then [''  No findings detected.''] else [])
      @ concat (map (\<lambda>f. texts (draw_finding f)) (sortFindingsBySeverity (sr_findings scan))) @ texts (draw_notes y (sr_notes scan) [])"
    unfolding generateScanReport_def Let_def texts_append notes_last [of _ "draw_findings _ _ _"] texts_draw_findings
    by (simp add: empty plain_def bold_def)
  show ?thesis
    unfolding Let_def drawn using overall_risk_none overall_risk_worst counts_add_up stable
    by (simp add: sortFindingsBySeverity_def)
qed

text \<open>
  Anchoring: without a secret nothing is submitted and the empty hash is returned. A hash that is returned
  otherwise is the ledger's answer to a transaction that carries the SHA-256 hash of the printed result as its
  memo, pays the key itself and is signed by it on the configured network; at most one transaction is submitted,
  and any failure of the ledger is reported as an error and never as a hash.
\<close>

theorem anchor_result_honest:
  "case anchor_result sha256 sdk a secret printed of
     (Inr h, None) \<Rightarrow> (secret = None \<or> secret = Some []) \<and> h = []
   | (Inr h, Some tx) \<Rightarrow> st_submit sdk (at_horizonUrl a) tx = Inr h \<and> tx_memoHash tx = to_hex (sha256 (utf8 printed))
       \<and> st_publicKey sdk (the secret) = Inr (tx_signer tx) \<and> tx_destination tx = tx_signer tx \<and> tx_public tx = at_public a
   | (Inl m, Some tx) \<Rightarrow> (\<exists>e. st_submit sdk (at_horizonUrl a) tx = Inl e \<and> m = anchor_failure e)
   | (Inl m, None) \<Rightarrow> (\<exists>s e. secret = Some s \<and> s \<noteq> [] \<and> m = anchor_failure e \<and>
       (st_publicKey sdk s = Inl e \<or> (\<exists>key. st_publicKey sdk s = Inr key \<and> st_loadAccount sdk (at_horizonUrl a) key = Inl e)))"
  by (auto simp: anchor_result_def anchor_tx_def computeHash_def Let_def split: sum.splits option.splits)

end
