(* ===== verification/Command_Line.thy ===== *)
theory Command_Line
  imports Js_Number Policy_Report Security_Gate Log_Analyzer Event_Log Logic_Detector Rbac_Mapper
begin

text \<open>
  The command lines of the audit guard (\<open>cli.ts\<close> and \<open>security-gate-cli.ts\<close> under \<open>src/audit-guard/src\<close>): the
  commands put the policy engine, the log analyzers, the logic detector, the security gate, the roster and
  the RBAC mapper together and turn their verdicts into exit codes.

  \<open>CliWorld\<close> is what a command finds around it: environment, files, \<open>JSON.parse\<close> (on the documents of the three
  shapes the commands read), clocks, and the worlds of the components. A run is what it prints, writes, sends
  and its exit code. A value printed as JSON is kept as the value. A command either ends with a run or throws
  after one, which \<open>main().catch\<close> turns into exit code 1.
\<close>

section \<open>Runs\<close>

datatype Console =
    Out string
  | Err string
  | Raw_policy EvaluationResult
  | Raw_events EventLogScanResult
  | Raw_logic PatternScanResult
  | Raw_gate SecurityGateResult
  | Raw_rbac RbacScanResult

record CliRun =
  cr_console :: "Console list"
  cr_written :: "(string \<times> string) list"
  cr_alerts :: "(DashboardAlert \<times> bool) list"
  cr_notices :: "(string \<times> string \<times> string) list"
  cr_version :: version_file
  cr_roster :: "RotationState option"
  cr_pages :: "PagePayload list"
  cr_exit :: nat

type_synonym cli_result = "(CliRun \<times> string) + CliRun"

record CliWorld =
  cw_env :: "string \<Rightarrow> string option"
  cw_files :: "string \<Rightarrow> (string + string) option"
  cw_writable :: "string \<Rightarrow> bool"
  cw_now :: int
  cw_parse :: "string \<Rightarrow> jsval option"
  cw_prData :: "string \<Rightarrow> PRData option"
  cw_logs :: "string \<Rightarrow> LogEntry list option"
  cw_getTime :: "string \<Rightarrow> int"
  cw_eval :: EvalWorld
  cw_policies :: string
  cw_opa :: bool
  cw_clock :: "nat \<Rightarrow> int"
  cw_post :: "string \<Rightarrow> string \<Rightarrow> DashboardAlert \<Rightarrow> bool"
  cw_version :: version_file
  cw_version_writable :: bool
  cw_contacts :: "OnCallContact list option"
  cw_stored :: "RotationState option"
  cw_add_days :: "nat \<Rightarrow> jsnum \<Rightarrow> jsnum"
  cw_page_write :: "nat \<Rightarrow> string option"

definition start :: "CliWorld \<Rightarrow> CliRun" where
  "start w = \<lparr>cr_console = [], cr_written = [], cr_alerts = [], cr_notices = [], cr_version = cw_version w, cr_roster = cw_stored w,
     cr_pages = [], cr_exit = 0\<rparr>"

definition print :: "Console list \<Rightarrow> CliRun \<Rightarrow> CliRun" where
  "print items st = st\<lparr>cr_console := cr_console st @ items\<rparr>"

definition exit_with :: "nat \<Rightarrow> CliRun \<Rightarrow> CliRun" where
  "exit_with code st = st\<lparr>cr_exit := code\<rparr>"

text \<open>\<open>env || arg || fallback\<close>.\<close>

definition chosen :: "string option \<Rightarrow> string option \<Rightarrow> string \<Rightarrow> string" where
  "chosen a b d = or_else_string a (or_else_string b d)"

definition arg_at :: "nat \<Rightarrow> string list \<Rightarrow> string option" where
  "arg_at i args = (if i < length args then Some (args ! i) else None)"

text \<open>\<open>if (process.env.REPORT_FILE)\<close>: the report is written, and the path printed; a failing write throws.\<close>

definition write_report :: "CliWorld \<Rightarrow> string \<Rightarrow> string \<Rightarrow> CliRun \<Rightarrow> cli_result" where
  "write_report w label report st =
     (case nonempty (cw_env w ''REPORT_FILE'') of
        None \<Rightarrow> Inr st
      | Some path \<Rightarrow>
          if cw_writable w path
          then Inr (print [Out (label @ path)] (st\<lparr>cr_written := cr_written st @ [(path, report)]\<rparr>))
          else Inl (st, ''EACCES''))"

text \<open>What a failed lookup of the input file prints before \<open>process.exit(1)\<close>.\<close>

definition not_found :: "Console list \<Rightarrow> CliRun \<Rightarrow> cli_result" where
  "not_found items st = Inr (exit_with 1 (print items st))"

section \<open>The security gate\<close>

definition gate_row :: "jsval \<Rightarrow> Console" where
  "gate_row f = Out (''  ['' @ js_String (js_get f ''severity'') @ ''] '' @ js_String (js_get f ''file'') @ '':'' @ js_String (js_get f ''line'')
     @ ('' '' @ [CHR 0xE2, CHR 0x80, CHR 0x94] @ '' '') @ js_String (js_get f ''rule''))"

definition print_gate :: "SecurityGateResult \<Rightarrow> CliRun \<Rightarrow> CliRun" where
  "print_gate r st =
     print ([Out ([CHR 0x0A, CHR 0xF0, CHR 0x9F, CHR 0x94, CHR 0x92] @ '' Security Gate'' @ [CHR 0x0A]),
        Out (''Threshold : severity rank > '' @ show_num (sg_threshold r)),
        Out (''Findings  : '' @ show_nat (sg_totalFindings r)),
        Out (''Blocking  : '' @ show_nat (length (sg_blockingFindings r) + length (sg_blockingGovernanceFindings r))),
        Out ([CHR 0x0A] @ sg_summary r @ [CHR 0x0A])]
       @ (if length (sg_blockingFindings r) > 0 then Out ''Blocking findings:'' # map gate_row (sg_blockingFindings r) else [])
       @ (if length (sg_blockingGovernanceFindings r) > 0
          then Out ''Blocking governance findings:'' # map gate_row (sg_blockingGovernanceFindings r) else [])
       @ [Out ([CHR 0x0A, CHR 0xF0, CHR 0x9F, CHR 0x93, CHR 0x8A] @ '' Raw Result:''), Raw_gate r]) st"

definition gate_on_file :: "CliWorld \<Rightarrow> string \<Rightarrow> jsnum \<Rightarrow> cli_result" where
  "gate_on_file w reportPath threshold =
     (case cw_files w reportPath of
        None \<Rightarrow> not_found [Err (([CHR 0xE2, CHR 0x9D, CHR 0x8C] @ '' Scan report not found: '') @ reportPath)] (start w)
      | Some (Inl e) \<Rightarrow> Inl (start w, e)
      | Some (Inr content) \<Rightarrow>
          (case evaluateSecurityGateFromJson (cw_parse w content) threshold of
             Inl e \<Rightarrow> Inl (start w, e)
           | Inr r \<Rightarrow> Inr (exit_with (if sg_passed r then 0 else 1) (print_gate r (start w)))))"

text \<open>\<open>Number(env ?? 3)\<close>: an empty text is the number zero. A fraction is kept as the integer below it, which
  compares alike with every rank.\<close>

definition gate_threshold :: "string option \<Rightarrow> jsnum" where
  "gate_threshold env = (case env of None \<Rightarrow> Num 3 | Some t \<Rightarrow> whole_number (js_Number t))"

definition runSecurityGate :: "CliWorld \<Rightarrow> string list \<Rightarrow> cli_result" where
  "runSecurityGate w args =
     gate_on_file w (chosen (cw_env w ''SCAN_REPORT_FILE'') (arg_at 1 args) ''./reports/latest-scan.json'')
       (gate_threshold (cw_env w ''SECURITY_SEVERITY_THRESHOLD''))"

text \<open>The stand-alone gate refuses a threshold it cannot read; \<open>None\<close> is \<open>process.exit(1)\<close>.\<close>

definition resolveThreshold :: "string option \<Rightarrow> int option" where
  "resolveThreshold raw =
     (case raw of
        None \<Rightarrow> Some 3
      | Some t \<Rightarrow>
          if trim t = [] then Some 3
          else (case severityRank (trim t) of
              Some rank \<Rightarrow> Some rank
            | None \<Rightarrow>
                (case js_Number (trim t) of
                   Finite q \<Rightarrow> if is_whole q \<and> 0 \<le> q \<and> q \<le> 4 then Some \<lfloor>q\<rfloor> else None
                 | _ \<Rightarrow> None)))"

definition invalid_threshold :: "string \<Rightarrow> string" where
  "invalid_threshold raw = ([CHR 0xE2, CHR 0x9D, CHR 0x8C] @ '' Invalid SECURITY_SEVERITY_THRESHOLD: '' @ [CHR 0x22]) @ raw @ ([CHR 0x22] @ ''. '')
     @ ''Accepted values are a severity name (INFO, LOW, MEDIUM, HIGH, CRITICAL) '' @ ''or an integer between 0 and 4.''"

text \<open>\<open>argv\<close> is \<open>process.argv.slice(2)\<close>. A value thrown at the top level of the module ends the process with
  exit code 1.\<close>

definition gate_main :: "CliWorld \<Rightarrow> string list \<Rightarrow> CliRun" where
  "gate_main w argv =
     (let env = cw_env w ''SECURITY_SEVERITY_THRESHOLD''
      in case resolveThreshold env of
           None \<Rightarrow> exit_with 1 (print [Err (invalid_threshold (case env of Some t \<Rightarrow> t | None \<Rightarrow> []))] (start w))
         | Some threshold \<Rightarrow>
             (case gate_on_file w (chosen (cw_env w ''SCAN_REPORT_FILE'') (arg_at 0 argv) ''./reports/latest-scan.json'') (Num threshold) of
                Inl (st, e) \<Rightarrow> exit_with 1 (print [Err e] st)
              | Inr st \<Rightarrow> st))"

section \<open>Scanning events, logs and sources\<close>

definition scanEvents :: "CliWorld \<Rightarrow> string list \<Rightarrow> cli_result" where
  "scanEvents w args =
     (let eventLogFile = chosen (cw_env w ''EVENT_LOG_FILE'') (arg_at 1 args) ''./logs/relay-events.log''
      in if cw_files w eventLogFile = None
         then not_found [Err (''Event log file not found: '' @ eventLogFile), Out ''Usage: scan-events <event-log-file>''] (start w)
         else (case scanFile (new_event_scanner None None) (cw_parse w) (cw_files w) (cw_now w) eventLogFile \<lparr>eo_source = None, eo_scannedAt = None\<rparr> of
             Inl e \<Rightarrow> Inl (start w, e)
           | Inr result \<Rightarrow>
               (case write_report w ([CHR 0x0A] @ ''Report written to: '') (event_generateReport result)
                   (print [Out ([CHR 0x0A] @ ''Event Log Scan'' @ [CHR 0x0A]), Out (event_generateReport result), Out ([CHR 0x0A] @ ''Raw Result:''), Raw_events result] (start w)) of
                  Inl x \<Rightarrow> Inl x
                | Inr st \<Rightarrow>
                    Inr (if list_ex (\<lambda>e. el_severity e = HIGH \<or> el_severity e = CRITICAL) (er_sensitiveEvents result)
                         then exit_with 1 st else st))))"

definition anomaly_type_name :: "LogAnomalyType \<Rightarrow> string" where
  "anomaly_type_name t = (case t of ERROR_PATTERN \<Rightarrow> ''ERROR_PATTERN'' | ERROR_SPIKE \<Rightarrow> ''ERROR_SPIKE'')"

definition anomaly_row :: "LogAnomaly \<Rightarrow> Console" where
  "anomaly_row a = Out ((if la_severity a = CRITICAL then [CHR 0xF0, CHR 0x9F, CHR 0x9A, CHR 0xA8] else if la_severity a = HIGH then [CHR 0xE2, CHR 0x9D, CHR 0x8C] else [CHR 0xE2, CHR 0x9A, CHR 0xA0, CHR 0xEF, CHR 0xB8, CHR 0x8F])
     @ '' ['' @ anomaly_type_name (la_type a) @ '']['' @ severity_name (la_severity a) @ ''] '' @ la_timestamp a @ ('' '' @ [CHR 0xE2, CHR 0x80, CHR 0x94] @ '' '') @ la_message a)"

text \<open>The analyzer has its default threshold, with which it always returns.\<close>

definition analyzeLogs :: "CliWorld \<Rightarrow> string list \<Rightarrow> cli_result option" where
  "analyzeLogs w args =
     (let logFile = or_else_string (arg_at 1 args) ''./logs.json''
      in case cw_files w logFile of
           None \<Rightarrow> Some (not_found [Err (([CHR 0xE2, CHR 0x9D, CHR 0x8C] @ '' Log file not found: '') @ logFile), Out ''Usage: analyze-logs <logs.json>''] (start w))
         | Some (Inl e) \<Rightarrow> Some (Inl (start w, e))
         | Some (Inr content) \<Rightarrow>
             (case cw_logs w content of
                None \<Rightarrow> Some (Inl (start w, ''SyntaxError''))
              | Some logs \<Rightarrow>
                  map_option (\<lambda>out. case out of
                      Inl e \<Rightarrow> Inl (start w, e)
                    | Inr anomalies \<Rightarrow>
                        Inr (exit_with (if length anomalies > 0 then 1 else 0)
                          (print (Out ([CHR 0x0A, CHR 0xF0, CHR 0x9F, CHR 0x94, CHR 0x8D] @ '' Log Anomaly Analysis'' @ [CHR 0x0A])
                             # (if length anomalies = 0 then [Out ([CHR 0xE2, CHR 0x9C, CHR 0x85] @ '' No log anomalies detected.'')]
                                else Out (([CHR 0xE2, CHR 0x9D, CHR 0x8C] @ '' Detected '') @ show_nat (length anomalies) @ ('' anomaly/anomalies:'' @ [CHR 0x0A])) # map anomaly_row anomalies))
                            (start w))))
                    (analyze_logs (cw_getTime w) (new_log_analyzer None None) logs)))"

definition pattern_filter :: "string option \<Rightarrow> string list option" where
  "pattern_filter env =
     (case nonempty env of None \<Rightarrow> None | Some t \<Rightarrow> Some (filter (\<lambda>s. s \<noteq> []) (map trim (split_on CHR '','' t))))"

definition detectLogic :: "CliWorld \<Rightarrow> string list \<Rightarrow> cli_result" where
  "detectLogic w args =
     (let sourceFile = chosen (cw_env w ''SOURCE_FILE'') (arg_at 1 args) ''./src.ts''
      in case cw_files w sourceFile of
           None \<Rightarrow> not_found [Err (([CHR 0xE2, CHR 0x9D, CHR 0x8C] @ '' Source file not found: '') @ sourceFile), Out ''Usage: detect-logic <file-to-scan>''] (start w)
         | Some (Inl e) \<Rightarrow> Inl (start w, e)
         | Some (Inr code) \<Rightarrow>
             (let result = logic_scan LOGIC_PATTERNS (cw_now w) code (Some sourceFile) (pattern_filter (cw_env w ''LOGIC_PATTERN_FILTER''));
                  report = logic_generateReport result
              in case write_report w ([CHR 0x0A, CHR 0xF0, CHR 0x9F, CHR 0x93, CHR 0x9D] @ '' Report written to: '') report
                     (print [Out ([CHR 0x0A, CHR 0xF0, CHR 0x9F, CHR 0x94, CHR 0x8D] @ '' Logic Error Scan'' @ [CHR 0x0A]), Out report, Out ([CHR 0x0A, CHR 0xF0, CHR 0x9F, CHR 0x93, CHR 0x8A] @ '' Raw Result:''), Raw_logic result] (start w)) of
                   Inl x \<Rightarrow> Inl x
                 | Inr st \<Rightarrow> Inr (if sc_status result = ''VULNERABLE'' then exit_with 1 st else st)))"

section \<open>Pull requests\<close>

definition with_maintenance :: "CliWorld \<Rightarrow> PRData \<Rightarrow> PRData" where
  "with_maintenance w d =
     (if cw_env w ''MAINTENANCE_MODE'' = Some ''true''
      then (case nonempty (cw_env w ''MAINTENANCE_MESSAGE'') of
          None \<Rightarrow> d\<lparr>pd_maintenance_mode := Some True\<rparr>
        | Some m \<Rightarrow> d\<lparr>pd_maintenance_mode := Some True, pd_maintenance_message := Some m\<rparr>)
      else d)"

definition pr_result :: "CliWorld \<Rightarrow> PRData \<Rightarrow> EvaluationResult" where
  "pr_result w d = fst (evaluate (cw_eval w) (cw_clock w) (new_engine_for (cw_policies w) (cw_opa w) None) d)"

definition dashboard_run :: "CliWorld \<Rightarrow> PRData \<Rightarrow> EvaluationResult \<Rightarrow> CliRun" where
  "dashboard_run w d result = (start w)\<lparr>cr_alerts :=
     reportToDashboard (cw_env w ''GUARDIAN_DASH_URL'') (cw_env w ''GUARDIAN_DASH_TOKEN'') (cw_post w) (\<lambda>i. cw_clock w (10 + i)) result d\<rparr>"

text \<open>\<open>engine.generateReport\<close>: the text, with the version counter and the webhook notice it leaves behind.\<close>

definition with_report :: "CliWorld \<Rightarrow> EvaluationResult \<Rightarrow> CliRun \<Rightarrow> string \<times> CliRun" where
  "with_report w result st =
     (case engine_generateReport \<lparr>me_MODE = cw_env w ''MAINTENANCE_MODE'', me_MESSAGE = cw_env w ''MAINTENANCE_MESSAGE''\<rparr>
         (cw_version_writable w) (cw_now w) (cr_version st) result of
        (report, notice, f) \<Rightarrow>
          (report, st\<lparr>cr_notices := cr_notices st @ (case notice of None \<Rightarrow> [] | Some n \<Rightarrow> [n]), cr_version := f\<rparr>))"

definition checkPR :: "CliWorld \<Rightarrow> cli_result" where
  "checkPR w =
     (let prDataPath = or_else_string (cw_env w ''PR_DATA_FILE'') ''./pr-data.json''
      in case cw_files w prDataPath of
           None \<Rightarrow> not_found [Err (([CHR 0xE2, CHR 0x9D, CHR 0x8C] @ '' PR data file not found: '') @ prDataPath)] (start w)
         | Some (Inl e) \<Rightarrow> Inl (start w, e)
         | Some (Inr content) \<Rightarrow>
             (case cw_prData w content of
                None \<Rightarrow> Inl (start w, ''SyntaxError'')
              | Some d0 \<Rightarrow>
                  (let d = with_maintenance w d0;
                       result = pr_result w d;
                       st = print [Raw_policy result] (dashboard_run w d result);
                       reported = (case nonempty (cw_env w ''REPORT_FILE'') of
                           None \<Rightarrow> Inr st
                         | Some _ \<Rightarrow> (case with_report w result st of (report, st') \<Rightarrow> write_report w ([CHR 0x0A, CHR 0xF0, CHR 0x9F, CHR 0x93, CHR 0x9D] @ '' Report written to: '') report st'))
                   in case reported of
                        Inl x \<Rightarrow> Inl x
                      | Inr st' \<Rightarrow>
                          Inr (if er_status result = ''NON_COMPLIANT'' \<and> length (er_high_severity_violations result) > 0
                               then exit_with 1 st' else st'))))"

text \<open>\<open>evaluate\<close> takes its file from \<open>process.argv[2]\<close>, the first word after the program.\<close>

definition cli_evaluate :: "CliWorld \<Rightarrow> string list \<Rightarrow> cli_result" where
  "cli_evaluate w args =
     (let dataFile = or_else_string (arg_at 0 args) ''./pr-data.json''
      in case cw_files w dataFile of
           None \<Rightarrow> not_found [Err (([CHR 0xE2, CHR 0x9D, CHR 0x8C] @ '' File not found: '') @ dataFile), Out ''Usage: evaluate <pr-data.json>''] (start w)
         | Some (Inl e) \<Rightarrow> Inl (start w, e)
         | Some (Inr content) \<Rightarrow>
             (case cw_prData w content of
                None \<Rightarrow> Inl (start w, ''SyntaxError'')
              | Some d0 \<Rightarrow>
                  (let d = with_maintenance w d0; result = pr_result w d
                   in case with_report w result (print [Out ([CHR 0x0A, CHR 0xF0, CHR 0x9F, CHR 0x93, CHR 0x8B] @ '' Policy Compliance Evaluation'' @ [CHR 0x0A])] (dashboard_run w d result)) of
                        (report, st) \<Rightarrow>
                          Inr (exit_with (if length (er_violations result) > 0 then 1 else 0)
                            (print [Out report, Out ([CHR 0x0A, CHR 0xF0, CHR 0x9F, CHR 0x93, CHR 0x8A] @ '' Raw Result:''), Raw_policy result] st)))))"

section \<open>The roster\<close>

definition person :: "OnCallContact \<Rightarrow> string" where
  "person c = oc_name c @ '' <'' @ oc_email c @ ''>''"

definition cli_roster :: "CliWorld \<Rightarrow> OnCallRoster" where
  "cli_roster w = new_roster (cw_now w) (cw_contacts w) (cw_env w ''ONCALL_ROTATION_INTERVAL'') (cw_stored w) None None"

text \<open>A rotation, by hand or on start-up, stores the new state.\<close>

definition stored_after :: "CliWorld \<Rightarrow> OnCallRoster \<Rightarrow> RotationState option" where
  "stored_after w r = (if or_state r = loadState (cw_now w) (cw_stored w) then cw_stored w else Some (or_state r))"

definition rosterCommand :: "CliWorld \<Rightarrow> string list \<Rightarrow> cli_result" where
  "rosterCommand w args =
     (let sub = or_else_string (arg_at 1 args) ''status'';
          roster = cli_roster w;
          st = (start w)\<lparr>cr_roster := stored_after w roster\<rparr>
      in if sub = ''status'' then
           (case getCurrentOnCall (cw_add_days w) roster of
              Inl _ \<Rightarrow> Inl (st, ''Invalid time value'')
            | Inr onCall \<Rightarrow>
                Inr (print ([Out ([CHR 0x0A, CHR 0xF0, CHR 0x9F, CHR 0x93, CHR 0x9F] @ '' On'' @ [CHR 0xE2, CHR 0x80, CHR 0x91] @ ''Call Roster Status'' @ [CHR 0x0A]),
                    Out (''  Rotation ID     : '' @ show_nat (cu_rotationId onCall)),
                    Out (''  Next rotation   : '' @ cu_nextRotation onCall @ [CHR 0x0A]),
                    Out ((''  '' @ [CHR 0xF0, CHR 0x9F, CHR 0x9F, CHR 0xA2] @ '' Primary  : '') @ person (cu_primary onCall)),
                    Out ((''  '' @ [CHR 0xF0, CHR 0x9F, CHR 0x9F, CHR 0xA1] @ '' Secondary: '') @ person (cu_secondary onCall)),
                    Out ((''  '' @ [CHR 0xF0, CHR 0x9F, CHR 0x94, CHR 0xB4] @ '' Manager  : '') @ person (cu_manager onCall)),
                    Out ([CHR 0x0A] @ ''Active contacts:'')]
                  @ map (\<lambda>c. Out (''  - ['' @ role_name (oc_role c) @ ''] '' @ person c)) (or_contacts roster)) st))
         else if sub = ''rotate'' then
           (let rotated = rotate_roster (cw_now w) roster; st' = st\<lparr>cr_roster := Some (or_state rotated)\<rparr>
            in case getCurrentOnCall (cw_add_days w) rotated of
                 Inl _ \<Rightarrow> Inl (st', ''Invalid time value'')
               | Inr onCall \<Rightarrow> Inr (print [Out (([CHR 0x0A, CHR 0xF0, CHR 0x9F, CHR 0x94, CHR 0x84] @ '' Rotated. New primary: '') @ person (cu_primary onCall) @ [CHR 0x0A])] st'))
         else if sub = ''page'' then
           (let message = or_else_string (Some (join '' '' (drop 2 args))) (''Test page from audit'' @ [CHR 0xE2, CHR 0x80, CHR 0x91] @ ''guard CLI'');
                severity = or_else_string (cw_env w ''PAGE_SEVERITY'') ''CRITICAL'';
                repository = or_else_string (cw_env w ''PAGE_REPOSITORY'') ''unknown'';
                st' = print [Out (([CHR 0x0A, CHR 0xF0, CHR 0x9F, CHR 0x93, CHR 0x9F] @ '' Paging on'' @ [CHR 0xE2, CHR 0x80, CHR 0x91] @ ''call with: '') @ message @ [CHR 0x0A])] st
            in case pageCurrentOnCall (cw_add_days w) (cw_page_write w) (cw_now w) roster message severity repository of
                 (Some e, pages) \<Rightarrow> Inl (st'\<lparr>cr_pages := pages\<rparr>, e)
               | (None, pages) \<Rightarrow> Inr (print [Out ([CHR 0x0A, CHR 0xE2, CHR 0x9C, CHR 0x85] @ '' On'' @ [CHR 0xE2, CHR 0x80, CHR 0x91] @ ''call contacts paged.'' @ [CHR 0x0A])] (st'\<lparr>cr_pages := pages\<rparr>)))
         else Inr (print [Out (''Unknown roster subcommand: '' @ sub), Out ''Usage: roster <status|rotate|page>''] st))"

section \<open>The RBAC audit\<close>

definition rbac_options :: "CliWorld \<Rightarrow> jsval" where
  "rbac_options w = JObject [(''flagAdminUsers'', JBool (cw_env w ''RBAC_FLAG_ADMIN'' \<noteq> Some ''false''))]"

definition rbacCheck :: "CliWorld \<Rightarrow> string list \<Rightarrow> cli_result" where
  "rbacCheck w args =
     (let policyFile = chosen (cw_env w ''RBAC_POLICY_FILE'') (arg_at 1 args) ''./rbac-policy.json'';
          unreadable = (\<lambda>e. Inr (exit_with 1 (print [Err (([CHR 0xE2, CHR 0x9D, CHR 0x8C] @ '' Failed to parse RBAC policy file: '') @ e)] (start w))))
      in case cw_files w policyFile of
           None \<Rightarrow> not_found [Err (([CHR 0xE2, CHR 0x9D, CHR 0x8C] @ '' RBAC policy file not found: '') @ policyFile), Out ''Usage: rbac-check <rbac-policy.json>'',
             Out (''Expected shape: { '' @ [CHR 0x22] @ ''roles'' @ [CHR 0x22] @ '': [...], '' @ [CHR 0x22] @ ''users'' @ [CHR 0x22] @ '': [...] }'')] (start w)
         | Some (Inl e) \<Rightarrow> unreadable e
         | Some (Inr content) \<Rightarrow>
             (case cw_parse w content of
                None \<Rightarrow> unreadable ''SyntaxError''
              | Some policy \<Rightarrow>
                  (case new_mapper (rbac_options w) of
                     Inl (_, e) \<Rightarrow> Inl (start w, e)
                   | Inr mapper \<Rightarrow>
                       (case rbac_scan mapper (cw_now w) policy (rbac_options w) of
                          Inl (_, e) \<Rightarrow> Inl (start w, e)
                        | Inr result \<Rightarrow>
                            (case write_report w ([CHR 0x0A, CHR 0xF0, CHR 0x9F, CHR 0x93, CHR 0x9D] @ '' Report written to: '') (rbac_generateReport result)
                                (print [Out ([CHR 0x0A, CHR 0xF0, CHR 0x9F, CHR 0x94, CHR 0x90] @ '' RBAC Access Control Audit'' @ [CHR 0x0A]), Out (rbac_generateReport result), Out ([CHR 0x0A, CHR 0xF0, CHR 0x9F, CHR 0x93, CHR 0x8A] @ '' Raw Result:''), Raw_rbac result] (start w)) of
                               Inl x \<Rightarrow> Inl x
                             | Inr st \<Rightarrow> Inr (if rs_status result = ''VIOLATIONS_FOUND'' then exit_with 1 st else st))))))"

section \<open>The main program\<close>

definition help_lines :: "string list" where
  "help_lines =
     [[],
      ''Policy Engine CLI'',
      [],
      ''Usage: policy-engine <command> [options]'',
      [],
      ''Commands:'',
      ''  pr, check-pr      Check PR compliance using GitHub Actions context'',
      ''  logs, analyze-logs [file] Analyze relayer logs for anomalies'',
      ''  evaluate          Evaluate PR data from a JSON file (default)'',
      ''  roster            Manage on'' @ [CHR 0xE2, CHR 0x80, CHR 0x91] @ ''call rotation (status|rotate|page)'',
      ''  security-gate     Evaluate scanner report and fail on blocking findings'',
      ''  help              Show this help message'',
      [],
      ''Environment Variables:'',
      ''  PR_DATA_FILE          Path to PR data JSON file (default: ./pr-data.json)'',
      ''  REPORT_FILE           Output path for markdown report'',
      ''  OPA_POLICIES_DIR      Path to OPA policies directory'',
      ''  SOURCE_FILE           Source file for '' @ [CHR 0x27] @ ''detect-logic'' @ [CHR 0x27] @ '' (default: ./src.ts)'',
      ''  LOGIC_PATTERN_FILTER  Comma-separated pattern IDs to restrict the scan'',
      ''  EVENT_LOG_FILE        Event log file for '' @ [CHR 0x27] @ ''scan-events'' @ [CHR 0x27],
      ''  RBAC_POLICY_FILE      RBAC policy JSON file for '' @ [CHR 0x27] @ ''rbac-check'' @ [CHR 0x27],
      ''  RBAC_FLAG_ADMIN       Set to '' @ [CHR 0x27] @ ''false'' @ [CHR 0x27] @ '' to suppress admin user findings'',
      [],
      ''Examples:'',
      ''  node dist/cli.js pr'',
      ''  node dist/cli.js analyze-logs ./relayer-logs.json'',
      ''  node dist/cli.js evaluate ./my-pr-data.json'',
      ''  node dist/cli.js detect-logic ./path/to/contract.sol'',
      ''  LOGIC_PATTERN_FILTER=REENTRANCY_RISK,UNCHECKED_RETURN_VALUE '' @ [CHR 0x5C],
      ''    REPORT_FILE=./report.md node dist/cli.js detect-logic ./contract.sol'',
      ''  node dist/cli.js scan-events ./logs/relay-events.log'',
      ''  node dist/cli.js rbac-check ./rbac-policy.json'',
      ''  RBAC_POLICY_FILE=./policy.json REPORT_FILE=./rbac-report.md node dist/cli.js rbac-check'',
      []]"

definition printHelp :: "CliWorld \<Rightarrow> cli_result" where
  "printHelp w = Inr (print [Out (join [CHR 0x0A] help_lines)] (start w))"

definition dispatch_command :: "CliWorld \<Rightarrow> string list \<Rightarrow> cli_result option" where
  "dispatch_command w args =
     (let command = or_else_string (arg_at 0 args) ''evaluate''
      in if command = ''pr'' \<or> command = ''check-pr'' then Some (checkPR w)
         else if command = ''logs'' \<or> command = ''analyze-logs'' then analyzeLogs w args
         else if command = ''roster'' then Some (rosterCommand w args)
         else if command = ''scan-events'' then Some (scanEvents w args)
         else if command = ''detect-logic'' then Some (detectLogic w args)
         else if command = ''security-gate'' then Some (runSecurityGate w args)
         else if command = ''help'' then Some (printHelp w)
         else Some (cli_evaluate w args))"

text \<open>\<open>main().catch(...)\<close>; \<open>None\<close> is a run that never ends.\<close>

definition cli_main :: "CliWorld \<Rightarrow> string list \<Rightarrow> CliRun option" where
  "cli_main w args =
     map_option (\<lambda>r. case r of Inl (st, e) \<Rightarrow> exit_with 1 (print [Err (([CHR 0xE2, CHR 0x9D, CHR 0x8C] @ '' Error: '') @ e)] st) | Inr st \<Rightarrow> st) (dispatch_command w args)"

section \<open>Exit codes\<close>

definition exits_zero :: "CliWorld \<Rightarrow> string list \<Rightarrow> bool" where
  "exits_zero w args = (\<exists>st. cli_main w args = Some st \<and> cr_exit st = 0)"

definition report_possible :: "CliWorld \<Rightarrow> bool" where
  "report_possible w = (case nonempty (cw_env w ''REPORT_FILE'') of None \<Rightarrow> True | Some path \<Rightarrow> cw_writable w path)"

lemma run_simps [simp]: "cr_exit (start w) = 0" "cr_exit (print items st) = cr_exit st" "cr_exit (exit_with n st) = n"
  by (simp_all add: start_def print_def exit_with_def)

lemma or_else_string_None [simp]: "or_else_string None d = d"
  by (simp add: or_else_string_def nonempty_def)

lemma not_found_exit: "not_found items st = Inr st' \<Longrightarrow> cr_exit st' = 1"
  by (auto simp: not_found_def)

lemma write_report_Inr: "(\<exists>st'. write_report w label report st = Inr st' \<and> P (cr_exit st')) \<longleftrightarrow> report_possible w \<and> P (cr_exit st)"
  by (auto simp: write_report_def report_possible_def print_def split: option.splits)

definition ends_zero :: "cli_result \<Rightarrow> bool" where
  "ends_zero r = (\<exists>st. r = Inr st \<and> cr_exit st = 0)"

lemma ends_zero_simps [simp]: "\<not> ends_zero (Inl x)" "ends_zero (Inr st) \<longleftrightarrow> cr_exit st = 0" "\<not> ends_zero (not_found items st)"
  by (auto simp: ends_zero_def not_found_def)

lemma exits_zero_iff: "exits_zero w args \<longleftrightarrow> (\<exists>r. dispatch_command w args = Some r \<and> ends_zero r)"
proof (cases "dispatch_command w args")
  case (Some r)
  then show ?thesis by (cases r) (auto simp: exits_zero_def cli_main_def)
qed (simp add: exits_zero_def cli_main_def)

lemma ends_zero_after_report:
  "ends_zero (case write_report w label report st of Inl x \<Rightarrow> Inl x | Inr st' \<Rightarrow> Inr (if bad then exit_with 1 st' else st'))
     \<longleftrightarrow> report_possible w \<and> cr_exit st = 0 \<and> \<not> bad"
  using write_report_Inr [of w label report st "\<lambda>n. n = 0"] by (cases "write_report w label report st") (auto simp: ends_zero_def)

lemma gate_on_file_zero:
  "ends_zero (gate_on_file w path threshold) \<longleftrightarrow>
     (\<exists>content r. cw_files w path = Some (Inr content) \<and> evaluateSecurityGateFromJson (cw_parse w content) threshold = Inr r \<and> sg_passed r)"
  by (auto simp: gate_on_file_def print_gate_def split: option.splits sum.splits)

lemma detectLogic_zero:
  "ends_zero (detectLogic w args) \<longleftrightarrow>
     (\<exists>code. cw_files w (chosen (cw_env w ''SOURCE_FILE'') (arg_at 1 args) ''./src.ts'') = Some (Inr code) \<and> report_possible w
        \<and> sc_findings (logic_scan LOGIC_PATTERNS (cw_now w) code (Some (chosen (cw_env w ''SOURCE_FILE'') (arg_at 1 args) ''./src.ts''))
             (pattern_filter (cw_env w ''LOGIC_PATTERN_FILTER''))) = [])"
  by (auto simp: detectLogic_def Let_def ends_zero_after_report logic_scan_def split: option.splits sum.splits)

lemma blocking_events:
  assumes "scanText sc parse now (JString text) options = Inr r"
  shows "list_ex (\<lambda>e. el_severity e = HIGH \<or> el_severity e = CRITICAL) (er_sensitiveEvents r) \<longleftrightarrow> (\<exists>e \<in> set (er_events r). HIGH \<le> el_severity e)"
proof -
  have r: "er_events r = events_of sc parse text options" "er_sensitiveEvents r = filter el_sensitive (er_events r)"
    using assms by (auto simp: scanText_def Let_def split: sum.splits)
  have "v = HIGH \<or> v = CRITICAL \<longleftrightarrow> HIGH \<le> v" for v by (cases v) (simp_all add: severity_order)
  moreover have "el_sensitive e" if "e \<in> set (er_events r)" "HIGH \<le> el_severity e" for e
    using that sensitive_iff unfolding r(1) events_of_def by auto
  ultimately show ?thesis unfolding r(2) by (auto simp: list_ex_iff)
qed

lemma scanEvents_zero:
  "ends_zero (scanEvents w args) \<longleftrightarrow>
     (let path = chosen (cw_env w ''EVENT_LOG_FILE'') (arg_at 1 args) ''./logs/relay-events.log''
      in \<exists>content r. cw_files w path = Some (Inr content) \<and> report_possible w
        \<and> scanText (new_event_scanner None None) (cw_parse w) (cw_now w) (JString content) \<lparr>eo_source = Some path, eo_scannedAt = None\<rparr> = Inr r
        \<and> \<not> (\<exists>e \<in> set (er_events r). HIGH \<le> el_severity e))"
proof -
  let ?path = "chosen (cw_env w ''EVENT_LOG_FILE'') (arg_at 1 args) ''./logs/relay-events.log''"
  show ?thesis
  proof (cases "\<exists>content. cw_files w ?path = Some (Inr content)")
    case True
    then obtain content where c: "cw_files w ?path = Some (Inr content)" by blast
    show ?thesis
      unfolding scanEvents_def Let_def scanFile_def c
      by (cases "scanText (new_event_scanner None None) (cw_parse w) (cw_now w) (JString content) \<lparr>eo_source = Some ?path, eo_scannedAt = None\<rparr>")
        (auto simp: ends_zero_after_report blocking_events)
  next
    case False
    then show ?thesis by (auto simp: scanEvents_def Let_def scanFile_def split: option.splits sum.splits)
  qed
qed

lemma logs_analyzed:
  "\<exists>as. analyze_logs (cw_getTime w) (new_log_analyzer None None) logs = Some (Inr as) \<and> (as = [] \<longleftrightarrow> \<not> (\<exists>l \<in> set logs. is_error_log l))"
proof -
  let ?e = "error_logs (cw_getTime w) logs" and ?c = "new_log_analyzer None None"
  obtain ss where ss: "analyze_logs (cw_getTime w) ?c logs = Some (Inr (map pattern_anomaly ?e @ map (spike_anomaly (cw_getTime w) ?c ?e) ss))"
    "spike_list (cw_getTime w) ?c ?e 0 ss" using spikes_of_batch [of ?c "cw_getTime w" logs] by (auto simp: new_log_analyzer_def)
  have "?e = [] \<Longrightarrow> ss = []" using ss(2) by (cases ss) (auto simp: spike_list_def)
  moreover have "?e = [] \<longleftrightarrow> \<not> (\<exists>l \<in> set logs. is_error_log l)" by (auto simp: error_logs_def filter_empty_conv)
  ultimately show ?thesis using ss(1) by auto
qed

lemma analyzeLogs_zero:
  "(\<exists>r. analyzeLogs w args = Some r \<and> ends_zero r) \<longleftrightarrow>
     (\<exists>content logs. cw_files w (or_else_string (arg_at 1 args) ''./logs.json'') = Some (Inr content) \<and> cw_logs w content = Some logs
        \<and> \<not> (\<exists>l \<in> set logs. is_error_log l))"
proof -
  show ?thesis
  proof (cases "\<exists>content logs. cw_files w (or_else_string (arg_at 1 args) ''./logs.json'') = Some (Inr content) \<and> cw_logs w content = Some logs")
    case True
    then obtain content logs where c: "cw_files w (or_else_string (arg_at 1 args) ''./logs.json'') = Some (Inr content)" "cw_logs w content = Some logs" by blast
    obtain as where "analyze_logs (cw_getTime w) (new_log_analyzer None None) logs = Some (Inr as)" "as = [] \<longleftrightarrow> \<not> (\<exists>l \<in> set logs. is_error_log l)"
      using logs_analyzed [of w logs] by blast
    then show ?thesis using c by (simp add: analyzeLogs_def)
  next
    case False
    then show ?thesis by (auto simp: analyzeLogs_def Let_def split: option.splits sum.splits)
  qed
qed

lemma with_report_exit: "cr_exit (snd (with_report w result st)) = cr_exit st"
  by (simp add: with_report_def split: prod.splits)

lemma checkPR_zero:
  "ends_zero (checkPR w) \<longleftrightarrow>
     (\<exists>content d. cw_files w (or_else_string (cw_env w ''PR_DATA_FILE'') ''./pr-data.json'') = Some (Inr content) \<and> cw_prData w content = Some d
        \<and> report_possible w
        \<and> \<not> (er_status (pr_result w (with_maintenance w d)) = ''NON_COMPLIANT'' \<and> er_high_severity_violations (pr_result w (with_maintenance w d)) \<noteq> []))"
proof (cases "\<exists>content d. cw_files w (or_else_string (cw_env w ''PR_DATA_FILE'') ''./pr-data.json'') = Some (Inr content) \<and> cw_prData w content = Some d")
  case True
  then obtain content d where c: "cw_files w (or_else_string (cw_env w ''PR_DATA_FILE'') ''./pr-data.json'') = Some (Inr content)" "cw_prData w content = Some d" by blast
  let ?r = "pr_result w (with_maintenance w d)"
  let ?st = "print [Raw_policy ?r] (dashboard_run w (with_maintenance w d) ?r)"
  have z: "cr_exit ?st = 0" by (simp add: dashboard_run_def)
  have "report_possible w" if "nonempty (cw_env w ''REPORT_FILE'') = None" using that by (simp add: report_possible_def)
  then show ?thesis
    using c z with_report_exit [of w ?r ?st]
    by (cases "nonempty (cw_env w ''REPORT_FILE'')") (auto simp: checkPR_def Let_def ends_zero_after_report split: prod.splits)
next
  case False
  then show ?thesis by (auto simp: checkPR_def Let_def split: option.splits sum.splits)
qed

lemma cli_evaluate_zero:
  "ends_zero (cli_evaluate w args) \<longleftrightarrow>
     (\<exists>content d. cw_files w (or_else_string (arg_at 0 args) ''./pr-data.json'') = Some (Inr content) \<and> cw_prData w content = Some d
        \<and> er_violations (pr_result w (with_maintenance w d)) = [])"
  by (auto simp: cli_evaluate_def Let_def split: option.splits sum.splits prod.splits)

lemma resolveThreshold_bounds: "resolveThreshold raw = Some t \<Longrightarrow> 0 \<le> t \<and> t \<le> 4"
  by (auto simp: resolveThreshold_def severityRank_def SEVERITY_RANK_def is_whole_def floor_le_iff split: option.splits if_splits js_real.splits)

lemma gate_main_zero:
  "cr_exit (gate_main w argv) = 0 \<longleftrightarrow>
     (\<exists>t. resolveThreshold (cw_env w ''SECURITY_SEVERITY_THRESHOLD'') = Some t
        \<and> ends_zero (gate_on_file w (chosen (cw_env w ''SCAN_REPORT_FILE'') (arg_at 0 argv) ''./reports/latest-scan.json'') (Num t)))"
  by (auto simp: gate_main_def Let_def ends_zero_def split: option.splits sum.splits)

lemma arg_at_Suc [simp]: "arg_at (Suc n) (a # args) = arg_at n args" "arg_at 0 (a # args) = Some a"
  by (simp_all add: arg_at_def)

lemma dispatch_named:
  "dispatch_command w (''security-gate'' # rest) = Some (runSecurityGate w (''security-gate'' # rest))"
  "dispatch_command w (''detect-logic'' # rest) = Some (detectLogic w (''detect-logic'' # rest))"
  "dispatch_command w (''scan-events'' # rest) = Some (scanEvents w (''scan-events'' # rest))"
  "dispatch_command w (''logs'' # rest) = analyzeLogs w (''logs'' # rest)"
  "dispatch_command w (''pr'' # rest) = Some (checkPR w)"
  "dispatch_command w [] = Some (cli_evaluate w [])"
  by (simp_all add: dispatch_command_def or_else_string_def nonempty_def arg_at_def)

text \<open>Every run ends, with 0 or 1.\<close>

definition ends_well :: "cli_result option \<Rightarrow> bool" where
  "ends_well r = (case r of None \<Rightarrow> False | Some (Inl _) \<Rightarrow> True | Some (Inr st) \<Rightarrow> cr_exit st \<in> {0, 1})"

lemma after_report_ends:
  "cr_exit st = 0 \<Longrightarrow> ends_well (Some (case write_report w label report st of Inl x \<Rightarrow> Inl x | Inr st' \<Rightarrow> Inr (if bad then exit_with 1 st' else st')))"
  by (auto simp: ends_well_def write_report_def split: option.splits)

lemma commands_end:
  "ends_well (Some (gate_on_file w path t))" "ends_well (Some (scanEvents w args))" "ends_well (Some (detectLogic w args))"
  "ends_well (Some (checkPR w))" "ends_well (Some (cli_evaluate w args))" "ends_well (Some (rosterCommand w args))" "ends_well (Some (printHelp w))"
proof -
  show "ends_well (Some (gate_on_file w path t))"
    by (auto simp: ends_well_def gate_on_file_def not_found_def print_gate_def split: option.splits sum.splits)
  show "ends_well (Some (scanEvents w args))"
    by (auto simp: scanEvents_def Let_def not_found_def after_report_ends split: sum.splits) (auto simp: ends_well_def)
  show "ends_well (Some (detectLogic w args))"
    by (auto simp: detectLogic_def Let_def after_report_ends not_found_def split: option.splits sum.splits) (auto simp: ends_well_def)
  show "ends_well (Some (rosterCommand w args))"
    by (auto simp: ends_well_def rosterCommand_def Let_def split: sum.splits prod.splits option.splits)
  show "ends_well (Some (printHelp w))" by (simp add: ends_well_def printHelp_def)
  show "ends_well (Some (cli_evaluate w args))"
    by (auto simp: ends_well_def cli_evaluate_def Let_def not_found_def split: option.splits sum.splits prod.splits)
  have report: "ends_well (Some (case write_report w label report st of Inl x \<Rightarrow> Inl x | Inr st' \<Rightarrow> Inr (if bad then exit_with 1 st' else st')))"
    if "with_report w result (print items (dashboard_run w d result')) = (report, st)" for label report st bad result items d result'
    by (rule after_report_ends) (use that with_report_exit [of w result "print items (dashboard_run w d result')"] in \<open>simp add: dashboard_run_def\<close>)
  show "ends_well (Some (checkPR w))"
    using report by (auto simp: checkPR_def Let_def not_found_def dashboard_run_def split: option.splits prod.splits sum.splits) (auto simp: ends_well_def)
qed

lemma every_command_ends: "ends_well (dispatch_command w args)"
proof -
  have "ends_well (analyzeLogs w args)"
  proof (cases "\<exists>content logs. cw_files w (or_else_string (arg_at 1 args) ''./logs.json'') = Some (Inr content) \<and> cw_logs w content = Some logs")
    case True
    then obtain content logs where c: "cw_files w (or_else_string (arg_at 1 args) ''./logs.json'') = Some (Inr content)" "cw_logs w content = Some logs" by blast
    obtain ss where "analyze_logs (cw_getTime w) (new_log_analyzer None None) logs = Some (Inr ss)" using logs_analyzed [of w logs] by blast
    then show ?thesis using c by (simp add: analyzeLogs_def ends_well_def)
  next
    case False
    then show ?thesis by (auto simp: analyzeLogs_def Let_def not_found_def ends_well_def split: option.splits sum.splits)
  qed
  then show ?thesis using commands_end by (simp add: dispatch_command_def Let_def runSecurityGate_def)
qed

text \<open>
  C33. The commands fail closed. Every run ends: a thrown error is printed and gives exit code 1, any other run gives 0
  or 1, and 0 means that the work was done and found nothing that blocks. The gate
  exits with 0 exactly when a report file could be read and the gate passed it, in its stand-alone form only
  with a threshold between 0 and 4; \<open>detect-logic\<close> exactly when the source could be read and the selected
  patterns have no finding; \<open>scan-events\<close> exactly when the log could be scanned and no event is HIGH or CRITICAL;
  \<open>logs\<close> exactly when the file holds logs without an error; \<open>pr\<close> exactly when the evaluation has no
  NON_COMPLIANT verdict with a high violation (so a NON_COMPLIANT verdict without one passes), and the default command
  exactly when it has no violation. Where a report is asked for, exit code 0 means too that it was written.\<close>

theorem cli_fails_closed:
  "(case dispatch_command w args of
        None \<Rightarrow> False
      | Some (Inl (st, e)) \<Rightarrow> map_option (\<lambda>r. (cr_exit r, last (cr_console r))) (cli_main w args)
          = Some (1, Err (([CHR 0xE2, CHR 0x9D, CHR 0x8C] @ '' Error: '') @ e))
      | Some (Inr st) \<Rightarrow> cli_main w args = Some st \<and> cr_exit st \<in> {0, 1})
   \<and> (exits_zero w (''security-gate'' # rest) \<longleftrightarrow>
      (\<exists>content r. cw_files w (chosen (cw_env w ''SCAN_REPORT_FILE'') (arg_at 0 rest) ''./reports/latest-scan.json'') = Some (Inr content)
         \<and> evaluateSecurityGateFromJson (cw_parse w content) (gate_threshold (cw_env w ''SECURITY_SEVERITY_THRESHOLD'')) = Inr r \<and> sg_passed r))
   \<and> (cr_exit (gate_main w argv) = 0 \<longleftrightarrow>
      (\<exists>t content r. resolveThreshold (cw_env w ''SECURITY_SEVERITY_THRESHOLD'') = Some t \<and> 0 \<le> t \<and> t \<le> 4
         \<and> cw_files w (chosen (cw_env w ''SCAN_REPORT_FILE'') (arg_at 0 argv) ''./reports/latest-scan.json'') = Some (Inr content)
         \<and> evaluateSecurityGateFromJson (cw_parse w content) (Num t) = Inr r \<and> sg_passed r))
   \<and> (exits_zero w (''detect-logic'' # rest) \<longleftrightarrow>
      (let path = chosen (cw_env w ''SOURCE_FILE'') (arg_at 0 rest) ''./src.ts''
       in \<exists>code. cw_files w path = Some (Inr code) \<and> report_possible w
         \<and> sc_findings (logic_scan LOGIC_PATTERNS (cw_now w) code (Some path) (pattern_filter (cw_env w ''LOGIC_PATTERN_FILTER''))) = []))
   \<and> (exits_zero w (''scan-events'' # rest) \<longleftrightarrow>
      (let path = chosen (cw_env w ''EVENT_LOG_FILE'') (arg_at 0 rest) ''./logs/relay-events.log''
       in \<exists>content r. cw_files w path = Some (Inr content) \<and> report_possible w
         \<and> scanText (new_event_scanner None None) (cw_parse w) (cw_now w) (JString content) \<lparr>eo_source = Some path, eo_scannedAt = None\<rparr> = Inr r
         \<and> \<not> (\<exists>e \<in> set (er_events r). HIGH \<le> el_severity e)))
   \<and> (exits_zero w (''logs'' # rest) \<longleftrightarrow>
      (\<exists>content logs. cw_files w (or_else_string (arg_at 0 rest) ''./logs.json'') = Some (Inr content) \<and> cw_logs w content = Some logs
         \<and> \<not> (\<exists>l \<in> set logs. is_error_log l)))
   \<and> (exits_zero w (''pr'' # rest) \<longleftrightarrow>
      (\<exists>content d. cw_files w (or_else_string (cw_env w ''PR_DATA_FILE'') ''./pr-data.json'') = Some (Inr content) \<and> cw_prData w content = Some d
         \<and> report_possible w
         \<and> \<not> (er_status (pr_result w (with_maintenance w d)) = ''NON_COMPLIANT'' \<and> er_high_severity_violations (pr_result w (with_maintenance w d)) \<noteq> [])))
   \<and> (exits_zero w [] \<longleftrightarrow>
      (\<exists>content d. cw_files w ''./pr-data.json'' = Some (Inr content) \<and> cw_prData w content = Some d
         \<and> er_violations (pr_result w (with_maintenance w d)) = []))"
proof (intro conjI)
  show "case dispatch_command w args of
        None \<Rightarrow> False
      | Some (Inl (st, e)) \<Rightarrow> map_option (\<lambda>r. (cr_exit r, last (cr_console r))) (cli_main w args)
          = Some (1, Err (([CHR 0xE2, CHR 0x9D, CHR 0x8C] @ '' Error: '') @ e))
      | Some (Inr st) \<Rightarrow> cli_main w args = Some st \<and> cr_exit st \<in> {0, 1}"
    using every_command_ends [of w args] by (auto simp: ends_well_def cli_main_def print_def exit_with_def split: option.splits sum.splits prod.splits)
next
  show "exits_zero w (''security-gate'' # rest) \<longleftrightarrow>
      (\<exists>content r. cw_files w (chosen (cw_env w ''SCAN_REPORT_FILE'') (arg_at 0 rest) ''./reports/latest-scan.json'') = Some (Inr content)
         \<and> evaluateSecurityGateFromJson (cw_parse w content) (gate_threshold (cw_env w ''SECURITY_SEVERITY_THRESHOLD'')) = Inr r \<and> sg_passed r)"
    by (simp add: exits_zero_iff dispatch_named runSecurityGate_def gate_on_file_zero)
qed (use resolveThreshold_bounds in \<open>auto simp: gate_main_zero gate_on_file_zero exits_zero_iff dispatch_named detectLogic_zero scanEvents_zero
    analyzeLogs_zero checkPR_zero cli_evaluate_zero Let_def arg_at_def\<close>)

section \<open>Commands that do not run\<close>

text \<open>
  The help names \<open>rbac-check\<close> and \<open>evaluate <file>\<close>. Neither is dispatched: both words end in the default
  command, which takes the word itself for the name of the data file.\<close>

lemma rbac_check_not_dispatched:
  "dispatch_command w (''rbac-check'' # rest) = Some (cli_evaluate w (''rbac-check'' # rest))"
  by (simp add: dispatch_command_def or_else_string_def nonempty_def)

lemma evaluate_reads_its_own_name:
  "cw_files w ''evaluate'' = None \<Longrightarrow> \<not> exits_zero w (''evaluate'' # rest)"
  by (simp add: exits_zero_iff dispatch_command_def cli_evaluate_def or_else_string_def nonempty_def)

text \<open>The two gates differ on an empty threshold: one takes it for zero, the other for the default.\<close>

lemma empty_threshold: "gate_threshold (Some []) = Num 0" "resolveThreshold (Some []) = Some 3"
  by (simp_all add: gate_threshold_def js_Number_def resolveThreshold_def trim_def)

end
