(* ===== verification/Relayer_Monitor.thy ===== *)
theory Relayer_Monitor
  imports Anomaly_Detector Rpc_Health Relayer_State Webhook_Sender
begin

text \<open>
  The polling loop of the anomaly detector (\<open>monitor\<close>, \<open>emit\<close>, \<open>dispatchToDashboard\<close> and \<open>fetchMetrics\<close> of
  \<open>anomaly-detector/src/index.ts\<close>), which puts the threat feed, the node health checker, the failover monitor and
  the detection round together, and the alert channels and timer of the nonce watcher
  (\<open>audit-guard/watcher/nonce-anomaly-watcher.ts\<close>).

  What a cycle finds outside is a record: the answers of the feeds, the probes of the nodes, the metrics, the
  clock. Webhook alerts are sent without waiting and are the list of their payloads; posts to the dashboard are
  listed too, and whether one fails is an argument. Cycles may overlap at their awaits; within a health check the answers
  of the nodes are taken together. The order of console lines of posts that are not waited for is
  not meant. Dumps of whole objects to the console are left out, and the
  latency threshold is a whole number of milliseconds.
\<close>

section \<open>The dashboard channel\<close>

fun anomaly_name :: "AnomalyType \<Rightarrow> string" where
  "anomaly_name NONCE_SPIKE = ''NONCE_SPIKE''"
| "anomaly_name FAILED_TX_BURST = ''FAILED_TX_BURST''"
| "anomaly_name UNAUTHORIZED_ADDRESS = ''UNAUTHORIZED_ADDRESS''"
| "anomaly_name THREAT_FEED_MATCH = ''THREAT_FEED_MATCH''"
| "anomaly_name NONCE_REUSE = ''NONCE_REUSE''"

text \<open>An alert as the channel takes it; the alert of a slow round has no address.\<close>

record DashAlert =
  dl_type :: string
  dl_severity :: Severity
  dl_address :: "string option"
  dl_detail :: string
  dl_timestamp :: jsnum

definition dash_alert :: "AnomalyAlert \<Rightarrow> DashAlert" where
  "dash_alert a = \<lparr>dl_type = anomaly_name (aa_type a), dl_severity = aa_severity a, dl_address = Some (aa_address a),
     dl_detail = aa_detail a, dl_timestamp = aa_timestamp a\<rparr>"

definition address_text :: "string option \<Rightarrow> string" where
  "address_text a = (case a of None \<Rightarrow> ''undefined'' | Some s \<Rightarrow> s)"

record DashPost =
  dp_url :: string
  dp_authorization :: string
  dp_body :: jsval

definition dash_body :: "DashAlert \<Rightarrow> string \<Rightarrow> jsval" where
  "dash_body a isoText = JObject [(''source'', JString ''anomaly-detector''), (''type'', JString (dl_type a)),
     (''severity'', JString (severity_name (dl_severity a))),
     (''message'', JString (''['' @ dl_type a @ ''] '' @ address_text (dl_address a) @ ('' '' @ [CHR 0xE2, CHR 0x80, CHR 0x94] @ '' '') @ dl_detail a)),
     (''detail'', JString (dl_detail a)), (''timestamp'', JString isoText),
     (''metadata'', JObject [(''address'', case dl_address a of None \<Rightarrow> JNull | Some s \<Rightarrow> JString s), (''anomalyType'', JString (dl_type a)),
        (''originalTimestamp'', JNumber (dl_timestamp a))])]"

text \<open>The post of an alert: none when no dashboard is configured, an error when its time is no date.\<close>

definition dash_post :: "(string \<Rightarrow> string option) \<Rightarrow> DashAlert \<Rightarrow> (range_error + DashPost) option" where
  "dash_post env a =
     (case env ''GUARDIAN_DASH_URL'' of
        None \<Rightarrow> None
      | Some dashUrl \<Rightarrow>
          if dashUrl = [] then None
          else Some (map_sum id (\<lambda>isoText. \<lparr>dp_url = dashUrl,
              dp_authorization = ''Bearer '' @ (case env ''GUARDIAN_DASH_TOKEN'' of Some t \<Rightarrow> t | None \<Rightarrow> []), dp_body = dash_body a isoText\<rparr>)
            (toISOString (dl_timestamp a))))"

definition dispatch_failed :: "string \<Rightarrow> string" where
  "dispatch_failed e = ''[anomaly-detector] Dashboard dispatch failed: '' @ e"

definition dispatchToDashboard ::
  "(string \<Rightarrow> string option) \<Rightarrow> (DashPost \<Rightarrow> string option) \<Rightarrow> DashAlert \<Rightarrow> DashPost list \<times> string list" where
  "dispatchToDashboard env post a =
     (case dash_post env a of
        None \<Rightarrow> ([], [])
      | Some (Inl _) \<Rightarrow> ([], [dispatch_failed ''Invalid time value''])
      | Some (Inr p) \<Rightarrow> ([p], case post p of None \<Rightarrow> [] | Some e \<Rightarrow> [dispatch_failed e]))"

section \<open>One cycle\<close>

record CycleTrace =
  cy_console :: "string list"
  cy_webhooks :: "AlertPayload list"
  cy_posts :: "DashPost list"

definition no_trace :: CycleTrace where
  "no_trace = \<lparr>cy_console = [], cy_webhooks = [], cy_posts = []\<rparr>"

definition tell :: "string list \<Rightarrow> CycleTrace \<Rightarrow> CycleTrace" where
  "tell lines t = t\<lparr>cy_console := cy_console t @ lines\<rparr>"

definition hook :: "AlertPayload \<Rightarrow> CycleTrace \<Rightarrow> CycleTrace" where
  "hook p t = t\<lparr>cy_webhooks := cy_webhooks t @ [p]\<rparr>"

definition relayer_payload :: "int \<Rightarrow> string \<Rightarrow> AlertPayload" where
  "relayer_payload now alert = \<lparr>ap_repository = ''relayer'', ap_alert = alert, ap_timestamp = iso_date now\<rparr>"

record MonitorState =
  mo_config :: DetectorConfig
  mo_detector :: Detector
  mo_checker :: "NodeHealthChecker option"
  mo_failover :: RpcFailoverMonitor

record MonitorSettings =
  mc_env :: "string \<Rightarrow> string option"
  mc_post :: "DashPost \<Rightarrow> string option"
  mc_date_ok :: "string \<Rightarrow> bool"
  mc_failoverLatency :: int
  mc_successRate :: rat
  mc_latencyThreshold :: int

record CycleInput =
  ci_feedUrls :: "string list"
  ci_feed :: "string \<Rightarrow> string + feed_data"
  ci_health :: "string + (nat \<Rightarrow> probe)"
  ci_metrics :: "string + ((int \<times> int) \<times> RelayerMetrics) list"
  ci_files :: FileOutcomes
  ci_duration :: rat
  ci_now :: int

definition emit :: "MonitorSettings \<Rightarrow> CycleTrace \<Rightarrow> AnomalyAlert \<Rightarrow> CycleTrace" where
  "emit c t a =
     (case dispatchToDashboard (mc_env c) (mc_post c) (dash_alert a) of (posts, lines) \<Rightarrow>
        tell ((''[ALERT]['' @ severity_name (aa_severity a) @ ''][''  @ anomaly_name (aa_type a) @ ''] '' @ aa_address a @ ('' '' @ [CHR 0xE2, CHR 0x80, CHR 0x94] @ '' '') @ aa_detail a) # lines)
          (t\<lparr>cy_posts := cy_posts t @ posts\<rparr>))"

definition fetchMetrics :: "string option \<Rightarrow> (string \<Rightarrow> string + 'm list) \<Rightarrow> string + 'm list" where
  "fetchMetrics url get = (case url of None \<Rightarrow> Inr [] | Some u \<Rightarrow> if u = [] then Inr [] else get u)"

text \<open>The callback of a failover.\<close>

definition on_failover :: "MonitorSettings \<Rightarrow> int \<Rightarrow> string \<Rightarrow> string \<Rightarrow> RpcFailoverMonitor \<Rightarrow> CycleTrace \<Rightarrow> RpcFailoverMonitor \<times> CycleTrace" where
  "on_failover c now oldUrl newUrl m t =
     (case recordFailover (mc_failoverLatency c) oldUrl newUrl now m of (event, m') \<Rightarrow>
        (m', tell ([''[node-health] Failover triggered: '' @ oldUrl @ ('' '' @ [CHR 0xE2, CHR 0x86, CHR 0x92] @ '' '') @ newUrl,
                 ''[rpc-failover-monitor] Failover latency: '' @ show_int (fe_latencyMs event) @ ''ms'']
               @ (if fe_slowFailover event
                  then [''[rpc-failover-monitor] WARNING: Slow failover detected ('' @ show_int (fe_latencyMs event) @ ''ms > threshold)''] else []))
             (hook (relayer_payload now (''Node failover: '' @ oldUrl @ ('' '' @ [CHR 0xE2, CHR 0x86, CHR 0x92] @ '' '') @ newUrl)) t)))"

definition check_nodes ::
  "MonitorSettings \<Rightarrow> int \<Rightarrow> (nat \<Rightarrow> probe) \<Rightarrow> NodeHealthChecker \<Rightarrow> RpcFailoverMonitor \<Rightarrow> CycleTrace
     \<Rightarrow> NodeStatus list \<times> NodeHealthChecker \<times> RpcFailoverMonitor \<times> CycleTrace" where
  "check_nodes c now probes h m t =
     (case checkHealth probes h of
        (statuses, None, h') \<Rightarrow> (statuses, h', m, t)
      | (statuses, Some (oldUrl, newUrl), h') \<Rightarrow>
          (case on_failover c now oldUrl newUrl m t of (m', t') \<Rightarrow> (statuses, h', m', t')))"

definition health_phase :: "MonitorSettings \<Rightarrow> CycleInput \<Rightarrow> MonitorState \<times> CycleTrace \<Rightarrow> MonitorState \<times> CycleTrace" where
  "health_phase c i st =
     (case st of (s, t) \<Rightarrow>
       (case mo_checker s of
          None \<Rightarrow> (s, t)
        | Some h \<Rightarrow>
            (case ci_health i of
               Inl e \<Rightarrow> (s, tell [''[node-health] Check error: '' @ e] t)
             | Inr probes \<Rightarrow>
                 (case check_nodes c (ci_now i) probes h (mo_failover s) t of (statuses, h', m, t') \<Rightarrow>
                    (s\<lparr>mo_checker := Some h',
                       mo_failover := foldl (\<lambda>m n. recordCheck (ns_url n) (ns_healthy n) (ci_now i) m) m statuses\<rparr>, t')))))"

definition feed_phase :: "CycleInput \<Rightarrow> MonitorState \<times> CycleTrace \<Rightarrow> MonitorState \<times> CycleTrace" where
  "feed_phase i st =
     (case st of (s, t) \<Rightarrow>
        (s\<lparr>mo_config := (mo_config s)\<lparr>dc_threatFetcher := updateFeed (ci_feed i) (ci_feedUrls i) (ci_now i) (dc_threatFetcher (mo_config s))\<rparr>\<rparr>, t))"

fun round_error_message :: "round_error \<Rightarrow> string" where
  "round_error_message (InvalidTime _) = ''Invalid time value''"
| "round_error_message (StoreError e) = e"

definition js_round :: "rat \<Rightarrow> int" where "js_round x = \<lfloor>x + 1 / 2\<rfloor>"

text \<open>The alert of a slow round, which has no address and is not recorded among the alerts.\<close>

definition latency_alert :: "MonitorSettings \<Rightarrow> CycleInput \<Rightarrow> DashAlert" where
  "latency_alert c i =
     \<lparr>dl_type = ''RELAYER_LATENCY_HIGH'', dl_severity = HIGH, dl_address = None,
      dl_detail = ''Relayer latency high: '' @ show_int (js_round (ci_duration i)) @ ''ms'' @ '' (threshold: '' @ show_int (mc_latencyThreshold c) @ ''ms)'',
      dl_timestamp = Num (ci_now i)\<rparr>"

definition report_latency :: "MonitorSettings \<Rightarrow> CycleInput \<Rightarrow> CycleTrace \<Rightarrow> CycleTrace" where
  "report_latency c i t =
     (if ci_duration i > of_int (mc_latencyThreshold c) then
        (case dispatchToDashboard (mc_env c) (mc_post c) (latency_alert c i) of
           (posts, lines) \<Rightarrow>
             tell lines ((hook (relayer_payload (ci_now i) (''Relayer latency high: '' @ show_int (js_round (ci_duration i)) @ ''ms'')) t)
               \<lparr>cy_posts := cy_posts t @ posts\<rparr>))
      else t)"

text \<open>Fetching and the detection round; true when it goes on to the latency.\<close>

definition detect_phase :: "MonitorSettings \<Rightarrow> CycleInput \<Rightarrow> MonitorState \<times> CycleTrace \<Rightarrow> bool \<times> MonitorState \<times> CycleTrace" where
  "detect_phase c i st =
     (case st of (s, t) \<Rightarrow>
       (case ci_metrics i of
          Inl e \<Rightarrow> (False, s, tell [''[anomaly-detector] Fetch error: '' @ e] t)
        | Inr metrics \<Rightarrow>
            (case runOnce (mc_date_ok c) (mo_config s) (ci_files i) (mo_detector s) metrics of
               (Inl err, d) \<Rightarrow> (False, s\<lparr>mo_detector := d\<rparr>, tell [''[anomaly-detector] Fetch error: '' @ round_error_message err] t)
             | (Inr found, d) \<Rightarrow> (True, s\<lparr>mo_detector := d\<rparr>, foldl (emit c) t found))))"

text \<open>
  The interval fires whether or not the cycle before has come to its end, so cycles overlap. A cycle is suspended at its
  awaits: on the feeds, on the health check, on the metrics and on the round (which itself is one synchronous run). A tick
  starts a cycle, and any suspended cycle may be the next to go on, with what the outside then answers; the probes of one
  health check are taken together.
\<close>

datatype cycle_phase = Feeding | Checking | Fetching | Measuring

fun resume_cycle :: "MonitorSettings \<Rightarrow> cycle_phase \<Rightarrow> CycleInput \<Rightarrow> MonitorState \<times> CycleTrace \<Rightarrow> cycle_phase option \<times> MonitorState \<times> CycleTrace" where
  "resume_cycle c Feeding i st = (Some Checking, feed_phase i st)"
| "resume_cycle c Checking i st = (Some Fetching, health_phase c i st)"
| "resume_cycle c Fetching i st = (case detect_phase c i st of (goes_on, st') \<Rightarrow> (if goes_on then Some Measuring else None, st'))"
| "resume_cycle c Measuring i st = (None, fst st, report_latency c i (snd st))"

datatype monitor_event = Tick | Resume nat CycleInput

fun monitor_step ::
  "MonitorSettings \<Rightarrow> (MonitorState \<times> CycleTrace) \<times> cycle_phase list \<Rightarrow> monitor_event
     \<Rightarrow> (MonitorState \<times> CycleTrace) \<times> cycle_phase list" where
  "monitor_step c (st, running) Tick = (st, running @ [Feeding])"
| "monitor_step c (st, running) (Resume k i) =
     (if k < length running then
        (case resume_cycle c (running ! k) i st of
           (None, st') \<Rightarrow> (st', take k running @ drop (Suc k) running)
         | (Some p, st') \<Rightarrow> (st', running[k := p]))
      else (st, running))"

text \<open>A cycle that nothing overlaps.\<close>

definition poll_cycle :: "MonitorSettings \<Rightarrow> MonitorState \<times> CycleTrace \<Rightarrow> CycleInput \<Rightarrow> MonitorState \<times> CycleTrace" where
  "poll_cycle c st i =
     (case detect_phase c i (health_phase c i (feed_phase i st)) of
        (goes_on, s, t) \<Rightarrow> (s, if goes_on then report_latency c i t else t))"

lemma undisturbed_cycle:
  "foldl (monitor_step c) (st, []) [Tick, Resume 0 i, Resume 0 i, Resume 0 i, Resume 0 i] = (poll_cycle c st i, [])"
  by (auto simp: poll_cycle_def split: prod.splits)

text \<open>\<open>monitor\<close> up to the timer: the first feed update and health check; an error of the check ends it.\<close>

definition monitor_start :: "MonitorSettings \<Rightarrow> CycleInput \<Rightarrow> MonitorState \<Rightarrow> (string + MonitorState) \<times> CycleTrace" where
  "monitor_start c i s =
     (case feed_phase i (s, tell [''[anomaly-detector] Starting Vero Relayer monitor...''] no_trace) of (s1, t) \<Rightarrow>
       (case mo_checker s1 of
          None \<Rightarrow> (Inr s1, t)
        | Some h \<Rightarrow>
            (case ci_health i of
               Inl e \<Rightarrow> (Inl e, t)
             | Inr probes \<Rightarrow>
                 (case check_nodes c (ci_now i) probes h (mo_failover s1) t of (statuses, h', m, t') \<Rightarrow>
                    (Inr (s1\<lparr>mo_checker := Some h', mo_failover := m\<rparr>), t')))))"

section \<open>The channels of the nonce watcher\<close>

definition nonce_alert_text :: "NonceAnomalyAlert \<Rightarrow> string" where
  "nonce_alert_text a = ''nonce_anomaly drift='' @ show_int (na_drift a) @ '' engine='' @ show_int (na_engineNonce a) @ '' chain=''
     @ show_int (na_chainNonce a) @ '' severity='' @ severity_name (na_severity a) @ '' ledger='' @ show_int (na_ledgerNumber a)"

definition nonce_payload :: "NonceAnomalyAlert \<Rightarrow> AlertPayload" where
  "nonce_payload a = \<lparr>ap_repository = na_accountId a, ap_alert = nonce_alert_text a, ap_timestamp = iso_date (na_timestamp a)\<rparr>"

definition nonce_audit_line :: "NonceAnomalyAlert \<Rightarrow> string" where
  "nonce_audit_line a = json (JObject [(''accountId'', JString (na_accountId a)), (''engineNonce'', JNumber (Num (na_engineNonce a))),
     (''chainNonce'', JNumber (Num (na_chainNonce a))), (''drift'', JNumber (Num (na_drift a))), (''severity'', JString (severity_name (na_severity a))),
     (''timestamp'', JNumber (Num (na_timestamp a))), (''ledgerNumber'', JNumber (Num (na_ledgerNumber a)))]) @ [CHR 0x0A]"

record WatchTrace =
  wt_console :: "string list"
  wt_sent :: "AlertPayload list"
  wt_audit :: "string list"

text \<open>\<open>failure\<close> is the error of making the directory or appending, if there is one.\<close>

definition writeAuditLog :: "string option \<Rightarrow> NonceAnomalyAlert \<Rightarrow> WatchTrace \<Rightarrow> WatchTrace" where
  "writeAuditLog failure a t =
     (case failure of
        None \<Rightarrow> t\<lparr>wt_audit := wt_audit t @ [nonce_audit_line a]\<rparr>
      | Some e \<Rightarrow> t\<lparr>wt_console := wt_console t @ [''[NonceWatcher] Audit log write failed: '' @ e]\<rparr>)"

definition triggerAlert ::
  "HookWorld \<Rightarrow> GuardConfig \<Rightarrow> int \<Rightarrow> (NonceAnomalyAlert \<Rightarrow> string option) \<Rightarrow> WatchTrace \<Rightarrow> NonceAnomalyAlert \<Rightarrow> WatchTrace" where
  "triggerAlert w c now audit t a =
     (let t1 = t\<lparr>wt_console := wt_console t @ [''[NonceWatcher] NONCE ANOMALY: account='' @ na_accountId a @ '' engine='' @ show_int (na_engineNonce a)
             @ '' chain='' @ show_int (na_chainNonce a) @ '' drift='' @ show_int (na_drift a) @ '' severity='' @ severity_name (na_severity a)],
            wt_sent := wt_sent t @ [nonce_payload a]\<rparr>;
          t2 = (case webhook_sendAlert w c now (nonce_payload a) None of
             (Inl e, _) \<Rightarrow> t1\<lparr>wt_console := wt_console t1 @ [''[NonceWatcher] Alert dispatch failed: '' @ e]\<rparr>
           | (Inr _, _) \<Rightarrow> t1)
      in writeAuditLog (audit a) a t2)"

definition sync_and_alert ::
  "HookWorld \<Rightarrow> GuardConfig \<Rightarrow> (NonceAnomalyAlert \<Rightarrow> string option) \<Rightarrow> (string \<Rightarrow> (int \<times> int) option) \<Rightarrow> int
     \<Rightarrow> NonceAnomalyWatcher \<times> WatchTrace \<Rightarrow> NonceAnomalyWatcher \<times> WatchTrace" where
  "sync_and_alert w c audit provider now st =
     (case st of (nw, t) \<Rightarrow> (case syncNonces provider now nw of (alerts, nw') \<Rightarrow> (nw', foldl (triggerAlert w c now audit) t alerts)))"

text \<open>The timer: the handle kept in \<open>syncTimer\<close> and the intervals that fire.\<close>

record WatchTimer =
  tm_syncTimer :: "nat option"
  tm_firing :: "nat list"
  tm_next :: nat

definition start_watcher :: "WatchTimer \<Rightarrow> WatchTimer" where
  "start_watcher m = \<lparr>tm_syncTimer = Some (tm_next m), tm_firing = tm_firing m @ [tm_next m], tm_next = Suc (tm_next m)\<rparr>"

definition stop_watcher :: "WatchTimer \<Rightarrow> WatchTimer" where
  "stop_watcher m =
     (case tm_syncTimer m of
        None \<Rightarrow> m
      | Some h \<Rightarrow> m\<lparr>tm_syncTimer := None, tm_firing := removeAll h (tm_firing m)\<rparr>)"

section \<open>Every alert is dispatched\<close>

lemma alert_times: "a \<in> set (fst (analyze_metric cfg prev m)) \<Longrightarrow> aa_timestamp a = rm_timestamp m"
  by (auto simp: analyze_metric_def Let_def anomaly_def split: if_splits)

lemma analyze_loop_times: "a \<in> set (fst (analyze_loop cfg prev ms)) \<Longrightarrow> aa_timestamp a \<in> rm_timestamp ` set ms"
proof (induction ms arbitrary: prev)
  case (Cons m ms)
  obtain det prev' where m: "analyze_metric cfg prev m = (det, prev')" by fastforce
  obtain rest prev'' where l: "analyze_loop cfg prev' ms = (rest, prev'')" by fastforce
  have "a \<in> set det \<or> a \<in> set rest" using Cons.prems by (simp add: m l)
  thus ?case using alert_times [of a cfg prev m] Cons.IH [of prev'] by (auto simp: m l)
qed simp

lemma admit_valid: "fst (admit date_ok ms g) = Inr accepted \<Longrightarrow> m \<in> set accepted \<Longrightarrow> valid_time (rm_timestamp m)"
proof (induction ms arbitrary: g accepted)
  case (Cons x ms)
  obtain clk y where x: "x = (clk, y)" by fastforce
  have y: "valid_time (rm_timestamp y)"
    using admit_outcome [of date_ok "x # ms" g] Cons.prems(1) by (auto simp: x)
  obtain event where e: "metric_event y = Inr event" using Cons.prems(1) by (auto simp: x split: sum.splits)
  obtain r g' where g: "ingest date_ok clk g event = (r, g')" by fastforce
  obtain acc where "fst (admit date_ok ms g') = Inr acc" "m = y \<or> m \<in> set acc"
    using Cons.prems by (auto simp: x e g split: prod.splits sum.splits if_splits)
  thus ?case using Cons.IH [of g' acc] y by auto
qed simp

lemma round_alerts_valid:
  assumes "runOnce date_ok cfg fo d ms = (Inr found, d')"
  shows "dt_alerts d' = dt_alerts d @ found \<and> (\<forall>a\<in>set found. valid_time (aa_timestamp a))"
proof -
  obtain acc g where a: "admit date_ok ms (dt_guard d) = (Inr acc, g)"
    using assms by (auto simp: runOnce_def split: prod.splits sum.splits)
  obtain det prev where l: "analyze_loop cfg (dt_previousNonces d) acc = (det, prev)" by fastforce
  have f: "found = det" "dt_alerts d' = dt_alerts d @ found"
    using assms by (auto simp: runOnce_def a l analyze_def saveNonces_def split: prod.splits sum.splits)
  have "valid_time (aa_timestamp a)" if "a \<in> set found" for a
    using analyze_loop_times [of a cfg "dt_previousNonces d" acc] admit_valid [of date_ok ms "dt_guard d" acc] that a l f(1) by auto
  thus ?thesis using f(2) by blast
qed

definition dash_configured :: "MonitorSettings \<Rightarrow> bool" where
  "dash_configured c = (case mc_env c ''GUARDIAN_DASH_URL'' of None \<Rightarrow> False | Some u \<Rightarrow> u \<noteq> [])"

text \<open>
  What goes to the dashboard: an alert of the detector (left) or that of a slow round (right), with its posts. The post of a
  detector's alert is spelled out.
\<close>

type_synonym dispatch = "AnomalyAlert + CycleInput"

definition channel_alert :: "MonitorSettings \<Rightarrow> dispatch \<Rightarrow> DashAlert" where
  "channel_alert c x = (case x of Inl a \<Rightarrow> dash_alert a | Inr i \<Rightarrow> latency_alert c i)"

definition posts_of :: "MonitorSettings \<Rightarrow> dispatch \<Rightarrow> DashPost list" where
  "posts_of c x = (case dash_post (mc_env c) (channel_alert c x) of Some (Inr p) \<Rightarrow> [p] | _ \<Rightarrow> [])"

definition alert_line :: "AnomalyAlert \<Rightarrow> string" where
  "alert_line a = ''[ALERT]['' @ severity_name (aa_severity a) @ ''][''  @ anomaly_name (aa_type a) @ ''] '' @ aa_address a @ ('' '' @ [CHR 0xE2, CHR 0x80, CHR 0x94] @ '' '') @ aa_detail a"

definition posted_in_full :: "MonitorSettings \<Rightarrow> AnomalyAlert \<Rightarrow> bool" where
  "posted_in_full c a \<longleftrightarrow> (case mc_env c ''GUARDIAN_DASH_URL'' of
     None \<Rightarrow> posts_of c (Inl a) = []
   | Some url \<Rightarrow> if url = [] then posts_of c (Inl a) = []
       else \<exists>isoText. toISOString (aa_timestamp a) = Inr isoText \<and> posts_of c (Inl a) =
         [\<lparr>dp_url = url, dp_authorization = ''Bearer '' @ (case mc_env c ''GUARDIAN_DASH_TOKEN'' of Some t \<Rightarrow> t | None \<Rightarrow> []),
           dp_body = dash_body (dash_alert a) isoText\<rparr>])"

text \<open>A slow round is dispatched only when it was slow.\<close>

definition dispatched_right :: "MonitorSettings \<Rightarrow> dispatch \<Rightarrow> bool" where
  "dispatched_right c x = (case x of Inl a \<Rightarrow> posted_in_full c a | Inr i \<Rightarrow> ci_duration i > of_int (mc_latencyThreshold c))"

lemma valid_posted: "valid_time (aa_timestamp a) \<Longrightarrow> posted_in_full c a"
  using toISOString_valid [of "aa_timestamp a"]
  by (auto simp: posted_in_full_def posts_of_def channel_alert_def dash_post_def dash_alert_def split: option.splits)

text \<open>The alerts of the detector among what was dispatched.\<close>

definition detected :: "dispatch list \<Rightarrow> AnomalyAlert list" where
  "detected xs = concat (map (\<lambda>x. case x of Inl a \<Rightarrow> [a] | Inr _ \<Rightarrow> []) xs)"

lemma dispatch_posts: "fst (dispatchToDashboard (mc_env c) post (channel_alert c x)) = posts_of c x"
  by (auto simp: dispatchToDashboard_def posts_of_def split: option.splits sum.splits)

lemma emit_trace:
  "cy_posts (emit c t a) = cy_posts t @ posts_of c (Inl a)" "set (cy_console t) \<union> {alert_line a} \<subseteq> set (cy_console (emit c t a))"
  using dispatch_posts [of c "mc_post c" "Inl a"]
  by (auto simp: emit_def tell_def alert_line_def channel_alert_def split: prod.splits)

lemma emit_all:
  "cy_posts (foldl (emit c) t as) = cy_posts t @ concat (map (posts_of c \<circ> Inl) as)
    \<and> set (cy_console t) \<union> alert_line ` set as \<subseteq> set (cy_console (foldl (emit c) t as))"
proof (induction as arbitrary: t)
  case (Cons a as)
  show ?case using Cons.IH [of "emit c t a"] emit_trace [where a = a and c = c and t = t] by auto
qed simp

lemma report_latency_trace:
  "cy_posts (report_latency c i t) = cy_posts t @ (if ci_duration i > of_int (mc_latencyThreshold c) then posts_of c (Inr i) else [])"
  "set (cy_console t) \<subseteq> set (cy_console (report_latency c i t))"
  using dispatch_posts [of c "mc_post c" "Inr i"]
  by (auto simp: report_latency_def tell_def hook_def channel_alert_def split: prod.splits)

lemma on_failover_keeps:
  "on_failover c now old new m t = (m', t') \<Longrightarrow> cy_posts t' = cy_posts t \<and> set (cy_console t) \<subseteq> set (cy_console t')"
  by (auto simp: on_failover_def tell_def hook_def split: prod.splits)

lemma feed_phase_keeps:
  "feed_phase i (s, t) = (s', t') \<Longrightarrow> mo_detector s' = mo_detector s \<and> t' = t"
  by (auto simp: feed_phase_def)

lemma check_nodes_keeps:
  "check_nodes c now probes h m t = (ns, h', m', t') \<Longrightarrow> cy_posts t' = cy_posts t \<and> set (cy_console t) \<subseteq> set (cy_console t')"
  by (auto simp: check_nodes_def dest: on_failover_keeps split: prod.splits option.splits)

lemma health_phase_keeps:
  "health_phase c i (s, t) = (s', t') \<Longrightarrow> mo_detector s' = mo_detector s \<and> cy_posts t' = cy_posts t \<and> set (cy_console t) \<subseteq> set (cy_console t')"
  by (auto simp: health_phase_def tell_def dest: check_nodes_keeps split: prod.splits option.splits sum.splits)

lemma round_reports_alerts:
  "dt_alerts (snd (runOnce date_ok cfg fo d ms)) = dt_alerts d @ (case fst (runOnce date_ok cfg fo d ms) of Inl _ \<Rightarrow> [] | Inr found \<Rightarrow> found)"
  by (auto simp: runOnce_def analyze_def saveNonces_def split: prod.splits sum.splits)

text \<open>What holds of a state and trace that grew from others by dispatching \<open>new\<close>.\<close>

definition dispatched :: "MonitorSettings \<Rightarrow> MonitorState \<times> CycleTrace \<Rightarrow> MonitorState \<times> CycleTrace \<Rightarrow> dispatch list \<Rightarrow> bool" where
  "dispatched c st st' new \<longleftrightarrow>
     dt_alerts (mo_detector (fst st')) = dt_alerts (mo_detector (fst st)) @ detected new
      \<and> cy_posts (snd st') = cy_posts (snd st) @ concat (map (posts_of c) new)
      \<and> (\<forall>x \<in> set new. dispatched_right c x)
      \<and> set (cy_console (snd st)) \<union> alert_line ` set (detected new) \<subseteq> set (cy_console (snd st'))"

lemma detected_simps: "detected [] = []" "detected (map Inl as) = as" "detected (xs @ ys) = detected xs @ detected ys" "detected [Inr x] = []"
  by (induction as) (simp_all add: detected_def)

lemma detect_phase_dispatched:
  assumes "detect_phase c i (s, t) = (goes_on, st')"
  shows "\<exists>new. dispatched c (s, t) st' new"
proof (cases "ci_metrics i")
  case (Inl e)
  then show ?thesis using assms
    by (intro exI [of _ "[]"]) (auto simp: dispatched_def detect_phase_def tell_def detected_simps)
next
  case (Inr ms)
  obtain r d where r: "runOnce (mc_date_ok c) (mo_config s) (ci_files i) (mo_detector s) ms = (r, d)" by fastforce
  show ?thesis
  proof (cases r)
    case (Inl err)
    have "dt_alerts d = dt_alerts (mo_detector s)"
      using round_reports_alerts [of "mc_date_ok c" "mo_config s" "ci_files i" "mo_detector s" ms] r Inl by simp
    then show ?thesis using Inl r Inr assms
      by (intro exI [of _ "[]"]) (auto simp: dispatched_def detect_phase_def tell_def detected_simps)
  next
    case (Inr found)
    have d: "st' = (s\<lparr>mo_detector := d\<rparr>, foldl (emit c) t found)"
      using assms Inr r \<open>ci_metrics i = Inr ms\<close> by (simp add: detect_phase_def)
    have "dispatched c (s, t) st' (map Inl found)"
      using round_alerts_valid [OF r [unfolded Inr]] emit_all [of c t found] valid_posted
      unfolding d dispatched_def by (auto simp: detected_simps dispatched_right_def)
    then show ?thesis ..
  qed
qed

lemma resume_dispatched:
  assumes "resume_cycle c p i st = (q, st')"
  shows "\<exists>new. dispatched c st st' new"
proof (cases p)
  case Feeding
  then show ?thesis using assms feed_phase_keeps [of i "fst st" "snd st" "fst st'" "snd st'"]
    by (intro exI [of _ "[]"]) (auto simp: dispatched_def detected_simps)
next
  case Checking
  then show ?thesis using assms health_phase_keeps [of c i "fst st" "snd st" "fst st'" "snd st'"]
    by (intro exI [of _ "[]"]) (auto simp: dispatched_def detected_simps)
next
  case Fetching
  then show ?thesis using assms detect_phase_dispatched [of c i "fst st" "snd st"] by (auto split: prod.splits)
next
  case Measuring
  then show ?thesis using assms report_latency_trace [where c = c and i = i and t = "snd st"]
    by (intro exI [of _ "if ci_duration i > of_int (mc_latencyThreshold c) then [Inr i] else []"])
      (auto simp: dispatched_def detected_simps dispatched_right_def)
qed

lemma monitor_step_dispatched: "\<exists>new. dispatched c (fst r) (fst (monitor_step c r e)) new"
proof -
  have none: "dispatched c st st []" for st by (simp add: dispatched_def detected_simps)
  obtain st running where r: "r = (st, running)" by (rule prod.exhaust)
  show ?thesis
  proof (cases e)
    case (Resume k i)
    obtain q st' where q: "resume_cycle c (running ! k) i st = (q, st')" by (rule prod.exhaust)
    show ?thesis using resume_dispatched [OF q] none [of st] r Resume q
      by (cases "k < length running"; cases q) auto
  qed (use none [of st] r in auto)
qed

interpretation polling: accounted_system "monitor_step c" "\<lambda>r r'. dispatched c (fst r) (fst r')" for c
proof (unfold_locales, goal_cases)
  case (3 r e)
  show ?case by (rule monitor_step_dispatched)
qed (auto simp: dispatched_def detected_simps)


section \<open>What the loop does not measure\<close>

text \<open>A failover on the first failure of the node in use is recorded with latency zero: the callback runs inside
  the health check, before the failing check is recorded.\<close>

lemma first_failover_latency_zero:
  assumes "jmap_get (fm_firstFailureTimes m) oldUrl = None" "recordFailover limit oldUrl newUrl now m = (event, m')"
  shows "fe_latencyMs event = 0"
  using assms by (auto simp: recordFailover_def Let_def)

lemma healthy_check_forgets_failures:
  "jmap_get (fm_firstFailureTimes (recordCheck url True now m)) url = None"
  by (simp add: recordCheck_def delete_conv)

text \<open>Nothing in the loop takes events off the queue of the ingestion guard: once it is full it stays full, and
  every further metric is counted as one that drops another.\<close>

lemma ingest_keeps_full: "queue_full g \<Longrightarrow> queue_full (snd (ingest date_ok clk g e))"
  by (auto simp: ingest_def queue_full_def enqueue_def Let_def split: option.splits prod.splits jsnum.splits)

lemma admit_keeps_full: "queue_full g \<Longrightarrow> queue_full (snd (admit date_ok ms g))"
proof (induction ms arbitrary: g)
  case (Cons x ms)
  obtain clk m where x: "x = (clk, m)" by fastforce
  show ?case
  proof (cases "metric_event m")
    case (Inr e)
    obtain r g' where g: "ingest date_ok clk g e = (r, g')" by fastforce
    have "queue_full (snd (admit date_ok ms g'))" using Cons ingest_keeps_full [of g date_ok clk e] g by simp
    thus ?thesis by (auto simp: x Inr g split: prod.splits sum.splits)
  qed (use Cons.prems in \<open>simp add: x\<close>)
qed simp

lemma round_keeps_full: "queue_full (dt_guard d) \<Longrightarrow> queue_full (dt_guard (snd (runOnce date_ok cfg fo d ms)))"
  using admit_keeps_full [of "dt_guard d" date_ok ms]
  by (auto simp: runOnce_def analyze_def saveNonces_def split: prod.splits sum.splits)

lemma detect_keeps_full:
  "queue_full (dt_guard (mo_detector s)) \<Longrightarrow> detect_phase c i (s, t) = (goes_on, s', t') \<Longrightarrow> queue_full (dt_guard (mo_detector s'))"
  using round_keeps_full [of "mo_detector s" "mc_date_ok c" "mo_config s" "ci_files i"]
  by (auto simp: detect_phase_def split: prod.splits sum.splits) (metis snd_conv)+

lemma resume_keeps_full:
  assumes "queue_full (dt_guard (mo_detector (fst st)))" "resume_cycle c p i st = (q, st')"
  shows "queue_full (dt_guard (mo_detector (fst st')))"
proof (cases p)
  case Feeding
  then show ?thesis using assms feed_phase_keeps [of i "fst st" "snd st" "fst st'" "snd st'"] by auto
next
  case Checking
  then show ?thesis using assms health_phase_keeps [of c i "fst st" "snd st" "fst st'" "snd st'"] by auto
next
  case Fetching
  obtain goes_on s' t' where d: "detect_phase c i (fst st, snd st) = (goes_on, s', t')" by (metis prod_cases3)
  show ?thesis using detect_keeps_full [OF assms(1) d] assms(2) d Fetching by auto
qed (use assms in auto)

lemma monitor_step_keeps_full:
  assumes "queue_full (dt_guard (mo_detector (fst (fst r))))"
  shows "queue_full (dt_guard (mo_detector (fst (fst (monitor_step c r e)))))"
proof -
  obtain st running where r: "r = (st, running)" by (rule prod.exhaust)
  show ?thesis
  proof (cases e)
    case (Resume k i)
    obtain q st' where q: "resume_cycle c (running ! k) i st = (q, st')" by (rule prod.exhaust)
    show ?thesis using resume_keeps_full [OF _ q] assms r Resume q
      by (cases "k < length running"; cases q) auto
  qed (use assms r in auto)
qed

interpretation saturation: invariant_system "monitor_step c" "\<lambda>r. queue_full (dt_guard (mo_detector (fst (fst r))))" for c
  by unfold_locales (rule monitor_step_keeps_full)

lemmas full_queue_stays_full = saturation.run_inv

text \<open>Starting twice and stopping once leaves an interval that fires for good.\<close>

lemma double_start_leaks:
  "tm_next m \<notin> set (tm_firing m) \<Longrightarrow> tm_next m \<in> set (tm_firing (stop_watcher (start_watcher (start_watcher m))))"
  by (simp add: start_watcher_def stop_watcher_def)

section \<open>Every drift is audited\<close>

lemma trigger_audit:
  "wt_audit (foldl (triggerAlert w c now audit) t as) = wt_audit t @ map nonce_audit_line (filter (\<lambda>a. audit a = None) as)"
  "wt_sent (foldl (triggerAlert w c now audit) t as) = wt_sent t @ map nonce_payload as"
  by (induction as arbitrary: t) (auto simp: triggerAlert_def writeAuditLog_def Let_def split: option.splits prod.splits sum.splits)

lemma sync_is_audited:
  "let (nw', t') = sync_and_alert w c (\<lambda>_. None) provider now (nw, t); alerts = fst (syncNonces provider now nw)
   in nw' = snd (syncNonces provider now nw) \<and> wt_audit t' = wt_audit t @ map nonce_audit_line alerts
    \<and> wt_sent t' = wt_sent t @ map nonce_payload alerts"
  by (simp add: sync_and_alert_def trigger_audit case_prod_beta Let_def)

end
