(* ===== verification/Service_Edges.thy ===== *)
theory Service_Edges
  imports Js_Number Audit_Trail Local_Server Rpc_Health Security_Gate Ingestion_Guard
begin

text \<open>
  The edges of the services: the settings they read at their start and the files and addresses they use.
  The Horizon lookup of the audit trail (\<open>verifiable-audit-trail/src/index.ts\<close>), the start of the local server
  (\<open>atomic-rpc-relayer-bridge/src/local-server.ts\<close>), settings and report file of the failover monitor
  (\<open>anomaly-detector/src/rpc-failover-monitor.ts\<close>), stored reports of the drift engine
  (\<open>audit-guard/src/diff-engine.ts\<close>) and the status line of the ingestion guard
  (\<open>audit-guard/src/telemetry-ingestion-guard.ts\<close>).

  The URL parser, the printing of JSON with indentation and \<open>JSON.parse\<close> are arguments. A file that cannot be read
  or written gives its error.
\<close>

section \<open>The Horizon lookup\<close>

record Url =
  ur_protocol :: string
  ur_username :: string
  ur_password :: string
  ur_host :: string
  ur_pathname :: string
  ur_search :: string
  ur_hash :: string

definition resolveHorizonUrl :: "string option \<Rightarrow> string" where
  "resolveHorizonUrl env = (case env of Some u \<Rightarrow> u | None \<Rightarrow> ''https://horizon-testnet.stellar.org'')"

definition strip_slashes :: "string \<Rightarrow> string" where
  "strip_slashes p = rev (dropWhile (\<lambda>c. c = CHR ''/'') (rev p))"

definition horizonTransactionUrl :: "(string \<Rightarrow> Url option) \<Rightarrow> string option \<Rightarrow> string \<Rightarrow> string + Url" where
  "horizonTransactionUrl parseUrl env transactionHash =
     (case parseUrl (resolveHorizonUrl env) of
        None \<Rightarrow> Inl ''HORIZON_URL must be a valid absolute URL''
      | Some u \<Rightarrow>
          if ur_protocol u \<noteq> ''https:'' then Inl ''HORIZON_URL must use HTTPS''
          else if ur_username u \<noteq> [] \<or> ur_password u \<noteq> [] then Inl ''HORIZON_URL must not include credentials''
          else Inr (u\<lparr>ur_pathname := strip_slashes (ur_pathname u) @ ''/transactions/'' @ transactionHash, ur_search := [], ur_hash := []\<rparr>))"

text \<open>When a promise settles, in milliseconds, and with what; \<open>None\<close> when it never does.\<close>

type_synonym 'a settling = "(nat \<times> (LookupError + 'a)) option"

definition lookup_timed_out :: "int \<Rightarrow> LookupError" where
  "lookup_timed_out timeoutMs = \<lparr>le_response_status = None, le_status = None,
     le_message = ''Horizon transaction lookup timed out after '' @ show_int timeoutMs @ ''ms''\<rparr>"

definition withTimeout :: "'a settling \<Rightarrow> int \<Rightarrow> LookupError + 'a" where
  "withTimeout promise timeoutMs =
     (case promise of
        None \<Rightarrow> Inl (lookup_timed_out timeoutMs)
      | Some (t, result) \<Rightarrow> if int t < timeoutMs then result else Inl (lookup_timed_out timeoutMs))"

text \<open>\<open>server\<close> is the injected lookup, \<open>get\<close> the HTTP client, which is given the timeout.\<close>

definition lookupHorizonTransaction ::
  "(string \<Rightarrow> Url option) \<Rightarrow> string option \<Rightarrow> (Url \<Rightarrow> int \<Rightarrow> LookupError + 'a) \<Rightarrow> (string \<Rightarrow> 'a settling) option \<Rightarrow> string \<Rightarrow> int
     \<Rightarrow> LookupError + 'a" where
  "lookupHorizonTransaction parseUrl env get server transactionHash timeoutMs =
     (case server of
        Some call \<Rightarrow> withTimeout (call transactionHash) timeoutMs
      | None \<Rightarrow>
          (case horizonTransactionUrl parseUrl env transactionHash of
             Inl e \<Rightarrow> Inl \<lparr>le_response_status = None, le_status = None, le_message = e\<rparr>
           | Inr url \<Rightarrow> get url timeoutMs))"

definition usage :: string where
  "usage = join [CHR 0x0A]
     [''Usage:'', ''  node dist/index.js anchor <reports-directory>'',
      ''  node dist/index.js verify <report-file> --tx <transaction-hash> [--account <G...>] [--allow-legacy-memo-text]'',
      ''  node dist/index.js <reports-directory>  # backward-compatible anchor mode'']"

section \<open>Starting the local server\<close>

text \<open>\<open>Number(undefined)\<close> is \<open>NaN\<close>.\<close>

definition parsePositiveInt :: "string option \<Rightarrow> rat \<Rightarrow> rat" where
  "parsePositiveInt v fallback =
     (case v of None \<Rightarrow> fallback | Some s \<Rightarrow> (case js_Number s of Finite q \<Rightarrow> q | _ \<Rightarrow> fallback))"

definition either_of :: "'a option \<Rightarrow> 'a option \<Rightarrow> 'a option" where
  "either_of a b = (case a of Some x \<Rightarrow> Some x | None \<Rightarrow> b)"

definition server_port :: "(string \<Rightarrow> string option) \<Rightarrow> rat option \<Rightarrow> rat" where
  "server_port env port = (case port of Some p \<Rightarrow> p | None \<Rightarrow> parsePositiveInt (either_of (env ''PORT'') (env ''BRIDGE_PORT'')) 8545)"

definition server_host :: "(string \<Rightarrow> string option) \<Rightarrow> string option \<Rightarrow> string" where
  "server_host env host = (case either_of host (env ''HOST'') of Some h \<Rightarrow> h | None \<Rightarrow> ''0.0.0.0'')"

text \<open>The two lines of the start-up message; \<open>has_address\<close> tells whether the server has an address object. The
  placeholders of the template are printed as they stand.\<close>

definition server_banner :: "bool \<Rightarrow> string list" where
  "server_banner has_address =
     [''[atomic-rpc-relayer-bridge] local server listening on '' @ (if has_address then ''( {addr.address}: ){addr.port}'' else ''( {host}: ){port}''),
      ''[atomic-rpc-relayer-bridge] GET /health  GET /metrics  GET /audit-log'']"

definition startLocalServer ::
  "(string \<Rightarrow> string option) \<Rightarrow> ServerEnv \<Rightarrow> LocalServerOptions \<Rightarrow> rat option \<Rightarrow> string option \<Rightarrow> string + (LocalHandler \<times> rat \<times> string)" where
  "startLocalServer env senv opts port host =
     map_sum id (\<lambda>h. (h, server_port env port, server_host env host)) (createLocalBridgeHandler opts senv)"

section \<open>The failover monitor\<close>

definition parsePositiveInteger :: "string option \<Rightarrow> int \<Rightarrow> int" where
  "parsePositiveInteger v fallback =
     (case v of
        None \<Rightarrow> fallback
      | Some s \<Rightarrow> (case js_Number s of Finite q \<Rightarrow> if is_whole q \<and> q > 0 then \<lfloor>q\<rfloor> else fallback | _ \<Rightarrow> fallback))"

definition default_failover_monitor :: "(string \<Rightarrow> string option) \<Rightarrow> RpcFailoverMonitor" where
  "default_failover_monitor env =
     new_failover_monitor (Num (parsePositiveInteger (env ''RPC_HEALTH_WINDOW'') 100)) (Num (parsePositiveInteger (env ''RPC_FAILOVER_EVENT_CAP'') 500))"

text \<open>The report is returned whether or not its file could be written.\<close>

definition report_to_file ::
  "(FailoverReport \<Rightarrow> string) \<Rightarrow> string option \<Rightarrow> bool \<Rightarrow> rat \<Rightarrow> int \<Rightarrow> RpcFailoverMonitor \<Rightarrow> FailoverReport \<times> string option \<times> string list" where
  "report_to_file printed failure writeToFile threshold now m =
     (let report = buildReport threshold now m
      in if \<not> writeToFile then (report, None, [])
         else (case failure of
             None \<Rightarrow> (report, Some (printed report), [])
           | Some e \<Rightarrow> (report, None, [''[rpc-failover-monitor] Failed to write report: '' @ e])))"

section \<open>Stored scan reports\<close>

type_synonym files = "string \<Rightarrow> (string + string) option"

text \<open>\<open>latest\<close> is the path of \<open>latest-scan.json\<close> in the directory of reports.\<close>

definition report_path :: "string \<Rightarrow> string option \<Rightarrow> string" where
  "report_path latest reportPath = (case reportPath of Some p \<Rightarrow> if p \<noteq> [] then p else latest | None \<Rightarrow> latest)"

definition loadPreviousReport :: "(string \<Rightarrow> ScanReport option) \<Rightarrow> files \<Rightarrow> string \<Rightarrow> string option \<Rightarrow> ScanReport option" where
  "loadPreviousReport parse f latest reportPath =
     (case f (report_path latest reportPath) of
        None \<Rightarrow> None
      | Some (Inl _) \<Rightarrow> None
      | Some (Inr content) \<Rightarrow> parse content)"

text \<open>\<open>failure\<close>: the error of making the directory or of writing.\<close>

definition saveCurrentReport :: "(ScanReport \<Rightarrow> string) \<Rightarrow> string option \<Rightarrow> files \<Rightarrow> string \<Rightarrow> ScanReport \<Rightarrow> string option \<Rightarrow> string + files" where
  "saveCurrentReport printed failure f latest report reportPath =
     (case failure of
        Some e \<Rightarrow> Inl e
      | None \<Rightarrow> Inr (f(report_path latest reportPath \<mapsto> Inr (printed report))))"

section \<open>The status line of the ingestion guard\<close>

definition show_depth :: "Guard \<Rightarrow> string" where
  "show_depth g = show_nat (length (g_queue g)) @ ''/'' @ show_num (g_maxQueueDepth g)"

definition logStatus :: "string \<Rightarrow> int \<Rightarrow> Guard \<Rightarrow> bool \<times> string" where
  "logStatus sourceName now g =
     (let m = getMetrics now g; head = ''[TelemetryIngestionGuard]['' @ sourceName @ (''] STATUS '' @ [CHR 0xE2, CHR 0x80, CHR 0x94] @ '' '') @ ''accepted='' @ show_nat (gm_totalAccepted m);
          warn = (gm_totalRateLimited m > 0 \<or> gm_totalDropped m > 0);
          tail = '' queue='' @ show_depth g @ '' tokens='' @ show_int (gm_tokensAvailable m)
      in (warn, if warn
          then head @ '' rate_limited='' @ show_nat (gm_totalRateLimited m) @ '' dropped='' @ show_nat (gm_totalDropped m)
            @ '' malformed='' @ show_nat (gm_totalMalformed m) @ tail
          else head @ tail))"

section \<open>Properties\<close>

text \<open>A lookup never goes over plain HTTP, never carries credentials, and asks for the transaction alone.\<close>

lemma lookup_url_safe:
  "horizonTransactionUrl parseUrl env h = Inr u \<Longrightarrow>
     ur_protocol u = ''https:'' \<and> ur_username u = [] \<and> ur_password u = [] \<and> ur_search u = [] \<and> ur_hash u = []
     \<and> suffix (''/transactions/'' @ h) (ur_pathname u)"
  by (auto simp: horizonTransactionUrl_def suffix_def split: option.splits if_splits)

text \<open>What an injected lookup answers in time is passed on; a late or missing answer is the timeout error.\<close>

lemma withTimeout_exact:
  "withTimeout p ms = r \<longleftrightarrow>
     (\<exists>t. p = Some (t, r) \<and> int t < ms) \<or> r = Inl (lookup_timed_out ms) \<and> (case p of None \<Rightarrow> True | Some (t, _) \<Rightarrow> ms \<le> int t)"
  by (auto simp: withTimeout_def split: option.splits)

text \<open>A stored report is read back, and the drift against it is none when nothing changed.\<close>

lemma saved_report_loaded:
  assumes "parse (printed r) = Some r" "saveCurrentReport printed None f latest r p = Inr f'"
  shows "loadPreviousReport parse f' latest p = Some r"
  using assms by (auto simp: saveCurrentReport_def loadPreviousReport_def)

text \<open>The window and cap of the default monitor are positive, whatever the environment says.\<close>

lemma default_monitor_positive:
  "fm_windowSize (default_failover_monitor env) > 0 \<and> fm_failoverEventCap (default_failover_monitor env) > 0"
  by (simp add: default_failover_monitor_def new_failover_monitor_def positive_or_def)

text \<open>Despite its name the parser of the server's numbers takes zero, negative and fractional values.\<close>

lemma parsePositiveInt_takes_others: "parsePositiveInt (Some ''-1'') 8545 = - 1" "parsePositiveInt (Some []) 8545 = 0"
  by code_simp+

end
