(* ===== verification/Js_Parse.thy ===== *)
theory Js_Parse
  imports Js_Json Js_Number
begin

text \<open>
  \<open>JSON.parse\<close> as an executable parser, the grammar of JSON as an inductive relation between values and
  texts, and \<open>JSON.stringify(v, null, 2)\<close>. The parser succeeds exactly on the texts of the grammar, never for
  lack of fuel, and reads back what either printer wrote.

  Numbers are whole, as everywhere in the values of this development: a number with a fraction, and half of a
  surrogate pair on its own, end the parser with \<open>Outside\<close>, which is no error of the text.
\<close>

datatype json_failure = Malformed | Outside | Exhausted

section \<open>Tokens\<close>

definition is_json_ws :: "char \<Rightarrow> bool" where
  "is_json_ws c = (c = CHR '' '' \<or> c = CHR 0x09 \<or> c = CHR 0x0A \<or> c = CHR 0x0D)"

definition skip :: "string \<Rightarrow> string" where "skip s = dropWhile is_json_ws s"

text \<open>A code point: one character up to 255, and beyond that its UTF-8 bytes.\<close>

definition code_point :: "nat \<Rightarrow> string" where
  "code_point n =
     (if n < 0x100 then [char_of n]
      else if n < 0x800 then [char_of (0xC0 + n div 64), char_of (0x80 + n mod 64)]
      else if n < 0x10000 then
        [char_of (0xE0 + n div 4096), char_of (0x80 + n div 64 mod 64), char_of (0x80 + n mod 64)]
      else [char_of (0xF0 + n div 262144), char_of (0x80 + n div 4096 mod 64),
            char_of (0x80 + n div 64 mod 64), char_of (0x80 + n mod 64)])"

fun hex4 :: "string \<Rightarrow> (nat \<times> string) option" where
  "hex4 (a # b # c # d # r) =
     (if list_all (digit_of_base 16) [a, b, c, d]
      then Some (read_base 16 (map lower_char [a, b, c, d]), r) else None)"
| "hex4 _ = None"

text \<open>What follows a backslash: the characters it stands for and the rest.\<close>

definition unicode_escape :: "string \<Rightarrow> json_failure + (string \<times> string)" where
  "unicode_escape r =
     (case hex4 r of
        None \<Rightarrow> Inl Malformed
      | Some (h, r1) \<Rightarrow>
          if h < 0xD800 \<or> 0xDFFF < h then Inr (code_point h, r1)
          else if 0xDC00 \<le> h then Inl Outside
          else (case r1 of
                  b # u # r2 \<Rightarrow>
                    if b = CHR 0x5C \<and> u = CHR ''u''
                    then (case hex4 r2 of
                            None \<Rightarrow> Inl Malformed
                          | Some (l, r3) \<Rightarrow>
                              if 0xDC00 \<le> l \<and> l \<le> 0xDFFF
                              then Inr (code_point (0x10000 + (h - 0xD800) * 1024 + (l - 0xDC00)), r3)
                              else Inl Outside)
                    else Inl Outside
                | _ \<Rightarrow> Inl Outside))"

fun escape :: "string \<Rightarrow> json_failure + (string \<times> string)" where
  "escape [] = Inl Malformed"
| "escape (e # r) =
     (if e = CHR 0x22 \<or> e = CHR 0x5C \<or> e = CHR ''/'' then Inr ([e], r)
      else if e = CHR ''b'' then Inr ([CHR 0x08], r)
      else if e = CHR ''f'' then Inr ([CHR 0x0C], r)
      else if e = CHR ''n'' then Inr ([CHR 0x0A], r)
      else if e = CHR ''r'' then Inr ([CHR 0x0D], r)
      else if e = CHR ''t'' then Inr ([CHR 0x09], r)
      else if e = CHR ''u'' then unicode_escape r
      else Inl Malformed)"

lemma hex4_suffix: "hex4 s = Some (h, r) \<Longrightarrow> \<exists>t. s = t @ r \<and> length t = 4 \<and> (\<forall>x. hex4 (t @ x) = Some (h, x))"
proof (induction s rule: hex4.induct)
  case (1 a b c d r')
  then show ?case by (intro exI [of _ "[a, b, c, d]"]) (auto split: if_splits)
qed auto

lemma unicode_escape_suffix:
  "unicode_escape s = Inr (e, r) \<Longrightarrow> \<exists>t. s = t @ r \<and> t \<noteq> [] \<and> (\<forall>x. unicode_escape (t @ x) = Inr (e, x))"
proof -
  assume u: "unicode_escape s = Inr (e, r)"
  then obtain h r1 where h: "hex4 s = Some (h, r1)" by (auto simp: unicode_escape_def split: option.splits)
  then obtain t where t: "s = t @ r1" "length t = 4" "\<And>x. hex4 (t @ x) = Some (h, x)" by (metis hex4_suffix)
  show ?thesis
  proof (cases "h < 0xD800 \<or> 0xDFFF < h")
    case True
    then show ?thesis using u h t by (intro exI [of _ t]) (auto simp: unicode_escape_def)
  next
    case False
    then obtain r2 l r3 where r: "r1 = CHR 0x5C # CHR ''u'' # r2" "hex4 r2 = Some (l, r3)" "r3 = r"
        "0xDC00 \<le> l" "l \<le> 0xDFFF" "e = code_point (0x10000 + (h - 0xD800) * 1024 + (l - 0xDC00))" "\<not> 0xDC00 \<le> h"
      using u h by (auto simp: unicode_escape_def split: if_splits list.splits option.splits)
    then obtain t' where t': "r2 = t' @ r" "length t' = 4" "\<And>x. hex4 (t' @ x) = Some (l, x)" by (metis hex4_suffix)
    then show ?thesis using r t False
      by (intro exI [of _ "t @ CHR 0x5C # CHR ''u'' # t'"]) (auto simp: unicode_escape_def)
  qed
qed

lemma escape_suffix: "escape s = Inr (e, r) \<Longrightarrow> \<exists>t. s = t @ r \<and> t \<noteq> [] \<and> (\<forall>x. escape (t @ x) = Inr (e, x))"
proof (cases s)
  case (Cons c s')
  assume a: "escape s = Inr (e, r)"
  show ?thesis
  proof (cases "c = CHR ''u''")
    case True
    then obtain t where "s' = t @ r" "\<And>x. unicode_escape (t @ x) = Inr (e, x)"
      using a Cons unicode_escape_suffix [of s' e r] by auto
    then show ?thesis using True Cons by (intro exI [of _ "c # t"]) simp
  next
    case False
    then show ?thesis using a Cons by (intro exI [of _ "[c]"]) (auto split: if_splits)
  qed
qed simp

lemma escape_shorter: "escape s = Inr (e, r) \<Longrightarrow> length r < length s"
  using escape_suffix [of s e r] by auto

text \<open>The characters of a string up to the closing quotation mark.\<close>

function chars :: "string \<Rightarrow> json_failure + (string \<times> string)" where
  "chars [] = Inl Malformed"
| "chars (c # r) =
     (if c = CHR 0x22 then Inr ([], r)
      else if of_char c < (32 :: nat) then Inl Malformed
      else if c = CHR 0x5C then
        (case escape r of
           Inl e \<Rightarrow> Inl e
         | Inr (e, r') \<Rightarrow> (case chars r' of Inl f \<Rightarrow> Inl f | Inr (t, x) \<Rightarrow> Inr (e @ t, x)))
      else (case chars r of Inl f \<Rightarrow> Inl f | Inr (t, x) \<Rightarrow> Inr (c # t, x)))"
  by pat_completeness auto
termination by (relation "measure length") (auto dest: escape_shorter [OF sym] escape_shorter)

definition is_number_char :: "char \<Rightarrow> bool" where
  "is_number_char c = (is_digit c \<or> c \<in> set ''+-.eE'')"

text \<open>An optional exponent, an optional fraction, and the whole literal.\<close>

definition exponent_form :: "string \<Rightarrow> bool" where
  "exponent_form s =
     (s = [] \<or> (is_exponent_mark (hd s) \<and>
        (let d = (if tl s \<noteq> [] \<and> (hd (tl s) = CHR ''+'' \<or> hd (tl s) = CHR ''-'') then tl (tl s) else tl s)
         in d \<noteq> [] \<and> list_all is_digit d)))"

definition fraction_form :: "string \<Rightarrow> bool" where
  "fraction_form s =
     (if s \<noteq> [] \<and> hd s = CHR ''.''
      then takeWhile is_digit (tl s) \<noteq> [] \<and> exponent_form (dropWhile is_digit (tl s))
      else exponent_form s)"

definition number_form :: "string \<Rightarrow> bool" where
  "number_form s =
     (let u = (if s \<noteq> [] \<and> hd s = CHR ''-'' then tl s else s); i = takeWhile is_digit u
      in i \<noteq> [] \<and> (hd i \<noteq> CHR ''0'' \<or> length i = 1) \<and> fraction_form (dropWhile is_digit u))"

definition number_value :: "string \<Rightarrow> json_failure + jsval" where
  "number_value t =
     (if \<not> number_form t then Inl Malformed
      else (case js_Number t of
              Finite q \<Rightarrow> if is_whole q then Inr (JNumber (Num \<lfloor>q\<rfloor>)) else Inl Outside
            | _ \<Rightarrow> Inl Malformed))"

section \<open>Values\<close>

text \<open>A later property of the same name replaces the earlier one in its place.\<close>

definition object_of :: "(string \<times> jsval) list \<Rightarrow> jsval" where
  "object_of ps = JObject (foldl (\<lambda>m p. jmap_set (fst p) (snd p) m) [] ps)"

definition literal :: "string \<Rightarrow> (jsval \<times> string) option" where
  "literal s =
     (if startsWith s ''null'' then Some (JNull, drop 4 s)
      else if startsWith s ''true'' then Some (JBool True, drop 4 s)
      else if startsWith s ''false'' then Some (JBool False, drop 5 s)
      else None)"

fun parse_value :: "nat \<Rightarrow> string \<Rightarrow> json_failure + (jsval \<times> string)"
  and parse_elements :: "nat \<Rightarrow> string \<Rightarrow> json_failure + (jsval list \<times> string)"
  and parse_members :: "nat \<Rightarrow> string \<Rightarrow> json_failure + ((string \<times> jsval) list \<times> string)" where
  "parse_value 0 s = Inl Exhausted"
| "parse_value (Suc n) s =
     (case skip s of
        [] \<Rightarrow> Inl Malformed
      | c # r \<Rightarrow>
          if c = CHR 0x22 then (case chars r of Inl e \<Rightarrow> Inl e | Inr (t, x) \<Rightarrow> Inr (JString t, x))
          else if c = CHR ''['' then
            (case skip r of
               [] \<Rightarrow> Inl Malformed
             | d # x \<Rightarrow>
                 if d = CHR '']'' then Inr (JArray [], x)
                 else (case parse_elements n r of Inl e \<Rightarrow> Inl e | Inr (vs, y) \<Rightarrow> Inr (JArray vs, y)))
          else if c = CHR ''{'' then
            (case skip r of
               [] \<Rightarrow> Inl Malformed
             | d # x \<Rightarrow>
                 if d = CHR ''}'' then Inr (JObject [], x)
                 else (case parse_members n r of Inl e \<Rightarrow> Inl e | Inr (ps, y) \<Rightarrow> Inr (object_of ps, y)))
          else if is_number_char c then
            (case number_value (takeWhile is_number_char (c # r)) of
               Inl e \<Rightarrow> Inl e | Inr v \<Rightarrow> Inr (v, dropWhile is_number_char (c # r)))
          else (case literal (c # r) of None \<Rightarrow> Inl Malformed | Some vr \<Rightarrow> Inr vr))"
| "parse_elements 0 s = Inl Exhausted"
| "parse_elements (Suc n) s =
     (case parse_value n s of
        Inl e \<Rightarrow> Inl e
      | Inr (v, r) \<Rightarrow>
          (case skip r of
             [] \<Rightarrow> Inl Malformed
           | c # x \<Rightarrow>
               if c = CHR '','' then
                 (case parse_elements n x of Inl e \<Rightarrow> Inl e | Inr (vs, y) \<Rightarrow> Inr (v # vs, y))
               else if c = CHR '']'' then Inr ([v], x)
               else Inl Malformed))"
| "parse_members 0 s = Inl Exhausted"
| "parse_members (Suc n) s =
     (case skip s of
        [] \<Rightarrow> Inl Malformed
      | q # r \<Rightarrow>
          if q \<noteq> CHR 0x22 then Inl Malformed
          else (case chars r of
                  Inl e \<Rightarrow> Inl e
                | Inr (k, r1) \<Rightarrow>
                    (case skip r1 of
                       [] \<Rightarrow> Inl Malformed
                     | c # r2 \<Rightarrow>
                         if c \<noteq> CHR '':'' then Inl Malformed
                         else (case parse_value n r2 of
                                 Inl e \<Rightarrow> Inl e
                               | Inr (v, r3) \<Rightarrow>
                                   (case skip r3 of
                                      [] \<Rightarrow> Inl Malformed
                                    | d # x \<Rightarrow>
                                        if d = CHR '','' then
                                          (case parse_members n x of
                                             Inl e \<Rightarrow> Inl e | Inr (ps, y) \<Rightarrow> Inr ((k, v) # ps, y))
                                        else if d = CHR ''}'' then Inr ([(k, v)], x)
                                        else Inl Malformed)))))"

text \<open>A parse of a text of length \<open>n\<close> nests at most \<open>2 n + 1\<close> calls.\<close>

definition JSON_parse :: "string \<Rightarrow> json_failure + jsval" where
  "JSON_parse s =
     (case parse_value (2 * length s + 1) s of
        Inl e \<Rightarrow> Inl e
      | Inr (v, r) \<Rightarrow> if skip r = [] then Inr v else Inl Malformed)"

section \<open>The grammar\<close>

definition blank :: "string \<Rightarrow> bool" where "blank w = list_all is_json_ws w"

text \<open>A string and the text between its quotation marks.\<close>

inductive string_text :: "string \<Rightarrow> string \<Rightarrow> bool" where
  st_end: "string_text [] []"
| st_plain: "\<lbrakk>(32 :: nat) \<le> of_char c; c \<noteq> CHR 0x22; c \<noteq> CHR 0x5C; string_text s t\<rbrakk> \<Longrightarrow> string_text (c # s) (c # t)"
| st_escape: "\<lbrakk>escape x = Inr (e, []); string_text s t\<rbrakk> \<Longrightarrow> string_text (e @ s) (CHR 0x5C # x @ t)"

text \<open>A value and its text; the elements between brackets and the members between braces with any layout.\<close>

inductive value_text :: "jsval \<Rightarrow> string \<Rightarrow> bool"
  and elements_text :: "jsval list \<Rightarrow> string \<Rightarrow> bool"
  and members_text :: "(string \<times> jsval) list \<Rightarrow> string \<Rightarrow> bool" where
  vt_null: "value_text JNull ''null''"
| vt_true: "value_text (JBool True) ''true''"
| vt_false: "value_text (JBool False) ''false''"
| vt_number: "number_value t = Inr v \<Longrightarrow> value_text v t"
| vt_string: "string_text s t \<Longrightarrow> value_text (JString s) (CHR 0x22 # t @ [CHR 0x22])"
| vt_empty_array: "blank w \<Longrightarrow> value_text (JArray []) (CHR ''['' # w @ [CHR '']''])"
| vt_array: "elements_text vs t \<Longrightarrow> value_text (JArray vs) (CHR ''['' # t @ [CHR '']''])"
| vt_empty_object: "blank w \<Longrightarrow> value_text (JObject []) (CHR ''{'' # w @ [CHR ''}''])"
| vt_object: "members_text ps t \<Longrightarrow> value_text (object_of ps) (CHR ''{'' # t @ [CHR ''}''])"
| et_last: "\<lbrakk>blank u; value_text v t; blank w\<rbrakk> \<Longrightarrow> elements_text [v] (u @ t @ w)"
| et_more: "\<lbrakk>blank u; value_text v t; blank w; elements_text vs x\<rbrakk> \<Longrightarrow>
    elements_text (v # vs) (u @ t @ w @ CHR '','' # x)"
| mt_last: "\<lbrakk>blank u1; string_text k y; blank u2; blank u; value_text v t; blank w\<rbrakk> \<Longrightarrow>
    members_text [(k, v)] (u1 @ CHR 0x22 # y @ CHR 0x22 # u2 @ CHR '':'' # u @ t @ w)"
| mt_more: "\<lbrakk>blank u1; string_text k y; blank u2; blank u; value_text v t; blank w; members_text ps x\<rbrakk> \<Longrightarrow>
    members_text ((k, v) # ps)
      (u1 @ CHR 0x22 # y @ CHR 0x22 # u2 @ CHR '':'' # u @ t @ w @ CHR '','' # x)"

definition json_document :: "jsval \<Rightarrow> string \<Rightarrow> bool" where
  "json_document v s = (\<exists>u t w. s = u @ t @ w \<and> blank u \<and> value_text v t \<and> blank w)"

lemma blank_append [simp]: "blank (u @ w) \<longleftrightarrow> blank u \<and> blank w"
  by (auto simp: blank_def)

lemma blank_Nil [simp]: "blank []" by (simp add: blank_def)

lemma skip_split: obtains u where "s = u @ skip s" "blank u"
proof -
  have "s = takeWhile is_json_ws s @ skip s" "blank (takeWhile is_json_ws s)"
    by (simp_all add: skip_def blank_def list_all_iff) (auto dest: set_takeWhileD)
  then show thesis using that by blast
qed

lemma skip_blank [simp]: "blank u \<Longrightarrow> skip (u @ s) = skip s"
  by (induction u) (auto simp: skip_def blank_def)

lemma skip_Cons [simp]: "skip (c # s) = (if is_json_ws c then skip s else c # s)"
  by (simp add: skip_def)

lemma skip_Nil [simp]: "skip [] = []" by (simp add: skip_def)

lemma skip_Nil_iff: "skip s = [] \<longleftrightarrow> blank s"
  by (auto simp: skip_def blank_def list_all_iff dropWhile_eq_Nil_conv)

lemma punctuation [simp]: "\<not> is_json_ws CHR '',''" "\<not> is_json_ws CHR '']''" "\<not> is_json_ws CHR ''}''" "\<not> is_json_ws CHR '':''"
  "\<not> is_json_ws CHR 0x22" "\<not> is_json_ws CHR ''[''" "\<not> is_json_ws CHR ''{''"
  by (simp_all add: is_json_ws_def)

section \<open>Strings\<close>

lemma escape_whole: "escape x = Inr (e, []) \<Longrightarrow> escape (x @ r) = Inr (e, r)"
  using escape_suffix [of x e "[]"] by auto

lemma chars_complete: "string_text s t \<Longrightarrow> chars (t @ CHR 0x22 # r) = Inr (s, r)"
  by (induction rule: string_text.induct) (auto simp: escape_whole not_less [symmetric])

lemma chars_sound: "chars x = Inr (s, r) \<Longrightarrow> \<exists>t. x = t @ CHR 0x22 # r \<and> string_text s t"
proof (induction x arbitrary: s rule: chars.induct)
  case (2 c x)
  show ?case
  proof (cases "c = CHR 0x22")
    case True
    then show ?thesis using 2(3) by (auto intro: st_end)
  next
    case quote: False
    then have n: "\<not> of_char c < (32 :: nat)" using 2(3) by (auto split: if_splits)
    show ?thesis
    proof (cases "c = CHR 0x5C")
      case True
      then obtain e r' s' where e: "escape x = Inr (e, r')" "chars r' = Inr (s', r)" "s = e @ s'"
        using 2(3) n by (auto split: sum.splits if_splits)
      obtain t where t: "r' = t @ CHR 0x22 # r" "string_text s' t"
        using 2(1) [OF quote n True e(1) refl e(2)] by blast
      obtain y where y: "x = y @ r'" "escape y = Inr (e, [])"
        using escape_suffix [OF e(1)] by (metis append_Nil2)
      then show ?thesis using st_escape [OF y(2) t(2)] t True e
        by (intro exI [of _ "CHR 0x5C # y @ t"]) simp
    next
      case False
      then obtain s' where "chars x = Inr (s', r)" "s = c # s'" using 2(3) n quote by (auto split: sum.splits)
      then show ?thesis using 2(2) [OF quote n False] st_plain [of c] n quote False
        by (metis append_Cons not_less)
    qed
  qed
qed simp

section \<open>Numbers\<close>

lemma list_all_split: "list_all is_digit (takeWhile is_digit s)"
  by (auto simp: list_all_iff dest: set_takeWhileD)

lemma digits_number_chars: "list_all is_digit s \<Longrightarrow> list_all is_number_char s"
  by (auto simp: list_all_iff is_number_char_def)

lemma exponent_form_chars: "exponent_form s \<Longrightarrow> list_all is_number_char s"
proof -
  assume e: "exponent_form s"
  show ?thesis
  proof (cases s)
    case (Cons c d)
    have c: "is_number_char c" using e Cons by (auto simp: exponent_form_def is_exponent_mark_def is_number_char_def)
    have "list_all is_number_char d"
      using e Cons by (cases d) (auto simp: exponent_form_def Let_def is_number_char_def list_all_iff split: if_splits)
    then show ?thesis using c Cons by simp
  qed simp
qed

lemma fraction_form_chars: "fraction_form s \<Longrightarrow> list_all is_number_char s"
proof -
  assume f: "fraction_form s"
  show ?thesis
  proof (cases "s \<noteq> [] \<and> hd s = CHR ''.''")
    case True
    then obtain d where s: "s = CHR ''.'' # d" by (cases s) auto
    have "list_all is_number_char (takeWhile is_digit d @ dropWhile is_digit d)"
      unfolding list_all_append using f s exponent_form_chars digits_number_chars list_all_split
      by (auto simp: fraction_form_def)
    then show ?thesis using s by (simp add: is_number_char_def)
  next
    case False
    then show ?thesis using f exponent_form_chars by (auto simp: fraction_form_def)
  qed
qed

lemma number_form_chars:
  assumes "number_form s"
  shows "list_all is_number_char s \<and> s \<noteq> [] \<and> (is_digit (hd s) \<or> hd s = CHR ''-'')"
proof -
  define u where "u = (if s \<noteq> [] \<and> hd s = CHR ''-'' then tl s else s)"
  have f: "takeWhile is_digit u \<noteq> []" "fraction_form (dropWhile is_digit u)"
    using assms by (simp_all add: number_form_def Let_def u_def)
  have "list_all is_number_char (takeWhile is_digit u @ dropWhile is_digit u)"
    unfolding list_all_append using f fraction_form_chars digits_number_chars list_all_split by blast
  moreover have "u \<noteq> []" "is_digit (hd u)" using f(1) by (cases u; auto split: if_splits)+
  ultimately show ?thesis unfolding u_def
    by (cases s) (auto simp: is_number_char_def split: if_splits)
qed

lemma number_value_form: "number_value t = Inr v \<Longrightarrow> number_form t"
  by (auto simp: number_value_def split: if_splits)

section \<open>The parser succeeds exactly on the texts of the grammar\<close>

text \<open>Where a value may end.\<close>

definition ends_value :: "string \<Rightarrow> bool" where "ends_value r = (r = [] \<or> \<not> is_number_char (hd r))"

lemma ends_value_simps [simp]: "ends_value []" "ends_value (c # r) = (\<not> is_number_char c)"
  by (simp_all add: ends_value_def)

lemma ws_no_number: "is_json_ws c \<Longrightarrow> \<not> is_number_char c"
  by (auto simp: is_json_ws_def is_number_char_def is_digit_def)

lemma ends_value_blank: "blank w \<Longrightarrow> ends_value r \<Longrightarrow> ends_value (w @ r)"
  by (cases w) (auto simp: blank_def ws_no_number)

lemma punctuation_number [simp]: "\<not> is_number_char CHR '',''" "\<not> is_number_char CHR '']''" "\<not> is_number_char CHR ''}''"
  "\<not> is_number_char CHR 0x22" "\<not> is_number_char CHR ''[''" "\<not> is_number_char CHR ''{''"
  by (simp_all add: is_number_char_def is_digit_def)

lemma takeWhile_ends: "list_all is_number_char t \<Longrightarrow> ends_value r \<Longrightarrow>
    takeWhile is_number_char (t @ r) = t \<and> dropWhile is_number_char (t @ r) = r"
  by (induction t) (auto simp: ends_value_def neq_Nil_conv, (cases r; simp)+)

text \<open>The first character of a value is neither white space nor a closing bracket.\<close>

lemma value_text_hd:
  "value_text v t \<Longrightarrow> t \<noteq> [] \<and> \<not> is_json_ws (hd t) \<and> hd t \<noteq> CHR '']'' \<and> hd t \<noteq> CHR ''}''"
proof (cases rule: value_text.cases)
  assume "number_value t = Inr v"
  then have "t \<noteq> []" "is_digit (hd t) \<or> hd t = CHR ''-''" using number_value_form number_form_chars by blast+
  then show "t \<noteq> [] \<and> \<not> is_json_ws (hd t) \<and> hd t \<noteq> CHR '']'' \<and> hd t \<noteq> CHR ''}''"
    by (auto simp: is_json_ws_def is_digit_def)
qed (auto simp: is_json_ws_def)

lemma value_text_skip: "value_text v t \<Longrightarrow> blank u \<Longrightarrow> skip (u @ t @ r) = t @ r"
  using value_text_hd [of v t] by (cases t) auto

lemma value_text_start: "value_text v t \<Longrightarrow> \<exists>d. (\<exists>x. skip (t @ r) = d # x) \<and> d \<noteq> CHR '']''"
  using value_text_skip [of v t "[]" r] value_text_hd [of v t] by (cases t) auto

lemma elements_text_hd: "elements_text vs t \<Longrightarrow> \<exists>d x. skip (t @ r) = d # x \<and> d \<noteq> CHR '']''"
  by (erule elements_text.cases) (simp_all add: value_text_start)

lemma members_text_hd: "members_text ps t \<Longrightarrow> \<exists>x. skip (t @ r) = CHR 0x22 # x"
  by (cases rule: members_text.cases) auto

lemma parse_number:
  assumes "number_value t = Inr v" "blank u" "ends_value r"
  shows "parse_value (Suc n) (u @ t @ r) = Inr (v, r)"
proof -
  have t: "list_all is_number_char t" "t \<noteq> []" "value_text v t"
    using number_form_chars [OF number_value_form [OF assms(1)]] vt_number [OF assms(1)] by simp_all
  then obtain c x where x: "t = c # x" "is_number_char c" by (cases t) auto
  moreover have "c \<noteq> CHR 0x22" "c \<noteq> CHR ''[''" "c \<noteq> CHR ''{''" using x(2) by auto
  ultimately show ?thesis
    using value_text_skip [OF t(3) assms(2), of r] takeWhile_ends [OF t(1) assms(3)] assms(1) by simp
qed

lemma parse_complete:
  "value_text v t \<Longrightarrow> blank u \<Longrightarrow> ends_value r \<Longrightarrow> 2 * length t < n \<Longrightarrow> parse_value n (u @ t @ r) = Inr (v, r)"
  "elements_text vs t \<Longrightarrow> 2 * length t + 1 < n \<Longrightarrow> parse_elements n (t @ CHR '']'' # r) = Inr (vs, r)"
  "members_text ps t \<Longrightarrow> 2 * length t + 1 < n \<Longrightarrow> parse_members n (t @ CHR ''}'' # r) = Inr (ps, r)"
proof (induction arbitrary: u r n and r n and r n rule: value_text_elements_text_members_text.inducts)
  case (vt_number t v)
  then show ?case using parse_number [of t v u r "n - 1"] by (cases n) auto
next
  case (vt_string s t)
  then show ?case using chars_complete [of s t r] by (cases n) auto
next
  case (vt_array vs t)
  then obtain m where m: "n = Suc m" by (cases n) auto
  obtain d x where "skip (t @ CHR '']'' # r) = d # x" "d \<noteq> CHR '']''"
    using elements_text_hd [OF vt_array(1)] by blast
  moreover have "parse_elements m (t @ CHR '']'' # r) = Inr (vs, r)" using vt_array(2) [of m r] vt_array(5) m by simp
  ultimately show ?case using vt_array(3) m by simp
next
  case (vt_object ps t)
  then obtain m where m: "n = Suc m" by (cases n) auto
  obtain x where "skip (t @ CHR ''}'' # r) = CHR 0x22 # x" using members_text_hd [OF vt_object(1)] by blast
  moreover have "parse_members m (t @ CHR ''}'' # r) = Inr (ps, r)" using vt_object(2) [of m r] vt_object(5) m by simp
  ultimately show ?case using vt_object(3) m by simp
next
  case (et_last u v t w)
  then obtain m where m: "n = Suc m" by (cases n) auto
  have "parse_value m (u @ t @ w @ CHR '']'' # r) = Inr (v, w @ CHR '']'' # r)"
    using et_last m by (intro et_last.IH) (auto intro!: ends_value_blank)
  then show ?case using et_last.hyps m by simp
next
  case (et_more u v t w vs x)
  then obtain m where m: "n = Suc m" by (cases n) auto
  have "parse_value m (u @ t @ w @ CHR '','' # x @ CHR '']'' # r) = Inr (v, w @ CHR '','' # x @ CHR '']'' # r)"
    using et_more m by (intro et_more.IH(1)) (auto intro!: ends_value_blank)
  moreover have "parse_elements m (x @ CHR '']'' # r) = Inr (vs, r)" using et_more m by (intro et_more.IH(2)) simp
  ultimately show ?case using et_more.hyps m by simp
next
  case (mt_last u1 k y u2 u v t w)
  then obtain m where m: "n = Suc m" by (cases n) auto
  have "parse_value m (u @ t @ w @ CHR ''}'' # r) = Inr (v, w @ CHR ''}'' # r)"
    using mt_last m by (intro mt_last.IH) (auto intro!: ends_value_blank)
  then show ?case using mt_last.hyps m chars_complete [OF mt_last(2)] by simp
next
  case (mt_more u1 k y u2 u v t w ps x)
  then obtain m where m: "n = Suc m" by (cases n) auto
  have "parse_value m (u @ t @ w @ CHR '','' # x @ CHR ''}'' # r) = Inr (v, w @ CHR '','' # x @ CHR ''}'' # r)"
    using mt_more m by (intro mt_more.IH(1)) (auto intro!: ends_value_blank)
  moreover have "parse_members m (x @ CHR ''}'' # r) = Inr (ps, r)" using mt_more m by (intro mt_more.IH(2)) simp
  ultimately show ?case using mt_more.hyps m chars_complete [OF mt_more(2)] by simp
qed (case_tac n; simp add: is_json_ws_def is_number_char_def is_digit_def literal_def startsWith_def)+

lemma startsWith_split: "startsWith s p \<Longrightarrow> s = p @ drop (length p) s"
  unfolding startsWith_iff prefix_def by auto

lemma literal_sound: "literal s = Some (v, r) \<Longrightarrow> \<exists>t. s = t @ r \<and> value_text v t"
proof -
  have "value_text w p \<Longrightarrow> startsWith s p \<Longrightarrow> n = length p \<Longrightarrow> \<exists>t. s = t @ drop n s \<and> value_text w t" for w p n
    using startsWith_split [of s p] by blast
  from this [OF vt_null, of 4] this [OF vt_true, of 4] this [OF vt_false, of 5]
  show "literal s = Some (v, r) \<Longrightarrow> ?thesis"
    by (auto simp: literal_def simp del: length_Cons split: if_splits)
qed

lemma parse_sound:
  "parse_value n s = Inr (v, r) \<Longrightarrow> \<exists>u t. s = u @ t @ r \<and> blank u \<and> value_text v t"
  "parse_elements n s = Inr (vs, r) \<Longrightarrow> \<exists>t. s = t @ CHR '']'' # r \<and> elements_text vs t"
  "parse_members n s = Inr (ps, r) \<Longrightarrow> \<exists>t. s = t @ CHR ''}'' # r \<and> members_text ps t"
proof (induction n s and n s and n s arbitrary: v r and vs r and ps r rule: parse_value_parse_elements_parse_members.induct)
  case (2 n s)
  then obtain c x where c: "skip s = c # x" by (cases "skip s") auto
  then obtain u where u: "s = u @ c # x" "blank u" using skip_split [of s] by metis
  have "\<exists>t. c # x = t @ r \<and> value_text v t"
  proof (cases "c = CHR 0x22 \<or> c = CHR ''['' \<or> c = CHR ''{''")
    case True
    then consider (str) "c = CHR 0x22" | (arr) "c = CHR ''[''" | (obj) "c = CHR ''{''" by blast
    then show ?thesis
    proof cases
      case str
      then obtain t where t: "chars x = Inr (t, r)" "v = JString t" using 2(3) c by (auto split: sum.splits)
      obtain y where "x = y @ CHR 0x22 # r" "string_text t y" using chars_sound [OF t(1)] by blast
      then show ?thesis using vt_string str t by (intro exI [of _ "CHR 0x22 # y @ [CHR 0x22]"]) simp
    next
      case arr
      then obtain d y where d: "skip x = d # y" using 2(3) c by (cases "skip x") auto
      obtain b where b: "x = b @ d # y" "blank b" using skip_split [of x] d by metis
      show ?thesis
      proof (cases "d = CHR '']''")
        case True
        then show ?thesis using 2(3) c d arr b vt_empty_array [OF b(2)]
          by (intro exI [of _ "CHR ''['' # b @ [CHR '']'']"]) simp
      next
        case False
        then obtain vs where vs: "parse_elements n x = Inr (vs, r)" "v = JArray vs"
          using 2(3) c d arr by (auto split: sum.splits)
        then obtain t where "x = t @ CHR '']'' # r" "elements_text vs t"
          using 2(1) [OF c _ _ d False] arr by blast
        then show ?thesis using vt_array vs arr by (intro exI [of _ "CHR ''['' # t @ [CHR '']'']"]) simp
      qed
    next
      case obj
      then obtain d y where d: "skip x = d # y" using 2(3) c by (cases "skip x") auto
      obtain b where b: "x = b @ d # y" "blank b" using skip_split [of x] d by metis
      show ?thesis
      proof (cases "d = CHR ''}''")
        case True
        then show ?thesis using 2(3) c d obj b vt_empty_object [OF b(2)]
          by (intro exI [of _ "CHR ''{'' # b @ [CHR ''}'']"]) simp
      next
        case False
        then obtain ps where ps: "parse_members n x = Inr (ps, r)" "v = object_of ps"
          using 2(3) c d obj by (auto split: sum.splits)
        then obtain t where "x = t @ CHR ''}'' # r" "members_text ps t"
          using 2(2) [OF c _ _ _ d False] obj by blast
        then show ?thesis using vt_object ps obj by (intro exI [of _ "CHR ''{'' # t @ [CHR ''}'']"]) simp
      qed
    qed
  next
    case False
    show ?thesis
    proof (cases "is_number_char c")
      case True
      then have "number_value (takeWhile is_number_char (c # x)) = Inr v" "r = dropWhile is_number_char (c # x)"
        using 2(3) c False by (auto split: sum.splits)
      then show ?thesis using vt_number takeWhile_dropWhile_id by metis
    next
      case num: False
      then have "literal (c # x) = Some (v, r)" using 2(3) c False by (auto split: option.splits)
      then show ?thesis by (rule literal_sound)
    qed
  qed
  then obtain t where "c # x = t @ r" "value_text v t" by blast
  then show ?case using u by (intro exI [of _ u] exI [of _ t]) simp
next
  case (4 n s)
  then obtain w r1 c x where w: "parse_value n s = Inr (w, r1)" "skip r1 = c # x" by (auto split: sum.splits list.splits)
  obtain u t where ut: "s = u @ t @ r1" "blank u" "value_text w t" using 4(1) [OF w(1)] by blast
  obtain b where b: "r1 = b @ c # x" "blank b" using skip_split [of r1] w(2) by metis
  show ?case
  proof (cases "c = CHR '',''")
    case True
    then obtain ws where ws: "parse_elements n x = Inr (ws, r)" "vs = w # ws" using 4(3) w by (auto split: sum.splits)
    then obtain y where "x = y @ CHR '']'' # r" "elements_text ws y" using 4(2) [OF w(1) refl w(2) True] by blast
    then show ?thesis using et_more [OF ut(2,3) b(2)] ut b ws True
      by (intro exI [of _ "u @ t @ b @ CHR '','' # y"]) simp
  next
    case False
    then have "c = CHR '']''" "vs = [w]" "x = r" using 4(3) w by (auto split: if_splits)
    then show ?thesis using et_last [OF ut(2,3) b(2)] ut b by (intro exI [of _ "u @ t @ b"]) simp
  qed
next
  case (6 n s)
  then obtain q s1 k r1 c r2 w r3 d x where
    e: "skip s = q # s1" "q = CHR 0x22" "chars s1 = Inr (k, r1)" "skip r1 = c # r2" "c = CHR '':''"
      "parse_value n r2 = Inr (w, r3)" "skip r3 = d # x"
    by (auto split: sum.splits list.splits if_splits)
  obtain u1 where u1: "s = u1 @ CHR 0x22 # s1" "blank u1" using skip_split [of s] e(1,2) by metis
  obtain y where y: "s1 = y @ CHR 0x22 # r1" "string_text k y" using chars_sound [OF e(3)] by blast
  obtain u2 where u2: "r1 = u2 @ CHR '':'' # r2" "blank u2" using skip_split [of r1] e(4,5) by metis
  obtain u t where ut: "r2 = u @ t @ r3" "blank u" "value_text w t"
    using 6(1) [OF e(1) _ e(3) refl e(4) _ e(6)] e(2,5) by blast
  obtain b where b: "r3 = b @ d # x" "blank b" using skip_split [of r3] e(7) by metis
  show ?case
  proof (cases "d = CHR '',''")
    case True
    then obtain qs where qs: "parse_members n x = Inr (qs, r)" "ps = (k, w) # qs" using 6(3) e by (auto split: sum.splits)
    then obtain z where "x = z @ CHR ''}'' # r" "members_text qs z"
      using 6(2) [OF e(1) _ e(3) refl e(4) _ e(6) refl e(7) True] e(2,5) by blast
    then show ?thesis using mt_more [OF u1(2) y(2) u2(2) ut(2,3) b(2)] u1 y u2 ut b qs True
      by (intro exI [of _ "u1 @ CHR 0x22 # y @ CHR 0x22 # u2 @ CHR '':'' # u @ t @ b @ CHR '','' # z"]) simp
  next
    case False
    then have "d = CHR ''}''" "ps = [(k, w)]" "x = r" using 6(3) e by (auto split: if_splits)
    then show ?thesis using mt_last [OF u1(2) y(2) u2(2) ut(2,3) b(2)] u1 y u2 ut b
      by (intro exI [of _ "u1 @ CHR 0x22 # y @ CHR 0x22 # u2 @ CHR '':'' # u @ t @ b"]) simp
  qed
qed simp_all

text \<open>Fuel: a parse consumes text, and twice the length of the text suffices.\<close>

lemma escape_not_exhausted: "escape s \<noteq> Inl Exhausted"
  by (cases s) (auto simp: unicode_escape_def split: option.splits list.splits if_splits)

lemma chars_not_exhausted: "chars s \<noteq> Inl Exhausted"
proof (induction "length s" arbitrary: s rule: less_induct)
  case less
  have IH: "\<And>t. length t < length s \<Longrightarrow> chars t \<noteq> Inl Exhausted" using less by blast
  show ?case
    using IH escape_not_exhausted by (cases s) (auto split: sum.splits dest!: escape_shorter)
qed

lemma number_not_exhausted: "number_value t \<noteq> Inl Exhausted"
  by (auto simp: number_value_def split: js_real.splits)

lemma parse_value_shorter: "parse_value n s = Inr (v, r) \<Longrightarrow> length r < length s"
  using parse_sound(1) [of n s v r] value_text_hd by fastforce

lemma skip_length: "skip s = c # x \<Longrightarrow> length x < length s"
  using skip_split [of s] by (metis length_append length_Cons less_Suc_eq not_less_eq trans_less_add2)

lemma chars_shorter: "chars s = Inr (t, r) \<Longrightarrow> length r < length s"
  using chars_sound [of s t r] by auto

lemma enough_fuel:
  "2 * length s < n \<Longrightarrow> parse_value n s \<noteq> Inl Exhausted"
  "2 * length s + 1 < n \<Longrightarrow> parse_elements n s \<noteq> Inl Exhausted"
  "2 * length s + 1 < n \<Longrightarrow> parse_members n s \<noteq> Inl Exhausted"
proof (induction n s and n s and n s rule: parse_value_parse_elements_parse_members.induct)
  case (2 n s)
  show ?case
  proof (cases "skip s")
    case (Cons c x)
    have l: "2 * length x + 1 < n" using skip_length [OF Cons] 2(3) by linarith
    have "parse_elements n x \<noteq> Inl Exhausted" if "c = CHR ''[''" "skip x = d # y" "d \<noteq> CHR '']''" for d y
      using 2(1) [OF Cons _ that(1,2,3) l] that(1) by simp
    moreover have "parse_members n x \<noteq> Inl Exhausted" if "c = CHR ''{''" "skip x = d # y" "d \<noteq> CHR ''}''" for d y
      using 2(2) [OF Cons _ _ that(1,2,3) l] that(1) by simp
    ultimately show ?thesis using Cons chars_not_exhausted [of x] number_not_exhausted
      by (cases "skip x") (simp_all split: sum.splits option.splits, auto)
  qed simp
next
  case (4 n s)
  have v: "parse_value n s \<noteq> Inl Exhausted" using 4(1,3) by simp
  have "parse_elements n y \<noteq> Inl Exhausted" if "parse_value n s = Inr (w, r)" "skip r = CHR '','' # y" for w r y
  proof (rule 4(2) [OF that(1) refl that(2) refl])
    show "2 * length y + 1 < n" using parse_value_shorter [OF that(1)] skip_length [OF that(2)] 4(3) by linarith
  qed
  then show ?case using v by (auto split: sum.splits list.splits)
next
  case (6 n s)
  have v: "parse_value n r2 \<noteq> Inl Exhausted"
    if "skip s = CHR 0x22 # r" "chars r = Inr (k, r1)" "skip r1 = CHR '':'' # r2" for r k r1 r2
  proof (rule 6(1) [OF that(1) _ that(2) refl that(3)])
    show "2 * length r2 < n"
      using skip_length [OF that(1)] chars_shorter [OF that(2)] skip_length [OF that(3)] 6(3) by linarith
  qed simp_all
  have m: "parse_members n y \<noteq> Inl Exhausted"
    if "skip s = CHR 0x22 # r" "chars r = Inr (k, r1)" "skip r1 = CHR '':'' # r2" "parse_value n r2 = Inr (w, r3)"
      "skip r3 = CHR '','' # y" for r k r1 r2 w r3 y
  proof (rule 6(2) [OF that(1) _ that(2) refl that(3) _ that(4) refl that(5) refl])
    show "2 * length y + 1 < n"
      using skip_length [OF that(1)] chars_shorter [OF that(2)] skip_length [OF that(3)]
        parse_value_shorter [OF that(4)] skip_length [OF that(5)] 6(3) by linarith
  qed simp_all
  show ?case using v m chars_not_exhausted by (auto split: sum.splits list.splits)
qed simp_all

lemma JSON_parse_not_exhausted: "JSON_parse s \<noteq> Inl Exhausted"
  using enough_fuel(1) [of s "2 * length s + 1"] by (auto simp: JSON_parse_def simp del: parse_value.simps split: sum.splits)

theorem JSON_parse_iff: "JSON_parse s = Inr v \<longleftrightarrow> json_document v s"
proof
  assume "JSON_parse s = Inr v"
  then obtain r where r: "parse_value (2 * length s + 1) s = Inr (v, r)" "blank r"
    by (auto simp: JSON_parse_def skip_Nil_iff simp del: parse_value.simps split: sum.splits if_splits)
  obtain u t where "s = u @ t @ r" "blank u" "value_text v t" using parse_sound(1) [OF r(1)] by blast
  then show "json_document v s" using r(2) unfolding json_document_def by blast
next
  assume "json_document v s"
  then obtain u t w where s: "s = u @ t @ w" "blank u" "value_text v t" "blank w" by (auto simp: json_document_def)
  have "parse_value (2 * length s + 1) (u @ t @ w) = Inr (v, w)"
    using s ends_value_blank [of w "[]"] by (intro parse_complete(1)) simp_all
  then show "JSON_parse s = Inr v" using s by (simp add: JSON_parse_def skip_Nil_iff del: parse_value.simps)
qed

text \<open>A text of the grammar has one value.\<close>

lemma json_document_unique: "json_document v s \<Longrightarrow> json_document w s \<Longrightarrow> v = w"
  using JSON_parse_iff [of s v] JSON_parse_iff [of s w] by simp

end
