(* ===== verification/Js_Roundtrip.thy ===== *)
theory Js_Roundtrip
  imports Js_Parse
begin

text \<open>
  \<open>JSON.stringify\<close> with and without indentation against \<open>JSON.parse\<close>: both printers write texts of the grammar, so
  what is read back is the value that was printed. The locale \<open>json_codec\<close> is what the components that keep files
  rely on.
\<close>

section \<open>Printing with indentation\<close>

definition newline :: "nat \<Rightarrow> string" where "newline d = CHR 0x0A # replicate (2 * d) CHR '' ''"

definition indented_fields :: "nat \<Rightarrow> (string \<times> string) list \<Rightarrow> string" where
  "indented_fields d fs =
     (if fs = [] then ''{}''
      else ''{'' @ newline (Suc d) @ join ('','' @ newline (Suc d)) (map (\<lambda>(k, v). json_quote k @ '': '' @ v) fs)
           @ newline d @ ''}'')"

text \<open>\<open>JSON.stringify(v, null, 2)\<close> at nesting depth \<open>d\<close>.\<close>

fun json_indent_at :: "nat \<Rightarrow> jsval \<Rightarrow> string" where
  "json_indent_at d (JArray vs) =
     (if vs = [] then ''[]''
      else ''['' @ newline (Suc d) @ join ('','' @ newline (Suc d)) (map (json_indent_at (Suc d)) vs) @ newline d @ '']'')"
| "json_indent_at d (JObject ps) =
     (let rendered = map (\<lambda>(k, v). (k, v = JUndefined, json_indent_at (Suc d) v)) ps
      in indented_fields d (map (\<lambda>(k, _, t). (k, t)) (filter (\<lambda>(_, u, _). \<not> u) (own_order rendered))))"
| "json_indent_at d v = json v"

definition json_indent :: "jsval \<Rightarrow> string" where "json_indent v = json_indent_at 0 v"

section \<open>Reading back what was printed\<close>

text \<open>
  What is left of a value after printing: properties that are \<open>undefined\<close> are gone, other values that JSON does not
  have are \<open>null\<close>, and array-index keys come first.
\<close>

fun revived :: "jsval \<Rightarrow> jsval" where
  "revived JUndefined = JNull"
| "revived (JNumber x) = (if js_isFinite x then JNumber x else JNull)"
| "revived (JArray vs) = JArray (map revived vs)"
| "revived (JObject ps) =
     (let kept = map (\<lambda>(k, v). (k, v = JUndefined, revived v)) ps
      in JObject (map (\<lambda>(k, _, v). (k, v)) (filter (\<lambda>(_, u, _). \<not> u) (own_order kept))))"
| "revived v = v"

text \<open>No object has the same key twice.\<close>

fun unique_keys :: "jsval \<Rightarrow> bool" where
  "unique_keys (JArray vs) = list_all unique_keys vs"
| "unique_keys (JObject ps) = (distinct (map fst ps) \<and> list_all (\<lambda>(k, v). unique_keys v) ps)"
| "unique_keys v = True"

lemma digit_char_hex: "d < 16 \<Longrightarrow> lower_char (digit_char d) = digit_char d"
  by (auto simp: lower_char_def digit_char_def Let_def)

lemma digit_char_base: "d < 16 \<Longrightarrow> digit_of_base 16 (digit_char d)"
  by (simp add: digit_of_base_def digit_char_hex)

lemma control_escape: "n < 32 \<Longrightarrow> c = char_of n \<Longrightarrow>
    escape [CHR ''u'', CHR ''0'', CHR ''0'', digit_char (n div 16), digit_char (n mod 16)] = Inr ([c], [])"
proof -
  assume n: "n < 32" "c = char_of n"
  then have d: "n div 16 < 16" "n mod 16 < 16" by auto
  have z: "digit_of_base 16 CHR ''0''" "lower_char CHR ''0'' = CHR ''0''"
    by (simp_all add: digit_of_base_def lower_char_def digit_value_def)
  have r: "read_base 16 [CHR ''0'', CHR ''0'', digit_char (n div 16), digit_char (n mod 16)] = n"
    using d by (simp add: read_base_def digit_value_def [of "CHR ''0''"])
  have "hex4 [CHR ''0'', CHR ''0'', digit_char (n div 16), digit_char (n mod 16)] = Some (n, [])"
    using z digit_char_hex [OF d(1)] digit_char_hex [OF d(2)] digit_char_base [OF d(1)] digit_char_base [OF d(2)] r by simp
  then show ?thesis using n by (simp add: unicode_escape_def code_point_def)
qed

lemma json_escape_text: "string_text s t \<Longrightarrow> string_text (c # s) (json_escape c @ t)"
proof -
  assume s: "string_text s t"
  define n :: nat where "n = of_char c"
  have c: "c = char_of n" by (simp add: n_def)
  have e: "string_text (c # s) (CHR 0x5C # x @ t)" if "escape x = Inr ([c], [])" for x
    using st_escape [OF that s] by simp
  have k: "char_of (34::nat) = CHR 0x22" "char_of (92::nat) = CHR 0x5C" "char_of (8::nat) = CHR 0x08" "char_of (12::nat) = CHR 0x0C"
    "char_of (10::nat) = CHR 0x0A" "char_of (13::nat) = CHR 0x0D" "char_of (9::nat) = CHR 0x09"
    by (rule char_of_of_char_nat, simp)+
  consider "n \<in> {34, 92, 8, 12, 10, 13, 9}" | "n \<notin> {34, 92, 8, 12, 10, 13, 9}" "n < 32"
    | "n \<notin> {34, 92, 8, 12, 10, 13, 9}" "32 \<le> n" by linarith
  then show ?thesis
  proof cases
    case 1
    then show ?thesis
      using e [of "[CHR 0x22]"] e [of "[CHR 0x5C]"] e [of "''b''"] e [of "''f''"] e [of "''n''"] e [of "''r''"] e [of "''t''"] c
      by (auto simp: json_escape_def n_def [symmetric] k)
  next
    case 2
    then show ?thesis using e [OF control_escape [OF 2(2) c]] by (simp add: json_escape_def n_def [symmetric] Let_def)
  next
    case 3
    then have "c \<noteq> CHR 0x22" "c \<noteq> CHR 0x5C" by (auto simp: n_def)
    then show ?thesis using st_plain [OF _ _ _ s] 3 by (simp add: json_escape_def n_def [symmetric] Let_def)
  qed
qed

lemma string_text_escaped: "string_text s (concat (map json_escape s))"
  by (induction s) (auto intro: json_escape_text st_end)

lemma value_text_quote: "value_text (JString s) (json_quote s)"
  unfolding json_quote_def by (rule vt_string [OF string_text_escaped])

section \<open>Numbers\<close>

lemma show_base_leading: "2 \<le> b \<Longrightarrow> b \<le> 10 \<Longrightarrow> hd (show_base b n) \<noteq> CHR ''0'' \<or> length (show_base b n) = 1"
proof (induction b n rule: show_base.induct)
  case (1 b n)
  have z: "digit_char d = CHR ''0'' \<longleftrightarrow> d = 0" if "d < 10" for d
    using that char_of_of_char_nat [of "CHR ''0''" 48]
    by (auto simp: digit_char_def dest: arg_cong [where f = "of_char :: char \<Rightarrow> nat"])
  show ?case
  proof (cases "n < b")
    case True
    then show ?thesis using 1(2) by (subst (1 2) show_base.simps) simp
  next
    case False
    let ?m = "n div b"
    have s: "show_base b n = show_base b ?m @ [digit_char (n mod b)]"
      using False 1(2) by (subst show_base.simps) simp
    have "hd (show_base b ?m) \<noteq> CHR ''0''"
    proof (cases "?m < b")
      case True
      then have "show_base b ?m = [digit_char ?m]" by (subst show_base.simps) simp
      then show ?thesis using z [of ?m] True 1(2,3) False by (simp add: div_eq_0_iff)
    next
      case m: False
      then have "length (show_base b ?m) \<noteq> 1" using 1(2) by (subst show_base.simps) simp
      then show ?thesis using 1(1) False 1(2,3) by simp
    qed
    then show ?thesis using s by (simp add: hd_append)
  qed
qed

lemma not_minus_digit: "is_digit c \<Longrightarrow> c \<noteq> CHR ''-''"
  by (auto simp: is_digit_def)

lemma show_nat_form: "number_form (show_nat n)" "number_form (CHR ''-'' # show_nat n)"
proof -
  have d: "is_digit (hd (show_nat n))" using list_all_show_nat [of n] by (cases "show_nat n") (auto dest: arg_cong [of _ "[]"])
  show "number_form (show_nat n)" "number_form (CHR ''-'' # show_nat n)"
    using list_all_show_nat [of n] not_minus_digit [OF d] show_base_leading [of 10 n]
    by (simp_all add: number_form_def Let_def fraction_form_def exponent_form_def list_all_iff)
qed

lemma js_Number_show_int: "js_Number (show_int i) = Finite (of_int i)"
proof (cases "i < 0")
  case True
  let ?d = "show_nat (nat (- i))"
  have plain: "\<forall>c \<in> set ?d. \<not> is_exponent_mark c \<and> \<not> is_ws c \<and> c \<noteq> CHR ''-'' \<and> c \<noteq> CHR ''+'' \<and> c \<noteq> CHR ''I'' \<and> c \<notin> set ''xXoObB''"
    using list_all_show_nat digit_plain unfolding list_all_iff by blast
  have "trim (CHR ''-'' # ?d) = CHR ''-'' # ?d" using plain by (intro trim_plain) (auto simp: is_ws_def)
  moreover have "read_prefixed (CHR ''-'' # ?d) = None" using plain by (intro read_prefixed_plain) auto
  moreover have "?d \<noteq> ''Infinity''" using plain by (metis list.set_intros(1))
  moreover have "read_decimal ?d = Some (of_nat (nat (- i)))"
    using plain list_all_show_nat [of "nat (- i)"] read_show_base [of 10 "nat (- i)"]
    by (simp add: read_decimal_def read_mantissa_def list_all_iff)
  ultimately show ?thesis using True by (simp add: show_int_def js_Number_def signed_def Let_def)
next
  case False
  then show ?thesis using js_Number_show_nat [of "nat i"] by (simp add: show_int_def)
qed

lemma value_text_int: "value_text (JNumber (Num i)) (show_int i)"
proof (rule vt_number)
  have "number_form (show_int i)" using show_nat_form by (simp add: show_int_def)
  then show "number_value (show_int i) = Inr (JNumber (Num i))"
    by (simp add: number_value_def js_Number_show_int is_whole_def)
qed

section \<open>Lists of values\<close>

lemma elements_join:
  "vs \<noteq> [] \<Longrightarrow> (\<And>v. v \<in> set vs \<Longrightarrow> value_text (g v) (f v)) \<Longrightarrow> blank a \<Longrightarrow> blank b \<Longrightarrow> blank z \<Longrightarrow>
   elements_text (map g vs) (a @ join (CHR '','' # b) (map f vs) @ z)"
proof (induction vs arbitrary: a)
  case (Cons v vs)
  show ?case
  proof (cases "vs = []")
    case True
    then show ?thesis using et_last [of a "g v" "f v" z] Cons.prems by simp
  next
    case False
    then obtain w ws where vs: "vs = w # ws" by (cases vs) auto
    have "elements_text (map g vs) (b @ join (CHR '','' # b) (map f vs) @ z)"
      using Cons.prems False by (intro Cons.IH) auto
    then have "elements_text (g v # map g vs) (a @ f v @ [] @ CHR '','' # b @ join (CHR '','' # b) (map f vs) @ z)"
      using Cons.prems by (intro et_more) auto
    then show ?thesis using vs by simp
  qed
qed simp

definition member_text :: "string \<Rightarrow> string \<times> string \<Rightarrow> string" where
  "member_text gap p = json_quote (fst p) @ CHR '':'' # gap @ snd p"

lemma members_join:
  "ps \<noteq> [] \<Longrightarrow> (\<And>k v. (k, v) \<in> set ps \<Longrightarrow> value_text (g v) (f v)) \<Longrightarrow> blank a \<Longrightarrow> blank b \<Longrightarrow> blank z \<Longrightarrow> blank gap \<Longrightarrow>
   members_text (map (\<lambda>(k, v). (k, g v)) ps)
     (a @ join (CHR '','' # b) (map (member_text gap) (map (\<lambda>(k, v). (k, f v)) ps)) @ z)"
proof (induction ps arbitrary: a)
  case (Cons p ps)
  obtain k v where p: "p = (k, v)" by force
  have v: "value_text (g v) (f v)" using Cons.prems(2) [of k v] p by simp
  show ?case
  proof (cases "ps = []")
    case True
    then show ?thesis
      using mt_last [OF Cons.prems(3) string_text_escaped [of k] blank_Nil Cons.prems(6) v Cons.prems(5)] p
      by (simp add: member_text_def json_quote_def)
  next
    case False
    then obtain q qs where ps: "ps = q # qs" by (cases ps) auto
    have "members_text (map (\<lambda>(k, v). (k, g v)) ps)
        (b @ join (CHR '','' # b) (map (member_text gap) (map (\<lambda>(k, v). (k, f v)) ps)) @ z)"
      using Cons.prems False by (intro Cons.IH) auto
    note mt_more [OF Cons.prems(3) string_text_escaped [of k] blank_Nil Cons.prems(6) v blank_Nil this]
    then show ?thesis using p ps by (simp add: member_text_def [of gap "(k, f v)"] json_quote_def)
  qed
qed simp

lemma object_of_distinct: "distinct (map fst ps) \<Longrightarrow> object_of ps = JObject ps"
proof -
  have "foldl (\<lambda>m p. jmap_set (fst p) (snd p) m) m ps = m @ ps" if "distinct (map fst (m @ ps))" for m ps :: "(string \<times> jsval) list"
    using that
  proof (induction ps arbitrary: m)
    case (Cons p ps)
    have "jmap_set (fst p) (snd p) m = m @ [p]" if "fst p \<notin> fst ` set m" for m :: "(string \<times> jsval) list"
      using that by (induction m) auto
    moreover have "fst p \<notin> fst ` set m" using Cons.prems by auto
    ultimately show ?case using Cons.IH [of "m @ [p]"] Cons.prems by simp
  qed simp
  from this [of "[]"] show "distinct (map fst ps) \<Longrightarrow> ?thesis" by (simp add: object_of_def)
qed

section \<open>Printed objects\<close>

definition kept :: "(string \<times> jsval) list \<Rightarrow> (string \<times> jsval) list" where
  "kept ps = filter (\<lambda>(k, v). v \<noteq> JUndefined) (own_order ps)"

lemma insort_key_map: "insort_key f (g x) (map g xs) = map g (insort_key (\<lambda>x. f (g x)) x xs)"
  by (induction xs) auto

lemma sort_key_map: "sort_key f (map g xs) = map g (sort_key (\<lambda>x. f (g x)) xs)"
  by (induction xs) (auto simp: insort_key_map)

lemma own_order_map:
  assumes "\<And>p. fst (g p) = fst p"
  shows "own_order (map g ps) = map g (own_order ps)"
  using assms by (simp add: own_order_def filter_map comp_def sort_key_map)

lemma kept_rendered:
  "map (\<lambda>(k, _, t). (k, t)) (filter (\<lambda>(_, u, _). \<not> u) (own_order (map (\<lambda>(k, v). (k, v = JUndefined, f v)) ps)))
   = map (\<lambda>(k, v). (k, f v)) (kept ps)"
proof -
  have "own_order (map (\<lambda>(k, v). (k, v = JUndefined, f v)) ps) = map (\<lambda>(k, v). (k, v = JUndefined, f v)) (own_order ps)"
    by (rule own_order_map) auto
  then show ?thesis by (simp add: kept_def filter_map comp_def case_prod_beta')
qed

lemma set_kept: "set (kept ps) \<subseteq> set ps"
  by (auto simp: kept_def own_order_def)

lemma mset_own_order: "mset (own_order ps) = mset ps"
  by (simp add: own_order_def)

lemma distinct_kept: "distinct (map fst ps) \<Longrightarrow> distinct (map fst (kept ps))"
proof -
  assume d: "distinct (map fst ps)"
  have "mset (map fst (own_order ps)) = mset (map fst ps)" by (simp add: mset_own_order)
  then have "distinct (map fst (own_order ps))" using d by (metis mset_eq_imp_distinct_iff)
  then show ?thesis unfolding kept_def by (rule distinct_map_filter)
qed

lemma revived_object: "revived (JObject ps) = JObject (map (\<lambda>(k, v). (k, revived v)) (kept ps))"
  unfolding revived.simps Let_def kept_rendered by (rule refl)

lemma json_object: "json (JObject ps) = json_fields (map (\<lambda>(k, v). (k, json v)) (kept ps))"
  unfolding json.simps Let_def kept_rendered by (rule refl)

lemma json_indent_object:
  "json_indent_at d (JObject ps) = indented_fields d (map (\<lambda>(k, v). (k, json_indent_at (Suc d) v)) (kept ps))"
  unfolding json_indent_at.simps Let_def kept_rendered by (rule refl)

lemma fields_text:
  assumes "distinct (map fst ps)" "\<And>k v. (k, v) \<in> set ps \<Longrightarrow> value_text (g v) (f v)"
  shows "value_text (JObject (map (\<lambda>(k, v). (k, g v)) ps)) (json_fields (map (\<lambda>(k, v). (k, f v)) ps))"
    and "value_text (JObject (map (\<lambda>(k, v). (k, g v)) ps)) (indented_fields d (map (\<lambda>(k, v). (k, f v)) ps))"
proof -
  have o: "object_of (map (\<lambda>(k, v). (k, g v)) ps) = JObject (map (\<lambda>(k, v). (k, g v)) ps)"
    using assms(1) by (intro object_of_distinct) (simp add: comp_def case_prod_beta')
  have b: "blank (newline i)" for i by (simp add: newline_def blank_def list_all_iff is_json_ws_def)
  have m: "ps \<noteq> [] \<Longrightarrow> blank a \<Longrightarrow> blank b \<Longrightarrow> blank z \<Longrightarrow> blank gap \<Longrightarrow>
      value_text (JObject (map (\<lambda>(k, v). (k, g v)) ps))
        (CHR ''{'' # (a @ join (CHR '','' # b) (map (member_text gap) (map (\<lambda>(k, v). (k, f v)) ps)) @ z) @ [CHR ''}''])" for a b z gap
    unfolding o [symmetric] using assms(2) by (intro vt_object members_join) auto
  have c: "(\<lambda>(k, v). json_quote k @ '':'' @ v) = member_text []" "(\<lambda>(k, v). json_quote k @ '': '' @ v) = member_text '' ''"
    by (auto simp: member_text_def)
  show "value_text (JObject (map (\<lambda>(k, v). (k, g v)) ps)) (json_fields (map (\<lambda>(k, v). (k, f v)) ps))"
    using m [of "[]" "[]" "[]" "[]"] vt_empty_object [of "[]"] unfolding json_fields_def c by (cases "ps = []") simp_all
  show "value_text (JObject (map (\<lambda>(k, v). (k, g v)) ps)) (indented_fields d (map (\<lambda>(k, v). (k, f v)) ps))"
    using m [OF _ b [of "Suc d"] b [of "Suc d"] b [of d], of "'' ''"] vt_empty_object [of "[]"]
    unfolding indented_fields_def c by (cases "ps = []") (simp_all add: blank_def is_json_ws_def)
qed

lemma unique_keys_kept:
  "unique_keys (JObject ps) \<Longrightarrow> (k, v) \<in> set (kept ps) \<Longrightarrow> (k, v) \<in> set ps \<and> unique_keys v"
  using set_kept [of ps] by (auto simp: list_all_iff)

text \<open>Both printers write texts of the grammar.\<close>

theorem json_value_text: "unique_keys v \<Longrightarrow> value_text (revived v) (json v)"
proof (induction v)
  case (JNumber x)
  show ?case using value_text_int vt_null by (cases x) (simp_all add: json_num_def js_isFinite_def)
next
  case (JArray vs)
  have "value_text (revived v) (json v)" if "v \<in> set vs" for v using JArray that by (simp add: list_all_iff)
  then show ?case
    using vt_array [OF elements_join [of vs revived json "[]" "[]" "[]"]] vt_empty_array [of "[]"] by (cases "vs = []") auto
next
  case (JObject ps)
  then show ?case unfolding revived_object json_object
    using unique_keys_kept [OF JObject.prems] by (intro fields_text(1) distinct_kept) fastforce+
qed (use vt_null vt_true vt_false value_text_quote in \<open>auto simp: json_bool_def\<close>)

theorem json_indent_value_text: "unique_keys v \<Longrightarrow> value_text (revived v) (json_indent_at d v)"
proof (induction v arbitrary: d)
  case (JArray vs)
  have b: "blank (newline i)" for i by (simp add: newline_def blank_def list_all_iff is_json_ws_def)
  have "value_text (revived v) (json_indent_at (Suc d) v)" if "v \<in> set vs" for v using JArray that by (simp add: list_all_iff)
  then show ?case
    using vt_array [OF elements_join [of vs revived "json_indent_at (Suc d)", OF _ _ b [of "Suc d"] b [of "Suc d"] b [of d]]]
      vt_empty_array [of "[]"] by (cases "vs = []") auto
next
  case (JObject ps)
  then show ?case unfolding revived_object json_indent_object
    using unique_keys_kept [OF JObject.prems] by (intro fields_text(2) distinct_kept) fastforce+
qed (use json_value_text in \<open>auto simp del: json.simps revived.simps\<close>)

lemma JSON_parse_text: "value_text v t \<Longrightarrow> blank u \<Longrightarrow> blank w \<Longrightarrow> JSON_parse (u @ t @ w) = Inr v"
  unfolding JSON_parse_iff json_document_def by blast

lemma JSON_parse_json: "unique_keys v \<Longrightarrow> JSON_parse (json v) = Inr (revived v)"
  using JSON_parse_text [OF json_value_text, of v "[]" "[]"] by simp

lemma JSON_parse_indent: "unique_keys v \<Longrightarrow> JSON_parse (json_indent v) = Inr (revived v)"
  using JSON_parse_text [OF json_indent_value_text [of v 0], of "[]" "[]"] by (simp add: json_indent_def)

lemma revived_plain: "json_plain v \<Longrightarrow> revived v = v"
proof (induction v)
  case (JArray vs)
  then show ?case by (auto simp: list_all_iff intro: map_idI)
next
  case (JObject ps)
  have "list_all (\<lambda>p. \<not> is_array_index (fst p)) ps" using JObject.prems by (auto simp: list_all_iff)
  then have "kept ps = ps" using JObject.prems by (auto simp: kept_def own_order_id list_all_iff filter_id_conv)
  moreover have "map (\<lambda>(k, v). (k, revived v)) ps = ps"
    using JObject by (intro map_idI) (fastforce simp: list_all_iff)
  ultimately show ?case unfolding revived_object by simp
qed auto

text \<open>Names that are no array indices keep their order, and so do values that are not \<open>undefined\<close>.\<close>

lemma revived_named:
  assumes "list_all (\<lambda>(k, v). k \<noteq> [] \<and> \<not> is_digit (hd k) \<and> v \<noteq> JUndefined) ps"
  shows "revived (JObject ps) = JObject (map (\<lambda>(k, v). (k, revived v)) ps)"
proof -
  have "list_all (\<lambda>p. \<not> is_array_index (fst p)) ps"
    using assms by (fastforce simp: list_all_iff is_array_index_def neq_Nil_conv)
  then have "kept ps = ps" using assms by (auto simp: kept_def own_order_id list_all_iff filter_id_conv)
  then show ?thesis by (simp only: revived_object)
qed

lemma update_member: "(k, v) \<in> set (jmap_set a b m) \<Longrightarrow> (k, v) \<in> set m \<or> k = a \<and> v = b"
  by (induction m) (auto split: if_splits)

text \<open>Values that were parsed: no key twice, and never \<open>undefined\<close>.\<close>

lemma object_of_unique:
  "list_all (\<lambda>(k, v). unique_keys v) ps \<Longrightarrow> unique_keys (object_of ps)"
proof -
  have "jmap_ok m \<and> list_all (\<lambda>(k, v). unique_keys v) m \<Longrightarrow> list_all (\<lambda>(k, v). unique_keys v) ps \<Longrightarrow>
      jmap_ok (foldl (\<lambda>m p. jmap_set (fst p) (snd p) m) m ps)
      \<and> list_all (\<lambda>(k, v). unique_keys v) (foldl (\<lambda>m p. jmap_set (fst p) (snd p) m) m ps)" for m
  proof (induction ps arbitrary: m)
    case (Cons p ps)
    have "list_all (\<lambda>(k, v). unique_keys v) (jmap_set (fst p) (snd p) m)"
      using Cons.prems by (auto simp: list_all_iff dest: update_member)
    moreover have "jmap_ok (jmap_set (fst p) (snd p) m)" using Cons.prems by (simp add: jmap_ok_set)
    moreover have "list_all (\<lambda>(k, v). unique_keys v) ps" using Cons.prems by simp
    ultimately show ?case unfolding foldl.simps by (intro Cons.IH conjI)
  qed simp
  from this [of "[]"] show "list_all (\<lambda>(k, v). unique_keys v) ps \<Longrightarrow> ?thesis"
    by (simp add: object_of_def jmap_ok_def)
qed

lemma parsed_unique_keys:
  "value_text v t \<Longrightarrow> unique_keys v" "elements_text vs t \<Longrightarrow> list_all unique_keys vs"
  "members_text ps t \<Longrightarrow> list_all (\<lambda>(k, v). unique_keys v) ps"
proof (induction rule: value_text_elements_text_members_text.inducts)
  case (vt_number t v)
  then show ?case by (auto simp: number_value_def split: if_splits js_real.splits)
qed (simp_all add: object_of_unique)

lemma value_text_defined: "value_text v t \<Longrightarrow> v \<noteq> JUndefined"
  by (erule value_text.cases) (auto simp: number_value_def object_of_def split: if_splits js_real.splits)

text \<open>A property of what is read back.\<close>

lemma set_own_order: "set (own_order ps) = set ps"
  using mset_own_order [of ps] by (metis set_mset_mset)

lemma js_get_revived:
  assumes "distinct (map fst ps)"
  shows "js_get (revived (JObject ps)) k = (if js_get (JObject ps) k = JUndefined then JUndefined else revived (js_get (JObject ps) k))"
proof -
  have d: "distinct (map fst (kept ps))" using assms by (rule distinct_kept)
  have m: "map_of (map (\<lambda>(k, v). (k, revived v)) (kept ps)) k = map_option revived (map_of (kept ps) k)"
    by (simp add: map_of_map)
  show ?thesis
  proof (cases "map_of ps k")
    case None
    then have "k \<notin> fst ` set (kept ps)" using set_kept [of ps] by (force simp: map_of_eq_None_iff)
    then have "map_of (kept ps) k = None" by (simp add: map_of_eq_None_iff)
    then show ?thesis using None m unfolding revived_object by (simp add: js_prop_def)
  next
    case (Some v)
    then have in_ps: "(k, v) \<in> set ps" by (rule map_of_SomeD)
    show ?thesis
    proof (cases "v = JUndefined")
      case True
      have "w = JUndefined" if "(k, w) \<in> set ps" for w using Some that assms True by (metis map_of_is_SomeI option.inject)
      then have "k \<notin> fst ` set (kept ps)" by (auto simp: kept_def set_own_order)
      then have "map_of (kept ps) k = None" by (simp add: map_of_eq_None_iff)
      then show ?thesis using Some True m unfolding revived_object by (simp add: js_prop_def)
    next
      case False
      then have "(k, v) \<in> set (kept ps)" using in_ps by (simp add: kept_def set_own_order)
      then have "map_of (kept ps) k = Some v" using d by simp
      then show ?thesis using Some False m unfolding revived_object by (simp add: js_prop_def)
    qed
  qed
qed

section \<open>Printed texts are single lines\<close>

text \<open>No character below the space occurs in what \<open>JSON.stringify\<close> prints.\<close>

definition printable :: "string \<Rightarrow> bool" where "printable s = list_all (\<lambda>c. (32 :: nat) \<le> of_char c) s"

lemma printable_simps [simp]: "printable []" "printable (c # s) = ((32 :: nat) \<le> of_char c \<and> printable s)"
  "printable (s @ t) = (printable s \<and> printable t)" "printable (concat ss) = list_all printable ss"
  by (auto simp: printable_def list_all_iff)

lemma printable_join: "printable d \<Longrightarrow> list_all printable ss \<Longrightarrow> printable (join d ss)"
  by (induction d ss rule: join.induct) auto

lemma printable_digit: "d < 16 \<Longrightarrow> (32 :: nat) \<le> of_char (digit_char d)"
  by (auto simp: digit_char_def)

lemma printable_escape: "printable (json_escape c)"
proof -
  have "n div 16 < 16" if "n < 32" for n :: nat using that by simp
  then show ?thesis using printable_digit by (auto simp: json_escape_def Let_def)
qed

lemma printable_quote: "printable (json_quote s)"
  by (simp add: json_quote_def list_all_iff printable_escape)

lemma printable_int: "printable (show_int i)"
proof -
  have "printable (show_nat n)" for n
    using list_all_show_nat [of n] by (auto simp: printable_def list_all_iff is_digit_def Let_def)
  then show ?thesis by (simp add: show_int_def)
qed

lemma printable_json: "printable (json v)"
proof (induction v)
  case (JNumber x)
  then show ?case by (cases x) (simp_all add: json_num_def printable_int)
next
  case (JArray vs)
  then show ?case by (auto simp: list_all_iff intro!: printable_join)
next
  case (JObject ps)
  have "list_all printable (map (\<lambda>(k, v). json_quote k @ '':'' @ v) (map (\<lambda>(k, v). (k, json v)) (kept ps)))"
    using JObject set_kept [of ps] by (fastforce simp: list_all_iff printable_quote)
  then show ?case unfolding json_object json_fields_def by (auto intro!: printable_join)
qed (auto simp: json_bool_def printable_quote)

text \<open>The text of an object has no blank end to trim.\<close>

lemma trim_json_object: "trim (json (JObject ps)) = json (JObject ps)"
proof -
  obtain x where x: "json (JObject ps) = ''{'' @ x @ ''}''" unfolding json_object json_fields_def by blast
  show ?thesis unfolding x trim_def by (simp add: is_ws_def)
qed

text \<open>\<open>JSON.parse\<close> as the code uses it: a value, or an exception.\<close>

definition parsed :: "string \<Rightarrow> jsval option" where
  "parsed s = (case JSON_parse s of Inr v \<Rightarrow> Some v | Inl _ \<Rightarrow> None)"

lemma parsed_json: "unique_keys v \<Longrightarrow> parsed (json v) = Some (revived v)"
  by (simp add: parsed_def JSON_parse_json)

lemma parsed_indent: "unique_keys v \<Longrightarrow> parsed (json_indent v) = Some (revived v)"
  by (simp add: parsed_def JSON_parse_indent)

section \<open>The interface to files\<close>

text \<open>A printer, a reader, the values a component keeps, and what they are read back as.\<close>

locale json_codec =
  fixes encode :: "jsval \<Rightarrow> string" and decode :: "string \<Rightarrow> 'e + jsval" and kept_value :: "jsval \<Rightarrow> bool"
  assumes decode_encode: "kept_value v \<Longrightarrow> decode (encode v) = Inr v"
begin

lemma encode_inj: "kept_value v \<Longrightarrow> kept_value w \<Longrightarrow> encode v = encode w \<Longrightarrow> v = w"
  by (metis decode_encode sum.inject(2))

lemma decode_all: "list_all kept_value vs \<Longrightarrow> map decode (map encode vs) = map Inr vs"
  by (induction vs) (auto simp: decode_encode)

text \<open>Replacing a stored value by a function of it: what a later reader finds.\<close>

lemma stored_update: "kept_value (f v) \<Longrightarrow> kept_value v \<Longrightarrow>
    (case decode (encode v) of Inl e \<Rightarrow> Inl e | Inr w \<Rightarrow> decode (encode (f w))) = Inr (f v)"
  by (simp add: decode_encode)

end

definition plain_value :: "jsval \<Rightarrow> bool" where "plain_value v = (json_plain v \<and> unique_keys v)"

interpretation compact: json_codec json JSON_parse plain_value
  by unfold_locales (simp add: plain_value_def JSON_parse_json revived_plain)

interpretation indented: json_codec json_indent JSON_parse plain_value
  by unfold_locales (simp add: plain_value_def JSON_parse_indent revived_plain)

end
