(* ===== verification/Pr_Extraction.thy ===== *)
theory Pr_Extraction
  imports Js_Roundtrip Command_Line
begin

text \<open>
  The helper of the CI workflow (\<open>src/audit-guard/scripts/extract-pr-data.js\<close>), which writes the pull request it
  finds in the environment to the file that the \<open>check-pr\<close> command reads, and the two together.

  \<open>PrWorld\<close> is the environment, the file system and the command line of the helper. A list of changed files that
  holds a number with a fraction counts as one that cannot be parsed; a file name is never a number.
\<close>

section \<open>The helper\<close>

text \<open>\<open>parseInt(text)\<close>: white space, a sign, and the longest run of digits, hexadecimal after \<open>0x\<close>.\<close>

definition js_parseInt :: "string \<Rightarrow> jsnum" where
  "js_parseInt s =
     (let t = dropWhile is_ws s;
          negative = (t \<noteq> [] \<and> hd t = CHR ''-'');
          u = (if t \<noteq> [] \<and> (hd t = CHR ''-'' \<or> hd t = CHR ''+'') then tl t else t);
          hex = (startsWith u ''0x'' \<or> startsWith u ''0X'');
          b = (if hex then 16 else 10);
          ds = takeWhile (digit_of_base b) (if hex then drop 2 u else u)
      in if ds = [] then JNaN
         else (let n = int (read_base b (map lower_char ds)) in Num (if negative then - n else n)))"

record PrWorld =
  pw_env :: "string \<Rightarrow> string option"
  pw_exists :: "string \<Rightarrow> bool"
  pw_read :: "string \<Rightarrow> string + string"
  pw_argv2 :: "string option"
  pw_write :: "string \<Rightarrow> string option"

record PrContext =
  pc_prTitle :: string
  pc_prBody :: string
  pc_prLabels :: "string list"
  pc_baseBranch :: string
  pc_headBranch :: string
  pc_prNumber :: jsnum
  pc_prAuthor :: string
  pc_additions :: jsnum
  pc_deletions :: jsnum
  pc_changedFilesJson :: string

definition pr_context :: "(string \<Rightarrow> string option) \<Rightarrow> PrContext" where
  "pr_context env =
     \<lparr>pc_prTitle = or_else_string (env ''GITHUB_PR_TITLE'') [],
      pc_prBody = or_else_string (env ''GITHUB_PR_BODY'') [],
      pc_prLabels = filter (\<lambda>l. l \<noteq> []) (split_on CHR '','' (or_else_string (env ''GITHUB_PR_LABELS'') [])),
      pc_baseBranch = or_else_string (env ''GITHUB_BASE_BRANCH'') ''main'',
      pc_headBranch = or_else_string (env ''GITHUB_HEAD_BRANCH'') [],
      pc_prNumber = js_parseInt (or_else_string (env ''GITHUB_PR_NUMBER'') ''0''),
      pc_prAuthor = or_else_string (env ''GITHUB_PR_AUTHOR'') [],
      pc_additions = js_parseInt (or_else_string (env ''GITHUB_ADDITIONS'') ''0''),
      pc_deletions = js_parseInt (or_else_string (env ''GITHUB_DELETIONS'') ''0''),
      pc_changedFilesJson = or_else_string (env ''GITHUB_CHANGED_FILES'') ''[]''\<rparr>"

text \<open>The parsed list with what is warned about.\<close>

definition changed_files :: "string \<Rightarrow> jsval \<times> string list" where
  "changed_files text =
     (case JSON_parse text of
        Inr v \<Rightarrow> (v, [])
      | Inl _ \<Rightarrow> (JArray [], [''Warning: Could not parse changed files JSON'']))"

text \<open>What \<open>for (const file of v)\<close> goes through; \<open>None\<close> when \<open>v\<close> is not iterable.\<close>

fun iterated :: "jsval \<Rightarrow> jsval list option" where
  "iterated (JArray vs) = Some vs"
| "iterated (JString s) = Some (map (\<lambda>c. JString [c]) s)"
| "iterated _ = None"

text \<open>
  \<open>existsSync\<close> is false for a value that is no string, and assigning a string to \<open>__proto__\<close> of an object does
  nothing.
\<close>

fun read_contents :: "PrWorld \<Rightarrow> jsval list \<Rightarrow> (string \<times> jsval) list \<Rightarrow> (string \<times> jsval) list \<times> string list" where
  "read_contents w [] fs = (fs, [])"
| "read_contents w (f # rest) fs =
     (case f of
        JString path \<Rightarrow>
          if pw_exists w path then
            (case pw_read w path of
               Inr content \<Rightarrow>
                 read_contents w rest (if path = ''__proto__'' then fs else jmap_set path (JString content) fs)
             | Inl _ \<Rightarrow>
                 (case read_contents w rest fs of (fs', ws) \<Rightarrow>
                    (fs', (''Warning: Could not read file content for '' @ path) # ws)))
          else read_contents w rest fs
      | _ \<Rightarrow> read_contents w rest fs)"

definition pr_value :: "PrContext \<Rightarrow> jsval \<Rightarrow> (string \<times> jsval) list \<Rightarrow> jsval" where
  "pr_value c files contents =
     JObject
       [(''pull_request'', JObject
          [(''title'', JString (pc_prTitle c)), (''body'', JString (pc_prBody c)),
           (''labels'', JArray (map JString (pc_prLabels c))), (''base_branch'', JString (pc_baseBranch c)),
           (''head_branch'', JString (pc_headBranch c)), (''number'', JNumber (pc_prNumber c)),
           (''author'', JString (pc_prAuthor c))]),
        (''files_modified'', files), (''file_contents'', JObject contents),
        (''additions'', JNumber (pc_additions c)), (''deletions'', JNumber (pc_deletions c))]"

definition extractPRData :: "PrWorld \<Rightarrow> (string + jsval) \<times> string list" where
  "extractPRData w =
     (let c = pr_context (pw_env w); (files, warned) = changed_files (pc_changedFilesJson c)
      in case iterated files of
           None \<Rightarrow> (Inl ''TypeError: changedFiles is not iterable'', warned)
         | Some vs \<Rightarrow> (case read_contents w vs [] of (contents, ws) \<Rightarrow> (Inr (pr_value c files contents), warned @ ws)))"

text \<open>The file it wrote, the lines on the console and the exit code.\<close>

record PrRun =
  px_written :: "(string \<times> string) option"
  px_console :: "string list"
  px_exit :: nat

definition extract_failed :: "string list \<Rightarrow> string \<Rightarrow> PrRun" where
  "extract_failed before e =
     \<lparr>px_written = None, px_console = before @ [([CHR 0xE2, CHR 0x9D, CHR 0x8C] @ '' Error extracting PR data: '') @ e], px_exit = 1\<rparr>"

definition extract_main :: "PrWorld \<Rightarrow> PrRun" where
  "extract_main w =
     (case extractPRData w of
        (Inl e, warned) \<Rightarrow> extract_failed warned e
      | (Inr prData, warned) \<Rightarrow>
          (let outputPath = or_else_string (pw_argv2 w) ''./pr-data.json'' ; text = json_indent prData
           in case pw_write w outputPath of
                Some e \<Rightarrow> extract_failed warned e
              | None \<Rightarrow> \<lparr>px_written = Some (outputPath, text),
                  px_console = warned @ [([CHR 0xE2, CHR 0x9C, CHR 0x85] @ '' PR data extracted to '') @ outputPath, text], px_exit = 0\<rparr>))"

section \<open>Reading the file\<close>

text \<open>
  A value that has the fields of \<open>PRData\<close> with their types; the command casts what it parsed, and the model of the
  engine is about values of that shape.
\<close>

fun as_string :: "jsval \<Rightarrow> string option" where
  "as_string (JString s) = Some s"
| "as_string _ = None"

fun as_int :: "jsval \<Rightarrow> int option" where
  "as_int (JNumber (Num i)) = Some i"
| "as_int _ = None"

fun as_number :: "jsval \<Rightarrow> jsnum option" where
  "as_number (JNumber x) = Some x"
| "as_number _ = None"

fun as_bool :: "jsval \<Rightarrow> bool option" where
  "as_bool (JBool b) = Some b"
| "as_bool _ = None"

fun all_of :: "('a \<Rightarrow> 'b option) \<Rightarrow> 'a list \<Rightarrow> 'b list option" where
  "all_of f [] = Some []"
| "all_of f (x # xs) = (case (f x, all_of f xs) of (Some y, Some ys) \<Rightarrow> Some (y # ys) | _ \<Rightarrow> None)"

fun as_list :: "(jsval \<Rightarrow> 'b option) \<Rightarrow> jsval \<Rightarrow> 'b list option" where
  "as_list f (JArray vs) = all_of f vs"
| "as_list f _ = None"

fun as_texts :: "jsval \<Rightarrow> (string \<times> string) list option" where
  "as_texts (JObject ps) = all_of (\<lambda>(k, v). map_option (Pair k) (as_string v)) ps"
| "as_texts _ = None"

definition optional :: "(jsval \<Rightarrow> 'b option) \<Rightarrow> jsval \<Rightarrow> 'b option option" where
  "optional f v = (if v = JUndefined then Some None else map_option Some (f v))"

definition read_PullRequest :: "jsval \<Rightarrow> PullRequest option" where
  "read_PullRequest v =
     (case (as_string (js_get v ''title''), as_string (js_get v ''body''), as_list as_string (js_get v ''labels''),
            as_string (js_get v ''base_branch''), as_string (js_get v ''head_branch''), as_int (js_get v ''number''),
            as_string (js_get v ''author'')) of
        (Some t, Some b, Some ls, Some bb, Some hb, Some n, Some a) \<Rightarrow>
          Some \<lparr>pr_title = t, pr_body = b, pr_labels = ls, pr_base_branch = bb, pr_head_branch = hb, pr_number = n, pr_author = a\<rparr>
      | _ \<Rightarrow> None)"

definition read_added :: "jsval \<Rightarrow> DependencyAdded option" where
  "read_added v =
     (case (as_string (js_get v ''name''), as_string (js_get v ''version''), optional as_bool (js_get v ''is_dev_dependency'')) of
        (Some n, Some x, Some d) \<Rightarrow> Some \<lparr>dep_name = n, dep_version = x, dep_is_dev_dependency = d\<rparr>
      | _ \<Rightarrow> None)"

definition read_updated :: "jsval \<Rightarrow> DependencyUpdated option" where
  "read_updated v =
     (case (as_string (js_get v ''name''), as_string (js_get v ''current_version''), as_string (js_get v ''latest_version'')) of
        (Some n, Some c, Some l) \<Rightarrow> Some \<lparr>du_name = n, du_current_version = c, du_latest_version = l\<rparr>
      | _ \<Rightarrow> None)"

definition read_PRData :: "jsval \<Rightarrow> PRData option" where
  "read_PRData v =
     (case (read_PullRequest (js_get v ''pull_request''), as_list as_string (js_get v ''files_modified''),
            optional as_texts (js_get v ''file_contents''), as_int (js_get v ''additions''), as_int (js_get v ''deletions''),
            optional (as_list read_added) (js_get v ''dependencies_added''),
            optional (as_list read_updated) (js_get v ''dependencies_updated''),
            optional as_string (js_get v ''relayer''), optional as_string (js_get v ''signature''),
            optional as_number (js_get v ''timestamp''), optional as_bool (js_get v ''maintenance_mode''),
            optional as_string (js_get v ''maintenance_message'')) of
        (Some p, Some fs, Some cs, Some a, Some d, Some da, Some du, Some r, Some s, Some t, Some m, Some mm) \<Rightarrow>
          Some \<lparr>pd_pull_request = p, pd_files_modified = fs, pd_file_contents = cs, pd_additions = a, pd_deletions = d,
                pd_dependencies_added = da, pd_dependencies_updated = du, pd_relayer = r, pd_signature = s, pd_timestamp = t,
                pd_maintenance_mode = m, pd_maintenance_message = mm\<rparr>
      | _ \<Rightarrow> None)"

definition pr_of_text :: "string \<Rightarrow> PRData option" where
  "pr_of_text text = (case JSON_parse text of Inr v \<Rightarrow> read_PRData v | Inl _ \<Rightarrow> None)"

section \<open>What the file says\<close>

lemma revived_pr_value:
  assumes "files \<noteq> JUndefined"
  shows "revived (pr_value c files contents) =
     JObject
       [(''pull_request'', JObject
          [(''title'', JString (pc_prTitle c)), (''body'', JString (pc_prBody c)),
           (''labels'', JArray (map JString (pc_prLabels c))), (''base_branch'', JString (pc_baseBranch c)),
           (''head_branch'', JString (pc_headBranch c)), (''number'', revived (JNumber (pc_prNumber c))),
           (''author'', JString (pc_prAuthor c))]),
        (''files_modified'', revived files), (''file_contents'', revived (JObject contents)),
        (''additions'', revived (JNumber (pc_additions c))), (''deletions'', revived (JNumber (pc_deletions c)))]"
proof -
  let ?p = "[(''title'', JString (pc_prTitle c)), (''body'', JString (pc_prBody c)),
           (''labels'', JArray (map JString (pc_prLabels c))), (''base_branch'', JString (pc_baseBranch c)),
           (''head_branch'', JString (pc_headBranch c)), (''number'', JNumber (pc_prNumber c)),
           (''author'', JString (pc_prAuthor c))]"
  have p: "revived (JObject ?p) = JObject (map (\<lambda>(k, v). (k, revived v)) ?p)"
    by (rule revived_named) (simp add: is_digit_def)
  have "revived (pr_value c files contents) = JObject (map (\<lambda>(k, v). (k, revived v))
      [(''pull_request'', JObject ?p), (''files_modified'', files), (''file_contents'', JObject contents),
       (''additions'', JNumber (pc_additions c)), (''deletions'', JNumber (pc_deletions c))])"
    unfolding pr_value_def by (rule revived_named) (use assms in \<open>simp add: is_digit_def\<close>)
  then show ?thesis unfolding list.map prod.case p by (simp del: revived.simps(2,4))
qed

lemma changed_files_parsed: "unique_keys (fst (changed_files text)) \<and> fst (changed_files text) \<noteq> JUndefined"
proof (cases "JSON_parse text")
  case (Inr v)
  then obtain t where "value_text v t" by (auto simp: JSON_parse_iff json_document_def)
  then show ?thesis using Inr parsed_unique_keys(1) value_text_defined by (simp add: changed_files_def)
qed (simp add: changed_files_def)

definition text_fields :: "(string \<times> jsval) list \<Rightarrow> bool" where
  "text_fields ps = (distinct (map fst ps) \<and> list_all (\<lambda>(k, v). as_string v \<noteq> None) ps)"

lemma text_fields_set: "text_fields ps \<Longrightarrow> text_fields (jmap_set k (JString s) ps)"
  unfolding text_fields_def list_all_iff using distinct_update [of ps k "JString s"] update_member [of _ _ k "JString s" ps]
  by fastforce

lemma read_contents_ok: "text_fields fs \<Longrightarrow> text_fields (fst (read_contents w vs fs))"
  by (induction w vs fs rule: read_contents.induct)
    (auto simp: text_fields_set case_prod_beta split: jsval.splits sum.splits)

lemma text_fields_unique: "text_fields ps \<Longrightarrow> unique_keys (JObject ps)"
proof -
  have "as_string v \<noteq> None \<Longrightarrow> unique_keys v" for v by (cases v) auto
  then show "text_fields ps \<Longrightarrow> ?thesis" by (auto simp: text_fields_def list_all_iff)
qed

lemma unique_pr_value: "unique_keys files \<Longrightarrow> text_fields contents \<Longrightarrow> unique_keys (pr_value c files contents)"
  using text_fields_unique [of contents] by (simp add: pr_value_def list_all_iff)

text \<open>The text that was written is that of the extracted value.\<close>

lemma written_value:
  assumes "px_written (extract_main w) = Some (path, text)"
  obtains contents where
    "JSON_parse text = Inr (revived (pr_value (pr_context (pw_env w)) (fst (changed_files (pc_changedFilesJson (pr_context (pw_env w))))) contents))"
    "iterated (fst (changed_files (pc_changedFilesJson (pr_context (pw_env w))))) = Some vs \<Longrightarrow> contents = fst (read_contents w vs [])"
    "text_fields contents"
proof -
  let ?c = "pr_context (pw_env w)"
  let ?f = "changed_files (pc_changedFilesJson ?c)"
  obtain us where us: "iterated (fst ?f) = Some us"
    using assms by (auto simp: extract_main_def extract_failed_def extractPRData_def Let_def split: option.splits prod.splits sum.splits)
  let ?contents = "fst (read_contents w us [])"
  have t: "text_fields ?contents" by (rule read_contents_ok) (simp add: text_fields_def)
  have "text = json_indent (pr_value ?c (fst ?f) ?contents)"
    using assms us by (auto simp: extract_main_def extract_failed_def extractPRData_def Let_def split: option.splits prod.splits sum.splits)
  then have "JSON_parse text = Inr (revived (pr_value ?c (fst ?f) ?contents))"
    using JSON_parse_indent unique_pr_value t changed_files_parsed by blast
  then show thesis using that [of ?contents] t us by simp
qed

section \<open>The file in the policy check\<close>

lemma js_get_absent: "k \<notin> fst ` set ps \<Longrightarrow> js_get (JObject ps) k = JUndefined"
proof -
  assume "k \<notin> fst ` set ps"
  then have "map_of ps k = None" by (simp add: map_of_eq_None_iff)
  then show ?thesis by (simp add: js_prop_def)
qed

lemma read_PRData_signature:
  "read_PRData v = Some d \<Longrightarrow> optional as_string (js_get v ''relayer'') = Some (pd_relayer d)
     \<and> optional as_string (js_get v ''signature'') = Some (pd_signature d)
     \<and> optional as_number (js_get v ''timestamp'') = Some (pd_timestamp d)"
  unfolding read_PRData_def by (auto simp del: js_get.simps split: option.split_asm)

lemma extracted_unsigned:
  assumes "px_written (extract_main w) = Some (path, text)" "pr_of_text text = Some d"
  shows "pd_relayer d = None \<and> pd_signature d = None \<and> pd_timestamp d = None"
proof -
  let ?c = "pr_context (pw_env w)"
  let ?f = "fst (changed_files (pc_changedFilesJson ?c))"
  obtain contents where v: "JSON_parse text = Inr (revived (pr_value ?c ?f contents))" using written_value [OF assms(1)] by metis
  then have d: "read_PRData (revived (pr_value ?c ?f contents)) = Some d" using assms(2) by (simp add: pr_of_text_def)
  have "js_get (revived (pr_value ?c ?f contents)) k = JUndefined"
    if "k \<in> {''relayer'', ''signature'', ''timestamp''}" for k
    unfolding revived_pr_value [OF conjunct2 [OF changed_files_parsed]] by (rule js_get_absent) (use that in auto)
  then show ?thesis using read_PRData_signature [OF d] by (simp add: optional_def)
qed

lemma unsigned_refused:
  assumes "pd_signature d = None"
  obtains r vs where "evaluateWithoutOPA env vf now d fs = Inr r" "er_status r = ''NON_COMPLIANT''"
    "er_high_severity_violations r \<noteq> []"
    "er_violations r = violation ''RELAYER_SIGNATURE_MISSING'' ''CRITICAL'' (cross_mark @ '' Relayer signature missing'')
       ''PR data must be signed by an authorized relayer'' # vs"
proof -
  have "signature_fields d = None" using assms by (simp add: signature_fields_def split: option.splits)
  then show thesis using that
    by (simp add: evaluateWithoutOPA_def verifyRelayerSignature_def Let_def high_severity_def violation_def)
qed

lemma bundle_keeps_violations:
  "er_violations (applyPolicyBundleVerification w v now r) = er_violations r"
  "er_high_severity_violations (applyPolicyBundleVerification w v now r) = er_high_severity_violations r"
  "er_status r = ''NON_COMPLIANT'' \<Longrightarrow> er_status (applyPolicyBundleVerification w v now r) = ''NON_COMPLIANT''"
  by (simp_all add: applyPolicyBundleVerification_def Let_def)

lemma unsigned_result:
  assumes "\<not> cw_opa w" "pd_signature d = None"
  shows "er_status (pr_result w (with_maintenance w d)) = ''NON_COMPLIANT''
    \<and> er_high_severity_violations (pr_result w (with_maintenance w d)) \<noteq> []
    \<and> (\<exists>v \<in> set (er_violations (pr_result w (with_maintenance w d))). pv_rule v = ''RELAYER_SIGNATURE_MISSING'')"
proof -
  let ?d = "with_maintenance w d"
  let ?fs = "checkFiles (ew_read (cw_eval w)) (pd_files_modified ?d)"
  have s: "pd_signature ?d = None" using assms(2) by (simp add: with_maintenance_def split: option.splits)
  obtain r vs where r: "evaluateWithoutOPA (ew_AUTHORIZED_ADDRESSES (cw_eval w)) (ew_verify (cw_eval w)) (cw_clock w 3) ?d ?fs = Inr r"
    "er_status r = ''NON_COMPLIANT''" "er_high_severity_violations r \<noteq> []"
    "er_violations r = violation ''RELAYER_SIGNATURE_MISSING'' ''CRITICAL'' (cross_mark @ '' Relayer signature missing'')
       ''PR data must be signed by an authorized relayer'' # vs"
    by (rule unsigned_refused [OF s])
  show ?thesis
    using assms(1) r by (simp add: pr_result_def evaluate_def Let_def evaluation_result_def new_engine_for_def
        bundle_keeps_violations violation_def)
qed

text \<open>
  C1. Without OPA no pull request gets through the check on the file that the workflow's own helper wrote: the
  helper never writes a relayer, a signature or a timestamp, so \<open>check-pr\<close> exits with 1, and whenever the file
  has the shape of pull request data the result names the missing signature.\<close>

theorem extracted_pr_blocked:
  assumes "px_written (extract_main pw) = Some (path, text)"
    and "cw_files w (or_else_string (cw_env w ''PR_DATA_FILE'') ''./pr-data.json'') = Some (Inr text)"
    and "cw_prData w = pr_of_text" and "\<not> cw_opa w"
  shows "\<not> exits_zero w (''pr'' # rest)
    \<and> (case pr_of_text text of None \<Rightarrow> True
       | Some d \<Rightarrow> \<exists>v \<in> set (er_violations (pr_result w (with_maintenance w d))). pv_rule v = ''RELAYER_SIGNATURE_MISSING'')"
proof -
  have "pd_signature d = None" if "pr_of_text text = Some d" for d using extracted_unsigned [OF assms(1) that] by simp
  then show ?thesis using unsigned_result [OF assms(4)] assms(2,3)
    by (auto simp: exits_zero_iff dispatch_named checkPR_zero split: option.splits)
qed

section \<open>What is read back\<close>

lemma all_of_map: "(\<And>x. x \<in> set xs \<Longrightarrow> f (g x) = Some (h x)) \<Longrightarrow> all_of f (map g xs) = Some (map h xs)"
  by (induction xs) auto

definition text_of :: "jsval \<Rightarrow> string" where "text_of v = (case as_string v of Some s \<Rightarrow> s | None \<Rightarrow> [])"

text \<open>The texts of an object, in the order in which JSON prints them.\<close>

lemma texts_read_back:
  assumes "text_fields ps"
  shows "as_texts (revived (JObject ps)) = Some (map (\<lambda>(k, v). (k, text_of v)) (own_order ps))"
proof -
  have t: "\<exists>s. v = JString s" if "(k, v) \<in> set ps" for k v
    using assms that by (cases v) (auto simp: text_fields_def list_all_iff)
  have o: "set (own_order ps) = set ps" using mset_own_order [of ps] by (metis set_mset_mset)
  have "kept ps = own_order ps" unfolding kept_def using t o by (fastforce simp: filter_id_conv)
  moreover have "all_of (\<lambda>(k, v). map_option (Pair k) (as_string v)) (map (\<lambda>(k, v). (k, revived v)) (own_order ps))
      = Some (map (\<lambda>(k, v). (k, text_of v)) (own_order ps))"
    using t o by (intro all_of_map) (fastforce simp: text_of_def)
  ultimately show ?thesis by (simp only: revived_object as_texts.simps)
qed

lemma read_contents_set:
  assumes "\<And>k v. (k, v) \<in> set fs \<Longrightarrow> pw_exists w k \<and> k \<noteq> ''__proto__'' \<and> (\<exists>t. pw_read w k = Inr t \<and> v = JString t)"
  shows "(k, v) \<in> set (fst (read_contents w (map JString ps) fs)) \<longleftrightarrow>
     (k, v) \<in> set fs \<or> k \<in> set ps \<and> pw_exists w k \<and> k \<noteq> ''__proto__'' \<and> (\<exists>t. pw_read w k = Inr t \<and> v = JString t)"
  using assms
proof (induction ps arbitrary: fs)
  case (Cons p ps)
  show ?case
  proof (cases "pw_exists w p \<and> p \<noteq> ''__proto__'' \<and> (\<exists>t. pw_read w p = Inr t)")
    case True
    then obtain t where t: "pw_read w p = Inr t" by blast
    let ?fs = "jmap_set p (JString t) fs"
    have in_set: "(a, b) \<in> set ?fs \<longleftrightarrow> (a, b) \<in> set fs \<or> a = p \<and> b = JString t" for a b
    proof -
      have "(a, b) \<in> set fs \<Longrightarrow> a = p \<Longrightarrow> b = JString t" using Cons.prems t by fastforce
      moreover have "(p, JString t) \<in> set ?fs" using map_of_SomeD [of ?fs p "JString t"] by (simp add: update_conv')
      moreover have "(a, b) \<in> set fs \<Longrightarrow> a \<noteq> p \<Longrightarrow> (a, b) \<in> set ?fs" by (induction fs) auto
      ultimately show ?thesis using update_member [of a b p "JString t" fs] by blast
    qed
    have "(k, v) \<in> set (fst (read_contents w (map JString ps) ?fs)) \<longleftrightarrow>
       (k, v) \<in> set ?fs \<or> k \<in> set ps \<and> pw_exists w k \<and> k \<noteq> ''__proto__'' \<and> (\<exists>t. pw_read w k = Inr t \<and> v = JString t)"
      using Cons.prems True t by (intro Cons.IH) (auto simp: in_set)
    then show ?thesis using True t by (auto simp: in_set)
  next
    case False
    then have "fst (read_contents w (map JString (p # ps)) fs) = fst (read_contents w (map JString ps) fs)"
      by (auto simp: case_prod_beta split: sum.splits)
    then show ?thesis using Cons.IH [OF Cons.prems] False by auto
  qed
qed simp

lemma revived_strings: "revived (JArray (map JString xs)) = JArray (map JString xs)"
  by simp

lemma strings_read_back: "as_list as_string (JArray (map JString xs)) = Some xs"
  using all_of_map [of xs as_string JString id] by simp

lemma read_PullRequest_value:
  "read_PullRequest (JObject [(''title'', JString t), (''body'', JString b), (''labels'', JArray (map JString ls)),
     (''base_branch'', JString bb), (''head_branch'', JString hb), (''number'', JNumber (Num n)), (''author'', JString a)])
   = Some \<lparr>pr_title = t, pr_body = b, pr_labels = ls, pr_base_branch = bb, pr_head_branch = hb, pr_number = n, pr_author = a\<rparr>"
  by (simp add: read_PullRequest_def js_prop_def strings_read_back del: as_list.simps)

text \<open>The pull request data that an environment describes.\<close>

definition described :: "PrContext \<Rightarrow> int \<Rightarrow> int \<Rightarrow> int \<Rightarrow> string list \<Rightarrow> (string \<times> string) list \<Rightarrow> PRData" where
  "described c n added deleted fs contents =
     \<lparr>pd_pull_request = \<lparr>pr_title = pc_prTitle c, pr_body = pc_prBody c, pr_labels = pc_prLabels c,
        pr_base_branch = pc_baseBranch c, pr_head_branch = pc_headBranch c, pr_number = n, pr_author = pc_prAuthor c\<rparr>,
      pd_files_modified = fs, pd_file_contents = Some contents, pd_additions = added, pd_deletions = deleted,
      pd_dependencies_added = None, pd_dependencies_updated = None, pd_relayer = None, pd_signature = None,
      pd_timestamp = None, pd_maintenance_mode = None, pd_maintenance_message = None\<rparr>"

lemma described_read:
  assumes "pc_prNumber c = Num n" "pc_additions c = Num a" "pc_deletions c = Num d" "text_fields ps"
  shows "read_PRData (revived (pr_value c (JArray (map JString fs)) ps)) =
     Some (described c n a d fs (map (\<lambda>(k, v). (k, text_of v)) (own_order ps)))"
proof -
  obtain qs where q: "revived (JObject ps) = JObject qs" unfolding revived_object by blast
  have cs: "as_texts (JObject qs) = Some (map (\<lambda>(k, v). (k, text_of v)) (own_order ps))"
    using texts_read_back [OF assms(4)] q by simp
  let ?p = "JObject [(''title'', JString (pc_prTitle c)), (''body'', JString (pc_prBody c)),
           (''labels'', JArray (map JString (pc_prLabels c))), (''base_branch'', JString (pc_baseBranch c)),
           (''head_branch'', JString (pc_headBranch c)), (''number'', JNumber (Num n)), (''author'', JString (pc_prAuthor c))]"
  let ?v = "revived (pr_value c (JArray (map JString fs)) ps)"
  have num: "revived (JNumber (Num i)) = JNumber (Num i)" for i by (simp add: js_isFinite_def)
  have v: "?v = JObject [(''pull_request'', ?p), (''files_modified'', JArray (map JString fs)), (''file_contents'', JObject qs),
      (''additions'', JNumber (Num a)), (''deletions'', JNumber (Num d))]"
    using revived_pr_value [of "JArray (map JString fs)" c ps] unfolding q assms(1-3) num revived_strings by simp
  have g: "js_get ?v ''pull_request'' = ?p" "js_get ?v ''files_modified'' = JArray (map JString fs)"
    "js_get ?v ''file_contents'' = JObject qs" "js_get ?v ''additions'' = JNumber (Num a)" "js_get ?v ''deletions'' = JNumber (Num d)"
    "js_get ?v ''dependencies_added'' = JUndefined" "js_get ?v ''dependencies_updated'' = JUndefined"
    "js_get ?v ''relayer'' = JUndefined" "js_get ?v ''signature'' = JUndefined" "js_get ?v ''timestamp'' = JUndefined"
    "js_get ?v ''maintenance_mode'' = JUndefined" "js_get ?v ''maintenance_message'' = JUndefined"
    unfolding v by (simp_all add: js_prop_def)
  show ?thesis
    unfolding read_PRData_def g read_PullRequest_value strings_read_back
    by (simp add: optional_def cs described_def del: as_texts.simps)
qed

text \<open>
  C1. What the helper extracts is what the policy check evaluates: with numbers in the environment and a JSON list of
  changed files the written file reads back as exactly the pull request that the environment describes, with
  the content of every changed file that exists and can be read, and of no other.\<close>

theorem extracted_pr_read_back:
  assumes "c = pr_context (pw_env w)" "pc_prNumber c = Num n" "pc_additions c = Num a" "pc_deletions c = Num d"
    and "JSON_parse (pc_changedFilesJson c) = Inr (JArray (map JString fs))"
    and "path = or_else_string (pw_argv2 w) ''./pr-data.json''" "pw_write w path = None"
  shows "\<exists>text contents. px_written (extract_main w) = Some (path, text) \<and> px_exit (extract_main w) = 0
     \<and> pr_of_text text = Some (described c n a d fs contents) \<and> distinct (map fst contents)
     \<and> set contents = {(f, t). f \<in> set fs \<and> pw_exists w f \<and> f \<noteq> ''__proto__'' \<and> pw_read w f = Inr t}"
proof -
  let ?ps = "fst (read_contents w (map JString fs) [])"
  let ?cs = "map (\<lambda>(k, v). (k, text_of v)) (own_order ?ps)"
  have f: "changed_files (pc_changedFilesJson c) = (JArray (map JString fs), [])" using assms(5) by (simp add: changed_files_def)
  have t: "text_fields ?ps" by (rule read_contents_ok) (simp add: text_fields_def)
  have run: "px_written (extract_main w) = Some (path, json_indent (pr_value c (JArray (map JString fs)) ?ps)) \<and> px_exit (extract_main w) = 0"
    using assms(1,6,7) f by (auto simp: extract_main_def extractPRData_def Let_def split: prod.splits)
  have "JSON_parse (json_indent (pr_value c (JArray (map JString fs)) ?ps)) = Inr (revived (pr_value c (JArray (map JString fs)) ?ps))"
    using t by (intro JSON_parse_indent unique_pr_value) (simp_all add: list_all_iff)
  then have "pr_of_text (json_indent (pr_value c (JArray (map JString fs)) ?ps)) = Some (described c n a d fs ?cs)"
    using described_read [OF assms(2-4) t] by (simp add: pr_of_text_def)
  moreover have "distinct (map fst ?cs)"
  proof -
    have "mset (map fst (own_order ?ps)) = mset (map fst ?ps)" by (simp add: mset_own_order)
    then have "distinct (map fst (own_order ?ps))" using t unfolding text_fields_def by (metis mset_eq_imp_distinct_iff)
    then show ?thesis by (simp add: comp_def case_prod_beta')
  qed
  moreover have "set ?cs = {(f, t). f \<in> set fs \<and> pw_exists w f \<and> f \<noteq> ''__proto__'' \<and> pw_read w f = Inr t}"
  proof -
    have o: "set (own_order ?ps) = set ?ps" using mset_own_order [of ?ps] by (metis set_mset_mset)
    have m: "(k, v) \<in> set ?ps \<longleftrightarrow> k \<in> set fs \<and> pw_exists w k \<and> k \<noteq> ''__proto__'' \<and> (\<exists>t. pw_read w k = Inr t \<and> v = JString t)" for k v
      using read_contents_set [of "[]" w k v fs] by simp
    show ?thesis
    proof (rule set_eqI)
      fix x :: "string \<times> string"
      obtain k s where x: "x = (k, s)" by (cases x)
      have "(k, s :: string) \<in> set ?cs \<longleftrightarrow> (\<exists>v. (k, v) \<in> set ?ps \<and> s = text_of v)" unfolding set_map o by force
      then show "x \<in> set ?cs \<longleftrightarrow> x \<in> {(f, t). f \<in> set fs \<and> pw_exists w f \<and> f \<noteq> ''__proto__'' \<and> pw_read w f = Inr t}"
        unfolding x m by (auto simp: text_of_def)
    qed
  qed
  ultimately show ?thesis using run by blast
qed

section \<open>Witnesses\<close>

definition demo_pr :: PrWorld where
  "demo_pr = \<lparr>pw_env = map_of [(''GITHUB_PR_TITLE'', ''Rotate the keys''), (''GITHUB_PR_NUMBER'', ''17''), (''GITHUB_ADDITIONS'', ''3''),
       (''GITHUB_CHANGED_FILES'', json (JArray [JString ''a.ts'', JString ''b.ts'']))],
     pw_exists = (\<lambda>f. f = ''a.ts''), pw_read = (\<lambda>f. Inr ''let x = 1''), pw_argv2 = None, pw_write = (\<lambda>p. None)\<rparr>"

lemma demo_numbers: "js_parseInt ''17'' = Num 17" "js_parseInt ''3'' = Num 3" "js_parseInt ''0'' = Num 0"
  by (simp_all add: js_parseInt_def is_ws_def digit_of_base_def lower_char_def digit_value_def startsWith_def read_base_def)

lemma demo_context: "pc_prNumber (pr_context (pw_env demo_pr)) = Num 17" "pc_additions (pr_context (pw_env demo_pr)) = Num 3"
  "pc_deletions (pr_context (pw_env demo_pr)) = Num 0"
  "pc_changedFilesJson (pr_context (pw_env demo_pr)) = json (JArray (map JString [''a.ts'', ''b.ts'']))"
  by (simp_all add: pr_context_def demo_pr_def or_else_string_def nonempty_def demo_numbers)

lemma demo_changed: "JSON_parse (json (JArray (map JString [''a.ts'', ''b.ts'']))) = Inr (JArray (map JString [''a.ts'', ''b.ts'']))"
  using JSON_parse_json [of "JArray (map JString [''a.ts'', ''b.ts''])"] by (simp only: revived_strings) simp

theorem extracted_pr_read_back_witness:
  "\<exists>text contents. px_written (extract_main demo_pr) = Some (''./pr-data.json'', text) \<and> px_exit (extract_main demo_pr) = 0
     \<and> pr_of_text text = Some (described (pr_context (pw_env demo_pr)) 17 3 0 [''a.ts'', ''b.ts''] contents) \<and> distinct (map fst contents)
     \<and> set contents = {(f, t). f \<in> set [''a.ts'', ''b.ts''] \<and> pw_exists demo_pr f \<and> f \<noteq> ''__proto__'' \<and> pw_read demo_pr f = Inr t}"
  by (rule extracted_pr_read_back [OF refl demo_context(1-3)])
    (simp_all only: demo_context(4) demo_changed, simp_all add: demo_pr_def or_else_string_def nonempty_def)

lemma demo_written: "\<exists>text. px_written (extract_main demo_pr) = Some (''./pr-data.json'', text)"
proof -
  have "changed_files (pc_changedFilesJson (pr_context (pw_env demo_pr))) = (JArray (map JString [''a.ts'', ''b.ts'']), [])"
    by (simp only: changed_files_def demo_context(4) demo_changed) simp
  then show ?thesis
    by (auto simp: extract_main_def extractPRData_def Let_def split: prod.splits) (auto simp: demo_pr_def or_else_string_def nonempty_def)
qed

theorem extracted_pr_blocked_witness:
  "\<exists>text. px_written (extract_main demo_pr) = Some (''./pr-data.json'', text)
     \<and> (\<forall>w. \<not> exits_zero (w\<lparr>cw_env := (\<lambda>n. None), cw_files := (\<lambda>f. Some (Inr text)), cw_prData := pr_of_text, cw_opa := False\<rparr>) [''pr''])"
proof -
  obtain out where t: "px_written (extract_main demo_pr) = Some (''./pr-data.json'', out)" using demo_written by blast
  have "\<not> exits_zero (w\<lparr>cw_env := (\<lambda>n. None), cw_files := (\<lambda>f. Some (Inr out)), cw_prData := pr_of_text, cw_opa := False\<rparr>) [''pr'']" for w
    using extracted_pr_blocked [OF t, of "w\<lparr>cw_env := (\<lambda>n. None), cw_files := (\<lambda>f. Some (Inr out)), cw_prData := pr_of_text, cw_opa := False\<rparr>" "[]"]
    by simp
  then show ?thesis using t by blast
qed

end
