(* ===== verification/Stored_Logs.thy ===== *)
theory Stored_Logs
  imports Js_Roundtrip Webhook_Sender Command_Line
begin

text \<open>
  The logs through which the components meet, as texts: the relay log that \<open>webhook.ts\<close> appends to and the page log
  of \<open>oncall-roster.ts\<close>, as \<open>event-log-scanner.ts\<close> and the \<open>scan-events\<close> command read them. \<open>JSON.parse\<close> is the
  parser of \<open>Js_Parse\<close>, so nothing is assumed of it.
\<close>

section \<open>Logs of one JSON object per line\<close>

definition line_of :: "(string \<times> jsval) list \<Rightarrow> string" where
  "line_of ps = json (JObject ps) @ [CHR 0x0A]"

lemma split_on_line: "CHR 0x0A \<notin> set l \<Longrightarrow> split_on CHR 0x0A (l @ CHR 0x0A # s) = l # split_on CHR 0x0A s"
  by (induction l) auto

lemma line_plain: "CHR 0x0A \<notin> set (json v)" "json v \<noteq> [] \<Longrightarrow> last (json v) \<noteq> CHR 0x0D"
proof -
  have p: "(32 :: nat) \<le> of_char c" if "c \<in> set (json v)" for c
    using printable_json [of v] that by (auto simp: printable_def list_all_iff)
  then show "CHR 0x0A \<notin> set (json v)" by fastforce
  show "last (json v) \<noteq> CHR 0x0D" if "json v \<noteq> []"
  proof -
    have "(32 :: nat) \<le> of_char (last (json v))" by (rule p [OF last_in_set [OF that]])
    then show ?thesis by auto
  qed
qed

lemma code_lines_log: "code_lines (concat (map line_of os)) = map (\<lambda>ps. json (JObject ps)) os @ [[]]"
proof -
  have "split_on CHR 0x0A (concat (map line_of os)) = map (\<lambda>ps. json (JObject ps)) os @ [[]]"
    by (induction os) (simp_all add: line_of_def split_on_line line_plain del: json.simps)
  moreover have "strip_cr (json (JObject ps)) = json (JObject ps)" for ps
    using line_plain(2) [of "JObject ps"] by (auto simp: strip_cr_def simp del: json.simps)
  ultimately show ?thesis by (simp add: code_lines_def Let_def comp_def del: json.simps)
qed

lemma json_object_nonblank: "trim (json (JObject ps)) \<noteq> []"
  unfolding trim_json_object by (simp add: json_object json_fields_def del: json.simps)

text \<open>Every line becomes one event, from the value that the line was printed from.\<close>

lemma events_of_log:
  assumes "list_all (\<lambda>ps. unique_keys (JObject ps)) os"
  shows "events_of sc parsed (concat (map line_of os)) options =
     map (\<lambda>(n, ps). normalizeEvent sc (revived (JObject ps)) n options) (enumerate 1 os)"
proof -
  have e: "enumerate n (xs @ [y]) = enumerate n xs @ [(n + length xs, y)]" for n and xs :: "string list" and y
    by (simp add: enumerate_append_eq)
  have m: "enumerate n (map f xs) = map (\<lambda>(i, x). (i, f x)) (enumerate n xs)" for n and f :: "'x \<Rightarrow> string" and xs
    by (induction xs arbitrary: n) auto
  have "numbered_lines (concat (map line_of os)) = map (\<lambda>(n, ps). (n, json (JObject ps))) (enumerate 1 os)"
  proof -
    have "filter (\<lambda>(n, l). trim l \<noteq> []) (map (\<lambda>(n, ps). (n, json (JObject ps))) xs) = map (\<lambda>(n, ps). (n, json (JObject ps))) xs"
      for xs :: "(nat \<times> (string \<times> jsval) list) list"
      using json_object_nonblank by (auto simp: filter_id_conv simp del: json.simps)
    moreover have "trim [] = []" by (simp add: trim_def)
    ultimately show ?thesis unfolding numbered_lines_def code_lines_log e m filter_append by simp
  qed
  moreover have "parseLogLine parsed (json (JObject ps)) = revived (JObject ps)" if "ps \<in> set os" for ps
  proof -
    have "unique_keys (JObject ps)" using assms that unfolding list_all_iff by blast
    then show ?thesis unfolding parseLogLine_def Let_def trim_json_object by (simp only: parsed_json option.case)
  qed
  moreover have "ps \<in> set os" if "(n, ps) \<in> set (enumerate 1 os)" for n ps
    using that by (auto simp: in_set_enumerate_eq)
  ultimately show ?thesis
    unfolding events_of_def by (auto simp del: json.simps revived.simps intro!: map_cong)
qed

section \<open>The relay log\<close>

text \<open>A call of \<open>sendAlert\<close>: the world it meets, the configuration, the time, the payload and its timeout.\<close>

type_synonym send_call = "HookWorld \<times> GuardConfig \<times> int \<times> AlertPayload \<times> jsnum option"

definition sent :: "send_call \<Rightarrow> (string + WebhookDeliveryResult) \<times> HookTrace" where
  "sent = (\<lambda>(w, c, now, p, timeout). webhook_sendAlert w c now p timeout)"

text \<open>The relay log after a sequence of calls, and the payload and result of the calls that were logged.\<close>

definition relay_log :: "send_call list \<Rightarrow> string" where
  "relay_log calls = concat (concat (map (\<lambda>c. ht_log (snd (sent c))) calls))"

definition logged_attempt :: "send_call \<Rightarrow> (AlertPayload \<times> WebhookDeliveryResult) list" where
  "logged_attempt call =
     (case call of (w, c, now, p, timeout) \<Rightarrow>
       (case fst (sent call) of Inr r \<Rightarrow> if gc_WEBHOOK_URL c = [] then [] else [(p, r)] | Inl _ \<Rightarrow> []))"

definition attempt_fields :: "AlertPayload \<Rightarrow> WebhookDeliveryResult \<Rightarrow> (string \<times> jsval) list" where
  "attempt_fields p r = payload_fields p @ [(''_delivery'', JObject [(''delivered'', JBool (wr_delivered r)),
     (''status'', wr_status r), (''attemptedAt'', JString (wr_attemptedAt r))])]"

lemma attempt_line_of: "attempt_line p r = line_of (attempt_fields p r)"
  by (simp only: attempt_line_def line_of_def attempt_fields_def)

lemma logged_trace:
  assumes "\<And>e. ht_log (snd (otherwise e)) = (case fst (otherwise e) of Inr r \<Rightarrow> [attempt_line p r] | Inl _ \<Rightarrow> [])"
  shows "ht_log (snd (logged w p posts i otherwise r))
    = (case fst (logged w p posts i otherwise r) of Inr r \<Rightarrow> [attempt_line p r] | Inl _ \<Rightarrow> [])"
  using assms by (simp add: logged_def split: option.splits)

lemma rejected_trace: "ht_log (snd (rejected posts e)) = (case fst (rejected posts e) of Inr r \<Rightarrow> [attempt_line p r] | Inl _ \<Rightarrow> [])"
  by (simp add: rejected_def)

lemma send_trace:
  "ht_log (snd (sent call)) = map (\<lambda>(p, r). attempt_line p r) (logged_attempt call)"
proof -
  obtain w c now p timeout where call: "call = (w, c, now, p, timeout)" by (cases call) auto
  show ?thesis
  proof (cases "gc_WEBHOOK_URL c = []")
    case True
    then show ?thesis by (simp add: call sent_def logged_attempt_def webhook_sendAlert_def Let_def)
  next
    case False
    have "ht_log (snd (webhook_sendAlert w c now p timeout))
        = (case fst (webhook_sendAlert w c now p timeout) of Inr r \<Rightarrow> [attempt_line p r] | Inl _ \<Rightarrow> [])"
      unfolding webhook_sendAlert_def Let_def using False
      by (simp add: logged_trace rejected_trace split: option.split sum.split)
    then show ?thesis using False by (simp add: call sent_def logged_attempt_def split: sum.splits)
  qed
qed

lemma logged_status:
  "(q, d) \<in> set (logged_attempt call) \<Longrightarrow> (\<exists>n. wr_status d = JNumber n) \<or> (\<exists>t. wr_status d = JString t)"
  by (cases call)
    (auto simp: logged_attempt_def sent_def webhook_sendAlert_def Let_def logged_def rejected_def answered_def caught_def
      split: option.splits sum.splits if_splits)

lemma relay_log_lines:
  "relay_log calls = concat (map line_of (map (\<lambda>(p, r). attempt_fields p r) (concat (map logged_attempt calls))))"
proof -
  have "concat (map (\<lambda>c. ht_log (snd (sent c))) calls) = map (\<lambda>(p, r). attempt_line p r) (concat (map logged_attempt calls))"
    by (simp add: send_trace map_concat comp_def)
  then show ?thesis unfolding relay_log_def by (simp add: attempt_line_of case_prod_beta' comp_def)
qed

lemma attempt_unique: "(q, d) \<in> set (logged_attempt call) \<Longrightarrow> unique_keys (JObject (attempt_fields q d))"
  using logged_status [of q d call] by (auto simp: attempt_fields_def payload_fields_def)

lemma attempt_revived:
  "revived (JObject (attempt_fields p r)) = JObject (payload_fields p @ [(''_delivery'', revived (JObject
     [(''delivered'', JBool (wr_delivered r)), (''status'', wr_status r), (''attemptedAt'', JString (wr_attemptedAt r))]))])"
  unfolding attempt_fields_def payload_fields_def
  by (subst revived_named) (simp_all add: is_digit_def)

text \<open>The names the scanner looks for, in a logged attempt.\<close>

definition shown_text :: "string \<Rightarrow> string" where "shown_text t = (if trim t = [] then ''unknown'' else t)"

lemma trim_nonempty: "trim t \<noteq> [] \<Longrightarrow> t \<noteq> []" by (auto simp: trim_def)

lemma attempt_event:
  "normalizeEvent sc (revived (JObject (attempt_fields p r))) n options = e \<Longrightarrow>
     el_line e = n \<and> el_eventType e = shown_text (ap_alert p) \<and> el_timestamp e = shown_text (ap_timestamp p)
     \<and> el_repository e = (if trim (ap_repository p) = [] then None else Some (ap_repository p)) \<and> el_actor e = None"
  unfolding attempt_revived payload_fields_def
  by (auto simp: normalizeEvent_def Let_def readString_def isRecord_def js_prop_def shown_text_def or_else_string_def nonempty_def
      simp del: revived.simps dest: trim_nonempty)

text \<open>
  C1. The relay log that the webhook sender writes is read back by the event scanner without loss: after any calls of
  \<open>sendAlert\<close>, whatever the texts in the payloads, the answers and the failures, scanning the log gives exactly one
  event per logged attempt, in order and numbered by its line, with the alert as its type and the time and
  repository of the payload; the raw value of the event is the logged object.\<close>

theorem relay_log_scanned:
  "let attempts = concat (map logged_attempt calls); events = events_of sc parsed (relay_log calls) options
   in map el_raw events = map (\<lambda>(p, r). revived (JObject (attempt_fields p r))) attempts
     \<and> map el_line events = [1 ..< Suc (length attempts)]
     \<and> map el_eventType events = map (\<lambda>(p, r). shown_text (ap_alert p)) attempts
     \<and> map el_timestamp events = map (\<lambda>(p, r). shown_text (ap_timestamp p)) attempts
     \<and> map el_repository events = map (\<lambda>(p, r). if trim (ap_repository p) = [] then None else Some (ap_repository p)) attempts"
proof -
  define attempts where "attempts = concat (map logged_attempt calls)"
  let ?fields = "\<lambda>(p, r). attempt_fields p r"
  have "list_all (\<lambda>ps. unique_keys (JObject ps)) (map ?fields attempts)"
    using attempt_unique by (force simp: list_all_iff attempts_def simp del: unique_keys.simps)
  then have ev: "events_of sc parsed (relay_log calls) options
      = map (\<lambda>(n, ps). normalizeEvent sc (revived (JObject ps)) n options) (enumerate 1 (map ?fields attempts))"
    unfolding relay_log_lines attempts_def [symmetric] by (rule events_of_log)
  have en: "map g (enumerate k (map f xs)) = map (\<lambda>(n, x). g (n, f x)) (enumerate k xs)" for g f k and xs :: "(AlertPayload \<times> WebhookDeliveryResult) list"
    by (induction xs arbitrary: k) auto
  define E where "E = (\<lambda>(n, p, r). normalizeEvent sc (revived (JObject (attempt_fields p r))) n options)"
  have ev: "events_of sc parsed (relay_log calls) options = map E (enumerate 1 attempts)"
    unfolding ev en E_def by (simp add: case_prod_beta del: revived.simps)
  have snds: "map (\<lambda>x. h (snd x)) (enumerate k xs) = map h xs" for h k and xs :: "(AlertPayload \<times> WebhookDeliveryResult) list"
    by (induction xs arbitrary: k) auto
  have E: "el_raw (E (n, p, r)) = revived (JObject (attempt_fields p r))" "el_line (E (n, p, r)) = n"
    "el_eventType (E (n, p, r)) = shown_text (ap_alert p)" "el_timestamp (E (n, p, r)) = shown_text (ap_timestamp p)"
    "el_repository (E (n, p, r)) = (if trim (ap_repository p) = [] then None else Some (ap_repository p))" for n p r
    unfolding E_def prod.case using attempt_event [OF refl, of sc p r n options] by (blast | simp add: normalizeEvent_def Let_def)+
  have line: "map el_line (map E (enumerate 1 attempts)) = map fst (enumerate 1 attempts)"
    unfolding list.map_comp by (rule map_cong) (auto simp: E)
  have ty: "map f (map E (enumerate 1 attempts)) = map h attempts" if "\<And>n p r. f (E (n, p, r)) = h (p, r)" for f :: "EventLogEntry \<Rightarrow> 'y" and h
    using that snds [of h 1 attempts, symmetric] unfolding list.map_comp by (auto intro!: map_cong)
  show ?thesis
    unfolding ev attempts_def [symmetric] Let_def line
    by (intro conjI ty) (simp_all add: E)
qed

section \<open>The page log\<close>

lemma page_line_of: "page_line p = line_of (page_fields p)"
  by (simp only: page_line_def line_of_def)

lemma page_unique: "unique_keys (JObject (page_fields p))"
  by (simp add: page_fields_def contact_value_def optional_text_def split: option.splits)

lemma page_revived:
  "revived (JObject (page_fields p)) = JObject [(''contact'', revived (contact_value (pp_contact p))), (''alert'', JString (pp_alert p)),
     (''severity'', JString (pp_severity p)), (''timestamp'', JString (pp_timestamp p)), (''repository'', JString (pp_repository p)),
     (''rotationId'', JNumber (Num (int (pp_rotationId p))))]"
  unfolding page_fields_def contact_value_def
  by (subst revived_named) (simp_all add: is_digit_def js_isFinite_def)

lemma severity_read: "normalizeSeverity (Some (severity_name s)) = Some s"
  by (cases s) (simp_all add: normalizeSeverity_def nonempty_def toUpperCase_def upper_char_def Let_def)

lemma severity_name_text: "trim (severity_name s) = severity_name s" "severity_name s \<noteq> []"
  by (cases s; simp add: trim_def is_ws_def)+

text \<open>A page is an event of the severity it was raised with.\<close>

lemma page_event:
  assumes "pp_severity p = severity_name s" "trim (pp_alert p) \<noteq> []"
  shows "el_severity (normalizeEvent sc (revived (JObject (page_fields p))) n options) = s
    \<and> el_eventType (normalizeEvent sc (revived (JObject (page_fields p))) n options) = pp_alert p
    \<and> (if HIGH \<le> s then el_sensitive (normalizeEvent sc (revived (JObject (page_fields p))) n options) else True)"
proof -
  have a: "el_severity (normalizeEvent sc (revived (JObject (page_fields p))) n options) = s"
    unfolding page_revived
    by (simp add: normalizeEvent_def Let_def readString_def isRecord_def js_prop_def assms(1) severity_name_text severity_read)
  have b: "el_eventType (normalizeEvent sc (revived (JObject (page_fields p))) n options) = pp_alert p"
    unfolding page_revived using assms(2) trim_nonempty [OF assms(2)]
    by (simp add: normalizeEvent_def Let_def readString_def isRecord_def js_prop_def or_else_string_def nonempty_def)
  have c: "HIGH \<le> el_severity (normalizeEvent sc v n options) \<Longrightarrow> el_sensitive (normalizeEvent sc v n options)" for v
    using not_le [of HIGH LOW] not_le [of HIGH MEDIUM]
    by (cases "el_severity (normalizeEvent sc v n options)") (auto simp: normalizeEvent_def Let_def less_Severity_def)
  show ?thesis
  proof (cases "HIGH \<le> s")
    case True
    then show ?thesis using c [of "revived (JObject (page_fields p))"] unfolding a b if_P [OF True] by blast
  next
    case False
    then show ?thesis unfolding a b if_not_P [OF False] by blast
  qed
qed

lemma page_log_events:
  "events_of sc parsed (concat (map page_line ps)) options
     = map (\<lambda>(n, p). normalizeEvent sc (revived (JObject (page_fields p))) n options) (enumerate 1 ps)"
proof -
  have en: "map g (enumerate k (map f xs)) = map (\<lambda>(n, x). g (n, f x)) (enumerate k xs)" for g f k and xs :: "PagePayload list"
    by (induction xs arbitrary: k) auto
  have "list_all (\<lambda>ps. unique_keys (JObject ps)) (map page_fields ps)" using page_unique by (simp add: list_all_iff del: unique_keys.simps)
  from events_of_log [OF this, of sc options] show ?thesis
    unfolding en page_line_of [abs_def] by (simp add: comp_def)
qed

lemma incident_message_text: "trim (incident_message i) \<noteq> []"
  unfolding trim_Nil_iff by (simp add: incident_message_def is_ws_def)

lemma scanned_events: "scanText sc parse now (JString t) options = Inr r \<Longrightarrow> er_events r = events_of sc parse t options"
  by (auto simp: scanText_def Let_def split: sum.splits)

lemma escalated_log:
  assumes "getCurrentOnCall add_days (case inst of None \<Rightarrow> made | Some r \<Rightarrow> r) = Inr onCall"
    and "hw_mkdir w = None" "\<And>i. i < 3 \<Longrightarrow> hw_append w i = None"
    and "escalateIncident w c add_days now made inst incident t = (err, inst', t')"
  shows "pt_log t' = pt_log t @ map page_line
    (on_call_pages now onCall (incident_message incident) (severity_name (in_severity incident)) (in_repository incident))"
proof -
  let ?r = "case inst of None \<Rightarrow> made | Some r \<Rightarrow> r"
  let ?m = "incident_message incident" and ?s = "severity_name (in_severity incident)" and ?p = "in_repository incident"
  let ?pages = "on_call_pages now onCall ?m ?s ?p"
  have "deliver_pages (page_write w) 0 ?pages = (None, ?pages)"
    using assms(2,3) by (intro deliver_pages_all) (simp add: on_call_pages_def page_write_def)
  then have "pageCurrentOnCall add_days (page_write w) now ?r ?m ?s ?p = (None, ?pages)"
    using assms(1) by (simp add: pageCurrentOnCall_def on_call_pages_def)
  then show ?thesis
    using page_on_call_refines [of add_days w now ?r ?m ?s ?p c "say (''[IRP] Escalating incident: '' @ ?m) t"] assms(4)
    by (auto simp: escalateIncident_def getRoster_def say_def Let_def on_call_pages_def split: option.splits prod.splits)
qed

text \<open>The events of later pages follow those of the earlier ones.\<close>

lemma page_log_tail:
  assumes "\<And>q. q \<in> set pages \<Longrightarrow> pp_severity q = severity_name s \<and> pp_alert q = m" "trim m \<noteq> []" "HIGH \<le> s"
  shows "\<exists>later. events_of sc parsed (concat (map page_line (earlier @ pages))) options
       = events_of sc parsed (concat (map page_line earlier)) options @ later
     \<and> map (\<lambda>e. (el_eventType e, el_severity e, el_sensitive e)) later = replicate (length pages) (m, s, True)"
proof -
  define E where "E = (\<lambda>(n, p). normalizeEvent sc (revived (JObject (page_fields p))) n options)"
  have E: "(el_eventType (E (n, q)), el_severity (E (n, q)), el_sensitive (E (n, q))) = (m, s, True)" if "q \<in> set pages" for n q
    using page_event [of q s sc n options] assms(1) [OF that] assms(2,3) unfolding E_def prod.case by metis
  have "map (\<lambda>e. (el_eventType e, el_severity e, el_sensitive e)) (map E (enumerate k pages)) = replicate (length pages) (m, s, True)" for k
    using E by (intro replicate_eqI) (auto simp: in_set_enumerate_eq)
  moreover have "enumerate n (xs @ ys) = enumerate n xs @ enumerate (n + length xs) ys" for n and xs ys :: "PagePayload list"
    by (simp add: enumerate_append_eq)
  ultimately show ?thesis unfolding page_log_events E_def [symmetric] by auto
qed

text \<open>
  C1. An escalation can be found again: when the pages of an incident of severity HIGH or CRITICAL have been logged
  after any earlier pages, the scan of the page log has, after the events of the earlier pages, exactly three more,
  with the message and the severity of the incident and all sensitive; and the \<open>scan-events\<close> command on that file
  does not exit with 0.\<close>

theorem escalation_found_by_scan:
  assumes "getCurrentOnCall add_days (case inst of None \<Rightarrow> made | Some r \<Rightarrow> r) = Inr onCall"
    and "hw_mkdir w = None" "\<And>i. i < 3 \<Longrightarrow> hw_append w i = None"
    and "escalateIncident w c add_days now made inst incident t = (err, inst', t')"
    and "pt_log t = map page_line earlier" "HIGH \<le> in_severity incident"
    and "cw_files cw (chosen (cw_env cw ''EVENT_LOG_FILE'') (arg_at 0 rest) ''./logs/relay-events.log'') = Some (Inr (concat (pt_log t')))"
    and "cw_parse cw = parsed"
  shows "map (\<lambda>e. (el_eventType e, el_severity e, el_sensitive e)) (drop (length earlier) (events_of sc parsed (concat (pt_log t')) options))
       = replicate 3 (incident_message incident, in_severity incident, True)
    \<and> take (length earlier) (events_of sc parsed (concat (pt_log t')) options) = events_of sc parsed (concat (pt_log t)) options
    \<and> \<not> exits_zero cw (''scan-events'' # rest)"
proof -
  let ?pages = "on_call_pages now onCall (incident_message incident) (severity_name (in_severity incident)) (in_repository incident)"
  have log: "pt_log t' = map page_line (earlier @ ?pages)" using escalated_log [OF assms(1-4)] assms(5) by simp
  have three: "length ?pages = 3" by (simp add: on_call_pages_def)
  have page: "pp_severity q = severity_name (in_severity incident) \<and> pp_alert q = incident_message incident" if "q \<in> set ?pages" for q
    using that by (auto simp: on_call_pages_def)
  have later: "\<exists>later. events_of sc parsed (concat (pt_log t')) options = events_of sc parsed (concat (pt_log t)) options @ later
    \<and> map (\<lambda>e. (el_eventType e, el_severity e, el_sensitive e)) later = replicate 3 (incident_message incident, in_severity incident, True)"
    for sc options
    unfolding log assms(5) three [symmetric] by (rule page_log_tail [OF page incident_message_text assms(6)])
  have old: "length (events_of sc parsed (concat (pt_log t)) options) = length earlier"
    unfolding assms(5) page_log_events by simp
  have "\<not> exits_zero cw (''scan-events'' # rest)"
  proof
    assume "exits_zero cw (''scan-events'' # rest)"
    then obtain path r where r: "scanText (new_event_scanner None None) parsed (cw_now cw) (JString (concat (pt_log t'))) \<lparr>eo_source = Some path, eo_scannedAt = None\<rparr> = Inr r"
      "\<not> (\<exists>e \<in> set (er_events r). HIGH \<le> el_severity e)"
      using assms(7,8) by (auto simp: exits_zero_iff dispatch_named scanEvents_zero Let_def)
    obtain new where new: "er_events r = events_of (new_event_scanner None None) parsed (concat (pt_log t)) \<lparr>eo_source = Some path, eo_scannedAt = None\<rparr> @ new"
      "map (\<lambda>e. (el_eventType e, el_severity e, el_sensitive e)) new = replicate 3 (incident_message incident, in_severity incident, True)"
      using later [of "new_event_scanner None None" "\<lparr>eo_source = Some path, eo_scannedAt = None\<rparr>"] scanned_events [OF r(1)] by auto
    then obtain e es where "new = e # es" "el_severity e = in_severity incident" by (cases new) (auto simp: numeral_3_eq_3)
    then show False using r(2) assms(6) new(1) by auto
  qed
  moreover obtain later' where "events_of sc parsed (concat (pt_log t')) options = events_of sc parsed (concat (pt_log t)) options @ later'"
    "map (\<lambda>e. (el_eventType e, el_severity e, el_sensitive e)) later' = replicate 3 (incident_message incident, in_severity incident, True)"
    using later by blast
  ultimately show ?thesis using old by simp
qed

theorem escalation_found_by_scan_witness:
  "case escalateIncident quiet_world quiet_config (\<lambda>_ s. s) 0 quiet_roster None
       \<lparr>in_severity = HIGH, in_title = ''t'', in_description = ''d'', in_repository = ''r''\<rparr> \<lparr>pt_log = [], pt_console = [], pt_posts = []\<rparr> of
     (err, inst, t) \<Rightarrow>
       length (events_of (new_event_scanner None None) parsed (concat (pt_log t)) \<lparr>eo_source = None, eo_scannedAt = None\<rparr>) = 3
       \<and> (\<forall>cw. \<not> exits_zero (cw\<lparr>cw_env := (\<lambda>n. None), cw_files := (\<lambda>p. Some (Inr (concat (pt_log t)))), cw_parse := parsed\<rparr>) [''scan-events''])"
proof -
  let ?i = "\<lparr>in_severity = HIGH, in_title = ''t'', in_description = ''d'', in_repository = ''r''\<rparr>"
  let ?t = "\<lparr>pt_log = [], pt_console = [], pt_posts = []\<rparr>"
  let ?o = "\<lparr>eo_source = None, eo_scannedAt = None\<rparr>"
  obtain onCall where o: "getCurrentOnCall (\<lambda>_ s. s) (case None of None \<Rightarrow> quiet_roster | Some r \<Rightarrow> r) = Inr onCall"
    by (simp add: getCurrentOnCall_def quiet_roster_def new_roster_def autoRotate_def getDayOfRotation_def loadState_def
        defaultRotationInterval_def valid_time_def Let_def)
  obtain err inst t where e: "escalateIncident quiet_world quiet_config (\<lambda>_ s. s) 0 quiet_roster None ?i ?t = (err, inst, t)"
    by (metis prod_cases3)
  have q: "hw_mkdir quiet_world = None" "hw_append quiet_world i = None" for i by (simp_all add: quiet_world_def)
  have found: "map (\<lambda>e. (el_eventType e, el_severity e, el_sensitive e)) (drop (length ([] :: PagePayload list)) (events_of (new_event_scanner None None) parsed (concat (pt_log t)) ?o))
       = replicate 3 (incident_message ?i, in_severity ?i, True)
    \<and> take (length ([] :: PagePayload list)) (events_of (new_event_scanner None None) parsed (concat (pt_log t)) ?o) = events_of (new_event_scanner None None) parsed (concat (pt_log ?t)) ?o
    \<and> \<not> exits_zero (cw\<lparr>cw_env := (\<lambda>n. None), cw_files := (\<lambda>p. Some (Inr (concat (pt_log t)))), cw_parse := parsed\<rparr>) [''scan-events'']" for cw
    by (rule escalation_found_by_scan [OF o q e]) simp_all
  have "length (map (\<lambda>e. (el_eventType e, el_severity e, el_sensitive e)) (events_of (new_event_scanner None None) parsed (concat (pt_log t)) ?o)) = 3"
    using found by simp
  then show ?thesis using found unfolding e by simp
qed

end
