(* ===== verification/Stored_Files.thy ===== *)
theory Stored_Files
  imports Pr_Extraction Service_Edges
begin

text \<open>
  The files a component reads back, as texts: the counter of \<open>report-version.ts\<close>, the manifest of
  \<open>policy-bundle-cli.ts\<close> and \<open>policy-bundle-verifier.ts\<close>, the scan reports of \<open>diff-engine.ts\<close> that the security gate
  reads too. \<open>JSON.parse\<close> is the parser of \<open>Js_Parse\<close>, so nothing is assumed of it; a file that holds a number with
  a fraction counts as one that cannot be parsed.
\<close>

section \<open>The counter of report versions\<close>

text \<open>The content of the counter file, as the code gets it, and one call of \<open>getNextReportVersion\<close> on the file.\<close>

definition version_content :: "(string + string) option \<Rightarrow> version_file" where
  "version_content f =
     (case f of
        None \<Rightarrow> None
      | Some (Inl e) \<Rightarrow> Some (Inl e)
      | Some (Inr content) \<Rightarrow> Some (case JSON_parse content of Inl _ \<Rightarrow> Inl ''SyntaxError'' | Inr v \<Rightarrow> Inr v))"

definition next_version_on_disk :: "bool \<Rightarrow> (string + string) option \<Rightarrow> jsval \<times> (string + string) option" where
  "next_version_on_disk writable f =
     (let version = read_version (version_content f)
      in (version, if writable then Some (Inr (json_indent (JObject [(''version'', version)]))) else f))"

primrec disk_versions :: "nat \<Rightarrow> (string + string) option \<Rightarrow> jsval list" where
  "disk_versions 0 f = []"
| "disk_versions (Suc n) f = (case next_version_on_disk True f of (v, f') \<Rightarrow> v # disk_versions n f')"

lemma read_version_form: "(\<exists>n. read_version f = JNumber n) \<or> (\<exists>t. read_version f = JString t)"
  by (auto simp: read_version_def plus_one_def Let_def split: option.splits sum.splits jsval.splits)

lemma version_text_content:
  "version_content (Some (Inr (json_indent (JObject [(''version'', read_version g)])))) = Some (Inr (JObject [(''version'', stored_version (read_version g))]))"
proof -
  have "unique_keys (JObject [(''version'', read_version g)])" using read_version_form [of g] by auto
  moreover have "revived (JObject [(''version'', read_version g)]) = JObject [(''version'', stored_version (read_version g))]"
    by (subst revived_named) (use read_version_form [of g] in \<open>auto simp: is_digit_def stored_version_def js_isFinite_def split: jsnum.splits\<close>)
  ultimately show ?thesis by (simp only: version_content_def option.case sum.case JSON_parse_indent)
qed

text \<open>
  C1. The counter file refines the counter: reading, counting and writing on the text of the file is the counting on
  its content, for any file, readable or not, JSON or not; so the versions a sequence of reports gets are those of
  the abstract counter, and consecutive from whatever number the file holds.\<close>

theorem version_file_refined:
  "map_prod id version_content (next_version_on_disk writable f) = getNextReportVersion writable (version_content f)
   \<and> disk_versions n f = report_versions n (version_content f)"
proof -
  have step: "map_prod id version_content (next_version_on_disk b g) = getNextReportVersion b (version_content g)" for b g
    using version_text_content by (simp add: next_version_on_disk_def getNextReportVersion_def Let_def)
  have "disk_versions n f = report_versions n (version_content f)"
  proof (induction n arbitrary: f)
    case (Suc n)
    show ?case using step [of True f, symmetric] Suc by (simp add: case_prod_beta map_prod_def)
  qed simp
  then show ?thesis using step by blast
qed

section \<open>The manifest of the policy bundle\<close>

text \<open>What \<open>regenerate\<close> writes, and what the verifier's \<open>JSON.parse\<close> makes of a text.\<close>

definition manifest_text :: "jsval \<Rightarrow> string" where "manifest_text v = json_indent v @ [CHR 0x0A]"

definition manifest_content :: "string \<Rightarrow> string + jsval" where
  "manifest_content raw = (case JSON_parse raw of Inl _ \<Rightarrow> Inl ''Unexpected token'' | Inr v \<Rightarrow> Inr v)"

lemma manifest_read_back:
  assumes "finite_manifest m"
  shows "manifest_content (manifest_text (manifest_json m)) = Inr (manifest_json m)"
proof -
  have p: "json_plain (manifest_json m)"
    using assms by (auto simp: finite_manifest_def manifest_json_def entry_json_def is_array_index_def is_digit_def list_all_iff)
  have u: "unique_keys (manifest_json m)"
    by (simp add: manifest_json_def entry_json_def list_all_iff)
  have "JSON_parse ([] @ json_indent (manifest_json m) @ [CHR 0x0A]) = Inr (revived (manifest_json m))"
    unfolding json_indent_def by (rule JSON_parse_text [OF json_indent_value_text [OF u]]) (simp_all add: blank_def is_json_ws_def)
  then show ?thesis using revived_plain [OF p] by (simp add: manifest_content_def manifest_text_def)
qed

lemma map_sum_Inr: "map_sum id g x = Inr y \<longleftrightarrow> (\<exists>z. x = Inr z \<and> y = g z)"
  by (cases x) auto

lemma computed_finite: "computeBundleManifest w dir exts = Inr m \<Longrightarrow> finite_manifest m"
proof -
  have "list_all (\<lambda>f. js_isFinite (pf_bytes f)) es" if "file_entries w fs = Inr es" for fs es
    using that by (induction w fs arbitrary: es rule: file_entries.induct)
      (auto simp: js_isFinite_def map_sum_Inr split: fs_node.splits)
  then show "computeBundleManifest w dir exts = Inr m \<Longrightarrow> finite_manifest m"
    by (auto simp: computeBundleManifest_def finite_manifest_def js_isFinite_def Let_def split: option.splits sum.splits if_splits fs_node.splits)
qed

text \<open>
  C1. Signing, storing and verifying a policy bundle succeeds through the files: when the manifest file holds the text
  that \<open>regenerate\<close> printed, the detached signature was made by \<open>sign\<close> with the key of a trusted signer, and keys verify
  what they signed, the \<open>verify\<close> command succeeds, whatever other signers are trusted.\<close>

theorem bundle_file_roundtrip:
  assumes "bundle_main w fromSecret default_manifest (Some secret) dir now (Some ''sign'')
      = \<lparr>bc_exit = 0, bc_written = None, bc_printed = Some (digest, pub, sig)\<rparr>"
    and "bc_written (bundle_main w' fromSecret default_manifest None dir now (Some ''regenerate'')) = Some stored"
    and "bw_tree w' = bw_tree w" and "bw_sha256 w' = bw_sha256 w"
    and "bw_manifest w (default_manifest dir) = Some (Inr (manifest_content (manifest_text stored)))"
    and "bw_SIGNATURE w = Some sig" and "bw_SIGNERS w = Some signers"
    and "pub \<in> set (map trim (split_on CHR '','' signers))" and "pub \<noteq> []" and "dir \<noteq> []"
    and keys: "\<And>s p sign payload. fromSecret s = Some (p, sign) \<Longrightarrow>
      bytes (sign payload) \<and> sign payload \<noteq> [] \<and> bw_verify w p payload (sign payload) = Some True"
  shows "bc_exit (bundle_main w fromSecret default_manifest None dir now' (Some ''verify'')) = 0"
proof -
  obtain m where "computeBundleManifest w' dir [''.rego''] = Inr m" "stored = manifest_json m"
    using assms(2) by (auto simp: bundle_main_def regenerate_def split: sum.splits)
  then have "manifest_content (manifest_text stored) = Inr stored" using manifest_read_back computed_finite by blast
  then have on_disk: "bw_manifest w (default_manifest dir) = Some (Inr (Inr stored))" using assms(5) by simp
  show ?thesis by (rule sign_then_verify [OF assms(1-4) on_disk assms(6-10)]) (rule keys)
qed

theorem bundle_file_roundtrip_witness:
  "bc_exit (bundle_main demo_bundle demo_secret (\<lambda>d. d) None ''p'' 0 (Some ''verify'')) = 0"
proof -
  let ?m = "\<lparr>pm_version = Num 1, pm_algorithm = ''sha256'',
       pm_files = [\<lparr>pf_path = ''a.rego'', pf_sha256 = ''07'', pf_bytes = Num 1\<rparr>], pm_bundle_digest = ''5b''\<rparr>"
  have c: "manifest_content (manifest_text (manifest_json ?m)) = Inr (manifest_json ?m)"
    by (rule manifest_read_back) (simp add: finite_manifest_def js_isFinite_def)
  show ?thesis
    by (rule bundle_file_roundtrip [where w' = demo_bundle and secret = "''s''" and now = 0 and digest = "''5b''"
          and pub = "''G''" and sig = "''01''" and signers = "''G''" and stored = "manifest_json ?m"])
      (simp_all only: c, simp_all add: bundle_main_def cli_sign_def regenerate_def demo_manifest demo_secret_def signBundleManifest_def
        demo_digits, simp_all add: demo_bundle_def trim_def is_ws_def bytes_def)
qed

section \<open>Stored scan reports\<close>

text \<open>The value of a report, and the report that a value of the declared shape is.\<close>

definition finding_value :: "DiffFinding \<Rightarrow> jsval" where
  "finding_value f = JObject [(''file'', JString (df_file f)), (''line'', opt_json (\<lambda>i. JNumber (Num i)) (df_line f)),
     (''rule'', opt_json JString (df_rule f)), (''severity'', opt_json JString (df_severity f)), (''snippet'', opt_json JString (df_snippet f))]"

definition report_value :: "ScanReport \<Rightarrow> jsval" where
  "report_value r = JObject [(''target'', opt_json JString (sr_target r)),
     (''total_files'', opt_json (\<lambda>n. JNumber (Num (int n))) (sr_total_files r)),
     (''findings'', JArray (map finding_value (sr_findings r))), (''report_hash'', opt_json JString (sr_report_hash r))]"

fun as_nat :: "jsval \<Rightarrow> nat option" where
  "as_nat (JNumber (Num i)) = (if 0 \<le> i then Some (nat i) else None)"
| "as_nat _ = None"

definition read_finding :: "jsval \<Rightarrow> DiffFinding option" where
  "read_finding v =
     (case (as_string (js_get v ''file''), optional as_int (js_get v ''line''), optional as_string (js_get v ''rule''),
            optional as_string (js_get v ''severity''), optional as_string (js_get v ''snippet'')) of
        (Some f, Some l, Some r, Some s, Some t) \<Rightarrow>
          Some \<lparr>df_file = f, df_line = l, df_rule = r, df_severity = s, df_snippet = t\<rparr>
      | _ \<Rightarrow> None)"

definition read_report :: "jsval \<Rightarrow> ScanReport option" where
  "read_report v =
     (case (optional as_string (js_get v ''target''), optional as_nat (js_get v ''total_files''),
            as_list read_finding (js_get v ''findings''), optional as_string (js_get v ''report_hash'')) of
        (Some t, Some n, Some fs, Some h) \<Rightarrow> Some \<lparr>sr_target = t, sr_total_files = n, sr_findings = fs, sr_report_hash = h\<rparr>
      | _ \<Rightarrow> None)"

definition report_text :: "ScanReport \<Rightarrow> string" where "report_text r = json_indent (report_value r)"

definition report_of_text :: "string \<Rightarrow> ScanReport option" where
  "report_of_text content = Option.bind (parsed content) read_report"

lemma opt_json_revived:
  "(if opt_json f x = JUndefined then JUndefined else revived (opt_json f x)) = opt_json (\<lambda>v. revived (f v)) x"
  if "\<And>v. f v \<noteq> JUndefined"
  using that by (cases x) (auto simp: opt_json_def)

lemma opt_json_defined: "(\<And>v. f v \<noteq> JUndefined) \<Longrightarrow> (\<And>v. as (f v) = Some v) \<Longrightarrow> optional as (opt_json f x) = Some x"
  by (cases x) (auto simp: optional_def opt_json_def)

lemma finding_fields:
  "js_get (revived (finding_value f)) ''file'' = JString (df_file f)"
  "js_get (revived (finding_value f)) ''line'' = opt_json (\<lambda>i. JNumber (Num i)) (df_line f)"
  "js_get (revived (finding_value f)) ''rule'' = opt_json JString (df_rule f)"
  "js_get (revived (finding_value f)) ''severity'' = opt_json JString (df_severity f)"
  "js_get (revived (finding_value f)) ''snippet'' = opt_json JString (df_snippet f)"
  unfolding finding_value_def
  by (subst js_get_revived; simp add: js_prop_def opt_json_def js_isFinite_def split: option.split)+

lemma report_fields:
  "js_get (revived (report_value r)) ''target'' = opt_json JString (sr_target r)"
  "js_get (revived (report_value r)) ''total_files'' = opt_json (\<lambda>n. JNumber (Num (int n))) (sr_total_files r)"
  "js_get (revived (report_value r)) ''findings'' = JArray (map (\<lambda>f. revived (finding_value f)) (sr_findings r))"
  "js_get (revived (report_value r)) ''report_hash'' = opt_json JString (sr_report_hash r)"
  "js_get (revived (report_value r)) ''governance_findings'' = JUndefined"
  unfolding report_value_def
  by (subst js_get_revived; simp add: js_prop_def opt_json_def js_isFinite_def comp_def split: option.split)+

lemma read_finding_back: "read_finding (revived (finding_value f)) = Some f"
  unfolding read_finding_def finding_fields by (simp add: opt_json_defined)

lemma read_report_back: "read_report (revived (report_value r)) = Some r"
proof -
  have "as_list read_finding (JArray (map (\<lambda>f. revived (finding_value f)) (sr_findings r))) = Some (sr_findings r)"
    using all_of_map [of "sr_findings r" read_finding "\<lambda>f. revived (finding_value f)" id] read_finding_back by simp
  then show ?thesis unfolding read_report_def report_fields by (simp add: opt_json_defined)
qed

lemma unique_report: "unique_keys (report_value r)"
  by (auto simp: report_value_def finding_value_def opt_json_def list_all_iff split: option.splits)

lemma report_of_report_text: "parsed (report_text r) = Some (revived (report_value r))" "report_of_text (report_text r) = Some r"
  using parsed_indent [OF unique_report] read_report_back by (simp_all add: report_text_def report_of_text_def)

text \<open>Nothing drifts against the same findings.\<close>

lemma no_drift_against_itself: "\<not> dr_drift_detected (compare_reports r (Some r))"
  using drift_report_exact [of r r] by (auto simp: Let_def isModified_def)

definition finding_passes :: "jsnum \<Rightarrow> DiffFinding \<Rightarrow> bool" where
  "finding_passes threshold f =
     (case (df_severity f, threshold) of
        (Some s, Num t) \<Rightarrow> (case SEVERITY_RANK (toUpperCase s) of Some k \<Rightarrow> k \<le> t | None \<Rightarrow> False)
      | _ \<Rightarrow> False)"

lemma finding_within: "within_threshold threshold (revived (finding_value f)) \<longleftrightarrow> finding_passes threshold f"
  unfolding within_threshold_def finding_fields
  by (cases threshold; cases "df_severity f") (auto simp: finding_passes_def opt_json_def split: option.splits)

text \<open>
  C1. A scan report survives its file: what \<open>saveCurrentReport\<close> writes, \<open>loadPreviousReport\<close> reads back as the same
  report, against which the report has no drift; and the security gate on the stored text passes exactly when the
  report names an analysed target and every finding has a known severity within the threshold. Whatever else the
  directory holds is left alone.\<close>

theorem stored_report_roundtrip:
  "case saveCurrentReport report_text None f latest r p of
     Inl _ \<Rightarrow> False
   | Inr f' \<Rightarrow>
       loadPreviousReport report_of_text f' latest p = Some r
       \<and> \<not> dr_drift_detected (compare_reports r (loadPreviousReport report_of_text f' latest p))
       \<and> f'(report_path latest p := f (report_path latest p)) = f
       \<and> (\<exists>content. f' (report_path latest p) = Some (Inr content)
          \<and> ((\<exists>g. evaluateSecurityGateFromJson (parsed content) threshold = Inr g \<and> sg_passed g) \<longleftrightarrow>
              (\<exists>t. sr_target r = Some t \<and> trim t \<noteq> [] \<and> trim t \<noteq> ''N/A'') \<and> list_all (finding_passes threshold) (sr_findings r)))"
proof -
  let ?v = "revived (report_value r)"
  have e: "(\<exists>g. evaluateSecurityGate ?v threshold = Inr g \<and> sg_passed g) \<longleftrightarrow> list_all (finding_passes threshold) (sr_findings r)"
    unfolding evaluateSecurityGate_passes [OF report_fields(3)] report_fields(5)
    by (simp add: array_or_empty_def is_nullish_def list_all_iff finding_within)
  have "\<not> is_nullish ?v" by (simp add: report_value_def is_nullish_def)
  then have "(\<exists>g. evaluateSecurityGateFromJson (Some ?v) threshold = Inr g \<and> sg_passed g) \<longleftrightarrow>
      (\<exists>t. sr_target r = Some t \<and> trim t \<noteq> [] \<and> trim t \<noteq> ''N/A'') \<and> list_all (finding_passes threshold) (sr_findings r)"
    using e report_fields(1,3) [of r]
    by (cases "sr_target r") (auto simp: evaluateSecurityGateFromJson_def opt_json_def blocked_def)
  then show ?thesis
    by (simp add: saveCurrentReport_def loadPreviousReport_def report_of_report_text no_drift_against_itself)
qed

end
