(* ===== verification/Js_Date.thy ===== *)
theory Js_Date
  imports Js_Json
begin

text \<open>
  \<open>new Date(text)\<close> on the texts that \<open>toISOString\<close> writes, and the proof that it reads back the time. The language leaves
  other texts to the implementation; they are an argument.
\<close>

section \<open>Dates of the calendar\<close>

definition days_from_civil :: "int \<Rightarrow> int \<Rightarrow> int \<Rightarrow> int" where
  "days_from_civil y m d =
     (let y1 = (if m \<le> 2 then y - 1 else y);
          era = y1 div 400;
          yoe = y1 mod 400;
          mp = (m + 9) mod 12;
          doy = (153 * mp + 2) div 5 + d - 1;
          doe = yoe * 365 + yoe div 4 - yoe div 100 + doy
      in era * 146097 + doe - 719468)"

text \<open>A day of an era of 400 years, by century, four-year cycle, year and day of the year.\<close>

lemma era_parts:
  fixes doe :: int
  assumes "0 \<le> doe" "doe < 146096"
  obtains c q r s where "doe = 36524 * c + 1461 * q + 365 * r + s" "0 \<le> c" "c \<le> 3" "0 \<le> q" "q \<le> 24" "0 \<le> r" "r \<le> 3"
    "0 \<le> s" "s \<le> 365" "s = 365 \<longrightarrow> r = 3 \<and> q < 24"
proof -
  define c where "c = doe div 36524"
  define a where "a = doe mod 36524"
  define q where "q = a div 1461"
  define b where "b = a mod 1461"
  define r where "r = min (b div 365) 3"
  define s where "s = b - 365 * r"
  have c: "doe = 36524 * c + a" "0 \<le> a" "a < 36524" by (simp_all add: c_def a_def)
  have q: "a = 1461 * q + b" "0 \<le> b" "b < 1461" by (simp_all add: q_def b_def)
  have d: "b = 365 * (b div 365) + b mod 365" "0 \<le> b mod 365" "b mod 365 < 365" by simp_all
  have "0 \<le> b div 365" "b div 365 \<le> 4" using q(2,3) d by linarith+
  then have r: "0 \<le> r" "r \<le> 3" by (simp_all add: r_def)
  have "s = b mod 365 \<or> r = 3 \<and> s = b - 1095 \<and> b div 365 = 4"
    using \<open>0 \<le> b div 365\<close> \<open>b div 365 \<le> 4\<close> by (auto simp: s_def r_def min_def minus_mult_div_eq_mod)
  then have s: "0 \<le> s" "s \<le> 365" "s = 365 \<longrightarrow> r = 3 \<and> b = 1460" using d q(3) by auto
  show thesis
  proof (rule that)
    show "doe = 36524 * c + 1461 * q + 365 * r + s" using c(1) q(1) by (simp add: s_def)
    show "0 \<le> c" "c \<le> 3" "0 \<le> q" "q \<le> 24" using assms c q by linarith+
    show "s = 365 \<longrightarrow> r = 3 \<and> q < 24" using s(3) c(3) q(1) by linarith
  qed (use r s in simp_all)
qed

lemma div_eqI: "(0 :: int) \<le> x - k * n \<Longrightarrow> x - k * n < n \<Longrightarrow> x div n = k"
proof -
  assume a: "0 \<le> x - k * n" "x - k * n < n"
  then have "n \<noteq> 0" by auto
  define e where "e = x - k * n"
  have x: "x = e + k * n" by (simp add: e_def)
  have "e div n = 0" using a by (simp add: e_def div_pos_pos_trivial)
  then show ?thesis unfolding x using \<open>n \<noteq> 0\<close> by simp
qed

lemma div_parts: "(x :: int) = n * (x div n) + x mod n" by simp
text \<open>The year of the era and the day of the year of a day of the era.\<close>

lemma era_year:
  fixes doe :: int
  assumes "0 \<le> doe" "doe \<le> 146096"
  defines "yoe \<equiv> (doe - doe div 1460 + doe div 36524 - doe div 146096) div 365"
  shows "0 \<le> yoe \<and> yoe \<le> 399 \<and> 0 \<le> doe - (365 * yoe + yoe div 4 - yoe div 100) \<and> doe - (365 * yoe + yoe div 4 - yoe div 100) \<le> 365"
proof (cases "doe = 146096")
  case True
  then show ?thesis by (simp add: yoe_def)
next
  case False
  then have lt: "doe < 146096" using assms(2) by simp
  obtain c q r s where p: "doe = 36524 * c + 1461 * q + 365 * r + s" "0 \<le> c" "c \<le> 3" "0 \<le> q" "q \<le> 24" "0 \<le> r" "r \<le> 3"
    "0 \<le> s" "s \<le> 365" "s = 365 \<longrightarrow> r = 3 \<and> q < 24"
    by (rule era_parts [OF assms(1) lt])
  have c36: "doe div 36524 = c" using p by (intro div_eqI) linarith+
  have c14: "doe div 146096 = 0" using assms(1) lt by simp
  define e where "e = (if 24 * c + q + 365 * r + s < 1460 then 0 else 1 :: int)"
  have c1: "doe div 1460 = 25 * c + q + e" using p by (intro div_eqI) (simp_all add: e_def)
  have "yoe = 100 * c + 4 * q + r"
  proof -
    have "doe - doe div 1460 + doe div 36524 - doe div 146096 = 365 * (100 * c + 4 * q + r) + (s - e)"
      unfolding c36 c14 c1 using p(1) by simp
    moreover have "0 \<le> s - e" "s - e < 365" using p by (auto simp: e_def)
    ultimately show ?thesis unfolding yoe_def by (intro div_eqI) simp_all
  qed
  moreover have "(100 * c + 4 * q + r) div 4 = 25 * c + q" using p by (intro div_eqI) simp_all
  moreover have "(100 * c + 4 * q + r) div 100 = c" using p by (intro div_eqI) simp_all
  ultimately show ?thesis using p by simp
qed

lemma civil_inverse:
  assumes "civil_from_days z = (y, m, d)"
  shows "days_from_civil y m d = z \<and> 1 \<le> m \<and> m \<le> 12 \<and> 1 \<le> d \<and> d \<le> 31"
proof -
  define n where "n = z + 719468"
  define era where "era = n div 146097"
  define doe where "doe = n mod 146097"
  define yoe where "yoe = (doe - doe div 1460 + doe div 36524 - doe div 146096) div 365"
  define doy where "doy = doe - (365 * yoe + yoe div 4 - yoe div 100)"
  define mp where "mp = (5 * doy + 2) div 153"
  have doe: "0 \<le> doe" "doe \<le> 146096" "n = 146097 * era + doe" by (simp_all add: doe_def era_def)
  have yd: "0 \<le> yoe" "yoe \<le> 399" "0 \<le> doy" "doy \<le> 365" using era_year [OF doe(1,2)] unfolding yoe_def doy_def by auto
  define t where "t = (5 * doy + 2) mod 153"
  have mt: "5 * doy + 2 = 153 * mp + t" unfolding mp_def t_def by (rule div_parts)
  have t: "0 \<le> t" "t < 153" by (simp_all add: t_def)
  have mp: "0 \<le> mp" "mp \<le> 11" using mt t yd(3,4) by linarith+
  have "civil_from_days z = (yoe + era * 400 + (if (if mp < 10 then mp + 3 else mp - 9) \<le> 2 then 1 else 0),
      if mp < 10 then mp + 3 else mp - 9, doy - (153 * mp + 2) div 5 + 1)"
    unfolding civil_from_days_def Let_def mp_def doy_def yoe_def doe_def era_def n_def by (rule refl)
  then have y: "y = yoe + era * 400 + (if m \<le> 2 then 1 else 0)"
    and md: "m = (if mp < 10 then mp + 3 else mp - 9)" "d = doy - (153 * mp + 2) div 5 + 1"
    unfolding assms by simp_all
  have m: "1 \<le> m" "m \<le> 12" "(m + 9) mod 12 = mp" using md(1) mp(1,2) by (auto simp: mod_pos_pos_trivial)
  have y1: "(if m \<le> 2 then y - 1 else y) = yoe + era * 400" using y by auto
  have era: "(yoe + era * 400) div 400 = era" "(yoe + era * 400) mod 400 = yoe" using yd by simp_all
  have doy: "(153 * mp + 2) div 5 + d - 1 = doy" using md(2) by simp
  have "days_from_civil y m d = era * 146097 + (yoe * 365 + yoe div 4 - yoe div 100 + doy) - 719468"
    unfolding days_from_civil_def Let_def y1 m(3) era doy by (rule refl)
  also have "\<dots> = z" using doe(3) by (simp add: doy_def n_def)
  finally have "days_from_civil y m d = z" .
  moreover have "1 \<le> d" "d \<le> 31"
  proof -
    define g where "g = (153 * mp + 2) div 5"
    define h where "h = (153 * mp + 2) mod 5"
    have g: "153 * mp + 2 = 5 * g + h" unfolding g_def h_def by (rule div_parts)
    have h: "0 \<le> h" "h < 5" by (simp_all add: h_def)
    have "d = doy - g + 1" using md(2) by (simp add: g_def)
    then show "1 \<le> d" "d \<le> 31" using g h mt t by linarith+
  qed
  ultimately show ?thesis using m by blast
qed

lemma civil_year_bound:
  assumes "civil_from_days z = (y, m, d)" "\<bar>z\<bar> \<le> 100000000"
  shows "\<bar>y\<bar> < 1000000"
proof -
  define n where "n = z + 719468"
  define era where "era = n div 146097"
  define doe where "doe = n mod 146097"
  have n: "n = 146097 * era + doe" unfolding era_def doe_def by (rule div_parts)
  have doe: "0 \<le> doe" "doe \<le> 146096" by (simp_all add: doe_def)
  define yoe where "yoe = (doe - doe div 1460 + doe div 36524 - doe div 146096) div 365"
  define mp where "mp = (5 * (doe - (365 * yoe + yoe div 4 - yoe div 100)) + 2) div 153"
  have "civil_from_days z = (yoe + era * 400 + (if (if mp < 10 then mp + 3 else mp - 9) \<le> 2 then 1 else 0),
      if mp < 10 then mp + 3 else mp - 9, doe - (365 * yoe + yoe div 4 - yoe div 100) - (153 * mp + 2) div 5 + 1)"
    unfolding civil_from_days_def Let_def mp_def yoe_def doe_def era_def n_def by (rule refl)
  then have y: "y = yoe + era * 400 + (if (if mp < 10 then mp + 3 else mp - 9) \<le> 2 then 1 else 0)" unfolding assms by simp
  have yoe: "0 \<le> yoe" "yoe \<le> 399" using era_year [OF doe] unfolding yoe_def by auto
  have "\<bar>n\<bar> \<le> 100719468" using assms(2) unfolding n_def by linarith
  then have "-691 \<le> era" "era \<le> 691" using n doe by linarith+
  then show ?thesis using y yoe by (simp split: if_splits)
qed

section \<open>Texts of fixed width\<close>

lemma read_zero_padded: "read_base 10 (replicate k CHR ''0'' @ s) = read_base 10 s"
proof -
  have "digit_value CHR ''0'' = Some 0" by (simp add: digit_value_def)
  then have "foldl (\<lambda>n c. n * 10 + (case digit_value c of None \<Rightarrow> 0 | Some d \<Rightarrow> d)) 0 (replicate k CHR ''0'') = 0"
    by (induction k) simp_all
  then show ?thesis by (simp add: read_base_def)
qed

lemma read_pad_int: "0 \<le> i \<Longrightarrow> int (read_base 10 (pad_int n i)) = i"
  using read_show_base [of 10 "nat i"] by (simp add: pad_int_def padStart_def read_zero_padded)

lemma length_pad_int: "0 \<le> i \<Longrightarrow> i < 10 ^ n \<Longrightarrow> 0 < n \<Longrightarrow> length (pad_int n i) = n"
proof -
  assume i: "0 \<le> i" "i < 10 ^ n" "0 < n"
  then have "nat i < 10 ^ n" by (simp add: nat_less_iff)
  then have "length (show_nat (nat i)) \<le> n" using show_base_length [of 10 "nat i" n] i(3) by simp
  then show ?thesis by (simp add: pad_int_def max_def)
qed

lemma time_parts:
  fixes t :: int
  shows "t div 3600000 * 3600000 + t div 60000 mod 60 * 60000 + t div 1000 mod 60 * 1000 + t mod 1000 = t"
proof -
  have b: "t div 60000 = t div 1000 div 60" "t div 3600000 = t div 1000 div 60 div 60"
    by (simp_all add: zdiv_zmult2_eq [symmetric])
  show ?thesis
    using div_parts [of t 1000] div_parts [of "t div 1000" 60] div_parts [of "t div 1000 div 60" 60] unfolding b by linarith
qed

section \<open>Reading a date\<close>

definition field :: "nat \<Rightarrow> nat \<Rightarrow> string \<Rightarrow> int" where
  "field i n r = int (read_base 10 (take n (drop i r)))"

definition read_iso :: "string \<Rightarrow> int" where
  "read_iso t =
     (let negative = (t \<noteq> [] \<and> hd t = CHR ''-''); wide = (negative \<or> t \<noteq> [] \<and> hd t = CHR ''+'');
          y = (if wide then field 1 6 t else field 0 4 t);
          r = drop (if wide then 7 else 4) t
      in days_from_civil (if negative then - y else y) (field 1 2 r) (field 4 2 r) * 86400000
         + field 7 2 r * 3600000 + field 10 2 r * 60000 + field 13 2 r * 1000 + field 16 3 r)"

text \<open>\<open>new Date(text).getTime()\<close>; \<open>other\<close> is what the implementation makes of other formats.\<close>

definition date_of_text :: "(string \<Rightarrow> jsnum) \<Rightarrow> string \<Rightarrow> jsnum" where
  "date_of_text other t =
     (let ms = read_iso t in if valid_time (Num ms) \<and> iso_date ms = t then Num ms else other t)"

lemma field_at: "length a = i \<Longrightarrow> length b = n \<Longrightarrow> field i n (a @ b @ c) = int (read_base 10 b)"
  by (simp add: field_def)

lemma read_rest:
  assumes "0 \<le> m" "m < 100" "0 \<le> d" "d < 100" "0 \<le> h" "h < 100" "0 \<le> mi" "mi < 100" "0 \<le> sec" "sec < 100" "0 \<le> x" "x < 1000"
  defines "r \<equiv> ''-'' @ pad_int 2 m @ ''-'' @ pad_int 2 d @ ''T'' @ pad_int 2 h @ '':'' @ pad_int 2 mi @ '':'' @ pad_int 2 sec @ ''.'' @ pad_int 3 x @ ''Z''"
  shows "field 1 2 r = m" "field 4 2 r = d" "field 7 2 r = h" "field 10 2 r = mi" "field 13 2 r = sec" "field 16 3 r = x"
proof -
  have l: "length (pad_int 2 m) = 2" "length (pad_int 2 d) = 2" "length (pad_int 2 h) = 2" "length (pad_int 2 mi) = 2"
    "length (pad_int 2 sec) = 2" "length (pad_int 3 x) = 3"
    using assms(1-12) by (simp_all add: length_pad_int)
  note p = read_pad_int [OF assms(1)] read_pad_int [OF assms(3)] read_pad_int [OF assms(5)] read_pad_int [OF assms(7)]
    read_pad_int [OF assms(9)] read_pad_int [OF assms(11)]
  show "field 1 2 r = m" "field 4 2 r = d" "field 7 2 r = h" "field 10 2 r = mi" "field 13 2 r = sec" "field 16 3 r = x"
    unfolding r_def field_def by (simp_all add: l p drop_Cons' take_Cons')
qed

text \<open>Where the year ends and the rest begins.\<close>

lemma year_digit: "0 \<le> y \<Longrightarrow> c \<in> set (pad_int n y) \<Longrightarrow> c \<noteq> CHR ''-'' \<and> c \<noteq> CHR ''+''"
  using is_digit_show_nat [of c "nat y"] by (auto simp: pad_int_def padStart_def is_digit_def)

lemma read_year:
  fixes r :: string
  assumes "\<bar>y\<bar> < 1000000"
  defines "t \<equiv> iso_year y @ r"
  shows "let negative = (t \<noteq> [] \<and> hd t = CHR ''-''); wide = (negative \<or> t \<noteq> [] \<and> hd t = CHR ''+'') in
     (if negative then - (if wide then field 1 6 t else field 0 4 t) else (if wide then field 1 6 t else field 0 4 t)) = y
     \<and> drop (if wide then 7 else 4) t = r"
proof -
  consider (plain) "0 \<le> y" "y \<le> 9999" | (before) "y < 0" | (after) "9999 < y" by linarith
  then show ?thesis
  proof cases
    case plain
    then have l: "length (pad_int 4 y) = 4" by (intro length_pad_int) simp_all
    then have h: "hd (pad_int 4 y @ r) \<in> set (pad_int 4 y)" by (cases "pad_int 4 y") simp_all
    have "hd (pad_int 4 y @ r) \<noteq> CHR ''-'' \<and> hd (pad_int 4 y @ r) \<noteq> CHR ''+''" by (rule year_digit [OF plain(1) h])
    then show ?thesis using plain l read_pad_int [OF plain(1), of 4] by (simp add: t_def iso_year_def field_def Let_def)
  next
    case before
    then have l: "length (pad_int 6 (- y)) = 6" using assms(1) by (intro length_pad_int) simp_all
    have "0 \<le> - y" using before by simp
    from read_pad_int [OF this, of 6] show ?thesis using before l by (simp add: t_def iso_year_def field_def Let_def)
  next
    case after
    then have l: "length (pad_int 6 y) = 6" using assms(1) by (intro length_pad_int) simp_all
    have "0 \<le> y" using after by simp
    from read_pad_int [OF this, of 6] show ?thesis using after l by (simp add: t_def iso_year_def field_def Let_def)
  qed
qed

lemma read_iso_date:
  assumes "valid_time (Num ms)"
  shows "read_iso (iso_date ms) = ms"
proof -
  obtain y m d where c: "civil_from_days (ms div 86400000) = (y, m, d)" by (metis prod_cases3)
  define t where "t = ms mod 86400000"
  have t: "0 \<le> t" "t < 86400000" by (simp_all add: t_def)
  have ms: "ms = 86400000 * (ms div 86400000) + t" unfolding t_def by (rule div_parts)
  have "\<bar>ms\<bar> \<le> 8640000000000000" using assms by (simp add: valid_time_def)
  then have "\<bar>ms div 86400000\<bar> \<le> 100000000" using ms t by linarith
  then have y: "\<bar>y\<bar> < 1000000" by (rule civil_year_bound [OF c])
  note inv = civil_inverse [OF c]
  define r where "r = ''-'' @ pad_int 2 m @ ''-'' @ pad_int 2 d @ ''T'' @ pad_int 2 (t div 3600000) @ '':'' @ pad_int 2 (t div 60000 mod 60) @ '':''
     @ pad_int 2 (t div 1000 mod 60) @ ''.'' @ pad_int 3 (t mod 1000) @ ''Z''"
  have h: "0 \<le> t div 3600000" "t div 3600000 < 100" using t by (simp_all add: pos_imp_zdiv_nonneg_iff div_less_iff_less_mult)
  have sm: "0 \<le> t div 60000 mod 60" "t div 60000 mod 60 < 100" "0 \<le> t div 1000 mod 60" "t div 1000 mod 60 < 100" "0 \<le> t mod 1000" "t mod 1000 < 1000"
    by (simp_all add: order_less_trans [OF pos_mod_bound])
  have md: "0 \<le> m" "m < 100" "0 \<le> d" "d < 100" using inv by simp_all
  note f = read_rest [OF md h sm, folded r_def]
  have i: "iso_date ms = iso_year y @ r" unfolding iso_date_def c prod.case Let_def t_def [symmetric] r_def by (rule refl)
  have "read_iso (iso_date ms) = days_from_civil y m d * 86400000 + t div 3600000 * 3600000 + t div 60000 mod 60 * 60000
      + t div 1000 mod 60 * 1000 + t mod 1000"
  proof -
    define negative wide where "negative = (iso_date ms \<noteq> [] \<and> hd (iso_date ms) = CHR ''-'')"
      and "wide = (negative \<or> iso_date ms \<noteq> [] \<and> hd (iso_date ms) = CHR ''+'')"
    have "(if negative then - (if wide then field 1 6 (iso_date ms) else field 0 4 (iso_date ms))
        else if wide then field 1 6 (iso_date ms) else field 0 4 (iso_date ms)) = y" "drop (if wide then 7 else 4) (iso_date ms) = r"
      using read_year [OF y, of r] unfolding i negative_def wide_def Let_def by blast+
    then show ?thesis unfolding read_iso_def Let_def negative_def [symmetric] wide_def [symmetric] by (simp only: f)
  qed
  also have "\<dots> = ms" using time_parts [of t] ms conjunct1 [OF inv] by linarith
  finally show ?thesis .
qed

text \<open>A time that \<open>toISOString\<close> can write is what \<open>new Date\<close> reads back, whatever the implementation makes of other texts.\<close>

theorem date_of_iso_date: "toISOString (Num ms) = Inr t \<Longrightarrow> date_of_text other t = Num ms"
  by (auto simp: date_of_text_def Let_def read_iso_date split: if_splits)

end
