(* ===== verification/Roster_Restart.thy ===== *)
theory Roster_Restart
  imports Js_Date Stored_Files Webhook_Sender
begin

text \<open>
  The on-call roster of \<open>oncall-roster.ts\<close> over restarts of its process, on the text of its state file. \<open>JSON.parse\<close>
  is the parser of \<open>Js_Parse\<close>, \<open>new Date\<close> that of \<open>Js_Date\<close>; a file that \<open>saveState\<close> did not write, with
  fields of other types, counts as one that is not there.
\<close>

section \<open>The state file\<close>

definition read_state :: "(string \<Rightarrow> jsnum) \<Rightarrow> jsval \<Rightarrow> RotationState option" where
  "read_state other v =
     (case (as_nat (js_get v ''currentPrimaryIndex''), as_string (js_get v ''lastRotated'')) of
        (Some i, Some t) \<Rightarrow> Some \<lparr>rs_currentPrimaryIndex = i, rs_lastRotated = date_of_text other t\<rparr>
      | _ \<Rightarrow> None)"

definition state_content :: "(string \<Rightarrow> jsnum) \<Rightarrow> string option \<Rightarrow> RotationState option" where
  "state_content other f = Option.bind (Option.bind f parsed) (read_state other)"

text \<open>The constructor and \<open>rotate\<close>: the roster and the file after it, with the errors of the two file operations.\<close>

definition roster_started ::
  "(string \<Rightarrow> jsnum) \<Rightarrow> OnCallContact list \<Rightarrow> RotationInterval \<Rightarrow> string option \<Rightarrow> string option \<Rightarrow> int \<Rightarrow> string option
     \<Rightarrow> OnCallRoster \<times> string option" where
  "roster_started other contacts interval mkdir write now f =
     (let loaded = \<lparr>or_contacts = contacts, or_rotationInterval = interval, or_state = loadState now (state_content other f)\<rparr>;
          r = autoRotate now loaded
      in (r, case getDayOfRotation now (or_state loaded) interval of
               Some cycles \<Rightarrow> if cycles > 0 then fst (saveState mkdir write (rs_currentPrimaryIndex (or_state r)) now f) else f
             | None \<Rightarrow> f))"

definition roster_rotated :: "string option \<Rightarrow> string option \<Rightarrow> int \<Rightarrow> OnCallRoster \<Rightarrow> string option \<Rightarrow> OnCallRoster \<times> string option" where
  "roster_rotated mkdir write now r f =
     (let r' = rotate_roster now r in (r', fst (saveState mkdir write (rs_currentPrimaryIndex (or_state r')) now f)))"

text \<open>A process starts, or the roster of the running process is rotated by hand.\<close>

datatype RosterEvent = Start int | Rotate int

fun event_time :: "RosterEvent \<Rightarrow> int" where
  "event_time (Start now) = now"
| "event_time (Rotate now) = now"

fun disk_step :: "(string \<Rightarrow> jsnum) \<Rightarrow> OnCallRoster \<times> string option \<Rightarrow> RosterEvent \<Rightarrow> OnCallRoster \<times> string option" where
  "disk_step other (r, f) (Start now) = roster_started other (or_contacts r) (or_rotationInterval r) None None now f"
| "disk_step other (r, f) (Rotate now) = roster_rotated None None now r f"

text \<open>The specification: one roster that stays in memory and catches up whenever a process would start.\<close>

fun memory_step :: "OnCallRoster \<Rightarrow> RosterEvent \<Rightarrow> OnCallRoster" where
  "memory_step r (Start now) = autoRotate now r"
| "memory_step r (Rotate now) = rotate_roster now r"

lemma state_text_indent:
  "state_text i t = json_indent (JObject [(''currentPrimaryIndex'', JNumber (Num (int i))), (''lastRotated'', JString (iso_date t))])"
proof -
  have names: "\<not> is_array_index ''currentPrimaryIndex''" "\<not> is_array_index ''lastRotated''"
    by (simp_all add: is_array_index_def is_digit_def)
  have quoted: "json_quote ''currentPrimaryIndex'' = CHR 0x22 # ''currentPrimaryIndex'' @ [CHR 0x22]"
    "json_quote ''lastRotated'' = CHR 0x22 # ''lastRotated'' @ [CHR 0x22]"
    by (simp_all add: json_quote_def json_escape_def Let_def)
  show ?thesis
    by (simp add: state_text_def json_indent_def own_order_def names indented_fields_def quoted newline_def json_num_def Let_def
        numeral_2_eq_2)
qed

lemma state_read_back:
  assumes "valid_time (Num t)"
  shows "state_content other (Some (state_text i t)) = Some \<lparr>rs_currentPrimaryIndex = i, rs_lastRotated = Num t\<rparr>"
proof -
  let ?ps = "[(''currentPrimaryIndex'', JNumber (Num (int i))), (''lastRotated'', JString (iso_date t))]"
  have u: "unique_keys (JObject ?ps)" by simp
  have "js_get (revived (JObject ?ps)) ''currentPrimaryIndex'' = JNumber (Num (int i))"
    "js_get (revived (JObject ?ps)) ''lastRotated'' = JString (iso_date t)"
    by (subst js_get_revived; simp add: js_prop_def js_isFinite_def)+
  moreover have "date_of_text other (iso_date t) = Num t" using assms by (intro date_of_iso_date) simp
  ultimately show ?thesis
    unfolding state_content_def state_text_indent by (simp add: parsed_indent [OF u] read_state_def del: revived.simps)
qed

text \<open>The file holds the state in memory.\<close>

definition saved :: "(string \<Rightarrow> jsnum) \<Rightarrow> OnCallRoster \<Rightarrow> string option \<Rightarrow> bool" where
  "saved other r f = (state_content other f = Some (or_state r))"

lemma disk_step_memory:
  assumes "saved other r f" "valid_time (Num (event_time e))"
  shows "fst (disk_step other (r, f) e) = memory_step r e \<and> saved other (memory_step r e) (snd (disk_step other (r, f) e))"
proof (cases e)
  case (Start now)
  have l: "loadState now (state_content other f) = or_state r" using assms(1) by (simp add: saved_def loadState_def)
  have same: "\<lparr>or_contacts = or_contacts r, or_rotationInterval = or_rotationInterval r, or_state = or_state r\<rparr> = r" by simp
  show ?thesis unfolding Start disk_step.simps roster_started_def l same
    using assms by (auto simp: Start Let_def autoRotate_def saved_def saveState_def state_read_back rotate_by_def split: option.splits)
next
  case (Rotate now)
  then show ?thesis using assms
    by (auto simp: roster_rotated_def Let_def saved_def saveState_def state_read_back rotate_roster_def rotate_by_def)
qed

lemma disk_memory:
  assumes "saved other r f" "list_all (\<lambda>e. valid_time (Num (event_time e))) es"
  shows "fst (foldl (disk_step other) (r, f) es) = foldl memory_step r es \<and> saved other (foldl memory_step r es) (snd (foldl (disk_step other) (r, f) es))"
  using assms
proof (induction es arbitrary: r f)
  case (Cons e es)
  obtain r' f' where s: "disk_step other (r, f) e = (r', f')" by fastforce
  have v: "valid_time (Num (event_time e))" "list_all (\<lambda>e. valid_time (Num (event_time e))) es" using Cons.prems(2) by simp_all
  have m: "memory_step r e = r'" and sv: "saved other r' f'" using disk_step_memory [OF Cons.prems(1) v(1)] unfolding s by simp_all
  show ?case using Cons.IH [OF sv v(2)] unfolding foldl_Cons s m .
qed simp

lemma memory_keeps:
  "or_contacts (memory_step r e) = or_contacts r \<and> or_rotationInterval (memory_step r e) = or_rotationInterval r
   \<and> ((\<exists>t. rs_lastRotated (or_state r) = Num t) \<longrightarrow> (\<exists>t. rs_lastRotated (or_state (memory_step r e)) = Num t))"
  by (cases e) (auto simp: autoRotate_def rotate_roster_def rotate_by_def split: option.splits)

interpretation memory: invariant_system memory_step
  "\<lambda>r. or_contacts r = cs \<and> or_rotationInterval r = i \<and> (\<exists>t. rs_lastRotated (or_state r) = Num t)" for cs i
  by unfold_locales (use memory_keeps in blast)

text \<open>
  C1. A restart does not disturb the rotation once it has been saved: over any sequence of starts of the process and
  rotations by hand the roster is the one that a single process would hold that never ends, although each start
  knows only the text of the state file; and a start \<open>k\<close> whole intervals after the last rotation makes the person
  primary who is \<open>k\<close> places further round the list.\<close>

theorem restarts_keep_rotation:
  assumes "with_role PRIMARY (or_contacts r) = ps" "ps \<noteq> []" "or_state r = \<lparr>rs_currentPrimaryIndex = idx, rs_lastRotated = Num t\<rparr>"
    and "valid_time (Num t)" "list_all (\<lambda>e. valid_time (Num (event_time e))) es"
    and "0 \<le> rest" "rest < interval_ms (or_rotationInterval r)"
  shows "let (r', f') = foldl (disk_step other) (r, Some (state_text idx t)) es
    in r' = foldl memory_step r es
     \<and> (\<exists>t'. rs_lastRotated (or_state r') = Num t'
          \<and> contact_at (fst (disk_step other (r', f') (Start (t' + int k * interval_ms (or_rotationInterval r) + rest)))) PRIMARY
            = ps ! ((rs_currentPrimaryIndex (or_state r') + k) mod length ps))"
proof -
  obtain r' f' where f: "foldl (disk_step other) (r, Some (state_text idx t)) es = (r', f')" by fastforce
  have "saved other r (Some (state_text idx t))" using assms(3,4) by (simp add: saved_def state_read_back)
  from disk_memory [OF this assms(5)] have r': "r' = foldl memory_step r es" and s: "saved other r' f'" unfolding f by simp_all
  have "or_contacts r' = or_contacts r \<and> or_rotationInterval r' = or_rotationInterval r \<and> (\<exists>t. rs_lastRotated (or_state r') = Num t)"
    unfolding r' by (rule memory.run_inv) (simp add: assms(3))
  then obtain t' where k: "or_contacts r' = or_contacts r" "or_rotationInterval r' = or_rotationInterval r" "rs_lastRotated (or_state r') = Num t'"
    by blast
  let ?now = "t' + int k * interval_ms (or_rotationInterval r) + rest"
  have same: "\<lparr>or_contacts = or_contacts r', or_rotationInterval = or_rotationInterval r', or_state = or_state r'\<rparr> = r'" by simp
  have "loadState ?now (state_content other f') = or_state r'" using s by (simp add: saved_def loadState_def)
  then have "fst (disk_step other (r', f') (Start ?now)) = autoRotate ?now r'"
    by (simp add: roster_started_def Let_def same)
  moreover have "contact_at (autoRotate ?now r') PRIMARY = ps ! ((rs_currentPrimaryIndex (or_state r') + k) mod length ps)"
    using roster_rotation_fair [of r' ps t' rest "[]" k] assms(1,2,6,7) k by simp
  ultimately show ?thesis using f r' k(3) by simp
qed

text \<open>
  C1. Before the first rotation by hand the roster never rotates: with no state file, whatever the times at which the
  process starts, every start finds no file, takes itself for the last rotation and writes nothing, so the first
  of the list stays on call for good.\<close>

theorem unsaved_roster_never_rotates:
  "let (r', f') = foldl (disk_step other) (r, None) (map Start (ts @ [now]))
   in f' = None \<and> or_state r' = \<lparr>rs_currentPrimaryIndex = 0, rs_lastRotated = Num now\<rparr>
     \<and> contact_at r' role = (case with_role role (or_contacts r) of [] \<Rightarrow> na_contact role | c # _ \<Rightarrow> c)"
proof -
  have start: "disk_step other (r, None) (Start now) = (r\<lparr>or_state := \<lparr>rs_currentPrimaryIndex = 0, rs_lastRotated = Num now\<rparr>\<rparr>, None)" for r now
    by (simp add: roster_started_def state_content_def loadState_def getDayOfRotation_def autoRotate_def Let_def)
  have "\<exists>r'. foldl (disk_step other) (r, None) (map Start ts) = (r', None) \<and> or_contacts r' = or_contacts r"
  proof (induction ts arbitrary: r)
    case (Cons t ts)
    show ?case using Cons.IH [of "r\<lparr>or_state := \<lparr>rs_currentPrimaryIndex = 0, rs_lastRotated = Num t\<rparr>\<rparr>"]
      by (simp only: list.map foldl_Cons start) simp
  qed simp
  then obtain r' where "foldl (disk_step other) (r, None) (map Start ts) = (r', None)" "or_contacts r' = or_contacts r" by blast
  then show ?thesis by (simp add: start contact_at_def Let_def del: disk_step.simps split: list.split)
qed

theorem restarts_keep_rotation_witness:
  "fst (foldl (disk_step other) (demo_roster, Some (state_text 0 0)) [Start 5, Rotate 6]) = foldl memory_step demo_roster [Start 5, Rotate 6]"
  using restarts_keep_rotation [OF demo_roster_simps(1) _ demo_roster_simps(5), of "[Start 5, Rotate 6]" 0 other 0]
  by (simp add: demo_roster_simps(4) interval_ms_def valid_time_def case_prod_beta Let_def del: disk_step.simps memory_step.simps foldl.simps)

end
