(* ===== verification/User_Interface.thy ===== *)
theory User_Interface
  imports Webhook_Sender
begin

text \<open>
  The two React components (\<open>src/audit-guard/src/ui\<close>): the bounty form and the circuit breaker button. A component is
  its state and a step for each thing that happens to it: an event of the page, or the settling of the call that a
  handler awaits, where the handler goes on. Handlers see the state of the last rendering.

  What the components call (\<open>submitBounty\<close>, \<open>triggerCircuitBreaker\<close>) is the model of \<open>Webhook_Sender\<close>; its effects
  take place when the call settles. The log of submissions, the calls and their outcomes are kept as history.
\<close>

section \<open>The bounty form\<close>

text \<open>The rendered inputs, by the \<open>name\<close> that \<open>handleChange\<close> reads off the event.\<close>

datatype FormField = Field_name | Field_email | Field_severity | Field_description

definition initial_form :: BountyPayload where
  "initial_form = \<lparr>bp_name = [], bp_email = [], bp_description = [], bp_severity = ''Low'', bp_timestamp = []\<rparr>"

record BountyForm =
  bf_formData :: BountyPayload
  bf_loading :: bool
  bf_message :: string
  bf_pending :: "BountyPayload list"
  bf_calls :: "BountyPayload list"
  bf_outcomes :: "(BountyPayload \<times> int \<times> string option) list"
  bf_log :: "string list"

definition new_form :: BountyForm where
  "new_form = \<lparr>bf_formData = initial_form, bf_loading = False, bf_message = [], bf_pending = [], bf_calls = [],
     bf_outcomes = [], bf_log = []\<rparr>"

fun changed :: "FormField \<Rightarrow> string \<Rightarrow> BountyPayload \<Rightarrow> BountyPayload" where
  "changed Field_name v p = p\<lparr>bp_name := v\<rparr>"
| "changed Field_email v p = p\<lparr>bp_email := v\<rparr>"
| "changed Field_severity v p = p\<lparr>bp_severity := v\<rparr>"
| "changed Field_description v p = p\<lparr>bp_description := v\<rparr>"

definition handleChange :: "FormField \<Rightarrow> string \<Rightarrow> BountyForm \<Rightarrow> BountyForm" where
  "handleChange field v s = s\<lparr>bf_formData := changed field v (bf_formData s)\<rparr>"

text \<open>\<open>handleSubmit\<close> up to the call it awaits.\<close>

definition handleSubmit :: "BountyForm \<Rightarrow> BountyForm" where
  "handleSubmit s =
     (if bf_loading s then s
      else s\<lparr>bf_loading := True, bf_message := [], bf_pending := bf_pending s @ [bf_formData s],
             bf_calls := bf_calls s @ [bf_formData s]\<rparr>)"

text \<open>And from there on: \<open>mkdir\<close> and \<open>appended\<close> are the errors of the two file operations, \<open>now\<close> the time.\<close>

definition submitted :: "string option \<Rightarrow> string option \<Rightarrow> int \<Rightarrow> BountyForm \<Rightarrow> BountyForm" where
  "submitted mkdir appended now s =
     (case bf_pending s of
        [] \<Rightarrow> s
      | p # rest \<Rightarrow>
          (case submitBounty mkdir appended now p (bf_log s) of
             (err, lines) \<Rightarrow>
               (let t = s\<lparr>bf_pending := rest, bf_log := lines, bf_outcomes := bf_outcomes s @ [(p, now, err)], bf_loading := False\<rparr>
                in case err of
                     None \<Rightarrow> t\<lparr>bf_message := ([CHR 0xE2, CHR 0x9C, CHR 0x85] @ '' Bounty submission recorded successfully.''), bf_formData := initial_form\<rparr>
                   | Some _ \<Rightarrow> t\<lparr>bf_message := ([CHR 0xE2, CHR 0x9D, CHR 0x8C] @ '' Failed to record bounty submission.'')\<rparr>)))"

datatype FormEvent = Change FormField string | Submit | Settled "string option" "string option" int

fun form_step :: "BountyForm \<Rightarrow> FormEvent \<Rightarrow> BountyForm" where
  "form_step s (Change field v) = handleChange field v s"
| "form_step s Submit = handleSubmit s"
| "form_step s (Settled mkdir appended now) = submitted mkdir appended now s"

text \<open>What is rendered: the values of the inputs, the button and the message below it.\<close>

record FormView =
  fv_inputs :: "(string \<times> string) list"
  fv_disabled :: bool
  fv_button :: string
  fv_message :: "string option"

definition render_form :: "BountyForm \<Rightarrow> FormView" where
  "render_form s =
     \<lparr>fv_inputs = [(''name'', bp_name (bf_formData s)), (''email'', bp_email (bf_formData s)),
        (''severity'', bp_severity (bf_formData s)), (''description'', bp_description (bf_formData s))],
      fv_disabled = bf_loading s, fv_button = (if bf_loading s then (''Submitting'' @ [CHR 0xE2, CHR 0x80, CHR 0xA6]) else ''Submit Bounty''),
      fv_message = (if bf_message s \<noteq> [] then Some (bf_message s) else None)\<rparr>"

section \<open>The circuit breaker button\<close>

record BreakerButton =
  bb_loading :: bool
  bb_pending :: nat
  bb_calls :: nat
  bb_alerts :: "string list"
  bb_roster :: "OnCallRoster option"
  bb_trace :: PageTrace

definition new_button :: BreakerButton where
  "new_button = \<lparr>bb_loading = False, bb_pending = 0, bb_calls = 0, bb_alerts = [], bb_roster = None,
     bb_trace = \<lparr>pt_log = [], pt_console = [], pt_posts = []\<rparr>\<rparr>"

definition handleClick :: "BreakerButton \<Rightarrow> BreakerButton" where
  "handleClick s =
     (if bb_loading s then s else s\<lparr>bb_loading := True, bb_pending := Suc (bb_pending s), bb_calls := Suc (bb_calls s)\<rparr>)"

definition triggered_alert :: string where "triggered_alert = (''Circuit breaker triggered '' @ [CHR 0xE2, CHR 0x80, CHR 0x93] @ '' protocol paused.'')"
definition failed_alert :: string where "failed_alert = ''Failed to trigger circuit breaker.''"

text \<open>The rest of \<open>handleClick\<close>, with what the call finds around it.\<close>

definition triggered ::
  "HookWorld \<Rightarrow> GuardConfig \<Rightarrow> (nat \<Rightarrow> jsnum \<Rightarrow> jsnum) \<Rightarrow> int \<Rightarrow> OnCallRoster \<Rightarrow> BreakerButton \<Rightarrow> BreakerButton" where
  "triggered w c add_days now made s =
     (case bb_pending s of
        0 \<Rightarrow> s
      | Suc n \<Rightarrow>
          (case triggerCircuitBreaker w c add_days now made (bb_roster s) None (bb_trace s) of
             (err, roster, trace) \<Rightarrow>
               s\<lparr>bb_pending := n, bb_loading := False, bb_roster := roster, bb_trace := trace,
                 bb_alerts := bb_alerts s @ [if err = None then triggered_alert else failed_alert]\<rparr>))"

datatype ButtonEvent = Click | Answered HookWorld GuardConfig "nat \<Rightarrow> jsnum \<Rightarrow> jsnum" int OnCallRoster

fun button_step :: "BreakerButton \<Rightarrow> ButtonEvent \<Rightarrow> BreakerButton" where
  "button_step s Click = handleClick s"
| "button_step s (Answered w c add_days now made) = triggered w c add_days now made s"

definition render_button :: "BreakerButton \<Rightarrow> bool \<times> string" where
  "render_button s = (bb_loading s, if bb_loading s then (''Processing'' @ [CHR 0xE2, CHR 0x80, CHR 0xA6]) else ''Emergency Circuit Breaker'')"

section \<open>One call at a time\<close>

definition form_inv :: "BountyForm \<Rightarrow> bool" where
  "form_inv s =
     (length (bf_pending s) = (if bf_loading s then 1 else 0) \<and> bf_calls s = map fst (bf_outcomes s) @ bf_pending s
      \<and> bf_log s = map (\<lambda>(p, now, err). bounty_line now p) (filter (\<lambda>(p, now, err). err = None) (bf_outcomes s)))"

lemma submitted_inv: "form_inv s \<Longrightarrow> form_inv (submitted mkdir appended now s)"
  by (auto simp: submitted_def form_inv_def submitBounty_def Let_def split: list.splits option.splits if_splits)

lemma handlers_inv: "form_inv s \<Longrightarrow> form_inv (handleChange field v s)" "form_inv s \<Longrightarrow> form_inv (handleSubmit s)"
  by (auto simp: handleChange_def handleSubmit_def form_inv_def)

interpretation form: invariant_system form_step form_inv
proof
  fix s e assume "form_inv s"
  then show "form_inv (form_step s e)" by (cases e) (simp_all add: submitted_inv handlers_inv)
qed

lemma new_form_inv: "form_inv new_form"
  by (simp add: form_inv_def new_form_def)

text \<open>
  C1. The bounty form never submits twice: along any events at most one submission is in flight, exactly while the
  button is disabled; the calls are in order those that have settled followed by the one in flight, and the
  log file holds in order exactly one line for each that succeeded, with the data as it was when it was
  submitted.\<close>

theorem bounty_form_exact:
  "let s = foldl form_step new_form events
   in length (bf_pending s) = (if fv_disabled (render_form s) then 1 else 0)
     \<and> bf_calls s = map fst (bf_outcomes s) @ bf_pending s
     \<and> bf_log s = map (\<lambda>(p, now, err). bounty_line now p) (filter (\<lambda>(p, now, err). err = None) (bf_outcomes s))"
  using form.run_inv [OF new_form_inv, of events] by (simp add: form_inv_def render_form_def Let_def)

text \<open>A failed submission leaves what was typed in the form; a successful one empties it, also of what was typed
  while it was in flight.\<close>

lemma failed_submission_keeps_data:
  "bf_pending s \<noteq> [] \<Longrightarrow> bf_formData (submitted (Some e) appended now s) = bf_formData s
     \<and> bf_formData (submitted None (Some e) now s) = bf_formData s"
  by (auto simp: submitted_def submitBounty_def Let_def split: list.splits)

lemma edit_during_submission_lost:
  "\<not> bf_loading s \<Longrightarrow> bf_pending s = [] \<Longrightarrow>
     bf_formData (foldl form_step s [Submit, Change field v, Settled None None now]) = initial_form"
  by (simp add: handleSubmit_def handleChange_def submitted_def submitBounty_def Let_def)

section \<open>The alert of the button\<close>

definition button_inv :: "BreakerButton \<Rightarrow> bool" where
  "button_inv s =
     (bb_pending s = (if bb_loading s then 1 else 0) \<and> bb_calls s = length (bb_alerts s) + bb_pending s
      \<and> 3 * length (filter (\<lambda>a. a = triggered_alert) (bb_alerts s)) \<le> length (pt_log (bb_trace s)))"

lemma deliver_pages_none: "deliver_pages write i ps = (None, qs) \<Longrightarrow> qs = ps"
  by (induction ps arbitrary: i qs) (auto split: option.splits prod.splits)

text \<open>A call that returns has paged three people; no call takes pages out of the log.\<close>

lemma trigger_pages:
  assumes "triggerCircuitBreaker w c add_days now made inst reason t = (err, inst', t')"
  shows "length (pt_log t) + (if err = None then 3 else 0) \<le> length (pt_log t')"
proof -
  obtain roster where r: "fst (getRoster made inst) = roster" by blast
  define msg where "msg = (case reason of Some r \<Rightarrow> if r \<noteq> [] then r else (''CRITICAL finding '' @ [CHR 0xE2, CHR 0x80, CHR 0x94] @ '' manual intervention required'')
            | None \<Rightarrow> (''CRITICAL finding '' @ [CHR 0xE2, CHR 0x80, CHR 0x94] @ '' manual intervention required''))"
  let ?t = "say (''[IRP] Circuit breaker triggered: '' @ msg) t"
  obtain e ps where p: "pageCurrentOnCall add_days (page_write w) now roster msg ''CRITICAL'' ''vero-audit-guard'' = (e, ps)" by fastforce
  obtain e1 t1 where q: "page_on_call w c add_days now roster msg ''CRITICAL'' ''vero-audit-guard'' ?t = (e1, t1)" by fastforce
  have log: "e1 = e \<and> pt_log t1 = pt_log t @ map page_line ps"
    using page_on_call_refines [of add_days w now roster msg "''CRITICAL''" "''vero-audit-guard''" c ?t] p q by (simp add: say_def)
  have three: "length ps = 3" if "e = None"
  proof (cases "getCurrentOnCall add_days roster")
    case (Inr onCall)
    from p [unfolded pageCurrentOnCall_def Inr sum.case that] have "ps = map (\<lambda>contact. \<lparr>pp_contact = contact, pp_alert = msg,
        pp_severity = ''CRITICAL'', pp_timestamp = iso_date now, pp_repository = ''vero-audit-guard'', pp_rotationId = cu_rotationId onCall\<rparr>)
      [cu_primary onCall, cu_secondary onCall, cu_manager onCall]" by (rule deliver_pages_none)
    then show ?thesis by simp
  qed (use p that in \<open>simp add: pageCurrentOnCall_def\<close>)
  have "err = e1 \<and> pt_log t' = pt_log t1"
    using assms q r unfolding triggerCircuitBreaker_def msg_def [symmetric] Let_def
    by (auto simp: say_def split: prod.splits option.splits)
  then show ?thesis using log three by (cases e) auto
qed

lemma triggered_inv: "button_inv s \<Longrightarrow> button_inv (triggered w c add_days now made s)"
proof (cases "bb_pending s")
  case (Suc n)
  assume s: "button_inv s"
  obtain err roster t where t: "triggerCircuitBreaker w c add_days now made (bb_roster s) None (bb_trace s) = (err, roster, t)"
    by (metis prod_cases3)
  have "triggered_alert \<noteq> failed_alert" by (simp add: triggered_alert_def failed_alert_def)
  then show ?thesis using s Suc t trigger_pages [OF t]
    by (auto simp: triggered_def button_inv_def split: if_splits)
qed (simp add: triggered_def)

interpretation button: invariant_system button_step button_inv
proof
  fix s e assume "button_inv s"
  then show "button_inv (button_step s e)"
    by (cases e) (simp_all add: triggered_inv, simp add: handleClick_def button_inv_def)
qed

text \<open>
  C1. The circuit breaker button makes one call at a time and never claims success in vain: along any clicks and
  answers at most one call is in flight, exactly while the button is disabled; every call that has settled has
  shown one alert, and for each alert that says the breaker was triggered three pages, one for each person on call,
  are in the page log.\<close>

theorem breaker_button_exact:
  "let s = foldl button_step new_button events
   in bb_pending s = (if fst (render_button s) then 1 else 0)
     \<and> bb_calls s = length (bb_alerts s) + bb_pending s
     \<and> 3 * length (filter (\<lambda>a. a = triggered_alert) (bb_alerts s)) \<le> length (pt_log (bb_trace s))"
proof -
  have "button_inv new_button" by (simp add: button_inv_def new_button_def)
  from button.run_inv [OF this, of events] show ?thesis by (simp add: button_inv_def render_button_def Let_def)
qed

end
