(* ===== verification/Example_PRs.thy ===== *)
theory Example_PRs
  imports Policy_Engine
begin

text \<open>
  The example pull requests of the policy engine (\<open>src/audit-guard/examples/pr-data.ts\<close>) and what the built-in policies
  say of them.
\<close>

section \<open>The examples\<close>

definition example_pr :: "PullRequest \<Rightarrow> string list \<Rightarrow> int \<Rightarrow> int \<Rightarrow> PRData" where
  "example_pr p files added deleted =
     \<lparr>pd_pull_request = p, pd_files_modified = files, pd_file_contents = None, pd_additions = added, pd_deletions = deleted,
      pd_dependencies_added = None, pd_dependencies_updated = None, pd_relayer = None, pd_signature = None, pd_timestamp = None,
      pd_maintenance_mode = None, pd_maintenance_message = None\<rparr>"

definition compliantPR :: PRData where
  "compliantPR = example_pr
     \<lparr>pr_title = ''Implement OPA policy engine for PR compliance'',
      pr_body = ([CHR 0x0A] @ ''## Description'' @ [CHR 0x0A] @ ''This PR implements a comprehensive Policy as Code engine using OPA/Rego for enforcing compliance rules on GitHub PRs.'' @ [CHR 0x0A, CHR 0x0A] @ ''## Changes'' @ [CHR 0x0A] @ ''- Created OPA policy definitions (pr_compliance.rego, dependencies.rego)'' @ [CHR 0x0A] @ ''- Built TypeScript policy engine with fallback implementation'' @ [CHR 0x0A] @ ''- Integrated with GitHub Actions for automatic PR checks'' @ [CHR 0x0A] @ ''- Added comprehensive testing suite'' @ [CHR 0x0A, CHR 0x0A] @ ''## Testing'' @ [CHR 0x0A] @ ''Tested with npm test: '' @ [CHR 0xE2, CHR 0x9C, CHR 0x85] @ '' All tests passing'' @ [CHR 0x0A] @ ''- 15 compliance rules validated'' @ [CHR 0x0A] @ ''- 8 dependency checks verified'' @ [CHR 0x0A] @ ''- Report generation confirmed'' @ [CHR 0x0A, CHR 0x0A] @ ''## Security Implications'' @ [CHR 0x0A] @ ''- Enhances security posture by enforcing compliance rules'' @ [CHR 0x0A] @ ''- Prevents non-compliant code from being merged'' @ [CHR 0x0A] @ ''- Provides audit trail of policy violations'' @ [CHR 0x0A, CHR 0x0A] @ ''## Files Modified'' @ [CHR 0x0A] @ ''- src/audit-guard/src/policy-engine.ts'' @ [CHR 0x0A] @ ''- src/audit-guard/src/cli.ts'' @ [CHR 0x0A] @ ''- src/audit-guard/policies/pr_compliance.rego'' @ [CHR 0x0A] @ ''- .github/workflows/policy-compliance.yml'' @ [CHR 0x0A] @ ''    ''),
      pr_labels = [''feature'', ''security'', ''audit''], pr_base_branch = ''main'', pr_head_branch = ''feature/policy-engine'',
      pr_number = 100, pr_author = ''security-engineer''\<rparr>
     [''src/audit-guard/src/policy-engine.ts'', ''src/audit-guard/src/cli.ts'', ''src/audit-guard/policies/pr_compliance.rego'',
      ''src/audit-guard/package.json'', ''.github/workflows/policy-compliance.yml''] 450 50"

definition nonCompliantPRNoDescription :: PRData where
  "nonCompliantPRNoDescription = example_pr
     \<lparr>pr_title = ''Fix'', pr_body = [], pr_labels = [], pr_base_branch = ''main'', pr_head_branch = ''fix/quick-patch'',
      pr_number = 101, pr_author = ''developer''\<rparr> [''src/index.ts''] 5 5"

definition nonCompliantPRTooManyFiles :: PRData where
  "nonCompliantPRTooManyFiles = example_pr
     \<lparr>pr_title = ''Refactor entire codebase structure'', pr_body = ''Major refactoring of the entire codebase'', pr_labels = [],
      pr_base_branch = ''main'', pr_head_branch = ''refactor/structure'', pr_number = 102, pr_author = ''developer''\<rparr>
     (map (\<lambda>i. ''src/module'' @ show_nat i @ ''/index.ts'') [0..<50]) 2000 1500"

definition nonCompliantPRBreakingChange :: PRData where
  "nonCompliantPRBreakingChange = example_pr
     \<lparr>pr_title = ''Redesign authentication API with new interface'',
      pr_body = ([CHR 0x0A] @ ''This PR contains breaking changes to the authentication API.'' @ [CHR 0x0A] @ ''The old authenticate() function is now auth() and takes different parameters.'' @ [CHR 0x0A]),
      pr_labels = [], pr_base_branch = ''main'', pr_head_branch = ''feature/new-auth'', pr_number = 103, pr_author = ''developer''\<rparr>
     [''src/auth.ts'', ''src/index.ts''] 200 150"

definition warningPR :: PRData where
  "warningPR = example_pr
     \<lparr>pr_title = ''Add comprehensive monitoring and testing utilities'',
      pr_body = ([CHR 0x0A] @ ''This PR adds new monitoring and testing utilities to the system.'' @ [CHR 0x0A] @ ''    ''),
      pr_labels = [], pr_base_branch = ''main'', pr_head_branch = ''feature/monitoring'', pr_number = 104, pr_author = ''developer''\<rparr>
     (map (\<lambda>i. ''src/util'' @ show_nat i @ ''.ts'') [0..<25]) 300 50"

section \<open>Searching in long texts\<close>

lemma startsWith_simps: "startsWith s [] = True" "startsWith [] (p # ps) = False"
  "startsWith (c # s) (p # ps) = (c = p \<and> startsWith s ps)"
  by (auto simp: startsWith_def)

lemma str_includes_simps: "str_includes [] (p # ps) = False"
  "str_includes (c # s) (p # ps) = (c = p \<and> startsWith s ps \<or> str_includes s (p # ps))"
  by (simp_all add: startsWith_simps)

lemma compliant_body_lower: "toLowerCase (pr_body (pd_pull_request compliantPR)) = ([CHR 0x0A] @ ''## description'' @ [CHR 0x0A] @ ''this pr implements a comprehensive policy as code engine using opa/rego for enforcing compliance rules on github prs.'' @ [CHR 0x0A, CHR 0x0A] @ ''## changes'' @ [CHR 0x0A] @ ''- created opa policy definitions (pr_compliance.rego, dependencies.rego)'' @ [CHR 0x0A] @ ''- built typescript policy engine with fallback implementation'' @ [CHR 0x0A] @ ''- integrated with github actions for automatic pr checks'' @ [CHR 0x0A] @ ''- added comprehensive testing suite'' @ [CHR 0x0A, CHR 0x0A] @ ''## testing'' @ [CHR 0x0A] @ ''tested with npm test: '' @ [CHR 0xE2, CHR 0x9C, CHR 0x85] @ '' all tests passing'' @ [CHR 0x0A] @ ''- 15 compliance rules validated'' @ [CHR 0x0A] @ ''- 8 dependency checks verified'' @ [CHR 0x0A] @ ''- report generation confirmed'' @ [CHR 0x0A, CHR 0x0A] @ ''## security implications'' @ [CHR 0x0A] @ ''- enhances security posture by enforcing compliance rules'' @ [CHR 0x0A] @ ''- prevents non-compliant code from being merged'' @ [CHR 0x0A] @ ''- provides audit trail of policy violations'' @ [CHR 0x0A, CHR 0x0A] @ ''## files modified'' @ [CHR 0x0A] @ ''- src/audit-guard/src/policy-engine.ts'' @ [CHR 0x0A] @ ''- src/audit-guard/src/cli.ts'' @ [CHR 0x0A] @ ''- src/audit-guard/policies/pr_compliance.rego'' @ [CHR 0x0A] @ ''- .github/workflows/policy-compliance.yml'' @ [CHR 0x0A] @ ''    '')"
  by code_simp

lemma compliant_not_breaking: "\<not> str_includes (toLowerCase (pr_body (pd_pull_request compliantPR))) ''breaking''"
  unfolding compliant_body_lower append.simps
  by (simp add: str_includes_simps startsWith_simps del: str_includes.simps)

lemma others_breaking: "str_includes (toLowerCase (pr_body (pd_pull_request nonCompliantPRBreakingChange))) ''breaking''"
  "\<not> str_includes (toLowerCase (pr_body (pd_pull_request warningPR))) ''breaking''"
  "\<not> str_includes (toLowerCase (pr_body (pd_pull_request nonCompliantPRTooManyFiles))) ''breaking''"
  by code_simp+

lemma bodies_present: "pr_body (pd_pull_request compliantPR) \<noteq> []" "pr_body (pd_pull_request nonCompliantPRBreakingChange) \<noteq> []"
  "pr_body (pd_pull_request warningPR) \<noteq> []" "pr_body (pd_pull_request nonCompliantPRTooManyFiles) \<noteq> []"
  by (simp_all add: compliantPR_def nonCompliantPRBreakingChange_def warningPR_def nonCompliantPRTooManyFiles_def example_pr_def)

section \<open>What the policies say\<close>

definition rules_violated :: "string option \<Rightarrow> (string \<Rightarrow> nat list \<Rightarrow> nat list \<Rightarrow> string + bool) \<Rightarrow> int \<Rightarrow> PRData \<Rightarrow> string list option" where
  "rules_violated env vf now d =
     (case evaluateWithoutOPA env vf now d [] of Inl _ \<Rightarrow> None | Inr r \<Rightarrow> Some (map pv_rule (er_violations r)))"

lemma rules_of_example:
  "rules_violated env vf now (example_pr p files added deleted) =
     Some (''RELAYER_SIGNATURE_MISSING'' # map pv_rule (title_checks p @ body_violations p))"
  by (simp add: rules_violated_def example_pr_def evaluateWithoutOPA_def verifyRelayerSignature_def signature_fields_def
      crypto_violations_def Let_def violation_def)

lemma rules_of_title: "10 \<le> length (pr_title p) \<Longrightarrow> title_checks p = []"
  by (auto simp: title_checks_def)

lemma rules_of_body: "pr_body p \<noteq> [] \<Longrightarrow> \<not> str_includes (toLowerCase (pr_body p)) ''breaking'' \<Longrightarrow> body_violations p = []"
  by (simp add: body_violations_def)

lemma example_pull_request: "pd_pull_request (example_pr p files added deleted) = p"
  by (simp add: example_pr_def)

lemma titles: "10 \<le> length (pr_title (pd_pull_request compliantPR))" "10 \<le> length (pr_title (pd_pull_request nonCompliantPRTooManyFiles))"
  "10 \<le> length (pr_title (pd_pull_request nonCompliantPRBreakingChange))" "10 \<le> length (pr_title (pd_pull_request warningPR))"
  by (simp_all add: compliantPR_def nonCompliantPRTooManyFiles_def nonCompliantPRBreakingChange_def warningPR_def example_pr_def)

lemma example_form: "d = example_pr (pd_pull_request d) (pd_files_modified d) (pd_additions d) (pd_deletions d)"
  if "d \<in> {compliantPR, nonCompliantPRNoDescription, nonCompliantPRTooManyFiles, nonCompliantPRBreakingChange, warningPR}"
  using that by (auto simp: compliantPR_def nonCompliantPRNoDescription_def nonCompliantPRTooManyFiles_def nonCompliantPRBreakingChange_def
      warningPR_def example_pr_def simp del: upt_Suc)

lemma rules_of:
  "d \<in> {compliantPR, nonCompliantPRNoDescription, nonCompliantPRTooManyFiles, nonCompliantPRBreakingChange, warningPR} \<Longrightarrow>
   rules_violated env vf now d =
     Some (''RELAYER_SIGNATURE_MISSING'' # map pv_rule (title_checks (pd_pull_request d) @ body_violations (pd_pull_request d)))"
  by (subst example_form, assumption) (simp only: rules_of_example)

text \<open>
  C1. The examples under the built-in policies: every example pull request, the compliant one and the one that is to give
  only warnings included, is rejected because it carries no relayer signature. Beside that the compliant, the
  warning and the too-many-files example violate nothing, so the last is not rejected for its size; the one without
  a description violates the rules on title and description, and the unlabelled breaking change its rule.\<close>

theorem examples_rejected:
  "rules_violated env vf now compliantPR = Some [''RELAYER_SIGNATURE_MISSING'']
   \<and> rules_violated env vf now warningPR = Some [''RELAYER_SIGNATURE_MISSING'']
   \<and> rules_violated env vf now nonCompliantPRTooManyFiles = Some [''RELAYER_SIGNATURE_MISSING'']
   \<and> rules_violated env vf now nonCompliantPRNoDescription
       = Some [''RELAYER_SIGNATURE_MISSING'', ''PR_TITLE_TOO_SHORT'', ''PR_DESCRIPTION_MISSING'']
   \<and> rules_violated env vf now nonCompliantPRBreakingChange = Some [''RELAYER_SIGNATURE_MISSING'', ''BREAKING_CHANGE_NOT_LABELED'']"
proof -
  have none: "title_checks (pd_pull_request nonCompliantPRNoDescription) @ body_violations (pd_pull_request nonCompliantPRNoDescription)
      = [violation ''PR_TITLE_TOO_SHORT'' ''MEDIUM'' (cross_mark @ '' PR title is too short'') (''Title '' @ quote @ ''Fix'' @ quote @ '' is less than 10 characters''),
         violation ''PR_DESCRIPTION_MISSING'' ''HIGH'' (cross_mark @ '' PR description is required'')
           ''Provide a detailed description of changes, security implications, and testing'']"
    by (simp add: nonCompliantPRNoDescription_def example_pr_def title_checks_def body_violations_def)
  have labels: "pr_labels (pd_pull_request nonCompliantPRBreakingChange) = []"
    by (simp add: nonCompliantPRBreakingChange_def example_pr_def)
  have breaking: "map pv_rule (body_violations (pd_pull_request nonCompliantPRBreakingChange)) = [''BREAKING_CHANGE_NOT_LABELED'']"
    using bodies_present(2) others_breaking(1) labels by (simp add: body_violations_def violation_def)
  show ?thesis
    by (simp add: rules_of rules_of_title titles rules_of_body bodies_present compliant_not_breaking others_breaking none breaking violation_def)
qed

end
