(* ===== verification/Spec2Isabelle.thy ===== *)
theory Spec2Isabelle
  imports
    Protocol_Machine
    Ingestion_Guard
    Emergency_Exit
    Relay_Bridge
    Local_Server
    Rate_Limits
    Audit_Trail
    Gas_Batch
    Rpc_Health
    Anomaly_Detector
    Severity_Tiering
    Security_Gate
    Overflow_Check
    Relayer_State
    Policy_Bundle
    Policy_Engine
    Alert_Channels
    Policy_Report
    Rbac_Mapper
    Crypto_Scanner
    Logic_Detector
    Treasury_Scanner
    Log_Analyzer
    Event_Log
    Input_Monitor
    Webhook_Sender
    Log_Backup
    Scan_Report
    Command_Line
    Relayer_Monitor
    Service_Edges
    Pr_Extraction
    Stored_Logs
    Stored_Files
    Roster_Restart
    User_Interface
    Example_PRs
begin

text \<open>
  The Vero audit guard: a verification development of its TypeScript services.

  The system watches a relayer and its contracts. \<open>src/audit-guard\<close> is the toolbox: a scan protocol
  state machine, an ingestion guard for telemetry, an emergency-exit engine, rate limiters, a batch
  simulator with its gas profiler, severity tiering, the CI security gate, drift and overflow
  analyses, the reconciliation of relayer and chain state. \<open>anomaly-detector\<close> polls relayer metrics
  through the ingestion guard, remembers nonces in a file that several processes share, and fails over
  between RPC nodes. \<open>atomic-rpc-relayer-bridge\<close> forwards requests to RPC endpoints, lets the other
  endpoints vote on the answer and serves its audit log locally. \<open>verifiable-audit-trail\<close> anchors
  report hashes on the Stellar ledger and verifies reports against it.

  \<^bold>\<open>Shared theories.\<close>
  \<^item> \<open>Guard_Prelude\<close>: JavaScript's insertion-ordered \<open>Map\<close> as a list of pairs (set keeps a key's
    place, touch moves it to the end), capped logs, severities with their order, and the interfaces:
    \<open>keyed_table\<close> (map laws), \<open>capped_log\<close> (a bounded log holds the newest entries),
    \<open>invariant_system\<close>, \<open>monotone_system\<close> and \<open>accounted_system\<close> (folding steps keeps an invariant,
    grows a measure, accounts for its output). All are interpreted on the definitions of the components.
  \<^item> \<open>Js_Text\<close>: the string operations the sources use, decimal printing, ISO dates.
  \<^item> \<open>Js_Json\<close>: numbers with \<open>NaN\<close> and infinities, dynamic values, property access with its
    errors, JSON text.
  \<^item> \<open>Js_Number\<close>: \<open>Number(text)\<close>, with decimal literals as rationals.
  \<^item> \<open>Js_Bytes\<close>: byte buffers, UTF-8, hexadecimal and Base64 with their round trips.
  \<^item> \<open>Js_Regex\<close>: regular expressions as data with the language's backtracking search; the search is
    shown to find a match exactly when the inductive relation \<open>matches\<close> has one.
  \<^item> \<open>Js_Parse\<close>: \<open>JSON.parse\<close> as a recursive-descent parser; it succeeds exactly on the texts of an
    inductive grammar. Its fuel is twice the length of the text and one more, which is proved to be enough; numbers
    with a fraction or an exponent are a failure of their own.
  \<^item> \<open>Js_Roundtrip\<close>: \<open>JSON.stringify\<close> with indentation, and that parsing reads back what was written; the
    locale \<open>json_codec\<close> says what the stores need of a pair of writer and reader.
  \<^item> \<open>Js_Date\<close>: \<open>new Date\<close> on the texts of \<open>toISOString\<close>, which reads back every time.

  Strings are lists of characters that stand for code units; error values are the left side of a sum.
  Integers are unbounded except where the code has 64-bit checks (\<open>Emergency_Exit\<close>, \<open>Overflow_Check\<close>)
  or 32-bit arithmetic (the snapshot hash of \<open>Protocol_Machine\<close> is computed on words).

  \<^bold>\<open>Components.\<close>
  \<^item> \<open>Protocol_Machine\<close> (\<open>protocol-state-machine.ts\<close>): record \<open>Machine\<close>; \<open>apply_event\<close>, \<open>tryApply\<close>,
    \<open>sm_shutdown\<close>, \<open>commit\<close> and the observers' records. Shown: the invariant of every reachable
    machine, the retained history as the newest of all transitions, when an event is committed against
    a diagram given as an inductive relation, what a session that ends in DONE consists of, which
    exceptions escape.
  \<^item> \<open>Ingestion_Guard\<close> (\<open>telemetry-ingestion-guard.ts\<close>): token bucket, validation, queue. Shown:
    bounds, first in first out without silent loss, the rate bound over any clock that does not run
    back. The locale \<open>ingestion_boundary\<close> is the contract the anomaly detector relies on.
  \<^item> \<open>Emergency_Exit\<close> (\<open>core/emergency-exit.ts\<close>): every operation runs its block inside the frame
    \<open>locking\<close>, which takes the lock, refuses re-entry and releases in its \<open>finally\<close>; a halt or recovery is split at its asynchronous
    notification, so other calls interleave. Shown: lock discipline, mutual exclusion, which changes
    there are, no reactivation, conservation of funds, injectivity of the signed text. The signature
    check and SHA-256 are the arguments \<open>vf\<close> and \<open>sh\<close>.
  \<^item> \<open>Relay_Bridge\<close>, \<open>Local_Server\<close> (\<open>atomic-rpc-relayer-bridge/src\<close>): canonical JSON, voting,
    retries, audit log; routes and bearer tokens. Shown: the quorum behind a verified answer, found in the
    history of the requests that were sent and their answers, request bounds, independence of key order, the audit log, failing closed. HTTP answers and URL parsing are
    arguments.
  \<^item> \<open>Rate_Limits\<close> (\<open>rate-limit-monitor.ts\<close>, \<open>ip-tracker.ts\<close>): exact window counts, bounds on what
    is tracked, bans that hold.
  \<^item> \<open>Audit_Trail\<close> (\<open>verifiable-audit-trail/src\<close>): hashing, anchoring, verification and the command
    line. Shown: soundness of acceptance, the anchor and verify round trip, completeness over a
    directory, the meaning of exit codes. Files, SHA-256, Horizon and the SDK are a record of
    functions.
  \<^item> \<open>Gas_Batch\<close> (\<open>gas-profiler.ts\<close>, \<open>batch-contract-call-processor.ts\<close>): the worker pool is a step
    relation over all interleavings and an executable schedule that refines it. Its fuel is twice the
    number of tasks, which is proved to be the length of every complete schedule.
  \<^item> \<open>Rpc_Health\<close>, \<open>Anomaly_Detector\<close> (\<open>anomaly-detector/src\<close>): node failover, failover statistics,
    threat feeds; detection rounds, and the nonce file shared by processes as a step relation with
    time-outs, failures of every file operation and the loss a replacement that fails twice leaves behind; as long as
    the file can be read, no update is lost otherwise.
  \<^item> \<open>Severity_Tiering\<close>, \<open>Security_Gate\<close> (also \<open>diff-engine.ts\<close>), \<open>Overflow_Check\<close> (also
    \<open>abstract-interpreter.ts\<close>), \<open>Relayer_State\<close> (also \<open>watcher/nonce-anomaly-watcher.ts\<close>): escalation
    never lowers a severity, the gate passes only with a reason, drift reports and reconciliation are
    exact, interval analysis is sound. The expression evaluator terminates by the length of its text.

  \<^item> \<open>Policy_Bundle\<close> (\<open>policy-bundle-verifier.ts\<close>, \<open>policy-bundle-cli.ts\<close>): manifests of the policy
    directory, their canonical text, signing, verification and the maintainer's commands. Shown: a
    verified bundle is what a trusted key signed, the canonical text binds the manifest, signing and
    verifying round-trip. Files, SHA-256, Ed25519 and \<open>JSON.parse\<close> are arguments.
  \<^item> \<open>Policy_Engine\<close>, \<open>Policy_Report\<close> (\<open>policy-engine.ts\<close>): a pull request is evaluated by OPA or by the
    built-in policies, the verdict is joined with the bundle's and the run is driven through the
    protocol machine. Shown: exactly which pull requests are admitted, failing closed, readiness for
    the next scan, that tampering reaches the dashboard and the report.
  \<^item> \<open>Alert_Channels\<close> (\<open>dashboard-client.ts\<close>, \<open>anomaly-alert-dispatcher.ts\<close>, \<open>oncall-roster.ts\<close>,
    \<open>multisig-webhook-notifier.ts\<close>): alerts to the dashboard, to signers and to the people on call.
    Shown: exact batch results and counters, fair rotation, no silent failure.
  \<^item> \<open>Rbac_Mapper\<close> (\<open>rbac-mapper.ts\<close>): roles, inheritance, escalation paths, least privilege. The
    locale \<open>permission_resolver\<close> states what the detectors need of the resolution of permissions; the
    search over roles terminates by the number of roles not yet visited.
  \<^item> \<open>Crypto_Scanner\<close>, \<open>Logic_Detector\<close> (\<open>crypto-patterns.ts\<close>, \<open>crypto-scanner.ts\<close>,
    \<open>logic-patterns.ts\<close>, \<open>logic-detector.ts\<close>), \<open>Treasury_Scanner\<close> (\<open>multisig-treasury-scanner.ts\<close>):
    the pattern libraries as regular expressions over source lines. Shown: what the scans report,
    in which order, and what single patterns mean.

  \<^item> \<open>Log_Analyzer\<close> (\<open>log-analyzer.ts\<close>): error patterns and spikes. The spike loop is a partial function,
    since it may run forever; shown: it ends for sensible settings, and what it then reports.
  \<^item> \<open>Event_Log\<close> (\<open>event-log-scanner.ts\<close>): lines of JSON, pairs or free text become entries of one form.
    Shown: which entries are sensitive, what the index holds, when the scan fails.
  \<^item> \<open>Input_Monitor\<close> (\<open>input-sanitization-monitor.ts\<close>): the probes run against a validator, which is an
    argument. Shown: exactly the probes that the code does not take for handled are reported.
  \<^item> \<open>Webhook_Sender\<close> (\<open>webhook.ts\<close>, \<open>config.ts\<close>, \<open>irps.ts\<close>, \<open>bounty.ts\<close> and the delivery of pages in
    \<open>oncall-roster.ts\<close>). Shown: when a result says delivered, one log line per result, an escalation
    reaches all three people on call. Delivering to all channels refines the page log of
    \<open>Alert_Channels\<close>.
  \<^item> \<open>Log_Backup\<close> (\<open>backup.ts\<close>, \<open>archiver.ts\<close>, \<open>archive-cli.ts\<close>): a file system of resolved paths. Shown: a
    backup can be restored, archiving loses nothing. \<open>rsync\<close>, S3 and gzip are arguments.
  \<^item> \<open>Scan_Report\<close> (\<open>report-generator.ts\<close>, \<open>audit-trail.ts\<close>, \<open>security-protocol.ts\<close>): drawing commands of
    the PDF report, anchoring of results. Shown: the report is complete and ordered, an anchor is the
    ledger's answer to the hash of the result.
  \<^item> \<open>Command_Line\<close> (\<open>cli.ts\<close>, \<open>security-gate-cli.ts\<close>): every command over the components above, with
    console, files, pages and exit code. Shown: exit code 0 only with a clean verdict.
  \<^item> \<open>Relayer_Monitor\<close> (\<open>monitor\<close> and the channels of \<open>anomaly-detector/src/index.ts\<close>, the channels and
    timer of \<open>nonce-anomaly-watcher.ts\<close>): a polling cycle composes the threat feed, the health checker,
    the failover monitor, the ingestion guard and the detection round. Cycles overlap, since the interval does not
    wait; a cycle is suspended at its awaits. Shown: over any cycles every
    alert found is dispatched, whatever else fails.
  \<^item> \<open>Service_Edges\<close>: settings, addresses and files at the edges of the services (Horizon lookup, start
    of the local server, stored reports).
  \<^item> \<open>Pr_Extraction\<close> (the helper \<open>scripts/extract-pr-data.js\<close> of the workflow): what it writes is what the policy check
    reads, and no pull request passes on it, since it writes no relayer, signature or time.
  \<^item> \<open>Stored_Logs\<close>, \<open>Stored_Files\<close>: the files between the components. The logs that the senders write are read back by the
    event scanner; manifests, reports and the version counter survive their files.
  \<^item> \<open>Roster_Restart\<close>: the roster as the text of its state file over restarts refines the one process that never ends.
  \<^item> \<open>User_Interface\<close> (the state and handlers of the React components): one submission in flight at a time, messages that
    tell what happened.
  \<^item> \<open>Example_PRs\<close> (the example data of the policies): what the built-in policies say of each.

  \<^bold>\<open>Numbers.\<close> Where the code computes with fractions (tokens, success rates, balances) the model uses
  exact rationals in place of doubles; \<open>NaN\<close> and the infinities are kept where a value comes from
  outside and the code compares it.

  \<^bold>\<open>Texts.\<close> Characters beyond the code units of a text, such as the pictograms of the reports, are
  written as their UTF-8 bytes.

  \<^bold>\<open>Not modelled.\<close> Sockets, the firing of timers (a timer is the list of the calls it makes), the layout
  of PDF pages, dumps of whole objects to the console; the Rust scanner and contracts, which are a
  separate implementation; the markup of the React components. External programs and services
  (OPA, rsync, S3, Horizon, the Stellar SDK, HTTP endpoints) are arguments of the definitions that use
  them, and so is \<open>JSON.parse\<close> in the components; the theories on stored files and logs put the parser in its
  place. Alerts that are sent without waiting are taken in the order of their calls.
\<close>

end
